(* ===== verification/Orca_Prelude.thy ===== *)
theory Orca_Prelude
  imports Main "HOL-Library.Word" "HOL-Library.Sublist"
begin

text \<open>
  Shared vocabulary of the development: the collections of rewrite rules, the result type of
  fallible Rust code and its sequencing, and generic facts on lists and association lists that
  several components use. Nothing in this theory models a particular source file.
\<close>

section \<open>Collections\<close>

named_theorems result_simps \<open>sequencing of fallible computations\<close>
named_theorems rust_str \<open>characteristic facts of the string operations\<close>
named_theorems utf8_simps \<open>facts on UTF-8 scanning\<close>

section \<open>Results\<close>

text \<open>
  A Rust \<open>Result<T, E>\<close> is a sum with the error on the left; the \<open>?\<close> operator is
  \<open>and_then\<close>: an error ends the computation with that error.
\<close>

type_synonym ('e, 'a) result = "'e + 'a"

fun and_then :: "('e, 'a) result \<Rightarrow> ('a \<Rightarrow> ('e, 'b) result) \<Rightarrow> ('e, 'b) result" where
  "and_then (Inl e) f = Inl e"
| "and_then (Inr x) f = f x"

fun map_result :: "('a \<Rightarrow> ('e, 'b) result) \<Rightarrow> 'a list \<Rightarrow> ('e, 'b list) result" where
  "map_result f [] = Inr []"
| "map_result f (x # xs) = and_then (f x) (\<lambda>y. and_then (map_result f xs) (\<lambda>ys. Inr (y # ys)))"

definition is_ok :: "('e, 'a) result \<Rightarrow> bool" where
  "is_ok r \<longleftrightarrow> (case r of Inl _ \<Rightarrow> False | Inr _ \<Rightarrow> True)"

lemma is_ok_simps [simp]: "is_ok (Inr x)" "\<not> is_ok (Inl e)"
  by (simp_all add: is_ok_def)

lemma is_ok_iff: "is_ok r \<longleftrightarrow> (\<exists>x. r = Inr x)"
  by (cases r) simp_all

lemma and_then_Inr [result_simps]:
  "and_then r f = Inr y \<longleftrightarrow> (\<exists>x. r = Inr x \<and> f x = Inr y)"
  by (cases r) simp_all

lemma and_then_Inl [result_simps]:
  "and_then r f = Inl e \<longleftrightarrow> r = Inl e \<or> (\<exists>x. r = Inr x \<and> f x = Inl e)"
  by (cases r) simp_all

lemma map_result_Inr:
  "map_result f xs = Inr ys \<longleftrightarrow> list_all2 (\<lambda>x y. f x = Inr y) xs ys"
  by (induction xs arbitrary: ys) (auto simp: and_then_Inr list_all2_Cons1)

lemma map_result_length: "map_result f xs = Inr ys \<Longrightarrow> length ys = length xs"
  by (simp add: map_result_Inr list_all2_lengthD)

lemma map_result_all: "map_result f xs = Inr ys \<Longrightarrow> (\<And>x y. f x = Inr y \<Longrightarrow> P y) \<Longrightarrow> list_all P ys"
  by (induction xs arbitrary: ys) (auto simp: and_then_Inr)

lemma map_result_is_ok:
  "(\<exists>ys. map_result f xs = Inr ys) \<longleftrightarrow> (\<forall>x \<in> set xs. \<exists>y. f x = Inr y)"
  by (induction xs) (auto simp: and_then_Inr)

text \<open>A loop whose body only fails or goes on, and an early return on a condition.\<close>

fun for_each :: "('a \<Rightarrow> ('e, unit) result) \<Rightarrow> 'a list \<Rightarrow> ('e, unit) result" where
  "for_each f [] = Inr ()"
| "for_each f (x # xs) = and_then (f x) (\<lambda>_. for_each f xs)"

definition fail_if :: "bool \<Rightarrow> 'e \<Rightarrow> ('e, unit) result" where
  "fail_if b e = (if b then Inl e else Inr ())"

lemma for_each_ok [simp]: "for_each f xs = Inr () \<longleftrightarrow> list_all (\<lambda>x. f x = Inr ()) xs"
  by (induction xs) (auto simp: and_then_Inr)

lemma fail_if_ok [simp]: "fail_if b e = Inr () \<longleftrightarrow> \<not> b"
  by (simp add: fail_if_def)

lemma and_then_unit_ok: "and_then r (\<lambda>_. s) = Inr y \<longleftrightarrow> r = Inr () \<and> s = Inr y"
  by (cases r) simp_all

section \<open>Lists\<close>

lemma take_append_drop_eq: "xs = take n xs @ drop n xs"
  by simp

lemma list_all_concat: "list_all P (concat xss) \<longleftrightarrow> list_all (list_all P) xss"
  by (induction xss) simp_all

lemma sublist_singleton: "sublist [x] xs \<longleftrightarrow> x \<in> set xs"
proof
  assume "sublist [x] xs"
  then show "x \<in> set xs" by (auto simp: sublist_def)
next
  assume "x \<in> set xs"
  then obtain ys zs where "xs = ys @ x # zs" by (meson split_list)
  then show "sublist [x] xs" by (auto simp: sublist_def intro: exI [of _ ys])
qed

lemma sublist_set: "sublist xs ys \<Longrightarrow> set xs \<subseteq> set ys"
  by (auto simp: sublist_def)

lemma list_all2_map_eq: "list_all2 (\<lambda>x y. y = f x) xs ys \<longleftrightarrow> ys = map f xs"
  by (auto simp: list_all2_conv_all_nth list_eq_iff_nth_eq)

section \<open>Association lists\<close>

text \<open>
  Hash maps and B-tree maps are association lists with distinct keys; the order of the list is
  the order in which an iterator visits the entries. \<open>al_insert\<close> replaces the value of a
  present key in place and appends a new key.
\<close>

fun al_insert :: "'k \<Rightarrow> 'v \<Rightarrow> ('k \<times> 'v) list \<Rightarrow> ('k \<times> 'v) list" where
  "al_insert k v [] = [(k, v)]"
| "al_insert k v ((k', v') # xs) = (if k' = k then (k, v) # xs else (k', v') # al_insert k v xs)"

definition al_remove :: "'k \<Rightarrow> ('k \<times> 'v) list \<Rightarrow> ('k \<times> 'v) list" where
  "al_remove k xs = filter (\<lambda>(k', _). k' \<noteq> k) xs"

lemma map_of_al_insert [simp]: "map_of (al_insert k v xs) = (map_of xs)(k \<mapsto> v)"
  by (induction xs) (auto simp: fun_eq_iff)

lemma keys_al_insert: "fst ` set (al_insert k v xs) = insert k (fst ` set xs)"
proof (induction xs)
  case Nil
  then show ?case by simp
next
  case (Cons p xs)
  then show ?case by (cases p) (simp add: insert_commute)
qed

lemma distinct_al_insert: "distinct (map fst xs) \<Longrightarrow> distinct (map fst (al_insert k v xs))"
proof (induction xs)
  case Nil
  then show ?case by simp
next
  case (Cons p xs)
  have "fst ` set (al_insert k v xs) = insert k (fst ` set xs)" by (rule keys_al_insert)
  with Cons show ?case by (cases p) auto
qed

lemma map_of_al_remove: "map_of (al_remove k xs) = (map_of xs)(k := None)"
  by (induction xs) (auto simp: al_remove_def fun_eq_iff)

lemma distinct_al_remove: "distinct (map fst xs) \<Longrightarrow> distinct (map fst (al_remove k xs))"
  by (simp add: al_remove_def distinct_map_filter)

lemma distinct_map_of_filter:
  "distinct (map fst xs) \<Longrightarrow> map_of (filter (\<lambda>(k, v). P k v) xs) k =
     (case map_of xs k of None \<Rightarrow> None | Some v \<Rightarrow> if P k v then Some v else None)"
  by (induction xs) (auto split: option.splits simp: map_of_eq_None_iff)

lemma map_of_rev_distinct: "distinct (map fst xs) \<Longrightarrow> map_of (rev xs) = map_of xs"
proof (induction xs)
  case (Cons p xs)
  then have "map_of xs (fst p) = None" "map_of (rev xs) = map_of xs"
    by (simp_all add: map_of_eq_None_iff)
  then show ?case
    by (cases p) (auto simp: fun_eq_iff map_add_def split: option.splits)
qed simp

text \<open>
  The contract of a keyed collection, as the standard library promises it: a lookup after an
  insertion or a removal, and that the keys stay distinct.
\<close>

locale keyed_store =
  fixes lookup :: "'s \<Rightarrow> 'k \<Rightarrow> 'v option"
    and insert_entry :: "'k \<Rightarrow> 'v \<Rightarrow> 's \<Rightarrow> 's"
    and remove_entry :: "'k \<Rightarrow> 's \<Rightarrow> 's"
    and wf :: "'s \<Rightarrow> bool"
  assumes lookup_insert: "lookup (insert_entry k v s) = (lookup s)(k \<mapsto> v)"
    and lookup_remove: "lookup (remove_entry k s) = (lookup s)(k := None)"
    and wf_insert: "wf s \<Longrightarrow> wf (insert_entry k v s)"
    and wf_remove: "wf s \<Longrightarrow> wf (remove_entry k s)"
begin

lemma lookup_insert_same: "lookup (insert_entry k v s) k = Some v"
  by (simp add: lookup_insert)

lemma lookup_insert_other: "k' \<noteq> k \<Longrightarrow> lookup (insert_entry k v s) k' = lookup s k'"
  by (simp add: lookup_insert)

lemma lookup_remove_insert: "lookup (remove_entry k (insert_entry k v s)) = (lookup s)(k := None)"
  by (simp add: lookup_insert lookup_remove)

lemma fold_insert_wf: "wf s \<Longrightarrow> wf (fold (\<lambda>(k, v). insert_entry k v) kvs s)"
  by (induction kvs arbitrary: s) (auto intro: wf_insert)

lemma fold_insert_lookup:
  "lookup (fold (\<lambda>(k, v). insert_entry k v) kvs s) k =
     (case map_of (rev kvs) k of None \<Rightarrow> lookup s k | Some v \<Rightarrow> Some v)"
proof (induction kvs arbitrary: s)
  case Nil
  then show ?case by simp
next
  case (Cons p kvs)
  obtain k' v' where p: "p = (k', v')" by (cases p)
  show ?case
    by (simp add: p Cons.IH lookup_insert map_add_def split: option.splits)
qed

end

interpretation al: keyed_store map_of al_insert al_remove "\<lambda>xs. distinct (map fst xs)"
  by unfold_locales (auto simp: map_of_al_remove distinct_al_insert distinct_al_remove)

text \<open>The contract of a log whose entries never change, and what it gives over runs.\<close>

locale append_only_log =
  fixes step :: "'s \<Rightarrow> 's \<Rightarrow> bool"
    and entry :: "'s \<Rightarrow> 'k \<Rightarrow> 'v option"
  assumes step_keeps: "step s t \<Longrightarrow> entry s k = Some v \<Longrightarrow> entry t k = Some v"
begin

lemma run_keeps: "step\<^sup>*\<^sup>* s t \<Longrightarrow> entry s k = Some v \<Longrightarrow> entry t k = Some v"
  by (induction rule: rtranclp_induct) (auto dest: step_keeps)

lemma run_dom: "step\<^sup>*\<^sup>* s t \<Longrightarrow> dom (entry s) \<subseteq> dom (entry t)"
  using run_keeps by (fastforce simp: dom_def)

end

end
