(* ===== verification/Rust_Std.thy ===== *)
theory Rust_Std
  imports Orca_Prelude
begin

text \<open>
  The part of Rust's standard library that the modelled code uses, on byte strings. A Rust
  \<open>str\<close> and a \<open>[u8]\<close> are both lists of bytes (\<open>char\<close> is a byte in HOL); the
  operations that are defined on Unicode scalar values (\<open>trim\<close>,
  \<open>split_whitespace\<close>) are written on the UTF-8 encoding of the characters they test for.
\<close>

section \<open>Bytes\<close>

abbreviation ord :: "char \<Rightarrow> nat" where
  "ord c \<equiv> of_char c"

abbreviation CR :: char where "CR \<equiv> CHR 0x0D"
abbreviation LF :: char where "LF \<equiv> CHR 0x0A"
abbreviation NUL :: char where "NUL \<equiv> CHR 0x00"

abbreviation CRLF :: string where "CRLF \<equiv> [CHR 0x0D, CHR 0x0A]"
abbreviation CRLFCRLF :: string where
  "CRLFCRLF \<equiv> [CHR 0x0D, CHR 0x0A, CHR 0x0D, CHR 0x0A]"

lemma ord_less_256 [simp]: "ord c < 256"
  by (rule nat_of_char_less_256)

lemma ord_inj: "ord c = ord d \<longleftrightarrow> c = d"
  by (rule of_char_eq_iff)

definition is_ascii_digit :: "char \<Rightarrow> bool" where
  "is_ascii_digit c \<longleftrightarrow> 48 \<le> ord c \<and> ord c \<le> 57"

definition is_ascii_upper :: "char \<Rightarrow> bool" where
  "is_ascii_upper c \<longleftrightarrow> 65 \<le> ord c \<and> ord c \<le> 90"

definition is_ascii_lower :: "char \<Rightarrow> bool" where
  "is_ascii_lower c \<longleftrightarrow> 97 \<le> ord c \<and> ord c \<le> 122"

definition is_ascii_alphabetic :: "char \<Rightarrow> bool" where
  "is_ascii_alphabetic c \<longleftrightarrow> is_ascii_upper c \<or> is_ascii_lower c"

definition is_ascii_alphanumeric :: "char \<Rightarrow> bool" where
  "is_ascii_alphanumeric c \<longleftrightarrow> is_ascii_digit c \<or> is_ascii_upper c \<or> is_ascii_lower c"

definition is_ascii_hexdigit :: "char \<Rightarrow> bool" where
  "is_ascii_hexdigit c \<longleftrightarrow> is_ascii_digit c \<or> 65 \<le> ord c \<and> ord c \<le> 70 \<or> 97 \<le> ord c \<and> ord c \<le> 102"

definition ascii_lower :: "char \<Rightarrow> char" where
  "ascii_lower c = (if is_ascii_upper c then char_of (ord c + 32) else c)"

definition ascii_upper :: "char \<Rightarrow> char" where
  "ascii_upper c = (if is_ascii_lower c then char_of (ord c - 32) else c)"

definition to_ascii_lowercase :: "string \<Rightarrow> string" where
  "to_ascii_lowercase s = map ascii_lower s"

definition to_ascii_uppercase :: "string \<Rightarrow> string" where
  "to_ascii_uppercase s = map ascii_upper s"

definition eq_ignore_ascii_case :: "string \<Rightarrow> string \<Rightarrow> bool" where
  "eq_ignore_ascii_case s t \<longleftrightarrow> to_ascii_lowercase s = to_ascii_lowercase t"

lemma ascii_lower_idem [simp]: "ascii_lower (ascii_lower c) = ascii_lower c"
  by (auto simp: ascii_lower_def is_ascii_upper_def)

lemma to_ascii_lowercase_idem [simp]:
  "to_ascii_lowercase (to_ascii_lowercase s) = to_ascii_lowercase s"
  by (simp add: to_ascii_lowercase_def)

lemma length_to_ascii_lowercase [simp]: "length (to_ascii_lowercase s) = length s"
  by (simp add: to_ascii_lowercase_def)

section \<open>Searching\<close>

definition starts_with :: "string \<Rightarrow> string \<Rightarrow> bool" where
  "starts_with p s \<longleftrightarrow> take (length p) s = p"

definition ends_with :: "string \<Rightarrow> string \<Rightarrow> bool" where
  "ends_with p s \<longleftrightarrow> length p \<le> length s \<and> drop (length s - length p) s = p"

definition strip_prefix :: "string \<Rightarrow> string \<Rightarrow> string option" where
  "strip_prefix p s = (if starts_with p s then Some (drop (length p) s) else None)"

definition strip_suffix :: "string \<Rightarrow> string \<Rightarrow> string option" where
  "strip_suffix p s = (if ends_with p s then Some (take (length s - length p) s) else None)"

text \<open>
  \<open>find_sub p s\<close> is the index of the first occurrence of \<open>p\<close> in \<open>s\<close>: it models
  \<open>str::find\<close> with a string pattern and \<open>windows(n).position(|w| w == p)\<close>.
\<close>

fun find_sub :: "string \<Rightarrow> string \<Rightarrow> nat option" where
  "find_sub p [] = (if p = [] then Some 0 else None)"
| "find_sub p (c # s) =
     (if starts_with p (c # s) then Some 0 else map_option Suc (find_sub p s))"

definition contains :: "string \<Rightarrow> string \<Rightarrow> bool" where
  "contains p s \<longleftrightarrow> find_sub p s \<noteq> None"

fun position :: "('a \<Rightarrow> bool) \<Rightarrow> 'a list \<Rightarrow> nat option" where
  "position P [] = None"
| "position P (x # xs) = (if P x then Some 0 else map_option Suc (position P xs))"

lemma starts_with_prefix [rust_str]: "starts_with p s \<longleftrightarrow> prefix p s"
  by (metis append_take_drop_id prefixE prefixI starts_with_def append_eq_conv_conj)

lemma starts_with_append [simp]: "starts_with p (p @ s)"
  by (simp add: starts_with_def)

lemma starts_with_append_mono: "starts_with p s \<Longrightarrow> starts_with p (s @ t)"
  by (simp add: starts_with_prefix)

lemma ends_with_suffix [rust_str]: "ends_with p s \<longleftrightarrow> suffix p s"
proof
  assume "ends_with p s"
  then show "suffix p s"
    by (metis append_take_drop_id ends_with_def suffixI)
next
  assume "suffix p s"
  then show "ends_with p s"
    by (auto simp: suffix_def ends_with_def)
qed

lemma find_sub_Some_iff:
  "find_sub p s = Some i \<longleftrightarrow>
     i \<le> length s \<and> starts_with p (drop i s) \<and> (\<forall>j < i. \<not> starts_with p (drop j s))"
proof (induction p s arbitrary: i rule: find_sub.induct)
  case (1 p)
  then show ?case by (auto simp: starts_with_def)
next
  case (2 p c s)
  show ?case
  proof (cases "starts_with p (c # s)")
    case True
    then show ?thesis by (cases i) auto
  next
    case False
    with 2 show ?thesis by (cases i) (auto simp: All_less_Suc2)
  qed
qed

lemma find_sub_SomeD:
  assumes "find_sub p s = Some i"
  shows "s = take i s @ p @ drop (i + length p) s" "i + length p \<le> length s"
proof -
  from assms have i: "i \<le> length s" and p: "starts_with p (drop i s)"
    by (simp_all add: find_sub_Some_iff)
  then have "drop i s = p @ drop (length p) (drop i s)"
    by (metis append_take_drop_id starts_with_def)
  then have d: "drop i s = p @ drop (i + length p) s"
    by (simp add: add.commute)
  then show "s = take i s @ p @ drop (i + length p) s"
    by (metis append_take_drop_id)
  from p have "length (take (length p) (drop i s)) = length p" by (simp add: starts_with_def)
  with i show "i + length p \<le> length s" by simp
qed

lemma find_sub_None_iff: "find_sub p s = None \<longleftrightarrow> \<not> sublist p s"
proof (induction p s rule: find_sub.induct)
  case (1 p)
  then show ?case by (simp add: sublist_Nil_right)
next
  case (2 p c s)
  then show ?case by (auto simp: sublist_Cons_right starts_with_prefix)
qed

lemma contains_sublist [rust_str]: "contains p s \<longleftrightarrow> sublist p s"
  by (simp add: contains_def find_sub_None_iff)

lemma contains_append_left: "contains p s \<Longrightarrow> contains p (s @ t)"
  by (auto simp: contains_sublist sublist_def) (metis append.assoc)

lemma contains_append_right: "contains p t \<Longrightarrow> contains p (s @ t)"
  by (auto simp: contains_sublist sublist_def) (metis append.assoc)

lemma contains_char: "contains [c] s \<longleftrightarrow> c \<in> set s"
  by (simp add: contains_sublist sublist_singleton)

lemma find_sub_append:
  assumes "find_sub p s = Some i" "p \<noteq> []"
  shows "find_sub p (s @ t) = Some i"
proof -
  from assms(1) have i: "i + length p \<le> length s" by (rule find_sub_SomeD)
  have eq: "starts_with p (drop j (s @ t)) \<longleftrightarrow> starts_with p (drop j s)" if "j \<le> i" for j
    using that i by (simp add: starts_with_def)
  from assms(1) have "i \<le> length s" "starts_with p (drop i s)" "\<forall>j < i. \<not> starts_with p (drop j s)"
    by (simp_all add: find_sub_Some_iff)
  then have "i \<le> length (s @ t) \<and> starts_with p (drop i (s @ t))
      \<and> (\<forall>j < i. \<not> starts_with p (drop j (s @ t)))"
    using eq by (metis length_append less_imp_le order.refl trans_le_add1)
  then show ?thesis by (subst find_sub_Some_iff)
qed

lemma find_sub_first: "p \<noteq> [] \<Longrightarrow> find_sub p (p @ s) = Some 0"
  using starts_with_append [of p s] by (cases p) (simp_all del: starts_with_append)

lemma find_sub_char: "find_sub [c] s = position (\<lambda>x. x = c) s"
  by (induction s) (auto simp: starts_with_def)

lemma position_Some: "position P xs = Some i \<Longrightarrow>
    i < length xs \<and> P (xs ! i) \<and> (\<forall>x \<in> set (take i xs). \<not> P x)"
  by (induction xs arbitrary: i) (auto split: if_splits)

lemma position_None: "position P xs = None \<longleftrightarrow> (\<forall>x \<in> set xs. \<not> P x)"
  by (induction xs) auto

lemma position_append:
  "position P (xs @ ys) = (case position P xs of Some i \<Rightarrow> Some i
     | None \<Rightarrow> map_option ((+) (length xs)) (position P ys))"
  by (induction xs) (auto simp: option.map_comp comp_def map_option_case split: option.splits)

section \<open>Splitting and joining\<close>

definition split_once :: "string \<Rightarrow> string \<Rightarrow> (string \<times> string) option" where
  "split_once p s = (case find_sub p s of None \<Rightarrow> None
     | Some i \<Rightarrow> Some (take i s, drop (i + length p) s))"

definition rsplit_once :: "char \<Rightarrow> string \<Rightarrow> (string \<times> string) option" where
  "rsplit_once c s = (case position (\<lambda>x. x = c) (rev s) of None \<Rightarrow> None
     | Some i \<Rightarrow> Some (take (length s - Suc i) s, drop (length s - i) s))"

fun split_char :: "char \<Rightarrow> string \<Rightarrow> string list" where
  "split_char c [] = [[]]"
| "split_char c (x # xs) =
     (if x = c then [] # split_char c xs
      else (case split_char c xs of [] \<Rightarrow> [[x]] | y # ys \<Rightarrow> (x # y) # ys))"

fun join :: "string \<Rightarrow> string list \<Rightarrow> string" where
  "join p [] = []"
| "join p [x] = x"
| "join p (x # y # ys) = x @ p @ join p (y # ys)"

function split_str :: "string \<Rightarrow> string \<Rightarrow> string list" where
  "split_str p s = (if p = [] then [s] else
     (case find_sub p s of None \<Rightarrow> [s]
      | Some i \<Rightarrow> take i s # split_str p (drop (i + length p) s)))"
  by pat_completeness auto
termination
proof (relation "measure (\<lambda>(p, s). length s)")
  show "wf (measure (\<lambda>(p, s). length s))" by simp
next
  fix p s :: string and i
  assume "p \<noteq> []" "find_sub p s = Some i"
  with find_sub_SomeD(2) [of p s i] show "((p, drop (i + length p) s), p, s) \<in> measure (\<lambda>(p, s). length s)"
    by (cases p) auto
qed

declare split_str.simps [simp del]

text \<open>\<open>splitn(3, c)\<close>: one, two or three pieces, the last one unsplit.\<close>

definition splitn3 :: "char \<Rightarrow> string \<Rightarrow> string list" where
  "splitn3 c s = (case split_once [c] s of None \<Rightarrow> [s]
     | Some (a, r) \<Rightarrow> (case split_once [c] r of None \<Rightarrow> [a, r] | Some (b, r') \<Rightarrow> [a, b, r']))"

text \<open>\<open>str::lines\<close>: a line ends with LF or CRLF; a last line without LF keeps its CR.\<close>

definition lines :: "string \<Rightarrow> string list" where
  "lines s = (let ps = split_char LF s in
     map (\<lambda>l. case strip_suffix [CR] l of None \<Rightarrow> l | Some l' \<Rightarrow> l') (butlast ps)
       @ (if last ps = [] then [] else [last ps]))"

function replace_all :: "string \<Rightarrow> string \<Rightarrow> string \<Rightarrow> string" where
  "replace_all p r s = (if p = [] then s else
     (case find_sub p s of None \<Rightarrow> s
      | Some i \<Rightarrow> take i s @ r @ replace_all p r (drop (i + length p) s)))"
  by pat_completeness auto
termination
proof (relation "measure (\<lambda>(p, r, s). length s)")
  show "wf (measure (\<lambda>(p, r, s). length s))" by simp
next
  fix p r s :: string and i
  assume "p \<noteq> []" "find_sub p s = Some i"
  with find_sub_SomeD(2) [of p s i]
  show "((p, r, drop (i + length p) s), p, r, s) \<in> measure (\<lambda>(p, r, s). length s)"
    by (cases p) auto
qed

declare replace_all.simps [simp del]

lemma split_char_nonempty [simp]: "split_char c s \<noteq> []"
  by (induction s) (auto split: list.splits)

lemma join_split_char [simp]: "join [c] (split_char c s) = s"
proof (induction s)
  case Nil
  then show ?case by simp
next
  case (Cons x xs)
  obtain y ys where eq: "split_char c xs = y # ys"
    by (meson neq_Nil_conv split_char_nonempty)
  with Cons show ?case by (cases ys) auto
qed

lemma split_char_no_sep: "x \<in> set (split_char c s) \<Longrightarrow> c \<notin> set x"
  by (induction s arbitrary: x) (auto split: list.splits if_splits)

lemma split_char_set: "x \<in> set (split_char c s) \<Longrightarrow> set x \<subseteq> set s"
proof (induction s arbitrary: x)
  case Nil
  then show ?case by simp
next
  case (Cons a s)
  obtain y ys where eq: "split_char c s = y # ys"
    by (meson neq_Nil_conv split_char_nonempty)
  with Cons show ?case by (fastforce split: if_splits)
qed

lemma length_split_char: "length (split_char c s) = Suc (length (filter (\<lambda>x. x = c) s))"
proof (induction s)
  case Nil
  then show ?case by simp
next
  case (Cons a s)
  obtain y ys where eq: "split_char c s = y # ys"
    by (meson neq_Nil_conv split_char_nonempty)
  with Cons show ?case by simp
qed

lemma split_char_append_no_sep:
  "c \<notin> set s \<Longrightarrow> split_char c (s @ c # t) = s # split_char c t"
  by (induction s) auto

lemma split_char_single: "c \<notin> set s \<Longrightarrow> split_char c s = [s]"
  by (induction s) auto

lemma split_char_join:
  "xs \<noteq> [] \<Longrightarrow> (\<forall>x \<in> set xs. c \<notin> set x) \<Longrightarrow> split_char c (join [c] xs) = xs"
proof (induction "[c]" xs rule: join.induct)
  case (2 x)
  then show ?case by (simp add: split_char_single)
next
  case (3 x y ys)
  then show ?case by (simp add: split_char_append_no_sep)
qed simp

lemma set_join: "set (join p xs) \<subseteq> set p \<union> \<Union> (set (map set xs))"
  by (induction p xs rule: join.induct) auto

lemma split_once_Some:
  "split_once p s = Some (a, b) \<Longrightarrow> s = a @ p @ b \<and> \<not> (\<exists>i < length a. starts_with p (drop i s))"
  using find_sub_SomeD [of p s] by (fastforce simp: split_once_def find_sub_Some_iff split: option.splits)

lemma split_once_None: "split_once p s = None \<longleftrightarrow> \<not> sublist p s"
  by (simp add: split_once_def find_sub_None_iff split: option.splits) (metis find_sub_None_iff option.distinct(1))

lemma split_once_char_Some:
  "split_once [c] s = Some (a, b) \<longleftrightarrow> s = a @ c # b \<and> c \<notin> set a"
proof (induction s arbitrary: a)
  case Nil
  then show ?case by (simp add: split_once_def)
next
  case (Cons x s)
  show ?case
  proof (cases "x = c")
    case True
    then show ?thesis
      by (cases a) (auto simp: split_once_def starts_with_def)
  next
    case False
    then have "split_once [c] (x # s) = map_option (\<lambda>(a, b). (x # a, b)) (split_once [c] s)"
      by (auto simp: split_once_def starts_with_def split: option.splits)
    with False Cons show ?thesis
      by (cases a) auto
  qed
qed

end
