(* ===== verification/Rust_Text.thy ===== *)
theory Rust_Text
  imports Rust_Std
begin

text \<open>
  Numbers, white space and UTF-8 of the Rust standard library: \<open>parse\<close> and
  \<open>from_str_radix\<close> on unsigned integers with their overflow rule, \<open>format!\<close> of
  decimal and hexadecimal numbers, \<open>trim\<close>, \<open>split_whitespace\<close>, strict and lossy
  UTF-8 decoding.
\<close>

section \<open>Numbers\<close>

definition digit_value :: "nat \<Rightarrow> char \<Rightarrow> nat option" where
  "digit_value radix c =
     (let v = (if is_ascii_digit c then ord c - 48
               else if is_ascii_lower c then ord c - 87
               else if is_ascii_upper c then ord c - 55 else 36)
      in if v < radix then Some v else None)"

fun digits_value :: "nat \<Rightarrow> nat \<Rightarrow> string \<Rightarrow> nat option" where
  "digits_value radix acc [] = Some acc"
| "digits_value radix acc (c # cs) =
     (case digit_value radix c of None \<Rightarrow> None
      | Some d \<Rightarrow> digits_value radix (acc * radix + d) cs)"

text \<open>
  \<open>uN::from_str_radix\<close>: the empty string and a lone sign are errors, one leading \<open>+\<close> is
  accepted, a leading \<open>-\<close> is an invalid digit, and a value of \<open>2 ^ bits\<close> or more is an
  overflow error.
\<close>

definition parse_uint :: "nat \<Rightarrow> nat \<Rightarrow> string \<Rightarrow> nat option" where
  "parse_uint radix bits s =
     (let ds = (case s of c # cs \<Rightarrow> if c = CHR ''+'' \<and> cs \<noteq> [] then cs else s | [] \<Rightarrow> s)
      in if ds = [] then None
         else (case digits_value radix 0 ds of None \<Rightarrow> None
               | Some v \<Rightarrow> if v < 2 ^ bits then Some v else None))"

definition digit_char :: "nat \<Rightarrow> char" where
  "digit_char d = (if d < 10 then char_of (48 + d) else char_of (87 + d))"

fun show_radix :: "nat \<Rightarrow> nat \<Rightarrow> string" where
  "show_radix radix n =
     (if n < radix \<or> radix < 2 then [digit_char n]
      else show_radix radix (n div radix) @ [digit_char (n mod radix)])"

declare show_radix.simps [simp del]

abbreviation show_nat :: "nat \<Rightarrow> string" where
  "show_nat \<equiv> show_radix 10"

abbreviation show_hex :: "nat \<Rightarrow> string" where
  "show_hex \<equiv> show_radix 16"

text \<open>\<open>{:02X}\<close> of a byte.\<close>

definition hex_upper :: "nat \<Rightarrow> char" where
  "hex_upper d = (if d < 10 then char_of (48 + d) else char_of (55 + d))"

definition show_hex02 :: "char \<Rightarrow> string" where
  "show_hex02 c = [hex_upper (ord c div 16), hex_upper (ord c mod 16)]"

lemma ord_char_of_small [simp]: "n < 256 \<Longrightarrow> ord (char_of n) = n"
  by simp

lemma digit_value_digit_char: "d < radix \<Longrightarrow> radix \<le> 16 \<Longrightarrow> digit_value radix (digit_char d) = Some d"
  by (auto simp: digit_value_def digit_char_def is_ascii_digit_def is_ascii_lower_def
      is_ascii_upper_def Let_def)

lemma digit_value_hex_upper: "d < 16 \<Longrightarrow> digit_value 16 (hex_upper d) = Some d"
  by (auto simp: digit_value_def hex_upper_def is_ascii_digit_def is_ascii_lower_def
      is_ascii_upper_def Let_def)

lemma digits_value_append:
  "digits_value radix acc (xs @ ys) =
     (case digits_value radix acc xs of None \<Rightarrow> None | Some v \<Rightarrow> digits_value radix v ys)"
  by (induction xs arbitrary: acc) (auto split: option.splits)

lemma digits_value_show_radix:
  assumes "2 \<le> radix" "radix \<le> 16"
  shows "digits_value radix 0 (show_radix radix n) = Some n"
  using assms
proof (induction radix n rule: show_radix.induct)
  case (1 radix n)
  show ?case
  proof (cases "n < radix")
    case True
    with 1 show ?thesis by (subst show_radix.simps) (simp add: digit_value_digit_char)
  next
    case False
    with 1 have "digits_value radix 0 (show_radix radix (n div radix)) = Some (n div radix)" by simp
    moreover have "digit_value radix (digit_char (n mod radix)) = Some (n mod radix)"
      using 1 by (intro digit_value_digit_char) auto
    ultimately show ?thesis
      using False 1 by (subst show_radix.simps) (simp add: digits_value_append)
  qed
qed

lemma show_radix_nonempty [simp]: "show_radix radix n \<noteq> []"
  by (subst show_radix.simps) simp

lemma show_radix_digits:
  assumes "2 \<le> radix" "radix \<le> 16"
  shows "c \<in> set (show_radix radix n) \<Longrightarrow> \<exists>d < radix. c = digit_char d"
  using assms
proof (induction radix n rule: show_radix.induct)
  case (1 radix n)
  from "1.prems" have m: "n mod radix < radix" by simp
  show ?case
  proof (cases "n < radix")
    case True
    with "1.prems" show ?thesis by (subst (asm) show_radix.simps) auto
  next
    case False
    with "1.prems" have "c \<in> set (show_radix radix (n div radix)) \<or> c = digit_char (n mod radix)"
      by (subst (asm) show_radix.simps) auto
    then show ?thesis
    proof
      assume "c \<in> set (show_radix radix (n div radix))"
      with False "1.prems" show ?thesis by (intro "1.IH") auto
    qed (use m in blast)
  qed
qed

lemma digit_char_is_hexdigit: "d < 16 \<Longrightarrow> is_ascii_hexdigit (digit_char d)"
  by (auto simp: digit_char_def is_ascii_hexdigit_def is_ascii_digit_def)

lemma show_radix_hexdigit:
  "2 \<le> radix \<Longrightarrow> radix \<le> 16 \<Longrightarrow> c \<in> set (show_radix radix n) \<Longrightarrow> is_ascii_hexdigit c"
  using show_radix_digits [of radix c n] digit_char_is_hexdigit by auto

lemma is_ascii_hexdigit_neq:
  "is_ascii_hexdigit c \<Longrightarrow> c \<noteq> CHR ''+'' \<and> c \<noteq> CR \<and> c \<noteq> LF \<and> c \<noteq> CHR '';'' \<and> c \<noteq> CHR '' ''"
  by (auto simp: is_ascii_hexdigit_def is_ascii_digit_def)

lemma parse_uint_show_radix:
  assumes "2 \<le> radix" "radix \<le> 16" "n < 2 ^ bits"
  shows "parse_uint radix bits (show_radix radix n) = Some n"
proof -
  obtain c cs where s: "show_radix radix n = c # cs"
    by (meson neq_Nil_conv show_radix_nonempty)
  then have "is_ascii_hexdigit c" using assms by (intro show_radix_hexdigit [of radix c n]) auto
  then have "c \<noteq> CHR ''+''" by (simp add: is_ascii_hexdigit_neq)
  moreover have "digits_value radix 0 (c # cs) = Some n"
    using digits_value_show_radix [of radix n] assms by (simp add: s)
  ultimately show ?thesis
    using assms by (simp add: parse_uint_def s Let_def)
qed

lemma parse_uint_bound: "parse_uint radix bits s = Some v \<Longrightarrow> v < 2 ^ bits"
  by (auto simp: parse_uint_def Let_def split: option.splits if_splits list.splits)

section \<open>White space\<close>

text \<open>
  The UTF-8 encodings of the characters with the Unicode property \<open>White_Space\<close>. On valid
  UTF-8 an encoded character can only occur at a character boundary, so testing for these byte
  sequences is testing for the characters.
\<close>

definition ws_seqs :: "string list" where
  "ws_seqs =
     [[CHR 0x20], [CHR 0x09], [CHR 0x0A], [CHR 0x0B], [CHR 0x0C], [CHR 0x0D],
      [CHR 0xC2, CHR 0x85], [CHR 0xC2, CHR 0xA0], [CHR 0xE1, CHR 0x9A, CHR 0x80],
      [CHR 0xE2, CHR 0x80, CHR 0x80], [CHR 0xE2, CHR 0x80, CHR 0x81],
      [CHR 0xE2, CHR 0x80, CHR 0x82], [CHR 0xE2, CHR 0x80, CHR 0x83],
      [CHR 0xE2, CHR 0x80, CHR 0x84], [CHR 0xE2, CHR 0x80, CHR 0x85],
      [CHR 0xE2, CHR 0x80, CHR 0x86], [CHR 0xE2, CHR 0x80, CHR 0x87],
      [CHR 0xE2, CHR 0x80, CHR 0x88], [CHR 0xE2, CHR 0x80, CHR 0x89],
      [CHR 0xE2, CHR 0x80, CHR 0x8A], [CHR 0xE2, CHR 0x80, CHR 0xA8],
      [CHR 0xE2, CHR 0x80, CHR 0xA9], [CHR 0xE2, CHR 0x80, CHR 0xAF],
      [CHR 0xE2, CHR 0x81, CHR 0x9F], [CHR 0xE3, CHR 0x80, CHR 0x80]]"

definition ws_prefix :: "string \<Rightarrow> nat" where
  "ws_prefix s = (case List.find (\<lambda>w. starts_with w s) ws_seqs of None \<Rightarrow> 0 | Some w \<Rightarrow> length w)"

definition ws_suffix :: "string \<Rightarrow> nat" where
  "ws_suffix s = (case List.find (\<lambda>w. ends_with w s) ws_seqs of None \<Rightarrow> 0 | Some w \<Rightarrow> length w)"

lemma ws_prefix_le: "ws_prefix s \<le> length s"
  by (auto simp: ws_prefix_def find_Some_iff starts_with_prefix prefix_length_le split: option.splits)

lemma ws_suffix_le: "ws_suffix s \<le> length s"
  by (auto simp: ws_suffix_def find_Some_iff ends_with_def split: option.splits)

function trim_start :: "string \<Rightarrow> string" where
  "trim_start s = (if ws_prefix s = 0 then s else trim_start (drop (ws_prefix s) s))"
  by pat_completeness auto
termination
proof (relation "measure length")
  fix s assume "ws_prefix s \<noteq> 0"
  with ws_prefix_le [of s] show "(drop (ws_prefix s) s, s) \<in> measure length"
    by simp
qed simp

function trim_end :: "string \<Rightarrow> string" where
  "trim_end s = (if ws_suffix s = 0 then s else trim_end (take (length s - ws_suffix s) s))"
  by pat_completeness auto
termination
proof (relation "measure length")
  fix s assume "ws_suffix s \<noteq> 0"
  with ws_suffix_le [of s] show "(take (length s - ws_suffix s) s, s) \<in> measure length"
    by simp
qed simp

declare trim_start.simps [simp del] trim_end.simps [simp del]

definition trim :: "string \<Rightarrow> string" where
  "trim s = trim_end (trim_start s)"

text \<open>The word before the first white space, and what follows it.\<close>

fun take_word :: "string \<Rightarrow> string \<times> string" where
  "take_word [] = ([], [])"
| "take_word (c # s) = (if ws_prefix (c # s) \<noteq> 0 then ([], c # s)
     else (let (w, r) = take_word s in (c # w, r)))"

lemma take_word_append: "fst (take_word s) @ snd (take_word s) = s"
  by (induction s) (auto simp: split_beta)

lemma take_word_length: "length (snd (take_word s)) \<le> length s"
  using arg_cong [OF take_word_append [of s], of length] by simp

lemma trim_start_le: "length (trim_start s) \<le> length s"
proof (induction s rule: trim_start.induct)
  case (1 s)
  then show ?case by (subst trim_start.simps) auto
qed

function split_whitespace :: "string \<Rightarrow> string list" where
  "split_whitespace s = (case trim_start s of [] \<Rightarrow> []
     | c # r \<Rightarrow> (let (w, r') = take_word r in (c # w) # split_whitespace r'))"
  by pat_completeness auto
termination
proof (relation "measure length")
  show "wf (measure length)" by simp
next
  fix s c r x w r'
  assume "trim_start s = c # r" "x = take_word r" "(w, r') = x"
  then have "r' = snd (take_word r)" "length r < length s"
    using trim_start_le [of s] by (auto dest: arg_cong [of _ _ snd])
  then show "(r', s) \<in> measure length"
    using take_word_length [of r] by simp
qed

declare split_whitespace.simps [simp del]

text \<open>\<open>str::find(char::is_whitespace)\<close>.\<close>

fun find_whitespace :: "string \<Rightarrow> nat option" where
  "find_whitespace [] = None"
| "find_whitespace (c # s) =
     (if ws_prefix (c # s) \<noteq> 0 then Some 0 else map_option Suc (find_whitespace s))"

lemma trim_start_suffix: "suffix (trim_start s) s"
proof (induction s rule: trim_start.induct)
  case (1 s)
  then show ?case
    by (subst trim_start.simps) (auto intro: suffix_order.trans suffix_drop)
qed

lemma trim_end_prefix: "prefix (trim_end s) s"
proof (induction s rule: trim_end.induct)
  case (1 s)
  then show ?case
    by (subst trim_end.simps) (auto intro: prefix_order.trans take_is_prefix)
qed

lemma trim_sublist: "sublist (trim s) s"
  unfolding trim_def
  by (meson prefix_imp_sublist suffix_imp_sublist sublist_order.order.trans
      trim_end_prefix trim_start_suffix)

definition ascii_ws :: "char \<Rightarrow> bool" where
  "ascii_ws c \<longleftrightarrow> c \<in> {CHR 0x20, CHR 0x09, CHR 0x0A, CHR 0x0B, CHR 0x0C, CHR 0x0D}"

lemma ws_seqs_ends:
  "list_all (\<lambda>w. w \<noteq> [] \<and> (ascii_ws (hd w) \<or> 128 \<le> ord (hd w)) \<and>
     (ascii_ws (last w) \<or> 128 \<le> ord (last w))) ws_seqs"
  by (simp add: ws_seqs_def ascii_ws_def)

lemma ws_prefix_0_ascii:
  assumes "\<not> ascii_ws c" "ord c < 128"
  shows "ws_prefix (c # s) = 0"
proof -
  have "\<not> starts_with w (c # s)" if "w \<in> set ws_seqs" for w
    using that ws_seqs_ends assms by (auto simp: list_all_iff starts_with_prefix prefix_Cons)
  then show ?thesis
    by (auto simp: ws_prefix_def find_Some_iff split: option.splits)
qed

lemma ws_suffix_0_ascii:
  assumes "\<not> ascii_ws c" "ord c < 128"
  shows "ws_suffix (s @ [c]) = 0"
proof -
  have "\<not> ends_with w (s @ [c])" if "w \<in> set ws_seqs" for w
    using that ws_seqs_ends assms
    by (auto simp: list_all_iff ends_with_suffix suffix_snoc)
  then show ?thesis
    by (auto simp: ws_suffix_def find_Some_iff split: option.splits)
qed

text \<open>A string that begins and ends with a printable ASCII byte is left alone by \<open>trim\<close>.\<close>

definition printable_ascii :: "char \<Rightarrow> bool" where
  "printable_ascii c \<longleftrightarrow> 33 \<le> ord c \<and> ord c < 127"

lemma trim_printable:
  assumes "s \<noteq> []" "printable_ascii (hd s)" "printable_ascii (last s)"
  shows "trim s = s"
proof -
  obtain c r where s: "s = c # r" using assms(1) by (cases s) auto
  have "ws_prefix (c # r) = 0"
    using assms(2) by (intro ws_prefix_0_ascii) (auto simp: s printable_ascii_def ascii_ws_def)
  then have st: "trim_start s = s" by (subst trim_start.simps) (simp add: s)
  obtain t d where sd: "s = t @ [d]" using assms(1) by (cases s rule: rev_cases) auto
  have "ws_suffix (t @ [d]) = 0"
    using assms(3) by (intro ws_suffix_0_ascii) (auto simp: sd printable_ascii_def ascii_ws_def)
  then have "trim_end s = s" by (subst trim_end.simps) (simp add: sd)
  with st show ?thesis by (simp add: trim_def)
qed

end
