(* ===== verification/Utf8.thy ===== *)
theory Utf8
  imports Rust_Text
begin

text \<open>
  UTF-8 as the standard library checks it. \<open>utf8_scan\<close> looks at the first character of a byte
  string: whether it is well formed, and how many bytes it takes (of an ill-formed one, the
  length of the maximal invalid part that \<open>String::from_utf8_lossy\<close> replaces by U+FFFD).
  \<open>is_utf8\<close> is \<open>str::from_utf8\<close> succeeding, \<open>utf8_lossy\<close> is
  \<open>String::from_utf8_lossy\<close>.
\<close>

definition byte_at :: "string \<Rightarrow> nat \<Rightarrow> nat" where
  "byte_at s i = (if i < length s then ord (s ! i) else 0)"

definition is_cont :: "nat \<Rightarrow> bool" where
  "is_cont b \<longleftrightarrow> 128 \<le> b \<and> b \<le> 191"

definition second_of_3 :: "nat \<Rightarrow> nat \<Rightarrow> bool" where
  "second_of_3 b b1 \<longleftrightarrow>
     (if b = 224 then 160 \<le> b1 \<and> b1 \<le> 191
      else if b = 237 then 128 \<le> b1 \<and> b1 \<le> 159 else is_cont b1)"

definition second_of_4 :: "nat \<Rightarrow> nat \<Rightarrow> bool" where
  "second_of_4 b b1 \<longleftrightarrow>
     (if b = 240 then 144 \<le> b1 \<and> b1 \<le> 191
      else if b = 244 then 128 \<le> b1 \<and> b1 \<le> 143 else is_cont b1)"

definition utf8_scan :: "string \<Rightarrow> bool \<times> nat" where
  "utf8_scan s =
     (let b = byte_at s 0; b1 = byte_at s 1; b2 = byte_at s 2; b3 = byte_at s 3 in
      if b < 128 then (True, 1)
      else if 194 \<le> b \<and> b \<le> 223 then (if is_cont b1 then (True, 2) else (False, 1))
      else if 224 \<le> b \<and> b \<le> 239 then
        (if second_of_3 b b1 then (if is_cont b2 then (True, 3) else (False, 2)) else (False, 1))
      else if 240 \<le> b \<and> b \<le> 244 then
        (if second_of_4 b b1
         then (if is_cont b2 then (if is_cont b3 then (True, 4) else (False, 3)) else (False, 2))
         else (False, 1))
      else (False, 1))"

abbreviation replacement_char :: string where
  "replacement_char \<equiv> [CHR 0xEF, CHR 0xBF, CHR 0xBD]"

definition ascii :: "string \<Rightarrow> bool" where
  "ascii s \<longleftrightarrow> (\<forall>c \<in> set s. ord c < 128)"

definition non_ascii :: "string \<Rightarrow> bool" where
  "non_ascii s \<longleftrightarrow> (\<forall>c \<in> set s. 128 \<le> ord c)"

lemma byte_at_pos: "128 \<le> byte_at s i \<Longrightarrow> i < length s"
  by (simp add: byte_at_def split: if_splits)

lemma second_of_3_cont: "second_of_3 b b1 \<Longrightarrow> 128 \<le> b1"
  by (auto simp: second_of_3_def is_cont_def split: if_splits)

lemma second_of_4_cont: "second_of_4 b b1 \<Longrightarrow> 128 \<le> b1"
  by (auto simp: second_of_4_def is_cont_def split: if_splits)

lemma utf8_scan_high:
  assumes "utf8_scan s = (v, n)" "128 \<le> byte_at s 0"
  shows "\<forall>i < n. 128 \<le> byte_at s i"
proof -
  have "\<forall>i < n. i = 0 \<or> i = 1 \<and> 128 \<le> byte_at s 1 \<or> i = 2 \<and> 128 \<le> byte_at s 2
      \<or> i = 3 \<and> 128 \<le> byte_at s 3"
    using assms
    by (auto simp: utf8_scan_def Let_def is_cont_def dest!: second_of_3_cont second_of_4_cont
        split: if_splits)
  with assms(2) show ?thesis by auto
qed

lemma utf8_scan_pos: "utf8_scan s = (v, n) \<Longrightarrow> 1 \<le> n"
  by (auto simp: utf8_scan_def Let_def split: if_splits)

lemma utf8_scan_le: "utf8_scan s = (v, n) \<Longrightarrow> s \<noteq> [] \<Longrightarrow> n \<le> length s"
proof (cases "byte_at s 0 < 128")
  case True
  assume "utf8_scan s = (v, n)" "s \<noteq> []"
  with True show ?thesis by (cases s) (auto simp: utf8_scan_def)
next
  case False
  assume sc: "utf8_scan s = (v, n)"
  with False have "128 \<le> byte_at s (n - 1)" using utf8_scan_high [OF sc] utf8_scan_pos [OF sc] by simp
  then have "n - 1 < length s" by (rule byte_at_pos)
  then show ?thesis by simp
qed

text \<open>The first character is either one ASCII byte, or a block without any ASCII byte.\<close>

lemma utf8_scan_cases:
  assumes "utf8_scan s = (v, n)" "s \<noteq> []"
  obtains (ascii) "v" "n = 1" "ord (hd s) < 128" | (high) "non_ascii (take n s)"
proof (cases "byte_at s 0 < 128")
  case True
  with assms have "v" "n = 1" "ord (hd s) < 128"
    by (auto simp: utf8_scan_def Let_def byte_at_def hd_conv_nth)
  then show ?thesis by (rule ascii)
next
  case False
  then have h: "\<forall>i < n. 128 \<le> byte_at s i" using utf8_scan_high [OF assms(1)] by simp
  have "non_ascii (take n s)"
    unfolding non_ascii_def
  proof
    fix c assume "c \<in> set (take n s)"
    then obtain i where "i < n" "i < length s" "c = s ! i"
      by (auto simp: in_set_conv_nth)
    with h show "128 \<le> ord c" by (auto simp: byte_at_def)
  qed
  then show ?thesis by (rule high)
qed

function is_utf8 :: "string \<Rightarrow> bool" where
  "is_utf8 s = (if s = [] then True
     else fst (utf8_scan s) \<and> is_utf8 (drop (snd (utf8_scan s)) s))"
  by pat_completeness auto
termination
proof (relation "measure length")
  fix s :: string assume "s \<noteq> []"
  with utf8_scan_pos [of s "fst (utf8_scan s)" "snd (utf8_scan s)"]
  show "(drop (snd (utf8_scan s)) s, s) \<in> measure length" by simp
qed simp

function utf8_lossy :: "string \<Rightarrow> string" where
  "utf8_lossy s = (if s = [] then []
     else (if fst (utf8_scan s) then take (snd (utf8_scan s)) s else replacement_char)
            @ utf8_lossy (drop (snd (utf8_scan s)) s))"
  by pat_completeness auto
termination
proof (relation "measure length")
  fix s :: string assume "s \<noteq> []"
  with utf8_scan_pos [of s "fst (utf8_scan s)" "snd (utf8_scan s)"]
  show "(drop (snd (utf8_scan s)) s, s) \<in> measure length" by simp
qed simp

declare is_utf8.simps [simp del] utf8_lossy.simps [simp del]

lemma is_utf8_Nil [simp]: "is_utf8 []" and utf8_lossy_Nil [simp]: "utf8_lossy [] = []"
  by (simp_all add: is_utf8.simps utf8_lossy.simps)

lemma utf8_lossy_unfold:
  "s \<noteq> [] \<Longrightarrow> utf8_scan s = (v, n) \<Longrightarrow>
   utf8_lossy s = (if v then take n s else replacement_char) @ utf8_lossy (drop n s)"
  by (subst utf8_lossy.simps) simp

lemma utf8_scan_ascii: "ord c < 128 \<Longrightarrow> utf8_scan (c # s) = (True, 1)"
  by (simp add: utf8_scan_def byte_at_def)

lemma utf8_lossy_ascii_Cons: "ord c < 128 \<Longrightarrow> utf8_lossy (c # s) = c # utf8_lossy s"
  by (subst utf8_lossy.simps) (simp add: utf8_scan_ascii)

lemma is_utf8_ascii_Cons: "ord c < 128 \<Longrightarrow> is_utf8 (c # s) = is_utf8 s"
  by (subst is_utf8.simps) (simp add: utf8_scan_ascii)

lemma utf8_lossy_valid [utf8_simps]: "is_utf8 s \<Longrightarrow> utf8_lossy s = s"
proof (induction s rule: is_utf8.induct)
  case (1 s)
  show ?case
  proof (cases "s = []")
    case False
    with "1.prems" have "fst (utf8_scan s)" "is_utf8 (drop (snd (utf8_scan s)) s)"
      by (subst (asm) is_utf8.simps; simp)+
    with 1 False show ?thesis by (subst utf8_lossy.simps) simp
  qed simp
qed

lemma ascii_is_utf8 [utf8_simps]: "ascii s \<Longrightarrow> is_utf8 s"
  by (induction s) (auto simp: ascii_def is_utf8_ascii_Cons)

lemma utf8_scan_append:
  assumes "utf8_scan s = (True, n)" "s \<noteq> []"
  shows "utf8_scan (s @ t) = (True, n)"
proof -
  have n: "n \<le> length s" using assms by (rule utf8_scan_le)
  have eq: "byte_at (s @ t) i = byte_at s i" if "i < length s" for i
    using that by (simp add: byte_at_def nth_append)
  show ?thesis
  proof (cases "byte_at s 0 < 128")
    case True
    with assms eq [of 0] show ?thesis by (simp add: utf8_scan_def)
  next
    case False
    with assms(1) have "n = 2 \<or> n = 3 \<or> n = 4"
      by (auto simp: utf8_scan_def Let_def split: if_splits)
    with n assms eq [of 0] eq [of 1] eq [of 2] eq [of 3] False show ?thesis
      by (auto simp: utf8_scan_def Let_def split: if_splits)
  qed
qed

lemma is_utf8_append:
  assumes "is_utf8 s" "is_utf8 t"
  shows "is_utf8 (s @ t)"
  using assms
proof (induction s rule: is_utf8.induct)
  case (1 s)
  show ?case
  proof (cases "s = []")
    case False
    obtain v n where sc: "utf8_scan s = (v, n)" by (cases "utf8_scan s")
    from "1.prems"(1) False sc have v: "v" and r: "is_utf8 (drop n s)"
      by (subst (asm) is_utf8.simps; simp)+
    have le: "n \<le> length s" using sc False by (rule utf8_scan_le)
    have "is_utf8 (drop n s @ t)" using "1.IH" False sc v r "1.prems"(2) by simp
    with sc v False le show ?thesis
      by (subst is_utf8.simps) (simp add: utf8_scan_append)
  qed (use 1 in simp)
qed

lemma utf8_scan_block:
  assumes "utf8_scan s = (True, n)" "s \<noteq> []"
  shows "utf8_scan (take n s) = (True, n)"
proof -
  have n: "n \<le> length s" using assms by (rule utf8_scan_le)
  have eq: "byte_at (take n s) i = byte_at s i" if "i < n" for i
    using that n by (simp add: byte_at_def)
  have "1 \<le> n" using assms(1) by (rule utf8_scan_pos)
  with assms eq [of 0] eq [of 1] eq [of 2] eq [of 3] show ?thesis
    by (auto simp: utf8_scan_def Let_def split: if_splits)
qed

lemma is_utf8_block: "utf8_scan s = (True, n) \<Longrightarrow> s \<noteq> [] \<Longrightarrow> is_utf8 (take n s)"
  using utf8_scan_block [of s n] utf8_scan_le [of s True n] utf8_scan_pos [of s True n]
  by (subst is_utf8.simps) simp

lemma is_utf8_replacement: "is_utf8 replacement_char"
  by (simp add: is_utf8.simps utf8_scan_def byte_at_def second_of_3_def is_cont_def)

lemma is_utf8_lossy [utf8_simps]: "is_utf8 (utf8_lossy s)"
proof (induction s rule: utf8_lossy.induct)
  case (1 s)
  show ?case
  proof (cases "s = []")
    case False
    obtain v n where sc: "utf8_scan s = (v, n)" by (cases "utf8_scan s")
    have "is_utf8 (if v then take n s else replacement_char)"
      using sc False is_utf8_block is_utf8_replacement by simp
    then have "is_utf8 ((if v then take n s else replacement_char) @ utf8_lossy (drop n s))"
      using 1 False sc by (intro is_utf8_append) simp_all
    then show ?thesis
      by (simp only: utf8_lossy_unfold [OF False sc])
  qed simp
qed

section \<open>ASCII patterns in lossily decoded text\<close>

lemma prefix_high_block:
  "ascii p \<Longrightarrow> p \<noteq> [] \<Longrightarrow> non_ascii b \<Longrightarrow> b \<noteq> [] \<Longrightarrow> \<not> prefix p (b @ s)"
  by (cases p; cases b) (auto simp: ascii_def non_ascii_def)

lemma sublist_high_block:
  assumes "ascii p" "p \<noteq> []" "non_ascii b"
  shows "sublist p (b @ s) \<longleftrightarrow> sublist p s"
  using assms(3)
proof (induction b)
  case (Cons c b)
  have "\<not> prefix p ((c # b) @ s)"
    using assms Cons.prems by (intro prefix_high_block) auto
  with Cons show ?case by (simp add: sublist_Cons_right non_ascii_def)
qed simp

lemma replacement_high: "non_ascii replacement_char"
  by (simp add: non_ascii_def)

lemma utf8_lossy_prefix:
  assumes "ascii p"
  shows "prefix p (utf8_lossy s) \<longleftrightarrow> prefix p s"
  using assms
proof (induction s arbitrary: p rule: utf8_lossy.induct)
  case (1 s)
  show ?case
  proof (cases "s = [] \<or> p = []")
    case False
    obtain v n where sc: "utf8_scan s = (v, n)" by (cases "utf8_scan s")
    have ne: "s \<noteq> []" using False by simp
    have n: "1 \<le> n" "n \<le> length s" using sc ne utf8_scan_pos utf8_scan_le by auto
    from sc ne show ?thesis
    proof (cases rule: utf8_scan_cases)
      case ascii
      obtain c r where s: "s = c # r" using ne by (cases s) auto
      have "ascii (tl p)" using "1.prems" by (cases p) (auto simp: ascii_def)
      with "1.IH" [of "tl p"] ne sc ascii(2) have "prefix (tl p) (utf8_lossy r) \<longleftrightarrow> prefix (tl p) r"
        by (simp add: s)
      with ascii False show ?thesis by (cases p) (auto simp: s utf8_lossy_ascii_Cons)
    next
      case high
      have "\<not> prefix p (take n s @ drop n s)"
        using "1.prems" False high n by (intro prefix_high_block) auto
      moreover have "\<not> prefix p (utf8_lossy s)"
        unfolding utf8_lossy_unfold [OF ne sc]
        using n False "1.prems" high replacement_high by (intro prefix_high_block) auto
      ultimately show ?thesis by simp
    qed
  qed auto
qed

lemma utf8_lossy_sublist:
  assumes "ascii p" "p \<noteq> []"
  shows "sublist p (utf8_lossy s) \<longleftrightarrow> sublist p s"
proof (induction s rule: utf8_lossy.induct)
  case (1 s)
  show ?case
  proof (cases "s = []")
    case False
    obtain v n where sc: "utf8_scan s = (v, n)" by (cases "utf8_scan s")
    have IH: "sublist p (utf8_lossy (drop n s)) \<longleftrightarrow> sublist p (drop n s)"
      using 1 False sc by simp
    from sc False show ?thesis
    proof (cases rule: utf8_scan_cases)
      case ascii
      obtain c r where s: "s = c # r" using False by (cases s) auto
      show ?thesis
        using IH ascii utf8_lossy_prefix [OF assms(1), of "c # r"]
        by (simp add: s utf8_lossy_ascii_Cons sublist_Cons_right)
    next
      case high
      have "sublist p (take n s @ drop n s) \<longleftrightarrow> sublist p (drop n s)"
        using assms high by (rule sublist_high_block)
      moreover have "sublist p (utf8_lossy s) \<longleftrightarrow> sublist p (utf8_lossy (drop n s))"
        unfolding utf8_lossy_unfold [OF False sc]
        using high assms replacement_high by (intro sublist_high_block) auto
      ultimately show ?thesis using IH by simp
    qed
  qed simp
qed

lemma contains_utf8_lossy [utf8_simps]:
  "ascii p \<Longrightarrow> p \<noteq> [] \<Longrightarrow> contains p (utf8_lossy s) \<longleftrightarrow> contains p s"
  by (simp add: contains_sublist utf8_lossy_sublist)

section \<open>Characters\<close>

text \<open>The characters of a string, each as its bytes.\<close>

function utf8_chars :: "string \<Rightarrow> string list" where
  "utf8_chars s = (if s = [] then [] else take (snd (utf8_scan s)) s # utf8_chars (drop (snd (utf8_scan s)) s))"
  by pat_completeness auto
termination
proof (relation "measure length")
  fix s :: string assume "s \<noteq> []"
  then show "(drop (snd (utf8_scan s)) s, s) \<in> measure length"
    using utf8_scan_pos [of s "fst (utf8_scan s)" "snd (utf8_scan s)"] by simp
qed simp

declare utf8_chars.simps [simp del]

end
