(* ===== verification/Secrets.thy ===== *)
theory Secrets
  imports Utf8
begin

text \<open>
  Credential placeholders: \<open>crates/openshell-sandbox/src/secrets.rs\<close>. The sandboxed process
  only ever sees placeholders \<open>openshell:resolve:env:KEY\<close>; the proxy replaces them by the
  real secrets in the request line and in the header values of the requests it forwards, keeps a
  redacted copy of the target for policy evaluation and logs, and refuses to forward a request
  in which a placeholder is left. The Base64 engine is a third-party crate and a parameter
  (\<open>base64_engine\<close>) of the definitions that use it.
\<close>

section \<open>Types\<close>

definition PLACEHOLDER_PREFIX :: string where
  "PLACEHOLDER_PREFIX = ''openshell:resolve:env:''"

definition is_env_key_char :: "char \<Rightarrow> bool" where
  "is_env_key_char b \<longleftrightarrow> is_ascii_alphanumeric b \<or> b = CHR ''_''"

datatype unresolved_placeholder_error = UnresolvedPlaceholderError (location: string)

record rewrite_result =
  rr_rewritten :: string
  rr_redacted_target :: "string option"

record rewrite_target_result =
  rt_resolved :: string
  rt_redacted :: string

record secret_resolver =
  by_placeholder :: "(string \<times> string) list"

record base64_engine =
  b64_decode :: "string \<Rightarrow> string option"
  b64_encode :: "string \<Rightarrow> string"

section \<open>The resolver\<close>

definition placeholder_for_env_key :: "string \<Rightarrow> string" where
  "placeholder_for_env_key key = PLACEHOLDER_PREFIX @ key"

definition from_provider_env ::
  "(string \<times> string) list \<Rightarrow> (string \<times> string) list \<times> secret_resolver option" where
  "from_provider_env provider_env =
     (if provider_env = [] then ([], None)
      else (fold (\<lambda>(key, value). al_insert key (placeholder_for_env_key key)) provider_env [],
            Some \<lparr>by_placeholder =
              fold (\<lambda>(key, value). al_insert (placeholder_for_env_key key) value) provider_env []\<rparr>))"

definition validate_resolved_secret :: "string \<Rightarrow> (string, string) result" where
  "validate_resolved_secret value =
     (if list_ex (\<lambda>b. b = CR \<or> b = LF \<or> b = NUL) value
      then Inl ''resolved secret contains prohibited control characters (CR, LF, or NUL)''
      else Inr value)"

definition resolve_placeholder :: "secret_resolver \<Rightarrow> string \<Rightarrow> string option" where
  "resolve_placeholder r value =
     (case map_of (by_placeholder r) value of None \<Rightarrow> None
      | Some secret \<Rightarrow>
          (case validate_resolved_secret secret of Inr s \<Rightarrow> Some s | Inl reason \<Rightarrow> None))"

text \<open>The loop of \<open>rewrite_basic_auth_token\<close> over the map, in its iteration order.\<close>

fun rewrite_occurrences :: "(string \<times> string) list \<Rightarrow> string \<Rightarrow> string option" where
  "rewrite_occurrences [] s = Some s"
| "rewrite_occurrences ((placeholder, secret) # ps) s =
     (if contains placeholder s then
        (case validate_resolved_secret secret of
           Inl _ \<Rightarrow> None
         | Inr _ \<Rightarrow> rewrite_occurrences ps (replace_all placeholder secret s))
      else rewrite_occurrences ps s)"

definition rewrite_basic_auth_token ::
  "base64_engine \<Rightarrow> secret_resolver \<Rightarrow> string \<Rightarrow> string option" where
  "rewrite_basic_auth_token b64 r encoded =
     (case b64_decode b64 (trim encoded) of None \<Rightarrow> None
      | Some decoded \<Rightarrow>
          if \<not> is_utf8 decoded then None
          else if \<not> contains PLACEHOLDER_PREFIX decoded then None
          else (case rewrite_occurrences (by_placeholder r) decoded of None \<Rightarrow> None
                | Some rewritten \<Rightarrow>
                    if rewritten = decoded then None else Some (b64_encode b64 rewritten)))"

definition rewrite_header_value ::
  "base64_engine \<Rightarrow> secret_resolver \<Rightarrow> string \<Rightarrow> string option" where
  "rewrite_header_value b64 r value =
     (let trimmed = trim value;
          prefixed = (case find_whitespace trimmed of None \<Rightarrow> None
            | Some split_at \<Rightarrow>
                (case resolve_placeholder r (trim (drop split_at trimmed)) of None \<Rightarrow> None
                 | Some secret \<Rightarrow> Some (take split_at trimmed @ '' '' @ secret)))
      in case resolve_placeholder r trimmed of
           Some secret \<Rightarrow> Some secret
         | None \<Rightarrow>
             (case (case strip_prefix ''Basic '' trimmed of
                      Some e \<Rightarrow> Some e | None \<Rightarrow> strip_prefix ''basic '' trimmed) of
                None \<Rightarrow> prefixed
              | Some encoded \<Rightarrow>
                  (case rewrite_basic_auth_token b64 r (trim encoded) of
                     Some rewritten \<Rightarrow> Some (''Basic '' @ rewritten)
                   | None \<Rightarrow> prefixed)))"

section \<open>Percent encoding\<close>

definition unreserved :: "char \<Rightarrow> bool" where
  "unreserved c \<longleftrightarrow> is_ascii_alphanumeric c \<or> c \<in> set ''-._~''"

definition path_char :: "char \<Rightarrow> bool" where
  "path_char c \<longleftrightarrow> unreserved c \<or> c \<in> set ''!$&()*+,;=:@'' \<or> c = CHR 0x27"

definition percent_byte :: "char \<Rightarrow> string" where
  "percent_byte c = CHR ''%'' # show_hex02 c"

definition percent_encode_query :: "string \<Rightarrow> string" where
  "percent_encode_query input = concat (map (\<lambda>c. if unreserved c then [c] else percent_byte c) input)"

definition percent_encode_path_segment :: "string \<Rightarrow> string" where
  "percent_encode_path_segment input =
     concat (map (\<lambda>c. if path_char c then [c] else percent_byte c) input)"

fun percent_decode_bytes :: "string \<Rightarrow> string" where
  "percent_decode_bytes [] = []"
| "percent_decode_bytes [b] = [b]"
| "percent_decode_bytes [b, h] =
     (if b = CHR ''%'' then [b, h] else b # percent_decode_bytes [h])"
| "percent_decode_bytes (b # h # l # rest) =
     (if b = CHR ''%'' then
        (case (if is_utf8 [h, l] then parse_uint 16 8 [h, l] else None) of
           Some val \<Rightarrow> char_of val # percent_decode_bytes rest
         | None \<Rightarrow> CHR ''%'' # h # l # percent_decode_bytes rest)
      else b # percent_decode_bytes (h # l # rest))"

definition percent_decode :: "string \<Rightarrow> string" where
  "percent_decode input = utf8_lossy (percent_decode_bytes input)"

section \<open>Rewriting the request target\<close>

definition validate_credential_for_path :: "string \<Rightarrow> (string, unit) result" where
  "validate_credential_for_path value =
     (if contains ''../'' value \<or> contains [CHR ''.'', CHR ''.'', CHR 0x5C] value \<or> value = ''..''
      then Inl ''credential contains path traversal sequence''
      else if NUL \<in> set value \<or> CR \<in> set value \<or> LF \<in> set value
      then Inl ''credential contains control character''
      else if CHR ''/'' \<in> set value \<or> CHR 0x5C \<in> set value
      then Inl ''credential contains path separator''
      else if CHR ''?'' \<in> set value \<or> CHR ''#'' \<in> set value
      then Inl ''credential contains URI delimiter''
      else Inr ())"

text \<open>
  The loop of \<open>rewrite_path_segment\<close>, on the part of the segment that is left
  (\<open>segment[pos..]\<close>) and the two strings built so far.
\<close>

definition env_key_length :: "string \<Rightarrow> nat" where
  "env_key_length s = (case position (\<lambda>b. \<not> is_env_key_char b) s of None \<Rightarrow> length s | Some p \<Rightarrow> p)"

function rewrite_path_segment_loop ::
  "secret_resolver \<Rightarrow> string \<Rightarrow> string \<Rightarrow> string \<Rightarrow>
   (unresolved_placeholder_error, string \<times> string) result" where
  "rewrite_path_segment_loop r rest res red =
     (if rest = [] then Inr (res, red) else
      case find_sub PLACEHOLDER_PREFIX rest of
        None \<Rightarrow> Inr (res @ rest, red @ rest)
      | Some start \<Rightarrow>
          (let lit = take start rest;
               after = drop (start + length PLACEHOLDER_PREFIX) rest;
               key = take (env_key_length after) after
           in if key = [] then
                rewrite_path_segment_loop r after
                  (res @ lit @ PLACEHOLDER_PREFIX) (red @ lit @ PLACEHOLDER_PREFIX)
              else
                (case resolve_placeholder r (PLACEHOLDER_PREFIX @ key) of
                   None \<Rightarrow> Inl (UnresolvedPlaceholderError ''path'')
                 | Some secret \<Rightarrow>
                     (case validate_credential_for_path secret of
                        Inl _ \<Rightarrow> Inl (UnresolvedPlaceholderError ''path'')
                      | Inr _ \<Rightarrow>
                          rewrite_path_segment_loop r (drop (length key) after)
                            (res @ lit @ secret) (red @ lit @ ''[CREDENTIAL]'')))))"
  by pat_completeness auto
termination
proof (relation "measure (\<lambda>(r, rest, res, red). length rest)", goal_cases)
  case 1
  show ?case by simp
next
  case (2 r rest res red start lit after key)
  then show ?case by (cases rest) (auto simp: PLACEHOLDER_PREFIX_def)
next
  case (3 r rest res red start lit after key secret u)
  then show ?case by (cases rest) (auto simp: PLACEHOLDER_PREFIX_def)
qed

declare rewrite_path_segment_loop.simps [simp del]

definition rewrite_path_segment ::
  "string \<Rightarrow> secret_resolver \<Rightarrow> (unresolved_placeholder_error, string \<times> string) result" where
  "rewrite_path_segment segment r = rewrite_path_segment_loop r segment [] []"

text \<open>One turn of the loop of \<open>rewrite_uri_path\<close>: resolved, redacted, rewritten or not.\<close>

definition rewrite_uri_segment ::
  "secret_resolver \<Rightarrow> string \<Rightarrow> (unresolved_placeholder_error, string \<times> string \<times> bool) result" where
  "rewrite_uri_segment r segment =
     (let decoded = percent_decode segment in
      if \<not> contains PLACEHOLDER_PREFIX decoded then Inr (segment, segment, False)
      else and_then (rewrite_path_segment decoded r)
             (\<lambda>(res, red). Inr (percent_encode_path_segment res, red, True)))"

definition rewrite_uri_path ::
  "string \<Rightarrow> secret_resolver \<Rightarrow> (unresolved_placeholder_error, (string \<times> string) option) result" where
  "rewrite_uri_path path r =
     (if \<not> contains PLACEHOLDER_PREFIX path then Inr None
      else and_then (map_result (rewrite_uri_segment r) (split_char (CHR ''/'') path))
        (\<lambda>segs. if \<not> list_ex (\<lambda>(_, _, rewr). rewr) segs then Inr None
           else Inr (Some (join ''/'' (map fst segs), join ''/'' (map (\<lambda>(_, red, _). red) segs)))))"

definition rewrite_query_param ::
  "secret_resolver \<Rightarrow> string \<Rightarrow> (unresolved_placeholder_error, string \<times> string \<times> bool) result" where
  "rewrite_query_param r param =
     (case split_once ''='' param of
        None \<Rightarrow> Inr (param, param, False)
      | Some (key, value) \<Rightarrow>
          (let decoded_value = percent_decode value in
           case resolve_placeholder r decoded_value of
             Some secret \<Rightarrow>
               Inr (key @ ''='' @ percent_encode_query secret, key @ ''=[CREDENTIAL]'', True)
           | None \<Rightarrow>
               if contains PLACEHOLDER_PREFIX decoded_value
               then Inl (UnresolvedPlaceholderError ''query_param'')
               else Inr (param, param, False)))"

definition rewrite_uri_query_params ::
  "string \<Rightarrow> secret_resolver \<Rightarrow> (unresolved_placeholder_error, (string \<times> string) option) result" where
  "rewrite_uri_query_params query r =
     (if \<not> contains PLACEHOLDER_PREFIX query then Inr None
      else and_then (map_result (rewrite_query_param r) (split_char (CHR ''&'') query))
        (\<lambda>params. if \<not> list_ex (\<lambda>(_, _, rewr). rewr) params then Inr None
           else Inr (Some (join ''&'' (map fst params), join ''&'' (map (\<lambda>(_, red, _). red) params)))))"

text \<open>
  The common tail of \<open>rewrite_request_line\<close> and \<open>rewrite_target_for_eval\<close>: split the
  target at the first \<open>?\<close>, rewrite path and query, reassemble both versions.
\<close>

definition rewrite_split_target ::
  "string \<Rightarrow> secret_resolver \<Rightarrow> (unresolved_placeholder_error, rewrite_target_result) result" where
  "rewrite_split_target uri r =
     (let (path, query) = (case split_once ''?'' uri of
            Some (p, q) \<Rightarrow> (p, Some q) | None \<Rightarrow> (uri, None))
      in and_then (rewrite_uri_path path r) (\<lambda>rp.
           let (resolved_path, redacted_path) =
                 (case rp of Some (a, b) \<Rightarrow> (a, b) | None \<Rightarrow> (path, path))
           in case query of
                None \<Rightarrow> Inr \<lparr>rt_resolved = resolved_path, rt_redacted = redacted_path\<rparr>
              | Some q \<Rightarrow> and_then (rewrite_uri_query_params q r) (\<lambda>rq.
                  let (resolved_query, redacted_query) =
                        (case rq of Some (a, b) \<Rightarrow> (a, b) | None \<Rightarrow> (q, q))
                  in Inr \<lparr>rt_resolved = resolved_path @ ''?'' @ resolved_query,
                          rt_redacted = redacted_path @ ''?'' @ redacted_query\<rparr>)))"

definition rewrite_request_line ::
  "string \<Rightarrow> secret_resolver \<Rightarrow> (unresolved_placeholder_error, string \<times> string option) result" where
  "rewrite_request_line line r =
     (case splitn3 (CHR '' '') line of
        [meth, uri, version] \<Rightarrow>
          if \<not> contains PLACEHOLDER_PREFIX uri then Inr (line, None)
          else and_then (rewrite_split_target uri r) (\<lambda>t.
            Inr (meth @ '' '' @ rt_resolved t @ '' '' @ version, Some (rt_redacted t)))
      | _ \<Rightarrow> Inr (line, None))"

definition rewrite_target_for_eval ::
  "string \<Rightarrow> secret_resolver \<Rightarrow> (unresolved_placeholder_error, rewrite_target_result) result" where
  "rewrite_target_for_eval target r =
     (if \<not> contains PLACEHOLDER_PREFIX target then
        (if contains PLACEHOLDER_PREFIX (percent_decode target)
         then Inl (UnresolvedPlaceholderError ''path'')
         else Inr \<lparr>rt_resolved = target, rt_redacted = target\<rparr>)
      else rewrite_split_target target r)"

section \<open>Rewriting a header block\<close>

definition rewrite_header_line :: "base64_engine \<Rightarrow> string \<Rightarrow> secret_resolver \<Rightarrow> string" where
  "rewrite_header_line b64 line r =
     (case split_once '':'' line of
        None \<Rightarrow> line
      | Some (name, value) \<Rightarrow>
          (case rewrite_header_value b64 r (trim value) of
             Some rewr \<Rightarrow> name @ '': '' @ rewr
           | None \<Rightarrow> line))"

definition rewrite_http_header_block ::
  "base64_engine \<Rightarrow> string \<Rightarrow> secret_resolver option \<Rightarrow>
   (unresolved_placeholder_error, rewrite_result) result" where
  "rewrite_http_header_block b64 raw resolver =
     (case resolver of
        None \<Rightarrow> Inr \<lparr>rr_rewritten = raw, rr_redacted_target = None\<rparr>
      | Some r \<Rightarrow>
     (case find_sub CRLFCRLF raw of
        None \<Rightarrow> Inr \<lparr>rr_rewritten = raw, rr_redacted_target = None\<rparr>
      | Some p \<Rightarrow>
     (let header_end = p + 4 in
      case split_str CRLF (utf8_lossy (take header_end raw)) of
        [] \<Rightarrow> Inr \<lparr>rr_rewritten = raw, rr_redacted_target = None\<rparr>
      | request_line # header_lines \<Rightarrow>
      and_then (rewrite_request_line request_line r) (\<lambda>(line, red).
        let output = line @ CRLF
              @ concat (map (\<lambda>l. rewrite_header_line b64 l r @ CRLF)
                  (takeWhile (\<lambda>l. l \<noteq> []) header_lines))
              @ CRLF @ drop header_end raw;
            output_header = utf8_lossy (take (min (length output) (header_end + 256)) output)
        in if contains PLACEHOLDER_PREFIX output_header
           then Inl (UnresolvedPlaceholderError ''header'')
           else if contains PLACEHOLDER_PREFIX
                     (percent_decode (hd (split_str CRLF output_header)))
           then Inl (UnresolvedPlaceholderError ''path'')
           else Inr \<lparr>rr_rewritten = output, rr_redacted_target = red\<rparr>))))"

end
