(* ===== verification/Secrets_Props.thy ===== *)
theory Secrets_Props
  imports Secrets
begin

text \<open>
  What \<open>secrets.rs\<close> guarantees: percent encoding is invertible and never emits a delimiter,
  resolved secrets cannot split a request, the redacted target does not depend on the secrets,
  the structure of the path is kept, and the final scan fails closed inside its window.
\<close>

section \<open>Percent encoding\<close>

text \<open>The contract of an encoder for one position of a URL.\<close>

locale percent_codec =
  fixes encode :: "string \<Rightarrow> string" and decode :: "string \<Rightarrow> string"
    and keep :: "char \<Rightarrow> bool"
  assumes decode_encode: "is_utf8 s \<Longrightarrow> decode (encode s) = s"
    and encode_chars: "c \<in> set (encode s) \<Longrightarrow> keep c \<or> c = CHR ''%'' \<or> is_ascii_hexdigit c"
begin

lemma encode_inj: "is_utf8 s \<Longrightarrow> is_utf8 t \<Longrightarrow> encode s = encode t \<Longrightarrow> s = t"
  by (metis decode_encode)

lemma encode_no_delim:
  "\<not> keep d \<Longrightarrow> d \<noteq> CHR ''%'' \<Longrightarrow> \<not> is_ascii_hexdigit d \<Longrightarrow> d \<notin> set (encode s)"
  using encode_chars by blast

end

lemma percent_decode_bytes_literal:
  "b \<noteq> CHR ''%'' \<Longrightarrow> percent_decode_bytes (b # s) = b # percent_decode_bytes s"
  by (cases s rule: percent_decode_bytes.cases) auto

lemma ord_hex_upper: "d < 16 \<Longrightarrow> 48 \<le> ord (hex_upper d) \<and> ord (hex_upper d) < 71"
  by (auto simp: hex_upper_def)

lemma is_ascii_hexdigit_hex_upper: "d < 16 \<Longrightarrow> is_ascii_hexdigit (hex_upper d)"
  by (auto simp: hex_upper_def is_ascii_hexdigit_def is_ascii_digit_def)

lemma parse_uint_show_hex02: "parse_uint 16 8 (show_hex02 c) = Some (ord c)"
proof -
  have d: "ord c div 16 < 16" "ord c mod 16 < 16"
    using ord_less_256 [of c] by linarith+
  have "hex_upper (ord c div 16) \<noteq> CHR ''+''"
    using ord_hex_upper [OF d(1)] by auto
  moreover have "digits_value 16 0 [hex_upper (ord c div 16), hex_upper (ord c mod 16)] = Some (ord c)"
    using d by (simp add: digit_value_hex_upper)
  ultimately show ?thesis
    by (simp add: parse_uint_def show_hex02_def Let_def)
qed

lemma percent_decode_bytes_percent_byte:
  "percent_decode_bytes (percent_byte c @ s) = c # percent_decode_bytes s"
proof -
  have d: "ord c div 16 < 16" "ord c mod 16 < 16"
    using ord_less_256 [of c] by linarith+
  then have "is_utf8 [hex_upper (ord c div 16), hex_upper (ord c mod 16)]"
    using ord_hex_upper [OF d(1)] ord_hex_upper [OF d(2)] by (intro ascii_is_utf8) (simp add: ascii_def)
  with parse_uint_show_hex02 [of c] show ?thesis
    by (simp add: percent_byte_def show_hex02_def)
qed

lemma percent_decode_bytes_encode:
  assumes "\<not> keep (CHR ''%'')"
  shows "percent_decode_bytes (concat (map (\<lambda>c. if keep c then [c] else percent_byte c) s)) = s"
proof (induction s)
  case (Cons c s)
  show ?case
  proof (cases "keep c")
    case True
    with assms have "c \<noteq> CHR ''%''" by auto
    with True Cons show ?thesis by (simp add: percent_decode_bytes_literal)
  next
    case False
    with Cons show ?thesis by (simp add: percent_decode_bytes_percent_byte)
  qed
qed simp

lemma percent_byte_chars: "x \<in> set (percent_byte c) \<Longrightarrow> x = CHR ''%'' \<or> is_ascii_hexdigit x"
proof -
  have "ord c div 16 < 16" "ord c mod 16 < 16"
    using ord_less_256 [of c] by linarith+
  then show "x \<in> set (percent_byte c) \<Longrightarrow> ?thesis"
    by (auto simp: percent_byte_def show_hex02_def is_ascii_hexdigit_hex_upper)
qed

lemma percent_encode_chars:
  "x \<in> set (concat (map (\<lambda>c. if keep c then [c] else percent_byte c) s)) \<Longrightarrow>
   keep x \<or> x = CHR ''%'' \<or> is_ascii_hexdigit x"
  using percent_byte_chars by (auto split: if_splits)

lemma percent_not_kept: "\<not> unreserved (CHR ''%'')" "\<not> path_char (CHR ''%'')"
  by (simp_all add: unreserved_def path_char_def is_ascii_alphanumeric_def is_ascii_digit_def
      is_ascii_upper_def is_ascii_lower_def)

interpretation query_codec: percent_codec percent_encode_query percent_decode unreserved
  by unfold_locales
    (simp_all add: percent_decode_def percent_encode_query_def percent_decode_bytes_encode
      percent_not_kept utf8_lossy_valid percent_encode_chars del: set_concat)

interpretation path_codec: percent_codec percent_encode_path_segment percent_decode path_char
  by unfold_locales
    (simp_all add: percent_decode_def percent_encode_path_segment_def percent_decode_bytes_encode
      percent_not_kept utf8_lossy_valid percent_encode_chars del: set_concat)

section \<open>Resolved secrets\<close>

definition clean :: "string \<Rightarrow> bool" where
  "clean s \<longleftrightarrow> CR \<notin> set s \<and> LF \<notin> set s \<and> NUL \<notin> set s"

lemma clean_append [simp]: "clean (s @ t) \<longleftrightarrow> clean s \<and> clean t"
  by (auto simp: clean_def)

lemma clean_sublist: "sublist s t \<Longrightarrow> clean t \<Longrightarrow> clean s"
  using sublist_set by (fastforce simp: clean_def)

lemma clean_trim: "clean s \<Longrightarrow> clean (trim s)"
  using clean_sublist trim_sublist by blast

lemma clean_take: "clean s \<Longrightarrow> clean (take n s)"
  by (auto simp: clean_def dest: in_set_takeD)

lemma validate_resolved_secret_Inr: "validate_resolved_secret s = Inr t \<longleftrightarrow> t = s \<and> clean s"
  by (auto simp: validate_resolved_secret_def clean_def list_ex_iff)

lemma resolve_placeholder_Some:
  "resolve_placeholder r p = Some s \<longleftrightarrow> map_of (by_placeholder r) p = Some s \<and> clean s"
  by (auto simp: resolve_placeholder_def validate_resolved_secret_Inr split: option.splits sum.splits)
     (metis validate_resolved_secret_Inr sum.distinct(1))+

text \<open>
  Every resolver the code builds maps placeholders only: its keys start with the prefix.
\<close>

definition wf_resolver :: "secret_resolver \<Rightarrow> bool" where
  "wf_resolver r \<longleftrightarrow> (\<forall>p \<in> dom (map_of (by_placeholder r)). starts_with PLACEHOLDER_PREFIX p)"

lemma wf_resolver_contains:
  "wf_resolver r \<Longrightarrow> resolve_placeholder r p = Some s \<Longrightarrow> contains PLACEHOLDER_PREFIX p"
  by (auto simp: wf_resolver_def resolve_placeholder_Some starts_with_prefix contains_sublist
      dest!: bspec [of _ _ p] intro: prefix_imp_sublist)

lemma from_provider_env_child:
  "fst (from_provider_env env) =
     fold (\<lambda>(k, v). al_insert k v) (map (\<lambda>(k, v). (k, placeholder_for_env_key k)) env) []"
  by (simp add: from_provider_env_def fold_map comp_def case_prod_unfold)

lemma from_provider_env_resolver:
  "env \<noteq> [] \<Longrightarrow> snd (from_provider_env env) = Some \<lparr>by_placeholder =
     fold (\<lambda>(k, v). al_insert k v) (map (\<lambda>(k, v). (placeholder_for_env_key k, v)) env) []\<rparr>"
  by (simp add: from_provider_env_def fold_map comp_def case_prod_unfold)

lemma map_of_rev_map_inj:
  assumes "inj f" "distinct (map fst xs)"
  shows "map_of (rev (map (\<lambda>(k, v). (f k, v)) xs)) (f k) = map_of xs k"
proof -
  have "distinct (map fst (map (\<lambda>(k, v). (f k, v)) xs))"
    using assms by (auto simp: distinct_map inj_on_def split_beta)
  then have "map_of (rev (map (\<lambda>(k, v). (f k, v)) xs)) = map_of (map (\<lambda>(k, v). (f k, v)) xs)"
    by (rule map_of_rev_distinct)
  moreover have "map_of (map (\<lambda>(k, v). (f k, v)) xs) (f k) = map_of xs k"
    using assms(1) by (induction xs) (auto dest: injD)
  ultimately show ?thesis by simp
qed


lemma inj_placeholder: "inj placeholder_for_env_key"
  by (simp add: inj_def placeholder_for_env_key_def)

lemma from_provider_env_lookup:
  assumes "distinct (map fst env)" "map_of env k = Some v"
  shows "map_of (fst (from_provider_env env)) k = Some (placeholder_for_env_key k)"
    and "\<exists>r. snd (from_provider_env env) = Some r \<and>
           map_of (by_placeholder r) (placeholder_for_env_key k) = Some v"
proof -
  let ?ch = "map (\<lambda>(k, v). (k, placeholder_for_env_key k)) env"
  have ne: "env \<noteq> []" using assms(2) by auto
  have "distinct (map fst ?ch)" using assms(1) by (simp add: comp_def case_prod_unfold)
  moreover have "map_of ?ch k = Some (placeholder_for_env_key k)"
    using assms(2) by (induction env) auto
  ultimately show "map_of (fst (from_provider_env env)) k = Some (placeholder_for_env_key k)"
    by (simp add: from_provider_env_child al.fold_insert_lookup map_of_rev_distinct)
  have "map_of (rev (map (\<lambda>(k, v). (placeholder_for_env_key k, v)) env)) (placeholder_for_env_key k) = Some v"
    using map_of_rev_map_inj [OF inj_placeholder assms(1), of k] assms(2) by simp
  then show "\<exists>r. snd (from_provider_env env) = Some r \<and>
           map_of (by_placeholder r) (placeholder_for_env_key k) = Some v"
    using ne by (simp add: from_provider_env_resolver al.fold_insert_lookup)
qed

lemma from_provider_env_wf: "snd (from_provider_env env) = Some r \<Longrightarrow> wf_resolver r"
proof -
  assume r: "snd (from_provider_env env) = Some r"
  then have ne: "env \<noteq> []" by (auto simp: from_provider_env_def)
  have "starts_with PLACEHOLDER_PREFIX p" if "map_of (by_placeholder r) p = Some v" for p v
  proof -
    have "by_placeholder r = fold (\<lambda>(k, v). al_insert k v)
        (map (\<lambda>(k, v). (placeholder_for_env_key k, v)) env) []"
      using r by (auto simp: from_provider_env_resolver [OF ne])
    with that have "map_of (rev (map (\<lambda>(k, v). (placeholder_for_env_key k, v)) env)) p = Some v"
      by (simp add: al.fold_insert_lookup split: option.splits)
    then have "(p, v) \<in> set (map (\<lambda>(k, v). (placeholder_for_env_key k, v)) env)"
      by (metis map_of_SomeD set_rev)
    then show ?thesis by (auto simp: placeholder_for_env_key_def)
  qed
  then show ?thesis by (auto simp: wf_resolver_def)
qed

section \<open>Redaction\<close>

lemma rewrite_path_segment_loop_redacted:
  assumes "rewrite_path_segment_loop r rest res red = Inr (a, b)"
    and "rewrite_path_segment_loop r' rest res' red = Inr (a', b')"
  shows "b = b'"
  using assms
proof (induction r rest res red arbitrary: res' rule: rewrite_path_segment_loop.induct)
  case (1 r rest res red)
  note unf = rewrite_path_segment_loop.simps [of r rest res red]
    rewrite_path_segment_loop.simps [of r' rest res' red]
  show ?case
  proof (cases "rest = [] \<or> find_sub PLACEHOLDER_PREFIX rest = None")
    case True
    with "1.prems" show ?thesis by (auto simp: unf split: if_splits)
  next
    case False
    then obtain start where st: "rest \<noteq> []" "find_sub PLACEHOLDER_PREFIX rest = Some start" by auto
    let ?after = "drop (start + length PLACEHOLDER_PREFIX) rest"
    let ?key = "take (env_key_length ?after) ?after"
    show ?thesis
    proof (cases "?key = []")
      case True
      with st "1.prems" show ?thesis
        by (intro "1.IH"(1) [OF st refl refl refl]) (auto simp: unf Let_def)
    next
      case False
      with st "1.prems" obtain sec sec' where
        "resolve_placeholder r (PLACEHOLDER_PREFIX @ ?key) = Some sec"
        "validate_credential_for_path sec = Inr ()"
        "rewrite_path_segment_loop r (drop (length ?key) ?after)
           (res @ take start rest @ sec) (red @ take start rest @ ''[CREDENTIAL]'') = Inr (a, b)"
        "rewrite_path_segment_loop r' (drop (length ?key) ?after)
           (res' @ take start rest @ sec') (red @ take start rest @ ''[CREDENTIAL]'') = Inr (a', b')"
        by (auto simp: unf Let_def split: option.splits sum.splits)
      with False st show ?thesis by (intro "1.IH"(2) [OF st refl refl refl]) auto
    qed
  qed
qed

lemma rewrite_uri_segment_redacted:
  "rewrite_uri_segment r s = Inr (a, b, w) \<Longrightarrow> rewrite_uri_segment r' s = Inr (a', b', w') \<Longrightarrow>
   b = b' \<and> w = w' \<and> (\<not> w \<longrightarrow> a = s \<and> b = s)"
  using rewrite_path_segment_loop_redacted
  by (fastforce simp: rewrite_uri_segment_def rewrite_path_segment_def Let_def and_then_Inr
      split: if_splits)

lemma rewrite_query_param_redacted:
  assumes "wf_resolver r" "wf_resolver r'"
    and "rewrite_query_param r s = Inr (a, b, w)" "rewrite_query_param r' s = Inr (a', b', w')"
  shows "b = b' \<and> w = w' \<and> (\<not> w \<longrightarrow> a = s \<and> b = s)"
  using assms wf_resolver_contains [OF assms(1)] wf_resolver_contains [OF assms(2)]
  by (auto simp: rewrite_query_param_def Let_def split: option.splits if_splits)

text \<open>
  A rewriter of the pieces of a target (path segments, query parameters): with two resolvers the
  redacted piece and the flag agree.
\<close>

locale piece_rewriter =
  fixes rewrite_piece :: "'r \<Rightarrow> string \<Rightarrow> ('e, string \<times> string \<times> bool) result"
    and ok :: "'r \<Rightarrow> bool"
  assumes piece_redacted:
    "ok r \<Longrightarrow> ok r' \<Longrightarrow> rewrite_piece r s = Inr (a, b, w) \<Longrightarrow> rewrite_piece r' s = Inr (a', b', w') \<Longrightarrow>
     b = b' \<and> w = w'"
begin

lemma pieces_redacted:
  assumes "ok r" "ok r'" "map_result (rewrite_piece r) ss = Inr xs"
    "map_result (rewrite_piece r') ss = Inr ys"
  shows "map (\<lambda>(_, red, _). red) xs = map (\<lambda>(_, red, _). red) ys"
    and "list_ex (\<lambda>(_, _, w). w) xs = list_ex (\<lambda>(_, _, w). w) ys"
proof -
  have "list_all2 (\<lambda>x y. fst (snd x) = fst (snd y) \<and> snd (snd x) = snd (snd y)) xs ys"
    using assms(3,4)
  proof (induction ss arbitrary: xs ys)
    case (Cons s ss)
    from Cons.prems obtain x y xs' ys' where
      "rewrite_piece r s = Inr x" "rewrite_piece r' s = Inr y" "xs = x # xs'" "ys = y # ys'"
      "map_result (rewrite_piece r) ss = Inr xs'" "map_result (rewrite_piece r') ss = Inr ys'"
      by (auto simp: and_then_Inr)
    moreover from this have "fst (snd x) = fst (snd y) \<and> snd (snd x) = snd (snd y)"
      using piece_redacted [OF assms(1,2)] by (metis prod.collapse)
    ultimately show ?case using Cons.IH by simp
  qed simp
  then show "map (\<lambda>(_, red, _). red) xs = map (\<lambda>(_, red, _). red) ys"
    and "list_ex (\<lambda>(_, _, w). w) xs = list_ex (\<lambda>(_, _, w). w) ys"
    by (induction rule: list_all2_induct) (auto simp: split_beta)
qed

end

interpretation segments: piece_rewriter rewrite_uri_segment "\<lambda>_. True"
  by unfold_locales (use rewrite_uri_segment_redacted in blast)

interpretation params: piece_rewriter rewrite_query_param wf_resolver
  by unfold_locales (use rewrite_query_param_redacted in blast)

lemma rewrite_uri_path_redacted:
  assumes "rewrite_uri_path p r = Inr x" "rewrite_uri_path p r' = Inr y"
  shows "map_option snd x = map_option snd y"
  using assms segments.pieces_redacted [where r = r and r' = r' and ss = "split_char (CHR ''/'') p"]
  by (auto simp: rewrite_uri_path_def and_then_Inr split: if_splits)

lemma rewrite_uri_query_params_redacted:
  assumes "wf_resolver r" "wf_resolver r'"
    and "rewrite_uri_query_params q r = Inr x" "rewrite_uri_query_params q r' = Inr y"
  shows "map_option snd x = map_option snd y"
  using assms params.pieces_redacted [OF assms(1,2), of "split_char (CHR ''&'') q"]
  by (auto simp: rewrite_uri_query_params_def and_then_Inr split: if_splits)

definition or_same :: "(string \<times> string) option \<Rightarrow> string \<Rightarrow> string \<times> string" where
  "or_same x t = (case x of Some p \<Rightarrow> p | None \<Rightarrow> (t, t))"

lemma case_or_same: "(case x of Some (a, b) \<Rightarrow> (a, b) | None \<Rightarrow> (t, t)) = or_same x t"
  by (simp add: or_same_def split: option.splits)

lemma or_same_redacted: "map_option snd x = map_option snd y \<Longrightarrow> snd (or_same x t) = snd (or_same y t)"
  by (cases x; cases y) (auto simp: or_same_def)

lemma rewrite_split_target_path:
  assumes "split_once ''?'' t = None" "rewrite_split_target t r = Inr x"
  shows "\<exists>a. rewrite_uri_path t r = Inr a \<and>
     x = \<lparr>rt_resolved = fst (or_same a t), rt_redacted = snd (or_same a t)\<rparr>"
  using assms by (auto simp: rewrite_split_target_def and_then_Inr case_or_same split_beta Let_def)

lemma rewrite_split_target_query:
  assumes "split_once ''?'' t = Some (p, q)" "rewrite_split_target t r = Inr x"
  shows "\<exists>a c. rewrite_uri_path p r = Inr a \<and> rewrite_uri_query_params q r = Inr c \<and>
     x = \<lparr>rt_resolved = fst (or_same a p) @ ''?'' @ fst (or_same c q),
          rt_redacted = snd (or_same a p) @ ''?'' @ snd (or_same c q)\<rparr>"
  using assms by (auto simp: rewrite_split_target_def and_then_Inr case_or_same split_beta Let_def)

lemma rewrite_split_target_redacted:
  assumes wf: "wf_resolver r" "wf_resolver r'"
    and rw: "rewrite_split_target t r = Inr x" "rewrite_split_target t r' = Inr y"
  shows "rt_redacted x = rt_redacted y"
proof (cases "split_once ''?'' t")
  case None
  from rewrite_split_target_path [OF None rw(1)] obtain a where a:
    "rewrite_uri_path t r = Inr a" "rt_redacted x = snd (or_same a t)" by auto
  from rewrite_split_target_path [OF None rw(2)] obtain b where b:
    "rewrite_uri_path t r' = Inr b" "rt_redacted y = snd (or_same b t)" by auto
  have "snd (or_same a t) = snd (or_same b t)"
    using a(1) b(1) by (intro or_same_redacted rewrite_uri_path_redacted)
  then show ?thesis using a(2) b(2) by simp
next
  case (Some pq)
  then have sp: "split_once ''?'' t = Some (fst pq, snd pq)" by simp
  from rewrite_split_target_query [OF sp rw(1)] obtain a c where ac:
    "rewrite_uri_path (fst pq) r = Inr a" "rewrite_uri_query_params (snd pq) r = Inr c"
    "rt_redacted x = snd (or_same a (fst pq)) @ ''?'' @ snd (or_same c (snd pq))" by auto
  from rewrite_split_target_query [OF sp rw(2)] obtain b d where bd:
    "rewrite_uri_path (fst pq) r' = Inr b" "rewrite_uri_query_params (snd pq) r' = Inr d"
    "rt_redacted y = snd (or_same b (fst pq)) @ ''?'' @ snd (or_same d (snd pq))" by auto
  have "snd (or_same a (fst pq)) = snd (or_same b (fst pq))"
    using ac(1) bd(1) by (intro or_same_redacted rewrite_uri_path_redacted)
  moreover have "snd (or_same c (snd pq)) = snd (or_same d (snd pq))"
    using ac(2) bd(2) wf by (intro or_same_redacted rewrite_uri_query_params_redacted)
  ultimately show ?thesis using ac(3) bd(3) by simp
qed


section \<open>Structure of the rewritten path\<close>

lemma slash_not_kept: "\<not> path_char (CHR ''/'')" "\<not> is_ascii_hexdigit (CHR ''/'')"
    "\<not> path_char (CHR ''?'')" "\<not> is_ascii_hexdigit (CHR ''?'')"
  by (simp_all add: unreserved_def path_char_def is_ascii_alphanumeric_def is_ascii_digit_def
      is_ascii_upper_def is_ascii_lower_def is_ascii_hexdigit_def)

lemma rewrite_uri_segment_Inr:
  assumes "rewrite_uri_segment r s = Inr (a, b, w)"
  shows "\<not> contains PLACEHOLDER_PREFIX (percent_decode s) \<Longrightarrow> a = s"
    and "d \<in> {CHR ''/'', CHR ''?''} \<Longrightarrow> d \<notin> set s \<Longrightarrow> d \<notin> set a"
  using assms path_codec.encode_no_delim slash_not_kept
  by (auto simp: rewrite_uri_segment_def Let_def and_then_Inr split: if_splits)

lemma rewrite_uri_segments_chars:
  assumes "map_result (rewrite_uri_segment r) ss = Inr xs" "d \<in> {CHR ''/'', CHR ''?''}"
    "\<forall>s \<in> set ss. d \<notin> set s"
  shows "\<forall>x \<in> set (map fst xs). d \<notin> set x"
  using assms(1,3)
proof (induction ss arbitrary: xs)
  case (Cons s ss)
  from Cons.prems(1) obtain x xs' where x: "rewrite_uri_segment r s = Inr x" "xs = x # xs'"
    "map_result (rewrite_uri_segment r) ss = Inr xs'" by (auto simp: and_then_Inr)
  then have "d \<notin> set (fst x)"
    using rewrite_uri_segment_Inr(2) [of r s "fst x" "fst (snd x)" "snd (snd x)" d] assms(2) Cons.prems(2)
    by auto
  with x Cons show ?case by auto
qed simp

lemma rewrite_uri_path_segments:
  assumes "rewrite_uri_path path r = Inr (Some (res, red))"
  obtains xs where "map_result (rewrite_uri_segment r) (split_char (CHR ''/'') path) = Inr xs"
    "split_char (CHR ''/'') res = map fst xs" "res = join ''/'' (map fst xs)"
proof -
  from assms obtain xs where xs: "map_result (rewrite_uri_segment r) (split_char (CHR ''/'') path) = Inr xs"
    and res: "res = join ''/'' (map fst xs)"
    by (auto simp: rewrite_uri_path_def and_then_Inr split: if_splits)
  have "xs \<noteq> []" using map_result_length [OF xs] by auto
  moreover have "\<forall>x \<in> set (map fst xs). CHR ''/'' \<notin> set x"
    using xs split_char_no_sep by (intro rewrite_uri_segments_chars) auto
  ultimately have "split_char (CHR ''/'') res = map fst xs"
    unfolding res by (intro split_char_join) auto
  with xs res that show thesis by blast
qed

lemma rewrite_uri_path_structure_facts:
  assumes "rewrite_uri_path path r = Inr (Some (res, red))"
  shows "length (split_char (CHR ''/'') res) = length (split_char (CHR ''/'') path)"
    and "\<forall>i < length (split_char (CHR ''/'') path).
           \<not> contains PLACEHOLDER_PREFIX (percent_decode (split_char (CHR ''/'') path ! i)) \<longrightarrow>
           split_char (CHR ''/'') res ! i = split_char (CHR ''/'') path ! i"
    and "CHR ''?'' \<notin> set path \<longrightarrow> CHR ''?'' \<notin> set res"
proof -
  from assms obtain xs where xs: "map_result (rewrite_uri_segment r) (split_char (CHR ''/'') path) = Inr xs"
    and sp: "split_char (CHR ''/'') res = map fst xs" and res: "res = join ''/'' (map fst xs)"
    by (rule rewrite_uri_path_segments)
  show len: "length (split_char (CHR ''/'') res) = length (split_char (CHR ''/'') path)"
    using map_result_length [OF xs] by (simp add: sp)
  show "\<forall>i < length (split_char (CHR ''/'') path).
           \<not> contains PLACEHOLDER_PREFIX (percent_decode (split_char (CHR ''/'') path ! i)) \<longrightarrow>
           split_char (CHR ''/'') res ! i = split_char (CHR ''/'') path ! i"
  proof (intro allI impI)
    fix i assume i: "i < length (split_char (CHR ''/'') path)"
      and np: "\<not> contains PLACEHOLDER_PREFIX (percent_decode (split_char (CHR ''/'') path ! i))"
    have "rewrite_uri_segment r (split_char (CHR ''/'') path ! i) = Inr (xs ! i)"
      using xs i by (simp add: map_result_Inr list_all2_conv_all_nth)
    with np have "fst (xs ! i) = split_char (CHR ''/'') path ! i"
      by (metis prod.collapse rewrite_uri_segment_Inr(1))
    then show "split_char (CHR ''/'') res ! i = split_char (CHR ''/'') path ! i"
      using i len by (simp add: sp)
  qed
  show "CHR ''?'' \<notin> set path \<longrightarrow> CHR ''?'' \<notin> set res"
  proof
    assume "CHR ''?'' \<notin> set path"
    then have "\<forall>s \<in> set (split_char (CHR ''/'') path). CHR ''?'' \<notin> set s"
      using split_char_set by blast
    then have "\<forall>x \<in> set (map fst xs). CHR ''?'' \<notin> set x"
      using xs by (intro rewrite_uri_segments_chars) auto
    then show "CHR ''?'' \<notin> set res"
      using set_join [of "''/''" "map fst xs"] by (auto simp: res)
  qed
qed

text \<open>Resolving the placeholders of a path keeps its structure: the resolved path has the
  same number of segments, every segment without a (decoded) placeholder is unchanged, and no
  query separator is introduced, whatever the secrets contain.\<close>

theorem rewrite_uri_path_structure:
  assumes "rewrite_uri_path path r = Inr (Some (res, red))"
  shows "length (split_char (CHR ''/'') res) = length (split_char (CHR ''/'') path) \<and>
    (\<forall>i < length (split_char (CHR ''/'') path).
       \<not> contains PLACEHOLDER_PREFIX (percent_decode (split_char (CHR ''/'') path ! i)) \<longrightarrow>
       split_char (CHR ''/'') res ! i = split_char (CHR ''/'') path ! i) \<and>
    (CHR ''?'' \<notin> set path \<longrightarrow> CHR ''?'' \<notin> set res)"
  using rewrite_uri_path_structure_facts [OF assms] by blast

definition example_resolver :: secret_resolver where
  "example_resolver = \<lparr>by_placeholder = [(''openshell:resolve:env:K'', ''a b'')]\<rparr>"

theorem rewrite_uri_path_structure_witness:
  "rewrite_uri_path ''/botopenshell:resolve:env:K/x'' example_resolver =
     Inr (Some (''/bota%20b/x'', ''/bot[CREDENTIAL]/x'')) \<and>
   length (split_char (CHR ''/'') ''/bota%20b/x'') =
     length (split_char (CHR ''/'') ''/botopenshell:resolve:env:K/x'')"
proof -
  have h: "rewrite_uri_path ''/botopenshell:resolve:env:K/x'' example_resolver =
     Inr (Some (''/bota%20b/x'', ''/bot[CREDENTIAL]/x''))"
    by code_simp
  show ?thesis using h rewrite_uri_path_structure [OF h] by blast
qed

text \<open>Percent encoding is invertible for both URL positions (every valid string is recovered by
  \<open>percent_decode\<close>), and an encoded query value contains only unreserved characters, percent
  signs and hexadecimal digits, an encoded path segment no slash, question mark or hash.\<close>

theorem percent_encoding_roundtrip:
  assumes "is_utf8 s"
  shows "percent_decode (percent_encode_query s) = s \<and>
    percent_decode (percent_encode_path_segment s) = s \<and>
    (\<forall>c. c \<in> set (percent_encode_query s) \<longrightarrow> unreserved c \<or> c = CHR ''%'' \<or> is_ascii_hexdigit c) \<and>
    CHR ''/'' \<notin> set (percent_encode_path_segment s) \<and>
    CHR ''?'' \<notin> set (percent_encode_path_segment s) \<and>
    CHR ''#'' \<notin> set (percent_encode_path_segment s)"
proof -
  have "\<not> path_char (CHR ''#'')" "\<not> is_ascii_hexdigit (CHR ''#'')"
    by (simp_all add: unreserved_def path_char_def is_ascii_alphanumeric_def is_ascii_digit_def
        is_ascii_upper_def is_ascii_lower_def is_ascii_hexdigit_def)
  with assms slash_not_kept show ?thesis
    using query_codec.decode_encode query_codec.encode_chars path_codec.decode_encode
      path_codec.encode_no_delim by blast
qed

theorem percent_encoding_roundtrip_witness:
  "percent_decode (percent_encode_query ''a/b c&d'') = ''a/b c&d''"
proof -
  have "is_utf8 ''a/b c&d''" by (intro ascii_is_utf8) (simp add: ascii_def)
  from percent_encoding_roundtrip [OF this] show ?thesis by blast
qed

text \<open>C14: the redacted target, which goes to policy evaluation and to the logs, does not depend on
  the secrets: two well-formed resolvers that both accept a target redact it to the same string.\<close>

theorem redaction_independent_of_secrets:
  assumes "wf_resolver r" "wf_resolver r'"
    and "rewrite_target_for_eval t r = Inr x" "rewrite_target_for_eval t r' = Inr y"
  shows "rt_redacted x = rt_redacted y"
  using assms rewrite_split_target_redacted [OF assms(1,2), of t x y]
  by (auto simp: rewrite_target_for_eval_def split: if_splits)

definition example_resolver2 :: secret_resolver where
  "example_resolver2 = \<lparr>by_placeholder = [(''openshell:resolve:env:K'', ''zzz'')]\<rparr>"

theorem redaction_independent_of_secrets_witness:
  "\<exists>x y. rewrite_target_for_eval ''/openshell:resolve:env:K?a=openshell:resolve:env:K'' example_resolver = Inr x \<and>
     rewrite_target_for_eval ''/openshell:resolve:env:K?a=openshell:resolve:env:K'' example_resolver2 = Inr y \<and>
     rt_resolved x \<noteq> rt_resolved y \<and> rt_redacted x = rt_redacted y"
proof -
  have wf: "wf_resolver example_resolver" "wf_resolver example_resolver2"
    by (simp_all add: wf_resolver_def example_resolver_def example_resolver2_def
        starts_with_def PLACEHOLDER_PREFIX_def)
  have x: "rewrite_target_for_eval ''/openshell:resolve:env:K?a=openshell:resolve:env:K'' example_resolver =
      Inr \<lparr>rt_resolved = ''/a%20b?a=a%20b'', rt_redacted = ''/[CREDENTIAL]?a=[CREDENTIAL]''\<rparr>"
    by code_simp
  have y: "rewrite_target_for_eval ''/openshell:resolve:env:K?a=openshell:resolve:env:K'' example_resolver2 =
      Inr \<lparr>rt_resolved = ''/zzz?a=zzz'', rt_redacted = ''/[CREDENTIAL]?a=[CREDENTIAL]''\<rparr>"
    by code_simp
  have "''/a%20b?a=a%20b'' \<noteq> ''/zzz?a=zzz''" by simp
  with redaction_independent_of_secrets [OF wf x y] x y show ?thesis
    by (metis rewrite_target_result.select_convs(1))
qed

text \<open>The environment given to the sandboxed process contains placeholders only (it is the same
  for any secret values), every placeholder in it resolves to the provider's secret unless that
  secret contains CR, LF or NUL, and the resolver is well formed.\<close>

theorem provider_env_placeholders:
  assumes "distinct (map fst env)" "map_of env k = Some v"
  shows "map_of (fst (from_provider_env env)) k = Some (placeholder_for_env_key k) \<and>
    (\<exists>r. snd (from_provider_env env) = Some r \<and> wf_resolver r \<and>
       resolve_placeholder r (placeholder_for_env_key k) = (if clean v then Some v else None)) \<and>
    fst (from_provider_env env) = fst (from_provider_env (map (\<lambda>(key, _). (key, w)) env))"
proof -
  from from_provider_env_lookup [OF assms] obtain r where r: "snd (from_provider_env env) = Some r"
    and m: "map_of (by_placeholder r) (placeholder_for_env_key k) = Some v" by auto
  have "resolve_placeholder r (placeholder_for_env_key k) = (if clean v then Some v else None)"
    using m by (auto simp: resolve_placeholder_Some)
      (metis m not_None_eq option.sel resolve_placeholder_Some)
  with r have "\<exists>r. snd (from_provider_env env) = Some r \<and> wf_resolver r \<and>
       resolve_placeholder r (placeholder_for_env_key k) = (if clean v then Some v else None)"
    using from_provider_env_wf by blast
  moreover have "fst (from_provider_env env) = fst (from_provider_env (map (\<lambda>(key, _). (key, w)) env))"
    by (simp add: from_provider_env_child comp_def case_prod_unfold)
  ultimately show ?thesis using from_provider_env_lookup(1) [OF assms] by blast
qed

theorem provider_env_placeholders_witness:
  "map_of (fst (from_provider_env [(''TOKEN'', ''s3cret'')])) ''TOKEN'' =
     Some ''openshell:resolve:env:TOKEN''"
  using provider_env_placeholders [of "[(''TOKEN'', ''s3cret'')]" "''TOKEN''" "''s3cret''"]
  by (simp add: placeholder_for_env_key_def PLACEHOLDER_PREFIX_def)

section \<open>No request splitting\<close>

lemma rewrite_header_value_clean:
  assumes "\<forall>s. clean (b64_encode b64 s)" "clean v" "rewrite_header_value b64 r v = Some w"
  shows "clean w"
proof -
  have tv: "clean (trim v)" using assms(2) by (rule clean_trim)
  have b: "rewrite_basic_auth_token b64 r e = Some t \<Longrightarrow> clean t" for e t
    using assms(1) by (auto simp: rewrite_basic_auth_token_def split: option.splits if_splits)
  have sp: "clean '' ''" "clean ''Basic ''" by (simp_all add: clean_def)
  have p: "clean (take i (trim v) @ '' '' @ s)" if "resolve_placeholder r q = Some s" for i q s
    using that tv sp(1) by (simp add: clean_take resolve_placeholder_Some del: append_Cons append_Nil)
  show ?thesis
    using assms(3) b p sp(2)
    by (fastforce simp: rewrite_header_value_def Let_def resolve_placeholder_Some simp del: append_Cons append_Nil
        split: option.splits)
qed

text \<open>C13: rewriting a header line can neither split it nor inject another header: if the line has no
  CR, LF or NUL, the rewritten line has none, whatever the provider's secrets are. The hypothesis
  on the Base64 engine is its documented alphabet.\<close>

theorem rewrite_header_line_no_injection:
  assumes "\<forall>s. clean (b64_encode b64 s)" "clean line"
  shows "clean (rewrite_header_line b64 line r)"
proof (cases "split_once '':'' line")
  case None
  with assms(2) show ?thesis by (simp add: rewrite_header_line_def)
next
  case (Some nv)
  obtain n v where nv: "nv = (n, v)" by (cases nv)
  with Some have "line = n @ '':'' @ v" using split_once_Some [of "'':''" line n v] by simp
  with assms(2) have "clean n" "clean v" by (simp_all add: clean_def)
  moreover have "clean '': ''" by (simp add: clean_def)
  ultimately show ?thesis
    using Some nv assms rewrite_header_value_clean [OF assms(1) clean_trim]
    by (auto simp: rewrite_header_line_def simp del: append_Cons append_Nil split: option.splits)
qed

definition example_base64 :: base64_engine where
  "example_base64 = \<lparr>b64_decode = Some, b64_encode = (\<lambda>s. filter (\<lambda>c. c \<notin> {CR, LF, NUL}) s)\<rparr>"

theorem rewrite_header_line_no_injection_witness:
  "clean (rewrite_header_line example_base64 ''X-Key: openshell:resolve:env:K'' example_resolver)"
proof -
  have "\<forall>s. clean (b64_encode example_base64 s)"
    by (simp add: example_base64_def clean_def)
  moreover have "clean ''X-Key: openshell:resolve:env:K''" by (simp add: clean_def)
  ultimately show ?thesis by (rule rewrite_header_line_no_injection)
qed

section \<open>The fail-closed scan\<close>

lemma ascii_prefix: "ascii PLACEHOLDER_PREFIX" "PLACEHOLDER_PREFIX \<noteq> []"
  by (simp_all add: ascii_def PLACEHOLDER_PREFIX_def)


lemma rewrite_http_header_block_eval:
  assumes "find_sub CRLFCRLF raw = Some p"
    and "split_str CRLF (utf8_lossy (take (p + 4) raw)) = request_line # header_lines"
    and "rewrite_request_line request_line r = Inr (line, red)"
    and "map (\<lambda>l. rewrite_header_line b64 l r) (takeWhile (\<lambda>l. l \<noteq> []) header_lines) = ls"
    and "output = line @ CRLF @ concat (map (\<lambda>l. l @ CRLF) ls) @ CRLF @ drop (p + 4) raw"
    and "\<not> contains PLACEHOLDER_PREFIX (utf8_lossy (take (min (length output) (p + 4 + 256)) output))"
    and "\<not> contains PLACEHOLDER_PREFIX (percent_decode
           (hd (split_str CRLF (utf8_lossy (take (min (length output) (p + 4 + 256)) output)))))"
  shows "rewrite_http_header_block b64 raw (Some r) = Inr \<lparr>rr_rewritten = output, rr_redacted_target = red\<rparr>"
proof -
  have "concat (map (\<lambda>l. rewrite_header_line b64 l r @ CRLF) (takeWhile (\<lambda>l. l \<noteq> []) header_lines))
      = concat (map (\<lambda>l. l @ CRLF) ls)"
    by (simp add: assms(4) [symmetric] comp_def del: append_Cons)
  with assms show ?thesis
    unfolding rewrite_http_header_block_def by (simp add: Let_def del: append_Cons take_append)
qed

lemma rewrite_header_line_eval:
  "split_once '':'' line = Some (n, v) \<Longrightarrow> rewrite_header_value b64 r (trim v) = x \<Longrightarrow>
   rewrite_header_line b64 line r = (case x of Some w \<Rightarrow> n @ '': '' @ w | None \<Rightarrow> line)"
  by (simp add: rewrite_header_line_def)

definition example_request :: string where
  "example_request = ''GET /x HTTP/1.1'' @ CRLF @ ''A: openshell:resolve:env:K'' @ CRLFCRLF"

lemma example_header_line:
  "rewrite_header_line example_base64 ''A: openshell:resolve:env:K'' example_resolver = ''A: a b''"
proof -
  have "split_once '':'' ''A: openshell:resolve:env:K'' = Some (''A'', '' openshell:resolve:env:K'')"
    by code_simp
  moreover have "rewrite_header_value example_base64 example_resolver
      (trim '' openshell:resolve:env:K'') = Some ''a b''" by code_simp
  ultimately show ?thesis by (simp add: rewrite_header_line_eval)
qed

lemma example_block:
  "rewrite_http_header_block example_base64 example_request (Some example_resolver) =
   Inr \<lparr>rr_rewritten = ''GET /x HTTP/1.1'' @ CRLF @ ''A: a b'' @ CRLFCRLF, rr_redacted_target = None\<rparr>"
proof (rule rewrite_http_header_block_eval)
  show "find_sub CRLFCRLF example_request = Some 43" by code_simp
  show "split_str CRLF (utf8_lossy (take (43 + 4) example_request)) =
      ''GET /x HTTP/1.1'' # [''A: openshell:resolve:env:K'', [], []]" by code_simp
  show "rewrite_request_line ''GET /x HTTP/1.1'' example_resolver = Inr (''GET /x HTTP/1.1'', None)"
    by code_simp
  show "map (\<lambda>l. rewrite_header_line example_base64 l example_resolver)
      (takeWhile (\<lambda>l. l \<noteq> []) [''A: openshell:resolve:env:K'', [], []]) = [''A: a b'']"
    by (simp add: example_header_line)
qed code_simp+


text \<open>
  The window of the scan is measured on the original block. A resolved secret that is much longer
  than its placeholder moves the rest of the block out of it.
\<close>

definition long_secret :: string where
  "long_secret = replicate 300 (CHR ''a'')"

definition long_secret_resolver :: secret_resolver where
  "long_secret_resolver = \<lparr>by_placeholder = [(''openshell:resolve:env:K'', long_secret)]\<rparr>"

definition two_header_request :: string where
  "two_header_request = ''GET / HTTP/1.1'' @ CRLF @ ''A: openshell:resolve:env:K'' @ CRLF
     @ ''B: openshell:resolve:env:X y'' @ CRLFCRLF"

lemma long_header_lines:
  "rewrite_header_line example_base64 ''A: openshell:resolve:env:K'' long_secret_resolver = ''A: '' @ long_secret"
  "rewrite_header_line example_base64 ''B: openshell:resolve:env:X y'' long_secret_resolver =
     ''B: openshell:resolve:env:X y''"
proof -
  have "split_once '':'' ''A: openshell:resolve:env:K'' = Some (''A'', '' openshell:resolve:env:K'')"
    by code_simp
  moreover have "rewrite_header_value example_base64 long_secret_resolver
      (trim '' openshell:resolve:env:K'') = Some long_secret" by code_simp
  ultimately show "rewrite_header_line example_base64 ''A: openshell:resolve:env:K'' long_secret_resolver =
      ''A: '' @ long_secret" by (simp add: rewrite_header_line_eval)
  have "split_once '':'' ''B: openshell:resolve:env:X y'' = Some (''B'', '' openshell:resolve:env:X y'')"
    by code_simp
  moreover have "rewrite_header_value example_base64 long_secret_resolver
      (trim '' openshell:resolve:env:X y'') = None" by code_simp
  ultimately show "rewrite_header_line example_base64 ''B: openshell:resolve:env:X y'' long_secret_resolver =
      ''B: openshell:resolve:env:X y''" by (simp add: rewrite_header_line_eval)
qed

lemma hd_split_str: "find_sub p s = Some i \<Longrightarrow> p \<noteq> [] \<Longrightarrow> hd (split_str p s) = take i s"
  by (simp add: split_str.simps)

definition two_header_output :: string where
  "two_header_output = ''GET / HTTP/1.1'' @ CRLF @ ''A: '' @ long_secret @ CRLF
     @ ''B: openshell:resolve:env:X y'' @ CRLFCRLF"

lemma two_header_window:
  "utf8_lossy (take (min (length two_header_output) (72 + 4 + 256)) two_header_output) =
     take 332 two_header_output"
  "\<not> contains PLACEHOLDER_PREFIX (take 332 two_header_output)"
  "hd (split_str CRLF (take 332 two_header_output)) = ''GET / HTTP/1.1''"
proof -
  have a: "ascii (take 332 two_header_output)"
    by (intro ballI [THEN ascii_def [THEN iffD2]])
      (auto simp: two_header_output_def long_secret_def dest!: in_set_takeD)
  have "length two_header_output = 353" by (simp add: two_header_output_def long_secret_def)
  then show "utf8_lossy (take (min (length two_header_output) (72 + 4 + 256)) two_header_output) =
     take 332 two_header_output"
    using a by (simp add: utf8_lossy_valid ascii_is_utf8)
  show "\<not> contains PLACEHOLDER_PREFIX (take 332 two_header_output)" by code_simp
  have "find_sub CRLF (take 332 two_header_output) = Some 14" by code_simp
  then show "hd (split_str CRLF (take 332 two_header_output)) = ''GET / HTTP/1.1''"
    by (simp add: hd_split_str two_header_output_def)
qed

lemma two_header_block:
  "rewrite_http_header_block example_base64 two_header_request (Some long_secret_resolver) =
   Inr \<lparr>rr_rewritten = two_header_output, rr_redacted_target = None\<rparr>"
proof (rule rewrite_http_header_block_eval)
  show "find_sub CRLFCRLF two_header_request = Some 72" by code_simp
  show "split_str CRLF (utf8_lossy (take (72 + 4) two_header_request)) =
      ''GET / HTTP/1.1'' # [''A: openshell:resolve:env:K'', ''B: openshell:resolve:env:X y'', [], []]"
    by code_simp
  show "rewrite_request_line ''GET / HTTP/1.1'' long_secret_resolver = Inr (''GET / HTTP/1.1'', None)"
    by code_simp
  show "map (\<lambda>l. rewrite_header_line example_base64 l long_secret_resolver)
      (takeWhile (\<lambda>l. l \<noteq> []) [''A: openshell:resolve:env:K'', ''B: openshell:resolve:env:X y'', [], []])
      = [''A: '' @ long_secret, ''B: openshell:resolve:env:X y'']"
    by (simp only: takeWhile.simps list.map long_header_lines if_True if_False list.distinct simp_thms)
  show "two_header_output = ''GET / HTTP/1.1'' @ CRLF @ concat (map (\<lambda>l. l @ CRLF)
      [''A: '' @ long_secret, ''B: openshell:resolve:env:X y'']) @ CRLF @ drop (72 + 4) two_header_request"
    by (simp add: two_header_output_def two_header_request_def)
  show "\<not> contains PLACEHOLDER_PREFIX
      (utf8_lossy (take (min (length two_header_output) (72 + 4 + 256)) two_header_output))"
    unfolding two_header_window(1) by (rule two_header_window(2))
  have "\<not> contains PLACEHOLDER_PREFIX (percent_decode ''GET / HTTP/1.1'')" by code_simp
  then show "\<not> contains PLACEHOLDER_PREFIX (percent_decode (hd (split_str CRLF
      (utf8_lossy (take (min (length two_header_output) (72 + 4 + 256)) two_header_output)))))"
    unfolding two_header_window(1,3) .
qed

text \<open>Outside that window the scan does not fail closed: with a 300 byte secret in the first header,
  a request whose second header holds an unresolved placeholder is accepted and forwarded with
  the placeholder in its header block.\<close>

theorem rewrite_http_header_block_window_gap:
  "\<exists>res q. rewrite_http_header_block example_base64 two_header_request (Some long_secret_resolver) = Inr res \<and>
     find_sub CRLFCRLF (rr_rewritten res) = Some q \<and>
     contains PLACEHOLDER_PREFIX (take q (rr_rewritten res))"
proof -
  have "find_sub CRLFCRLF two_header_output = Some 349" by code_simp
  moreover have "contains PLACEHOLDER_PREFIX (take 349 two_header_output)" by code_simp
  ultimately show ?thesis
    using two_header_block by (metis rewrite_result.select_convs(1))
qed

text \<open>Replacing placeholders inside a decoded Basic token depends on the iteration order of the hash
  map when one key is a prefix of another: the same resolver entries, visited in the two orders,
  give different credentials.\<close>

theorem basic_auth_order_dependent:
  "set [(''openshell:resolve:env:K'', ''one''), (''openshell:resolve:env:K2'', ''two'')] =
   set [(''openshell:resolve:env:K2'', ''two''), (''openshell:resolve:env:K'', ''one'')] \<and>
   rewrite_occurrences [(''openshell:resolve:env:K'', ''one''), (''openshell:resolve:env:K2'', ''two'')]
     ''user:openshell:resolve:env:K2'' = Some ''user:one2'' \<and>
   rewrite_occurrences [(''openshell:resolve:env:K2'', ''two''), (''openshell:resolve:env:K'', ''one'')]
     ''user:openshell:resolve:env:K2'' = Some ''user:two''"
proof (intro conjI)
  show "rewrite_occurrences [(''openshell:resolve:env:K'', ''one''), (''openshell:resolve:env:K2'', ''two'')]
     ''user:openshell:resolve:env:K2'' = Some ''user:one2''" by code_simp
  show "rewrite_occurrences [(''openshell:resolve:env:K2'', ''two''), (''openshell:resolve:env:K'', ''one'')]
     ''user:openshell:resolve:env:K2'' = Some ''user:two''" by code_simp
qed auto

end
