(* ===== verification/Policy_Model.thy ===== *)
theory Policy_Model
  imports Rust_Text "HOL-Library.Char_ord" "HOL-Library.List_Lexorder"
begin

text \<open>
  The sandbox policy data model and its YAML representation
  (\<open>crates/openshell-policy/src/lib.rs\<close>). The protobuf messages are records (a \<open>u32\<close> is a 32 bit
  word, a YAML port a 16 bit word). A \<open>HashMap\<close> is an association list with distinct keys whose
  order is the iteration order, which the program does not control; a \<open>BTreeMap\<close> is an association
  list sorted by key, built by \<open>btree_collect\<close>. The theory holds the two conversions between the
  representations, the restrictive default policy, the process identity defaults, the safety
  validation with its violations, and the lexical path normalisation, which rest on a model of
  \<open>std::path\<close> on Unix.
\<close>

section \<open>Protobuf messages\<close>

type_synonym u16 = "16 word"
type_synonym u32 = "32 word"
type_synonym 'v str_map = "(string \<times> 'v) list"

record filesystem_policy =
  fs_include_workdir :: bool
  fs_read_only :: "string list"
  fs_read_write :: "string list"

record landlock_policy =
  ll_compatibility :: string

record process_policy =
  pr_run_as_user :: string
  pr_run_as_group :: string

record l7_query_matcher =
  qm_glob :: string
  qm_any :: "string list"

record l7_allow =
  al_method :: string
  al_path :: string
  al_command :: string
  al_query :: "l7_query_matcher str_map"

record l7_rule =
  lr_allow :: "l7_allow option"

record network_endpoint =
  ep_host :: string
  ep_port :: u32
  ep_protocol :: string
  ep_tls :: string
  ep_enforcement :: string
  ep_access :: string
  ep_rules :: "l7_rule list"
  ep_allowed_ips :: "string list"
  ep_ports :: "u32 list"

record network_binary =
  nb_path :: string
  nb_harness :: bool

record network_policy_rule =
  np_name :: string
  np_endpoints :: "network_endpoint list"
  np_binaries :: "network_binary list"

record sandbox_policy =
  sp_version :: u32
  sp_filesystem :: "filesystem_policy option"
  sp_landlock :: "landlock_policy option"
  sp_process :: "process_policy option"
  sp_network_policies :: "network_policy_rule str_map"

text \<open>The \<open>Default\<close> values of the generated messages.\<close>

definition l7_allow_default :: l7_allow where
  "l7_allow_default = \<lparr>al_method = [], al_path = [], al_command = [], al_query = []\<rparr>"

definition process_policy_default :: process_policy where
  "process_policy_default = \<lparr>pr_run_as_user = [], pr_run_as_group = []\<rparr>"

definition sandbox_policy_default :: sandbox_policy where
  "sandbox_policy_default = \<lparr>sp_version = 0, sp_filesystem = None, sp_landlock = None,
     sp_process = None, sp_network_policies = []\<rparr>"

section \<open>YAML representation\<close>

record filesystem_def =
  fd_include_workdir :: bool
  fd_read_only :: "string list"
  fd_read_write :: "string list"

record landlock_def =
  ld_compatibility :: string

record process_def =
  pd_run_as_user :: string
  pd_run_as_group :: string

datatype query_matcher_def = Glob string | Any "string list"

record l7_allow_def =
  ad_method :: string
  ad_path :: string
  ad_command :: string
  ad_query :: "query_matcher_def str_map"

record l7_rule_def =
  rd_allow :: l7_allow_def

record network_endpoint_def =
  ed_host :: string
  ed_port :: u16
  ed_ports :: "u16 list"
  ed_protocol :: string
  ed_tls :: string
  ed_enforcement :: string
  ed_access :: string
  ed_rules :: "l7_rule_def list"
  ed_allowed_ips :: "string list"

record network_binary_def =
  bd_path :: string
  bd_harness :: bool

record network_policy_rule_def =
  nd_name :: string
  nd_endpoints :: "network_endpoint_def list"
  nd_binaries :: "network_binary_def list"

record policy_file =
  pf_version :: u32
  pf_filesystem_policy :: "filesystem_def option"
  pf_landlock :: "landlock_def option"
  pf_process :: "process_def option"
  pf_network_policies :: "network_policy_rule_def str_map"

definition btree_collect :: "'v str_map \<Rightarrow> 'v str_map" where
  "btree_collect m = sort_key fst m"

abbreviation btree :: "'v str_map \<Rightarrow> bool" where
  "btree m \<equiv> sorted (map fst m) \<and> distinct (map fst m)"

section \<open>YAML to proto\<close>

definition query_matcher_to_proto :: "query_matcher_def \<Rightarrow> l7_query_matcher" where
  "query_matcher_to_proto d = (case d of
     Glob g \<Rightarrow> \<lparr>qm_glob = g, qm_any = []\<rparr>
   | Any xs \<Rightarrow> \<lparr>qm_glob = [], qm_any = xs\<rparr>)"

definition rule_to_proto :: "l7_rule_def \<Rightarrow> l7_rule" where
  "rule_to_proto r = \<lparr>lr_allow = Some
     \<lparr>al_method = ad_method (rd_allow r), al_path = ad_path (rd_allow r),
      al_command = ad_command (rd_allow r),
      al_query = map (\<lambda>(k, m). (k, query_matcher_to_proto m)) (ad_query (rd_allow r))\<rparr>\<rparr>"

definition normalized_ports :: "network_endpoint_def \<Rightarrow> u32 list" where
  "normalized_ports e =
     (if ed_ports e \<noteq> [] then map ucast (ed_ports e)
      else if ed_port e > 0 then [ucast (ed_port e)] else [])"

definition endpoint_to_proto :: "network_endpoint_def \<Rightarrow> network_endpoint" where
  "endpoint_to_proto e =
     \<lparr>ep_host = ed_host e,
      ep_port = (case normalized_ports e of [] \<Rightarrow> 0 | p # _ \<Rightarrow> p),
      ep_protocol = ed_protocol e, ep_tls = ed_tls e, ep_enforcement = ed_enforcement e,
      ep_access = ed_access e, ep_rules = map rule_to_proto (ed_rules e),
      ep_allowed_ips = ed_allowed_ips e, ep_ports = normalized_ports e\<rparr>"

definition network_rule_to_proto :: "string \<Rightarrow> network_policy_rule_def \<Rightarrow> network_policy_rule" where
  "network_rule_to_proto key rule =
     \<lparr>np_name = (if nd_name rule = [] then key else nd_name rule),
      np_endpoints = map endpoint_to_proto (nd_endpoints rule),
      np_binaries = map (\<lambda>b. \<lparr>nb_path = bd_path b, nb_harness = False\<rparr>) (nd_binaries rule)\<rparr>"

definition to_proto :: "policy_file \<Rightarrow> sandbox_policy" where
  "to_proto raw =
     \<lparr>sp_version = pf_version raw,
      sp_filesystem = map_option (\<lambda>fs. \<lparr>fs_include_workdir = fd_include_workdir fs,
        fs_read_only = fd_read_only fs, fs_read_write = fd_read_write fs\<rparr>)
        (pf_filesystem_policy raw),
      sp_landlock = map_option (\<lambda>l. \<lparr>ll_compatibility = ld_compatibility l\<rparr>) (pf_landlock raw),
      sp_process = map_option (\<lambda>p. \<lparr>pr_run_as_user = pd_run_as_user p,
        pr_run_as_group = pd_run_as_group p\<rparr>) (pf_process raw),
      sp_network_policies =
        map (\<lambda>(key, rule). (key, network_rule_to_proto key rule)) (pf_network_policies raw)\<rparr>"

section \<open>Proto to YAML\<close>

definition clamp_port :: "u32 \<Rightarrow> u16" where
  "clamp_port v = ucast (min v 65535)"

definition query_matcher_from_proto :: "l7_query_matcher \<Rightarrow> query_matcher_def" where
  "query_matcher_from_proto m = (if qm_any m \<noteq> [] then Any (qm_any m) else Glob (qm_glob m))"

definition rule_from_proto :: "l7_rule \<Rightarrow> l7_rule_def" where
  "rule_from_proto r =
     (let a = (case lr_allow r of None \<Rightarrow> l7_allow_default | Some a \<Rightarrow> a)
      in \<lparr>rd_allow = \<lparr>ad_method = al_method a, ad_path = al_path a, ad_command = al_command a,
           ad_query = btree_collect
             (map (\<lambda>(k, m). (k, query_matcher_from_proto m)) (al_query a))\<rparr>\<rparr>)"

definition endpoint_from_proto :: "network_endpoint \<Rightarrow> network_endpoint_def" where
  "endpoint_from_proto e =
     (let (port, ports) =
        (if length (ep_ports e) > 1 then (0, map clamp_port (ep_ports e))
         else (clamp_port (case ep_ports e of [] \<Rightarrow> ep_port e | p # _ \<Rightarrow> p), []))
      in \<lparr>ed_host = ep_host e, ed_port = port, ed_ports = ports, ed_protocol = ep_protocol e,
          ed_tls = ep_tls e, ed_enforcement = ep_enforcement e, ed_access = ep_access e,
          ed_rules = map rule_from_proto (ep_rules e), ed_allowed_ips = ep_allowed_ips e\<rparr>)"

definition network_rule_from_proto :: "network_policy_rule \<Rightarrow> network_policy_rule_def" where
  "network_rule_from_proto rule =
     \<lparr>nd_name = np_name rule, nd_endpoints = map endpoint_from_proto (np_endpoints rule),
      nd_binaries = map (\<lambda>b. \<lparr>bd_path = nb_path b, bd_harness = False\<rparr>) (np_binaries rule)\<rparr>"

definition from_proto :: "sandbox_policy \<Rightarrow> policy_file" where
  "from_proto policy =
     \<lparr>pf_version = sp_version policy,
      pf_filesystem_policy = map_option (\<lambda>fs. \<lparr>fd_include_workdir = fs_include_workdir fs,
        fd_read_only = fs_read_only fs, fd_read_write = fs_read_write fs\<rparr>)
        (sp_filesystem policy),
      pf_landlock = map_option (\<lambda>l. \<lparr>ld_compatibility = ll_compatibility l\<rparr>) (sp_landlock policy),
      pf_process = (case sp_process policy of None \<Rightarrow> None
        | Some p \<Rightarrow> if pr_run_as_user p = [] \<and> pr_run_as_group p = [] then None
                    else Some \<lparr>pd_run_as_user = pr_run_as_user p,
                               pd_run_as_group = pr_run_as_group p\<rparr>),
      pf_network_policies = btree_collect
        (map (\<lambda>(key, rule). (key, network_rule_from_proto rule)) (sp_network_policies policy))\<rparr>"

section \<open>Parsing, serialising and loading\<close>

text \<open>
  The YAML reader and writer are the \<open>serde_yml\<close> package: two functions passed as arguments. The
  file system and the environment variable read by \<open>load_sandbox_policy\<close> are arguments as well.
\<close>

definition parse_sandbox_policy ::
  "(string \<Rightarrow> ('e, policy_file) result) \<Rightarrow> string \<Rightarrow> ('e, sandbox_policy) result" where
  "parse_sandbox_policy from_str yaml = and_then (from_str yaml) (\<lambda>raw. Inr (to_proto raw))"

definition serialize_sandbox_policy ::
  "(policy_file \<Rightarrow> ('e, string) result) \<Rightarrow> sandbox_policy \<Rightarrow> ('e, string) result" where
  "serialize_sandbox_policy to_string policy = to_string (from_proto policy)"

definition load_sandbox_policy ::
  "(string \<Rightarrow> ('e, policy_file) result) \<Rightarrow> (string \<Rightarrow> ('e, string) result) \<Rightarrow> string option \<Rightarrow>
   string option \<Rightarrow> ('e, sandbox_policy option) result" where
  "load_sandbox_policy from_str read_to_string env_policy cli_path =
     (let parse = (\<lambda>path. and_then (read_to_string path)
        (\<lambda>contents. and_then (parse_sandbox_policy from_str contents) (\<lambda>p. Inr (Some p))))
      in case cli_path of Some p \<Rightarrow> parse p
         | None \<Rightarrow> (case env_policy of Some p \<Rightarrow> parse p | None \<Rightarrow> Inr None))"

section \<open>Defaults\<close>

definition restrictive_default_policy :: sandbox_policy where
  "restrictive_default_policy =
     \<lparr>sp_version = 1,
      sp_filesystem = Some \<lparr>fs_include_workdir = True,
        fs_read_only = [''/usr'', ''/lib'', ''/proc'', ''/dev/urandom'', ''/app'', ''/etc'',
                        ''/var/log''],
        fs_read_write = [''/sandbox'', ''/tmp'', ''/dev/null'']\<rparr>,
      sp_landlock = Some \<lparr>ll_compatibility = ''best_effort''\<rparr>,
      sp_process = Some \<lparr>pr_run_as_user = ''sandbox'', pr_run_as_group = ''sandbox''\<rparr>,
      sp_network_policies = []\<rparr>"

definition ensure_sandbox_process_identity :: "sandbox_policy \<Rightarrow> sandbox_policy" where
  "ensure_sandbox_process_identity policy =
     (let p0 = (case sp_process policy of None \<Rightarrow> process_policy_default | Some p \<Rightarrow> p);
          p1 = (if pr_run_as_user p0 = [] then p0\<lparr>pr_run_as_user := ''sandbox''\<rparr> else p0);
          p2 = (if pr_run_as_group p1 = [] then p1\<lparr>pr_run_as_group := ''sandbox''\<rparr> else p1)
      in policy\<lparr>sp_process := Some p2\<rparr>)"

section \<open>Paths\<close>

text \<open>
  \<open>std::path\<close> on Unix: a leading separator is the root component; empty pieces and \<open>.\<close> pieces are
  skipped, except a \<open>.\<close> that begins a relative path. Pushing a relative component adds a separator
  unless the buffer is empty or ends in one; pushing an absolute one replaces the buffer.
\<close>

datatype component = RootDir | CurDir | ParentDir | Normal string

definition has_root :: "string \<Rightarrow> bool" where
  "has_root path = starts_with ''/'' path"

fun component_of :: "string \<Rightarrow> component option" where
  "component_of s =
     (if s = [] \<or> s = ''.'' then None else if s = ''..'' then Some ParentDir else Some (Normal s))"

definition components :: "string \<Rightarrow> component list" where
  "components path =
     (if has_root path then [RootDir]
      else if path = ''.'' \<or> starts_with ''./'' path then [CurDir] else [])
     @ List.map_filter component_of (split_char (CHR ''/'') path)"

definition path_push :: "string \<Rightarrow> string \<Rightarrow> string" where
  "path_push buf s =
     (if starts_with ''/'' s then s
      else if buf = [] \<or> last buf = CHR ''/'' then buf @ s else buf @ ''/'' @ s)"

fun push_component :: "string \<Rightarrow> component \<Rightarrow> string" where
  "push_component buf RootDir = path_push buf ''/''"
| "push_component buf CurDir = buf"
| "push_component buf ParentDir = path_push buf ''..''"
| "push_component buf (Normal c) = path_push buf c"

definition normalize_path :: "string \<Rightarrow> string" where
  "normalize_path path = foldl push_component [] (components path)"

section \<open>Safety validation\<close>

definition MAX_FILESYSTEM_PATHS :: nat where "MAX_FILESYSTEM_PATHS = 256"
definition MAX_PATH_LENGTH :: nat where "MAX_PATH_LENGTH = 4096"

datatype policy_violation =
    InvalidProcessIdentity string string
  | PathTraversal string
  | RelativePath string
  | OverlyBroadPath string
  | FieldTooLong string nat
  | TooManyPaths nat

definition policy_violation_display :: "policy_violation \<Rightarrow> string" where
  "policy_violation_display v = (case v of
     InvalidProcessIdentity field val \<Rightarrow> field @ '' must be 'sandbox', got '' @ [CHR 0x27] @ val @ [CHR 0x27]
   | PathTraversal path \<Rightarrow> ''path contains '..' traversal component: '' @ path
   | RelativePath path \<Rightarrow> ''path must be absolute (start with '/'): '' @ path
   | OverlyBroadPath path \<Rightarrow> ''read-write path is overly broad: '' @ path
   | FieldTooLong path len \<Rightarrow> ''path exceeds maximum length ('' @ show_nat len @ '' > ''
       @ show_nat MAX_PATH_LENGTH @ ''): '' @ path
   | TooManyPaths count \<Rightarrow> ''too many filesystem paths ('' @ show_nat count @ '' > ''
       @ show_nat MAX_FILESYSTEM_PATHS @ '')'')"

text \<open>
  Slicing a \<open>&str\<close> at a byte that is not a character boundary panics: byte 77 is a boundary unless it
  is a UTF-8 continuation byte. \<open>None\<close> is the panic.
\<close>

definition is_char_boundary :: "string \<Rightarrow> nat \<Rightarrow> bool" where
  "is_char_boundary s n \<longleftrightarrow>
     n = 0 \<or> n = length s \<or> (n < length s \<and> \<not> (128 \<le> ord (s ! n) \<and> ord (s ! n) < 192))"

definition truncate_for_display :: "string \<Rightarrow> string option" where
  "truncate_for_display s =
     (if length s \<le> 80 then Some s
      else if is_char_boundary s 77 then Some (take 77 s @ ''...'') else None)"

definition trim_end_slashes :: "string \<Rightarrow> string" where
  "trim_end_slashes s = rev (dropWhile (\<lambda>c. c = CHR ''/'') (rev s))"

definition path_violations :: "string \<Rightarrow> policy_violation list option" where
  "path_violations p =
     (if length p > MAX_PATH_LENGTH
      then map_option (\<lambda>t. [FieldTooLong t (length p)]) (truncate_for_display p)
      else Some ((if has_root p then [] else [RelativePath p])
             @ (if list_ex (\<lambda>c. c = ParentDir) (components p) then [PathTraversal p] else [])))"

fun paths_violations :: "string list \<Rightarrow> policy_violation list option" where
  "paths_violations [] = Some []"
| "paths_violations (p # ps) =
     (case path_violations p of None \<Rightarrow> None
      | Some vs \<Rightarrow> map_option ((@) vs) (paths_violations ps))"

definition process_violations :: "process_policy \<Rightarrow> policy_violation list" where
  "process_violations p =
     (if pr_run_as_user p \<noteq> ''sandbox''
      then [InvalidProcessIdentity ''run_as_user'' (pr_run_as_user p)] else [])
     @ (if pr_run_as_group p \<noteq> ''sandbox''
        then [InvalidProcessIdentity ''run_as_group'' (pr_run_as_group p)] else [])"

definition filesystem_violations :: "filesystem_policy \<Rightarrow> policy_violation list option" where
  "filesystem_violations fs =
     (let total_paths = length (fs_read_only fs) + length (fs_read_write fs) in
      map_option (\<lambda>vs.
        (if total_paths > MAX_FILESYSTEM_PATHS then [TooManyPaths total_paths] else []) @ vs
        @ map OverlyBroadPath (filter (\<lambda>p. trim_end_slashes p = []) (fs_read_write fs)))
        (paths_violations (fs_read_only fs @ fs_read_write fs)))"

text \<open>\<open>None\<close> is a panic; \<open>Some (Inl vs)\<close> is \<open>Err(violations)\<close> and \<open>Some (Inr ())\<close> is \<open>Ok(())\<close>.\<close>

definition validate_sandbox_policy ::
  "sandbox_policy \<Rightarrow> (policy_violation list, unit) result option" where
  "validate_sandbox_policy policy =
     (let vs1 = (case sp_process policy of None \<Rightarrow> [] | Some p \<Rightarrow> process_violations p) in
      map_option (\<lambda>vs2. let violations = vs1 @ vs2 in
          if violations = [] then Inr () else Inl violations)
        (case sp_filesystem policy of None \<Rightarrow> Some [] | Some fs \<Rightarrow> filesystem_violations fs))"

end
