(* ===== verification/Policy_Props.thy ===== *)
theory Policy_Props
  imports Policy_Model "HOL-Library.Multiset"
begin

text \<open>
  Correctness of the policy data model: the YAML conversion is lossless on canonical policies and
  does not depend on the iteration order of the hash map, validation decides an explicit safety
  predicate, and path normalisation keeps exactly the meaningful components.
\<close>

section \<open>Round trip of the YAML conversion\<close>

text \<open>A policy is canonical when no information has two spellings: ports fit 16 bits and \<open>port\<close> is
  the first of \<open>ports\<close>, names are filled in, a query matcher is a glob or a list, and the maps are
  listed in key order.\<close>

definition canonical_matcher :: "l7_query_matcher \<Rightarrow> bool" where
  "canonical_matcher m \<longleftrightarrow> qm_any m = [] \<or> qm_glob m = []"

definition canonical_allow :: "l7_allow \<Rightarrow> bool" where
  "canonical_allow a \<longleftrightarrow> btree (al_query a) \<and> list_all (\<lambda>(_, m). canonical_matcher m) (al_query a)"

definition canonical_rule :: "l7_rule \<Rightarrow> bool" where
  "canonical_rule r \<longleftrightarrow> (case lr_allow r of None \<Rightarrow> False | Some a \<Rightarrow> canonical_allow a)"

definition canonical_endpoint :: "network_endpoint \<Rightarrow> bool" where
  "canonical_endpoint e \<longleftrightarrow>
     list_all (\<lambda>p. p \<le> 65535) (ep_ports e) \<and> ep_ports e \<noteq> [0]
     \<and> ep_port e = (case ep_ports e of [] \<Rightarrow> 0 | p # _ \<Rightarrow> p)
     \<and> list_all canonical_rule (ep_rules e)"

definition canonical_network_rule :: "network_policy_rule \<Rightarrow> bool" where
  "canonical_network_rule r \<longleftrightarrow>
     list_all canonical_endpoint (np_endpoints r) \<and> list_all (\<lambda>b. \<not> nb_harness b) (np_binaries r)"

definition canonical_policy :: "sandbox_policy \<Rightarrow> bool" where
  "canonical_policy p \<longleftrightarrow>
     btree (sp_network_policies p)
     \<and> list_all (\<lambda>(k, r). canonical_network_rule r \<and> (np_name r = [] \<longrightarrow> k = []))
         (sp_network_policies p)
     \<and> sp_process p \<noteq> Some process_policy_default"

lemma btree_collect_id: "btree m \<Longrightarrow> btree_collect m = m"
  by (simp add: btree_collect_def sort_key_id_if_sorted)

lemma map_fst_map_prod: "map fst (map (\<lambda>(k, v). (k, f k v)) m) = map fst m"
  by (induction m) auto

lemma btree_collect_map: "btree m \<Longrightarrow> btree_collect (map (\<lambda>(k, v). (k, f k v)) m) = map (\<lambda>(k, v). (k, f k v)) m"
  by (simp add: btree_collect_id map_fst_map_prod del: map_map)

lemma btree_collect_mset:
  assumes "distinct (map fst m)" "mset m' = mset m"
  shows "btree_collect m' = btree_collect m"
proof -
  have "set m' = set m" using assms(2) by (metis set_mset_mset)
  then have "inj_on fst (set m')" using assms(1) by (simp add: distinct_map)
  then show ?thesis unfolding btree_collect_def
    using assms(2) by (intro sort_key_inj_key_eq) simp_all
qed

lemma query_matcher_roundtrip:
  "canonical_matcher m \<Longrightarrow> query_matcher_to_proto (query_matcher_from_proto m) = m"
  by (cases m) (auto simp: canonical_matcher_def query_matcher_to_proto_def
      query_matcher_from_proto_def)

lemma rule_roundtrip:
  assumes "canonical_rule r"
  shows "rule_to_proto (rule_from_proto r) = r"
proof -
  obtain a where r: "lr_allow r = Some a" and a: "canonical_allow a"
    using assms by (auto simp: canonical_rule_def split: option.splits)
  have q: "btree (al_query a)" "\<forall>x \<in> set (al_query a). canonical_matcher (snd x)"
    using a by (auto simp: canonical_allow_def list_all_iff split_beta)
  have "map (\<lambda>(k, m). (k, query_matcher_to_proto m))
          (map (\<lambda>(k, m). (k, query_matcher_from_proto m)) (al_query a)) = al_query a"
    using q(2) by (simp, intro map_idI) (auto simp: query_matcher_roundtrip)
  then show ?thesis
    using r btree_collect_map [OF q(1), of "\<lambda>_. query_matcher_from_proto"]
    by (cases r) (simp add: rule_to_proto_def rule_from_proto_def)
qed

lemma ucast_clamp_port: "p \<le> 65535 \<Longrightarrow> ucast (clamp_port p) = (p :: u32)"
  by (rule word_unat_eq_iff [THEN iffD2])
    (simp add: clamp_port_def min_def word_le_nat_alt unsigned_ucast_eq unsigned_take_bit_eq
      take_bit_nat_eq_self)

lemma clamp_port_zero: "p \<le> 65535 \<Longrightarrow> clamp_port p = 0 \<longleftrightarrow> p = 0"
  using ucast_clamp_port [of p] by (auto simp: clamp_port_def)

lemma clamp_port_zero_val: "clamp_port 0 = 0"
  by (simp add: clamp_port_def)

lemma ports_roundtrip:
  assumes "canonical_endpoint e"
  shows "normalized_ports (endpoint_from_proto e) = ep_ports e"
proof -
  have le: "\<And>p. p \<in> set (ep_ports e) \<Longrightarrow> p \<le> 65535" and nz: "ep_ports e \<noteq> [0]"
    and hd: "ep_port e = (case ep_ports e of [] \<Rightarrow> 0 | p # _ \<Rightarrow> p)"
    using assms by (auto simp: canonical_endpoint_def list_all_iff)
  show ?thesis
  proof (cases "length (ep_ports e) > 1")
    case True
    have "map (ucast \<circ> clamp_port) (ep_ports e) = ep_ports e"
      using le by (intro map_idI) (simp add: ucast_clamp_port)
    then show ?thesis using True
      by (auto simp: normalized_ports_def endpoint_from_proto_def)
  next
    case False
    then consider "ep_ports e = []" | p where "ep_ports e = [p]"
      by (cases "ep_ports e" rule: remdups_adj.cases) auto
    then show ?thesis
      using le nz hd by cases (auto simp: normalized_ports_def endpoint_from_proto_def
          ucast_clamp_port clamp_port_zero word_gt_0 clamp_port_zero_val)
  qed
qed

lemma endpoint_roundtrip:
  assumes "canonical_endpoint e"
  shows "endpoint_to_proto (endpoint_from_proto e) = e"
proof -
  have "map (rule_to_proto \<circ> rule_from_proto) (ep_rules e) = ep_rules e"
    using assms by (intro map_idI) (simp add: canonical_endpoint_def list_all_iff rule_roundtrip)
  then show ?thesis
    using assms ports_roundtrip [OF assms]
    by (cases e) (simp add: endpoint_to_proto_def canonical_endpoint_def,
        simp add: endpoint_from_proto_def)
qed

lemma network_rule_roundtrip:
  assumes "canonical_network_rule r" "np_name r = [] \<longrightarrow> k = []"
  shows "network_rule_to_proto k (network_rule_from_proto r) = r"
proof -
  have "map (endpoint_to_proto \<circ> endpoint_from_proto) (np_endpoints r) = np_endpoints r"
    using assms(1)
    by (intro map_idI) (simp add: canonical_network_rule_def list_all_iff endpoint_roundtrip)
  moreover have "map (\<lambda>b. \<lparr>nb_path = nb_path b, nb_harness = False\<rparr>) (np_binaries r) = np_binaries r"
    using assms(1) by (intro map_idI) (simp add: canonical_network_rule_def list_all_iff)
  ultimately show ?thesis
    using assms(2) by (cases r) (auto simp: network_rule_to_proto_def network_rule_from_proto_def comp_def)
qed

lemma network_policies_roundtrip:
  assumes "canonical_policy p" "mset nps = mset (sp_network_policies p)"
  shows "map (\<lambda>(k, r). (k, network_rule_to_proto k r))
      (btree_collect (map (\<lambda>(k, r). (k, network_rule_from_proto r)) nps)) = sp_network_policies p"
proof -
  let ?f = "\<lambda>(k, r). (k :: string, network_rule_from_proto r)"
  have sorted: "btree (sp_network_policies p)" using assms(1) by (simp add: canonical_policy_def)
  have "btree_collect (map ?f nps) = btree_collect (map ?f (sp_network_policies p))"
    using sorted assms(2)
    by (intro btree_collect_mset) (simp_all add: map_fst_map_prod del: map_map)
  also have "\<dots> = map ?f (sp_network_policies p)"
    using btree_collect_map [OF sorted, of "\<lambda>_. network_rule_from_proto"] by simp
  finally have e: "btree_collect (map ?f nps) = map ?f (sp_network_policies p)" .
  show ?thesis unfolding e
    using assms(1) by (simp, intro map_idI)
      (auto simp: canonical_policy_def list_all_iff network_rule_roundtrip)
qed

text \<open>C25: serialising a canonical policy and parsing the result yields the same policy, whatever the
  order in which the hash map of network policies is iterated.\<close>

theorem policy_yaml_roundtrip:
  assumes "canonical_policy p" "mset nps = mset (sp_network_policies p)"
  shows "to_proto (from_proto (p\<lparr>sp_network_policies := nps\<rparr>)) = p"
proof -
  have "sp_process p \<noteq> Some process_policy_default" using assms(1) by (simp add: canonical_policy_def)
  then have "\<forall>pr. sp_process p = Some pr \<longrightarrow> \<not> (pr_run_as_user pr = [] \<and> pr_run_as_group pr = [])"
    by (auto simp: process_policy_default_def intro: process_policy.equality)
  then show ?thesis
    using network_policies_roundtrip [OF assms]
    by (cases p, cases "sp_process p")
      (auto simp: to_proto_def from_proto_def option.map_comp comp_def map_option_idI)
qed

definition example_endpoint :: network_endpoint where
  "example_endpoint = \<lparr>ep_host = ''api.example.com'', ep_port = 443, ep_protocol = ''rest'',
     ep_tls = [], ep_enforcement = ''enforce'', ep_access = [],
     ep_rules = [\<lparr>lr_allow = Some \<lparr>al_method = ''GET'', al_path = ''/v1/*'', al_command = [],
        al_query = [(''q'', \<lparr>qm_glob = ''a*'', qm_any = []\<rparr>), (''tag'', \<lparr>qm_glob = [], qm_any = [''x'']\<rparr>)]\<rparr>\<rparr>],
     ep_allowed_ips = [], ep_ports = [443, 8443]\<rparr>"

definition example_policy :: sandbox_policy where
  "example_policy = restrictive_default_policy\<lparr>sp_network_policies :=
     [(''api'', \<lparr>np_name = ''api'', np_endpoints = [example_endpoint],
        np_binaries = [\<lparr>nb_path = ''/usr/bin/curl'', nb_harness = False\<rparr>]\<rparr>),
      (''pypi'', \<lparr>np_name = ''pypi'', np_endpoints = [], np_binaries = []\<rparr>)]\<rparr>"

lemma canonical_example: "canonical_policy example_policy"
  by code_simp

theorem policy_yaml_roundtrip_witness:
  "to_proto (from_proto (example_policy\<lparr>sp_network_policies := rev (sp_network_policies example_policy)\<rparr>))
     = example_policy"
  by (rule policy_yaml_roundtrip) (simp_all add: canonical_example)

section \<open>Paths\<close>

text \<open>The pieces of a path that name something.\<close>

definition pieces :: "string \<Rightarrow> string list" where
  "pieces p = filter (\<lambda>s. s \<noteq> [] \<and> s \<noteq> ''.'') (split_char (CHR ''/'') p)"

lemma map_filter_component_of:
  "List.map_filter component_of xs
     = map (\<lambda>s. if s = ''..'' then ParentDir else Normal s) (filter (\<lambda>s. s \<noteq> [] \<and> s \<noteq> ''.'') xs)"
  by (induction xs) (auto simp: List.map_filter_def)

lemma components_pieces:
  "components p = (if has_root p then [RootDir]
      else if p = ''.'' \<or> starts_with ''./'' p then [CurDir] else [])
     @ map (\<lambda>s. if s = ''..'' then ParentDir else Normal s) (pieces p)"
  by (simp add: components_def pieces_def map_filter_component_of)

lemma pieces_wf: "s \<in> set (pieces p) \<Longrightarrow> s \<noteq> [] \<and> s \<noteq> ''.'' \<and> CHR ''/'' \<notin> set s"
  by (auto simp: pieces_def split_char_no_sep)

lemma push_piece:
  assumes "s \<noteq> []" "CHR ''/'' \<notin> set s"
  shows "push_component buf (if s = ''..'' then ParentDir else Normal s)
    = (if buf = [] \<or> last buf = CHR ''/'' then buf @ s else buf @ ''/'' @ s)"
  using assms by (cases s) (auto simp: path_push_def starts_with_def)

lemma foldl_push_pieces:
  assumes "\<forall>s \<in> set xs. s \<noteq> [] \<and> CHR ''/'' \<notin> set s" "buf = [] \<or> last buf = CHR ''/''"
  shows "foldl push_component buf (map (\<lambda>s. if s = ''..'' then ParentDir else Normal s) xs)
    = buf @ join ''/'' xs"
proof -
  have step: "foldl push_component b (map (\<lambda>s. if s = ''..'' then ParentDir else Normal s) ys)
      = b @ concat (map ((#) (CHR ''/'')) ys)"
    if "\<forall>s \<in> set ys. s \<noteq> [] \<and> CHR ''/'' \<notin> set s" "b \<noteq> []" "last b \<noteq> CHR ''/''" for b ys
    using that
  proof (induction ys arbitrary: b)
    case (Cons y ys)
    then have "last (b @ ''/'' @ y) \<noteq> CHR ''/''" by (auto dest: last_in_set)
    then show ?case using Cons by (simp add: push_piece del: push_component.simps)
  qed simp
  have join: "join ''/'' (y # ys) = y @ concat (map ((#) (CHR ''/'')) ys)" for y ys
    by (induction ys arbitrary: y) auto
  show ?thesis
  proof (cases xs)
    case (Cons y ys)
    then have "last (buf @ y) \<noteq> CHR ''/''" "buf @ y \<noteq> []" using assms(1) by (auto dest: last_in_set)
    then show ?thesis
      using Cons assms step [of ys "buf @ y"] by (simp add: push_piece join del: push_component.simps)
  qed simp
qed

lemma normalize_path_eq:
  "normalize_path p = (if has_root p then ''/'' else []) @ join ''/'' (pieces p)"
proof -
  have "\<forall>s \<in> set (pieces p). s \<noteq> [] \<and> CHR ''/'' \<notin> set s" using pieces_wf by blast
  then show ?thesis
    by (simp add: normalize_path_def components_pieces foldl_push_pieces path_push_def)
qed

lemma join_no_root:
  assumes "\<forall>s \<in> set xs. s \<noteq> [] \<and> CHR ''/'' \<notin> set s"
  shows "\<not> starts_with ''/'' (join ''/'' xs)"
  using assms by (cases xs rule: remdups_adj.cases) (auto simp: starts_with_def neq_Nil_conv)

lemma has_root_normalize: "has_root (normalize_path p) \<longleftrightarrow> has_root p"
  using join_no_root [of "pieces p"] pieces_wf [of _ p]
  by (auto simp: normalize_path_eq has_root_def starts_with_def)

lemma pieces_join:
  assumes "\<forall>s \<in> set xs. s \<noteq> [] \<and> s \<noteq> ''.'' \<and> CHR ''/'' \<notin> set s"
  shows "pieces (join ''/'' xs) = xs" "pieces (CHR ''/'' # join ''/'' xs) = xs"
  using assms split_char_join [of xs "CHR ''/''"]
  by (cases "xs = []"; simp add: pieces_def filter_id_conv)+

lemma pieces_normalize: "pieces (normalize_path p) = pieces p"
  using pieces_join [of "pieces p"] pieces_wf [of _ p] by (auto simp: normalize_path_eq)

lemma not_cur_dir_normalize: "\<not> (normalize_path p = ''.'' \<or> starts_with ''./'' (normalize_path p))"
proof (cases "has_root p")
  case True
  then show ?thesis by (simp add: normalize_path_eq starts_with_def)
next
  case False
  show ?thesis
  proof (cases "pieces p")
    case (Cons s ss)
    have s: "s \<noteq> []" "s \<noteq> ''.''" "CHR ''/'' \<notin> set s" using pieces_wf [of s p] Cons by auto
    then have "\<not> starts_with ''./'' (s @ t)" if "t = [] \<or> hd t = CHR ''/''" for t
      by (cases s; cases "tl s") (auto simp: starts_with_def)
    then have "\<not> starts_with ''./'' (join ''/'' (s # ss))" and "join ''/'' (s # ss) \<noteq> ''.''"
      using s by (cases ss; force simp: append_eq_Cons_conv)+
    then show ?thesis using False Cons by (simp add: normalize_path_eq)
  qed (simp add: normalize_path_eq False starts_with_def)
qed

text \<open>Lexical normalisation of a path keeps exactly its components other than the current
  directory (the parent directories that validation has to see included), and is idempotent.\<close>

theorem normalize_path_components:
  "components (normalize_path p) = filter (\<lambda>c. c \<noteq> CurDir) (components p)
   \<and> normalize_path (normalize_path p) = normalize_path p"
proof -
  have "filter (\<lambda>c. c \<noteq> CurDir) (map (\<lambda>s. if s = ''..'' then ParentDir else Normal s) (pieces p))
      = map (\<lambda>s. if s = ''..'' then ParentDir else Normal s) (pieces p)"
    by (auto simp: filter_id_conv)
  then have "components (normalize_path p) = filter (\<lambda>c. c \<noteq> CurDir) (components p)"
    using not_cur_dir_normalize [of p]
    by (simp add: components_pieces has_root_normalize pieces_normalize)
  moreover have "normalize_path (normalize_path p) = normalize_path p"
    unfolding normalize_path_eq [of "normalize_path p"] has_root_normalize pieces_normalize
    by (rule normalize_path_eq [symmetric])
  ultimately show ?thesis by blast
qed

section \<open>Validation\<close>

text \<open>What a safe policy is, without reference to the order of the checks.\<close>

definition safe_path :: "string \<Rightarrow> bool" where
  "safe_path p \<longleftrightarrow> length p \<le> 4096 \<and> (\<exists>rest. p = CHR ''/'' # rest)
     \<and> ''..'' \<notin> set (split_char (CHR ''/'') p)"

definition safe_filesystem :: "filesystem_policy \<Rightarrow> bool" where
  "safe_filesystem fs \<longleftrightarrow>
     length (fs_read_only fs) + length (fs_read_write fs) \<le> 256
     \<and> list_all safe_path (fs_read_only fs @ fs_read_write fs)
     \<and> list_all (\<lambda>p. set p - {CHR ''/''} \<noteq> {}) (fs_read_write fs)"

definition safe_policy :: "sandbox_policy \<Rightarrow> bool" where
  "safe_policy p \<longleftrightarrow>
     (case sp_process p of None \<Rightarrow> True
      | Some pr \<Rightarrow> pr_run_as_user pr = ''sandbox'' \<and> pr_run_as_group pr = ''sandbox'')
     \<and> (case sp_filesystem p of None \<Rightarrow> True | Some fs \<Rightarrow> safe_filesystem fs)"

lemma parent_dir_component:
  "ParentDir \<in> set (components p) \<longleftrightarrow> ''..'' \<in> set (split_char (CHR ''/'') p)"
  by (auto simp: components_pieces pieces_def split: if_splits)

lemma has_root_Cons: "has_root p \<longleftrightarrow> (\<exists>rest. p = CHR ''/'' # rest)"
  by (cases p) (auto simp: has_root_def starts_with_def)

lemma path_violations_none: "path_violations p = Some [] \<longleftrightarrow> safe_path p"
  by (auto simp: path_violations_def safe_path_def MAX_PATH_LENGTH_def has_root_Cons
      parent_dir_component list_ex_iff)

lemma paths_violations_none: "paths_violations ps = Some [] \<longleftrightarrow> list_all safe_path ps"
proof (induction ps)
  case (Cons p ps)
  show ?case
    using Cons path_violations_none [of p] by (auto split: option.splits)
qed simp

lemma trim_end_slashes_Nil: "trim_end_slashes p = [] \<longleftrightarrow> set p - {CHR ''/''} = {}"
  by (auto simp: trim_end_slashes_def dropWhile_eq_Nil_conv)

lemma overly_broad_none:
  "filter (\<lambda>p. trim_end_slashes p = []) xs = [] \<longleftrightarrow> list_all (\<lambda>p. set p - {CHR ''/''} \<noteq> {}) xs"
  by (simp add: filter_empty_conv list_all_iff trim_end_slashes_Nil del: Diff_eq_empty_iff)

lemma filesystem_violations_none: "filesystem_violations fs = Some [] \<longleftrightarrow> safe_filesystem fs"
proof (cases "paths_violations (fs_read_only fs @ fs_read_write fs)")
  case None
  then show ?thesis
    using paths_violations_none [of "fs_read_only fs @ fs_read_write fs"]
    by (auto simp: filesystem_violations_def safe_filesystem_def Let_def)
next
  case (Some vs)
  then have vs: "vs = [] \<longleftrightarrow> list_all safe_path (fs_read_only fs @ fs_read_write fs)"
    using paths_violations_none [of "fs_read_only fs @ fs_read_write fs"] by simp
  have "filesystem_violations fs = Some [] \<longleftrightarrow>
      length (fs_read_only fs) + length (fs_read_write fs) \<le> 256 \<and> vs = []
      \<and> filter (\<lambda>p. trim_end_slashes p = []) (fs_read_write fs) = []"
    by (simp add: filesystem_violations_def Let_def Some MAX_FILESYSTEM_PATHS_def linorder_not_less)
  then show ?thesis unfolding vs overly_broad_none safe_filesystem_def .
qed

text \<open>C24: validation accepts exactly the safe policies: the process identity, if given, is the
  sandbox user and group, there are at most 256 paths, each absolute, at most 4096 bytes long and
  without a parent directory component, and no read-write path is made of slashes only. After
  the identity defaults are filled in, an accepted policy runs as the sandbox user.\<close>

theorem validate_sandbox_policy_iff:
  "(validate_sandbox_policy p = Some (Inr ()) \<longleftrightarrow> safe_policy p)
   \<and> (validate_sandbox_policy (ensure_sandbox_process_identity p) = Some (Inr ()) \<longleftrightarrow>
        safe_policy (ensure_sandbox_process_identity p)
        \<and> sp_process (ensure_sandbox_process_identity p)
            = Some \<lparr>pr_run_as_user = ''sandbox'', pr_run_as_group = ''sandbox''\<rparr>)"
proof -
  have v: "validate_sandbox_policy q = Some (Inr ()) \<longleftrightarrow> safe_policy q" for q
    using filesystem_violations_none
    by (auto simp: validate_sandbox_policy_def safe_policy_def process_violations_def Let_def
        split: option.splits if_splits)
  obtain pr where pr: "sp_process (ensure_sandbox_process_identity p) = Some pr"
    by (simp add: ensure_sandbox_process_identity_def Let_def)
  show ?thesis using pr by (cases pr) (auto simp: v safe_policy_def)
qed

text \<open>The check for overly broad read-write paths can be bypassed: a trailing current directory
  component makes \<open>/.\<close> acceptable although it normalises to the root directory.\<close>

theorem root_read_write_accepted:
  "validate_sandbox_policy (restrictive_default_policy\<lparr>sp_filesystem := Some
     \<lparr>fs_include_workdir = True, fs_read_only = [], fs_read_write = [''/.'']\<rparr>\<rparr>) = Some (Inr ())
   \<and> normalize_path ''/.'' = ''/''"
  by code_simp

lemma truncate_multibyte:
  "truncate_for_display (replicate 76 (CHR ''a'') @ [CHR 0xC3, CHR 0xA9] @ replicate n (CHR ''a''))
    = (if n \<le> 2 then Some (replicate 76 (CHR ''a'') @ [CHR 0xC3, CHR 0xA9] @ replicate n (CHR ''a'')) else None)"
  by (simp add: truncate_for_display_def is_char_boundary_def nth_append)

text \<open>Validation of an over-long path panics instead of reporting the violation when a multi-byte
  character straddles byte 77 of the path, for every such path.\<close>

theorem validate_panics_on_multibyte:
  "validate_sandbox_policy (restrictive_default_policy\<lparr>sp_filesystem := Some
     \<lparr>fs_include_workdir = True,
      fs_read_only = [replicate 76 (CHR ''a'') @ [CHR 0xC3, CHR 0xA9] @ replicate (4019 + n) (CHR ''a'')],
      fs_read_write = []\<rparr>\<rparr>) = None"
  by (simp add: validate_sandbox_policy_def filesystem_violations_def path_violations_def
      MAX_PATH_LENGTH_def truncate_multibyte [simplified] Let_def)

end
