(* ===== verification/Validation.thy ===== *)
theory Validation
  imports Policy_Model
begin

text \<open>
  Request validation of the gRPC service (\<open>crates/openshell-server/src/grpc/validation.rs\<close>): every
  check returns \<open>Inr ()\<close> or the status it fails with. The serialised size of a message
  (\<open>prost::Message::encoded_len\<close>) and Unicode case conversion are arguments of the operations that
  use them.
\<close>

section \<open>Status values\<close>

datatype code = InvalidArgument | NotFound | AlreadyExists | FailedPrecondition | Internal
  | ResourceExhausted | Aborted | PermissionDenied | Cancelled

datatype status = Status (status_code: code) (status_message: string)

abbreviation invalid_argument :: "string \<Rightarrow> status" where
  "invalid_argument m \<equiv> Status InvalidArgument m"

abbreviation failed_precondition :: "string \<Rightarrow> status" where
  "failed_precondition m \<equiv> Status FailedPrecondition m"

abbreviation not_found :: "string \<Rightarrow> status" where
  "not_found m \<equiv> Status NotFound m"

abbreviation internal :: "string \<Rightarrow> status" where
  "internal m \<equiv> Status Internal m"

section \<open>Limits\<close>

definition MAX_EXEC_COMMAND_ARGS :: nat where "MAX_EXEC_COMMAND_ARGS = 1024"
definition MAX_EXEC_ARG_LEN :: nat where "MAX_EXEC_ARG_LEN = 32 * 1024"
definition MAX_EXEC_WORKDIR_LEN :: nat where "MAX_EXEC_WORKDIR_LEN = 4096"
definition MAX_PAGE_SIZE :: u32 where "MAX_PAGE_SIZE = 1000"
definition MAX_NAME_LEN :: nat where "MAX_NAME_LEN = 253"
definition MAX_PROVIDERS :: nat where "MAX_PROVIDERS = 32"
definition MAX_LOG_LEVEL_LEN :: nat where "MAX_LOG_LEVEL_LEN = 32"
definition MAX_ENVIRONMENT_ENTRIES :: nat where "MAX_ENVIRONMENT_ENTRIES = 128"
definition MAX_MAP_KEY_LEN :: nat where "MAX_MAP_KEY_LEN = 256"
definition MAX_MAP_VALUE_LEN :: nat where "MAX_MAP_VALUE_LEN = 8192"
definition MAX_TEMPLATE_STRING_LEN :: nat where "MAX_TEMPLATE_STRING_LEN = 1024"
definition MAX_TEMPLATE_MAP_ENTRIES :: nat where "MAX_TEMPLATE_MAP_ENTRIES = 128"
definition MAX_TEMPLATE_STRUCT_SIZE :: nat where "MAX_TEMPLATE_STRUCT_SIZE = 65536"
definition MAX_POLICY_SIZE :: nat where "MAX_POLICY_SIZE = 262144"
definition MAX_PROVIDER_TYPE_LEN :: nat where "MAX_PROVIDER_TYPE_LEN = 64"
definition MAX_PROVIDER_CREDENTIALS_ENTRIES :: nat where "MAX_PROVIDER_CREDENTIALS_ENTRIES = 32"
definition MAX_PROVIDER_CONFIG_ENTRIES :: nat where "MAX_PROVIDER_CONFIG_ENTRIES = 64"

definition clamp_limit :: "u32 \<Rightarrow> u32 \<Rightarrow> u32 \<Rightarrow> u32" where
  "clamp_limit raw dflt mx = (if raw = 0 then dflt else min raw mx)"

section \<open>Messages\<close>

record exec_sandbox_request =
  ex_sandbox_id :: string
  ex_command :: "string list"
  ex_workdir :: string
  ex_environment :: "string str_map"
  ex_timeout_seconds :: u32
  ex_stdin :: string
  ex_tty :: bool

record 's sandbox_template =
  tm_image :: string
  tm_runtime_class_name :: string
  tm_agent_socket :: string
  tm_labels :: "string str_map"
  tm_annotations :: "string str_map"
  tm_environment :: "string str_map"
  tm_resources :: "'s option"
  tm_volume_claim_templates :: "'s option"

record 's sandbox_spec =
  ss_log_level :: string
  ss_environment :: "string str_map"
  ss_template :: "'s sandbox_template option"
  ss_policy :: "sandbox_policy option"
  ss_providers :: "string list"
  ss_gpu :: bool

record provider =
  pv_id :: string
  pv_name :: string
  pv_type :: string
  pv_credentials :: "string str_map"
  pv_config :: "string str_map"

section \<open>Exec requests\<close>

definition reject_control_chars :: "string \<Rightarrow> string \<Rightarrow> (status, unit) result" where
  "reject_control_chars v field_name =
     (if list_ex (\<lambda>b. b = NUL) v
      then Inl (invalid_argument (field_name @ '' contains null bytes''))
      else if list_ex (\<lambda>b. b = LF \<or> b = CR) v
      then Inl (invalid_argument (field_name @ '' contains newline or carriage return characters''))
      else Inr ())"

fun validate_exec_args :: "nat \<Rightarrow> string list \<Rightarrow> (status, unit) result" where
  "validate_exec_args i [] = Inr ()"
| "validate_exec_args i (arg # args) =
     (if length arg > MAX_EXEC_ARG_LEN
      then Inl (invalid_argument (''command argument '' @ show_nat i @ '' exceeds ''
             @ show_nat MAX_EXEC_ARG_LEN @ '' byte limit''))
      else and_then (reject_control_chars arg (''command argument '' @ show_nat i))
             (\<lambda>_. validate_exec_args (Suc i) args))"

definition validate_exec_env :: "string \<times> string \<Rightarrow> (status, unit) result" where
  "validate_exec_env = (\<lambda>(key, v).
     let label = ''environment value for '' @ [CHR 0x27] @ key @ [CHR 0x27] in
     if length v > MAX_EXEC_ARG_LEN
     then Inl (invalid_argument (label @ '' exceeds '' @ show_nat MAX_EXEC_ARG_LEN
            @ '' byte limit''))
     else reject_control_chars v label)"

definition validate_exec_request_fields :: "exec_sandbox_request \<Rightarrow> (status, unit) result" where
  "validate_exec_request_fields req =
     (if length (ex_command req) > MAX_EXEC_COMMAND_ARGS
      then Inl (invalid_argument (''command array exceeds '' @ show_nat MAX_EXEC_COMMAND_ARGS
             @ '' argument limit''))
      else and_then (validate_exec_args 0 (ex_command req)) (\<lambda>_.
        and_then (for_each validate_exec_env (ex_environment req)) (\<lambda>_.
          if ex_workdir req \<noteq> [] then
            (if length (ex_workdir req) > MAX_EXEC_WORKDIR_LEN
             then Inl (invalid_argument (''workdir exceeds '' @ show_nat MAX_EXEC_WORKDIR_LEN
                    @ '' byte limit''))
             else reject_control_chars (ex_workdir req) ''workdir'')
          else Inr ())))"

section \<open>Sandbox specifications\<close>

definition exceeds :: "string \<Rightarrow> string \<Rightarrow> nat \<Rightarrow> nat \<Rightarrow> status" where
  "exceeds field_name what n mx =
     invalid_argument (field_name @ what @ '' ('' @ show_nat n @ '' > '' @ show_nat mx @ '')'')"

definition validate_string_map ::
  "string str_map \<Rightarrow> nat \<Rightarrow> nat \<Rightarrow> nat \<Rightarrow> string \<Rightarrow> (status, unit) result" where
  "validate_string_map m max_entries max_key_len max_value_len field_name =
     (if length m > max_entries
      then Inl (exceeds field_name '' exceeds maximum entries'' (length m) max_entries)
      else for_each (\<lambda>(key, v).
        if length key > max_key_len
        then Inl (exceeds field_name '' key exceeds maximum length'' (length key) max_key_len)
        else if length v > max_value_len
        then Inl (exceeds field_name '' value exceeds maximum length'' (length v) max_value_len)
        else Inr ()) m)"

definition validate_struct_size ::
  "('s \<Rightarrow> nat) \<Rightarrow> 's option \<Rightarrow> string \<Rightarrow> (status, unit) result" where
  "validate_struct_size encoded_len s field_name = (case s of None \<Rightarrow> Inr ()
     | Some v \<Rightarrow> fail_if (encoded_len v > MAX_TEMPLATE_STRUCT_SIZE)
         (exceeds field_name '' serialized size exceeds maximum'' (encoded_len v)
           MAX_TEMPLATE_STRUCT_SIZE))"

definition validate_sandbox_template ::
  "('s \<Rightarrow> nat) \<Rightarrow> 's sandbox_template \<Rightarrow> (status, unit) result" where
  "validate_sandbox_template encoded_len tmpl =
     and_then (for_each (\<lambda>(field, v). fail_if (length v > MAX_TEMPLATE_STRING_LEN)
         (exceeds field '' exceeds maximum length'' (length v) MAX_TEMPLATE_STRING_LEN))
       [(''template.image'', tm_image tmpl),
        (''template.runtime_class_name'', tm_runtime_class_name tmpl),
        (''template.agent_socket'', tm_agent_socket tmpl)]) (\<lambda>_.
     and_then (validate_string_map (tm_labels tmpl) MAX_TEMPLATE_MAP_ENTRIES MAX_MAP_KEY_LEN
       MAX_MAP_VALUE_LEN ''template.labels'') (\<lambda>_.
     and_then (validate_string_map (tm_annotations tmpl) MAX_TEMPLATE_MAP_ENTRIES MAX_MAP_KEY_LEN
       MAX_MAP_VALUE_LEN ''template.annotations'') (\<lambda>_.
     and_then (validate_string_map (tm_environment tmpl) MAX_TEMPLATE_MAP_ENTRIES MAX_MAP_KEY_LEN
       MAX_MAP_VALUE_LEN ''template.environment'') (\<lambda>_.
     and_then (validate_struct_size encoded_len (tm_resources tmpl) ''template.resources'') (\<lambda>_.
     validate_struct_size encoded_len (tm_volume_claim_templates tmpl)
       ''template.volume_claim_templates'')))))"

definition validate_sandbox_spec ::
  "('s \<Rightarrow> nat) \<Rightarrow> (sandbox_policy \<Rightarrow> nat) \<Rightarrow> string \<Rightarrow> 's sandbox_spec \<Rightarrow> (status, unit) result" where
  "validate_sandbox_spec encoded_len policy_encoded_len nm spec =
     (if length nm > MAX_NAME_LEN
      then Inl (exceeds ''name'' '' exceeds maximum length'' (length nm) MAX_NAME_LEN)
      else if length (ss_providers spec) > MAX_PROVIDERS
      then Inl (exceeds ''providers list'' '' exceeds maximum'' (length (ss_providers spec))
             MAX_PROVIDERS)
      else if length (ss_log_level spec) > MAX_LOG_LEVEL_LEN
      then Inl (exceeds ''log_level'' '' exceeds maximum length'' (length (ss_log_level spec))
             MAX_LOG_LEVEL_LEN)
      else and_then (validate_string_map (ss_environment spec) MAX_ENVIRONMENT_ENTRIES
             MAX_MAP_KEY_LEN MAX_MAP_VALUE_LEN ''spec.environment'') (\<lambda>_.
           and_then (case ss_template spec of None \<Rightarrow> Inr ()
             | Some tmpl \<Rightarrow> validate_sandbox_template encoded_len tmpl) (\<lambda>_.
           case ss_policy spec of None \<Rightarrow> Inr ()
           | Some policy \<Rightarrow> fail_if (policy_encoded_len policy > MAX_POLICY_SIZE)
               (exceeds ''policy serialized size'' '' exceeds maximum''
                 (policy_encoded_len policy) MAX_POLICY_SIZE))))"

section \<open>Providers\<close>

definition validate_provider_fields :: "provider \<Rightarrow> (status, unit) result" where
  "validate_provider_fields p =
     (if length (pv_name p) > MAX_NAME_LEN
      then Inl (exceeds ''provider.name'' '' exceeds maximum length'' (length (pv_name p)) MAX_NAME_LEN)
      else if length (pv_type p) > MAX_PROVIDER_TYPE_LEN
      then Inl (exceeds ''provider.type'' '' exceeds maximum length'' (length (pv_type p))
             MAX_PROVIDER_TYPE_LEN)
      else and_then (validate_string_map (pv_credentials p) MAX_PROVIDER_CREDENTIALS_ENTRIES
             MAX_MAP_KEY_LEN MAX_MAP_VALUE_LEN ''provider.credentials'') (\<lambda>_.
           validate_string_map (pv_config p) MAX_PROVIDER_CONFIG_ENTRIES MAX_MAP_KEY_LEN
             MAX_MAP_VALUE_LEN ''provider.config''))"

section \<open>Policies\<close>

text \<open>\<open>None\<close> is the panic of \<open>validate_sandbox_policy\<close>.\<close>

definition validate_policy_safety :: "sandbox_policy \<Rightarrow> (status, unit) result option" where
  "validate_policy_safety policy = (case validate_sandbox_policy policy of
     None \<Rightarrow> None
   | Some (Inl violations) \<Rightarrow> Some (Inl (invalid_argument (''policy contains unsafe content: ''
       @ join ''; '' (map policy_violation_display violations))))
   | Some (Inr _) \<Rightarrow> Some (Inr ()))"

definition path_not_removed :: "string \<Rightarrow> string list \<Rightarrow> string \<Rightarrow> (status, unit) result" where
  "path_not_removed field paths path =
     fail_if (path \<notin> set paths) (invalid_argument (''filesystem '' @ field @ '' path ''
       @ [CHR 0x27] @ path @ [CHR 0x27] @ '' cannot be removed on a live sandbox''))"

definition validate_filesystem_additive ::
  "filesystem_policy option \<Rightarrow> filesystem_policy option \<Rightarrow> (status, unit) result" where
  "validate_filesystem_additive baseline new = (case (baseline, new) of
     (Some base, Some upd) \<Rightarrow>
       if fs_include_workdir base \<noteq> fs_include_workdir upd
       then Inl (invalid_argument
              ''filesystem include_workdir cannot be changed on a live sandbox'')
       else and_then (for_each (path_not_removed ''read_only'' (fs_read_only upd)) (fs_read_only base))
              (\<lambda>_. for_each (path_not_removed ''read_write'' (fs_read_write upd)) (fs_read_write base))
   | (Some _, None) \<Rightarrow>
       Inl (invalid_argument ''filesystem policy cannot be removed on a live sandbox'')
   | (None, _) \<Rightarrow> Inr ())"

definition validate_static_fields_unchanged ::
  "sandbox_policy \<Rightarrow> sandbox_policy \<Rightarrow> (status, unit) result" where
  "validate_static_fields_unchanged baseline new =
     and_then (validate_filesystem_additive (sp_filesystem baseline) (sp_filesystem new)) (\<lambda>_.
       if sp_landlock baseline \<noteq> sp_landlock new
       then Inl (invalid_argument
              ''landlock policy cannot be changed on a live sandbox (applied at startup)'')
       else if sp_process baseline \<noteq> sp_process new
       then Inl (invalid_argument
              ''process policy cannot be changed on a live sandbox (applied at startup)'')
       else Inr ())"

section \<open>Log filters\<close>

definition source_matches :: "string \<Rightarrow> string list \<Rightarrow> bool" where
  "source_matches log_source filters =
     (let effective = (if log_source = [] then ''gateway'' else log_source)
      in list_ex (\<lambda>f. f = effective) filters)"

definition level_number :: "(string \<Rightarrow> string) \<Rightarrow> string \<Rightarrow> nat" where
  "level_number to_uppercase s =
     (let u = to_uppercase s in
      if u = ''ERROR'' then 0 else if u = ''WARN'' then 1 else if u = ''INFO'' then 2
      else if u = ''DEBUG'' then 3 else if u = ''TRACE'' then 4 else 5)"

definition level_matches :: "(string \<Rightarrow> string) \<Rightarrow> string \<Rightarrow> string \<Rightarrow> bool" where
  "level_matches to_uppercase log_level min_level =
     (min_level = [] \<or> level_number to_uppercase log_level \<le> level_number to_uppercase min_level)"

end
