(* ===== verification/Persistence.thy ===== *)
theory Persistence
  imports Validation Complex_Main
begin

text \<open>
  The durable store of the gateway (\<open>crates/openshell-server/src/persistence\<close>): the three tables are
  lists of rows in insertion order and every statement of \<open>sqlite.rs\<close> is a function on the tables,
  with the primary keys and unique indexes of the migrations as its error cases. Payloads are values
  of an arbitrary type \<open>'b\<close> of encoded messages; encoding and decoding (the \<open>prost\<close> and
  \<open>serde_json\<close> packages) are arguments. Times and identifiers come from outside. The \<open>f64\<close>
  confidence is a rational number (it is clamped to the unit interval before it is stored).
\<close>

section \<open>Rows\<close>

record 'b object_record =
  ob_type :: string
  ob_id :: string
  ob_name :: string
  ob_payload :: 'b
  ob_created_at_ms :: int
  ob_updated_at_ms :: int

record 'b policy_record =
  pl_id :: string
  pl_sandbox_id :: string
  pl_version :: int
  pl_payload :: 'b
  pl_hash :: string
  pl_status :: string
  pl_load_error :: "string option"
  pl_created_at_ms :: int
  pl_loaded_at_ms :: "int option"

record 'b draft_chunk_record =
  dc_id :: string
  dc_sandbox_id :: string
  dc_draft_version :: int
  dc_status :: string
  dc_rule_name :: string
  dc_proposed_rule :: 'b
  dc_rationale :: string
  dc_security_notes :: string
  dc_confidence :: rat
  dc_created_at_ms :: int
  dc_decided_at_ms :: "int option"
  dc_host :: string
  dc_port :: u32
  dc_binary :: string
  dc_hit_count :: int
  dc_first_seen_ms :: int
  dc_last_seen_ms :: int

record 'b store =
  st_objects :: "'b object_record list"
  st_policies :: "'b policy_record list"
  st_chunks :: "'b draft_chunk_record list"

section \<open>Errors\<close>

text \<open>
  The database reports a violated key with this message; \<open>map_db_error\<close> prefixes every message of the
  driver.
\<close>

type_synonym db_error = string

definition map_db_error :: "string \<Rightarrow> db_error" where
  "map_db_error error = ''database error: '' @ error"

definition unique_violation :: "string \<Rightarrow> db_error" where
  "unique_violation cols =
     map_db_error (''error returned from database: UNIQUE constraint failed: '' @ cols)"

section \<open>Objects\<close>

definition db_put ::
  "int \<Rightarrow> string \<Rightarrow> string \<Rightarrow> string \<Rightarrow> 'b \<Rightarrow> 'b store \<Rightarrow> (db_error, 'b store) result" where
  "db_put now_ms object_type oid nm payload s =
     (if list_ex (\<lambda>r. ob_id r = oid) (st_objects s) then
        Inr (s\<lparr>st_objects := map (\<lambda>r. if ob_id r = oid \<and> ob_type r = object_type
            then r\<lparr>ob_payload := payload, ob_updated_at_ms := now_ms\<rparr> else r) (st_objects s)\<rparr>)
      else if list_ex (\<lambda>r. ob_type r = object_type \<and> ob_name r = nm) (st_objects s) then
        Inl (unique_violation ''objects.object_type, objects.name'')
      else Inr (s\<lparr>st_objects := st_objects s @ [\<lparr>ob_type = object_type, ob_id = oid, ob_name = nm,
        ob_payload = payload, ob_created_at_ms = now_ms, ob_updated_at_ms = now_ms\<rparr>]\<rparr>))"

definition db_get :: "string \<Rightarrow> string \<Rightarrow> 'b store \<Rightarrow> 'b object_record option" where
  "db_get object_type oid s = find (\<lambda>r. ob_type r = object_type \<and> ob_id r = oid) (st_objects s)"

definition db_get_by_name :: "string \<Rightarrow> string \<Rightarrow> 'b store \<Rightarrow> 'b object_record option" where
  "db_get_by_name object_type nm s =
     find (\<lambda>r. ob_type r = object_type \<and> ob_name r = nm) (st_objects s)"

definition db_delete :: "string \<Rightarrow> string \<Rightarrow> 'b store \<Rightarrow> bool \<times> 'b store" where
  "db_delete object_type oid s =
     (list_ex (\<lambda>r. ob_type r = object_type \<and> ob_id r = oid) (st_objects s),
      s\<lparr>st_objects := filter (\<lambda>r. \<not> (ob_type r = object_type \<and> ob_id r = oid)) (st_objects s)\<rparr>)"

definition db_delete_by_name :: "string \<Rightarrow> string \<Rightarrow> 'b store \<Rightarrow> bool \<times> 'b store" where
  "db_delete_by_name object_type nm s =
     (list_ex (\<lambda>r. ob_type r = object_type \<and> ob_name r = nm) (st_objects s),
      s\<lparr>st_objects := filter (\<lambda>r. \<not> (ob_type r = object_type \<and> ob_name r = nm)) (st_objects s)\<rparr>)"

definition page :: "u32 \<Rightarrow> u32 \<Rightarrow> 'a list \<Rightarrow> 'a list" where
  "page limit offset xs = take (unat limit) (drop (unat offset) xs)"

definition db_list :: "string \<Rightarrow> u32 \<Rightarrow> u32 \<Rightarrow> 'b store \<Rightarrow> 'b object_record list" where
  "db_list object_type limit offset s =
     page limit offset (sort_key ob_created_at_ms (sort_key ob_name
       (filter (\<lambda>r. ob_type r = object_type) (st_objects s))))"

section \<open>Policy revisions\<close>

definition put_policy_revision ::
  "int \<Rightarrow> string \<Rightarrow> string \<Rightarrow> int \<Rightarrow> 'b \<Rightarrow> string \<Rightarrow> 'b store \<Rightarrow> (db_error, 'b store) result" where
  "put_policy_revision now_ms pid sandbox_id version payload hash s =
     (if list_ex (\<lambda>r. pl_id r = pid) (st_policies s) then
        Inl (unique_violation ''sandbox_policies.id'')
      else if list_ex (\<lambda>r. pl_sandbox_id r = sandbox_id \<and> pl_version r = version) (st_policies s) then
        Inl (unique_violation ''sandbox_policies.sandbox_id, sandbox_policies.version'')
      else Inr (s\<lparr>st_policies := st_policies s @ [\<lparr>pl_id = pid, pl_sandbox_id = sandbox_id,
        pl_version = version, pl_payload = payload, pl_hash = hash, pl_status = ''pending'',
        pl_load_error = None, pl_created_at_ms = now_ms, pl_loaded_at_ms = None\<rparr>]\<rparr>))"

fun max_version :: "'b policy_record list \<Rightarrow> 'b policy_record option" where
  "max_version [] = None"
| "max_version (r # rs) = (case max_version rs of None \<Rightarrow> Some r
     | Some m \<Rightarrow> Some (if pl_version r < pl_version m then m else r))"

definition get_latest_policy :: "string \<Rightarrow> 'b store \<Rightarrow> 'b policy_record option" where
  "get_latest_policy sandbox_id s =
     max_version (filter (\<lambda>r. pl_sandbox_id r = sandbox_id) (st_policies s))"

definition get_latest_loaded_policy :: "string \<Rightarrow> 'b store \<Rightarrow> 'b policy_record option" where
  "get_latest_loaded_policy sandbox_id s =
     max_version (filter (\<lambda>r. pl_sandbox_id r = sandbox_id \<and> pl_status r = ''loaded'') (st_policies s))"

definition get_policy_by_version :: "string \<Rightarrow> int \<Rightarrow> 'b store \<Rightarrow> 'b policy_record option" where
  "get_policy_by_version sandbox_id version s =
     find (\<lambda>r. pl_sandbox_id r = sandbox_id \<and> pl_version r = version) (st_policies s)"

definition list_policies :: "string \<Rightarrow> u32 \<Rightarrow> u32 \<Rightarrow> 'b store \<Rightarrow> 'b policy_record list" where
  "list_policies sandbox_id limit offset s =
     page limit offset (sort_key (\<lambda>r. - pl_version r)
       (filter (\<lambda>r. pl_sandbox_id r = sandbox_id) (st_policies s)))"

definition update_policy_status ::
  "string \<Rightarrow> int \<Rightarrow> string \<Rightarrow> string option \<Rightarrow> int option \<Rightarrow> 'b store \<Rightarrow> bool \<times> 'b store" where
  "update_policy_status sandbox_id version stat load_error loaded_at_ms s =
     (list_ex (\<lambda>r. pl_sandbox_id r = sandbox_id \<and> pl_version r = version) (st_policies s),
      s\<lparr>st_policies := map (\<lambda>r. if pl_sandbox_id r = sandbox_id \<and> pl_version r = version
          then r\<lparr>pl_status := stat, pl_load_error := load_error, pl_loaded_at_ms := loaded_at_ms\<rparr>
          else r) (st_policies s)\<rparr>)"

definition supersede_older_policies :: "string \<Rightarrow> int \<Rightarrow> 'b store \<Rightarrow> nat \<times> 'b store" where
  "supersede_older_policies sandbox_id before_version s =
     (let hit = (\<lambda>r. pl_sandbox_id r = sandbox_id \<and> pl_version r < before_version
                   \<and> pl_status r \<in> {''pending'', ''loaded''})
      in (length (filter hit (st_policies s)),
          s\<lparr>st_policies := map (\<lambda>r. if hit r then r\<lparr>pl_status := ''superseded''\<rparr> else r)
            (st_policies s)\<rparr>))"

section \<open>Draft chunks\<close>

definition chunk_active :: "'b draft_chunk_record \<Rightarrow> bool" where
  "chunk_active c \<longleftrightarrow> dc_status c \<in> {''pending'', ''approved'', ''rejected''}"

definition chunk_key :: "'b draft_chunk_record \<Rightarrow> string \<times> string \<times> u32 \<times> string" where
  "chunk_key c = (dc_sandbox_id c, dc_host c, dc_port c, dc_binary c)"

definition chunk_conflict :: "'b draft_chunk_record \<Rightarrow> 'b draft_chunk_record \<Rightarrow> bool" where
  "chunk_conflict c d \<longleftrightarrow> chunk_active c \<and> chunk_active d \<and> chunk_key c = chunk_key d"

definition put_draft_chunk ::
  "'b draft_chunk_record \<Rightarrow> 'b store \<Rightarrow> (db_error, 'b store) result" where
  "put_draft_chunk c s =
     (if list_ex (\<lambda>d. dc_id d = dc_id c) (st_chunks s) then
        Inl (unique_violation ''draft_policy_chunks.id'')
      else if list_ex (chunk_conflict c) (st_chunks s) then
        Inr (s\<lparr>st_chunks := map (\<lambda>d. if chunk_conflict c d
            then d\<lparr>dc_hit_count := dc_hit_count d + dc_hit_count c,
                   dc_last_seen_ms := dc_last_seen_ms c\<rparr> else d) (st_chunks s)\<rparr>)
      else Inr (s\<lparr>st_chunks := st_chunks s @ [c]\<rparr>))"

definition get_draft_chunk :: "string \<Rightarrow> 'b store \<Rightarrow> 'b draft_chunk_record option" where
  "get_draft_chunk cid s = find (\<lambda>c. dc_id c = cid) (st_chunks s)"

definition list_draft_chunks ::
  "string \<Rightarrow> string option \<Rightarrow> 'b store \<Rightarrow> 'b draft_chunk_record list" where
  "list_draft_chunks sandbox_id status_filter s =
     sort_key (\<lambda>c. - dc_created_at_ms c) (filter (\<lambda>c. dc_sandbox_id c = sandbox_id
       \<and> (case status_filter of None \<Rightarrow> True | Some stat \<Rightarrow> dc_status c = stat)) (st_chunks s))"

definition update_draft_chunk_status ::
  "string \<Rightarrow> string \<Rightarrow> int option \<Rightarrow> 'b store \<Rightarrow> (db_error, bool \<times> 'b store) result" where
  "update_draft_chunk_status cid stat decided_at_ms s =
     (let upd = (\<lambda>c. c\<lparr>dc_status := stat, dc_decided_at_ms := decided_at_ms\<rparr>) in
      if list_ex (\<lambda>c. dc_id c = cid \<and>
           list_ex (\<lambda>d. dc_id d \<noteq> cid \<and> chunk_conflict (upd c) d) (st_chunks s)) (st_chunks s)
      then Inl (unique_violation ''draft_policy_chunks.sandbox_id, draft_policy_chunks.host, draft_policy_chunks.port, draft_policy_chunks.binary'')
      else Inr (list_ex (\<lambda>c. dc_id c = cid) (st_chunks s),
        s\<lparr>st_chunks := map (\<lambda>c. if dc_id c = cid then upd c else c) (st_chunks s)\<rparr>))"

definition update_draft_chunk_rule :: "string \<Rightarrow> 'b \<Rightarrow> 'b store \<Rightarrow> bool \<times> 'b store" where
  "update_draft_chunk_rule cid proposed_rule s =
     (let hit = (\<lambda>c. dc_id c = cid \<and> dc_status c = ''pending'')
      in (list_ex hit (st_chunks s),
          s\<lparr>st_chunks := map (\<lambda>c. if hit c then c\<lparr>dc_proposed_rule := proposed_rule\<rparr> else c)
            (st_chunks s)\<rparr>))"

definition delete_draft_chunks :: "string \<Rightarrow> string \<Rightarrow> 'b store \<Rightarrow> nat \<times> 'b store" where
  "delete_draft_chunks sandbox_id stat s =
     (let hit = (\<lambda>c. dc_sandbox_id c = sandbox_id \<and> dc_status c = stat)
      in (length (filter hit (st_chunks s)),
          s\<lparr>st_chunks := filter (\<lambda>c. \<not> hit c) (st_chunks s)\<rparr>))"

definition get_draft_version :: "string \<Rightarrow> 'b store \<Rightarrow> int" where
  "get_draft_version sandbox_id s =
     (case map dc_draft_version (filter (\<lambda>c. dc_sandbox_id c = sandbox_id) (st_chunks s)) of
        [] \<Rightarrow> 0 | v # vs \<Rightarrow> fold max vs v)"

section \<open>Typed access\<close>

text \<open>A message type with its object type, identifier, name and codec.\<close>

record ('m, 'b) message_type =
  mt_object_type :: string
  mt_object_id :: "'m \<Rightarrow> string"
  mt_object_name :: "'m \<Rightarrow> string"
  mt_encode :: "'m \<Rightarrow> 'b"
  mt_decode :: "'b \<Rightarrow> 'm option"

definition put_message ::
  "('m, 'b) message_type \<Rightarrow> int \<Rightarrow> 'm \<Rightarrow> 'b store \<Rightarrow> (db_error, 'b store) result" where
  "put_message mt now_ms m s =
     db_put now_ms (mt_object_type mt) (mt_object_id mt m) (mt_object_name mt m) (mt_encode mt m) s"

definition decode_record ::
  "('m, 'b) message_type \<Rightarrow> 'b object_record option \<Rightarrow> (db_error, 'm option) result" where
  "decode_record mt r = (case r of None \<Rightarrow> Inr None
     | Some row \<Rightarrow> (case mt_decode mt (ob_payload row) of
         None \<Rightarrow> Inl ''protobuf decode error'' | Some m \<Rightarrow> Inr (Some m)))"

definition get_message ::
  "('m, 'b) message_type \<Rightarrow> string \<Rightarrow> 'b store \<Rightarrow> (db_error, 'm option) result" where
  "get_message mt oid s = decode_record mt (db_get (mt_object_type mt) oid s)"

definition get_message_by_name ::
  "('m, 'b) message_type \<Rightarrow> string \<Rightarrow> 'b store \<Rightarrow> (db_error, 'm option) result" where
  "get_message_by_name mt nm s = decode_record mt (db_get_by_name (mt_object_type mt) nm s)"

section \<open>The keys of the tables\<close>

definition objects_ok :: "'b store \<Rightarrow> bool" where
  "objects_ok s \<longleftrightarrow> distinct (map ob_id (st_objects s))
     \<and> distinct (map (\<lambda>r. (ob_type r, ob_name r)) (st_objects s))"

definition policies_ok :: "'b store \<Rightarrow> bool" where
  "policies_ok s \<longleftrightarrow> distinct (map pl_id (st_policies s))
     \<and> distinct (map (\<lambda>r. (pl_sandbox_id r, pl_version r)) (st_policies s))"

definition chunks_ok :: "'b store \<Rightarrow> bool" where
  "chunks_ok s \<longleftrightarrow> distinct (map dc_id (st_chunks s))
     \<and> distinct (map chunk_key (filter chunk_active (st_chunks s)))"

definition store_ok :: "'b store \<Rightarrow> bool" where
  "store_ok s \<longleftrightarrow> objects_ok s \<and> policies_ok s \<and> chunks_ok s"

lemma objects_ok_cong: "st_objects s = st_objects t \<Longrightarrow> objects_ok s = objects_ok t"
  by (simp add: objects_ok_def)

lemma policies_ok_cong: "st_policies s = st_policies t \<Longrightarrow> policies_ok s = policies_ok t"
  by (simp add: policies_ok_def)

lemma chunks_ok_cong: "st_chunks s = st_chunks t \<Longrightarrow> chunks_ok s = chunks_ok t"
  by (simp add: chunks_ok_def)

text \<open>An update that keeps the key columns of every row keeps the keys.\<close>

lemma map_if_key [simp]:
  "(\<And>r. P r \<Longrightarrow> k (f r) = k r) \<Longrightarrow> map k (map (\<lambda>r. if P r then f r else r) rs) = map k rs"
  by (induction rs) auto

lemma filter_map_if [simp]:
  "(\<And>r. P r \<Longrightarrow> Q (f r) = Q r) \<Longrightarrow>
    filter Q (map (\<lambda>r. if P r then f r else r) rs) = map (\<lambda>r. if P r then f r else r) (filter Q rs)"
  by (induction rs) auto

lemma distinct_map_filter_pred: "distinct (map f xs) \<Longrightarrow> distinct (map f (filter P xs))"
  by (induction xs) auto

lemma db_put_ok: "db_put now t i n p s = Inr s' \<Longrightarrow> objects_ok s \<Longrightarrow> objects_ok s'"
  by (auto simp: db_put_def objects_ok_def list_ex_iff simp del: map_map split: if_splits)

lemma db_delete_ok: "objects_ok s \<Longrightarrow> objects_ok (snd (db_delete t i s))"
  by (simp add: db_delete_def objects_ok_def distinct_map_filter_pred)

lemma db_delete_by_name_ok: "objects_ok s \<Longrightarrow> objects_ok (snd (db_delete_by_name t n s))"
  by (simp add: db_delete_by_name_def objects_ok_def distinct_map_filter_pred)

lemma put_policy_revision_ok:
  "put_policy_revision now i sb v p h s = Inr s' \<Longrightarrow> policies_ok s \<Longrightarrow> policies_ok s'"
  by (auto simp: put_policy_revision_def policies_ok_def list_ex_iff split: if_splits)

lemma update_policy_status_ok: "policies_ok s \<Longrightarrow> policies_ok (snd (update_policy_status sb v st e l s))"
  by (simp add: update_policy_status_def policies_ok_def del: map_map)

lemma supersede_ok: "policies_ok s \<Longrightarrow> policies_ok (snd (supersede_older_policies sb v s))"
  by (simp add: supersede_older_policies_def policies_ok_def Let_def del: map_map)

lemma chunk_updates [simp]:
  "chunk_key (c\<lparr>dc_hit_count := h, dc_last_seen_ms := l\<rparr>) = chunk_key c"
  "chunk_active (c\<lparr>dc_hit_count := h, dc_last_seen_ms := l\<rparr>) = chunk_active c"
  "chunk_key (c\<lparr>dc_proposed_rule := r\<rparr>) = chunk_key c"
  "chunk_active (c\<lparr>dc_proposed_rule := r\<rparr>) = chunk_active c"
  "chunk_key (c\<lparr>dc_status := st, dc_decided_at_ms := d\<rparr>) = chunk_key c"
  by (simp_all add: chunk_key_def chunk_active_def)

lemma put_draft_chunk_ok:
  assumes "put_draft_chunk c s = Inr s'" "chunks_ok s"
  shows "chunks_ok s'"
  using assms by (fastforce simp: put_draft_chunk_def chunks_ok_def list_ex_iff chunk_conflict_def
      simp del: map_map split: if_splits)

lemma update_draft_chunk_rule_ok: "chunks_ok s \<Longrightarrow> chunks_ok (snd (update_draft_chunk_rule i r s))"
  by (simp add: update_draft_chunk_rule_def chunks_ok_def Let_def del: map_map)

lemma filter_swap: "filter P (filter Q xs) = filter Q (filter P xs)"
  by (induction xs) auto

lemma delete_draft_chunks_ok:
  assumes "chunks_ok s"
  shows "chunks_ok (snd (delete_draft_chunks sb st s))"
proof -
  obtain P where "st_chunks (snd (delete_draft_chunks sb st s)) = filter P (st_chunks s)"
    by (simp add: delete_draft_chunks_def Let_def)
  with assms show ?thesis
    by (simp only: chunks_ok_def distinct_map_filter_pred filter_swap [of chunk_active P])
qed

lemma update_draft_chunk_status_ok:
  assumes "update_draft_chunk_status cid st d s = Inr (b, s')" "chunks_ok s"
  shows "chunks_ok s'"
proof -
  define f where "f = (\<lambda>c :: 'a draft_chunk_record. if dc_id c = cid
    then c\<lparr>dc_status := st, dc_decided_at_ms := d\<rparr> else c)"
  have s': "st_chunks s' = map f (st_chunks s)"
    and nc: "\<And>c e. c \<in> set (st_chunks s) \<Longrightarrow> dc_id c = cid \<Longrightarrow> e \<in> set (st_chunks s) \<Longrightarrow>
        dc_id e \<noteq> cid \<Longrightarrow> \<not> chunk_conflict (f c) e"
    using assms(1)
    by (auto simp: update_draft_chunk_status_def f_def Let_def list_ex_iff split: if_splits)
  have ids: "distinct (map dc_id (st_chunks s))" and
    keys: "distinct (map chunk_key (filter chunk_active (st_chunks s)))"
    using assms(2) by (simp_all add: chunks_ok_def)
  have f: "dc_id (f c) = dc_id c" "chunk_key (f c) = chunk_key c" "dc_id c \<noteq> cid \<Longrightarrow> f c = c" for c
    by (simp_all add: f_def)
  have "distinct (map chunk_key (filter chunk_active (map f cs)))"
    if "set cs \<subseteq> set (st_chunks s)" "distinct (map dc_id cs)"
      "distinct (map chunk_key (filter chunk_active cs))" for cs
    using that
  proof (induction cs)
    case (Cons c cs)
    have k: "chunk_key (f e) \<noteq> chunk_key (f c)"
      if "chunk_active (f c)" "e \<in> set cs" "chunk_active (f e)" for e
    proof
      assume key: "chunk_key (f e) = chunk_key (f c)"
      have "dc_id c \<noteq> dc_id e" using Cons.prems(2) that(2) by force
      moreover have "chunk_active c \<Longrightarrow> chunk_active e \<Longrightarrow> chunk_key e \<noteq> chunk_key c"
        using Cons.prems(3) that(2) by (auto simp: rev_image_eqI)
      ultimately show False
        using nc [of c e] nc [of e c] Cons.prems(1) key that f(3) [of c] f(3) [of e]
        by (cases "dc_id c = cid"; cases "dc_id e = cid") (auto simp: chunk_conflict_def f(2))
    qed
    have "distinct (map chunk_key (filter chunk_active (map f cs)))"
      using Cons.prems by (intro Cons.IH) (auto split: if_splits)
    with k show ?case by force
  qed simp
  then have "distinct (map chunk_key (filter chunk_active (st_chunks s')))"
    using ids keys s' by simp
  moreover have "map dc_id (st_chunks s') = map dc_id (st_chunks s)"
    by (simp add: s' f(1))
  ultimately show ?thesis using ids by (simp add: chunks_ok_def)
qed

end
