(* ===== verification/Persistence_Props.thy ===== *)
theory Persistence_Props
  imports Persistence
begin

text \<open>
  The store as a state machine: the statements that write are the steps. The keys of the three tables
  are an invariant, policy revisions are append-only (an interface stated as a locale and
  interpreted for the tables), and the latest revision is the one with the greatest version.
\<close>

section \<open>Steps\<close>

inductive store_step :: "'b store \<Rightarrow> 'b store \<Rightarrow> bool" where
  step_put: "db_put now t i n p s = Inr s' \<Longrightarrow> store_step s s'"
| step_delete: "db_delete t i s = (b, s') \<Longrightarrow> store_step s s'"
| step_delete_by_name: "db_delete_by_name t n s = (b, s') \<Longrightarrow> store_step s s'"
| step_put_policy: "put_policy_revision now i sb v p h s = Inr s' \<Longrightarrow> store_step s s'"
| step_policy_status: "update_policy_status sb v st e l s = (b, s') \<Longrightarrow> store_step s s'"
| step_supersede: "supersede_older_policies sb v s = (k, s') \<Longrightarrow> store_step s s'"
| step_put_chunk: "put_draft_chunk c s = Inr s' \<Longrightarrow> store_step s s'"
| step_chunk_status: "update_draft_chunk_status ci cst d s = Inr (b, s') \<Longrightarrow> store_step s s'"
| step_chunk_rule: "update_draft_chunk_rule ci r s = (b, s') \<Longrightarrow> store_step s s'"
| step_delete_chunks: "delete_draft_chunks sb cst s = (k, s') \<Longrightarrow> store_step s s'"

lemma sndI: "f = (a, b) \<Longrightarrow> snd f = b" by simp

lemma object_step_frame:
  "db_put now t i n p s = Inr s' \<Longrightarrow> st_policies s' = st_policies s \<and> st_chunks s' = st_chunks s"
  "db_delete t i s = (b, s') \<Longrightarrow> st_policies s' = st_policies s \<and> st_chunks s' = st_chunks s"
  "db_delete_by_name t n s = (b, s') \<Longrightarrow> st_policies s' = st_policies s \<and> st_chunks s' = st_chunks s"
  by (auto simp: db_put_def db_delete_def db_delete_by_name_def split: if_splits)

lemma policy_step_frame:
  "put_policy_revision now i sb v p h s = Inr s' \<Longrightarrow> st_objects s' = st_objects s \<and> st_chunks s' = st_chunks s"
  "update_policy_status sb v st e l s = (b, s') \<Longrightarrow> st_objects s' = st_objects s \<and> st_chunks s' = st_chunks s"
  "supersede_older_policies sb v s = (k, s') \<Longrightarrow> st_objects s' = st_objects s \<and> st_chunks s' = st_chunks s"
  by (auto simp: put_policy_revision_def update_policy_status_def supersede_older_policies_def Let_def
      split: if_splits)

lemma chunk_step_frame:
  "put_draft_chunk c s = Inr s' \<Longrightarrow> st_objects s' = st_objects s \<and> st_policies s' = st_policies s"
  "update_draft_chunk_status ci cst d s = Inr (b, s') \<Longrightarrow>
     st_objects s' = st_objects s \<and> st_policies s' = st_policies s"
  "update_draft_chunk_rule ci r s = (b, s') \<Longrightarrow> st_objects s' = st_objects s \<and> st_policies s' = st_policies s"
  "delete_draft_chunks sb cst s = (k, s') \<Longrightarrow> st_objects s' = st_objects s \<and> st_policies s' = st_policies s"
  by (auto simp: put_draft_chunk_def update_draft_chunk_status_def update_draft_chunk_rule_def
      delete_draft_chunks_def Let_def split: if_splits)

lemmas step_frames = object_step_frame policy_step_frame chunk_step_frame

lemma store_step_ok: "store_step s s' \<Longrightarrow> store_ok s \<Longrightarrow> store_ok s'"
proof (induction rule: store_step.induct)
  case (step_put now t i n p s s')
  then show ?case unfolding store_ok_def
    using db_put_ok object_step_frame(1) policies_ok_cong chunks_ok_cong by metis
next
  case (step_delete t i s b s')
  then show ?case unfolding store_ok_def
    using db_delete_ok [of s t i] object_step_frame(2) policies_ok_cong chunks_ok_cong sndI by metis
next
  case (step_delete_by_name t n s b s')
  then show ?case unfolding store_ok_def
    using db_delete_by_name_ok [of s t n] object_step_frame(3) policies_ok_cong chunks_ok_cong sndI
    by metis
next
  case (step_put_policy now i sb v p h s s')
  then show ?case unfolding store_ok_def
    using put_policy_revision_ok policy_step_frame(1) objects_ok_cong chunks_ok_cong by metis
next
  case (step_policy_status sb v st e l s b s')
  then show ?case unfolding store_ok_def
    using update_policy_status_ok [of s sb v st e l] policy_step_frame(2) objects_ok_cong
      chunks_ok_cong sndI by metis
next
  case (step_supersede sb v s k s')
  then show ?case unfolding store_ok_def
    using supersede_ok [of s sb v] policy_step_frame(3) objects_ok_cong chunks_ok_cong sndI by metis
next
  case (step_put_chunk c s s')
  then show ?case unfolding store_ok_def
    using put_draft_chunk_ok chunk_step_frame(1) objects_ok_cong policies_ok_cong by metis
next
  case (step_chunk_status ci cst d s b s')
  then show ?case unfolding store_ok_def
    using update_draft_chunk_status_ok chunk_step_frame(2) objects_ok_cong policies_ok_cong by metis
next
  case (step_chunk_rule ci r s b s')
  then show ?case unfolding store_ok_def
    using update_draft_chunk_rule_ok [of s ci r] chunk_step_frame(3) objects_ok_cong
      policies_ok_cong sndI by metis
next
  case (step_delete_chunks sb cst s k s')
  then show ?case unfolding store_ok_def
    using delete_draft_chunks_ok [of s sb cst] chunk_step_frame(4) objects_ok_cong
      policies_ok_cong sndI by metis
qed

section \<open>Revisions\<close>

definition revision :: "'b store \<Rightarrow> string \<times> int \<Rightarrow> ('b \<times> string) option" where
  "revision s k = map_option (\<lambda>r. (pl_payload r, pl_hash r)) (get_policy_by_version (fst k) (snd k) s)"

lemma find_map_if:
  assumes "\<And>r. P r \<Longrightarrow> Q (f r) = Q r"
  shows "find Q (map (\<lambda>r. if P r then f r else r) rs)
    = map_option (\<lambda>r. if P r then f r else r) (find Q rs)"
  using assms by (induction rs) auto

lemma find_append_Some: "find Q xs = Some x \<Longrightarrow> find Q (xs @ ys) = Some x"
  by (induction xs) (auto split: if_splits)

lemma store_step_revision: "store_step s s' \<Longrightarrow> revision s k = Some v \<Longrightarrow> revision s' k = Some v"
proof (induction rule: store_step.induct)
  case (step_put_policy now i sb w p h s s')
  then show ?case
    by (auto simp: revision_def get_policy_by_version_def put_policy_revision_def
        intro!: find_append_Some split: if_splits)
next
  case (step_policy_status sb w st e l s b s')
  then show ?case
    by (auto simp: revision_def get_policy_by_version_def update_policy_status_def find_map_if)
next
  case (step_supersede sb w s n s')
  then show ?case
    by (auto simp: revision_def get_policy_by_version_def supersede_older_policies_def Let_def
        find_map_if)
qed (simp_all add: revision_def get_policy_by_version_def step_frames)

interpretation revisions: append_only_log store_step revision
  by unfold_locales (rule store_step_revision)

definition empty_store :: "'b store" where
  "empty_store = \<lparr>st_objects = [], st_policies = [], st_chunks = []\<rparr>"

lemma store_run_ok: "store_step\<^sup>*\<^sup>* s s' \<Longrightarrow> store_ok s \<Longrightarrow> store_ok s'"
  by (induction rule: rtranclp_induct) (auto intro: store_step_ok)

lemma empty_store_ok: "store_ok empty_store"
  by (simp add: store_ok_def objects_ok_def policies_ok_def chunks_ok_def empty_store_def)

text \<open>C17: in every sequence of database statements the primary keys and unique indexes hold
  (identifiers, object names per type, one revision per sandbox and version, one active draft chunk
  per endpoint and binary), and a stored policy revision keeps its payload and hash for ever.\<close>

theorem store_runs_keep_keys_and_revisions:
  assumes "store_step\<^sup>*\<^sup>* empty_store s" "store_step\<^sup>*\<^sup>* s s'"
  shows "store_ok s' \<and> (revision s k = Some v \<longrightarrow> revision s' k = Some v)"
  using store_run_ok [OF assms(2) store_run_ok [OF assms(1) empty_store_ok]]
    revisions.run_keeps [OF assms(2)] by blast

definition example_store :: "string store" where
  "example_store = empty_store\<lparr>st_policies := [\<lparr>pl_id = ''p1'', pl_sandbox_id = ''sb'', pl_version = 1,
     pl_payload = ''v1'', pl_hash = ''h1'', pl_status = ''pending'', pl_load_error = None,
     pl_created_at_ms = 5, pl_loaded_at_ms = None\<rparr>]\<rparr>"

lemma example_store_reachable: "store_step\<^sup>*\<^sup>* empty_store example_store"
proof -
  have "put_policy_revision 5 ''p1'' ''sb'' 1 ''v1'' ''h1'' empty_store = Inr example_store"
    by (simp add: put_policy_revision_def empty_store_def example_store_def)
  then show ?thesis by (intro r_into_rtranclp [of store_step] step_put_policy)
qed

theorem store_runs_keep_keys_and_revisions_witness:
  "\<exists>s'. supersede_older_policies ''sb'' 2 example_store = (1, s') \<and> store_ok s'
     \<and> revision s' (''sb'', 1) = Some (''v1'', ''h1'')"
proof -
  obtain s' where s': "supersede_older_policies ''sb'' 2 example_store = (1, s')"
    by (simp add: supersede_older_policies_def example_store_def Let_def)
  have "store_step\<^sup>*\<^sup>* example_store s'" by (intro r_into_rtranclp [of store_step] step_supersede [OF s'])
  moreover have "revision example_store (''sb'', 1) = Some (''v1'', ''h1'')"
    by (simp add: revision_def get_policy_by_version_def example_store_def)
  ultimately show ?thesis
    using store_runs_keep_keys_and_revisions [OF example_store_reachable] s' by blast
qed

section \<open>Latest revisions\<close>

lemma max_version_None [simp]: "max_version rs = None \<longleftrightarrow> rs = []"
  by (cases rs) (auto split: option.splits)

lemma max_version_Some:
  "max_version rs = Some m \<Longrightarrow> m \<in> set rs \<and> (\<forall>r \<in> set rs. pl_version r \<le> pl_version m)"
  by (induction rs arbitrary: m) (force split: option.splits if_splits)+

lemma max_version_append_new:
  "(\<forall>r \<in> set rs. pl_version r < pl_version x) \<Longrightarrow> max_version (rs @ [x]) = Some x"
  by (induction rs) auto

lemma get_latest_policy_Some:
  assumes "get_latest_policy sb s = Some m"
  shows "m \<in> set (st_policies s)" "pl_sandbox_id m = sb"
    "\<And>r. r \<in> set (st_policies s) \<Longrightarrow> pl_sandbox_id r = sb \<Longrightarrow> pl_version r \<le> pl_version m"
  using max_version_Some [OF assms [unfolded get_latest_policy_def]] by auto

lemma get_latest_policy_None:
  "get_latest_policy sb s = None \<longleftrightarrow> (\<forall>r \<in> set (st_policies s). pl_sandbox_id r \<noteq> sb)"
  by (auto simp: get_latest_policy_def filter_empty_conv)

lemma find_distinct_key:
  assumes "distinct (map k rs)" "r \<in> set rs"
  shows "find (\<lambda>x. k x = k r) rs = Some r"
  using assms by (induction rs) (force split: if_splits)+

lemma get_policy_by_version_member:
  assumes "policies_ok s" "r \<in> set (st_policies s)"
  shows "get_policy_by_version (pl_sandbox_id r) (pl_version r) s = Some r"
proof -
  have "get_policy_by_version (pl_sandbox_id r) (pl_version r) s
      = find (\<lambda>x. (pl_sandbox_id x, pl_version x) = (pl_sandbox_id r, pl_version r)) (st_policies s)"
    by (simp add: get_policy_by_version_def)
  also have "\<dots> = Some r"
    using assms find_distinct_key [of "\<lambda>r. (pl_sandbox_id r, pl_version r)" "st_policies s" r]
    by (simp only: policies_ok_def)
  finally show ?thesis .
qed

end
