(* ===== verification/Provider_Store.thy ===== *)
theory Provider_Store
  imports Persistence_Props "HOL-Library.Multiset"
begin

text \<open>
  Provider records of the gateway (\<open>crates/openshell-server/src/grpc/provider.rs\<close>): creation,
  lookup, listing, update and deletion over the store, the merge of credential maps, the redaction of
  responses, and the environment a sandbox gets from its providers. The protobuf codec of
  \<open>Provider\<close>, the random name, the fresh identifier and the time are arguments.
\<close>

section \<open>Records\<close>

definition provider_message ::
  "(provider \<Rightarrow> 'b) \<Rightarrow> ('b \<Rightarrow> provider option) \<Rightarrow> (provider, 'b) message_type" where
  "provider_message enc dec = \<lparr>mt_object_type = ''provider'', mt_object_id = pv_id,
     mt_object_name = pv_name, mt_encode = enc, mt_decode = dec\<rparr>"

definition map_err :: "('e \<Rightarrow> 'f) \<Rightarrow> ('e, 'a) result \<Rightarrow> ('f, 'a) result" where
  "map_err f r = (case r of Inl e \<Rightarrow> Inl (f e) | Inr x \<Rightarrow> Inr x)"

lemma map_err_Inr [simp]: "map_err f r = Inr x \<longleftrightarrow> r = Inr x"
  by (cases r) (simp_all add: map_err_def)

definition redact_provider_credentials :: "provider \<Rightarrow> provider" where
  "redact_provider_credentials p =
     p\<lparr>pv_credentials := map (\<lambda>(k, _). (k, ''REDACTED'')) (pv_credentials p)\<rparr>"

definition fetch_provider ::
  "(provider, 'b) message_type \<Rightarrow> string \<Rightarrow> 'b store \<Rightarrow> (status, provider option) result" where
  "fetch_provider mt nm s =
     map_err (\<lambda>e. internal (''fetch provider failed: '' @ e)) (get_message_by_name mt nm s)"

definition create_provider_record ::
  "(provider, 'b) message_type \<Rightarrow> string \<Rightarrow> string \<Rightarrow> int \<Rightarrow> provider \<Rightarrow> 'b store \<Rightarrow>
   (status, provider \<times> 'b store) result" where
  "create_provider_record mt generated_name new_id now_ms p0 s =
     (let p = (if pv_name p0 = [] then p0\<lparr>pv_name := generated_name\<rparr> else p0) in
      if trim (pv_type p) = [] then Inl (invalid_argument ''provider.type is required'')
      else if pv_credentials p = []
      then Inl (invalid_argument ''provider.credentials must not be empty'')
      else and_then (validate_provider_fields p) (\<lambda>_.
        and_then (fetch_provider mt (pv_name p) s) (\<lambda>existing.
          if existing \<noteq> None then Inl (Status AlreadyExists ''provider already exists'')
          else let q = p\<lparr>pv_id := new_id\<rparr> in
            and_then (map_err (\<lambda>e. internal (''persist provider failed: '' @ e))
                (put_message mt now_ms q s))
              (\<lambda>s'. Inr (redact_provider_credentials q, s')))))"

definition get_provider_record ::
  "(provider, 'b) message_type \<Rightarrow> string \<Rightarrow> 'b store \<Rightarrow> (status, provider) result" where
  "get_provider_record mt nm s =
     (if nm = [] then Inl (invalid_argument ''name is required'')
      else and_then (fetch_provider mt nm s) (\<lambda>r. case r of
        None \<Rightarrow> Inl (not_found ''provider not found'')
      | Some p \<Rightarrow> Inr (redact_provider_credentials p)))"

definition list_provider_records ::
  "(provider, 'b) message_type \<Rightarrow> u32 \<Rightarrow> u32 \<Rightarrow> 'b store \<Rightarrow> (status, provider list) result" where
  "list_provider_records mt limit offset s =
     map_result (\<lambda>r. case mt_decode mt (ob_payload r) of
        None \<Rightarrow> Inl (internal ''decode provider failed'')
      | Some p \<Rightarrow> Inr (redact_provider_credentials p))
       (db_list (mt_object_type mt) limit offset s)"

fun merge_entries :: "string str_map \<Rightarrow> string str_map \<Rightarrow> string str_map" where
  "merge_entries existing [] = existing"
| "merge_entries existing ((key, v) # rest) =
     merge_entries (if v = [] then al_remove key existing else al_insert key v existing) rest"

definition merge_map :: "string str_map \<Rightarrow> string str_map \<Rightarrow> string str_map" where
  "merge_map existing incoming = (if incoming = [] then existing else merge_entries existing incoming)"

definition update_provider_record ::
  "(provider, 'b) message_type \<Rightarrow> int \<Rightarrow> provider \<Rightarrow> 'b store \<Rightarrow> (status, provider \<times> 'b store) result" where
  "update_provider_record mt now_ms p s =
     (if pv_name p = [] then Inl (invalid_argument ''provider.name is required'')
      else and_then (fetch_provider mt (pv_name p) s) (\<lambda>r. case r of
        None \<Rightarrow> Inl (not_found ''provider not found'')
      | Some existing \<Rightarrow>
          let incoming_type = trim (pv_type p) in
          if incoming_type \<noteq> [] \<and> \<not> eq_ignore_ascii_case incoming_type (trim (pv_type existing))
          then Inl (invalid_argument
                 ''provider type cannot be changed; delete and recreate the provider'')
          else let updated = \<lparr>pv_id = pv_id existing, pv_name = pv_name existing,
                 pv_type = pv_type existing,
                 pv_credentials = merge_map (pv_credentials existing) (pv_credentials p),
                 pv_config = merge_map (pv_config existing) (pv_config p)\<rparr> in
               and_then (validate_provider_fields updated) (\<lambda>_.
               and_then (map_err (\<lambda>e. internal (''persist provider failed: '' @ e))
                   (put_message mt now_ms updated s))
                 (\<lambda>s'. Inr (redact_provider_credentials updated, s')))))"

definition delete_provider_record ::
  "(provider, 'b) message_type \<Rightarrow> string \<Rightarrow> 'b store \<Rightarrow> (status, bool \<times> 'b store) result" where
  "delete_provider_record mt nm s =
     (if nm = [] then Inl (invalid_argument ''name is required'')
      else Inr (db_delete_by_name (mt_object_type mt) nm s))"

section \<open>Environment\<close>

definition is_valid_env_key :: "string \<Rightarrow> bool" where
  "is_valid_env_key key = (case key of [] \<Rightarrow> False
     | first # bytes \<Rightarrow> (first = CHR ''_'' \<or> is_ascii_alphabetic first)
         \<and> list_all (\<lambda>b. b = CHR ''_'' \<or> is_ascii_alphanumeric b) bytes)"

fun add_credentials :: "string str_map \<Rightarrow> string str_map \<Rightarrow> string str_map" where
  "add_credentials env [] = env"
| "add_credentials env ((key, v) # rest) =
     add_credentials (if is_valid_env_key key \<and> map_of env key = None then env @ [(key, v)] else env)
       rest"

fun resolve_providers ::
  "(provider, 'b) message_type \<Rightarrow> 'b store \<Rightarrow> string str_map \<Rightarrow> string list \<Rightarrow>
   (status, string str_map) result" where
  "resolve_providers mt s env [] = Inr env"
| "resolve_providers mt s env (nm # names) =
     and_then (map_err (\<lambda>e. internal (''failed to fetch provider '' @ [CHR 0x27] @ nm @ [CHR 0x27]
         @ '': '' @ e)) (get_message_by_name mt nm s)) (\<lambda>r. case r of
       None \<Rightarrow> Inl (failed_precondition (''provider '' @ [CHR 0x27] @ nm @ [CHR 0x27] @ '' not found''))
     | Some p \<Rightarrow> resolve_providers mt s (add_credentials env (pv_credentials p)) names)"

definition resolve_provider_environment ::
  "(provider, 'b) message_type \<Rightarrow> string list \<Rightarrow> 'b store \<Rightarrow> (status, string str_map) result" where
  "resolve_provider_environment mt names s =
     (if names = [] then Inr [] else resolve_providers mt s [] names)"

section \<open>Merging\<close>

lemma merge_entries_lookup:
  "distinct (map fst incoming) \<Longrightarrow> map_of (merge_entries existing incoming) k =
     (case map_of incoming k of None \<Rightarrow> map_of existing k | Some v \<Rightarrow> if v = [] then None else Some v)"
proof (induction existing incoming rule: merge_entries.induct)
  case (2 existing key v rest)
  then have "map_of rest key = None" by (simp add: map_of_eq_None_iff)
  with 2 show ?case by (auto simp: al.lookup_insert al.lookup_remove split: option.splits)
qed simp

lemma merge_entries_distinct:
  "distinct (map fst existing) \<Longrightarrow> distinct (map fst (merge_entries existing incoming))"
  by (induction existing incoming rule: merge_entries.induct)
    (simp_all add: al.wf_insert al.wf_remove)

lemma merge_map_lookup:
  "distinct (map fst incoming) \<Longrightarrow> map_of (merge_map existing incoming) k =
     (case map_of incoming k of None \<Rightarrow> map_of existing k | Some v \<Rightarrow> if v = [] then None else Some v)"
  by (simp add: merge_map_def merge_entries_lookup)

section \<open>Resolution\<close>

fun first_credential :: "provider list \<Rightarrow> string \<Rightarrow> string option" where
  "first_credential [] k = None"
| "first_credential (p # ps) k =
     (case map_of (pv_credentials p) k of None \<Rightarrow> first_credential ps k | Some v \<Rightarrow> Some v)"

lemma map_of_append_new: "map_of env k = None \<Longrightarrow> map_of (env @ [(k, v)]) = (map_of env)(k \<mapsto> v)"
  by (auto simp: fun_eq_iff map_add_def split: option.splits)

lemma add_credentials_lookup:
  "map_of (add_credentials env creds) k = (case map_of env k of Some v \<Rightarrow> Some v
     | None \<Rightarrow> if is_valid_env_key k then map_of creds k else None)"
  by (induction env creds rule: add_credentials.induct)
    (auto simp: map_of_append_new split: option.splits)

lemma resolve_providers_lookup:
  assumes "map_result (\<lambda>nm. get_message_by_name mt nm s) names = Inr (map Some ps)"
  shows "\<exists>env'. resolve_providers mt s env names = Inr env' \<and> (\<forall>k. map_of env' k =
    (case map_of env k of Some v \<Rightarrow> Some v
     | None \<Rightarrow> if is_valid_env_key k then first_credential ps k else None))"
  using assms
proof (induction names arbitrary: ps env)
  case Nil
  then have "ps = []" by simp
  then show ?case by (auto split: option.splits)
next
  case (Cons nm names)
  then obtain p ps' where p: "get_message_by_name mt nm s = Inr (Some p)"
    and rest: "map_result (\<lambda>nm. get_message_by_name mt nm s) names = Inr (map Some ps')"
    and ps: "ps = p # ps'"
    by (auto simp: and_then_Inr Cons_eq_map_conv)
  obtain env' where env': "resolve_providers mt s (add_credentials env (pv_credentials p)) names = Inr env'"
    "\<forall>k. map_of env' k = (case map_of (add_credentials env (pv_credentials p)) k of Some v \<Rightarrow> Some v
       | None \<Rightarrow> if is_valid_env_key k then first_credential ps' k else None)"
    using Cons.IH [OF rest] by blast
  have "map_of env' k = (case map_of env k of Some v \<Rightarrow> Some v
     | None \<Rightarrow> if is_valid_env_key k then first_credential ps k else None)" for k
    using env'(2) by (simp add: add_credentials_lookup ps split: option.splits)
  then show ?case using env'(1) p by (simp add: map_err_def)
qed

text \<open>The environment resolved for a sandbox binds exactly the valid environment variable names
  that some listed provider has a credential for, and binds each to the value of the first such
  provider in the list; resolution succeeds whenever every listed provider exists.\<close>

theorem resolve_provider_environment_spec:
  assumes "map_result (\<lambda>nm. get_message_by_name mt nm s) names = Inr (map Some ps)"
  shows "\<exists>env. resolve_provider_environment mt names s = Inr env \<and>
    (\<forall>k. map_of env k = (if is_valid_env_key k then first_credential ps k else None))"
proof (cases "names = []")
  case True
  then have "ps = []" using assms by simp
  then show ?thesis using True by (simp add: resolve_provider_environment_def)
next
  case False
  then show ?thesis
    using resolve_providers_lookup [OF assms, of "[]"] by (simp add: resolve_provider_environment_def)
qed

definition example_provider :: "string \<Rightarrow> string \<Rightarrow> string str_map \<Rightarrow> provider" where
  "example_provider i n creds =
     \<lparr>pv_id = i, pv_name = n, pv_type = ''claude'', pv_credentials = creds, pv_config = []\<rparr>"

definition example_objects :: "provider store" where
  "example_objects = empty_store\<lparr>st_objects :=
     map (\<lambda>p. \<lparr>ob_type = ''provider'', ob_id = pv_id p, ob_name = pv_name p, ob_payload = p,
        ob_created_at_ms = 1, ob_updated_at_ms = 1\<rparr>)
       [example_provider ''i1'' ''a'' [(''KEY'', ''x''), (''BAD-KEY'', ''y'')],
        example_provider ''i2'' ''b'' [(''KEY'', ''z''), (''TOKEN'', ''t'')]]\<rparr>"

theorem resolve_provider_environment_spec_witness:
  "\<exists>env. resolve_provider_environment (provider_message id Some) [''a'', ''b''] example_objects = Inr env
     \<and> map_of env ''KEY'' = Some ''x'' \<and> map_of env ''TOKEN'' = Some ''t'' \<and> map_of env ''BAD-KEY'' = None"
proof -
  have "map_result (\<lambda>nm. get_message_by_name (provider_message id Some) nm example_objects) [''a'', ''b'']
      = Inr (map Some [example_provider ''i1'' ''a'' [(''KEY'', ''x''), (''BAD-KEY'', ''y'')],
        example_provider ''i2'' ''b'' [(''KEY'', ''z''), (''TOKEN'', ''t'')]])"
    by (simp add: get_message_by_name_def db_get_by_name_def decode_record_def provider_message_def
        example_objects_def example_provider_def)
  from resolve_provider_environment_spec [OF this] obtain env where
    env: "resolve_provider_environment (provider_message id Some) [''a'', ''b''] example_objects = Inr env"
    and k: "\<And>k. map_of env k = (if is_valid_env_key k then first_credential
      [example_provider ''i1'' ''a'' [(''KEY'', ''x''), (''BAD-KEY'', ''y'')],
        example_provider ''i2'' ''b'' [(''KEY'', ''z''), (''TOKEN'', ''t'')]] k else None)"
    by blast
  have "is_valid_env_key ''KEY''" "is_valid_env_key ''TOKEN''" "\<not> is_valid_env_key ''BAD-KEY''"
    by code_simp+
  then show ?thesis using env by (simp add: k example_provider_def)
qed

section \<open>Responses\<close>

lemma redacted_credentials:
  "map fst (pv_credentials (redact_provider_credentials p)) = map fst (pv_credentials p)"
  "v \<in> snd ` set (pv_credentials (redact_provider_credentials p)) \<Longrightarrow> v = ''REDACTED''"
  by (auto simp: redact_provider_credentials_def o_def split_beta)

definition redacted :: "provider \<Rightarrow> bool" where
  "redacted p \<longleftrightarrow> list_all (\<lambda>(_, v). v = ''REDACTED'') (pv_credentials p)"

lemma redacted_redact: "redacted (redact_provider_credentials p)"
  by (simp add: redacted_def redact_provider_credentials_def list_all_iff split_beta)

text \<open>No response of a provider operation carries a credential value: whatever create, get, list
  or update returns, every credential of it reads \<open>REDACTED\<close>.\<close>

theorem provider_responses_redacted:
  "(create_provider_record mt g i now p s = Inr (r1, s1) \<longrightarrow> redacted r1)
   \<and> (get_provider_record mt nm s = Inr r2 \<longrightarrow> redacted r2)
   \<and> (list_provider_records mt l off s = Inr rs \<longrightarrow> list_all redacted rs)
   \<and> (update_provider_record mt now p s = Inr (r3, s3) \<longrightarrow> redacted r3)"
proof (intro conjI impI)
  assume "list_provider_records mt l off s = Inr rs"
  then show "list_all redacted rs"
    by (auto simp: list_provider_records_def redacted_redact elim!: map_result_all split: option.splits)
qed (auto simp: create_provider_record_def get_provider_record_def update_provider_record_def
    and_then_Inr Let_def redacted_redact split: if_splits option.splits)

theorem provider_responses_redacted_witness:
  "\<exists>r. get_provider_record (provider_message id Some) ''a'' example_objects = Inr r
     \<and> redacted r \<and> map fst (pv_credentials r) = [''KEY'', ''BAD-KEY'']"
proof -
  have "get_provider_record (provider_message id Some) ''a'' example_objects
      = Inr (redact_provider_credentials
          (example_provider ''i1'' ''a'' [(''KEY'', ''x''), (''BAD-KEY'', ''y'')]))"
    by (simp add: get_provider_record_def fetch_provider_def map_err_def get_message_by_name_def
        db_get_by_name_def decode_record_def provider_message_def example_objects_def
        example_provider_def)
  moreover from this have "redacted (redact_provider_credentials
          (example_provider ''i1'' ''a'' [(''KEY'', ''x''), (''BAD-KEY'', ''y'')]))"
    using provider_responses_redacted by blast
  ultimately show ?thesis by (simp add: redacted_credentials(1) example_provider_def)
qed

section \<open>Identity\<close>

text \<open>Decoding an encoded provider gives the same provider, up to the iteration order of its maps.\<close>

definition same_provider :: "provider \<Rightarrow> provider \<Rightarrow> bool" where
  "same_provider p q \<longleftrightarrow> pv_id p = pv_id q \<and> pv_name p = pv_name q \<and> pv_type p = pv_type q
     \<and> mset (pv_credentials p) = mset (pv_credentials q) \<and> mset (pv_config p) = mset (pv_config q)"

definition codec_ok :: "(provider, 'b) message_type \<Rightarrow> bool" where
  "codec_ok mt \<longleftrightarrow> mt_object_type mt = ''provider'' \<and> mt_object_id mt = pv_id
     \<and> mt_object_name mt = pv_name
     \<and> (\<forall>p. \<exists>q. mt_decode mt (mt_encode mt p) = Some q \<and> same_provider p q)"

definition stored :: "(provider, 'b) message_type \<Rightarrow> 'b store \<Rightarrow> string \<Rightarrow> provider option" where
  "stored mt s nm = (case db_get_by_name ''provider'' nm s of None \<Rightarrow> None
     | Some row \<Rightarrow> mt_decode mt (ob_payload row))"

text \<open>
  Every provider row holds a provider of that identifier and name whose fields are valid. The
  writes are the creations, with a fresh identifier, and the updates.
\<close>

definition providers_ok :: "(provider, 'b) message_type \<Rightarrow> 'b store \<Rightarrow> bool" where
  "providers_ok mt s \<longleftrightarrow> objects_ok s \<and> (\<forall>row \<in> set (st_objects s). ob_type row = ''provider'' \<longrightarrow>
     (\<exists>p. mt_decode mt (ob_payload row) = Some p \<and> pv_id p = ob_id row \<and> pv_name p = ob_name row
        \<and> validate_provider_fields p = Inr ()))"

inductive provider_write :: "(provider, 'b) message_type \<Rightarrow> 'b store \<Rightarrow> 'b store \<Rightarrow> bool"
  for mt :: "(provider, 'b) message_type" where
  write_create: "\<not> list_ex (\<lambda>r. ob_id r = i) (st_objects s) \<Longrightarrow>
    create_provider_record mt g i now p s = Inr (r, s') \<Longrightarrow> provider_write mt s s'"
| write_update: "update_provider_record mt now p s = Inr (r, s') \<Longrightarrow> provider_write mt s s'"

lemma validate_string_map_ok:
  "validate_string_map m n k v f = Inr () \<longleftrightarrow>
     length m \<le> n \<and> (\<forall>(a, b) \<in> set m. length a \<le> k \<and> length b \<le> v)"
  by (auto simp: validate_string_map_def list_all_iff split: if_splits)

lemma validate_string_map_mset:
  assumes "mset m = mset m'"
  shows "validate_string_map m n k v f = Inr () \<longleftrightarrow> validate_string_map m' n k v f = Inr ()"
proof -
  have "set m = set m'" "length m = length m'"
    using assms by (metis set_mset_mset, metis size_mset)
  then show ?thesis by (simp add: validate_string_map_ok)
qed

lemma validate_provider_same:
  assumes "same_provider p q"
  shows "validate_provider_fields p = Inr () \<longleftrightarrow> validate_provider_fields q = Inr ()"
  using assms validate_string_map_mset [of "pv_credentials p" "pv_credentials q"]
    validate_string_map_mset [of "pv_config p" "pv_config q"]
  by (auto simp: validate_provider_fields_def same_provider_def and_then_unit_ok split: if_splits)

lemma find_Some_in: "find P xs = Some x \<Longrightarrow> x \<in> set xs \<and> P x"
  by (induction xs) (auto split: if_splits)

lemma objects_ok_id_inj:
  assumes "objects_ok s" "r \<in> set (st_objects s)" "r' \<in> set (st_objects s)" "ob_id r = ob_id r'"
  shows "r = r'"
  using assms by (auto simp: objects_ok_def distinct_map dest: inj_onD)

lemma find_map_same: "(\<And>x. P (f x) = P x) \<Longrightarrow> (\<And>x. P x \<Longrightarrow> f x = x) \<Longrightarrow> find P (map f xs) = find P xs"
  by (induction xs) auto

lemma find_append: "find P (xs @ ys) = (case find P xs of None \<Rightarrow> find P ys | Some x \<Rightarrow> Some x)"
  by (induction xs) auto

lemma put_other_type:
  assumes "db_put now t i n payload s = Inr s'" "t' \<noteq> t"
  shows "db_get_by_name t' m s' = db_get_by_name t' m s"
proof (cases "list_ex (\<lambda>r. ob_id r = i) (st_objects s)")
  case True
  then have "st_objects s' = map (\<lambda>r. if ob_id r = i \<and> ob_type r = t then r\<lparr>ob_payload := payload, ob_updated_at_ms := now\<rparr> else r) (st_objects s)"
    using assms(1) by (auto simp: db_put_def)
  then show ?thesis unfolding db_get_by_name_def using assms(2) by (simp add: find_map_same)
next
  case False
  then have "st_objects s' = st_objects s @ [\<lparr>ob_type = t, ob_id = i, ob_name = n, ob_payload = payload, ob_created_at_ms = now, ob_updated_at_ms = now\<rparr>]"
    using assms(1) by (auto simp: db_put_def split: if_splits)
  then show ?thesis using assms(2) by (auto simp: db_get_by_name_def find_append split: option.split)
qed

lemma put_fresh_name:
  assumes "db_put now t i n payload s = Inr s'" "\<not> list_ex (\<lambda>r. ob_id r = i) (st_objects s)"
  shows "\<exists>row. db_get_by_name t n s' = Some row \<and> ob_payload row = payload"
proof -
  have "\<not> list_ex (\<lambda>r. ob_type r = t \<and> ob_name r = n) (st_objects s)" using assms by (auto simp: db_put_def split: if_splits)
  then have "find (\<lambda>r. ob_type r = t \<and> ob_name r = n) (st_objects s) = None" by (auto simp: find_None_iff list_ex_iff)
  then show ?thesis using assms by (auto simp: db_put_def db_get_by_name_def find_append split: if_splits)
qed

lemma put_existing_name:
  assumes "objects_ok s" "db_get_by_name t n s = Some row" "db_put now t (ob_id row) n' payload s = Inr s'"
  shows "db_get_by_name t m s' = (if m = n then Some (row\<lparr>ob_payload := payload, ob_updated_at_ms := now\<rparr>)
    else db_get_by_name t m s)"
proof -
  have row: "row \<in> set (st_objects s)" "ob_type row = t" "ob_name row = n"
    using find_Some_in [OF assms(2) [unfolded db_get_by_name_def]] by auto
  let ?f = "\<lambda>r. if ob_id r = ob_id row \<and> ob_type r = t
    then r\<lparr>ob_payload := payload, ob_updated_at_ms := now\<rparr> else r"
  have s': "st_objects s' = map ?f (st_objects s)"
    using assms(3) row(1) by (auto simp: db_put_def list_ex_iff split: if_splits)
  have g: "db_get_by_name t m s' = map_option ?f (db_get_by_name t m s)" for m
    by (simp add: db_get_by_name_def s' find_map_if)
  have "?f r = r" if "db_get_by_name t m s = Some r" "m \<noteq> n" for r
  proof -
    have "r \<in> set (st_objects s)" "ob_name r = m"
      using find_Some_in [OF that(1) [unfolded db_get_by_name_def]] by auto
    then show ?thesis using objects_ok_id_inj [OF assms(1) _ row(1)] row(3) that(2) by auto
  qed
  then show ?thesis using g [of m] assms(2) row(2) by (cases "db_get_by_name t m s") auto
qed

lemma put_new_name:
  assumes "db_put now t i n payload s = Inr s'" "\<not> list_ex (\<lambda>r. ob_id r = i) (st_objects s)"
    "db_get_by_name t m s = Some r"
  shows "db_get_by_name t m s' = Some r"
  using assms by (auto simp: db_put_def db_get_by_name_def intro: find_append_Some split: if_splits)

definition row_ok :: "(provider, 'b) message_type \<Rightarrow> 'b object_record \<Rightarrow> bool" where
  "row_ok mt row \<longleftrightarrow> (\<exists>p. mt_decode mt (ob_payload row) = Some p \<and> pv_id p = ob_id row
     \<and> pv_name p = ob_name row \<and> validate_provider_fields p = Inr ())"

lemma providers_ok_iff:
  "providers_ok mt s \<longleftrightarrow>
     objects_ok s \<and> (\<forall>row \<in> set (st_objects s). ob_type row = ''provider'' \<longrightarrow> row_ok mt row)"
  by (simp add: providers_ok_def row_ok_def)

lemma encoded_row_ok:
  assumes "codec_ok mt" "validate_provider_fields q = Inr ()" "ob_payload row = mt_encode mt q"
    "ob_id row = pv_id q" "ob_name row = pv_name q"
  shows "row_ok mt row"
proof -
  obtain q' where "mt_decode mt (mt_encode mt q) = Some q'" "same_provider q q'"
    using assms(1) by (auto simp: codec_ok_def)
  then show ?thesis
    using assms validate_provider_same [of q q'] by (auto simp: row_ok_def same_provider_def)
qed

lemma put_message_ok:
  assumes "codec_ok mt" "providers_ok mt s" "put_message mt now q s = Inr s'"
    "validate_provider_fields q = Inr ()"
    "\<And>row. row \<in> set (st_objects s) \<Longrightarrow> ob_id row = pv_id q \<Longrightarrow> ob_type row = ''provider'' \<Longrightarrow>
       ob_name row = pv_name q"
  shows "providers_ok mt s'"
proof -
  have put: "db_put now ''provider'' (pv_id q) (pv_name q) (mt_encode mt q) s = Inr s'"
    using assms(1,3) by (simp add: put_message_def codec_ok_def)
  have "row_ok mt row" if "row \<in> set (st_objects s')" "ob_type row = ''provider''" for row
  proof (cases "row \<in> set (st_objects s)")
    case True
    then show ?thesis using assms(2) that(2) by (simp add: providers_ok_iff)
  next
    case False
    then have "ob_payload row = mt_encode mt q \<and> ob_id row = pv_id q \<and> ob_name row = pv_name q"
      using put that assms(5) by (auto simp: db_put_def split: if_splits)
    then show ?thesis using encoded_row_ok [OF assms(1,4)] by blast
  qed
  then show ?thesis
    using db_put_ok [OF put] assms(2) by (simp add: providers_ok_iff)
qed

lemma fetch_provider_Inr:
  assumes "codec_ok mt" "fetch_provider mt n s = Inr (Some p)"
  obtains row where "db_get_by_name ''provider'' n s = Some row" "mt_decode mt (ob_payload row) = Some p"
  using assms by (auto simp: fetch_provider_def get_message_by_name_def decode_record_def codec_ok_def
      split: option.splits)

definition same_identity :: "provider \<Rightarrow> provider \<Rightarrow> bool" where
  "same_identity p q \<longleftrightarrow> pv_id p = pv_id q \<and> pv_name p = pv_name q \<and> pv_type p = pv_type q"

lemma update_keeps:
  assumes "update_provider_record mt now p s = Inr (r, s')" "codec_ok mt" "providers_ok mt s"
  shows "providers_ok mt s' \<and> (\<forall>nm q. stored mt s nm = Some q \<longrightarrow>
    (\<exists>q'. stored mt s' nm = Some q' \<and> same_identity q q'))"
proof -
  obtain ex where ex: "fetch_provider mt (pv_name p) s = Inr (Some ex)"
    using assms(1) by (auto simp: update_provider_record_def and_then_Inr split: if_splits option.splits)
  define u where "u = \<lparr>pv_id = pv_id ex, pv_name = pv_name ex, pv_type = pv_type ex,
    pv_credentials = merge_map (pv_credentials ex) (pv_credentials p),
    pv_config = merge_map (pv_config ex) (pv_config p)\<rparr>"
  have put: "put_message mt now u s = Inr s'" and valid: "validate_provider_fields u = Inr ()"
    using assms(1) ex
    by (auto simp: update_provider_record_def and_then_Inr Let_def u_def split: if_splits)
  obtain row where row: "db_get_by_name ''provider'' (pv_name p) s = Some row"
    "mt_decode mt (ob_payload row) = Some ex"
    using fetch_provider_Inr [OF assms(2) ex] .
  have mem: "row \<in> set (st_objects s)" "ob_type row = ''provider''" "ob_name row = pv_name p"
    using find_Some_in [OF row(1) [unfolded db_get_by_name_def]] by auto
  then have ids: "pv_id ex = ob_id row" "pv_name ex = ob_name row"
    using assms(3) row(2) by (auto simp: providers_ok_def)
  have obj: "objects_ok s" using assms(3) by (simp add: providers_ok_def)
  have "providers_ok mt s'"
    using put_message_ok [OF assms(2,3) put valid] objects_ok_id_inj [OF obj _ mem(1)] ids
    by (auto simp: u_def)
  moreover have "\<exists>q'. stored mt s' nm = Some q' \<and> same_identity q q'"
    if q: "stored mt s nm = Some q" for nm q
  proof -
    have "db_put now ''provider'' (ob_id row) (pv_name ex) (mt_encode mt u) s = Inr s'"
      using put assms(2) ids by (simp add: put_message_def codec_ok_def u_def)
    note g = put_existing_name [OF obj row(1) this, of nm]
    obtain u' where "mt_decode mt (mt_encode mt u) = Some u'" "same_provider u u'"
      using assms(2) by (auto simp: codec_ok_def)
    then show ?thesis
      using q g row by (auto simp: stored_def same_provider_def same_identity_def u_def split: if_splits)
  qed
  ultimately show ?thesis by blast
qed

lemma create_keeps:
  assumes "create_provider_record mt g i now p s = Inr (r, s')" "codec_ok mt" "providers_ok mt s"
    "\<not> list_ex (\<lambda>r. ob_id r = i) (st_objects s)"
  shows "providers_ok mt s' \<and> (\<forall>nm q. stored mt s nm = Some q \<longrightarrow> stored mt s' nm = Some q)"
proof -
  define u where "u = (if pv_name p = [] then p\<lparr>pv_name := g\<rparr> else p)\<lparr>pv_id := i\<rparr>"
  have put: "put_message mt now u s = Inr s'" and valid: "validate_provider_fields u = Inr ()"
    using assms(1) by (auto simp: create_provider_record_def and_then_Inr Let_def u_def
        validate_provider_fields_def split: if_splits)
  have "providers_ok mt s'"
    using put_message_ok [OF assms(2,3) put valid] assms(4) by (auto simp: u_def list_ex_iff)
  moreover have "db_put now ''provider'' i (pv_name u) (mt_encode mt u) s = Inr s'"
    using put assms(2) by (simp add: put_message_def codec_ok_def u_def)
  ultimately show ?thesis
    using put_new_name [OF _ assms(4)] by (auto simp: stored_def split: option.splits)
qed

text \<open>A stored provider keeps its identifier, name and type through every sequence of creations and
  updates, and every stored provider respects the field limits.\<close>

theorem provider_identity_immutable:
  assumes "codec_ok mt" "providers_ok mt s" "(provider_write mt)\<^sup>*\<^sup>* s s'" "stored mt s nm = Some p"
  shows "providers_ok mt s' \<and> (\<exists>p'. stored mt s' nm = Some p' \<and> same_identity p p')"
  using assms(3)
proof (induction rule: rtranclp_induct)
  case base
  then show ?case using assms by (simp add: same_identity_def)
next
  case (step t u)
  then obtain q where q: "providers_ok mt t" "stored mt t nm = Some q" "same_identity p q" by blast
  from step.hyps(2) show ?case
  proof cases
    case (write_create i g now p r)
    then show ?thesis using create_keeps [OF _ assms(1) q(1)] q(2,3) by blast
  next
    case (write_update now p r)
    then show ?thesis
      using update_keeps [OF _ assms(1) q(1)] q(2,3) by (fastforce simp: same_identity_def)
  qed
qed

lemma example_codec_ok: "codec_ok (provider_message id Some)"
  by (simp add: codec_ok_def provider_message_def same_provider_def)

lemma example_objects_ok: "providers_ok (provider_message id Some) example_objects"
  by (simp add: providers_ok_def objects_ok_def example_objects_def example_provider_def
      provider_message_def validate_provider_fields_def validate_string_map_def MAX_NAME_LEN_def
      MAX_PROVIDER_TYPE_LEN_def MAX_PROVIDER_CREDENTIALS_ENTRIES_def MAX_MAP_KEY_LEN_def
      MAX_MAP_VALUE_LEN_def MAX_PROVIDER_CONFIG_ENTRIES_def)

lemma example_update:
  "is_ok (update_provider_record (provider_message id Some) 2
     (example_provider [] ''a'' [(''KEY'', ''new'')]) example_objects)"
  by code_simp

theorem provider_identity_immutable_witness:
  "\<exists>r s' p'. update_provider_record (provider_message id Some) 2
      (example_provider [] ''a'' [(''KEY'', ''new'')]) example_objects = Inr (r, s')
     \<and> stored (provider_message id Some) s' ''a'' = Some p' \<and> pv_type p' = ''claude'' \<and> pv_id p' = ''i1''"
proof -
  let ?mt = "provider_message id Some"
  obtain r s' where u: "update_provider_record ?mt 2
      (example_provider [] ''a'' [(''KEY'', ''new'')]) example_objects = Inr (r, s')"
    using example_update by (auto simp: is_ok_iff)
  have st: "stored ?mt example_objects ''a''
      = Some (example_provider ''i1'' ''a'' [(''KEY'', ''x''), (''BAD-KEY'', ''y'')])"
    by (simp add: stored_def db_get_by_name_def example_objects_def provider_message_def
        example_provider_def)
  have "(provider_write ?mt)\<^sup>*\<^sup>* example_objects s'"
    by (intro r_into_rtranclp [of "provider_write ?mt"] write_update [OF u])
  from provider_identity_immutable [OF example_codec_ok example_objects_ok this st]
  show ?thesis using u by (auto simp: same_identity_def example_provider_def)
qed

end
