(* ===== verification/Exec_Command.thy ===== *)
theory Exec_Command
  imports Provider_Store
begin

text \<open>
  Remote command execution (\<open>crates/openshell-server/src/grpc/sandbox.rs\<close>): the exec handler up to
  the point where it hands the command string to the SSH session, the quoting of shell words and the
  assembly of the command line. The specification side is a reader for the POSIX shell quoting rules:
  it accepts a command line only if every character with a meaning to the shell is quoted.
\<close>

section \<open>Sandboxes\<close>

record sandbox_condition =
  cn_type :: string
  cn_status :: string
  cn_reason :: string
  cn_message :: string
  cn_last_transition_time :: string

record sandbox_status =
  su_sandbox_name :: string
  su_agent_pod :: string
  su_agent_fd :: string
  su_sandbox_fd :: string
  su_conditions :: "sandbox_condition list"

record 's sandbox =
  sb_id :: string
  sb_name :: string
  sb_namespace :: string
  sb_spec :: "'s sandbox_spec option"
  sb_status :: "sandbox_status option"
  sb_phase :: int
  sb_created_at_ms :: int
  sb_current_policy_version :: u32

definition SANDBOX_PHASE_READY :: int where "SANDBOX_PHASE_READY = 2"

section \<open>Quoting\<close>

abbreviation SQ :: char where "SQ \<equiv> CHR 0x27"
abbreviation DQ :: char where "DQ \<equiv> CHR 0x22"

definition shell_safe_byte :: "char \<Rightarrow> bool" where
  "shell_safe_byte b \<longleftrightarrow> is_ascii_alphanumeric b \<or> b \<in> {CHR ''.'', CHR ''/'', CHR ''-'', CHR ''_''}"

definition shell_escape :: "string \<Rightarrow> (string, string) result" where
  "shell_escape v =
     (if list_ex (\<lambda>b. b = NUL) v then Inl ''value contains null bytes''
      else if list_ex (\<lambda>b. b = LF \<or> b = CR) v then Inl ''value contains newline or carriage return''
      else if v = [] then Inr [SQ, SQ]
      else if list_all shell_safe_byte v then Inr v
      else Inr ([SQ] @ replace_all [SQ] [SQ, DQ, SQ, DQ, SQ] v @ [SQ]))"

definition MAX_COMMAND_STRING_LEN :: nat where "MAX_COMMAND_STRING_LEN = 256 * 1024"

definition build_remote_exec_command :: "exec_sandbox_request \<Rightarrow> (string, string) result" where
  "build_remote_exec_command req =
     and_then (map_result (\<lambda>(key, v). and_then (shell_escape v) (\<lambda>e. Inr (key @ ''='' @ e)))
         (sort_key fst (ex_environment req))) (\<lambda>env_parts.
     and_then (map_result shell_escape (ex_command req)) (\<lambda>arg_parts.
     let command = join '' '' (env_parts @ arg_parts) in
     and_then (if ex_workdir req = [] then Inr command
         else and_then (shell_escape (ex_workdir req)) (\<lambda>w. Inr (''cd '' @ w @ '' && '' @ command)))
       (\<lambda>result. if length result > MAX_COMMAND_STRING_LEN
          then Inl (''assembled command string exceeds '' @ show_nat MAX_COMMAND_STRING_LEN
                 @ '' byte limit'')
          else Inr result)))"

section \<open>Handler\<close>

text \<open>
  What the handler passes on to \<open>stream_exec_over_ssh\<close>. The address of the pod is looked up in the
  cluster, an argument here.
\<close>

record exec_plan =
  xp_sandbox_id :: string
  xp_target :: "string \<times> u16"
  xp_command :: string
  xp_stdin :: string
  xp_timeout_seconds :: u32
  xp_tty :: bool

definition resolve_sandbox_exec_target ::
  "(string \<Rightarrow> (string, string option) result) \<Rightarrow> string \<Rightarrow> u16 \<Rightarrow> 's sandbox \<Rightarrow>
   (status, string \<times> u16) result" where
  "resolve_sandbox_exec_target agent_pod_ip sandbox_namespace ssh_port sandbox =
     (case map_option su_agent_pod (sb_status sandbox) of
        Some pod \<Rightarrow> if pod \<noteq> [] then (case agent_pod_ip pod of
            Inr (Some ip) \<Rightarrow> Inr (ip, ssh_port)
          | Inr None \<Rightarrow> Inl (failed_precondition ''sandbox agent pod IP is not available'')
          | Inl err \<Rightarrow> Inl (internal (''failed to resolve agent pod IP: '' @ err)))
          else if sb_name sandbox = [] then Inl (failed_precondition ''sandbox has no name'')
          else Inr (sb_name sandbox @ ''.'' @ sandbox_namespace @ ''.svc.cluster.local'', ssh_port)
      | None \<Rightarrow> if sb_name sandbox = [] then Inl (failed_precondition ''sandbox has no name'')
          else Inr (sb_name sandbox @ ''.'' @ sandbox_namespace @ ''.svc.cluster.local'', ssh_port))"

definition handle_exec_sandbox ::
  "('s sandbox, 'b) message_type \<Rightarrow> (string \<Rightarrow> (string, string option) result) \<Rightarrow> string \<Rightarrow> u16 \<Rightarrow>
   'b store \<Rightarrow> exec_sandbox_request \<Rightarrow> (status, exec_plan) result" where
  "handle_exec_sandbox mt agent_pod_ip sandbox_namespace ssh_port store req =
     (if ex_sandbox_id req = [] then Inl (invalid_argument ''sandbox_id is required'')
      else if ex_command req = [] then Inl (invalid_argument ''command is required'')
      else if list_ex (\<lambda>(key, _). \<not> is_valid_env_key key) (ex_environment req)
      then Inl (invalid_argument ''environment keys must match ^[A-Za-z_][A-Za-z0-9_]*$'')
      else and_then (validate_exec_request_fields req) (\<lambda>_.
        and_then (map_err (\<lambda>e. internal (''fetch sandbox failed: '' @ e))
            (get_message mt (ex_sandbox_id req) store)) (\<lambda>r. case r of
          None \<Rightarrow> Inl (not_found ''sandbox not found'')
        | Some sandbox \<Rightarrow>
            if sb_phase sandbox \<noteq> SANDBOX_PHASE_READY
            then Inl (failed_precondition ''sandbox is not ready'')
            else and_then (resolve_sandbox_exec_target agent_pod_ip sandbox_namespace ssh_port sandbox)
              (\<lambda>target. and_then (map_err (\<lambda>e. invalid_argument (''command construction failed: '' @ e))
                  (build_remote_exec_command req))
                (\<lambda>command_str. Inr \<lparr>xp_sandbox_id = sb_id sandbox, xp_target = target,
                   xp_command = command_str, xp_stdin = ex_stdin req,
                   xp_timeout_seconds = ex_timeout_seconds req, xp_tty = ex_tty req\<rparr>)))))"

definition is_retryable_ssh_error :: "status \<Rightarrow> bool" where
  "is_retryable_ssh_error st \<longleftrightarrow> status_code st = Internal \<and>
     (contains ''Connection reset by peer'' (status_message st)
      \<or> contains ''Connection refused'' (status_message st)
      \<or> contains ''failed to establish ssh transport'' (status_message st)
      \<or> contains ''failed to connect to ssh proxy'' (status_message st)
      \<or> contains ''failed to start ssh proxy'' (status_message st))"

section \<open>The shell's reading of a command line\<close>

datatype token = Word string | Assign string string | AndIf

datatype sh_mode = Unquoted | SingleQuoted | DoubleQuoted

text \<open>The word being read: whether a part of it was quoted, the name it assigns to, and its text.\<close>

type_synonym sh_word = "bool \<times> string option \<times> string"

definition sh_special :: "char \<Rightarrow> bool" where
  "sh_special c \<longleftrightarrow> c \<in> set ''|;<>()$*?[#~%!{}]^'' \<or> c \<in> {CHR 0x60, CHR 0x5C, CHR 0x09, LF, CR, NUL}"

fun sh_flush :: "sh_word option \<Rightarrow> token list" where
  "sh_flush None = []"
| "sh_flush (Some (q, Some n, t)) = [Assign n t]"
| "sh_flush (Some (q, None, t)) = [Word t]"

fun sh_start :: "sh_word option \<Rightarrow> sh_word" where
  "sh_start None = (False, None, [])"
| "sh_start (Some w) = w"

fun sh_plain :: "sh_word \<Rightarrow> char \<Rightarrow> sh_word" where
  "sh_plain (q, n, t) c =
     (if c = CHR ''='' \<and> \<not> q \<and> n = None \<and> is_valid_env_key t then (q, Some t, []) else (q, n, t @ [c]))"

fun sh_literal :: "sh_word \<Rightarrow> char \<Rightarrow> sh_word" where
  "sh_literal (q, n, t) c = (q, n, t @ [c])"

fun sh_quote :: "sh_word \<Rightarrow> sh_word" where
  "sh_quote (q, n, t) = (True, n, t)"

fun sh_read :: "sh_mode \<Rightarrow> sh_word option \<Rightarrow> string \<Rightarrow> token list option" where
  "sh_read Unquoted w [] = Some (sh_flush w)"
| "sh_read SingleQuoted w [] = None"
| "sh_read DoubleQuoted w [] = None"
| "sh_read SingleQuoted w (c # s) =
     (if c = SQ then sh_read Unquoted w s else sh_read SingleQuoted (Some (sh_literal (sh_start w) c)) s)"
| "sh_read DoubleQuoted w (c # s) =
     (if c = DQ then sh_read Unquoted w s
      else if c \<in> {CHR ''$'', CHR 0x60, CHR 0x5C} then None
      else sh_read DoubleQuoted (Some (sh_literal (sh_start w) c)) s)"
| "sh_read Unquoted w (c # s) =
     (if c = CHR '' '' then map_option ((@) (sh_flush w)) (sh_read Unquoted None s)
      else if c = SQ then sh_read SingleQuoted (Some (sh_quote (sh_start w))) s
      else if c = DQ then sh_read DoubleQuoted (Some (sh_quote (sh_start w))) s
      else if c = CHR ''&'' then
        (case s of d # s' \<Rightarrow> if d = CHR ''&''
            then map_option (\<lambda>ts. sh_flush w @ AndIf # ts) (sh_read Unquoted None s') else None
         | [] \<Rightarrow> None)
      else if sh_special c then None
      else sh_read Unquoted (Some (sh_plain (sh_start w) c)) s)"

section \<open>Escaped words read back\<close>

lemma replace_all_char_Cons:
  "replace_all [c] r (x # s) = (if x = c then r @ replace_all [c] r s else x # replace_all [c] r s)"
proof (cases "x = c")
  case True
  then show ?thesis by (subst replace_all.simps) (simp add: starts_with_def)
next
  case False
  then show ?thesis
    by (subst (1 2) replace_all.simps) (auto simp: starts_with_def split: option.splits)
qed

lemma replace_all_char_Nil: "replace_all [c] r [] = []"
  by (subst replace_all.simps) simp

lemma safe_byte_plain:
  assumes "shell_safe_byte c"
  shows "c \<noteq> CHR '' ''" "c \<noteq> SQ" "c \<noteq> DQ" "c \<noteq> CHR ''&''" "\<not> sh_special c" "c \<noteq> CHR ''=''"
  using assms by (auto simp: shell_safe_byte_def sh_special_def is_ascii_alphanumeric_def
      is_ascii_digit_def is_ascii_upper_def is_ascii_lower_def)

lemma sh_read_safe:
  "list_all shell_safe_byte v \<Longrightarrow>
    sh_read Unquoted (Some (q, n, t)) (v @ s) = sh_read Unquoted (Some (q, n, t @ v)) s"
  by (induction v arbitrary: t) (simp_all add: safe_byte_plain)

lemma sh_read_single_quoted:
  "sh_read SingleQuoted (Some (True, n, t)) (replace_all [SQ] [SQ, DQ, SQ, DQ, SQ] v @ SQ # s)
    = sh_read Unquoted (Some (True, n, t @ v)) s"
  by (induction v arbitrary: t) (simp_all add: replace_all_char_Cons replace_all_char_Nil)

text \<open>An escaped word is read as its value, followed by the end of the word.\<close>

lemma sh_read_escape:
  assumes "shell_escape v = Inr e" "s = [] \<or> hd s = CHR '' ''"
  shows "sh_read Unquoted (Some (False, n, [])) (e @ s) =
    (case s of [] \<Rightarrow> Some (sh_flush (Some (False, n, v)))
     | _ # s' \<Rightarrow> map_option ((@) (sh_flush (Some (False, n, v)))) (sh_read Unquoted None s'))"
proof -
  have fl: "sh_flush (Some (q, n, v)) = sh_flush (Some (False, n, v))" for q
    by (cases n) simp_all
  consider "v = []" "e = [SQ, SQ]" | "list_all shell_safe_byte v" "e = v"
    | "e = [SQ] @ replace_all [SQ] [SQ, DQ, SQ, DQ, SQ] v @ [SQ]"
    using assms(1) by (auto simp: shell_escape_def split: if_splits)
  then have "\<exists>q. sh_read Unquoted (Some (False, n, [])) (e @ s) = sh_read Unquoted (Some (q, n, v)) s"
  proof cases
    case 1
    then show ?thesis by (intro exI [of _ True]) simp
  next
    case 2
    then show ?thesis using sh_read_safe [of v False n "[]" s] by auto
  next
    case 3
    then have "e @ s = SQ # (replace_all [SQ] [SQ, DQ, SQ, DQ, SQ] v @ SQ # s)" by simp
    then have "sh_read Unquoted (Some (False, n, [])) (e @ s) = sh_read SingleQuoted (Some (True, n, []))
        (replace_all [SQ] [SQ, DQ, SQ, DQ, SQ] v @ SQ # s)" by simp
    then show ?thesis using sh_read_single_quoted [of n "[]" v s] by auto
  qed
  then obtain q where "sh_read Unquoted (Some (False, n, [])) (e @ s) = sh_read Unquoted (Some (q, n, v)) s"
    by blast
  then show ?thesis using assms(2) fl [of q] by (cases s) auto
qed

lemma append_singleton: "(@) [x] = (#) x"
  by (simp add: fun_eq_iff)

lemma shell_escape_first:
  assumes "shell_escape v = Inr e"
  obtains c e' where "e = c # e'" "c = SQ \<or> shell_safe_byte c"
  using assms by (cases v) (auto simp: shell_escape_def split: if_splits)

lemma sh_read_word:
  assumes "shell_escape v = Inr e" "s = [] \<or> hd s = CHR '' ''"
  shows "sh_read Unquoted None (e @ s) = (case s of [] \<Rightarrow> Some [Word v]
     | _ # s' \<Rightarrow> map_option ((#) (Word v)) (sh_read Unquoted None s'))"
proof -
  obtain c e' where e: "e = c # e'" "c = SQ \<or> shell_safe_byte c"
    using shell_escape_first [OF assms(1)] .
  have "sh_read Unquoted None (e @ s) = sh_read Unquoted (Some (False, None, [])) (e @ s)"
    using e(2) safe_byte_plain [of c] unfolding e(1) by (elim disjE) simp_all
  then show ?thesis
    using sh_read_escape [OF assms, of None] by (simp add: append_singleton split: list.splits)
qed

lemma env_key_safe: "is_valid_env_key k \<Longrightarrow> list_all shell_safe_byte k \<and> k \<noteq> []"
  by (cases k) (auto simp: is_valid_env_key_def shell_safe_byte_def is_ascii_alphabetic_def
      is_ascii_alphanumeric_def list_all_iff)

lemma sh_read_assign:
  assumes "is_valid_env_key k" "shell_escape v = Inr e" "s = [] \<or> hd s = CHR '' ''"
  shows "sh_read Unquoted None ((k @ ''='' @ e) @ s) = (case s of [] \<Rightarrow> Some [Assign k v]
     | _ # s' \<Rightarrow> map_option ((#) (Assign k v)) (sh_read Unquoted None s'))"
proof -
  obtain c k' where k: "k = c # k'" "list_all shell_safe_byte k"
    using env_key_safe [OF assms(1)] by (cases k) auto
  have "sh_read Unquoted None ((k @ ''='' @ e) @ s)
      = sh_read Unquoted (Some (False, None, [])) (k @ ''='' @ e @ s)"
    using k by (simp add: safe_byte_plain)
  also have "\<dots> = sh_read Unquoted (Some (False, None, k)) (''='' @ e @ s)"
    using sh_read_safe [OF k(2), of False None "[]" "''='' @ e @ s"] by simp
  also have "\<dots> = sh_read Unquoted (Some (False, Some k, [])) (e @ s)"
    using assms(1) by (simp add: sh_special_def)
  finally show ?thesis
    using sh_read_escape [OF assms(2,3), of "Some k"] by (simp add: append_singleton split: list.splits)
qed

text \<open>A part that is read as one token when the line ends or a space follows.\<close>

definition reads_as :: "string \<Rightarrow> token \<Rightarrow> bool" where
  "reads_as part tok \<longleftrightarrow> (\<forall>s. s = [] \<or> hd s = CHR '' '' \<longrightarrow>
      sh_read Unquoted None (part @ s) = (case s of [] \<Rightarrow> Some [tok]
        | _ # s' \<Rightarrow> map_option ((#) tok) (sh_read Unquoted None s')))"

lemma word_reads_as: "shell_escape v = Inr e \<Longrightarrow> reads_as e (Word v)"
  unfolding reads_as_def using sh_read_word by blast

lemma assign_reads_as:
  "is_valid_env_key k \<Longrightarrow> shell_escape v = Inr e \<Longrightarrow> reads_as (k @ ''='' @ e) (Assign k v)"
  unfolding reads_as_def using sh_read_assign by blast

lemma reads_as_end: "reads_as part tok \<Longrightarrow> sh_read Unquoted None part = Some [tok]"
  unfolding reads_as_def by (auto dest: spec [of _ "[]"])

lemma reads_as_space:
  "reads_as part tok \<Longrightarrow> sh_read Unquoted None (part @ CHR '' '' # s) = map_option ((#) tok) (sh_read Unquoted None s)"
  unfolding reads_as_def by (auto dest: spec [of _ "CHR '' '' # s"])

text \<open>A joined list of parts is read part by part.\<close>

lemma sh_read_join:
  assumes "list_all2 reads_as parts toks"
  shows "sh_read Unquoted None (join '' '' parts) = Some toks"
  using assms
proof (induction "'' ''" parts arbitrary: toks rule: join.induct)
  case (2 x)
  then show ?case by (auto simp: list_all2_Cons1 reads_as_end)
next
  case (3 x y ys)
  obtain tok toks' where toks: "toks = tok # toks'" and x: "reads_as x tok"
    and rest: "list_all2 reads_as (y # ys) toks'"
    using 3(2) by (meson list_all2_Cons1)
  show ?case using reads_as_space [OF x, of "join '' '' (y # ys)"] 3(1) [OF rest] by (simp add: toks)
qed simp

section \<open>Command lines\<close>

definition exec_tokens :: "exec_sandbox_request \<Rightarrow> token list" where
  "exec_tokens req =
     (if ex_workdir req = [] then [] else [Word ''cd'', Word (ex_workdir req), AndIf])
     @ map (\<lambda>(k, v). Assign k v) (sort_key fst (ex_environment req)) @ map Word (ex_command req)"

lemma env_parts_read:
  assumes "map_result (\<lambda>(key, v). and_then (shell_escape v) (\<lambda>e. Inr (key @ ''='' @ e))) env = Inr parts"
    "list_all (\<lambda>(k, _). is_valid_env_key k) env"
  shows "list_all2 reads_as parts
    (map (\<lambda>(k, v). Assign k v) env)"
  using assms
proof (induction env arbitrary: parts)
  case (Cons kv env)
  obtain k v where kv: "kv = (k, v)" by (cases kv)
  obtain e ps where e: "shell_escape v = Inr e" and parts: "parts = (k @ ''='' @ e) # ps"
    and ps: "map_result (\<lambda>(key, v). and_then (shell_escape v) (\<lambda>e. Inr (key @ ''='' @ e))) env = Inr ps"
    using Cons.prems(1) by (auto simp: kv and_then_Inr)
  have k: "is_valid_env_key k" "list_all (\<lambda>(k, _). is_valid_env_key k) env"
    using Cons.prems(2) by (simp_all add: kv)
  show ?case using Cons.IH [OF ps k(2)] assign_reads_as [OF k(1) e] by (simp add: kv parts)
qed simp

lemma arg_parts_read:
  assumes "map_result shell_escape args = Inr parts"
  shows "list_all2 reads_as parts (map Word args)"
  using assms by (induction args arbitrary: parts) (auto simp: and_then_Inr word_reads_as)

lemma sh_read_cd:
  assumes "shell_escape w = Inr e"
  shows "sh_read Unquoted None (''cd '' @ e @ '' && '' @ s)
    = map_option (\<lambda>ts. Word ''cd'' # Word w # AndIf # ts) (sh_read Unquoted None s)"
proof -
  have cd: "shell_escape ''cd'' = Inr ''cd''"
    by code_simp
  have "sh_read Unquoted None (''cd'' @ '' '' @ e @ '' && '' @ s)
      = map_option ((#) (Word ''cd'')) (sh_read Unquoted None (e @ '' && '' @ s))"
    using sh_read_word [OF cd, of "'' '' @ e @ '' && '' @ s"] by simp
  also have "sh_read Unquoted None (e @ '' && '' @ s)
      = map_option ((#) (Word w)) (sh_read Unquoted None (''&& '' @ s))"
    using sh_read_word [OF assms, of "'' && '' @ s"] by simp
  finally show ?thesis by (simp add: option.map_comp o_def option.map_id0 [unfolded id_def])
qed

text \<open>C11: the command line assembled for a sandbox runs exactly what was requested: read by the quoting
  rules of the POSIX shell it is an optional change of directory, the assignments of the environment
  in the order of their names, and the words of the command, each with its value unchanged. No value
  can end a word, start a command or be expanded.\<close>

theorem build_remote_exec_command_safe:
  assumes "build_remote_exec_command req = Inr line"
    "list_all (\<lambda>(k, _). is_valid_env_key k) (ex_environment req)"
  shows "sh_read Unquoted None line = Some (exec_tokens req)"
proof -
  obtain es as where es: "map_result (\<lambda>(key, v). and_then (shell_escape v) (\<lambda>e. Inr (key @ ''='' @ e)))
      (sort_key fst (ex_environment req)) = Inr es"
    and as: "map_result shell_escape (ex_command req) = Inr as"
    and line: "ex_workdir req = [] \<and> line = join '' '' (es @ as) \<or>
      ex_workdir req \<noteq> [] \<and> (\<exists>w. shell_escape (ex_workdir req) = Inr w
        \<and> line = ''cd '' @ w @ '' && '' @ join '' '' (es @ as))"
    using assms(1) by (auto simp: build_remote_exec_command_def and_then_Inr Let_def split: if_splits)
  have "list_all (\<lambda>(k, _). is_valid_env_key k) (sort_key fst (ex_environment req))"
    using assms(2) by (simp add: list_all_iff)
  then have cmd: "sh_read Unquoted None (join '' '' (es @ as))
      = Some (map (\<lambda>(k, v). Assign k v) (sort_key fst (ex_environment req)) @ map Word (ex_command req))"
    by (intro sh_read_join list_all2_appendI env_parts_read [OF es] arg_parts_read [OF as])
  then show ?thesis using line sh_read_cd by (auto simp: exec_tokens_def simp del: sh_read.simps)
qed

definition example_exec :: exec_sandbox_request where
  "example_exec = \<lparr>ex_sandbox_id = ''s'', ex_command = [''sh'', ''-c'', ''echo $HOME; rm -rf it''@[SQ]@''s''],
     ex_workdir = ''/my dir'', ex_environment = [(''FOO'', ''a b''), (''BAR'', [])],
     ex_timeout_seconds = 0, ex_stdin = [], ex_tty = False\<rparr>"

theorem build_remote_exec_command_safe_witness:
  "\<exists>line. build_remote_exec_command example_exec = Inr line \<and> sh_read Unquoted None line = Some
     [Word ''cd'', Word ''/my dir'', AndIf, Assign ''BAR'' [], Assign ''FOO'' ''a b'', Word ''sh'',
      Word ''-c'', Word (''echo $HOME; rm -rf it''@[SQ]@''s'')]"
proof -
  have sorted: "sort_key fst (ex_environment example_exec) = [(''BAR'', []), (''FOO'', ''a b'')]"
    by code_simp
  have "is_ok (build_remote_exec_command example_exec)"
    unfolding build_remote_exec_command_def sorted
    by (simp add: shell_escape_def shell_safe_byte_def is_ascii_alphanumeric_def is_ascii_digit_def
        is_ascii_upper_def is_ascii_lower_def replace_all_char_Cons replace_all_char_Nil
        example_exec_def MAX_COMMAND_STRING_LEN_def)
  then obtain line where l: "build_remote_exec_command example_exec = Inr line"
    by (auto simp: is_ok_iff)
  have "list_all (\<lambda>(k, _). is_valid_env_key k) (ex_environment example_exec)" by code_simp
  from build_remote_exec_command_safe [OF l this]
  have "sh_read Unquoted None line = Some (exec_tokens example_exec)" .
  moreover have "exec_tokens example_exec = [Word ''cd'', Word ''/my dir'', AndIf, Assign ''BAR'' [],
      Assign ''FOO'' ''a b'', Word ''sh'', Word ''-c'', Word (''echo $HOME; rm -rf it''@[SQ]@''s'')]"
    unfolding exec_tokens_def sorted by (simp add: example_exec_def)
  ultimately show ?thesis using l by metis
qed

end
