(* ===== verification/Settings.thy ===== *)
theory Settings
  imports Exec_Command Policy_Props
begin

text \<open>
  Runtime settings: the registry of setting keys (\<open>crates/openshell-core/src/settings.rs\<close>) and the
  settings helpers of the gateway (\<open>crates/openshell-server/src/grpc/policy.rs\<close>): typed conversion,
  upsert, loading and saving of the settings records, the merge of gateway and sandbox settings, and
  the fingerprints of policies and configurations. The JSON codec of the settings record, the
  protobuf codec of policies, the \<open>hex\<close> package and SHA-256 are arguments.
\<close>

section \<open>Registry\<close>

datatype setting_value_kind = KString | KInt | KBool

definition setting_value_kind_as_str :: "setting_value_kind \<Rightarrow> string" where
  "setting_value_kind_as_str k = (case k of KString \<Rightarrow> ''string'' | KInt \<Rightarrow> ''int'' | KBool \<Rightarrow> ''bool'')"

record registered_setting =
  rs_key :: string
  rs_kind :: setting_value_kind

definition REGISTERED_SETTINGS :: "registered_setting list" where
  "REGISTERED_SETTINGS = [\<lparr>rs_key = ''ocsf_json_enabled'', rs_kind = KBool\<rparr>]"

definition setting_for_key :: "string \<Rightarrow> registered_setting option" where
  "setting_for_key key = find (\<lambda>entry. rs_key entry = key) REGISTERED_SETTINGS"

definition registered_keys_csv :: string where
  "registered_keys_csv = join '', '' (map rs_key REGISTERED_SETTINGS)"

definition parse_bool_like :: "string \<Rightarrow> bool option" where
  "parse_bool_like raw =
     (let s = to_ascii_lowercase (trim raw) in
      if s \<in> {''1'', ''true'', ''yes'', ''y'', ''on''} then Some True
      else if s \<in> {''0'', ''false'', ''no'', ''n'', ''off''} then Some False
      else None)"

section \<open>Values\<close>

datatype stored_setting_value = SString string | SBool bool | SInt int | SBytes string

datatype setting_value = StringValue string | BoolValue bool | IntValue int | BytesValue string

record stored_settings =
  se_revision :: "64 word"
  se_settings :: "stored_setting_value str_map"

definition stored_settings_default :: stored_settings where
  "stored_settings_default = \<lparr>se_revision = 0, se_settings = []\<rparr>"

datatype setting_scope = ScopeUnspecified | ScopeSandbox | ScopeGlobal

record effective_setting =
  es_value :: "setting_value option"
  es_scope :: setting_scope

definition POLICY_SETTING_KEY :: string where "POLICY_SETTING_KEY = ''policy''"
definition GLOBAL_POLICY_SANDBOX_ID :: string where "GLOBAL_POLICY_SANDBOX_ID = ''__global__''"
definition GLOBAL_SETTINGS_OBJECT_TYPE :: string where "GLOBAL_SETTINGS_OBJECT_TYPE = ''gateway_settings''"
definition GLOBAL_SETTINGS_ID :: string where "GLOBAL_SETTINGS_ID = ''gateway_settings:global''"
definition GLOBAL_SETTINGS_NAME :: string where "GLOBAL_SETTINGS_NAME = ''global''"
definition SANDBOX_SETTINGS_OBJECT_TYPE :: string where "SANDBOX_SETTINGS_OBJECT_TYPE = ''sandbox_settings''"

section \<open>External functions\<close>

text \<open>
  The packages the gateway relies on: the message type of sandboxes, the codecs of policies, rules and
  settings, hexadecimal text, the hash of a policy's parts, and Unicode lower casing.
\<close>

record ('s, 'b) externals =
  x_sandbox :: "('s sandbox, 'b) message_type"
  x_policy_enc :: "sandbox_policy \<Rightarrow> 'b"
  x_policy_dec :: "'b \<Rightarrow> sandbox_policy option"
  x_rule_enc :: "network_policy_rule \<Rightarrow> 'b"
  x_rule_dec :: "'b \<Rightarrow> network_policy_rule option"
  x_settings_enc :: "stored_settings \<Rightarrow> 'b"
  x_settings_dec :: "'b \<Rightarrow> stored_settings option"
  x_hex_enc :: "'b \<Rightarrow> string"
  x_hex_dec :: "string \<Rightarrow> 'b option"
  x_bytes :: "'b \<Rightarrow> string"
  x_fs_bytes :: "filesystem_policy \<Rightarrow> string"
  x_ll_bytes :: "landlock_policy \<Rightarrow> string"
  x_pr_bytes :: "process_policy \<Rightarrow> string"
  x_rule_bytes :: "network_policy_rule \<Rightarrow> string"
  x_sha256 :: "string \<Rightarrow> string"
  x_hex_digest :: "string \<Rightarrow> string"
  x_to_lowercase :: "string \<Rightarrow> string"

section \<open>Conversions\<close>

definition quoted :: "string \<Rightarrow> string" where
  "quoted s = [CHR 0x27] @ s @ [CHR 0x27]"

definition validate_registered_setting_key :: "string \<Rightarrow> (status, setting_value_kind) result" where
  "validate_registered_setting_key key = (case setting_for_key key of
     Some entry \<Rightarrow> Inr (rs_kind entry)
   | None \<Rightarrow> Inl (invalid_argument (''unknown setting key '' @ quoted key @ ''. Allowed keys: ''
       @ registered_keys_csv)))"

definition proto_setting_to_stored ::
  "string \<Rightarrow> setting_value option \<Rightarrow> (status, stored_setting_value) result" where
  "proto_setting_to_stored key v =
     and_then (validate_registered_setting_key key) (\<lambda>expected. case v of
       None \<Rightarrow> Inl (invalid_argument ''setting_value.value is required'')
     | Some inner \<Rightarrow> (case (expected, inner) of
         (KString, StringValue s) \<Rightarrow> Inr (SString s)
       | (KBool, BoolValue b) \<Rightarrow> Inr (SBool b)
       | (KInt, IntValue i) \<Rightarrow> Inr (SInt i)
       | (_, BytesValue _) \<Rightarrow> Inl (invalid_argument (''setting '' @ quoted key @ '' expects ''
           @ setting_value_kind_as_str expected @ '' value; bytes are not supported for this key''))
       | (kind, _) \<Rightarrow> Inl (invalid_argument (''setting '' @ quoted key @ '' expects ''
           @ setting_value_kind_as_str kind @ '' value''))))"

definition stored_setting_to_proto ::
  "('s, 'b) externals \<Rightarrow> stored_setting_value \<Rightarrow> (status, setting_value) result" where
  "stored_setting_to_proto x v = (case v of
     SString s \<Rightarrow> Inr (StringValue s)
   | SBool b \<Rightarrow> Inr (BoolValue b)
   | SInt i \<Rightarrow> Inr (IntValue i)
   | SBytes h \<Rightarrow> (case x_hex_dec x h of
       None \<Rightarrow> Inl (internal ''stored bytes decode failed'')
     | Some d \<Rightarrow> Inr (BytesValue (x_bytes x d))))"

definition upsert_setting_value ::
  "stored_setting_value str_map \<Rightarrow> string \<Rightarrow> stored_setting_value \<Rightarrow> bool \<times> stored_setting_value str_map" where
  "upsert_setting_value m key v =
     (if map_of m key = Some v then (False, m) else (True, al_insert key v m))"

section \<open>Records\<close>

definition load_settings_record ::
  "('s, 'b) externals \<Rightarrow> string \<Rightarrow> string \<Rightarrow> 'b store \<Rightarrow> (status, stored_settings) result" where
  "load_settings_record x object_type oid s = (case db_get object_type oid s of
     None \<Rightarrow> Inr stored_settings_default
   | Some r \<Rightarrow> (case x_settings_dec x (ob_payload r) of
       None \<Rightarrow> Inl (internal ''decode settings payload failed'') | Some v \<Rightarrow> Inr v))"

definition save_settings_record ::
  "('s, 'b) externals \<Rightarrow> int \<Rightarrow> string \<Rightarrow> string \<Rightarrow> string \<Rightarrow> stored_settings \<Rightarrow> 'b store \<Rightarrow>
   (status, 'b store) result" where
  "save_settings_record x now_ms object_type oid nm settings s =
     map_err (\<lambda>e. internal (''persist settings failed: '' @ e))
       (db_put now_ms object_type oid nm (x_settings_enc x settings) s)"

definition load_global_settings :: "('s, 'b) externals \<Rightarrow> 'b store \<Rightarrow> (status, stored_settings) result" where
  "load_global_settings x s = load_settings_record x GLOBAL_SETTINGS_OBJECT_TYPE GLOBAL_SETTINGS_ID s"

definition save_global_settings ::
  "('s, 'b) externals \<Rightarrow> int \<Rightarrow> stored_settings \<Rightarrow> 'b store \<Rightarrow> (status, 'b store) result" where
  "save_global_settings x now_ms settings s =
     save_settings_record x now_ms GLOBAL_SETTINGS_OBJECT_TYPE GLOBAL_SETTINGS_ID GLOBAL_SETTINGS_NAME
       settings s"

definition sandbox_settings_id :: "string \<Rightarrow> string" where
  "sandbox_settings_id sandbox_id = ''settings:'' @ sandbox_id"

definition load_sandbox_settings ::
  "('s, 'b) externals \<Rightarrow> string \<Rightarrow> 'b store \<Rightarrow> (status, stored_settings) result" where
  "load_sandbox_settings x sandbox_id s =
     load_settings_record x SANDBOX_SETTINGS_OBJECT_TYPE (sandbox_settings_id sandbox_id) s"

definition save_sandbox_settings ::
  "('s, 'b) externals \<Rightarrow> int \<Rightarrow> string \<Rightarrow> string \<Rightarrow> stored_settings \<Rightarrow> 'b store \<Rightarrow>
   (status, 'b store) result" where
  "save_sandbox_settings x now_ms sandbox_id sandbox_name settings s =
     save_settings_record x now_ms SANDBOX_SETTINGS_OBJECT_TYPE (sandbox_settings_id sandbox_id)
       sandbox_name settings s"

definition decode_policy_from_global_settings ::
  "('s, 'b) externals \<Rightarrow> stored_settings \<Rightarrow> (status, sandbox_policy option) result" where
  "decode_policy_from_global_settings x global = (case map_of (se_settings global) POLICY_SETTING_KEY of
     None \<Rightarrow> Inr None
   | Some (SBytes encoded) \<Rightarrow> (case x_hex_dec x encoded of
       None \<Rightarrow> Inl (internal ''global policy decode failed'')
     | Some raw \<Rightarrow> (case x_policy_dec x raw of
         None \<Rightarrow> Inl (internal ''global policy protobuf decode failed'')
       | Some p \<Rightarrow> Inr (Some p)))
   | Some _ \<Rightarrow> Inl (internal ''global policy setting has invalid value type; expected bytes''))"

fun insert_effective ::
  "('s, 'b) externals \<Rightarrow> setting_scope \<Rightarrow> effective_setting str_map \<Rightarrow> stored_setting_value str_map \<Rightarrow>
   (status, effective_setting str_map) result" where
  "insert_effective x scope merged [] = Inr merged"
| "insert_effective x scope merged ((key, v) # rest) =
     (if key = POLICY_SETTING_KEY \<or> setting_for_key key = None then insert_effective x scope merged rest
      else and_then (stored_setting_to_proto x v) (\<lambda>p.
        insert_effective x scope (al_insert key \<lparr>es_value = Some p, es_scope = scope\<rparr> merged) rest))"

definition merge_effective_settings ::
  "('s, 'b) externals \<Rightarrow> stored_settings \<Rightarrow> stored_settings \<Rightarrow> (status, effective_setting str_map) result" where
  "merge_effective_settings x global sandbox =
     (let registered = fold (\<lambda>r. al_insert (rs_key r) \<lparr>es_value = None, es_scope = ScopeUnspecified\<rparr>)
            REGISTERED_SETTINGS []
      in and_then (insert_effective x ScopeSandbox registered (se_settings sandbox)) (\<lambda>merged.
         insert_effective x ScopeGlobal merged (se_settings global)))"

fun insert_materialized ::
  "('s, 'b) externals \<Rightarrow> setting_value option str_map \<Rightarrow> stored_setting_value str_map \<Rightarrow>
   (status, setting_value option str_map) result" where
  "insert_materialized x merged [] = Inr merged"
| "insert_materialized x merged ((key, v) # rest) =
     (if key = POLICY_SETTING_KEY then insert_materialized x merged rest
      else if setting_for_key key = None then insert_materialized x merged rest
      else and_then (stored_setting_to_proto x v) (\<lambda>p.
        insert_materialized x (al_insert key (Some p) merged) rest))"

definition materialize_global_settings ::
  "('s, 'b) externals \<Rightarrow> stored_settings \<Rightarrow> (status, setting_value option str_map) result" where
  "materialize_global_settings x global =
     insert_materialized x (fold (\<lambda>r. al_insert (rs_key r) None) REGISTERED_SETTINGS [])
       (se_settings global)"

section \<open>Fingerprints\<close>

definition le_bytes :: "nat \<Rightarrow> 'a::len word \<Rightarrow> string" where
  "le_bytes n w = map (\<lambda>i. char_of (unat (drop_bit (8 * i) w) mod 256)) [0..<n]"

definition deterministic_policy_hash :: "('s, 'b) externals \<Rightarrow> sandbox_policy \<Rightarrow> string" where
  "deterministic_policy_hash x policy =
     x_hex_digest x (x_sha256 x (le_bytes 4 (sp_version policy)
       @ (case sp_filesystem policy of None \<Rightarrow> [] | Some fs \<Rightarrow> x_fs_bytes x fs)
       @ (case sp_landlock policy of None \<Rightarrow> [] | Some l \<Rightarrow> x_ll_bytes x l)
       @ (case sp_process policy of None \<Rightarrow> [] | Some p \<Rightarrow> x_pr_bytes x p)
       @ concat (map (\<lambda>(key, v). key @ x_rule_bytes x v) (sort_key fst (sp_network_policies policy)))))"

datatype policy_source = SourceUnspecified | SourceSandbox | SourceGlobal

definition source_number :: "policy_source \<Rightarrow> 32 word" where
  "source_number src = (case src of SourceUnspecified \<Rightarrow> 0 | SourceSandbox \<Rightarrow> 1 | SourceGlobal \<Rightarrow> 2)"

definition scope_number :: "setting_scope \<Rightarrow> 32 word" where
  "scope_number sc = (case sc of ScopeUnspecified \<Rightarrow> 0 | ScopeSandbox \<Rightarrow> 1 | ScopeGlobal \<Rightarrow> 2)"

definition setting_value_bytes :: "setting_value \<Rightarrow> string" where
  "setting_value_bytes v = (case v of
     StringValue s \<Rightarrow> CHR 0x00 # s
   | BoolValue b \<Rightarrow> [CHR 0x01, if b then CHR 0x01 else CHR 0x00]
   | IntValue i \<Rightarrow> CHR 0x02 # le_bytes 8 (word_of_int i :: 64 word)
   | BytesValue b \<Rightarrow> CHR 0x03 # b)"

definition compute_config_revision ::
  "('s, 'b) externals \<Rightarrow> sandbox_policy option \<Rightarrow> effective_setting str_map \<Rightarrow> policy_source \<Rightarrow> 64 word" where
  "compute_config_revision x policy settings src =
     (let digest = x_sha256 x (le_bytes 4 (source_number src)
        @ (case policy of None \<Rightarrow> [] | Some p \<Rightarrow> deterministic_policy_hash x p)
        @ concat (map (\<lambda>(key, setting). key @ le_bytes 4 (scope_number (es_scope setting))
            @ (case es_value setting of None \<Rightarrow> [] | Some v \<Rightarrow> setting_value_bytes v))
          (sort_key fst settings)))
      in word_of_nat (foldr (\<lambda>c n. of_char c + 256 * n) (take 8 digest) 0))"

section \<open>Properties\<close>

lemma sort_key_fst_mset:
  "distinct (map fst m) \<Longrightarrow> mset m' = mset m \<Longrightarrow> sort_key fst m' = sort_key fst (m :: 'v str_map)"
  using btree_collect_mset [of m m'] by (simp add: btree_collect_def)

lemma insert_effective_lookup:
  assumes "insert_effective x scope merged kvs = Inr m" "distinct (map fst kvs)"
  shows "map_of m k = (case map_of kvs k of
      Some v \<Rightarrow> if k = POLICY_SETTING_KEY \<or> setting_for_key k = None then map_of merged k
        else (case stored_setting_to_proto x v of
          Inr p \<Rightarrow> Some \<lparr>es_value = Some p, es_scope = scope\<rparr> | Inl _ \<Rightarrow> None)
    | None \<Rightarrow> map_of merged k)"
  using assms
proof (induction x scope merged kvs arbitrary: m rule: insert_effective.induct)
  case (2 x scope merged key v rest)
  have new: "map_of rest key = None" "distinct (map fst rest)"
    using "2.prems"(2) by (simp_all add: map_of_eq_None_iff)
  show ?case
  proof (cases "key = POLICY_SETTING_KEY \<or> setting_for_key key = None")
    case True
    then show ?thesis using "2.IH"(1) [OF True _ new(2)] "2.prems" new by (auto split: option.splits)
  next
    case False
    then obtain p where p: "stored_setting_to_proto x v = Inr p"
      "insert_effective x scope (al_insert key \<lparr>es_value = Some p, es_scope = scope\<rparr> merged) rest = Inr m"
      using "2.prems"(1) by (auto simp: and_then_Inr split: if_splits)
    show ?thesis
      using "2.IH"(2) [OF False p(2) new(2)] False p(1) new(1)
      by (auto simp: al.lookup_insert split: option.splits)
  qed
qed simp

text \<open>In the merged settings a gateway setting takes precedence over the sandbox setting of the same
  key, a registered key that is set in neither scope is present without a value, and neither the
  reserved policy key nor an unregistered key ever appears.\<close>

theorem merge_effective_settings_precedence:
  assumes "merge_effective_settings x global sandbox = Inr m"
    "distinct (map fst (se_settings global))" "distinct (map fst (se_settings sandbox))"
  shows "map_of m k =
    (if setting_for_key k = None \<or> k = POLICY_SETTING_KEY then None
     else case map_of (se_settings global) k of
       Some v \<Rightarrow> (case stored_setting_to_proto x v of
         Inr p \<Rightarrow> Some \<lparr>es_value = Some p, es_scope = ScopeGlobal\<rparr> | Inl _ \<Rightarrow> None)
     | None \<Rightarrow> (case map_of (se_settings sandbox) k of
         Some v \<Rightarrow> (case stored_setting_to_proto x v of
           Inr p \<Rightarrow> Some \<lparr>es_value = Some p, es_scope = ScopeSandbox\<rparr> | Inl _ \<Rightarrow> None)
       | None \<Rightarrow> Some \<lparr>es_value = None, es_scope = ScopeUnspecified\<rparr>))"
proof -
  define reg where "reg = fold (\<lambda>r. al_insert (rs_key r)
    \<lparr>es_value = None :: setting_value option, es_scope = ScopeUnspecified\<rparr>) REGISTERED_SETTINGS []"
  obtain m1 where m1: "insert_effective x ScopeSandbox reg (se_settings sandbox) = Inr m1"
    and m: "insert_effective x ScopeGlobal m1 (se_settings global) = Inr m"
    using assms(1) by (auto simp: merge_effective_settings_def Let_def reg_def and_then_Inr)
  have reg: "map_of reg k = (if setting_for_key k = None then None
      else Some \<lparr>es_value = None, es_scope = ScopeUnspecified\<rparr>)" for k
    by (simp add: reg_def REGISTERED_SETTINGS_def setting_for_key_def)
  have pol: "setting_for_key POLICY_SETTING_KEY = None"
    by (simp add: setting_for_key_def REGISTERED_SETTINGS_def POLICY_SETTING_KEY_def)
  show ?thesis
    using insert_effective_lookup [OF m1 assms(3), of k] insert_effective_lookup [OF m assms(2), of k]
    by (auto simp: reg pol split: option.splits)
qed

text \<open>Concrete external functions: messages as a sum of the stored types, text for bytes.\<close>

datatype 's blob = BSandbox "'s sandbox" | BPolicy sandbox_policy | BRule network_policy_rule
  | BSettings stored_settings

definition example_x :: "(unit, unit blob) externals" where
  "example_x = \<lparr>x_sandbox = \<lparr>mt_object_type = ''sandbox'', mt_object_id = sb_id, mt_object_name = sb_name,
       mt_encode = BSandbox, mt_decode = (\<lambda>b. case b of BSandbox s \<Rightarrow> Some s | _ \<Rightarrow> None)\<rparr>,
     x_policy_enc = BPolicy, x_policy_dec = (\<lambda>b. case b of BPolicy p \<Rightarrow> Some p | _ \<Rightarrow> None),
     x_rule_enc = BRule, x_rule_dec = (\<lambda>b. case b of BRule r \<Rightarrow> Some r | _ \<Rightarrow> None),
     x_settings_enc = BSettings, x_settings_dec = (\<lambda>b. case b of BSettings v \<Rightarrow> Some v | _ \<Rightarrow> None),
     x_hex_enc = (\<lambda>_. []), x_hex_dec = (\<lambda>_. None), x_bytes = (\<lambda>_. []),
     x_fs_bytes = (\<lambda>_. ''f''), x_ll_bytes = (\<lambda>_. ''l''), x_pr_bytes = (\<lambda>_. ''p''), x_rule_bytes = np_name,
     x_sha256 = id, x_hex_digest = id, x_to_lowercase = to_ascii_lowercase\<rparr>"

theorem merge_effective_settings_precedence_witness:
  "\<exists>m. merge_effective_settings example_x
      \<lparr>se_revision = 1, se_settings = [(''ocsf_json_enabled'', SBool True), (''policy'', SBytes [])]\<rparr>
      \<lparr>se_revision = 2, se_settings = [(''ocsf_json_enabled'', SBool False)]\<rparr> = Inr m
    \<and> map_of m ''ocsf_json_enabled'' = Some \<lparr>es_value = Some (BoolValue True), es_scope = ScopeGlobal\<rparr>
    \<and> map_of m ''policy'' = None"
proof -
  let ?g = "\<lparr>se_revision = 1, se_settings = [(''ocsf_json_enabled'', SBool True), (''policy'', SBytes [])]\<rparr>"
  let ?s = "\<lparr>se_revision = 2, se_settings = [(''ocsf_json_enabled'', SBool False)]\<rparr>"
  obtain m where m: "merge_effective_settings example_x ?g ?s = Inr m"
    by (simp add: merge_effective_settings_def Let_def REGISTERED_SETTINGS_def setting_for_key_def
        POLICY_SETTING_KEY_def stored_setting_to_proto_def)
  have "distinct (map fst (se_settings ?g))" "distinct (map fst (se_settings ?s))" by simp_all
  note lk = merge_effective_settings_precedence [OF m this]
  show ?thesis
    using m lk [of "''ocsf_json_enabled''"] lk [of "''policy''"]
    by (simp add: setting_for_key_def REGISTERED_SETTINGS_def POLICY_SETTING_KEY_def
        stored_setting_to_proto_def)
qed

text \<open>The policy hash and the configuration revision are fingerprints of the contents: they do not
  depend on the iteration order of the hash maps of rules and settings.\<close>

theorem fingerprints_order_independent:
  assumes "distinct (map fst (sp_network_policies p))" "mset nps = mset (sp_network_policies p)"
    "distinct (map fst settings)" "mset settings' = mset settings"
  shows "deterministic_policy_hash x (p\<lparr>sp_network_policies := nps\<rparr>) = deterministic_policy_hash x p
    \<and> compute_config_revision x (Some (p\<lparr>sp_network_policies := nps\<rparr>)) settings' src
      = compute_config_revision x (Some p) settings src"
proof -
  have h: "deterministic_policy_hash x (p\<lparr>sp_network_policies := nps\<rparr>) = deterministic_policy_hash x p"
    using sort_key_fst_mset [OF assms(1,2)] by (simp add: deterministic_policy_hash_def)
  show ?thesis
    using h sort_key_fst_mset [OF assms(3,4)] by (simp add: compute_config_revision_def)
qed

theorem fingerprints_order_independent_witness:
  "deterministic_policy_hash example_x
      (example_policy\<lparr>sp_network_policies := rev (sp_network_policies example_policy)\<rparr>)
    = deterministic_policy_hash example_x example_policy"
proof -
  have "distinct (map fst (sp_network_policies example_policy))"
    by (simp add: example_policy_def)
  then show ?thesis
    using fingerprints_order_independent [of example_policy "rev (sp_network_policies example_policy)"
        "[]" "[]" example_x] by simp
qed

end
