(* ===== verification/Gateway_Monad.thy ===== *)
theory Gateway_Monad
  imports Settings
begin

text \<open>
  The shape of a gateway request handler: it reads and writes the store, may return early with a
  status, and may panic. A handler is a function from the store to \<open>None\<close> (a panic) or to its
  result and the store it leaves behind, so writes that precede a failure stay visible. The lemmas
  show that what is built from these parts only ever performs the statements of the store.
\<close>

section \<open>Handlers\<close>

type_synonym ('b, 'a) handler = "'b store \<Rightarrow> ((status, 'a) result \<times> 'b store) option"

definition ret :: "'a \<Rightarrow> ('b, 'a) handler" where
  "ret x s = Some (Inr x, s)"

definition fail :: "status \<Rightarrow> ('b, 'a) handler" where
  "fail e s = Some (Inl e, s)"

definition gbind :: "('b, 'a) handler \<Rightarrow> ('a \<Rightarrow> ('b, 'c) handler) \<Rightarrow> ('b, 'c) handler" where
  "gbind m f s = (case m s of None \<Rightarrow> None
     | Some (Inl e, s') \<Rightarrow> Some (Inl e, s')
     | Some (Inr x, s') \<Rightarrow> f x s')"

text \<open>A computation on the store that does not write, with the \<open>?\<close> operator applied to its result.\<close>

definition reading :: "('b store \<Rightarrow> (status, 'a) result) \<Rightarrow> ('b, 'a) handler" where
  "reading f s = Some (f s, s)"

definition lift_result :: "(status, 'a) result \<Rightarrow> ('b, 'a) handler" where
  "lift_result r s = Some (r, s)"

text \<open>A statement that may fail, a statement whose failure is ignored, and one that cannot fail.\<close>

definition writing :: "(db_error \<Rightarrow> status) \<Rightarrow> ('b store \<Rightarrow> (db_error, 'b store) result) \<Rightarrow> ('b, unit) handler" where
  "writing err f s = (case f s of Inl e \<Rightarrow> Some (Inl (err e), s) | Inr s' \<Rightarrow> Some (Inr (), s'))"

definition try_writing :: "('b store \<Rightarrow> (db_error, 'b store) result) \<Rightarrow> ('b, bool) handler" where
  "try_writing f s = (case f s of Inl _ \<Rightarrow> Some (Inr False, s) | Inr s' \<Rightarrow> Some (Inr True, s'))"

definition updating :: "('b store \<Rightarrow> 'a \<times> 'b store) \<Rightarrow> ('b, 'a) handler" where
  "updating f s = (case f s of (x, s') \<Rightarrow> Some (Inr x, s'))"

text \<open>A check that may panic.\<close>

definition guarding :: "(status, unit) result option \<Rightarrow> ('b, unit) handler" where
  "guarding r s = (case r of None \<Rightarrow> None | Some v \<Rightarrow> Some (v, s))"

lemmas handler_defs = ret_def fail_def gbind_def reading_def lift_result_def writing_def
  try_writing_def updating_def guarding_def

lemma gbind_Some:
  "gbind m f s = Some (r, s'') \<longleftrightarrow>
     (\<exists>e. m s = Some (Inl e, s'') \<and> r = Inl e) \<or> (\<exists>x s'. m s = Some (Inr x, s') \<and> f x s' = Some (r, s''))"
  by (auto simp: gbind_def split: option.splits sum.splits prod.splits)

lemma gbind_ok:
  "gbind m f s = Some (Inr y, s'') \<longleftrightarrow> (\<exists>x s'. m s = Some (Inr x, s') \<and> f x s' = Some (Inr y, s''))"
  by (auto simp: gbind_Some)

section \<open>Handlers perform statements\<close>

definition performs :: "('b, 'a) handler \<Rightarrow> bool" where
  "performs m \<longleftrightarrow> (\<forall>s r s'. m s = Some (r, s') \<longrightarrow> store_step\<^sup>*\<^sup>* s s')"

named_theorems performs_intro \<open>handlers built from database statements\<close>

lemma performs_ret [performs_intro]: "performs (ret x)"
  by (simp add: performs_def ret_def)

lemma performs_fail [performs_intro]: "performs (fail e)"
  by (simp add: performs_def fail_def)

lemma performs_reading [performs_intro]: "performs (reading f)"
  by (simp add: performs_def reading_def)

lemma performs_lift [performs_intro]: "performs (lift_result r)"
  by (simp add: performs_def lift_result_def)

lemma performs_guarding [performs_intro]: "performs (guarding r)"
  by (auto simp: performs_def guarding_def split: option.splits)

lemma performs_gbind [performs_intro]:
  assumes "performs m" "\<And>x. performs (f x)"
  shows "performs (gbind m f)"
  unfolding performs_def
proof (intro allI impI)
  fix s r s''
  assume "gbind m f s = Some (r, s'')"
  then consider e where "m s = Some (Inl e, s'')" | x s' where "m s = Some (Inr x, s')" "f x s' = Some (r, s'')"
    by (auto simp: gbind_Some)
  then show "store_step\<^sup>*\<^sup>* s s''"
  proof cases
    case 1
    then show ?thesis using assms(1) by (simp add: performs_def)
  next
    case 2
    then have "store_step\<^sup>*\<^sup>* s s'" "store_step\<^sup>*\<^sup>* s' s''"
      using assms by (auto simp: performs_def)
    then show ?thesis by (rule rtranclp_trans)
  qed
qed

lemma performs_if [performs_intro]: "performs m \<Longrightarrow> performs n \<Longrightarrow> performs (if b then m else n)"
  by simp

lemma performs_option [performs_intro]:
  "performs m \<Longrightarrow> (\<And>x. performs (f x)) \<Longrightarrow> performs (case r of None \<Rightarrow> m | Some x \<Rightarrow> f x)"
  by (cases r) simp_all

lemma performs_prod [performs_intro]: "(\<And>x y. performs (f x y)) \<Longrightarrow> performs (case p of (x, y) \<Rightarrow> f x y)"
  by (cases p) simp

lemma performs_let [performs_intro]: "(\<And>x. performs (f x)) \<Longrightarrow> performs (let x = v in f x)"
  by simp

lemma performs_writing:
  "(\<And>s s'. f s = Inr s' \<Longrightarrow> store_step s s') \<Longrightarrow> performs (writing err f)"
  by (auto simp: performs_def writing_def split: sum.splits)

lemma performs_try_writing:
  "(\<And>s s'. f s = Inr s' \<Longrightarrow> store_step s s') \<Longrightarrow> performs (try_writing f)"
  by (auto simp: performs_def try_writing_def split: sum.splits)

lemma performs_updating:
  "(\<And>s x s'. f s = (x, s') \<Longrightarrow> store_step s s') \<Longrightarrow> performs (updating f)"
  by (auto simp: performs_def updating_def split: prod.splits)

lemma performs_statements [performs_intro]:
  "performs (writing err (db_put now t i n p))"
  "performs (writing err (put_policy_revision now i sb v p h))"
  "performs (try_writing (put_policy_revision now i sb v p h))"
  "performs (updating (supersede_older_policies sb v))"
  "performs (updating (update_policy_status sb v st e l))"
  "performs (writing err (put_draft_chunk c))"
  "performs (updating (update_draft_chunk_rule ci pr))"
  "performs (updating (delete_draft_chunks sb cst))"
  by (auto intro!: performs_writing performs_try_writing performs_updating intro: store_step.intros)

lemma performs_put_message [performs_intro]:
  "performs (writing err (put_message mt now m))" "performs (try_writing (put_message mt now m))"
  unfolding put_message_def
  by (auto intro!: performs_writing performs_try_writing intro: step_put)

section \<open>Shared pieces\<close>

definition u32_of_i64 :: "int \<Rightarrow> u32" where
  "u32_of_i64 v = (if 0 \<le> v \<and> v < 2 ^ 32 then word_of_int v else 0)"

definition sandbox_by_name :: "('s, 'b) externals \<Rightarrow> string \<Rightarrow> ('b, 's sandbox) handler" where
  "sandbox_by_name x nm = reading (\<lambda>s.
     and_then (map_err (\<lambda>e. internal (''fetch sandbox failed: '' @ e)) (get_message_by_name (x_sandbox x) nm s))
       (\<lambda>r. case r of None \<Rightarrow> Inl (not_found ''sandbox not found'') | Some sb \<Rightarrow> Inr sb))"

definition sandbox_by_id :: "('s, 'b) externals \<Rightarrow> string \<Rightarrow> ('b, 's sandbox) handler" where
  "sandbox_by_id x i = reading (\<lambda>s.
     and_then (map_err (\<lambda>e. internal (''fetch sandbox failed: '' @ e)) (get_message (x_sandbox x) i s))
       (\<lambda>r. case r of None \<Rightarrow> Inl (not_found ''sandbox not found'') | Some sb \<Rightarrow> Inr sb))"

lemma performs_sandbox [performs_intro]: "performs (sandbox_by_name x nm)" "performs (sandbox_by_id x i)"
  by (simp_all add: sandbox_by_name_def sandbox_by_id_def performs_reading)

lemma sandbox_by_name_Some:
  "sandbox_by_name x nm s = Some (Inr sb, s') \<longleftrightarrow>
     s' = s \<and> get_message_by_name (x_sandbox x) nm s = Inr (Some sb)"
  by (auto simp: sandbox_by_name_def reading_def and_then_Inr split: option.splits)

end
