(* ===== verification/Config_Update.thy ===== *)
theory Config_Update
  imports Gateway_Monad
begin

text \<open>
  The configuration handlers of the gateway (\<open>crates/openshell-server/src/grpc/policy.rs\<close>):
  serving the effective configuration of a sandbox, updating policies and settings at gateway and
  sandbox scope, and the report of a sandbox that it loaded a policy. Identifiers are fresh arguments
  and each handler runs at one point in time.
\<close>

section \<open>Requests and responses\<close>

record update_config_request =
  uc_name :: string
  uc_policy :: "sandbox_policy option"
  uc_setting_key :: string
  uc_setting_value :: "setting_value option option"
  uc_delete_setting :: bool
  uc_global :: bool

record update_config_response =
  ur_version :: u32
  ur_policy_hash :: string
  ur_settings_revision :: "64 word"
  ur_deleted :: bool

record get_sandbox_config_response =
  gc_policy :: "sandbox_policy option"
  gc_version :: u32
  gc_policy_hash :: string
  gc_settings :: "effective_setting str_map"
  gc_config_revision :: "64 word"
  gc_policy_source :: policy_source
  gc_global_policy_version :: u32

datatype policy_status = StUnspecified | StPending | StLoaded | StFailed | StSuperseded

section \<open>Serving the configuration\<close>

definition backfill_policy ::
  "('s, 'b) externals \<Rightarrow> int \<Rightarrow> string \<Rightarrow> string \<Rightarrow> sandbox_policy \<Rightarrow>
   ('b, sandbox_policy option \<times> u32 \<times> string) handler" where
  "backfill_policy x now_ms new_id sandbox_id spec_policy =
     (let hash = deterministic_policy_hash x spec_policy in
      gbind (try_writing (put_policy_revision now_ms new_id sandbox_id 1 (x_policy_enc x spec_policy) hash))
        (\<lambda>stored. gbind (if stored
            then gbind (updating (update_policy_status sandbox_id 1 ''loaded'' None None)) (\<lambda>_. ret ())
            else ret ())
          (\<lambda>_. ret (Some spec_policy, 1, hash))))"

definition current_policy ::
  "('s, 'b) externals \<Rightarrow> int \<Rightarrow> string \<Rightarrow> 's sandbox \<Rightarrow> string \<Rightarrow>
   ('b, sandbox_policy option \<times> u32 \<times> string) handler" where
  "current_policy x now_ms new_id sandbox sandbox_id =
     gbind (reading (\<lambda>s. Inr (get_latest_policy sandbox_id s))) (\<lambda>latest. case latest of
       Some record \<Rightarrow> (case x_policy_dec x (pl_payload record) of
         None \<Rightarrow> fail (internal ''decode policy failed'')
       | Some decoded \<Rightarrow> ret (Some decoded, u32_of_i64 (pl_version record), pl_hash record))
     | None \<Rightarrow> (case sb_spec sandbox of
         None \<Rightarrow> fail (internal ''sandbox has no spec'')
       | Some spec \<Rightarrow> (case ss_policy spec of
           None \<Rightarrow> ret (None, 0, [])
         | Some spec_policy \<Rightarrow> backfill_policy x now_ms new_id sandbox_id spec_policy)))"

definition serve_config ::
  "('s, 'b) externals \<Rightarrow> string \<Rightarrow> sandbox_policy option \<times> u32 \<times> string \<Rightarrow>
   ('b, get_sandbox_config_response) handler" where
  "serve_config x sandbox_id current =
     gbind (reading (load_global_settings x)) (\<lambda>global_settings.
     gbind (reading (load_sandbox_settings x sandbox_id)) (\<lambda>sandbox_settings.
     gbind (lift_result (decode_policy_from_global_settings x global_settings)) (\<lambda>gp.
     gbind (reading (\<lambda>s. Inr (get_latest_policy GLOBAL_POLICY_SANDBOX_ID s))) (\<lambda>global_rev.
     gbind (lift_result (merge_effective_settings x global_settings sandbox_settings)) (\<lambda>settings.
       let (policy, version, hash) = current;
           (policy', version', hash', source, gversion) = (case gp of
              None \<Rightarrow> (policy, version, hash, SourceSandbox, 0)
            | Some global_policy \<Rightarrow> (Some global_policy, if version = 0 then 1 else version,
                deterministic_policy_hash x global_policy, SourceGlobal,
                case global_rev of None \<Rightarrow> 0 | Some r \<Rightarrow> u32_of_i64 (pl_version r)))
       in ret \<lparr>gc_policy = policy', gc_version = version', gc_policy_hash = hash',
            gc_settings = settings, gc_config_revision = compute_config_revision x policy' settings source,
            gc_policy_source = source, gc_global_policy_version = gversion\<rparr>)))))"

definition handle_get_sandbox_config ::
  "('s, 'b) externals \<Rightarrow> int \<Rightarrow> string \<Rightarrow> string \<Rightarrow> ('b, get_sandbox_config_response) handler" where
  "handle_get_sandbox_config x now_ms new_id sandbox_id =
     gbind (sandbox_by_id x sandbox_id) (\<lambda>sandbox.
     gbind (current_policy x now_ms new_id sandbox sandbox_id) (serve_config x sandbox_id))"

section \<open>Gateway scope\<close>

definition save_if_changed ::
  "('s, 'b) externals \<Rightarrow> int \<Rightarrow> stored_settings \<Rightarrow> bool \<Rightarrow> stored_setting_value str_map \<Rightarrow>
   ('b, 64 word) handler" where
  "save_if_changed x now_ms global changed m =
     (if changed then
        (let global' = global\<lparr>se_settings := m, se_revision := se_revision global + 1\<rparr> in
         gbind (writing (\<lambda>e. internal (''persist settings failed: '' @ e))
             (db_put now_ms GLOBAL_SETTINGS_OBJECT_TYPE GLOBAL_SETTINGS_ID GLOBAL_SETTINGS_NAME
               (x_settings_enc x global')))
           (\<lambda>_. ret (se_revision global')))
      else ret (se_revision global))"

definition store_global_policy_setting ::
  "('s, 'b) externals \<Rightarrow> int \<Rightarrow> 'b \<Rightarrow> ('b, 64 word) handler" where
  "store_global_policy_setting x now_ms payload =
     gbind (reading (load_global_settings x)) (\<lambda>global.
       let (changed, m) = upsert_setting_value (se_settings global) POLICY_SETTING_KEY
              (SBytes (x_hex_enc x payload))
       in save_if_changed x now_ms global changed m)"

definition update_global_policy ::
  "('s, 'b) externals \<Rightarrow> int \<Rightarrow> string \<Rightarrow> bool \<Rightarrow> sandbox_policy \<Rightarrow> ('b, update_config_response) handler" where
  "update_global_policy x now_ms new_id delete_setting policy =
     (if delete_setting
      then fail (invalid_argument ''delete_setting cannot be combined with policy payload'')
      else let new_policy = ensure_sandbox_process_identity policy in
       gbind (guarding (validate_policy_safety new_policy)) (\<lambda>_.
       let payload = x_policy_enc x new_policy; hash = deterministic_policy_hash x new_policy in
       gbind (reading (\<lambda>s. Inr (get_latest_policy GLOBAL_POLICY_SANDBOX_ID s))) (\<lambda>latest.
       let unchanged = (case latest of None \<Rightarrow> None
          | Some current \<Rightarrow> if pl_hash current = hash \<and> pl_status current = ''loaded''
              then Some current else None) in
       case unchanged of
         Some current \<Rightarrow> gbind (store_global_policy_setting x now_ms payload) (\<lambda>revision.
           ret \<lparr>ur_version = u32_of_i64 (pl_version current), ur_policy_hash = hash,
                ur_settings_revision = revision, ur_deleted = False\<rparr>)
       | None \<Rightarrow>
           let next_version = (case latest of None \<Rightarrow> 1 | Some r \<Rightarrow> pl_version r + 1) in
           gbind (writing (\<lambda>e. internal (''persist global policy revision failed: '' @ e))
               (put_policy_revision now_ms new_id GLOBAL_POLICY_SANDBOX_ID next_version payload hash)) (\<lambda>_.
           gbind (updating (update_policy_status GLOBAL_POLICY_SANDBOX_ID next_version ''loaded'' None
               (Some now_ms))) (\<lambda>_.
           gbind (updating (supersede_older_policies GLOBAL_POLICY_SANDBOX_ID next_version)) (\<lambda>_.
           gbind (store_global_policy_setting x now_ms payload) (\<lambda>revision.
             ret \<lparr>ur_version = u32_of_i64 next_version, ur_policy_hash = hash,
                  ur_settings_revision = revision, ur_deleted = False\<rparr>)))))))"

definition delete_global_setting ::
  "stored_settings \<Rightarrow> string \<Rightarrow> ('b, bool \<times> stored_setting_value str_map) handler" where
  "delete_global_setting global key =
     (let removed = map_of (se_settings global) key \<noteq> None; m = al_remove key (se_settings global) in
      gbind (if removed \<and> key = POLICY_SETTING_KEY
        then gbind (reading (\<lambda>s. Inr (get_latest_policy GLOBAL_POLICY_SANDBOX_ID s))) (\<lambda>latest.
          case latest of None \<Rightarrow> ret ()
          | Some r \<Rightarrow> gbind (updating (supersede_older_policies GLOBAL_POLICY_SANDBOX_ID (pl_version r + 1)))
              (\<lambda>_. ret ()))
        else ret ()) (\<lambda>_. ret (removed, m)))"

definition update_global_setting ::
  "('s, 'b) externals \<Rightarrow> int \<Rightarrow> string \<Rightarrow> bool \<Rightarrow> setting_value option option \<Rightarrow>
   ('b, update_config_response) handler" where
  "update_global_setting x now_ms key delete_setting v =
     (if key = POLICY_SETTING_KEY \<and> \<not> delete_setting
      then fail (invalid_argument (''reserved key '' @ quoted ''policy'' @ '' must be set via the policy field''))
      else gbind (if key \<noteq> POLICY_SETTING_KEY
          then gbind (lift_result (validate_registered_setting_key key)) (\<lambda>_. ret ()) else ret ()) (\<lambda>_.
       gbind (reading (load_global_settings x)) (\<lambda>global.
       gbind (if delete_setting then delete_global_setting global key
          else (case v of None \<Rightarrow> fail (invalid_argument ''setting_value is required'')
            | Some setting \<Rightarrow> gbind (lift_result (proto_setting_to_stored key setting)) (\<lambda>stored.
                ret (upsert_setting_value (se_settings global) key stored)))) (\<lambda>(changed, m).
       gbind (save_if_changed x now_ms global changed m) (\<lambda>revision.
         ret \<lparr>ur_version = 0, ur_policy_hash = [], ur_settings_revision = revision,
              ur_deleted = delete_setting \<and> changed\<rparr>)))))"

section \<open>Sandbox scope\<close>

definition save_sandbox_if ::
  "('s, 'b) externals \<Rightarrow> int \<Rightarrow> string \<Rightarrow> string \<Rightarrow> stored_settings \<Rightarrow> bool \<Rightarrow>
   stored_setting_value str_map \<Rightarrow> ('b, 64 word) handler" where
  "save_sandbox_if x now_ms sandbox_id nm settings changed m =
     (if changed then
        (let settings' = settings\<lparr>se_settings := m, se_revision := se_revision settings + 1\<rparr> in
         gbind (writing (\<lambda>e. internal (''persist settings failed: '' @ e))
             (db_put now_ms SANDBOX_SETTINGS_OBJECT_TYPE (sandbox_settings_id sandbox_id) nm
               (x_settings_enc x settings')))
           (\<lambda>_. ret (se_revision settings')))
      else ret (se_revision settings))"

definition update_sandbox_setting ::
  "('s, 'b) externals \<Rightarrow> int \<Rightarrow> 's sandbox \<Rightarrow> string \<Rightarrow> bool \<Rightarrow> setting_value option option \<Rightarrow>
   ('b, update_config_response) handler" where
  "update_sandbox_setting x now_ms sandbox key delete_setting v =
     (if key = POLICY_SETTING_KEY
      then fail (invalid_argument (''reserved key '' @ quoted ''policy'' @ '' must be set via policy commands''))
      else gbind (reading (load_global_settings x)) (\<lambda>global.
       let globally_managed = map_of (se_settings global) key \<noteq> None in
       if delete_setting then
         (if globally_managed
          then fail (failed_precondition (''setting '' @ quoted key
                 @ '' is managed globally; delete the global setting first''))
          else gbind (reading (load_sandbox_settings x (sb_id sandbox))) (\<lambda>settings.
            let removed = map_of (se_settings settings) key \<noteq> None in
            gbind (save_sandbox_if x now_ms (sb_id sandbox) (sb_name sandbox) settings removed
                (al_remove key (se_settings settings))) (\<lambda>revision.
              ret \<lparr>ur_version = 0, ur_policy_hash = [], ur_settings_revision = revision,
                   ur_deleted = removed\<rparr>)))
       else if globally_managed
       then fail (failed_precondition (''setting '' @ quoted key
              @ '' is managed globally; delete the global setting before sandbox update''))
       else (case v of None \<Rightarrow> fail (invalid_argument ''setting_value is required'')
         | Some setting \<Rightarrow> gbind (lift_result (proto_setting_to_stored key setting)) (\<lambda>stored.
             gbind (reading (load_sandbox_settings x (sb_id sandbox))) (\<lambda>settings.
             let (changed, m) = upsert_setting_value (se_settings settings) key stored in
             gbind (save_sandbox_if x now_ms (sb_id sandbox) (sb_name sandbox) settings changed m) (\<lambda>revision.
               ret \<lparr>ur_version = 0, ur_policy_hash = [], ur_settings_revision = revision,
                    ur_deleted = False\<rparr>))))))"

definition check_or_backfill_baseline ::
  "('s, 'b) externals \<Rightarrow> int \<Rightarrow> 's sandbox \<Rightarrow> 's sandbox_spec \<Rightarrow> sandbox_policy \<Rightarrow> ('b, unit) handler" where
  "check_or_backfill_baseline x now_ms sandbox spec new_policy = (case ss_policy spec of
     Some baseline \<Rightarrow> gbind (lift_result (validate_static_fields_unchanged baseline new_policy))
       (\<lambda>_. guarding (validate_policy_safety new_policy))
   | None \<Rightarrow> writing (\<lambda>e. internal (''backfill spec.policy failed: '' @ e))
       (put_message (x_sandbox x) now_ms
         (sandbox\<lparr>sb_spec := Some (spec\<lparr>ss_policy := Some new_policy\<rparr>)\<rparr>)))"

definition update_sandbox_policy ::
  "('s, 'b) externals \<Rightarrow> int \<Rightarrow> string \<Rightarrow> 's sandbox \<Rightarrow> sandbox_policy \<Rightarrow> ('b, update_config_response) handler" where
  "update_sandbox_policy x now_ms new_id sandbox policy =
     gbind (reading (load_global_settings x)) (\<lambda>global.
     if map_of (se_settings global) POLICY_SETTING_KEY \<noteq> None
     then fail (failed_precondition
            ''policy is managed globally; delete global policy before sandbox policy update'')
     else case sb_spec sandbox of
       None \<Rightarrow> fail (internal ''sandbox has no spec'')
     | Some spec \<Rightarrow>
         let new_policy = ensure_sandbox_process_identity policy in
         gbind (check_or_backfill_baseline x now_ms sandbox spec new_policy) (\<lambda>_.
         gbind (reading (\<lambda>s. Inr (get_latest_policy (sb_id sandbox) s))) (\<lambda>latest.
         let payload = x_policy_enc x new_policy; hash = deterministic_policy_hash x new_policy;
             unchanged = (case latest of None \<Rightarrow> None
               | Some current \<Rightarrow> if pl_hash current = hash then Some current else None) in
         case unchanged of
           Some current \<Rightarrow> ret \<lparr>ur_version = u32_of_i64 (pl_version current), ur_policy_hash = hash,
             ur_settings_revision = 0, ur_deleted = False\<rparr>
         | None \<Rightarrow>
             let next_version = (case latest of None \<Rightarrow> 1 | Some r \<Rightarrow> pl_version r + 1) in
             gbind (writing (\<lambda>e. internal (''persist policy revision failed: '' @ e))
                 (put_policy_revision now_ms new_id (sb_id sandbox) next_version payload hash)) (\<lambda>_.
             gbind (updating (supersede_older_policies (sb_id sandbox) next_version)) (\<lambda>_.
               ret \<lparr>ur_version = u32_of_i64 next_version, ur_policy_hash = hash,
                    ur_settings_revision = 0, ur_deleted = False\<rparr>)))))"

section \<open>The handlers\<close>

definition handle_update_config ::
  "('s, 'b) externals \<Rightarrow> int \<Rightarrow> string \<Rightarrow> update_config_request \<Rightarrow> ('b, update_config_response) handler" where
  "handle_update_config x now_ms new_id req =
     (let key = trim (uc_setting_key req); has_setting = (key \<noteq> []) in
      if uc_policy req \<noteq> None \<and> has_setting
      then fail (invalid_argument ''policy and setting_key cannot be set in the same request'')
      else if uc_policy req = None \<and> \<not> has_setting
      then fail (invalid_argument ''either policy or setting_key must be provided'')
      else if uc_global req then
        (case uc_policy req of
           Some policy \<Rightarrow> update_global_policy x now_ms new_id (uc_delete_setting req) policy
         | None \<Rightarrow> update_global_setting x now_ms key (uc_delete_setting req) (uc_setting_value req))
      else if uc_name req = [] then fail (invalid_argument ''name is required for sandbox-scoped updates'')
      else gbind (sandbox_by_name x (uc_name req)) (\<lambda>sandbox.
        if has_setting
        then update_sandbox_setting x now_ms sandbox key (uc_delete_setting req) (uc_setting_value req)
        else case uc_policy req of None \<Rightarrow> fail (invalid_argument ''policy is required'')
          | Some policy \<Rightarrow> update_sandbox_policy x now_ms new_id sandbox policy))"

text \<open>The status of a report is \<open>None\<close> when its number is not a status.\<close>

definition handle_report_policy_status ::
  "('s, 'b) externals \<Rightarrow> int \<Rightarrow> string \<Rightarrow> u32 \<Rightarrow> policy_status option \<Rightarrow> string \<Rightarrow> ('b, unit) handler" where
  "handle_report_policy_status x now_ms sandbox_id version stat load_error =
     (if sandbox_id = [] then fail (invalid_argument ''sandbox_id is required'')
      else if version = 0 then fail (invalid_argument ''version is required'')
      else if stat \<noteq> Some StLoaded \<and> stat \<noteq> Some StFailed
      then fail (invalid_argument ''status must be LOADED or FAILED'')
      else let loaded = (stat = Some StLoaded) in
       gbind (updating (update_policy_status sandbox_id (uint version)
           (if loaded then ''loaded'' else ''failed'')
           (if \<not> loaded \<and> load_error \<noteq> [] then Some load_error else None)
           (if loaded then Some now_ms else None))) (\<lambda>updated.
       if \<not> updated then fail (not_found ''policy revision not found'')
       else if loaded then
         gbind (updating (supersede_older_policies sandbox_id (uint version))) (\<lambda>_.
         gbind (reading (\<lambda>s. Inr (get_message (x_sandbox x) sandbox_id s))) (\<lambda>r.
           case r of Inr (Some sandbox) \<Rightarrow>
               gbind (try_writing (put_message (x_sandbox x) now_ms
                 (sandbox\<lparr>sb_current_policy_version := version\<rparr>))) (\<lambda>_. ret ())
           | _ \<Rightarrow> ret ()))
       else ret ()))"

end
