(* ===== verification/Config_Props.thy ===== *)
theory Config_Props
  imports Config_Update
begin

text \<open>
  Correctness of configuration updates: what an accepted policy update guarantees relative to the
  policy the sandbox was created with, how a gateway policy overrides the sandboxes, and the update
  path that skips validation.
\<close>

section \<open>Static fields\<close>

definition fs_extends :: "filesystem_policy option \<Rightarrow> filesystem_policy option \<Rightarrow> bool" where
  "fs_extends b n = (case b of None \<Rightarrow> True
     | Some fb \<Rightarrow> (case n of None \<Rightarrow> False
       | Some fn \<Rightarrow> fs_include_workdir fn = fs_include_workdir fb
           \<and> set (fs_read_only fb) \<subseteq> set (fs_read_only fn)
           \<and> set (fs_read_write fb) \<subseteq> set (fs_read_write fn)))"

definition static_extends :: "sandbox_policy \<Rightarrow> sandbox_policy \<Rightarrow> bool" where
  "static_extends b n \<longleftrightarrow> fs_extends (sp_filesystem b) (sp_filesystem n)
     \<and> sp_landlock n = sp_landlock b \<and> sp_process n = sp_process b"

lemma validate_filesystem_additive_ok:
  "validate_filesystem_additive b n = Inr () \<longleftrightarrow> fs_extends b n"
  by (cases b; cases n) (auto simp: validate_filesystem_additive_def fs_extends_def path_not_removed_def
      and_then_unit_ok list_all_iff)

lemma validate_static_fields_ok:
  "validate_static_fields_unchanged b n = Inr () \<longleftrightarrow> static_extends b n"
  by (auto simp: validate_static_fields_unchanged_def static_extends_def and_then_unit_ok
      validate_filesystem_additive_ok)

lemma static_extends_refl: "static_extends p p"
  by (auto simp: static_extends_def fs_extends_def split: option.splits)

lemma static_extends_trans: "static_extends p q \<Longrightarrow> static_extends q r \<Longrightarrow> static_extends p r"
  by (fastforce simp: static_extends_def fs_extends_def split: option.splits)

text \<open>The check of the static fields accepts exactly the updates that keep the Landlock and process
  sections and the working directory flag and remove no path; this is a reflexive and transitive
  relation, so a sequence of accepted updates never removes a path of any earlier policy.\<close>

theorem static_fields_check_is_preorder:
  "(validate_static_fields_unchanged p q = Inr () \<longleftrightarrow> static_extends p q)
   \<and> validate_static_fields_unchanged p p = Inr ()
   \<and> (validate_static_fields_unchanged p q = Inr () \<longrightarrow> validate_static_fields_unchanged q r = Inr ()
        \<longrightarrow> validate_static_fields_unchanged p r = Inr ())"
  using static_extends_refl static_extends_trans by (auto simp: validate_static_fields_ok)

definition wider_policy :: sandbox_policy where
  "wider_policy = restrictive_default_policy\<lparr>sp_filesystem := Some \<lparr>fs_include_workdir = True,
     fs_read_only = [''/opt'', ''/usr'', ''/lib'', ''/proc'', ''/dev/urandom'', ''/app'', ''/etc'', ''/var/log''],
     fs_read_write = [''/sandbox'', ''/tmp'', ''/dev/null'']\<rparr>\<rparr>"

lemma wider_policy_extends: "static_extends restrictive_default_policy wider_policy"
  by (simp add: static_extends_def fs_extends_def wider_policy_def restrictive_default_policy_def)

theorem static_fields_check_is_preorder_witness:
  "validate_static_fields_unchanged restrictive_default_policy wider_policy = Inr ()
   \<and> validate_static_fields_unchanged wider_policy wider_policy = Inr ()
   \<and> validate_static_fields_unchanged restrictive_default_policy wider_policy = Inr ()"
  using static_fields_check_is_preorder [of restrictive_default_policy wider_policy wider_policy]
    static_fields_check_is_preorder [of wider_policy wider_policy wider_policy]
    wider_policy_extends by blast

section \<open>Accepted sandbox updates\<close>

lemma reading_ok: "reading f s = Some (Inr y, s') \<longleftrightarrow> f s = Inr y \<and> s' = s"
  by (auto simp: reading_def)

lemma lift_result_ok: "lift_result r s = Some (Inr y, s') \<longleftrightarrow> r = Inr y \<and> s' = s"
  by (auto simp: lift_result_def)

lemma guarding_ok: "guarding r s = Some (Inr y, s') \<longleftrightarrow> r = Some (Inr y) \<and> s' = s"
  by (auto simp: guarding_def split: option.splits)

lemma ret_ok: "ret v s = Some (Inr y, s') \<longleftrightarrow> v = y \<and> s' = s"
  by (auto simp: ret_def)

lemma fail_ok: "fail e s \<noteq> Some (Inr y, s')"
  by (simp add: fail_def)

lemma writing_ok: "writing err f s = Some (Inr y, s') \<longleftrightarrow> f s = Inr s'"
  by (auto simp: writing_def split: sum.splits)

lemma updating_ok: "updating f s = Some (Inr y, s') \<longleftrightarrow> f s = (y, s')"
  by (auto simp: updating_def split: prod.splits)

lemmas handler_ok = gbind_ok reading_ok lift_result_ok guarding_ok ret_ok fail_ok writing_ok updating_ok

lemma validate_policy_safety_ok:
  "validate_policy_safety p = Some (Inr ()) \<longleftrightarrow> validate_sandbox_policy p = Some (Inr ())"
  by (auto simp: validate_policy_safety_def split: option.splits sum.splits)

lemma validate_sandbox_policy_safe: "validate_sandbox_policy p = Some (Inr ()) \<longleftrightarrow> safe_policy p"
  using filesystem_violations_none
  by (auto simp: validate_sandbox_policy_def safe_policy_def process_violations_def Let_def
      split: option.splits if_splits)

lemma update_config_sandbox_policy:
  assumes "handle_update_config x now i req s = Some (Inr resp, s')" "\<not> uc_global req"
    "uc_policy req = Some p" "get_message_by_name (x_sandbox x) (uc_name req) s = Inr (Some sb)"
  shows "update_sandbox_policy x now i sb p s = Some (Inr resp, s')"
  using assms by (auto simp: handle_update_config_def Let_def gbind_ok fail_ok sandbox_by_name_Some
      split: if_splits)

lemma max_version_key_update:
  assumes "\<And>r. pl_version (f r) = pl_version r"
  shows "max_version (map f rs) = map_option f (max_version rs)"
  using assms by (induction rs) (auto split: option.splits)

text \<open>A status update does not change which revision is the latest, nor its payload and hash.\<close>

lemma latest_after_supersede:
  "map_option (\<lambda>r. (pl_version r, pl_payload r, pl_hash r)) (get_latest_policy sb (snd (supersede_older_policies sb' v s)))
    = map_option (\<lambda>r. (pl_version r, pl_payload r, pl_hash r)) (get_latest_policy sb s)"
proof -
  define f where "f = (\<lambda>r :: 'a policy_record. if pl_sandbox_id r = sb' \<and> pl_version r < v
    \<and> pl_status r \<in> {''pending'', ''loaded''} then r\<lparr>pl_status := ''superseded''\<rparr> else r)"
  have f: "pl_version (f r) = pl_version r" "pl_sandbox_id (f r) = pl_sandbox_id r"
    "pl_payload (f r) = pl_payload r" "pl_hash (f r) = pl_hash r" for r by (simp_all add: f_def)
  have "st_policies (snd (supersede_older_policies sb' v s)) = map f (st_policies s)"
    by (simp add: supersede_older_policies_def Let_def f_def)
  then have "get_latest_policy sb (snd (supersede_older_policies sb' v s))
      = map_option f (get_latest_policy sb s)"
    by (simp add: get_latest_policy_def filter_map o_def f max_version_key_update)
  then show ?thesis by (simp add: option.map_comp o_def f)
qed

lemma latest_after_put:
  assumes "put_policy_revision now i sb v p h s = Inr s'"
    "v = (case get_latest_policy sb s of None \<Rightarrow> 1 | Some r \<Rightarrow> pl_version r + 1)"
  shows "map_option (\<lambda>r. (pl_version r, pl_payload r, pl_hash r)) (get_latest_policy sb s') = Some (v, p, h)"
proof -
  define new where "new = \<lparr>pl_id = i, pl_sandbox_id = sb, pl_version = v, pl_payload = p, pl_hash = h,
    pl_status = ''pending'', pl_load_error = None, pl_created_at_ms = now, pl_loaded_at_ms = None\<rparr>"
  have "st_policies s' = st_policies s @ [new]"
    using assms(1) by (auto simp: put_policy_revision_def new_def split: if_splits)
  then have l: "get_latest_policy sb s' = max_version (filter (\<lambda>r. pl_sandbox_id r = sb) (st_policies s) @ [new])"
    by (simp add: get_latest_policy_def new_def)
  have "pl_version r < v" if "r \<in> set (st_policies s)" "pl_sandbox_id r = sb" for r
    using that assms(2) get_latest_policy_None [of sb s] get_latest_policy_Some(3) [of sb s _ r]
    by (auto split: option.splits)
  then have "get_latest_policy sb s' = Some new"
    unfolding l by (intro max_version_append_new) (auto simp: new_def)
  then show ?thesis by (simp add: new_def)
qed

text \<open>C18: a policy update of a sandbox that was created with a policy takes effect only if the new policy
  is safe, runs as the sandbox user and group, and keeps the static fields of the creation policy;
  then the latest revision has the hash of the new policy, and if that is a new hash it is a
  revision of the next version that holds the encoded policy.\<close>

theorem sandbox_policy_update_guarded:
  assumes "handle_update_config x now i req s = Some (Inr resp, s')" "\<not> uc_global req"
    "uc_policy req = Some p" "get_message_by_name (x_sandbox x) (uc_name req) s = Inr (Some sb)"
    "sb_spec sb = Some spec" "ss_policy spec = Some baseline"
  shows "safe_policy (ensure_sandbox_process_identity p)
    \<and> static_extends baseline (ensure_sandbox_process_identity p)
    \<and> (\<exists>r. get_latest_policy (sb_id sb) s' = Some r
        \<and> pl_hash r = deterministic_policy_hash x (ensure_sandbox_process_identity p)
        \<and> (get_latest_policy (sb_id sb) s = Some r
           \<or> pl_payload r = x_policy_enc x (ensure_sandbox_process_identity p)
             \<and> pl_version r = (case get_latest_policy (sb_id sb) s of None \<Rightarrow> 1 | Some q \<Rightarrow> pl_version q + 1)))"
proof -
  let ?p = "ensure_sandbox_process_identity p"
  have u: "update_sandbox_policy x now i sb p s = Some (Inr resp, s')"
    using update_config_sandbox_policy [OF assms(1-4)] .
  have ok: "static_extends baseline ?p" "safe_policy ?p"
    using u assms(5,6) unfolding update_sandbox_policy_def check_or_backfill_baseline_def
    by (auto simp: handler_ok validate_static_fields_ok validate_policy_safety_ok
        validate_sandbox_policy_safe Let_def split: if_splits)
  show ?thesis
  proof (cases "\<exists>r. get_latest_policy (sb_id sb) s = Some r \<and> pl_hash r = deterministic_policy_hash x ?p")
    case True
    then obtain r where r: "get_latest_policy (sb_id sb) s = Some r"
      "pl_hash r = deterministic_policy_hash x ?p" by blast
    then have "s' = s"
      using u assms(5,6) unfolding update_sandbox_policy_def check_or_backfill_baseline_def
      by (auto simp: handler_ok Let_def split: if_splits)
    then show ?thesis using ok r by blast
  next
    case False
    let ?v = "case get_latest_policy (sb_id sb) s of None \<Rightarrow> 1 | Some r \<Rightarrow> pl_version r + 1"
    have none: "(case get_latest_policy (sb_id sb) s of None \<Rightarrow> None
        | Some current \<Rightarrow> if pl_hash current = deterministic_policy_hash x ?p then Some current else None) = None"
      using False by (auto split: option.splits)
    obtain s1 n where put: "put_policy_revision now i (sb_id sb) ?v (x_policy_enc x ?p)
        (deterministic_policy_hash x ?p) s = Inr s1"
      and sup: "supersede_older_policies (sb_id sb) ?v s1 = (n, s')"
      using u assms(5,6) unfolding update_sandbox_policy_def check_or_backfill_baseline_def
      by (auto simp: handler_ok Let_def none split: if_splits)
    have "map_option (\<lambda>r. (pl_version r, pl_payload r, pl_hash r)) (get_latest_policy (sb_id sb) s')
        = Some (?v, x_policy_enc x ?p, deterministic_policy_hash x ?p)"
      using latest_after_put [OF put refl] latest_after_supersede [of "sb_id sb" "sb_id sb" ?v s1] sup by simp
    then show ?thesis using ok by (auto simp: map_option_eq_Some)
  qed
qed

definition succeeds :: "('b, 'a) handler \<Rightarrow> 'b store \<Rightarrow> bool" where
  "succeeds m s = (case m s of Some (Inr _, _) \<Rightarrow> True | _ \<Rightarrow> False)"

lemma succeeds_iff: "succeeds m s \<longleftrightarrow> (\<exists>y s'. m s = Some (Inr y, s'))"
  by (auto simp: succeeds_def split: option.splits sum.splits prod.splits)

definition example_spec :: "sandbox_policy option \<Rightarrow> unit sandbox_spec" where
  "example_spec p = \<lparr>ss_log_level = [], ss_environment = [], ss_template = None, ss_policy = p,
     ss_providers = [], ss_gpu = False\<rparr>"

definition example_sandbox :: "sandbox_policy option \<Rightarrow> unit sandbox" where
  "example_sandbox p = \<lparr>sb_id = ''sb1'', sb_name = ''dev'', sb_namespace = ''ns'',
     sb_spec = Some (example_spec p),
     sb_status = None, sb_phase = 2, sb_created_at_ms = 1, sb_current_policy_version = 1\<rparr>"

definition sandbox_store :: "sandbox_policy option \<Rightarrow> unit blob store" where
  "sandbox_store p = empty_store\<lparr>st_objects := [\<lparr>ob_type = ''sandbox'', ob_id = ''sb1'', ob_name = ''dev'',
     ob_payload = BSandbox (example_sandbox p), ob_created_at_ms = 1, ob_updated_at_ms = 1\<rparr>]\<rparr>"

definition policy_request :: "sandbox_policy \<Rightarrow> update_config_request" where
  "policy_request p = \<lparr>uc_name = ''dev'', uc_policy = Some p, uc_setting_key = [],
     uc_setting_value = None, uc_delete_setting = False, uc_global = False\<rparr>"

lemma example_sandbox_stored:
  "get_message_by_name (x_sandbox example_x) ''dev'' (sandbox_store p) = Inr (Some (example_sandbox p))"
  by (simp add: get_message_by_name_def db_get_by_name_def decode_record_def example_x_def sandbox_store_def)

lemma example_sandbox_by_name:
  "sandbox_by_name example_x ''dev'' (sandbox_store p) = Some (Inr (example_sandbox p), sandbox_store p)"
  by (simp add: sandbox_by_name_Some example_sandbox_stored)

lemma sandbox_store_settings: "load_global_settings example_x (sandbox_store p) = Inr stored_settings_default"
  by (simp add: load_global_settings_def load_settings_record_def db_get_def sandbox_store_def
      GLOBAL_SETTINGS_OBJECT_TYPE_def)

lemma sandbox_store_latest: "get_latest_policy sb (sandbox_store p) = None"
  by (simp add: get_latest_policy_def sandbox_store_def empty_store_def)

lemma sandbox_store_put:
  "put_policy_revision now i sb v b h (sandbox_store p) = Inr ((sandbox_store p)\<lparr>st_policies :=
     [\<lparr>pl_id = i, pl_sandbox_id = sb, pl_version = v, pl_payload = b, pl_hash = h, pl_status = ''pending'',
       pl_load_error = None, pl_created_at_ms = now, pl_loaded_at_ms = None\<rparr>]\<rparr>)"
  by (simp add: put_policy_revision_def sandbox_store_def empty_store_def)

lemma sandbox_store_backfill:
  "put_message (x_sandbox example_x) now (example_sandbox q) (sandbox_store p)
    = Inr ((sandbox_store q)\<lparr>st_objects := map (\<lambda>r. r\<lparr>ob_updated_at_ms := now\<rparr>) (st_objects (sandbox_store q))\<rparr>)"
  by (simp add: put_message_def db_put_def sandbox_store_def example_x_def example_sandbox_def)

lemma example_sandbox_simps:
  "sb_spec (example_sandbox p) = Some (example_spec p)" "ss_policy (example_spec p) = p"
  "sb_id (example_sandbox p) = ''sb1''"
  "(example_sandbox p)\<lparr>sb_spec := Some ((example_spec p)\<lparr>ss_policy := Some q\<rparr>)\<rparr> = example_sandbox (Some q)"
  by (simp_all add: example_sandbox_def example_spec_def)

lemma trim_Nil: "trim [] = []"
  by code_simp

lemmas run_simps = gbind_def reading_def lift_result_def guarding_def writing_def updating_def ret_def
  Let_def trim_Nil sandbox_store_settings stored_settings_default_def sandbox_store_latest
  sandbox_store_put example_sandbox_by_name example_sandbox_simps

lemma example_request_runs:
  "handle_update_config example_x now i (policy_request p) (sandbox_store q)
    = update_sandbox_policy example_x now i (example_sandbox q) p (sandbox_store q)"
  by (simp add: handle_update_config_def policy_request_def run_simps)

lemma wider_policy_safe: "safe_policy wider_policy"
  unfolding validate_sandbox_policy_safe [symmetric] by code_simp

lemma wider_policy_ensured: "ensure_sandbox_process_identity wider_policy = wider_policy"
  by (simp add: ensure_sandbox_process_identity_def wider_policy_def restrictive_default_policy_def Let_def)

lemma example_update_succeeds:
  "succeeds (handle_update_config example_x 7 ''new'' (policy_request wider_policy))
     (sandbox_store (Some restrictive_default_policy))"
proof -
  have v: "validate_policy_safety wider_policy = Some (Inr ())"
    using wider_policy_safe by (simp add: validate_policy_safety_ok validate_sandbox_policy_safe)
  have st: "validate_static_fields_unchanged restrictive_default_policy wider_policy = Inr ()"
    using wider_policy_extends by (simp add: validate_static_fields_ok)
  show ?thesis
    unfolding succeeds_def example_request_runs update_sandbox_policy_def check_or_backfill_baseline_def
    by (simp add: run_simps wider_policy_ensured v st split: prod.splits)
qed

theorem sandbox_policy_update_guarded_witness:
  "\<exists>resp s' r. handle_update_config example_x 7 ''new'' (policy_request wider_policy)
      (sandbox_store (Some restrictive_default_policy)) = Some (Inr resp, s')
     \<and> safe_policy wider_policy \<and> get_latest_policy ''sb1'' s' = Some r
     \<and> pl_version r = 1 \<and> pl_payload r = BPolicy wider_policy"
proof -
  let ?s = "sandbox_store (Some restrictive_default_policy)"
  obtain resp s' where h: "handle_update_config example_x 7 ''new'' (policy_request wider_policy) ?s
      = Some (Inr resp, s')"
    using example_update_succeeds by (auto simp: succeeds_iff)
  have "\<not> uc_global (policy_request wider_policy)" "uc_policy (policy_request wider_policy) = Some wider_policy"
    "get_message_by_name (x_sandbox example_x) (uc_name (policy_request wider_policy)) ?s
      = Inr (Some (example_sandbox (Some restrictive_default_policy)))"
    by (simp_all add: policy_request_def example_sandbox_stored)
  from sandbox_policy_update_guarded [OF h this example_sandbox_simps(1,2)]
  obtain r where "safe_policy wider_policy" "get_latest_policy ''sb1'' s' = Some r" "pl_version r = 1"
    "pl_payload r = x_policy_enc example_x wider_policy"
    by (auto simp: sandbox_store_latest wider_policy_ensured example_sandbox_simps)
  then show ?thesis using h by (auto simp: example_x_def)
qed

section \<open>An update path without validation\<close>

text \<open>A policy that runs as root with the whole file system writable.\<close>

definition root_policy :: sandbox_policy where
  "root_policy = \<lparr>sp_version = 1,
     sp_filesystem = Some \<lparr>fs_include_workdir = True, fs_read_only = [], fs_read_write = [''/'']\<rparr>,
     sp_landlock = None, sp_process = Some \<lparr>pr_run_as_user = ''root'', pr_run_as_group = ''root''\<rparr>,
     sp_network_policies = []\<rparr>"

text \<open>A sandbox created without a policy accepts any policy as its first update: the safety check
  runs only when there is a baseline, so a policy that runs as root with a writable root directory,
  which validation rejects, becomes the latest revision.\<close>

theorem first_policy_not_validated:
  "(case handle_update_config example_x 7 ''new'' (policy_request root_policy) (sandbox_store None) of
      Some (Inr _, s') \<Rightarrow> map_option pl_payload (get_latest_policy ''sb1'' s') = Some (BPolicy root_policy)
    | _ \<Rightarrow> False)
   \<and> validate_policy_safety root_policy \<noteq> Some (Inr ())"
proof -
  have en: "ensure_sandbox_process_identity root_policy = root_policy"
    by (simp add: ensure_sandbox_process_identity_def root_policy_def Let_def)
  have "\<not> safe_policy root_policy" by (simp add: safe_policy_def root_policy_def)
  then have v: "validate_policy_safety root_policy \<noteq> Some (Inr ())"
    by (simp add: validate_policy_safety_ok validate_sandbox_policy_safe)
  show ?thesis using v
    unfolding example_request_runs update_sandbox_policy_def check_or_backfill_baseline_def
    by (simp add: run_simps en sandbox_store_backfill,
        simp add: run_simps get_latest_policy_def put_policy_revision_def supersede_older_policies_def
          sandbox_store_def empty_store_def example_x_def)
qed

section \<open>Gateway policies\<close>

lemma load_settings_objects:
  "st_objects s' = st_objects s \<Longrightarrow> load_settings_record x t i s' = load_settings_record x t i s"
  by (simp add: load_settings_record_def db_get_def)

lemma current_policy_objects:
  assumes "current_policy x now i sb sid s = Some (r, s')"
  shows "st_objects s' = st_objects s"
  using assms
  by (auto simp: current_policy_def backfill_policy_def gbind_Some reading_def fail_def ret_def Let_def
      try_writing_def updating_def put_policy_revision_def update_policy_status_def
      split: option.splits if_splits sum.splits)

lemma decoded_global_policy_set:
  "decode_policy_from_global_settings x g = Inr (Some gp) \<Longrightarrow> map_of (se_settings g) POLICY_SETTING_KEY \<noteq> None"
  by (auto simp: decode_policy_from_global_settings_def split: option.splits)

text \<open>C26: a gateway policy overrides every sandbox: while it is set, each served configuration carries the
  gateway policy, its hash and the gateway as its source, and every policy update of a sandbox is
  refused without touching the store.\<close>

theorem global_policy_overrides:
  assumes "load_global_settings x s = Inr g" "decode_policy_from_global_settings x g = Inr (Some gp)"
  shows "(handle_get_sandbox_config x now i sid s = Some (Inr r, s') \<longrightarrow>
      gc_policy r = Some gp \<and> gc_policy_source r = SourceGlobal
      \<and> gc_policy_hash r = deterministic_policy_hash x gp \<and> gc_version r \<noteq> 0)
    \<and> (\<not> uc_global req \<and> uc_policy req \<noteq> None \<and> handle_update_config x now i req s = Some (res, s'') \<longrightarrow>
      s'' = s \<and> (\<exists>e. res = Inl e))"
proof (rule conjI; rule impI)
  assume h: "handle_get_sandbox_config x now i sid s = Some (Inr r, s')"
  have g: "load_global_settings x s1 = Inr g" if "current_policy x now i sb sid s = Some (c, s1)" for sb c s1
    using load_settings_objects [OF current_policy_objects [OF that], of x] assms(1)
    by (simp add: load_global_settings_def)
  obtain sb c s1 where c: "current_policy x now i sb sid s = Some (Inr c, s1)"
    "serve_config x sid c s1 = Some (Inr r, s')"
    using h by (auto simp: handle_get_sandbox_config_def gbind_ok sandbox_by_id_def reading_def)
  show "gc_policy r = Some gp \<and> gc_policy_source r = SourceGlobal
      \<and> gc_policy_hash r = deterministic_policy_hash x gp \<and> gc_version r \<noteq> 0"
    using c(2) g [OF c(1)] assms(2) by (cases c)
      (auto simp: serve_config_def handler_ok Let_def split: if_splits)
next
  assume h: "\<not> uc_global req \<and> uc_policy req \<noteq> None \<and> handle_update_config x now i req s = Some (res, s'')"
  have "update_sandbox_policy x now i sb p s = Some (Inl (failed_precondition
      ''policy is managed globally; delete global policy before sandbox policy update''), s)" for sb p
    using assms(1) decoded_global_policy_set [OF assms(2)]
    by (auto simp: update_sandbox_policy_def gbind_def reading_def fail_def)
  then show "s'' = s \<and> (\<exists>e. res = Inl e)" using h
    by (auto simp: handle_update_config_def Let_def gbind_Some fail_def sandbox_by_name_def reading_def
        split: if_splits)
qed

definition global_x :: "(unit, unit blob) externals" where
  "global_x = example_x\<lparr>x_hex_dec := \<lambda>_. Some (BPolicy restrictive_default_policy)\<rparr>"

definition global_store :: "unit blob store" where
  "global_store = (sandbox_store (Some wider_policy))\<lparr>st_objects := st_objects (sandbox_store (Some wider_policy)) @
     [\<lparr>ob_type = ''gateway_settings'', ob_id = ''gateway_settings:global'', ob_name = ''global'',
       ob_payload = BSettings \<lparr>se_revision = 1, se_settings = [(''policy'', SBytes ''00'')]\<rparr>,
       ob_created_at_ms = 1, ob_updated_at_ms = 1\<rparr>]\<rparr>"

theorem global_policy_overrides_witness:
  "\<exists>e. handle_update_config global_x 7 ''new'' (policy_request wider_policy) global_store = Some (Inl e, global_store)"
proof -
  have g: "load_global_settings global_x global_store
      = Inr \<lparr>se_revision = 1, se_settings = [(''policy'', SBytes ''00'')]\<rparr>"
    by (simp add: load_global_settings_def load_settings_record_def db_get_def global_store_def
        sandbox_store_def GLOBAL_SETTINGS_OBJECT_TYPE_def GLOBAL_SETTINGS_ID_def global_x_def example_x_def)
  have d: "decode_policy_from_global_settings global_x
      \<lparr>se_revision = 1, se_settings = [(''policy'', SBytes ''00'')]\<rparr> = Inr (Some restrictive_default_policy)"
    by (simp add: decode_policy_from_global_settings_def POLICY_SETTING_KEY_def global_x_def example_x_def)
  have r: "\<not> uc_global (policy_request wider_policy) \<and> uc_policy (policy_request wider_policy) \<noteq> None"
    by (simp add: policy_request_def)
  have "update_sandbox_policy global_x 7 ''new'' sb p global_store \<noteq> None" for sb p
    using g by (simp add: update_sandbox_policy_def gbind_def reading_def fail_def POLICY_SETTING_KEY_def)
  then have "handle_update_config global_x 7 ''new'' (policy_request wider_policy) global_store \<noteq> None"
    by (auto simp: handle_update_config_def policy_request_def Let_def gbind_def sandbox_by_name_def
        reading_def fail_def trim_Nil split: sum.splits)
  then obtain res s' where
    "handle_update_config global_x 7 ''new'' (policy_request wider_policy) global_store = Some (res, s')"
    by (metis not_None_eq surj_pair)
  then show ?thesis using global_policy_overrides [OF g d, where now = 7 and i = "''new''"] r by blast
qed

end
