(* ===== verification/Draft_Policy.thy ===== *)
theory Draft_Policy
  imports Config_Props
begin

text \<open>
  Draft policy recommendations (\<open>crates/openshell-server/src/grpc/policy.rs\<close>): denied connections
  are proposed as draft chunks, and a chunk that is approved is merged into the sandbox policy as a
  new revision. The merge retries when another writer stored the same version first: the writes of
  other tasks between reading the latest revision and storing the next one are the argument
  \<open>others\<close>, one store transformation per attempt.
\<close>

section \<open>Messages\<close>

record policy_chunk =
  pc_id :: string
  pc_status :: string
  pc_rule_name :: string
  pc_proposed_rule :: "network_policy_rule option"
  pc_rationale :: string
  pc_security_notes :: string
  pc_confidence :: rat
  pc_denial_summary_ids :: "string list"
  pc_created_at_ms :: int
  pc_decided_at_ms :: int
  pc_stage :: string
  pc_supersedes_chunk_id :: string
  pc_hit_count :: int
  pc_first_seen_ms :: int
  pc_last_seen_ms :: int
  pc_binary :: string

record submit_response =
  sr_accepted :: u32
  sr_rejected :: u32
  sr_reasons :: "string list"

record approve_all_response =
  ar_policy_version :: u32
  ar_policy_hash :: string
  ar_approved :: u32
  ar_skipped :: u32

definition MERGE_RETRY_LIMIT :: nat where "MERGE_RETRY_LIMIT = 5"

section \<open>Security notes\<close>

definition em_dash :: string where "em_dash = [CHR 0xE2, CHR 0x80, CHR 0x94]"

definition DB_PORTS :: "u16 list" where
  "DB_PORTS = [5432, 3306, 6379, 27017, 9200, 11211, 5672]"

definition generate_security_notes :: "string \<Rightarrow> u16 \<Rightarrow> string" where
  "generate_security_notes host port =
     join '' '' (
       (if starts_with ''10.'' host \<or> starts_with ''172.'' host \<or> starts_with ''192.168.'' host
           \<or> host = ''localhost'' \<or> starts_with ''127.'' host
        then [''Destination '' @ quoted host @ '' appears to be an internal/private address.''] else [])
       @ (if contains ''*'' host
          then [''Host '' @ quoted host @ '' contains a wildcard '' @ em_dash
                @ '' this may match unintended destinations.''] else [])
       @ (if port > 49152
          then [''Port '' @ show_nat (unat port) @ '' is in the ephemeral range '' @ em_dash
                @ '' this may be a temporary service.''] else [])
       @ (if port \<in> set DB_PORTS
          then [''Port '' @ show_nat (unat port) @ '' is a well-known database/service port.''] else []))"

section \<open>Merging a chunk into a policy\<close>

definition chunk_endpoint_match :: "(string \<Rightarrow> string) \<Rightarrow> string \<Rightarrow> u32 \<Rightarrow> network_endpoint \<Rightarrow> bool" where
  "chunk_endpoint_match lc host_lc port ep \<longleftrightarrow> lc (ep_host ep) = host_lc \<and>
     (if ep_ports ep = [] then ep_port ep = port else port \<in> set (ep_ports ep))"

definition find_merge_key ::
  "(string \<Rightarrow> string) \<Rightarrow> network_policy_rule str_map \<Rightarrow> string \<Rightarrow> string \<Rightarrow> u32 \<Rightarrow> string option" where
  "find_merge_key lc nps rule_name host port =
     (if map_of nps rule_name \<noteq> None then Some rule_name
      else map_option fst (find (\<lambda>(_, r). list_ex (chunk_endpoint_match lc (lc host) port) (np_endpoints r)) nps))"

fun merge_binaries :: "network_binary list \<Rightarrow> network_binary list \<Rightarrow> network_binary list" where
  "merge_binaries existing [] = existing"
| "merge_binaries existing (b # bs) =
     merge_binaries (if list_ex (\<lambda>eb. nb_path eb = nb_path b) existing then existing else existing @ [b]) bs"

fun merge_ips :: "string list \<Rightarrow> string list \<Rightarrow> string list" where
  "merge_ips existing [] = existing"
| "merge_ips existing (ip # ips) =
     merge_ips (if ip \<in> set existing then existing else existing @ [ip]) ips"

definition same_endpoint :: "(string \<Rightarrow> string) \<Rightarrow> network_endpoint \<Rightarrow> network_endpoint \<Rightarrow> bool" where
  "same_endpoint lc e ep \<longleftrightarrow> lc (ep_host e) = lc (ep_host ep) \<and>
     (ep_port e = ep_port ep \<or> ep_ports e \<noteq> [] \<and> ep_port ep \<in> set (ep_ports e))"

fun merge_endpoint :: "(string \<Rightarrow> string) \<Rightarrow> network_endpoint list \<Rightarrow> network_endpoint \<Rightarrow> network_endpoint list" where
  "merge_endpoint lc [] ep = [ep]"
| "merge_endpoint lc (e # es) ep =
     (if same_endpoint lc e ep
      then e\<lparr>ep_allowed_ips := merge_ips (ep_allowed_ips e) (ep_allowed_ips ep)\<rparr> # es
      else e # merge_endpoint lc es ep)"

definition merge_rule ::
  "(string \<Rightarrow> string) \<Rightarrow> network_policy_rule \<Rightarrow> network_policy_rule \<Rightarrow> network_policy_rule" where
  "merge_rule lc rule existing = existing\<lparr>
     np_binaries := merge_binaries (np_binaries existing) (np_binaries rule),
     np_endpoints := foldl (merge_endpoint lc) (np_endpoints existing) (np_endpoints rule)\<rparr>"

definition al_modify :: "'k \<Rightarrow> ('v \<Rightarrow> 'v) \<Rightarrow> ('k \<times> 'v) list \<Rightarrow> ('k \<times> 'v) list" where
  "al_modify key f m = map (\<lambda>(k, v). (k, if k = key then f v else v)) m"

definition merge_policy ::
  "(string \<Rightarrow> string) \<Rightarrow> string \<Rightarrow> string \<Rightarrow> u32 \<Rightarrow> network_policy_rule \<Rightarrow> sandbox_policy \<Rightarrow> sandbox_policy" where
  "merge_policy lc rule_name host port rule policy =
     policy\<lparr>sp_network_policies :=
       (case find_merge_key lc (sp_network_policies policy) rule_name host port of
          Some key \<Rightarrow> al_modify key (merge_rule lc rule) (sp_network_policies policy)
        | None \<Rightarrow> al_insert rule_name rule (sp_network_policies policy))\<rparr>"

definition remove_policy :: "string \<Rightarrow> string \<Rightarrow> sandbox_policy \<Rightarrow> sandbox_policy" where
  "remove_policy rule_name binary policy =
     (let retain = (\<lambda>r. r\<lparr>np_binaries := filter (\<lambda>b. nb_path b \<noteq> binary) (np_binaries r)\<rparr>) in
      case map_of (sp_network_policies policy) rule_name of
        None \<Rightarrow> policy
      | Some existing \<Rightarrow> policy\<lparr>sp_network_policies :=
          (if np_binaries (retain existing) = [] then al_remove rule_name (sp_network_policies policy)
           else al_modify rule_name retain (sp_network_policies policy))\<rparr>)"

section \<open>Storing the next revision\<close>

text \<open>What other tasks do to the store, and a statement whose error is inspected.\<close>

definition interfere :: "('b store \<Rightarrow> 'b store) \<Rightarrow> ('b, unit) handler" where
  "interfere f s = Some (Inr (), f s)"

definition catching :: "('b store \<Rightarrow> (db_error, 'b store) result) \<Rightarrow> ('b, db_error option) handler" where
  "catching f s = (case f s of Inl e \<Rightarrow> Some (Inr (Some e), s) | Inr s' \<Rightarrow> Some (Inr None, s'))"

definition version_conflict :: "db_error \<Rightarrow> bool" where
  "version_conflict msg \<longleftrightarrow> contains ''UNIQUE'' msg \<or> contains ''unique'' msg \<or> contains ''duplicate'' msg"

text \<open>
  The retry loop shared by the two functions: \<open>base\<close> reads the policy and version to start from,
  \<open>change\<close> is the modification.
\<close>

fun revision_attempts ::
  "('s, 'b) externals \<Rightarrow> (nat \<Rightarrow> 'b store \<Rightarrow> 'b store) \<Rightarrow> int \<Rightarrow> (nat \<Rightarrow> string) \<Rightarrow> string \<Rightarrow> status \<Rightarrow>
   ('b store \<Rightarrow> (status, sandbox_policy \<times> int) result) \<Rightarrow> (sandbox_policy \<Rightarrow> sandbox_policy) \<Rightarrow>
   nat \<Rightarrow> nat \<Rightarrow> ('b, int \<times> string) handler" where
  "revision_attempts x others now_ms ids sandbox_id gave_up base change attempt 0 = fail gave_up"
| "revision_attempts x others now_ms ids sandbox_id gave_up base change attempt (Suc n) =
     gbind (reading base) (\<lambda>(policy, base_version).
     gbind (interfere (others attempt)) (\<lambda>_.
     let policy' = change policy; hash = deterministic_policy_hash x policy';
         next_version = base_version + 1 in
     gbind (catching (put_policy_revision now_ms (ids attempt) sandbox_id next_version
         (x_policy_enc x policy') hash)) (\<lambda>r. case r of
       None \<Rightarrow> gbind (updating (supersede_older_policies sandbox_id next_version))
         (\<lambda>_. ret (next_version, hash))
     | Some e \<Rightarrow> if version_conflict e
         then revision_attempts x others now_ms ids sandbox_id gave_up base change (Suc attempt) n
         else fail (internal (''persist policy revision failed: '' @ e)))))"

definition merge_base ::
  "('s, 'b) externals \<Rightarrow> string \<Rightarrow> 'b store \<Rightarrow> (status, sandbox_policy \<times> int) result" where
  "merge_base x sandbox_id s = (case get_latest_policy sandbox_id s of
     None \<Rightarrow> Inr (sandbox_policy_default, 0)
   | Some record \<Rightarrow> (case x_policy_dec x (pl_payload record) of
       None \<Rightarrow> Inl (internal ''decode current policy failed'')
     | Some p \<Rightarrow> Inr (p, pl_version record)))"

definition remove_base ::
  "('s, 'b) externals \<Rightarrow> string \<Rightarrow> 'b store \<Rightarrow> (status, sandbox_policy \<times> int) result" where
  "remove_base x sandbox_id s = (case get_latest_policy sandbox_id s of
     None \<Rightarrow> Inl (internal ''no active policy to undo from'')
   | Some record \<Rightarrow> (case x_policy_dec x (pl_payload record) of
       None \<Rightarrow> Inl (internal ''decode current policy failed'')
     | Some p \<Rightarrow> Inr (p, pl_version record)))"

definition merge_chunk_into_policy ::
  "('s, 'b) externals \<Rightarrow> (nat \<Rightarrow> 'b store \<Rightarrow> 'b store) \<Rightarrow> int \<Rightarrow> (nat \<Rightarrow> string) \<Rightarrow> string \<Rightarrow>
   'b draft_chunk_record \<Rightarrow> ('b, int \<times> string) handler" where
  "merge_chunk_into_policy x others now_ms ids sandbox_id chunk =
     (case x_rule_dec x (dc_proposed_rule chunk) of
        None \<Rightarrow> fail (internal ''decode proposed_rule failed'')
      | Some rule \<Rightarrow> revision_attempts x others now_ms ids sandbox_id
          (Status Aborted (''merge_chunk_into_policy: gave up after '' @ show_nat MERGE_RETRY_LIMIT
             @ '' version conflict retries for rule '' @ quoted (dc_rule_name chunk)))
          (merge_base x sandbox_id)
          (merge_policy (x_to_lowercase x) (dc_rule_name chunk) (dc_host chunk) (dc_port chunk) rule)
          1 MERGE_RETRY_LIMIT)"

definition remove_chunk_from_policy ::
  "('s, 'b) externals \<Rightarrow> (nat \<Rightarrow> 'b store \<Rightarrow> 'b store) \<Rightarrow> int \<Rightarrow> (nat \<Rightarrow> string) \<Rightarrow> string \<Rightarrow>
   'b draft_chunk_record \<Rightarrow> ('b, int \<times> string) handler" where
  "remove_chunk_from_policy x others now_ms ids sandbox_id chunk =
     revision_attempts x others now_ms ids sandbox_id
       (Status Aborted (''remove_chunk_from_policy: gave up after '' @ show_nat MERGE_RETRY_LIMIT
          @ '' version conflict retries for rule '' @ quoted (dc_rule_name chunk)))
       (remove_base x sandbox_id) (remove_policy (dc_rule_name chunk) (dc_binary chunk))
       1 MERGE_RETRY_LIMIT"

section \<open>Handlers\<close>

definition require_no_global_policy :: "('s, 'b) externals \<Rightarrow> ('b, unit) handler" where
  "require_no_global_policy x = gbind (reading (load_global_settings x)) (\<lambda>global.
     if map_of (se_settings global) POLICY_SETTING_KEY \<noteq> None
     then fail (failed_precondition ''cannot approve rules while a global policy is active; delete the global policy to manage per-sandbox rules'')
     else ret ())"

definition chunk_by_id :: "string \<Rightarrow> ('b, 'b draft_chunk_record) handler" where
  "chunk_by_id cid = reading (\<lambda>s. case get_draft_chunk cid s of
     None \<Rightarrow> Inl (not_found ''chunk not found'') | Some c \<Rightarrow> Inr c)"

definition set_chunk_status :: "string \<Rightarrow> string \<Rightarrow> int option \<Rightarrow> ('b, unit) handler" where
  "set_chunk_status cid stat decided =
     writing (\<lambda>e. internal (''update chunk status failed: '' @ e))
       (\<lambda>s. and_then (update_draft_chunk_status cid stat decided s) (\<lambda>(_, s'). Inr s'))"

definition status_error :: "string \<Rightarrow> string \<Rightarrow> status" where
  "status_error actual expected =
     failed_precondition (''chunk status is '' @ quoted actual @ '', expected '' @ expected)"

definition chunk_record_of ::
  "('s, 'b) externals \<Rightarrow> int \<Rightarrow> string \<Rightarrow> string \<Rightarrow> int \<Rightarrow> policy_chunk \<Rightarrow> network_policy_rule \<Rightarrow> 'b draft_chunk_record" where
  "chunk_record_of x now_ms chunk_id sandbox_id draft_version chunk rule =
     (let (host, port) = (case np_endpoints rule of [] \<Rightarrow> ([], 0)
            | ep # _ \<Rightarrow> (x_to_lowercase x (ep_host ep), ep_port ep));
          binary = (case np_binaries rule of [] \<Rightarrow> [] | b # _ \<Rightarrow> nb_path b)
      in \<lparr>dc_id = chunk_id, dc_sandbox_id = sandbox_id, dc_draft_version = draft_version,
          dc_status = ''pending'', dc_rule_name = pc_rule_name chunk, dc_proposed_rule = x_rule_enc x rule,
          dc_rationale = pc_rationale chunk,
          dc_security_notes = generate_security_notes host (if port \<le> 65535 then ucast port else 0),
          dc_confidence = max 0 (min 1 (pc_confidence chunk)),
          dc_created_at_ms = now_ms, dc_decided_at_ms = None, dc_host = host, dc_port = port,
          dc_binary = binary, dc_hit_count = max 1 (min 100 (pc_hit_count chunk)),
          dc_first_seen_ms = (if pc_first_seen_ms chunk > 0 then pc_first_seen_ms chunk else now_ms),
          dc_last_seen_ms = (if pc_last_seen_ms chunk > 0 then pc_last_seen_ms chunk else now_ms)\<rparr>)"

fun submit_chunks ::
  "('s, 'b) externals \<Rightarrow> int \<Rightarrow> (nat \<Rightarrow> string) \<Rightarrow> string \<Rightarrow> int \<Rightarrow> nat \<Rightarrow> submit_response \<Rightarrow>
   policy_chunk list \<Rightarrow> ('b, submit_response) handler" where
  "submit_chunks x now_ms ids sandbox_id v n acc [] = ret acc"
| "submit_chunks x now_ms ids sandbox_id v n acc (chunk # chunks) =
     (if pc_rule_name chunk = [] then
        submit_chunks x now_ms ids sandbox_id v (Suc n)
          (acc\<lparr>sr_rejected := sr_rejected acc + 1,
               sr_reasons := sr_reasons acc @ [''chunk missing rule_name'']\<rparr>) chunks
      else case pc_proposed_rule chunk of
        None \<Rightarrow> submit_chunks x now_ms ids sandbox_id v (Suc n)
          (acc\<lparr>sr_rejected := sr_rejected acc + 1,
               sr_reasons := sr_reasons acc @ [''chunk '' @ quoted (pc_rule_name chunk) @ '' missing proposed_rule'']\<rparr>)
          chunks
      | Some rule \<Rightarrow> gbind (writing (\<lambda>e. internal (''persist draft chunk failed: '' @ e))
            (put_draft_chunk (chunk_record_of x now_ms (ids n) sandbox_id v chunk rule)))
          (\<lambda>_. submit_chunks x now_ms ids sandbox_id v (Suc n) (acc\<lparr>sr_accepted := sr_accepted acc + 1\<rparr>) chunks))"

definition handle_submit_policy_analysis ::
  "('s, 'b) externals \<Rightarrow> int \<Rightarrow> (nat \<Rightarrow> string) \<Rightarrow> string \<Rightarrow> policy_chunk list \<Rightarrow> ('b, submit_response) handler" where
  "handle_submit_policy_analysis x now_ms ids nm chunks =
     (if nm = [] then fail (invalid_argument ''name is required'')
      else gbind (sandbox_by_name x nm) (\<lambda>sandbox.
       gbind (reading (\<lambda>s. Inr (get_draft_version (sb_id sandbox) s))) (\<lambda>current_version.
         submit_chunks x now_ms ids (sb_id sandbox) (current_version + 1) 0
           \<lparr>sr_accepted = 0, sr_rejected = 0, sr_reasons = []\<rparr> chunks)))"

definition handle_approve_draft_chunk ::
  "('s, 'b) externals \<Rightarrow> (nat \<Rightarrow> 'b store \<Rightarrow> 'b store) \<Rightarrow> int \<Rightarrow> (nat \<Rightarrow> string) \<Rightarrow> string \<Rightarrow> string \<Rightarrow>
   ('b, u32 \<times> string) handler" where
  "handle_approve_draft_chunk x others now_ms ids nm chunk_id =
     (if nm = [] then fail (invalid_argument ''name is required'')
      else if chunk_id = [] then fail (invalid_argument ''chunk_id is required'')
      else gbind (require_no_global_policy x) (\<lambda>_.
       gbind (sandbox_by_name x nm) (\<lambda>sandbox.
       gbind (chunk_by_id chunk_id) (\<lambda>chunk.
       if dc_status chunk \<noteq> ''pending'' \<and> dc_status chunk \<noteq> ''rejected''
       then fail (status_error (dc_status chunk) (quoted ''pending'' @ '' or '' @ quoted ''rejected''))
       else gbind (merge_chunk_into_policy x others now_ms ids (sb_id sandbox) chunk) (\<lambda>(version, hash).
         gbind (set_chunk_status chunk_id ''approved'' (Some now_ms)) (\<lambda>_.
           ret (u32_of_i64 version, hash)))))))"

definition handle_reject_draft_chunk ::
  "('s, 'b) externals \<Rightarrow> (nat \<Rightarrow> 'b store \<Rightarrow> 'b store) \<Rightarrow> int \<Rightarrow> (nat \<Rightarrow> string) \<Rightarrow> string \<Rightarrow> string \<Rightarrow>
   ('b, unit) handler" where
  "handle_reject_draft_chunk x others now_ms ids nm chunk_id =
     (if nm = [] then fail (invalid_argument ''name is required'')
      else if chunk_id = [] then fail (invalid_argument ''chunk_id is required'')
      else gbind (sandbox_by_name x nm) (\<lambda>sandbox.
       gbind (chunk_by_id chunk_id) (\<lambda>chunk.
       if dc_status chunk \<noteq> ''pending'' \<and> dc_status chunk \<noteq> ''approved''
       then fail (status_error (dc_status chunk) (quoted ''pending'' @ '' or '' @ quoted ''approved''))
       else gbind (if dc_status chunk = ''approved''
           then gbind (require_no_global_policy x) (\<lambda>_.
             gbind (remove_chunk_from_policy x others now_ms ids (sb_id sandbox) chunk) (\<lambda>_. ret ()))
           else ret ()) (\<lambda>_.
         set_chunk_status chunk_id ''rejected'' (Some now_ms)))))"

fun approve_chunks ::
  "('s, 'b) externals \<Rightarrow> (nat \<Rightarrow> nat \<Rightarrow> 'b store \<Rightarrow> 'b store) \<Rightarrow> int \<Rightarrow> (nat \<Rightarrow> nat \<Rightarrow> string) \<Rightarrow> string \<Rightarrow> bool \<Rightarrow>
   nat \<Rightarrow> approve_all_response \<Rightarrow> 'b draft_chunk_record list \<Rightarrow> ('b, approve_all_response) handler" where
  "approve_chunks x others now_ms ids sandbox_id flagged n acc [] = ret acc"
| "approve_chunks x others now_ms ids sandbox_id flagged n acc (chunk # chunks) =
     (if \<not> flagged \<and> dc_security_notes chunk \<noteq> [] then
        approve_chunks x others now_ms ids sandbox_id flagged (Suc n)
          (acc\<lparr>ar_skipped := ar_skipped acc + 1\<rparr>) chunks
      else gbind (merge_chunk_into_policy x (others n) now_ms (ids n) sandbox_id chunk) (\<lambda>(version, hash).
        gbind (set_chunk_status (dc_id chunk) ''approved'' (Some now_ms)) (\<lambda>_.
          approve_chunks x others now_ms ids sandbox_id flagged (Suc n)
            (acc\<lparr>ar_policy_version := u32_of_i64 version, ar_policy_hash := hash,
                 ar_approved := ar_approved acc + 1\<rparr>) chunks)))"

definition handle_approve_all_draft_chunks ::
  "('s, 'b) externals \<Rightarrow> (nat \<Rightarrow> nat \<Rightarrow> 'b store \<Rightarrow> 'b store) \<Rightarrow> int \<Rightarrow> (nat \<Rightarrow> nat \<Rightarrow> string) \<Rightarrow> string \<Rightarrow> bool \<Rightarrow>
   ('b, approve_all_response) handler" where
  "handle_approve_all_draft_chunks x others now_ms ids nm include_security_flagged =
     (if nm = [] then fail (invalid_argument ''name is required'')
      else gbind (require_no_global_policy x) (\<lambda>_.
       gbind (sandbox_by_name x nm) (\<lambda>sandbox.
       gbind (reading (\<lambda>s. Inr (list_draft_chunks (sb_id sandbox) (Some ''pending'') s))) (\<lambda>pending.
       if pending = [] then fail (failed_precondition ''no pending chunks to approve'')
       else approve_chunks x others now_ms ids (sb_id sandbox) include_security_flagged 0
         \<lparr>ar_policy_version = 0, ar_policy_hash = [], ar_approved = 0, ar_skipped = 0\<rparr> pending))))"

definition handle_edit_draft_chunk ::
  "('s, 'b) externals \<Rightarrow> string \<Rightarrow> string \<Rightarrow> network_policy_rule option \<Rightarrow> ('b, unit) handler" where
  "handle_edit_draft_chunk x nm chunk_id proposed_rule =
     (if nm = [] then fail (invalid_argument ''name is required'')
      else if chunk_id = [] then fail (invalid_argument ''chunk_id is required'')
      else case proposed_rule of None \<Rightarrow> fail (invalid_argument ''proposed_rule is required'')
      | Some rule \<Rightarrow> gbind (sandbox_by_name x nm) (\<lambda>_.
          gbind (chunk_by_id chunk_id) (\<lambda>chunk.
          if dc_status chunk \<noteq> ''pending''
          then fail (status_error (dc_status chunk) (quoted ''pending''))
          else gbind (updating (update_draft_chunk_rule chunk_id (x_rule_enc x rule))) (\<lambda>_. ret ()))))"

definition handle_undo_draft_chunk ::
  "('s, 'b) externals \<Rightarrow> (nat \<Rightarrow> 'b store \<Rightarrow> 'b store) \<Rightarrow> int \<Rightarrow> (nat \<Rightarrow> string) \<Rightarrow> string \<Rightarrow> string \<Rightarrow>
   ('b, u32 \<times> string) handler" where
  "handle_undo_draft_chunk x others now_ms ids nm chunk_id =
     (if nm = [] then fail (invalid_argument ''name is required'')
      else if chunk_id = [] then fail (invalid_argument ''chunk_id is required'')
      else gbind (sandbox_by_name x nm) (\<lambda>sandbox.
       gbind (chunk_by_id chunk_id) (\<lambda>chunk.
       if dc_status chunk \<noteq> ''approved''
       then fail (status_error (dc_status chunk) (quoted ''approved''))
       else gbind (remove_chunk_from_policy x others now_ms ids (sb_id sandbox) chunk) (\<lambda>(version, hash).
         gbind (set_chunk_status chunk_id ''pending'' None) (\<lambda>_.
           ret (u32_of_i64 version, hash))))))"

definition handle_clear_draft_chunks :: "('s, 'b) externals \<Rightarrow> string \<Rightarrow> ('b, u32) handler" where
  "handle_clear_draft_chunks x nm =
     (if nm = [] then fail (invalid_argument ''name is required'')
      else gbind (sandbox_by_name x nm) (\<lambda>sandbox.
       gbind (updating (delete_draft_chunks (sb_id sandbox) ''pending'')) (\<lambda>deleted.
         ret (u32_of_i64 (int deleted)))))"

end
