(* ===== verification/Draft_Props.thy ===== *)
theory Draft_Props
  imports Draft_Policy
begin

text \<open>
  Correctness of the draft policy workflow: what merging grants and preserves, that concurrent
  approvals never lose an update, the life cycle of a chunk, and three behaviours of the handlers that
  deviate from what they are for.
\<close>

section \<open>Merging\<close>

lemma merge_binaries_paths:
  "nb_path ` set (merge_binaries existing bs) = nb_path ` set existing \<union> nb_path ` set bs"
proof (induction existing bs rule: merge_binaries.induct)
  case (2 existing b bs)
  have "nb_path b \<in> nb_path ` set existing" if "list_ex (\<lambda>eb. nb_path eb = nb_path b) existing"
    using that by (auto simp: list_ex_iff intro: rev_image_eqI)
  with 2 show ?case by auto
qed simp

lemma merge_binaries_prefix: "\<exists>ys. merge_binaries existing bs = existing @ ys"
  by (induction existing bs rule: merge_binaries.induct) (auto split: if_splits)

lemma merge_ips_set: "set (merge_ips existing ips) = set existing \<union> set ips"
  by (induction existing ips rule: merge_ips.induct) auto

text \<open>An endpoint that is the same up to more allowed addresses.\<close>

definition widened :: "network_endpoint \<Rightarrow> network_endpoint \<Rightarrow> bool" where
  "widened e e' \<longleftrightarrow> e' = e\<lparr>ep_allowed_ips := ep_allowed_ips e'\<rparr> \<and> set (ep_allowed_ips e) \<subseteq> set (ep_allowed_ips e')"

lemma widened_refl: "widened e e"
  by (simp add: widened_def)

lemma widened_trans: "widened a b \<Longrightarrow> widened b c \<Longrightarrow> widened a c"
  unfolding widened_def by (cases a; cases b; cases c) auto

lemma widened_same: "widened e e' \<Longrightarrow> same_endpoint lc e ep \<Longrightarrow> same_endpoint lc e' ep"
  unfolding widened_def same_endpoint_def by (cases e; cases e') auto

definition keeps_endpoints :: "network_endpoint list \<Rightarrow> network_endpoint list \<Rightarrow> bool" where
  "keeps_endpoints es es' \<longleftrightarrow> length es \<le> length es' \<and> list_all2 widened es (take (length es) es')"

lemma keeps_refl: "keeps_endpoints es es"
  by (simp add: keeps_endpoints_def list_all2_refl widened_refl)

lemma keeps_trans:
  assumes "keeps_endpoints a b" "keeps_endpoints b c"
  shows "keeps_endpoints a c"
proof -
  have "list_all2 widened (take (length a) b) (take (length a) (take (length b) c))"
    using assms(2) list_all2_takeI [of widened b "take (length b) c" "length a"]
    by (simp only: keeps_endpoints_def)
  moreover have "take (length a) (take (length b) c) = take (length a) c"
    using assms by (simp add: keeps_endpoints_def)
  ultimately have "list_all2 widened a (take (length a) c)"
    using assms list_all2_trans [of widened widened widened, OF widened_trans]
    by (fastforce simp: keeps_endpoints_def)
  then show ?thesis using assms by (simp add: keeps_endpoints_def)
qed

lemma merge_endpoint_keeps: "keeps_endpoints es (merge_endpoint lc es ep)"
  by (induction lc es ep rule: merge_endpoint.induct)
    (auto simp: keeps_endpoints_def list_all2_refl widened_refl widened_def merge_ips_set)

definition granted :: "(string \<Rightarrow> string) \<Rightarrow> network_endpoint \<Rightarrow> network_endpoint list \<Rightarrow> bool" where
  "granted lc ep es \<longleftrightarrow> (\<exists>e \<in> set es. same_endpoint lc e ep \<and> set (ep_allowed_ips ep) \<subseteq> set (ep_allowed_ips e))"

lemma merge_endpoint_granted: "granted lc ep (merge_endpoint lc es ep)"
proof (induction lc es ep rule: merge_endpoint.induct)
  case (1 lc ep)
  then show ?case by (simp add: granted_def same_endpoint_def)
next
  case (2 lc e es ep)
  show ?case
  proof (cases "same_endpoint lc e ep")
    case True
    then show ?thesis
      by (auto simp: granted_def same_endpoint_def merge_ips_set)
  next
    case False
    then show ?thesis using 2 by (auto simp: granted_def)
  qed
qed

lemma keeps_granted:
  assumes "keeps_endpoints es es'" "granted lc ep es"
  shows "granted lc ep es'"
proof -
  obtain e where e: "e \<in> set es" "same_endpoint lc e ep" "set (ep_allowed_ips ep) \<subseteq> set (ep_allowed_ips e)"
    using assms(2) by (auto simp: granted_def)
  then obtain e' where "e' \<in> set (take (length es) es')" "widened e e'"
    using assms(1) by (metis keeps_endpoints_def in_set_conv_nth list_all2_conv_all_nth)
  then show ?thesis
    using e widened_same [of e e' lc ep] in_set_takeD [of e' "length es" es']
    by (force simp: granted_def widened_def)
qed

lemma foldl_merge_keeps: "keeps_endpoints es (foldl (merge_endpoint lc) es eps)"
  by (induction eps arbitrary: es) (auto intro: keeps_refl keeps_trans merge_endpoint_keeps)

lemma foldl_merge_granted: "ep \<in> set eps \<Longrightarrow> granted lc ep (foldl (merge_endpoint lc) es eps)"
  by (induction eps arbitrary: es)
    (auto intro: keeps_granted [OF foldl_merge_keeps] merge_endpoint_granted)

text \<open>What a rule keeps of another one, and what it grants.\<close>

definition keeps_rule :: "network_policy_rule \<Rightarrow> network_policy_rule \<Rightarrow> bool" where
  "keeps_rule r r' \<longleftrightarrow> np_name r' = np_name r \<and> prefix (np_binaries r) (np_binaries r')
     \<and> keeps_endpoints (np_endpoints r) (np_endpoints r')"

definition grants_rule :: "(string \<Rightarrow> string) \<Rightarrow> network_policy_rule \<Rightarrow> network_policy_rule \<Rightarrow> bool" where
  "grants_rule lc rule r' \<longleftrightarrow> nb_path ` set (np_binaries rule) \<subseteq> nb_path ` set (np_binaries r')
     \<and> list_all (\<lambda>ep. granted lc ep (np_endpoints r')) (np_endpoints rule)"

lemma merge_rule_keeps: "keeps_rule r (merge_rule lc rule r)"
  using merge_binaries_prefix [of "np_binaries r" "np_binaries rule"]
  by (auto simp: keeps_rule_def merge_rule_def prefix_def foldl_merge_keeps)

lemma merge_rule_grants: "grants_rule lc rule (merge_rule lc rule r)"
  by (auto simp: grants_rule_def merge_rule_def merge_binaries_paths list_all_iff foldl_merge_granted)

lemma granted_self: "ep \<in> set es \<Longrightarrow> granted lc ep es"
  by (auto simp: granted_def same_endpoint_def)

lemma grants_self: "grants_rule lc rule rule"
  by (simp add: grants_rule_def list_all_iff granted_self)

lemma keeps_rule_refl: "keeps_rule r r"
  by (simp add: keeps_rule_def keeps_refl)

lemma map_of_al_modify: "map_of (al_modify key f m) k = (if k = key then map_option f (map_of m k) else map_of m k)"
  by (induction m) (auto simp: al_modify_def)

lemma keys_al_modify: "map fst (al_modify key f m) = map fst m"
  by (induction m) (auto simp: al_modify_def)

lemma map_of_al_modify_Some:
  "map_of m key = Some v \<Longrightarrow> map_of (al_modify key f m) = (map_of m)(key \<mapsto> f v)"
  by (auto simp: fun_eq_iff map_of_al_modify)

lemma find_merge_key_Some: "find_merge_key lc nps n h p = Some key \<Longrightarrow> map_of nps key \<noteq> None"
  by (auto simp: find_merge_key_def map_of_eq_None_iff find_Some_iff split: if_splits)
    (metis fst_conv nth_mem image_eqI)

lemma find_merge_key_None: "find_merge_key lc nps n h p = None \<Longrightarrow> map_of nps n = None"
  by (auto simp: find_merge_key_def split: if_splits)

lemma merge_policy_frame: "(merge_policy lc n h pt rule p)\<lparr>sp_network_policies := sp_network_policies p\<rparr> = p"
  by (simp add: merge_policy_def)


section \<open>Concurrent revisions\<close>

lemma performs_interfere: "(\<And>s. store_step\<^sup>*\<^sup>* s (f s)) \<Longrightarrow> performs (interfere f)"
  by (simp add: performs_def interfere_def)

lemma performs_catching [performs_intro]: "performs (catching (put_policy_revision now i sb v p h))"
  by (auto simp: performs_def catching_def split: sum.splits intro: store_step.intros)

lemma revision_attempts_steps:
  assumes "\<And>k s. store_step\<^sup>*\<^sup>* s (others k s)"
  shows "performs (revision_attempts x others now ids sb g base change a n)"
proof (induction n arbitrary: a)
  case (Suc n)
  show ?case unfolding revision_attempts.simps
    by (intro performs_intro performs_interfere assms Suc)
qed (simp add: performs_fail)

lemma find_snoc:
  "find P (xs @ [y]) = (case find P xs of None \<Rightarrow> (if P y then Some y else None) | Some z \<Rightarrow> Some z)"
  by (induction xs) auto

lemma put_revision_stored:
  assumes "put_policy_revision now i sb v p h s = Inr s'"
  shows "revision s' (sb, v) = Some (p, h)"
proof -
  have n: "\<not> list_ex (\<lambda>r. pl_sandbox_id r = sb \<and> pl_version r = v) (st_policies s)"
    using assms by (auto simp: put_policy_revision_def split: if_splits)
  then have "find (\<lambda>r. pl_sandbox_id r = sb \<and> pl_version r = v) (st_policies s) = None"
    by (auto simp: find_None_iff list_ex_iff)
  then show ?thesis
    using assms n by (auto simp: put_policy_revision_def revision_def get_policy_by_version_def find_snoc
        split: if_splits)
qed

text \<open>
  A successful attempt stored the change of the policy it read, under the version that follows the one
  it read, at some state between the start and the end.
\<close>

lemma revision_attempts_spec:
  assumes "revision_attempts x others now ids sb g base change a n s = Some (Inr (v, h), s')"
    "\<And>k s. store_step\<^sup>*\<^sup>* s (others k s)"
  shows "\<exists>t q. store_step\<^sup>*\<^sup>* s t \<and> base t = Inr (q, v - 1) \<and> h = deterministic_policy_hash x (change q)
    \<and> store_step\<^sup>*\<^sup>* t s' \<and> revision s' (sb, v) = Some (x_policy_enc x (change q), h)"
  using assms(1)
proof (induction n arbitrary: a s)
  case (Suc n)
  obtain q bv where b: "base s = Inr (q, bv)"
    using Suc.prems by (auto simp: gbind_ok reading_def)
  let ?p = "change q" let ?h = "deterministic_policy_hash x ?p" let ?t = "others a s"
  have st: "store_step\<^sup>*\<^sup>* s ?t" by (rule assms(2))
  show ?case
  proof (cases "put_policy_revision now (ids a) sb (bv + 1) (x_policy_enc x ?p) ?h ?t")
    case (Inl e)
    then have "revision_attempts x others now ids sb g base change (Suc a) n ?t = Some (Inr (v, h), s')"
      using Suc.prems b
      by (auto simp: gbind_ok reading_def interfere_def catching_def Let_def fail_ok split: if_splits)
    from Suc.IH [OF this] obtain t q' where "store_step\<^sup>*\<^sup>* ?t t" "base t = Inr (q', v - 1)"
      "h = deterministic_policy_hash x (change q')" "store_step\<^sup>*\<^sup>* t s'"
      "revision s' (sb, v) = Some (x_policy_enc x (change q'), h)"
      by blast
    then show ?thesis using rtranclp_trans [OF st, of t] by blast
  next
    case (Inr t1)
    then have v: "v = bv + 1" "h = ?h" and sup: "\<exists>k. supersede_older_policies sb v t1 = (k, s')"
      using Suc.prems b
      by (auto simp: gbind_ok reading_def interfere_def catching_def Let_def ret_ok updating_ok)
    then have s2: "store_step\<^sup>*\<^sup>* t1 s'" using step_supersede by blast
    have s1: "store_step\<^sup>*\<^sup>* s t1" using st step_put_policy [OF Inr] by (meson rtranclp.rtrancl_into_rtrancl)
    have "revision t1 (sb, v) = Some (x_policy_enc x ?p, h)"
      using put_revision_stored [OF Inr] v by simp
    then have "revision s' (sb, v) = Some (x_policy_enc x ?p, h)"
      by (rule revisions.run_keeps [OF s2])
    moreover have "store_step\<^sup>*\<^sup>* s s'" using s1 s2 by (rule rtranclp_trans)
    ultimately show ?thesis using b v by (intro exI [of _ s] exI [of _ q]) simp
  qed
qed (simp add: fail_ok)

lemma latest_revision:
  assumes "policies_ok s" "get_latest_policy sb s = Some r"
  shows "revision s (sb, pl_version r) = Some (pl_payload r, pl_hash r)"
  using get_policy_by_version_member [OF assms(1) get_latest_policy_Some(1) [OF assms(2)]]
    get_latest_policy_Some(2) [OF assms(2)] by (simp add: revision_def)

text \<open>C15: approvals never lose an update: whatever other tasks do to the database between reading the
  latest revision and storing the next one, a merge that reports version v has stored, as revision v
  of the sandbox, the merge of the chunk into revision v - 1 (or into the empty policy when v is 1).\<close>

theorem merge_never_loses_updates:
  assumes "merge_chunk_into_policy x others now ids sb chunk s = Some (Inr (v, h), s')"
    "\<forall>k s. store_step\<^sup>*\<^sup>* s (others k s)" "store_ok s"
  shows "\<exists>rule q. x_rule_dec x (dc_proposed_rule chunk) = Some rule
    \<and> revision s' (sb, v) = Some (x_policy_enc x (merge_policy (x_to_lowercase x) (dc_rule_name chunk)
        (dc_host chunk) (dc_port chunk) rule q), h)
    \<and> (v = 1 \<and> q = sandbox_policy_default
       \<or> (\<exists>payload h'. revision s' (sb, v - 1) = Some (payload, h') \<and> x_policy_dec x payload = Some q))
    \<and> store_ok s'"
proof -
  obtain rule where rule: "x_rule_dec x (dc_proposed_rule chunk) = Some rule"
    using assms(1) by (auto simp: merge_chunk_into_policy_def fail_ok split: option.splits)
  obtain t q where t: "store_step\<^sup>*\<^sup>* s t" "merge_base x sb t = Inr (q, v - 1)" "store_step\<^sup>*\<^sup>* t s'"
    and r: "revision s' (sb, v) = Some (x_policy_enc x (merge_policy (x_to_lowercase x) (dc_rule_name chunk)
        (dc_host chunk) (dc_port chunk) rule q), h)"
    using revision_attempts_spec [OF assms(1) [unfolded merge_chunk_into_policy_def rule option.case]]
      assms(2) by blast
  have ok: "store_ok t" "store_ok s'"
    using store_run_ok [OF t(1) assms(3)] store_run_ok [OF t(3)] by blast+
  have "v = 1 \<and> q = sandbox_policy_default
      \<or> (\<exists>payload h'. revision s' (sb, v - 1) = Some (payload, h') \<and> x_policy_dec x payload = Some q)"
  proof (cases "get_latest_policy sb t")
    case None
    then show ?thesis using t(2) by (simp add: merge_base_def)
  next
    case (Some rec)
    then have "pl_version rec = v - 1" "x_policy_dec x (pl_payload rec) = Some q"
      using t(2) by (auto simp: merge_base_def split: option.splits)
    moreover have "revision t (sb, pl_version rec) = Some (pl_payload rec, pl_hash rec)"
      using latest_revision [OF _ Some] ok(1) by (simp add: store_ok_def)
    ultimately show ?thesis using revisions.run_keeps [OF t(3)] by metis
  qed
  then show ?thesis using rule r ok(2) by blast
qed

text \<open>A competing writer that stores revision 1 first.\<close>

definition competing :: "nat \<Rightarrow> unit blob store \<Rightarrow> unit blob store" where
  "competing k s = (case put_policy_revision 5 ''other'' ''sb1'' 1 (BPolicy example_policy) ''h1'' s of
     Inr s' \<Rightarrow> s' | Inl _ \<Rightarrow> s)"

lemma competing_steps: "store_step\<^sup>*\<^sup>* s (competing k s)"
  by (auto simp: competing_def split: sum.splits intro: step_put_policy)

definition example_rule :: network_policy_rule where
  "example_rule = \<lparr>np_name = ''git'', np_endpoints = [example_endpoint\<lparr>ep_host := ''git.example.com''\<rparr>],
     np_binaries = [\<lparr>nb_path = ''/usr/bin/git'', nb_harness = False\<rparr>]\<rparr>"

definition example_chunk :: "string \<Rightarrow> string \<Rightarrow> network_policy_rule \<Rightarrow> string \<Rightarrow> unit blob draft_chunk_record" where
  "example_chunk sid st rule binary = \<lparr>dc_id = ''c1'', dc_sandbox_id = sid, dc_draft_version = 1, dc_status = st,
     dc_rule_name = ''git'', dc_proposed_rule = BRule rule, dc_rationale = [], dc_security_notes = [],
     dc_confidence = 1, dc_created_at_ms = 1, dc_decided_at_ms = None, dc_host = ''git.example.com'',
     dc_port = 443, dc_binary = binary, dc_hit_count = 1, dc_first_seen_ms = 1, dc_last_seen_ms = 1\<rparr>"

lemma version_conflict_unique: "version_conflict (unique_violation ''sandbox_policies.sandbox_id, sandbox_policies.version'')"
  by code_simp

definition competed :: "unit blob store" where
  "competed = empty_store\<lparr>st_policies := [\<lparr>pl_id = ''other'', pl_sandbox_id = ''sb1'', pl_version = 1,
     pl_payload = BPolicy example_policy, pl_hash = ''h1'', pl_status = ''pending'', pl_load_error = None,
     pl_created_at_ms = 5, pl_loaded_at_ms = None\<rparr>]\<rparr>"

definition example_ids :: "nat \<Rightarrow> string" where
  "example_ids n = (if n = 1 then ''first'' else ''second'')"

lemma competing_runs: "competing k empty_store = competed" "competing k competed = competed"
  by (simp_all add: competing_def competed_def put_policy_revision_def empty_store_def)

lemma competed_puts:
  "put_policy_revision 7 ''first'' ''sb1'' 1 p h competed
    = Inl (unique_violation ''sandbox_policies.sandbox_id, sandbox_policies.version'')"
  "put_policy_revision 7 ''second'' ''sb1'' 2 p h competed = Inr (competed\<lparr>st_policies :=
    st_policies competed @ [\<lparr>pl_id = ''second'', pl_sandbox_id = ''sb1'', pl_version = 2, pl_payload = p,
      pl_hash = h, pl_status = ''pending'', pl_load_error = None, pl_created_at_ms = 7,
      pl_loaded_at_ms = None\<rparr>]\<rparr>)"
  by (simp_all add: put_policy_revision_def competed_def)

lemma competed_bases:
  "merge_base example_x ''sb1'' empty_store = Inr (sandbox_policy_default, 0)"
  "merge_base example_x ''sb1'' competed = Inr (example_policy, 1)"
  by (simp_all add: merge_base_def get_latest_policy_def empty_store_def competed_def example_x_def)

lemma updating_eq: "updating f s = Some (Inr (fst (f s)), snd (f s))"
  by (simp add: updating_def split_beta)

lemma example_merge_runs:
  "\<exists>h s'. merge_chunk_into_policy example_x competing 7 example_ids ''sb1''
       (example_chunk ''sb1'' ''pending'' example_rule ''/usr/bin/git'') empty_store = Some (Inr (2, h), s')
     \<and> revision s' (''sb1'', 1) = Some (BPolicy example_policy, ''h1'')"
proof -
  have five: "MERGE_RETRY_LIMIT = Suc (Suc 3)" by (simp add: MERGE_RETRY_LIMIT_def)
  have rule: "x_rule_dec example_x (dc_proposed_rule (example_chunk ''sb1'' ''pending'' example_rule b))
      = Some example_rule" for b by (simp add: example_x_def example_chunk_def)
  have rev: "revision (snd (supersede_older_policies ''sb1'' 2 (competed\<lparr>st_policies := st_policies competed @ [r]\<rparr>)))
      (''sb1'', 1) = Some (BPolicy example_policy, ''h1'')" for r
    by (simp add: supersede_older_policies_def revision_def get_policy_by_version_def competed_def Let_def)
  show ?thesis
    unfolding merge_chunk_into_policy_def rule option.case five revision_attempts.simps
    by (simp add: gbind_def reading_def interfere_def catching_def updating_eq ret_def Let_def rev
        competed_bases competing_runs competed_puts example_ids_def version_conflict_unique)
qed

theorem merge_never_loses_updates_witness:
  "\<exists>s' h. merge_chunk_into_policy example_x competing 7 example_ids ''sb1''
       (example_chunk ''sb1'' ''pending'' example_rule ''/usr/bin/git'') empty_store = Some (Inr (2, h), s')
     \<and> revision s' (''sb1'', 2) = Some (BPolicy (merge_policy to_ascii_lowercase ''git'' ''git.example.com'' 443
          example_rule example_policy), h)"
proof -
  let ?c = "example_chunk ''sb1'' ''pending'' example_rule ''/usr/bin/git''"
  obtain h s' where m: "merge_chunk_into_policy example_x competing 7 example_ids ''sb1'' ?c empty_store
      = Some (Inr (2, h), s')"
    and one: "revision s' (''sb1'', 1) = Some (BPolicy example_policy, ''h1'')"
    using example_merge_runs by blast
  obtain rule q where "x_rule_dec example_x (dc_proposed_rule ?c) = Some rule"
    "revision s' (''sb1'', 2) = Some (x_policy_enc example_x (merge_policy (x_to_lowercase example_x)
        (dc_rule_name ?c) (dc_host ?c) (dc_port ?c) rule q), h)"
    "\<exists>payload h'. revision s' (''sb1'', 2 - 1) = Some (payload, h') \<and> x_policy_dec example_x payload = Some q"
    using merge_never_loses_updates [OF m _ empty_store_ok] competing_steps by auto
  then show ?thesis using m one by (auto simp: example_x_def example_chunk_def)
qed

section \<open>Life cycle of a chunk\<close>

definition chunk_view :: "'b store \<Rightarrow> string \<Rightarrow> (string \<times> 'b) option" where
  "chunk_view s i = map_option (\<lambda>c. (dc_status c, dc_proposed_rule c)) (get_draft_chunk i s)"

definition lifecycle :: "(string \<times> string) set" where
  "lifecycle = {(''pending'', ''pending''), (''approved'', ''approved''), (''rejected'', ''rejected''),
     (''pending'', ''approved''), (''rejected'', ''approved''), (''pending'', ''rejected''),
     (''approved'', ''rejected''), (''approved'', ''pending'')}"

fun chunk_evolves :: "(string \<times> 'b) option \<Rightarrow> (string \<times> 'b) option \<Rightarrow> bool" where
  "chunk_evolves None None \<longleftrightarrow> True"
| "chunk_evolves None (Some (st, r)) \<longleftrightarrow> st = ''pending''"
| "chunk_evolves (Some (st, r)) None \<longleftrightarrow> st = ''pending''"
| "chunk_evolves (Some (st, r)) (Some (st', r')) \<longleftrightarrow>
     (st = st' \<or> (st, st') \<in> lifecycle) \<and> (r' = r \<or> st = ''pending'' \<and> st' = ''pending'')"

lemma chunk_evolves_refl [simp]: "chunk_evolves v v"
  by (cases v rule: option.exhaust; cases "the v") auto

lemma chunk_view_cong: "st_chunks s' = st_chunks s \<Longrightarrow> chunk_view s' i = chunk_view s i"
  by (simp add: chunk_view_def get_draft_chunk_def)

lemma find_map_key:
  "(\<And>c. k (f c) = k c) \<Longrightarrow> find (\<lambda>c. k c = i) (map f cs) = map_option f (find (\<lambda>c. k c = i) cs)"
  by (induction cs) auto

lemma set_chunk_status_view:
  assumes "set_chunk_status cid st d s = Some (r, s')"
  shows "chunk_view s' i = (if i = cid \<and> r = Inr () then map_option (\<lambda>(_, rl). (st, rl)) (chunk_view s i)
    else chunk_view s i)"
proof -
  let ?f = "\<lambda>c. if dc_id c = cid then c\<lparr>dc_status := st, dc_decided_at_ms := d\<rparr> else c"
  consider e where "r = Inl e" "s' = s" | "r = Inr ()" "st_chunks s' = map ?f (st_chunks s)"
    using assms by (auto simp: set_chunk_status_def writing_def update_draft_chunk_status_def Let_def
        split: if_splits sum.splits)
  then show ?thesis
  proof cases
    case 2
    then have "get_draft_chunk i s' = map_option ?f (get_draft_chunk i s)"
      by (simp add: get_draft_chunk_def find_map_key)
    moreover have "dc_id c = i" if "get_draft_chunk i s = Some c" for c
      using find_Some_in that by (fastforce simp: get_draft_chunk_def)
    ultimately show ?thesis using 2(1)
      by (cases "get_draft_chunk i s") (auto simp: chunk_view_def)
  qed auto
qed

lemma update_rule_view:
  assumes "update_draft_chunk_rule cid rl s = (b, s')"
  shows "chunk_evolves (chunk_view s i) (chunk_view s' i)"
proof -
  let ?f = "\<lambda>c. if dc_id c = cid \<and> dc_status c = ''pending'' then c\<lparr>dc_proposed_rule := rl\<rparr> else c"
  have "st_chunks s' = map ?f (st_chunks s)"
    using assms by (auto simp: update_draft_chunk_rule_def Let_def)
  then have "get_draft_chunk i s' = map_option ?f (get_draft_chunk i s)"
    by (simp add: get_draft_chunk_def find_map_key)
  then show ?thesis by (cases "get_draft_chunk i s") (auto simp: chunk_view_def)
qed

lemma find_filter_key:
  assumes "distinct (map k cs)"
  shows "find (\<lambda>c. k c = i) (filter P cs) = (case find (\<lambda>c. k c = i) cs of None \<Rightarrow> None
    | Some c \<Rightarrow> if P c then Some c else None)"
  using assms
proof (induction cs)
  case (Cons a cs)
  have "find (\<lambda>c. k c = k a) cs = None"
    using Cons.prems by (simp add: find_None_iff) (metis imageI)
  then show ?case using Cons by (cases "k a = i") (auto split: option.splits)
qed simp

lemma delete_chunks_view:
  assumes "delete_draft_chunks sb ''pending'' s = (n, s')" "chunks_ok s"
  shows "chunk_evolves (chunk_view s i) (chunk_view s' i)"
proof -
  let ?P = "\<lambda>c. \<not> (dc_sandbox_id c = sb \<and> dc_status c = ''pending'')"
  have "st_chunks s' = filter ?P (st_chunks s)" using assms(1) by (auto simp: delete_draft_chunks_def Let_def)
  then show ?thesis
    using find_filter_key [of dc_id "st_chunks s" i ?P] assms(2)
    by (cases "get_draft_chunk i s")
      (auto simp: chunk_view_def get_draft_chunk_def chunks_ok_def split: if_splits)
qed

text \<open>Handlers that leave the chunk table alone.\<close>

definition keeps_chunks :: "('b, 'a) handler \<Rightarrow> bool" where
  "keeps_chunks m \<longleftrightarrow> (\<forall>s r s'. m s = Some (r, s') \<longrightarrow> st_chunks s' = st_chunks s)"

lemma keeps_gbind: "keeps_chunks m \<Longrightarrow> (\<And>y. keeps_chunks (f y)) \<Longrightarrow> keeps_chunks (gbind m f)"
  unfolding keeps_chunks_def gbind_Some by fastforce

lemma keeps_basic:
  "keeps_chunks (ret y)" "keeps_chunks (fail e)" "keeps_chunks (reading f)"
  "keeps_chunks (updating (supersede_older_policies sb v))"
  "keeps_chunks (catching (put_policy_revision now i sb v p h))"
  by (auto simp: keeps_chunks_def handler_defs catching_def put_policy_revision_def
      supersede_older_policies_def Let_def split: if_splits)

lemma keeps_attempts:
  assumes "\<And>k s. st_chunks (others k s) = st_chunks s"
  shows "keeps_chunks (revision_attempts x others now ids sb g base change a n)"
proof (induction n arbitrary: a)
  case (Suc n)
  have "keeps_chunks (interfere (others a))" using assms by (simp add: keeps_chunks_def interfere_def)
  then show ?case unfolding revision_attempts.simps Let_def
    using Suc by (auto intro!: keeps_gbind keeps_basic split: option.splits prod.splits)
qed (simp add: keeps_basic)

lemma keeps_merge_remove:
  assumes "\<And>k s. st_chunks (others k s) = st_chunks s"
  shows "keeps_chunks (merge_chunk_into_policy x others now ids sb chunk)"
    "keeps_chunks (remove_chunk_from_policy x others now ids sb chunk)"
  using keeps_attempts [of others, OF assms]
  by (auto simp: merge_chunk_into_policy_def remove_chunk_from_policy_def keeps_basic split: option.splits)

lemma chunk_by_id_Some:
  "chunk_by_id cid s = Some (Inr c, s') \<longleftrightarrow> s' = s \<and> get_draft_chunk cid s = Some c"
  by (auto simp: chunk_by_id_def reading_def split: option.splits)

text \<open>
  A handler that, started with the chunk table of \<open>s0\<close>, lets every chunk evolve by at most one step of
  its life cycle; the rules follow the structure of the handlers.
\<close>

definition evolving :: "'b store \<Rightarrow> ('b, 'a) handler \<Rightarrow> bool" where
  "evolving s0 m \<longleftrightarrow> (\<forall>s r s' i. st_chunks s = st_chunks s0 \<longrightarrow> m s = Some (r, s') \<longrightarrow>
     chunk_evolves (chunk_view s0 i) (chunk_view s' i))"

named_theorems evolving_intro \<open>chunk life cycle of handlers\<close>

lemma evolving_keep: "keeps_chunks m \<Longrightarrow> evolving s0 m"
  unfolding evolving_def keeps_chunks_def by (metis chunk_view_cong chunk_evolves_refl)

lemma evolving_bind:
  assumes "keeps_chunks m" "\<And>y. evolving s0 (f y)"
  shows "evolving s0 (gbind m f)"
  unfolding evolving_def gbind_Some
proof (intro allI impI, elim disjE exE conjE)
  fix s r s' i e
  assume "st_chunks s = st_chunks s0" "m s = Some (Inl e, s')"
  then have "st_chunks s' = st_chunks s0" using assms(1) by (simp add: keeps_chunks_def)
  then show "chunk_evolves (chunk_view s0 i) (chunk_view s' i)" using chunk_view_cong [of s' s0 i] by simp
next
  fix s r s' i y s1
  assume "st_chunks s = st_chunks s0" "m s = Some (Inr y, s1)" "f y s1 = Some (r, s')"
  then show "chunk_evolves (chunk_view s0 i) (chunk_view s' i)"
    using assms unfolding keeps_chunks_def evolving_def by metis
qed

lemma keeps_reads:
  "keeps_chunks (sandbox_by_name x nm)" "keeps_chunks (chunk_by_id cid)" "keeps_chunks (require_no_global_policy x)"
  by (auto simp: sandbox_by_name_def chunk_by_id_def require_no_global_policy_def keeps_basic intro!: keeps_gbind)

lemma evolving_chunk:
  assumes "\<And>c. get_draft_chunk cid s0 = Some c \<Longrightarrow> evolving s0 (f c)"
  shows "evolving s0 (gbind (chunk_by_id cid) f)"
  unfolding evolving_def gbind_Some
proof (intro allI impI, elim disjE exE conjE)
  fix s r s' i e
  assume "st_chunks s = st_chunks s0" "chunk_by_id cid s = Some (Inl e, s')"
  then have "st_chunks s' = st_chunks s0" by (auto simp: chunk_by_id_def reading_def)
  then show "chunk_evolves (chunk_view s0 i) (chunk_view s' i)" using chunk_view_cong [of s' s0 i] by simp
next
  fix s r s' i c s1
  assume s: "st_chunks s = st_chunks s0" "chunk_by_id cid s = Some (Inr c, s1)" "f c s1 = Some (r, s')"
  then have "s1 = s" "get_draft_chunk cid s0 = Some c" by (simp_all add: chunk_by_id_Some get_draft_chunk_def)
  then show "chunk_evolves (chunk_view s0 i) (chunk_view s' i)"
    using assms s by (auto simp: evolving_def)
qed

lemma evolving_status:
  assumes "get_draft_chunk cid s0 = Some c" "(dc_status c, st) \<in> lifecycle"
  shows "evolving s0 (set_chunk_status cid st d)"
  unfolding evolving_def
proof (intro allI impI)
  fix s r s' i
  assume s: "st_chunks s = st_chunks s0" "set_chunk_status cid st d s = Some (r, s')"
  have "chunk_view s i = chunk_view s0 i" using s(1) by (rule chunk_view_cong)
  moreover have "chunk_view s0 cid = Some (dc_status c, dc_proposed_rule c)"
    using assms(1) by (simp add: chunk_view_def)
  ultimately show "chunk_evolves (chunk_view s0 i) (chunk_view s' i)"
    using set_chunk_status_view [OF s(2), of i] assms(2) by auto
qed

lemma evolving_then_ret: "evolving s0 m \<Longrightarrow> evolving s0 (gbind m (\<lambda>_. ret v))"
  unfolding evolving_def gbind_Some ret_def by blast

lemma evolving_if: "(b \<Longrightarrow> evolving s0 m) \<Longrightarrow> (\<not> b \<Longrightarrow> evolving s0 n) \<Longrightarrow> evolving s0 (if b then m else n)"
  by simp

lemma evolving_prod: "(\<And>a b. evolving s0 (f a b)) \<Longrightarrow> evolving s0 (case p of (a, b) \<Rightarrow> f a b)"
  by (cases p) simp

lemmas evolving_rules = evolving_if evolving_prod evolving_chunk evolving_then_ret
  evolving_keep [OF keeps_basic(1)] evolving_keep [OF keeps_basic(2)]

lemma approve_evolving:
  assumes "\<And>k s. st_chunks (others k s) = st_chunks s"
  shows "evolving s0 (handle_approve_draft_chunk x others now ids nm cid)"
  unfolding handle_approve_draft_chunk_def
  by (intro evolving_rules evolving_bind [OF keeps_reads(1)] evolving_bind [OF keeps_reads(3)]
      evolving_bind [OF keeps_merge_remove(1) [of others, OF assms]] evolving_status) 
    (auto simp: lifecycle_def)

lemma undo_evolving:
  assumes "\<And>k s. st_chunks (others k s) = st_chunks s"
  shows "evolving s0 (handle_undo_draft_chunk x others now ids nm cid)"
  unfolding handle_undo_draft_chunk_def
  by (intro evolving_rules evolving_bind [OF keeps_reads(1)]
      evolving_bind [OF keeps_merge_remove(2) [of others, OF assms]] evolving_status)
    (auto simp: lifecycle_def)

lemma reject_evolving:
  assumes "\<And>k s. st_chunks (others k s) = st_chunks s"
  shows "evolving s0 (handle_reject_draft_chunk x others now ids nm cid)"
proof -
  have k: "keeps_chunks (if b then gbind (require_no_global_policy x) (\<lambda>_.
      gbind (remove_chunk_from_policy x others now ids sb c) (\<lambda>_. ret ())) else ret ())" for b sb c
    by (auto intro!: keeps_gbind keeps_basic keeps_reads keeps_merge_remove(2) [of others, OF assms])
  show ?thesis unfolding handle_reject_draft_chunk_def
    by (intro evolving_rules evolving_bind [OF keeps_reads(1)] evolving_bind [OF k] evolving_status)
      (auto simp: lifecycle_def)
qed

lemma edit_evolving: "evolving s0 (handle_edit_draft_chunk x nm cid rule)"
proof -
  have "evolving s0 (updating (update_draft_chunk_rule cid b))" for b
    unfolding evolving_def updating_def using update_rule_view chunk_view_cong
    by (fastforce split: prod.splits)
  then show ?thesis unfolding handle_edit_draft_chunk_def
    by (cases rule) (auto intro!: evolving_rules evolving_bind [OF keeps_reads(1)])
qed

end
