(* ===== verification/Gateway_Machine.thy ===== *)
theory Gateway_Machine
  imports Draft_Props
begin

text \<open>
  The draft workflow as a state machine: the steps are runs of the draft handlers, with the other tasks
  of the gateway working on policies and objects in between. The life cycle of a chunk is an invariant
  of its runs, and the keys of the tables are kept.
\<close>

section \<open>Handlers perform statements of the store\<close>

definition quiet :: "(nat \<Rightarrow> 'b store \<Rightarrow> 'b store) \<Rightarrow> bool" where
  "quiet others \<longleftrightarrow> (\<forall>k s. store_step\<^sup>*\<^sup>* s (others k s) \<and> st_chunks (others k s) = st_chunks s)"

lemma quietD: "quiet others \<Longrightarrow> store_step\<^sup>*\<^sup>* s (others k s)" "quiet others \<Longrightarrow> st_chunks (others k s) = st_chunks s"
  by (simp_all add: quiet_def)

lemma quiet_idle: "quiet (\<lambda>_ s. s)"
  by (simp add: quiet_def)

lemma performs_chunk_status [performs_intro]: "performs (set_chunk_status cid st d)"
  unfolding set_chunk_status_def
  by (rule performs_writing) (auto simp: and_then_Inr intro: step_chunk_status)

lemma performs_reads [performs_intro]:
  "performs (chunk_by_id cid)" "performs (require_no_global_policy x)"
  unfolding chunk_by_id_def require_no_global_policy_def by (intro performs_intro)+

lemma performs_merge_remove:
  assumes "quiet others"
  shows "performs (merge_chunk_into_policy x others now ids sb c)"
    "performs (remove_chunk_from_policy x others now ids sb c)"
  unfolding merge_chunk_into_policy_def remove_chunk_from_policy_def
  using assms by (auto intro!: performs_intro revision_attempts_steps simp: quiet_def split: option.splits)

lemma performs_submit_chunks: "performs (submit_chunks x now ids sb v n acc chunks)"
proof (induction chunks arbitrary: n acc)
  case (Cons c chunks)
  show ?case unfolding submit_chunks.simps by (intro performs_intro Cons)
qed (simp add: performs_ret)

lemma performs_approve_chunks:
  assumes "\<And>n. quiet (others n)"
  shows "performs (approve_chunks x others now ids sb flagged n acc chunks)"
proof (induction chunks arbitrary: n acc)
  case (Cons c chunks)
  show ?case unfolding approve_chunks.simps
    by (intro performs_intro Cons performs_merge_remove(1) assms)
qed (simp add: performs_ret)

lemma performs_draft_handlers:
  "performs (handle_submit_policy_analysis x now ids nm chunks)"
  "quiet others \<Longrightarrow> performs (handle_approve_draft_chunk x others now ids nm cid)"
  "quiet others \<Longrightarrow> performs (handle_reject_draft_chunk x others now ids nm cid)"
  "quiet others \<Longrightarrow> performs (handle_undo_draft_chunk x others now ids nm cid)"
  "performs (handle_edit_draft_chunk x nm cid rule)"
  "performs (handle_clear_draft_chunks x nm)"
  unfolding handle_submit_policy_analysis_def handle_approve_draft_chunk_def handle_reject_draft_chunk_def
    handle_undo_draft_chunk_def handle_edit_draft_chunk_def handle_clear_draft_chunks_def
  by (intro performs_intro performs_submit_chunks performs_merge_remove; assumption)+

lemma performs_approve_all:
  "(\<And>n. quiet (others n)) \<Longrightarrow> performs (handle_approve_all_draft_chunks x others now ids2 nm flagged)"
  unfolding handle_approve_all_draft_chunks_def
  by (intro performs_intro performs_approve_chunks; assumption)

section \<open>The loops over chunks\<close>

definition chunks_known :: "'b store \<Rightarrow> bool" where
  "chunks_known s \<longleftrightarrow> list_all (\<lambda>c. dc_status c \<in> {''pending'', ''approved'', ''rejected''}) (st_chunks s)"

definition proposes :: "(string \<times> 'b) option \<Rightarrow> (string \<times> 'b) option \<Rightarrow> bool" where
  "proposes v v' \<longleftrightarrow> v' = v \<or> v = None \<and> (\<exists>r. v' = Some (''pending'', r))"

definition approves :: "(string \<times> 'b) option \<Rightarrow> (string \<times> 'b) option \<Rightarrow> bool" where
  "approves v v' \<longleftrightarrow> v' = v \<or> (\<exists>st r. v = Some (st, r) \<and> v' = Some (''approved'', r))"

lemma proposes_trans: "proposes u v \<Longrightarrow> proposes v w \<Longrightarrow> proposes u w"
  by (auto simp: proposes_def)

lemma approves_trans: "approves u v \<Longrightarrow> approves v w \<Longrightarrow> approves u w"
  by (auto simp: approves_def)

lemma put_draft_chunk_proposes:
  assumes "put_draft_chunk c s = Inr s'" "dc_status c = ''pending''"
  shows "proposes (chunk_view s i) (chunk_view s' i)"
proof (cases "list_ex (chunk_conflict c) (st_chunks s)")
  case True
  let ?f = "\<lambda>d. if chunk_conflict c d then d\<lparr>dc_hit_count := dc_hit_count d + dc_hit_count c,
      dc_last_seen_ms := dc_last_seen_ms c\<rparr> else d"
  have "st_chunks s' = map ?f (st_chunks s)"
    using assms(1) True by (auto simp: put_draft_chunk_def split: if_splits)
  then have "get_draft_chunk i s' = map_option ?f (get_draft_chunk i s)"
    by (simp add: get_draft_chunk_def find_map_key)
  then show ?thesis
    by (cases "get_draft_chunk i s") (auto simp: chunk_view_def proposes_def)
next
  case False
  then have "st_chunks s' = st_chunks s @ [c]"
    using assms(1) by (auto simp: put_draft_chunk_def split: if_splits)
  then show ?thesis using assms(2)
    by (auto simp: chunk_view_def get_draft_chunk_def proposes_def find_snoc split: option.splits)
qed


lemma performsD: "performs m \<Longrightarrow> m s = Some (r, s') \<Longrightarrow> store_step\<^sup>*\<^sup>* s s'"
  by (auto simp: performs_def)

lemma submit_chunks_proposes:
  "submit_chunks x now ids sb v n acc chunks s = Some (r, s') \<Longrightarrow> proposes (chunk_view s i) (chunk_view s' i)"
proof (induction chunks arbitrary: n acc s)
  case Nil
  then show ?case by (simp add: ret_def proposes_def)
next
  case (Cons c chunks)
  show ?case
  proof (cases "pc_rule_name c = [] \<or> pc_proposed_rule c = None")
    case True
    then show ?thesis using Cons by (auto split: if_splits option.splits)
  next
    case False
    then obtain rule where rule: "pc_rule_name c \<noteq> []" "pc_proposed_rule c = Some rule" by auto
    let ?c = "chunk_record_of x now (ids n) sb v c rule"
    consider "s' = s" | t acc' where "put_draft_chunk ?c s = Inr t"
        "submit_chunks x now ids sb v (Suc n) acc' chunks t = Some (r, s')"
      using Cons.prems rule by (auto simp: gbind_Some writing_def split: sum.splits)
    then show ?thesis
    proof cases
      case (2 t acc')
      have "dc_status ?c = ''pending''" by (simp add: chunk_record_of_def Let_def split_beta)
      with put_draft_chunk_proposes [OF 2(1)] Cons.IH [OF 2(2)] show ?thesis
        by (blast intro: proposes_trans)
    qed (simp add: proposes_def)
  qed
qed

lemma set_chunk_status_approves:
  "set_chunk_status cid ''approved'' d s = Some (r, s') \<Longrightarrow> approves (chunk_view s i) (chunk_view s' i)"
  using set_chunk_status_view [of cid "''approved''" d s r s' i]
  by (cases "chunk_view s i") (auto simp: approves_def split: if_splits)

lemma keeps_view:
  "keeps_chunks m \<Longrightarrow> m s = Some (r, s') \<Longrightarrow> chunk_view s' i = chunk_view s i"
  unfolding keeps_chunks_def by (rule chunk_view_cong) blast

lemma approve_chunks_approves:
  assumes "\<And>n. quiet (others n)"
  shows "approve_chunks x others now ids sb flagged n acc chunks s = Some (r, s') \<Longrightarrow>
    approves (chunk_view s i) (chunk_view s' i)"
proof (induction chunks arbitrary: n acc s)
  case Nil
  then show ?case by (simp add: ret_def approves_def)
next
  case (Cons c chunks)
  have k: "keeps_chunks (merge_chunk_into_policy x (others n) now (ids n) sb c)"
    by (rule keeps_merge_remove(1)) (use assms in \<open>simp add: quiet_def\<close>)
  show ?case
  proof (cases "\<not> flagged \<and> dc_security_notes c \<noteq> []")
    case True
    then show ?thesis using Cons by simp
  next
    case False
    then consider e where "merge_chunk_into_policy x (others n) now (ids n) sb c s = Some (Inl e, s')"
      | v h t e where "merge_chunk_into_policy x (others n) now (ids n) sb c s = Some (Inr (v, h), t)"
          "set_chunk_status (dc_id c) ''approved'' (Some now) t = Some (Inl e, s')"
      | v h t t' acc' where "merge_chunk_into_policy x (others n) now (ids n) sb c s = Some (Inr (v, h), t)"
          "set_chunk_status (dc_id c) ''approved'' (Some now) t = Some (Inr (), t')"
          "approve_chunks x others now ids sb flagged (Suc n) acc' chunks t' = Some (r, s')"
      using Cons.prems by (auto simp: gbind_Some)
    then show ?thesis
    proof cases
      case 1
      then show ?thesis using keeps_view [OF k] by (simp add: approves_def)
    next
      case 2
      then show ?thesis using keeps_view [OF k] set_chunk_status_approves by metis
    next
      case 3
      then have "approves (chunk_view s i) (chunk_view t' i)"
        using keeps_view [OF k] set_chunk_status_approves by metis
      then show ?thesis using Cons.IH [OF 3(3)] by (rule approves_trans)
    qed
  qed
qed

section \<open>The machine\<close>

inductive draft_step :: "('s, 'b) externals \<Rightarrow> 'b store \<Rightarrow> 'b store \<Rightarrow> bool" for x where
  ds_other: "store_step s s' \<Longrightarrow> st_chunks s' = st_chunks s \<Longrightarrow> draft_step x s s'"
| ds_submit: "handle_submit_policy_analysis x now ids nm chunks s = Some (r, s') \<Longrightarrow> draft_step x s s'"
| ds_approve: "handle_approve_draft_chunk x others now ids nm cid s = Some (r, s') \<Longrightarrow> quiet others \<Longrightarrow> draft_step x s s'"
| ds_reject: "handle_reject_draft_chunk x others now ids nm cid s = Some (r, s') \<Longrightarrow> quiet others \<Longrightarrow> draft_step x s s'"
| ds_undo: "handle_undo_draft_chunk x others now ids nm cid s = Some (r, s') \<Longrightarrow> quiet others \<Longrightarrow> draft_step x s s'"
| ds_approve_all: "handle_approve_all_draft_chunks x others2 now ids2 nm flagged s = Some (r, s') \<Longrightarrow>
    (\<And>n. quiet (others2 n)) \<Longrightarrow> draft_step x s s'"
| ds_edit: "handle_edit_draft_chunk x nm cid rule s = Some (r, s') \<Longrightarrow> draft_step x s s'"
| ds_clear: "handle_clear_draft_chunks x nm s = Some (r, s') \<Longrightarrow> draft_step x s s'"

lemma draft_step_store: "draft_step x s s' \<Longrightarrow> store_step\<^sup>*\<^sup>* s s'"
proof (induction rule: draft_step.induct)
  case (ds_other s s')
  then show ?case by blast
next
  case (ds_approve_all others2 now ids2 nm flagged s r s')
  then show ?case by (blast intro: performsD performs_approve_all)
qed (blast intro: performsD performs_draft_handlers)+

lemma draft_step_ok: "draft_step x s s' \<Longrightarrow> store_ok s \<Longrightarrow> store_ok s'"
  using draft_step_store store_run_ok by blast

lemma chunks_known_view:
  assumes "chunks_ok s"
  shows "chunks_known s \<longleftrightarrow> (\<forall>i st r. chunk_view s i = Some (st, r) \<longrightarrow> st \<in> {''pending'', ''approved'', ''rejected''})"
proof -
  have d: "distinct (map dc_id (st_chunks s))" using assms by (simp add: chunks_ok_def)
  have "(\<exists>i. get_draft_chunk i s = Some c) \<longleftrightarrow> c \<in> set (st_chunks s)" for c
    using find_distinct_key [OF d, of c] find_Some_in by (fastforce simp: get_draft_chunk_def)
  then show ?thesis
    unfolding chunks_known_def list_all_iff chunk_view_def by (auto simp del: insert_iff)
qed


lemma evolvingD: "evolving s m \<Longrightarrow> m s = Some (r, s') \<Longrightarrow> chunk_evolves (chunk_view s i) (chunk_view s' i)"
  by (simp add: evolving_def)

lemma proposes_evolves: "proposes v v' \<Longrightarrow> chunk_evolves v v'"
  by (auto simp: proposes_def)

lemma approves_evolves:
  assumes "approves v v'" "\<And>st r. v = Some (st, r) \<Longrightarrow> st \<in> {''pending'', ''approved'', ''rejected''}"
  shows "chunk_evolves v v'"
  using assms by (cases v rule: option.exhaust) (auto simp: approves_def lifecycle_def)

lemma submit_evolves:
  "handle_submit_policy_analysis x now ids nm chunks s = Some (r, s') \<Longrightarrow>
    chunk_evolves (chunk_view s i) (chunk_view s' i)"
  using submit_chunks_proposes proposes_evolves
  by (auto simp: handle_submit_policy_analysis_def gbind_Some fail_def reading_def sandbox_by_name_def
      split: if_splits) blast

lemma clear_evolves:
  assumes "handle_clear_draft_chunks x nm s = Some (r, s')" "chunks_ok s"
  shows "chunk_evolves (chunk_view s i) (chunk_view s' i)"
proof -
  have "s' = s \<or> (\<exists>sb. s' = snd (delete_draft_chunks sb ''pending'' s))"
    using assms(1) by (auto simp: handle_clear_draft_chunks_def gbind_Some fail_def reading_def
        sandbox_by_name_def updating_eq ret_def split: if_splits)
  then show ?thesis using delete_chunks_view [OF prod.collapse [symmetric] assms(2)] by auto
qed

lemma chunks_knownD:
  "chunks_known s \<Longrightarrow> chunks_ok s \<Longrightarrow> chunk_view s i = Some (st, r) \<Longrightarrow>
    st \<in> {''pending'', ''approved'', ''rejected''}"
  using chunks_known_view by blast

lemma approve_all_evolves:
  assumes "handle_approve_all_draft_chunks x others now ids nm flagged s = Some (r, s')"
    "\<And>n. quiet (others n)" "chunks_ok s" "chunks_known s"
  shows "chunk_evolves (chunk_view s i) (chunk_view s' i)"
proof -
  have "approves (chunk_view s i) (chunk_view s' i)"
    using assms(1) approve_chunks_approves [of others, OF assms(2)]
    by (auto simp: handle_approve_all_draft_chunks_def require_no_global_policy_def gbind_Some fail_def
        ret_def reading_def sandbox_by_name_def approves_def split: if_splits) blast+
  then show ?thesis
    by (rule approves_evolves) (rule chunks_knownD [OF assms(4,3)])
qed

lemma draft_step_evolves:
  assumes "draft_step x s s'" "store_ok s" "chunks_known s"
  shows "chunk_evolves (chunk_view s i) (chunk_view s' i)"
  using assms
proof (induction rule: draft_step.induct)
  case (ds_other s s')
  then show ?case using chunk_view_cong [of s' s i] by simp
next
  case (ds_approve others now ids nm cid s r s')
  show ?case by (rule evolvingD [OF approve_evolving ds_approve(1)]) (simp add: quietD ds_approve)
next
  case (ds_reject others now ids nm cid s r s')
  show ?case by (rule evolvingD [OF reject_evolving ds_reject(1)]) (simp add: quietD ds_reject)
next
  case (ds_undo others now ids nm cid s r s')
  show ?case by (rule evolvingD [OF undo_evolving ds_undo(1)]) (simp add: quietD ds_undo)
next
  case (ds_approve_all others2 now ids2 nm flagged s r s')
  then show ?case using approve_all_evolves by (simp add: store_ok_def) blast
next
  case (ds_edit nm cid rule s r s')
  show ?case by (rule evolvingD [OF edit_evolving ds_edit(1)])
qed (auto intro: submit_evolves clear_evolves simp: store_ok_def)

lemma evolves_known:
  assumes "chunk_evolves v v'" "v' = Some (st', r')"
    "\<And>st r. v = Some (st, r) \<Longrightarrow> st \<in> {''pending'', ''approved'', ''rejected''}"
  shows "st' \<in> {''pending'', ''approved'', ''rejected''}"
  using assms by (cases v rule: option.exhaust) (auto simp: lifecycle_def)

lemma draft_run_known:
  assumes "(draft_step x)\<^sup>*\<^sup>* empty_store s"
  shows "store_ok s \<and> chunks_known s"
  using assms
proof (induction rule: rtranclp_induct)
  case base
  then show ?case by (simp add: empty_store_ok) (simp add: chunks_known_def empty_store_def)
next
  case (step s s')
  then have ok: "store_ok s'" using draft_step_ok by blast
  have "st' \<in> {''pending'', ''approved'', ''rejected''}" if "chunk_view s' i = Some (st', r')" for i st' r'
    by (rule evolves_known [OF draft_step_evolves [OF step(2)] that])
      (use step(3) in \<open>auto simp: store_ok_def dest!: chunks_knownD\<close>)
  then show ?case using ok by (simp add: chunks_known_view store_ok_def)
qed


definition example_proposal :: policy_chunk where
  "example_proposal = \<lparr>pc_id = [], pc_status = ''pending'', pc_rule_name = ''git'', pc_proposed_rule = Some example_rule,
     pc_rationale = [], pc_security_notes = [], pc_confidence = 1, pc_denial_summary_ids = [], pc_created_at_ms = 0,
     pc_decided_at_ms = 0, pc_stage = ''connect'', pc_supersedes_chunk_id = [], pc_hit_count = 1, pc_first_seen_ms = 3,
     pc_last_seen_ms = 3, pc_binary = []\<rparr>"

lemma chunk_record_of_fields:
  "dc_id (chunk_record_of x now i sb v c rule) = i" "dc_status (chunk_record_of x now i sb v c rule) = ''pending''"
  "dc_proposed_rule (chunk_record_of x now i sb v c rule) = x_rule_enc x rule"
  by (simp_all add: chunk_record_of_def Let_def split_beta)

lemma sandbox_store_put_chunk: "put_draft_chunk c (sandbox_store p) = Inr ((sandbox_store p)\<lparr>st_chunks := [c]\<rparr>)"
  by (simp add: put_draft_chunk_def sandbox_store_def empty_store_def)

lemma example_submit_runs:
  "\<exists>a s'. handle_submit_policy_analysis example_x 3 (\<lambda>_. ''c1'') ''dev'' [example_proposal] (sandbox_store None)
     = Some (Inr a, s') \<and> chunk_view s' ''c1'' = Some (''pending'', BRule example_rule)"
proof -
  have e: "x_rule_enc example_x = BRule" by (simp add: example_x_def)
  show ?thesis
    by (simp add: handle_submit_policy_analysis_def gbind_def reading_def writing_def ret_def
        example_sandbox_by_name sandbox_store_put_chunk example_proposal_def chunk_record_of_fields
        chunk_view_def get_draft_chunk_def e)
qed


end
