(* ===== verification/Draft_Undo.thy ===== *)
theory Draft_Undo
  imports Gateway_Machine
begin

text \<open>
  Undoing an approval, and three places where the draft handlers fall short of what they are for: an
  undo that misses the rule a chunk was merged into, an approval that accepts a chunk of another
  sandbox, and an edit that leaves the security notes of the old rule in place.
\<close>

section \<open>Undo after approval\<close>

lemma al_remove_insert_new: "map_of m k = None \<Longrightarrow> al_remove k (al_insert k v m) = m"
  by (induction m) (auto simp: al_remove_def filter_id_conv)

text \<open>Undoing an approval restores the policy when the chunk opened a new rule whose binaries are all
  the binary of the chunk: removal after the merge gives back the policy before it.\<close>

theorem undo_restores_policy:
  assumes "find_merge_key lc (sp_network_policies p) n h pt = None"
    "\<forall>b \<in> set (np_binaries rule). nb_path b = binary"
  shows "remove_policy n binary (merge_policy lc n h pt rule p) = p"
proof -
  have "map_of (sp_network_policies p) n = None" by (rule find_merge_key_None [OF assms(1)])
  moreover have "filter (\<lambda>b. nb_path b \<noteq> binary) (np_binaries rule) = []" using assms(2) by simp
  ultimately show ?thesis using assms(1)
    by (simp add: merge_policy_def remove_policy_def al.lookup_insert al_remove_insert_new)
qed

theorem undo_restores_policy_witness:
  "remove_policy ''git'' ''/usr/bin/git''
     (merge_policy id ''git'' ''git.example.com'' 443 example_rule sandbox_policy_default) = sandbox_policy_default"
proof -
  have "find_merge_key id (sp_network_policies sandbox_policy_default) ''git'' ''git.example.com'' 443 = None"
    by (simp add: find_merge_key_def sandbox_policy_default_def)
  moreover have "\<forall>b \<in> set (np_binaries example_rule). nb_path b = ''/usr/bin/git''"
    by (simp add: example_rule_def)
  ultimately show ?thesis by (rule undo_restores_policy)
qed

text \<open>When a chunk was merged into an existing rule of another name, because host and port matched,
  undoing the approval removes nothing: the rule it was merged into still grants the whole proposal.\<close>

theorem undo_misses_merged_rule:
  assumes "find_merge_key lc (sp_network_policies p) n h pt = Some key" "key \<noteq> n"
  shows "remove_policy n binary (merge_policy lc n h pt rule p) = merge_policy lc n h pt rule p
    \<and> (\<exists>r. map_of (sp_network_policies (remove_policy n binary (merge_policy lc n h pt rule p))) key = Some r
        \<and> grants_rule lc rule r)"
proof -
  have n: "map_of (sp_network_policies p) n = None"
    using assms by (auto simp: find_merge_key_def split: if_splits)
  obtain r where r: "map_of (sp_network_policies p) key = Some r"
    using find_merge_key_Some [OF assms(1)] by blast
  have m: "map_of (sp_network_policies (merge_policy lc n h pt rule p))
      = (map_of (sp_network_policies p))(key \<mapsto> merge_rule lc rule r)"
    using assms(1) r by (simp add: merge_policy_def map_of_al_modify_Some)
  then have "remove_policy n binary (merge_policy lc n h pt rule p) = merge_policy lc n h pt rule p"
    using n assms(2) by (simp add: remove_policy_def)
  then show ?thesis using m merge_rule_grants by simp
qed

definition code_rule :: network_policy_rule where
  "code_rule = example_rule\<lparr>np_name := ''code'', np_binaries := [\<lparr>nb_path = ''/usr/bin/curl'', nb_harness = False\<rparr>]\<rparr>"

definition code_policy :: sandbox_policy where
  "code_policy = sandbox_policy_default\<lparr>sp_network_policies := [(''code'', code_rule)]\<rparr>"

theorem undo_misses_merged_rule_witness:
  "\<exists>r. map_of (sp_network_policies (remove_policy ''git'' ''/usr/bin/git''
       (merge_policy id ''git'' ''git.example.com'' 443 example_rule code_policy))) ''code'' = Some r
     \<and> grants_rule id example_rule r"
proof -
  have "find_merge_key id (sp_network_policies code_policy) ''git'' ''git.example.com'' 443 = Some ''code''"
    by (simp add: find_merge_key_def code_policy_def code_rule_def example_rule_def chunk_endpoint_match_def
        example_endpoint_def)
  then show ?thesis using undo_misses_merged_rule [of id code_policy "''git''" "''git.example.com''" 443 "''code''"]
    by blast
qed

section \<open>Chunks of another sandbox\<close>

definition foreign_store :: "unit blob store" where
  "foreign_store = (sandbox_store None)\<lparr>st_chunks := [example_chunk ''sb2'' ''pending'' example_rule ''/usr/bin/git'']\<rparr>"

lemma foreign_store_reads:
  "load_global_settings example_x foreign_store = Inr stored_settings_default"
  "sandbox_by_name example_x ''dev'' foreign_store = Some (Inr (example_sandbox None), foreign_store)"
  "get_draft_chunk ''c1'' foreign_store = Some (example_chunk ''sb2'' ''pending'' example_rule ''/usr/bin/git'')"
  "merge_base example_x ''sb1'' foreign_store = Inr (sandbox_policy_default, 0)"
  by (simp_all add: load_global_settings_def load_settings_record_def db_get_def foreign_store_def
      sandbox_store_def example_x_def GLOBAL_SETTINGS_OBJECT_TYPE_def sandbox_by_name_Some
      get_message_by_name_def db_get_by_name_def decode_record_def get_draft_chunk_def example_chunk_def
      merge_base_def get_latest_policy_def empty_store_def)

abbreviation (input) "foreign_chunk \<equiv> example_chunk ''sb2'' ''pending'' example_rule ''/usr/bin/git''"

lemma foreign_chunk_fields:
  "dc_status foreign_chunk = ''pending''" "dc_proposed_rule foreign_chunk = BRule example_rule"
  "dc_rule_name foreign_chunk = ''git''" "dc_host foreign_chunk = ''git.example.com''" "dc_port foreign_chunk = 443"
  by (simp_all add: example_chunk_def)

lemma foreign_merge_runs:
  "\<exists>h s'. merge_chunk_into_policy example_x (\<lambda>_ s. s) 7 example_ids ''sb1'' foreign_chunk foreign_store
       = Some (Inr (1, h), s')
     \<and> revision s' (''sb1'', 1) = Some (BPolicy (merge_policy to_ascii_lowercase ''git'' ''git.example.com'' 443
          example_rule sandbox_policy_default), h)"
proof -
  have put: "put_policy_revision 7 i ''sb1'' 1 p h foreign_store = Inr (foreign_store\<lparr>st_policies :=
      [\<lparr>pl_id = i, pl_sandbox_id = ''sb1'', pl_version = 1, pl_payload = p, pl_hash = h, pl_status = ''pending'',
        pl_load_error = None, pl_created_at_ms = 7, pl_loaded_at_ms = None\<rparr>]\<rparr>)" for i p h
    by (simp add: put_policy_revision_def foreign_store_def sandbox_store_def empty_store_def)
  have rev: "revision (snd (supersede_older_policies ''sb1'' 1 (foreign_store\<lparr>st_policies :=
      [\<lparr>pl_id = i, pl_sandbox_id = ''sb1'', pl_version = 1, pl_payload = p, pl_hash = h, pl_status = ''pending'',
        pl_load_error = None, pl_created_at_ms = 7, pl_loaded_at_ms = None\<rparr>]\<rparr>))) (''sb1'', 1) = Some (p, h)" for i p h
    by (simp add: supersede_older_policies_def revision_def get_policy_by_version_def Let_def)
  have five: "MERGE_RETRY_LIMIT = Suc 4" by (simp add: MERGE_RETRY_LIMIT_def)
  have x: "x_rule_dec example_x (BRule r) = Some r" "x_policy_enc example_x = BPolicy"
      "x_to_lowercase example_x = to_ascii_lowercase" for r
    by (simp_all add: example_x_def)
  show ?thesis
    unfolding merge_chunk_into_policy_def foreign_chunk_fields x option.case five revision_attempts.simps
    by (simp add: gbind_def reading_def interfere_def catching_def updating_eq ret_def Let_def
        foreign_store_reads put rev)
qed

text \<open>Approving a chunk does not check which sandbox it belongs to: a chunk proposed for sandbox sb2 is
  merged into the policy of sandbox sb1 and the approval succeeds.\<close>

theorem approve_accepts_foreign_chunk:
  "get_draft_chunk ''c1'' foreign_store = Some foreign_chunk \<and> dc_sandbox_id foreign_chunk = ''sb2'' 
   \<and> (\<exists>h s'. handle_approve_draft_chunk example_x (\<lambda>_ s. s) 7 example_ids ''dev'' ''c1'' foreign_store
        = Some (Inr (1, h), s')
      \<and> revision s' (''sb1'', 1) = Some (BPolicy (merge_policy to_ascii_lowercase ''git'' ''git.example.com'' 443
           example_rule sandbox_policy_default), h))"
proof -
  obtain h s' where m: "merge_chunk_into_policy example_x (\<lambda>_ s. s) 7 example_ids ''sb1'' foreign_chunk
      foreign_store = Some (Inr (1, h), s')"
    and r: "revision s' (''sb1'', 1) = Some (BPolicy (merge_policy to_ascii_lowercase ''git'' ''git.example.com'' 443
        example_rule sandbox_policy_default), h)"
    using foreign_merge_runs by blast
  have "st_chunks s' = st_chunks foreign_store"
    using m keeps_merge_remove(1) [of "\<lambda>_ s. s"] unfolding keeps_chunks_def by blast
  then obtain s'' where "set_chunk_status ''c1'' ''approved'' (Some 7) s' = Some (Inr (), s'')"
    and p: "st_policies s'' = st_policies s'"
    by (simp add: set_chunk_status_def writing_def update_draft_chunk_status_def foreign_store_def Let_def
        example_chunk_def)
  then have "handle_approve_draft_chunk example_x (\<lambda>_ s. s) 7 example_ids ''dev'' ''c1'' foreign_store
      = Some (Inr (u32_of_i64 1, h), s'')"
    using m by (simp add: handle_approve_draft_chunk_def require_no_global_policy_def chunk_by_id_def
        reading_def gbind_def foreign_store_reads ret_def stored_settings_default_def foreign_chunk_fields
        example_sandbox_def)
  moreover have "revision s'' = revision s'" using p by (auto simp: revision_def get_policy_by_version_def)
  ultimately show ?thesis using r
    by (simp add: foreign_store_reads u32_of_i64_def) (simp add: example_chunk_def)
qed

section \<open>Editing\<close>

text \<open>Editing a pending chunk replaces its rule and nothing else: host, port, binary and the security
  notes stay those of the rule it was submitted with, so a rule edited to reach an internal address is
  not flagged although its address would be.\<close>

theorem edit_keeps_security_notes:
  assumes "handle_edit_draft_chunk x nm cid (Some rule) s = Some (Inr (), s')"
  shows "\<exists>c. get_draft_chunk cid s = Some c \<and> dc_status c = ''pending''
    \<and> get_draft_chunk cid s' = Some (c\<lparr>dc_proposed_rule := x_rule_enc x rule\<rparr>)
    \<and> generate_security_notes ''10.0.0.5'' 443 \<noteq> []"
proof -
  obtain c where c: "get_draft_chunk cid s = Some c" "dc_status c = ''pending''"
    and s': "s' = snd (update_draft_chunk_rule cid (x_rule_enc x rule) s)"
    using assms by (auto simp: handle_edit_draft_chunk_def gbind_ok fail_ok sandbox_by_name_Some
        chunk_by_id_Some updating_eq ret_ok split: if_splits)
  let ?f = "\<lambda>c. if dc_id c = cid \<and> dc_status c = ''pending'' then c\<lparr>dc_proposed_rule := x_rule_enc x rule\<rparr> else c"
  have "st_chunks s' = map ?f (st_chunks s)" by (simp add: s' update_draft_chunk_rule_def Let_def)
  then have "get_draft_chunk cid s' = map_option ?f (get_draft_chunk cid s)"
    by (simp add: get_draft_chunk_def find_map_key)
  moreover have "dc_id c = cid" using c(1) find_Some_in by (fastforce simp: get_draft_chunk_def)
  moreover have "generate_security_notes ''10.0.0.5'' 443 \<noteq> []"
    by (simp add: generate_security_notes_def starts_with_def)
  ultimately show ?thesis using c by simp
qed

definition internal_rule :: network_policy_rule where
  "internal_rule = example_rule\<lparr>np_endpoints := [example_endpoint\<lparr>ep_host := ''10.0.0.5''\<rparr>]\<rparr>"

theorem edit_keeps_security_notes_witness:
  "\<exists>s' c. handle_edit_draft_chunk example_x ''dev'' ''c1'' (Some internal_rule) foreign_store = Some (Inr (), s')
     \<and> get_draft_chunk ''c1'' s' = Some c \<and> dc_proposed_rule c = BRule internal_rule \<and> dc_security_notes c = []"
proof -
  obtain s' where h: "handle_edit_draft_chunk example_x ''dev'' ''c1'' (Some internal_rule) foreign_store
      = Some (Inr (), s')"
    by (simp add: handle_edit_draft_chunk_def gbind_def foreign_store_reads chunk_by_id_def reading_def
        foreign_chunk_fields updating_eq ret_def)
  from edit_keeps_security_notes [OF h] obtain c where "get_draft_chunk ''c1'' foreign_store = Some c"
    "get_draft_chunk ''c1'' s' = Some (c\<lparr>dc_proposed_rule := x_rule_enc example_x internal_rule\<rparr>)" by blast
  then show ?thesis using h by (auto simp: foreign_store_reads example_chunk_def example_x_def)
qed

end
