(* ===== verification/Inference_Http.thy ===== *)
theory Inference_Http
  imports Utf8
begin

text \<open>
  The HTTP layer of inference interception (\<open>crates/openshell-sandbox/src/l7/inference.rs\<close>): request
  patterns, the incremental request parser with its two body framings, and the response and chunk
  writers. Buffers are byte strings, indices are natural numbers below \<open>2 ^ 64\<close>, and a panic is
  \<open>None\<close>.
\<close>

section \<open>Patterns\<close>

record inference_api_pattern =
  ip_method :: string
  ip_path_glob :: string
  ip_protocol :: string
  ip_kind :: string

definition default_patterns :: "inference_api_pattern list" where
  "default_patterns =
    [\<lparr>ip_method = ''POST'', ip_path_glob = ''/v1/chat/completions'', ip_protocol = ''openai_chat_completions'', ip_kind = ''chat_completion''\<rparr>,
     \<lparr>ip_method = ''POST'', ip_path_glob = ''/v1/completions'', ip_protocol = ''openai_completions'', ip_kind = ''completion''\<rparr>,
     \<lparr>ip_method = ''POST'', ip_path_glob = ''/v1/responses'', ip_protocol = ''openai_responses'', ip_kind = ''responses''\<rparr>,
     \<lparr>ip_method = ''POST'', ip_path_glob = ''/v1/messages'', ip_protocol = ''anthropic_messages'', ip_kind = ''messages''\<rparr>,
     \<lparr>ip_method = ''GET'', ip_path_glob = ''/v1/models'', ip_protocol = ''model_discovery'', ip_kind = ''models_list''\<rparr>,
     \<lparr>ip_method = ''GET'', ip_path_glob = ''/v1/models/*'', ip_protocol = ''model_discovery'', ip_kind = ''models_get''\<rparr>]"

definition pattern_matches :: "string \<Rightarrow> string \<Rightarrow> inference_api_pattern \<Rightarrow> bool" where
  "pattern_matches m path_only p \<longleftrightarrow> eq_ignore_ascii_case m (ip_method p) \<and>
     (case strip_suffix ''/*'' (ip_path_glob p) of
        Some pre \<Rightarrow> path_only = pre \<or>
          (case strip_prefix pre path_only of None \<Rightarrow> False | Some suf \<Rightarrow> starts_with ''/'' suf)
      | None \<Rightarrow> path_only = ip_path_glob p)"

definition detect_inference_pattern ::
  "string \<Rightarrow> string \<Rightarrow> inference_api_pattern list \<Rightarrow> inference_api_pattern option" where
  "detect_inference_pattern m path patterns =
     find (pattern_matches m (hd (split_char CHR ''?'' path))) patterns"

section \<open>Chunked bodies\<close>

definition usize_max :: nat where "usize_max = 2 ^ 64 - 1"

definition checked_add :: "nat \<Rightarrow> nat \<Rightarrow> nat option" where
  "checked_add a b = (if a + b \<le> usize_max then Some (a + b) else None)"

definition MAX_CHUNKED_BODY :: nat where "MAX_CHUNKED_BODY = 10 * 1024 * 1024"
definition MAX_CHUNK_COUNT :: nat where "MAX_CHUNK_COUNT = 4096"

definition find_crlf :: "string \<Rightarrow> nat \<Rightarrow> nat option" where
  "find_crlf buf start = (if start > length buf then None
     else map_option (\<lambda>offset. start + offset) (find_sub CRLF (drop start buf)))"

definition subslice :: "string \<Rightarrow> nat \<Rightarrow> nat \<Rightarrow> string" where
  "subslice buf a b = take (b - a) (drop a buf)"

lemma find_crlf_Some:
  assumes "find_crlf buf pos = Some e"
  shows "pos \<le> e \<and> e + 2 \<le> length buf"
  using assms find_sub_SomeD(1) [of CRLF "drop pos buf"]
  by (fastforce simp: find_crlf_def split: if_splits dest: find_sub_SomeD)

text \<open>The trailer lines up to and including the empty one; each turn moves the position forward.\<close>

function skip_trailers :: "string \<Rightarrow> nat \<Rightarrow> nat option" where
  "skip_trailers buf pos =
     (case find_crlf buf pos of None \<Rightarrow> None
      | Some e \<Rightarrow> (case checked_add e 2 of None \<Rightarrow> None
        | Some pos' \<Rightarrow> if subslice buf pos e = [] then Some pos' else skip_trailers buf pos'))"
  by pat_completeness auto
termination
proof (relation "measure (\<lambda>(buf, pos). length buf + 1 - pos)")
  fix buf pos e pos'
  assume "find_crlf buf pos = Some e" "checked_add e 2 = Some pos'"
  then show "((buf, pos'), buf, pos) \<in> measure (\<lambda>(buf, pos). length buf + 1 - pos)"
    using find_crlf_Some [of buf pos e] by (auto simp: checked_add_def split: if_splits)
qed simp

declare skip_trailers.simps [simp del]

text \<open>The size of the chunk whose line is \<open>buf[pos..e]\<close>.\<close>

definition chunk_size :: "string \<Rightarrow> nat option" where
  "chunk_size size_line = (if is_utf8 size_line
     then parse_uint 16 64 (trim (hd (split_char CHR '';'' size_line))) else None)"

text \<open>The main loop; the first argument is the number of chunks that may still be read.\<close>

fun chunk_loop :: "nat \<Rightarrow> string \<Rightarrow> nat \<Rightarrow> string \<Rightarrow> (string \<times> nat) option" where
  "chunk_loop 0 buf pos body = None"
| "chunk_loop (Suc n) buf pos body =
     (case find_crlf buf pos of None \<Rightarrow> None
      | Some e \<Rightarrow> (case chunk_size (subslice buf pos e) of None \<Rightarrow> None
        | Some sz \<Rightarrow> (case checked_add e 2 of None \<Rightarrow> None
          | Some pos1 \<Rightarrow>
            if sz = 0 then map_option (\<lambda>p. (body, p)) (skip_trailers buf pos1)
            else if sz > length buf - pos1 then None
            else if min usize_max (length body + sz) > MAX_CHUNKED_BODY then None
            else (case checked_add pos1 sz of None \<Rightarrow> None
              | Some chunk_end \<Rightarrow> (case checked_add chunk_end 2 of None \<Rightarrow> None
                | Some crlf_end \<Rightarrow>
                  if length buf < crlf_end then None
                  else if subslice buf chunk_end crlf_end \<noteq> CRLF then None
                  else chunk_loop n buf crlf_end (body @ subslice buf pos1 chunk_end))))))"

definition parse_chunked_body :: "string \<Rightarrow> nat \<Rightarrow> (string \<times> nat) option" where
  "parse_chunked_body buf start = chunk_loop MAX_CHUNK_COUNT buf start []"

section \<open>Requests\<close>

record parsed_http_request =
  rq_method :: string
  rq_path :: string
  rq_headers :: "(string \<times> string) list"
  rq_body :: string

datatype parse_result = Complete parsed_http_request nat | Incomplete | Invalid string

text \<open>The state of the header loop: headers, content length and the two flags.\<close>

record header_state =
  hs_headers :: "(string \<times> string) list"
  hs_content_length :: nat
  hs_has_content_length :: bool
  hs_is_chunked :: bool

definition header_state_init :: header_state where
  "header_state_init = \<lparr>hs_headers = [], hs_content_length = 0, hs_has_content_length = False, hs_is_chunked = False\<rparr>"

definition lists_chunked :: "string \<Rightarrow> bool" where
  "lists_chunked v \<longleftrightarrow> list_ex (\<lambda>enc. eq_ignore_ascii_case (trim enc) ''chunked'') (split_char CHR '','' v)"

definition content_length_step :: "string \<Rightarrow> string \<Rightarrow> header_state \<Rightarrow> (string, header_state) result" where
  "content_length_step nm v st =
     (if \<not> eq_ignore_ascii_case nm ''content-length'' then Inr st
      else case parse_uint 10 64 v of
        None \<Rightarrow> Inl (''invalid Content-Length value: '' @ v)
      | Some new_len \<Rightarrow>
          if hs_has_content_length st \<and> new_len \<noteq> hs_content_length st
          then Inl (''duplicate Content-Length headers with differing values (''
             @ show_nat (hs_content_length st) @ '' vs '' @ show_nat new_len @ '')'')
          else Inr (st\<lparr>hs_content_length := new_len, hs_has_content_length := True\<rparr>))"

fun header_loop :: "string list \<Rightarrow> header_state \<Rightarrow> (string, header_state) result" where
  "header_loop [] st = Inr st"
| "header_loop (line # ls) st =
     (if line = [] then Inr st
      else case split_once '':'' line of
        None \<Rightarrow> header_loop ls st
      | Some (n, v) \<Rightarrow>
          (let nm = trim n; val = trim v in
           and_then (content_length_step nm val st) (\<lambda>st1.
             let st2 = (if eq_ignore_ascii_case nm ''transfer-encoding'' \<and> lists_chunked val
                        then st1\<lparr>hs_is_chunked := True\<rparr> else st1)
             in header_loop ls (st2\<lparr>hs_headers := hs_headers st2 @ [(nm, val)]\<rparr>))))"

text \<open>
  The body and the number of bytes consumed. The sum of the body start and the content length is a
  \<open>usize\<close> addition: it panics on overflow in a debug build, and in a release build it wraps to a
  value below the body start, so that taking the subslice panics.
\<close>

definition parse_body :: "string \<Rightarrow> nat \<Rightarrow> header_state \<Rightarrow> ((string \<times> nat) option) option" where
  "parse_body buf body_start st =
     (if hs_is_chunked st then Some (parse_chunked_body buf body_start)
      else let total_len = (body_start + hs_content_length st) mod 2 ^ 64 in
        if length buf < total_len then Some None
        else if total_len < body_start then None
        else Some (Some (subslice buf body_start total_len, total_len)))"

definition try_parse_http_request :: "string \<Rightarrow> parse_result option" where
  "try_parse_http_request buf =
     (case find_sub CRLFCRLF buf of None \<Rightarrow> Some Incomplete
      | Some header_end \<Rightarrow>
        if \<not> is_utf8 (take header_end buf) then Some Incomplete
        else case split_str CRLF (take header_end buf) of [] \<Rightarrow> Some Incomplete
        | request_line # ls \<Rightarrow>
          (case split_whitespace request_line of
             m # path # _ \<Rightarrow>
               (case header_loop ls header_state_init of
                  Inl e \<Rightarrow> Some (Invalid e)
                | Inr st \<Rightarrow>
                    if hs_is_chunked st \<and> hs_has_content_length st
                    then Some (Invalid ''Request contains both Transfer-Encoding and Content-Length headers'')
                    else (case parse_body buf (header_end + 4) st of
                        None \<Rightarrow> None
                      | Some None \<Rightarrow> Some Incomplete
                      | Some (Some (body, consumed)) \<Rightarrow>
                          Some (Complete \<lparr>rq_method = m, rq_path = path, rq_headers = hs_headers st,
                            rq_body = body\<rparr> consumed)))
           | _ \<Rightarrow> Some Incomplete))"

section \<open>Responses\<close>

definition status_text :: "nat \<Rightarrow> string" where
  "status_text st = (if st = 200 then ''OK'' else if st = 400 then ''Bad Request''
     else if st = 403 then ''Forbidden'' else if st = 411 then ''Length Required''
     else if st = 413 then ''Payload Too Large'' else if st = 500 then ''Internal Server Error''
     else if st = 502 then ''Bad Gateway'' else ''Unknown'')"

definition header_text :: "(string \<times> string) list \<Rightarrow> string" where
  "header_text hs = concat (map (\<lambda>(n, v). n @ '': '' @ v @ CRLF) hs)"

definition format_http_response :: "nat \<Rightarrow> (string \<times> string) list \<Rightarrow> string \<Rightarrow> string" where
  "format_http_response st hs body =
     ''HTTP/1.1 '' @ show_nat st @ '' '' @ status_text st @ CRLF @ header_text hs
     @ (if list_ex (\<lambda>(n, _). eq_ignore_ascii_case n ''content-length'') hs then []
        else ''content-length: '' @ show_nat (length body) @ CRLF)
     @ CRLF @ body"

definition streaming_status_text :: "nat \<Rightarrow> string" where
  "streaming_status_text st = (if st = 503 then ''Service Unavailable'' else status_text st)"

definition format_http_response_header :: "nat \<Rightarrow> (string \<times> string) list \<Rightarrow> string" where
  "format_http_response_header st hs =
     ''HTTP/1.1 '' @ show_nat st @ '' '' @ streaming_status_text st @ CRLF
     @ header_text (filter (\<lambda>(n, _). \<not> eq_ignore_ascii_case n ''content-length''
         \<and> \<not> eq_ignore_ascii_case n ''transfer-encoding'') hs)
     @ ''transfer-encoding: chunked'' @ CRLF @ CRLF"

definition format_chunk :: "string \<Rightarrow> string" where
  "format_chunk data = show_hex (length data) @ CRLF @ data @ CRLF"

definition format_chunk_terminator :: string where
  "format_chunk_terminator = ''0'' @ CRLF @ CRLF"

end
