(* ===== verification/Inference_Props.thy ===== *)
theory Inference_Props
  imports Inference_Http
begin

text \<open>
  Correctness of the inference HTTP layer: chunked bodies round trip, a complete parse depends only on
  the bytes it consumes, the framing of an accepted request is unambiguous, and the panic of the
  parser on a content length near the top of its type.
\<close>

section \<open>Slices and line ends\<close>

lemma subslice_append: "subslice (pre @ xs @ ys) (length pre) (length pre + length xs) = xs"
  by (simp add: subslice_def)

lemma subslice_alt: "subslice buf a b = drop a (take b buf)"
  by (simp add: subslice_def drop_take)

lemma subslice_take: "b \<le> n \<Longrightarrow> n \<le> length buf \<Longrightarrow> subslice (take n buf @ rest) a b = subslice buf a b"
  by (simp add: subslice_alt)

lemma find_sub_crlf_no_cr:
  assumes "CR \<notin> set s"
  shows "find_sub CRLF (s @ CRLF @ t) = Some (length s)"
  unfolding find_sub_Some_iff
proof (intro conjI allI impI)
  fix j assume "j < length s"
  then have "drop j (s @ CRLF @ t) = s ! j # drop (Suc j) (s @ CRLF @ t)"
    by (simp add: Cons_nth_drop_Suc nth_append)
  moreover have "s ! j \<noteq> CR" using assms \<open>j < length s\<close> by (metis nth_mem)
  ultimately show "\<not> starts_with CRLF (drop j (s @ CRLF @ t))" by (simp add: starts_with_def)
qed (simp_all add: starts_with_def)

lemma find_crlf_no_cr:
  "CR \<notin> set s \<Longrightarrow> find_crlf (pre @ s @ CRLF @ t) (length pre) = Some (length pre + length s)"
  using find_sub_crlf_no_cr [of s t] by (simp add: find_crlf_def)

section \<open>Chunked bodies\<close>

lemma hex_chars: "c \<in> set (show_hex n) \<Longrightarrow> is_ascii_hexdigit c"
  using show_radix_hexdigit [of 16 c n] by simp

lemma hexdigit_printable: "is_ascii_hexdigit c \<Longrightarrow> printable_ascii c \<and> ord c < 128"
  by (auto simp: is_ascii_hexdigit_def is_ascii_digit_def printable_ascii_def)

lemma show_hex_no_sep: "CR \<notin> set (show_hex n)" "CHR '';'' \<notin> set (show_hex n)"
  using hex_chars is_ascii_hexdigit_neq by blast+

lemma trim_show_hex: "trim (show_hex n) = show_hex n"
  using hexdigit_printable hex_chars [of "hd (show_hex n)" n] hex_chars [of "last (show_hex n)" n]
  by (intro trim_printable) simp_all

lemma is_utf8_show_hex: "is_utf8 (show_hex n)"
  by (rule ascii_is_utf8) (auto simp: ascii_def list_all_iff dest!: hex_chars dest: hexdigit_printable)

lemma chunk_size_show_hex: "n < 2 ^ 64 \<Longrightarrow> chunk_size (show_hex n) = Some n"
  by (simp add: chunk_size_def is_utf8_show_hex split_char_single show_hex_no_sep trim_show_hex
      parse_uint_show_radix)


lemma chunk_loop_step:
  assumes "c \<noteq> []" "length body + length c \<le> MAX_CHUNKED_BODY"
    "length pre + length (format_chunk c) \<le> usize_max"
  shows "chunk_loop (Suc n) (pre @ format_chunk c @ t) (length pre) body
    = chunk_loop n (pre @ format_chunk c @ t) (length (pre @ format_chunk c)) (body @ c)"
proof -
  let ?h = "show_hex (length c)" let ?p1 = "length pre + length ?h + 2"
  have buf: "pre @ format_chunk c @ t = pre @ ?h @ CRLF @ (c @ CRLF @ t)"
    "pre @ format_chunk c @ t = (pre @ ?h @ CRLF) @ c @ (CRLF @ t)"
    "pre @ format_chunk c @ t = (pre @ ?h @ CRLF @ c) @ CRLF @ t"
    by (simp_all add: format_chunk_def)
  have find: "find_crlf (pre @ format_chunk c @ t) (length pre) = Some (length pre + length ?h)"
    unfolding buf(1) by (rule find_crlf_no_cr) (rule show_hex_no_sep)
  have s1: "subslice (pre @ format_chunk c @ t) (length pre) (length pre + length ?h) = ?h"
    unfolding buf(1) by (rule subslice_append)
  have s2: "subslice (pre @ format_chunk c @ t) ?p1 (?p1 + length c) = c"
    unfolding buf(2) using subslice_append [of "pre @ ?h @ CRLF" c "CRLF @ t"] by (simp add: add.assoc)
  have s3: "subslice (pre @ format_chunk c @ t) (?p1 + length c) (?p1 + length c + 2) = CRLF"
    unfolding buf(3) using subslice_append [of "pre @ ?h @ CRLF @ c" CRLF t] by (simp add: add.assoc)
  have len: "length (pre @ format_chunk c @ t) = ?p1 + length c + 2 + length t"
    by (simp add: format_chunk_def)
  have sz: "length c < 2 ^ 64" using assms(3) by (simp add: format_chunk_def usize_max_def)
  have adds: "checked_add (length pre + length ?h) 2 = Some ?p1" "checked_add ?p1 (length c) = Some (?p1 + length c)"
    "checked_add (?p1 + length c) 2 = Some (?p1 + length c + 2)"
    using assms(3) by (simp_all add: checked_add_def format_chunk_def)
  show ?thesis
    unfolding chunk_loop.simps find option.case s1 chunk_size_show_hex [OF sz] adds len s2 s3
    using assms(1,2) by (simp add: format_chunk_def add.assoc)
qed

lemma skip_trailers_terminator:
  assumes "length pre + 2 \<le> usize_max"
  shows "skip_trailers (pre @ CRLF @ rest) (length pre) = Some (length pre + 2)"
proof -
  have "find_crlf (pre @ CRLF @ rest) (length pre) = Some (length pre)"
    using find_crlf_no_cr [of "[]" pre rest] by simp
  then show ?thesis using assms
    by (subst skip_trailers.simps) (simp add: checked_add_def subslice_def)
qed

lemma digit_char_0: "digit_char 0 = CHR ''0''"
  by code_simp

lemma chunk_loop_terminator:
  assumes "length pre + 5 \<le> usize_max"
  shows "chunk_loop (Suc n) (pre @ format_chunk_terminator @ rest) (length pre) body
    = Some (body, length pre + 5)"
proof -
  have buf: "pre @ format_chunk_terminator @ rest = pre @ ''0'' @ CRLF @ (CRLF @ rest)"
    "pre @ format_chunk_terminator @ rest = (pre @ ''0'' @ CRLF) @ CRLF @ rest"
    by (simp_all add: format_chunk_terminator_def)
  have find: "find_crlf (pre @ format_chunk_terminator @ rest) (length pre) = Some (length pre + 1)"
    unfolding buf(1) by (subst find_crlf_no_cr) simp_all
  have s1: "subslice (pre @ format_chunk_terminator @ rest) (length pre) (length pre + 1) = show_hex 0"
    unfolding buf(1) using subslice_append [of pre "''0''" "CRLF @ CRLF @ rest"]
    by (subst show_radix.simps) (simp add: digit_char_0)
  have tr: "skip_trailers (pre @ format_chunk_terminator @ rest) (length pre + 1 + 2) = Some (length pre + 5)"
    unfolding buf(2) using assms skip_trailers_terminator [of "pre @ ''0'' @ CRLF" rest]
    by (simp add: add.assoc)
  have add: "checked_add (length pre + 1) 2 = Some (length pre + 1 + 2)"
    using assms by (simp add: checked_add_def)
  have z: "chunk_size (show_hex 0) = Some 0" by (rule chunk_size_show_hex) simp
  show ?thesis
    unfolding chunk_loop.simps find option.case s1 z add using tr by simp
qed

lemma chunk_loop_format:
  assumes "\<forall>c \<in> set cs. c \<noteq> []" "length cs < n" "length body + length (concat cs) \<le> MAX_CHUNKED_BODY"
    "length pre + length (concat (map format_chunk cs)) + 5 \<le> usize_max"
  shows "chunk_loop n (pre @ concat (map format_chunk cs) @ format_chunk_terminator @ rest) (length pre) body
    = Some (body @ concat cs, length pre + length (concat (map format_chunk cs)) + 5)"
  using assms
proof (induction cs arbitrary: n pre body)
  case Nil
  then obtain m where "n = Suc m" by (cases n) auto
  then show ?case using Nil chunk_loop_terminator by simp
next
  case (Cons c cs)
  then obtain m where n: "n = Suc m" by (cases n) auto
  have "chunk_loop n (pre @ concat (map format_chunk (c # cs)) @ format_chunk_terminator @ rest) (length pre) body
    = chunk_loop m ((pre @ format_chunk c) @ concat (map format_chunk cs) @ format_chunk_terminator @ rest)
        (length (pre @ format_chunk c)) (body @ c)"
    unfolding n using Cons.prems
      chunk_loop_step [of c body pre m "concat (map format_chunk cs) @ format_chunk_terminator @ rest"]
    by simp
  also have "\<dots> = Some ((body @ c) @ concat cs,
      length (pre @ format_chunk c) + length (concat (map format_chunk cs)) + 5)"
    using Cons.prems n by (intro Cons.IH) simp_all
  finally show ?case by simp
qed

text \<open>Decoding inverts the chunked encoding: for every list of non-empty chunks within the limits on
  count and size, at any offset and whatever follows, the parser returns the concatenation of the
  chunks and consumes exactly the encoding.\<close>

theorem chunked_roundtrip:
  assumes "\<forall>c \<in> set cs. c \<noteq> []" "length cs < MAX_CHUNK_COUNT" "length (concat cs) \<le> MAX_CHUNKED_BODY"
    "length pre + length (concat (map format_chunk cs)) + 5 \<le> usize_max"
  shows "parse_chunked_body (pre @ concat (map format_chunk cs) @ format_chunk_terminator @ rest) (length pre)
    = Some (concat cs, length pre + length (concat (map format_chunk cs) @ format_chunk_terminator))"
  using chunk_loop_format [of cs MAX_CHUNK_COUNT "[]" pre rest] assms
  by (simp add: parse_chunked_body_def format_chunk_terminator_def)

theorem chunked_roundtrip_witness:
  "parse_chunked_body (''head'' @ (format_chunk ''hello '' @ format_chunk ''world'') @ format_chunk_terminator @ ''next'')
      (length ''head'')
    = Some (''hello world'', length ''head'' + length (format_chunk ''hello '' @ format_chunk ''world'' @ format_chunk_terminator))"
proof -
  have "length (show_hex n) = 1" if "n < 16" for n
    using that by (subst show_radix.simps) simp
  then show ?thesis
    using chunked_roundtrip [of "[''hello '', ''world'']" "''head''" "''next''"]
    by (simp add: MAX_CHUNK_COUNT_def MAX_CHUNKED_BODY_def usize_max_def format_chunk_def)
qed


section \<open>A parse depends on the bytes it consumes\<close>

lemma find_sub_take:
  assumes "find_sub p s = Some i" "i + length p \<le> n" "p \<noteq> []"
  shows "find_sub p (take n s @ rest) = Some i"
proof -
  have "starts_with p (drop j (take n s)) = starts_with p (drop j s)" if "j \<le> i" for j
    using that assms(2) by (simp add: starts_with_def drop_take)
  then have "find_sub p (take n s) = Some i"
    using assms(1,2) by (auto simp: find_sub_Some_iff)
  then show ?thesis using assms(3) by (rule find_sub_append)
qed

lemma find_crlf_take:
  assumes "find_crlf buf pos = Some e" "e + 2 \<le> n" "n \<le> length buf"
  shows "find_crlf (take n buf @ rest) pos = Some e"
proof -
  obtain i where i: "find_sub CRLF (drop pos buf) = Some i" "e = pos + i" "pos \<le> length buf"
    using assms(1) by (auto simp: find_crlf_def split: if_splits)
  have "find_sub CRLF (take (n - pos) (drop pos buf) @ rest) = Some i"
    by (rule find_sub_take [OF i(1)]) (use assms(2) i(2) in auto)
  then show ?thesis using i assms(2,3) by (simp add: find_crlf_def drop_take)
qed

lemma checked_add_Some: "checked_add a b = Some c \<longleftrightarrow> c = a + b \<and> a + b \<le> usize_max"
  by (auto simp: checked_add_def)

lemma skip_trailers_take:
  assumes "skip_trailers buf pos = Some n"
  shows "pos + 2 \<le> n \<and> n \<le> length buf
    \<and> (n \<le> k \<and> k \<le> length buf \<longrightarrow> skip_trailers (take k buf @ rest) pos = Some n)"
  using assms
proof (induction buf pos rule: skip_trailers.induct)
  case (1 buf pos)
  from "1.prems" obtain e pos' where e: "find_crlf buf pos = Some e" "checked_add e 2 = Some pos'"
    and r: "if subslice buf pos e = [] then n = pos' else skip_trailers buf pos' = Some n"
    by (subst (asm) skip_trailers.simps) (auto split: option.splits if_splits)
  note le = find_crlf_Some [OF e(1)]
  have pos': "pos' = e + 2" using e(2) by (simp add: checked_add_Some)
  have bounds: "pos' \<le> n \<and> n \<le> length buf"
    using r le pos' "1.IH" [OF e] by (auto split: if_splits)
  have "skip_trailers (take k buf @ rest) pos = Some n" if k: "n \<le> k" "k \<le> length buf"
  proof -
    have "find_crlf (take k buf @ rest) pos = Some e"
      by (rule find_crlf_take [OF e(1)]) (use k bounds pos' in auto)
    moreover have "subslice (take k buf @ rest) pos e = subslice buf pos e"
      by (rule subslice_take) (use k bounds pos' in auto)
    ultimately show ?thesis
      using r e(2) "1.IH" [OF e] k by (subst skip_trailers.simps) (auto split: if_splits)
  qed
  then show ?case using bounds le pos' by auto
qed

lemma chunk_loop_take:
  assumes "chunk_loop m buf pos body = Some (b, n)"
  shows "pos \<le> n \<and> n \<le> length buf
    \<and> (n \<le> k \<and> k \<le> length buf \<longrightarrow> chunk_loop m (take k buf @ rest) pos body = Some (b, n))"
  using assms
proof (induction m arbitrary: pos body)
  case (Suc m)
  from Suc.prems obtain e sz pos1 where e: "find_crlf buf pos = Some e"
    "chunk_size (subslice buf pos e) = Some sz" "checked_add e 2 = Some pos1"
    by (auto split: option.splits)
  note le = find_crlf_Some [OF e(1)]
  have pos1: "pos1 = e + 2" using e(3) by (simp add: checked_add_Some)
  have crlf: "find_crlf (take k buf @ rest) pos = Some e" if "e + 2 \<le> k" "k \<le> length buf" for k
    by (rule find_crlf_take [OF e(1) that])
  have sl: "subslice (take k buf @ rest) a c = subslice buf a c" if "c \<le> k" "k \<le> length buf" for k a c
    by (rule subslice_take [OF that])
  show ?case
  proof (cases "sz = 0")
    case True
    then have t: "skip_trailers buf pos1 = Some n" "b = body" using Suc.prems e by auto
    show ?thesis using skip_trailers_take [OF t(1), of k rest] True t(2) crlf [of k] e(2,3) sl [of e k pos] le pos1
      by auto
  next
    case False
    obtain ce cc where c: "checked_add pos1 sz = Some ce" "checked_add ce 2 = Some cc"
      "sz \<le> length buf - pos1" "\<not> MAX_CHUNKED_BODY < min usize_max (length body + sz)" "cc \<le> length buf"
      "subslice buf ce cc = CRLF" "chunk_loop m buf cc (body @ subslice buf pos1 ce) = Some (b, n)"
      using Suc.prems e False by (auto split: option.splits if_splits)
    have ce: "ce = pos1 + sz" "cc = ce + 2" using c(1,2) by (simp_all add: checked_add_Some)
    note ih = Suc.IH [OF c(7)]
    have "chunk_loop (Suc m) (take k buf @ rest) pos body = Some (b, n)" if k: "n \<le> k" "k \<le> length buf"
    proof -
      have k': "cc \<le> k" using ih k by simp
      then have "find_crlf (take k buf @ rest) pos = Some e" "subslice (take k buf @ rest) pos e = subslice buf pos e"
        "subslice (take k buf @ rest) pos1 ce = subslice buf pos1 ce"
        "subslice (take k buf @ rest) ce cc = subslice buf ce cc"
        using crlf [of k] sl [of _ k] k(2) ce pos1 by auto
      moreover have "sz \<le> length (take k buf @ rest) - pos1" "cc \<le> length (take k buf @ rest)"
        using k' k(2) ce pos1 by auto
      ultimately show ?thesis
        using ih k c False e(2,3) by simp
    qed
    then show ?thesis using ih ce pos1 le by auto
  qed
qed simp

lemma parse_body_take:
  assumes "parse_body buf start st = Some (Some (b, n))"
  shows "start \<le> n \<and> n \<le> length buf \<and> parse_body (take n buf @ rest) start st = Some (Some (b, n))"
proof (cases "hs_is_chunked st")
  case True
  then show ?thesis
    using assms chunk_loop_take [of MAX_CHUNK_COUNT buf start "[]" b n n rest]
    by (simp add: parse_body_def parse_chunked_body_def)
next
  case False
  then have "n = (start + hs_content_length st) mod 2 ^ 64" "n \<le> length buf" "start \<le> n" "b = subslice buf start n"
    using assms by (auto simp: parse_body_def Let_def split: if_splits)
  then show ?thesis using False subslice_take [of n n buf rest start]
    by (simp add: parse_body_def Let_def)
qed

lemma try_parse_Complete:
  "try_parse_http_request buf = Some (Complete r n) \<longleftrightarrow>
     (\<exists>he rl ls m path ws st. find_sub CRLFCRLF buf = Some he \<and> is_utf8 (take he buf)
        \<and> split_str CRLF (take he buf) = rl # ls \<and> split_whitespace rl = m # path # ws
        \<and> header_loop ls header_state_init = Inr st \<and> \<not> (hs_is_chunked st \<and> hs_has_content_length st)
        \<and> parse_body buf (he + 4) st = Some (Some (rq_body r, n))
        \<and> rq_method r = m \<and> rq_path r = path \<and> rq_headers r = hs_headers st)"
  by (cases r) (auto simp: try_parse_http_request_def split: option.splits list.splits sum.splits if_splits)

text \<open>A completely parsed request is determined by the bytes it consumed: the consumed count lies
  within the buffer, and replacing everything after it by other bytes, or by none, gives the same
  request. Bytes of the next request on the connection never influence this one.\<close>

theorem complete_parse_stable:
  assumes "try_parse_http_request buf = Some (Complete r n)"
  shows "n \<le> length buf \<and> try_parse_http_request (take n buf @ rest) = Some (Complete r n)"
proof -
  obtain he rl ls m path ws st where p: "find_sub CRLFCRLF buf = Some he" "is_utf8 (take he buf)"
    "split_str CRLF (take he buf) = rl # ls" "split_whitespace rl = m # path # ws"
    "header_loop ls header_state_init = Inr st" "\<not> (hs_is_chunked st \<and> hs_has_content_length st)"
    "parse_body buf (he + 4) st = Some (Some (rq_body r, n))"
    "rq_method r = m" "rq_path r = path" "rq_headers r = hs_headers st"
    using assms by (auto simp: try_parse_Complete)
  note b = parse_body_take [OF p(7), of rest]
  have "find_sub CRLFCRLF (take n buf @ rest) = Some he"
    by (rule find_sub_take [OF p(1)]) (use b in auto)
  moreover have "take he (take n buf @ rest) = take he buf" using b by simp
  ultimately have "try_parse_http_request (take n buf @ rest) = Some (Complete r n)"
    unfolding try_parse_Complete using p b
    by (intro exI [of _ he] exI [of _ rl] exI [of _ ls] exI [of _ m] exI [of _ path] exI [of _ ws] exI [of _ st]) simp
  then show ?thesis using b by simp
qed


definition example_request :: string where
  "example_request = ''POST /v1 HTTP/1.1'' @ CRLF @ ''Content-Length: 2'' @ CRLFCRLF @ ''hi''"

lemma example_request_head:
  "find_sub CRLFCRLF (example_request @ s) = Some 36" "is_utf8 (take 36 (example_request @ s))"
  "split_str CRLF (take 36 (example_request @ s)) = [''POST /v1 HTTP/1.1'', ''Content-Length: 2'']"
  "split_whitespace ''POST /v1 HTTP/1.1'' = [''POST'', ''/v1'', ''HTTP/1.1'']"
proof -
  have f: "find_sub CRLFCRLF example_request = Some 36" by code_simp
  then show "find_sub CRLFCRLF (example_request @ s) = Some 36" by (rule find_sub_append) simp
  have t: "take 36 (example_request @ s) = take 36 example_request" by (simp add: example_request_def)
  show "is_utf8 (take 36 (example_request @ s))" unfolding t by code_simp
  show "split_str CRLF (take 36 (example_request @ s)) = [''POST /v1 HTTP/1.1'', ''Content-Length: 2'']"
    unfolding t by code_simp
  show "split_whitespace ''POST /v1 HTTP/1.1'' = [''POST'', ''/v1'', ''HTTP/1.1'']" by code_simp
qed

lemma example_request_headers:
  "header_loop [''Content-Length: 2''] header_state_init = Inr \<lparr>hs_headers = [(''Content-Length'', ''2'')],
     hs_content_length = 2, hs_has_content_length = True, hs_is_chunked = False\<rparr>"
proof -
  have "split_once '':'' ''Content-Length: 2'' = Some (''Content-Length'', '' 2'')"
    "trim ''Content-Length'' = ''Content-Length''" "trim '' 2'' = ''2''"
    "eq_ignore_ascii_case ''Content-Length'' ''content-length''"
    "\<not> eq_ignore_ascii_case ''Content-Length'' ''transfer-encoding''"
    by code_simp+
  moreover have "parse_uint 10 64 ''2'' = Some 2"
    by (simp add: parse_uint_def digit_value_def is_ascii_digit_def)
  ultimately show ?thesis by (simp add: content_length_step_def header_state_init_def)
qed

lemma example_request_complete:
  "try_parse_http_request (example_request @ s) = Some (Complete \<lparr>rq_method = ''POST'', rq_path = ''/v1'',
     rq_headers = [(''Content-Length'', ''2'')], rq_body = ''hi''\<rparr> 42)"
proof -
  have b: "parse_body (example_request @ s) 40 \<lparr>hs_headers = [(''Content-Length'', ''2'')],
     hs_content_length = 2, hs_has_content_length = True, hs_is_chunked = False\<rparr> = Some (Some (''hi'', 42))"
    by (simp add: parse_body_def subslice_def example_request_def)
  show ?thesis unfolding try_parse_Complete using b
    by (simp add: example_request_head example_request_headers del: take_append header_loop.simps)
qed

theorem complete_parse_stable_witness:
  "try_parse_http_request (take 42 (example_request @ ''GET /'') @ ''DELETE /'') = Some (Complete
     \<lparr>rq_method = ''POST'', rq_path = ''/v1'', rq_headers = [(''Content-Length'', ''2'')], rq_body = ''hi''\<rparr> 42)"
  using complete_parse_stable [OF example_request_complete [of "''GET /''"], of "''DELETE /''"] by blast

section \<open>Framing\<close>

text \<open>What the header loop knows of the headers it has seen.\<close>

definition framing_known :: "header_state \<Rightarrow> bool" where
  "framing_known st \<longleftrightarrow>
     (\<forall>(n, v) \<in> set (hs_headers st). eq_ignore_ascii_case n ''content-length'' \<longrightarrow>
        hs_has_content_length st \<and> parse_uint 10 64 v = Some (hs_content_length st))
     \<and> (hs_is_chunked st \<longleftrightarrow> (\<exists>(n, v) \<in> set (hs_headers st).
          eq_ignore_ascii_case n ''transfer-encoding'' \<and> lists_chunked v))
     \<and> (hs_has_content_length st \<longrightarrow> (\<exists>(n, v) \<in> set (hs_headers st). eq_ignore_ascii_case n ''content-length''))
     \<and> (\<not> hs_has_content_length st \<longrightarrow> hs_content_length st = 0)"

lemma content_length_step_ok:
  assumes "content_length_step nm v st = Inr st'"
  shows "hs_headers st' = hs_headers st \<and> hs_is_chunked st' = hs_is_chunked st \<and>
    (if eq_ignore_ascii_case nm ''content-length''
     then parse_uint 10 64 v = Some (hs_content_length st') \<and> hs_has_content_length st'
        \<and> (hs_has_content_length st \<longrightarrow> hs_content_length st' = hs_content_length st)
     else st' = st)"
  using assms by (auto simp: content_length_step_def split: if_splits option.splits)

lemma header_loop_framing: "header_loop ls st = Inr st' \<Longrightarrow> framing_known st \<Longrightarrow> framing_known st'"
proof (induction ls st rule: header_loop.induct)
  case (2 line ls st)
  show ?case
  proof (cases "line = [] \<or> split_once '':'' line = None")
    case True
    then show ?thesis using 2 by (auto split: if_splits)
  next
    case False
    then obtain n v where nv: "split_once '':'' line = Some (n, v)" "line \<noteq> []" by auto
    let ?n = "trim n" let ?v = "trim v"
    obtain st1 where s1: "content_length_step ?n ?v st = Inr st1"
      using 2(3) nv by (auto simp: Let_def and_then_Inr)
    define st2 where "st2 = (if eq_ignore_ascii_case ?n ''transfer-encoding'' \<and> lists_chunked ?v
      then st1\<lparr>hs_is_chunked := True\<rparr> else st1)"
    have l: "header_loop ls (st2\<lparr>hs_headers := hs_headers st2 @ [(?n, ?v)]\<rparr>) = Inr st'"
      using 2(3) nv s1 by (simp add: Let_def st2_def)
    have "framing_known (st2\<lparr>hs_headers := hs_headers st2 @ [(?n, ?v)]\<rparr>)"
      using content_length_step_ok [OF s1] 2(4) unfolding framing_known_def st2_def
      by (auto split: if_splits)
    then show ?thesis using 2(2) [OF nv(2) nv(1) refl refl refl st2_def] l by simp
  qed
qed simp

lemma chunk_loop_bound:
  "chunk_loop m buf pos body = Some (b, n) \<Longrightarrow> length body \<le> MAX_CHUNKED_BODY \<Longrightarrow> length b \<le> MAX_CHUNKED_BODY"
proof (induction m buf pos body rule: chunk_loop.induct)
  case (2 m buf pos body)
  from "2.prems"(1) obtain e sz pos1 where e: "find_crlf buf pos = Some e"
    "chunk_size (subslice buf pos e) = Some sz" "checked_add e 2 = Some pos1"
    by (auto split: option.splits)
  show ?case
  proof (cases "sz = 0")
    case True
    then show ?thesis using "2.prems" e by auto
  next
    case False
    obtain ce cc where c: "checked_add pos1 sz = Some ce" "checked_add ce 2 = Some cc"
      "\<not> sz > length buf - pos1" "\<not> min usize_max (length body + sz) > MAX_CHUNKED_BODY"
      "\<not> length buf < cc" "\<not> subslice buf ce cc \<noteq> CRLF"
      "chunk_loop m buf cc (body @ subslice buf pos1 ce) = Some (b, n)"
      using "2.prems"(1) e False by (auto split: option.splits if_splits)
    have "length (body @ subslice buf pos1 ce) \<le> MAX_CHUNKED_BODY"
      using c(1,4) by (auto simp: checked_add_Some subslice_def MAX_CHUNKED_BODY_def usize_max_def)
    then show ?thesis by (rule "2.IH" [OF e False c(3,4,1,2,5,6,7)])
  qed
qed simp

text \<open>The framing of an accepted request is unambiguous: every Content-Length header gives exactly
  the length of the body and excludes chunked encoding, without either header the body is empty, and
  a chunked body is bounded by the limit.\<close>

theorem request_framing_unambiguous:
  assumes "try_parse_http_request buf = Some (Complete r n)"
  shows "(\<forall>(k, v) \<in> set (rq_headers r). eq_ignore_ascii_case k ''content-length'' \<longrightarrow>
      parse_uint 10 64 v = Some (length (rq_body r))
      \<and> \<not> (\<exists>(k, v) \<in> set (rq_headers r). eq_ignore_ascii_case k ''transfer-encoding'' \<and> lists_chunked v))
    \<and> ((\<exists>(k, v) \<in> set (rq_headers r). eq_ignore_ascii_case k ''content-length''
          \<or> eq_ignore_ascii_case k ''transfer-encoding'' \<and> lists_chunked v) \<or> rq_body r = [])
    \<and> ((\<exists>(k, v) \<in> set (rq_headers r). eq_ignore_ascii_case k ''transfer-encoding'' \<and> lists_chunked v)
        \<longrightarrow> length (rq_body r) \<le> MAX_CHUNKED_BODY)"
proof -
  obtain he ls st where p: "header_loop ls header_state_init = Inr st"
    "\<not> (hs_is_chunked st \<and> hs_has_content_length st)"
    "parse_body buf (he + 4) st = Some (Some (rq_body r, n))" "rq_headers r = hs_headers st"
    using assms by (auto simp: try_parse_Complete)
  have "framing_known header_state_init" by (simp add: framing_known_def header_state_init_def)
  then have k: "framing_known st" by (rule header_loop_framing [OF p(1)])
  have chunked: "length (rq_body r) \<le> MAX_CHUNKED_BODY" if "hs_is_chunked st"
    using that p(3) chunk_loop_bound [of MAX_CHUNK_COUNT buf "he + 4" "[]" "rq_body r" n]
    by (simp add: parse_body_def parse_chunked_body_def)
  have plain: "length (rq_body r) = hs_content_length st" if "\<not> hs_is_chunked st" "hs_content_length st < 2 ^ 64"
  proof -
    let ?s = "he + 4" let ?c = "hs_content_length st"
    have n: "n = (?s + ?c) mod 2 ^ 64" "?s \<le> n" "n \<le> length buf" "rq_body r = subslice buf ?s n"
      using p(3) that(1) by (auto simp: parse_body_def Let_def split: if_splits)
    have "?s + ?c < 2 ^ 64"
    proof (rule ccontr)
      assume "\<not> ?s + ?c < 2 ^ 64"
      then have "(?s + ?c) mod 2 ^ 64 \<le> ?s + ?c - 2 ^ 64"
        by (metis le_mod_geq linorder_not_less mod_less_eq_dividend)
      then show False using n(1,2) that(2) by linarith
    qed
    then have "n = ?s + ?c" using n(1) by simp
    then show ?thesis using n by (simp add: subslice_def)
  qed
  have cl: "hs_content_length st < 2 ^ 64"
    using k parse_uint_bound by (cases "hs_has_content_length st") (fastforce simp: framing_known_def)+
  show ?thesis
    using k p(2) chunked plain cl unfolding framing_known_def p(4) by fastforce
qed

theorem request_framing_unambiguous_witness:
  "try_parse_http_request example_request = Some (Complete \<lparr>rq_method = ''POST'', rq_path = ''/v1'',
     rq_headers = [(''Content-Length'', ''2'')], rq_body = ''hi''\<rparr> 42)
   \<and> parse_uint 10 64 ''2'' = Some (length ''hi'')"
  using example_request_complete [of "[]"] request_framing_unambiguous [OF example_request_complete [of "[]"]]
  by (simp add: eq_ignore_ascii_case_def to_ascii_lowercase_def ascii_lower_def is_ascii_upper_def)

section \<open>A panic\<close>

lemma parse_body_overflow:
  assumes "\<not> hs_is_chunked st" "hs_content_length st < 2 ^ 64" "2 ^ 64 \<le> start + hs_content_length st"
    "start \<le> length buf" "start < 2 ^ 64"
  shows "parse_body buf start st = None"
proof -
  have "(start + hs_content_length st) mod 2 ^ 64 = start + hs_content_length st - 2 ^ 64"
    using assms by (simp add: le_mod_geq)
  then show ?thesis using assms by (simp add: parse_body_def Let_def)
qed

definition overflowing_request :: string where
  "overflowing_request = ''GET / HTTP/1.1'' @ CRLF @ ''Content-Length: 18446744073709551615'' @ CRLFCRLF"

text \<open>A Content-Length at the top of its type makes the parser panic: the end of the body overflows
  and the slice of the body is taken with its end before its start.\<close>

theorem content_length_overflow_panics: "try_parse_http_request overflowing_request = None"
proof -
  have "find_sub CRLFCRLF overflowing_request = Some 52" "is_utf8 (take 52 overflowing_request)"
    "split_str CRLF (take 52 overflowing_request) = [''GET / HTTP/1.1'', ''Content-Length: 18446744073709551615'']"
    "split_whitespace ''GET / HTTP/1.1'' = [''GET'', ''/'', ''HTTP/1.1'']"
    by code_simp+
  moreover have "header_loop [''Content-Length: 18446744073709551615''] header_state_init
      = Inr \<lparr>hs_headers = [(''Content-Length'', ''18446744073709551615'')],
        hs_content_length = 18446744073709551615, hs_has_content_length = True, hs_is_chunked = False\<rparr>"
  proof -
    have "split_once '':'' ''Content-Length: 18446744073709551615'' = Some (''Content-Length'', '' 18446744073709551615'')"
      "trim ''Content-Length'' = ''Content-Length''" "trim '' 18446744073709551615'' = ''18446744073709551615''"
      "eq_ignore_ascii_case ''Content-Length'' ''content-length''"
      "\<not> eq_ignore_ascii_case ''Content-Length'' ''transfer-encoding''"
      by code_simp+
    moreover have "parse_uint 10 64 ''18446744073709551615'' = Some 18446744073709551615"
      by (simp add: parse_uint_def digit_value_def is_ascii_digit_def)
    ultimately show ?thesis by (simp add: content_length_step_def header_state_init_def)
  qed
  moreover have "length overflowing_request = 56" by (simp add: overflowing_request_def)
  ultimately show ?thesis
    by (simp add: try_parse_http_request_def parse_body_overflow del: header_loop.simps)
qed

end
