(* ===== verification/Rest_Http.thy ===== *)
theory Rest_Http
  imports Secrets Inference_Http
begin

text \<open>
  The REST provider of the sandbox proxy (\<open>crates/openshell-sandbox/src/l7/rest.rs\<close>): reading one request
  head byte by byte, its checks, body framing, relaying of bodies and responses.

  A stream is the list of segments that successive reads deliver; the end of the list is the end of the
  stream (or, where the code reads with an idle timeout, the timeout). Writes succeed. A relay function
  returns its result, the bytes it wrote and the rest of its input.
\<close>

section \<open>Streams\<close>

type_synonym segments = "string list"

text \<open>\<open>read\<close> into a buffer of \<open>k\<close> bytes.\<close>

fun read_some :: "nat \<Rightarrow> segments \<Rightarrow> string \<times> segments" where
  "read_some k [] = ([], [])"
| "read_some k (seg # segs) =
     (if seg = [] then read_some k segs
      else (take k seg, if length seg \<le> k then segs else drop k seg # segs))"

fun read_u8 :: "segments \<Rightarrow> (char \<times> segments) option" where
  "read_u8 [] = None"
| "read_u8 ([] # segs) = read_u8 segs"
| "read_u8 ((b # seg) # segs) = Some (b, seg # segs)"

lemma read_some_concat: "read_some k segs = (b, segs') \<Longrightarrow> b @ concat segs' = concat segs"
  by (induction k segs rule: read_some.induct) (auto split: if_splits)

lemma read_some_empty: "read_some k segs = ([], segs') \<Longrightarrow> 0 < k \<Longrightarrow> concat segs = []"
  by (induction k segs rule: read_some.induct) (auto split: if_splits)

lemma read_some_length: "read_some k segs = (b, segs') \<Longrightarrow> length b \<le> k"
  by (induction k segs rule: read_some.induct) (auto split: if_splits)

lemma read_u8_concat: "read_u8 segs = Some (b, segs') \<Longrightarrow> b # concat segs' = concat segs"
  by (induction segs rule: read_u8.induct) auto

lemma read_u8_None: "read_u8 segs = None \<longleftrightarrow> concat segs = []"
  by (induction segs rule: read_u8.induct) auto

section \<open>Requests\<close>

type_synonym query_map = "(string \<times> string list) list"

datatype body_length = ContentLength nat | Chunked | NoBody

record l7_request =
  l7_action :: string
  l7_target :: string
  l7_query_params :: "query_map"
  l7_raw_header :: string
  l7_body_length :: body_length

datatype relay_outcome = Reusable | Consumed | Upgraded string

definition MAX_HEADER_BYTES :: nat where "MAX_HEADER_BYTES = 16384"
definition RELAY_BUF_SIZE :: nat where "RELAY_BUF_SIZE = 8192"

text \<open>The head of a request, read byte by byte; no head when the stream ends before its first byte.\<close>

function read_head :: "string \<Rightarrow> segments \<Rightarrow> (string, string option \<times> segments) result" where
  "read_head buf segs =
     (if length buf > MAX_HEADER_BYTES
      then Inl (''HTTP request headers exceed '' @ show_nat MAX_HEADER_BYTES @ '' bytes'')
      else case read_u8 segs of
        None \<Rightarrow> if buf = [] then Inr (None, segs) else Inl ''unexpected end of file''
      | Some (b, segs') \<Rightarrow>
          if ends_with CRLFCRLF (buf @ [b]) then Inr (Some (buf @ [b]), segs')
          else read_head (buf @ [b]) segs')"
  by pat_completeness auto
termination
proof (relation "measure (\<lambda>(buf, segs). length (concat segs))")
  fix buf segs and x :: "char \<times> segments" and b segs'
  assume "read_u8 segs = Some x" "(b, segs') = x"
  then have "b # concat segs' = concat segs" using read_u8_concat by blast
  then show "((buf @ [b], segs'), buf, segs) \<in> measure (\<lambda>(buf, segs). length (concat segs))"
    by (metis (no_types) case_prod_conv in_measure length_Cons lessI)
qed simp

declare read_head.simps [simp del]

fun bare_lf :: "char \<Rightarrow> string \<Rightarrow> bool" where
  "bare_lf prev [] = False"
| "bare_lf prev (c # cs) \<longleftrightarrow> c = LF \<and> prev \<noteq> CR \<or> bare_lf c cs"

definition decode_hex_nibble :: "char \<Rightarrow> nat option" where
  "decode_hex_nibble c =
     (if 48 \<le> ord c \<and> ord c \<le> 57 then Some (ord c - 48)
      else if 97 \<le> ord c \<and> ord c \<le> 102 then Some (ord c - 97 + 10)
      else if 65 \<le> ord c \<and> ord c \<le> 70 then Some (ord c - 65 + 10) else None)"

fun decode_query_bytes :: "string \<Rightarrow> (string, string) result" where
  "decode_query_bytes [] = Inr []"
| "decode_query_bytes (c # cs) =
     (if c = CHR ''+'' then and_then (decode_query_bytes cs) (\<lambda>d. Inr (CHR '' '' # d))
      else if c \<noteq> CHR 0x25 then and_then (decode_query_bytes cs) (\<lambda>d. Inr (c # d))
      else case cs of
        h # l # rest \<Rightarrow> (case (decode_hex_nibble h, decode_hex_nibble l) of
            (Some hi, Some lo) \<Rightarrow> and_then (decode_query_bytes rest) (\<lambda>d. Inr (char_of (16 * hi + lo) # d))
          | _ \<Rightarrow> Inl ''Invalid percent-encoding in query component'')
      | _ \<Rightarrow> Inl ''Invalid percent-encoding in query component'')"

definition decode_query_component :: "string \<Rightarrow> (string, string) result" where
  "decode_query_component input = and_then (decode_query_bytes input) (\<lambda>decoded.
     if is_utf8 decoded then Inr decoded else Inl ''Query component is not valid UTF-8'')"

definition push_param :: "string \<Rightarrow> string \<Rightarrow> query_map \<Rightarrow> query_map" where
  "push_param k v params = al_insert k ((case map_of params k of None \<Rightarrow> [] | Some vs \<Rightarrow> vs) @ [v]) params"

fun query_pairs :: "string list \<Rightarrow> query_map \<Rightarrow> (string, query_map) result" where
  "query_pairs [] params = Inr params"
| "query_pairs (pair # pairs) params =
     (if pair = [] then query_pairs pairs params
      else let (raw_key, raw_value) = (case split_once ''='' pair of Some kv \<Rightarrow> kv | None \<Rightarrow> (pair, [])) in
        and_then (decode_query_component raw_key) (\<lambda>key.
        and_then (decode_query_component raw_value) (\<lambda>v.
          query_pairs pairs (push_param key v params))))"

definition parse_query_params :: "string \<Rightarrow> (string, query_map) result" where
  "parse_query_params query = (if query = [] then Inr [] else query_pairs (split_char CHR ''&'' query) [])"

definition parse_target_query :: "string \<Rightarrow> (string, string \<times> query_map) result" where
  "parse_target_query target = (case split_once ''?'' target of
     Some (path, query) \<Rightarrow> and_then (parse_query_params query) (\<lambda>ps. Inr (path, ps))
   | None \<Rightarrow> Inr (target, []))"

text \<open>The value of a lower-cased header line, and the framing of a message.\<close>

definition header_value :: "string \<Rightarrow> string" where
  "header_value lower = (case split_once '':'' lower of None \<Rightarrow> [] | Some (_, v) \<Rightarrow> trim v)"

fun body_length_loop :: "string list \<Rightarrow> bool \<Rightarrow> nat option \<Rightarrow> (string, bool \<times> nat option) result" where
  "body_length_loop [] te cl = Inr (te, cl)"
| "body_length_loop (line # ls) te cl =
     (let lower = to_ascii_lowercase line;
          te' = (te \<or> starts_with ''transfer-encoding:'' lower
             \<and> list_ex (\<lambda>enc. trim enc = ''chunked'') (split_char CHR '','' (header_value lower)))
      in if starts_with ''content-length:'' lower then
           (case parse_uint 10 64 (header_value lower) of
              None \<Rightarrow> Inl ''Request contains invalid Content-Length value''
            | Some len \<Rightarrow> (case cl of
                Some prev \<Rightarrow> if prev \<noteq> len
                  then Inl (''Request contains multiple Content-Length headers with differing values (''
                    @ show_nat prev @ '' vs '' @ show_nat len @ '')'')
                  else body_length_loop ls te' (Some len)
              | None \<Rightarrow> body_length_loop ls te' (Some len)))
         else body_length_loop ls te' cl)"

definition parse_body_length :: "string \<Rightarrow> (string, body_length) result" where
  "parse_body_length headers = and_then (body_length_loop (drop 1 (lines headers)) False None) (\<lambda>(te, cl).
     if te \<and> cl \<noteq> None then Inl ''Request contains both Transfer-Encoding and Content-Length headers''
     else if te then Inr Chunked
     else case cl of Some len \<Rightarrow> Inr (ContentLength len) | None \<Rightarrow> Inr NoBody)"

definition parse_head :: "string \<Rightarrow> (string, l7_request) result" where
  "parse_head buf =
     (if bare_lf NUL buf then Inl ''HTTP headers contain bare LF (line feed without carriage return)''
      else if \<not> is_utf8 buf then Inl ''HTTP headers contain invalid UTF-8''
      else case lines buf of [] \<Rightarrow> Inl ''Empty HTTP request''
      | request_line # _ \<Rightarrow> (case split_whitespace request_line of
          [] \<Rightarrow> Inl ''Missing HTTP method''
        | [_] \<Rightarrow> Inl ''Missing HTTP path''
        | [_, _] \<Rightarrow> Inl ''Missing HTTP version''
        | m # target # version # _ \<Rightarrow>
            if version \<noteq> ''HTTP/1.1'' \<and> version \<noteq> ''HTTP/1.0''
            then Inl (''Unsupported HTTP version: '' @ version)
            else and_then (parse_body_length buf) (\<lambda>bl.
              and_then (parse_target_query target) (\<lambda>(path, params).
                Inr \<lparr>l7_action = m, l7_target = path, l7_query_params = params,
                     l7_raw_header = buf, l7_body_length = bl\<rparr>))))"

definition parse_http_request :: "segments \<Rightarrow> (string, l7_request option) result \<times> segments" where
  "parse_http_request segs = (case read_head [] segs of
     Inl e \<Rightarrow> (Inl e, segs)
   | Inr (None, segs') \<Rightarrow> (Inr None, segs')
   | Inr (Some buf, segs') \<Rightarrow> (case parse_head buf of
       Inl e \<Rightarrow> (Inl e, segs') | Inr req \<Rightarrow> (Inr (Some req), segs')))"

end
