(* ===== verification/Rest_Relay.thy ===== *)
theory Rest_Relay
  imports Rest_Http
begin

text \<open>
  Relaying of message bodies and responses (\<open>crates/openshell-sandbox/src/l7/rest.rs\<close>). A copying loop
  maps its input segments to its result, the bytes it wrote and the remaining input; a connection holds
  the two inputs and everything written to the two ends.
\<close>

section \<open>Copying loops\<close>

lemma read_some_shorter:
  "read_some k segs = (b, segs') \<Longrightarrow> b \<noteq> [] \<Longrightarrow> length (concat segs') < length (concat segs)"
  using read_some_concat [of k segs b segs'] by (metis length_append length_greater_0_conv less_add_same_cancel2)

type_synonym 'a copy = "(string, 'a) result \<times> string \<times> segments"

function relay_fixed :: "nat \<Rightarrow> string \<Rightarrow> segments \<Rightarrow> unit copy" where
  "relay_fixed remaining out segs =
     (if remaining = 0 then (Inr (), out, segs)
      else let (b, segs') = read_some (min remaining RELAY_BUF_SIZE) segs in
        if b = [] then (Inl (''Connection closed with '' @ show_nat remaining @ '' bytes remaining''), out, segs')
        else relay_fixed (remaining - length b) (out @ b) segs')"
  by pat_completeness auto
termination
  by (relation "measure (\<lambda>(remaining, out, segs). remaining)") auto

declare relay_fixed.simps [simp del]

text \<open>Reading more until a line end is found from a position on, or until the buffer is long enough.\<close>

function fill_crlf :: "string \<Rightarrow> string \<Rightarrow> nat \<Rightarrow> string \<Rightarrow> segments \<Rightarrow> (nat \<times> string) copy" where
  "fill_crlf err parse_buf pos out segs =
     (case find_crlf parse_buf pos of
        Some e \<Rightarrow> (Inr (e, parse_buf), out, segs)
      | None \<Rightarrow> (case read_some RELAY_BUF_SIZE segs of (b, segs') \<Rightarrow>
          if b = [] then (Inl err, out, segs')
          else fill_crlf err (parse_buf @ b) pos (out @ b) segs'))"
  by pat_completeness auto
termination
proof (relation "measure (\<lambda>(err, parse_buf, pos, out, segs). length (concat segs))")
  fix err parse_buf pos out segs b segs'
  assume "(b, segs') = read_some RELAY_BUF_SIZE segs" "b \<noteq> []"
  then show "((err, parse_buf @ b, pos, out @ b, segs'), err, parse_buf, pos, out, segs)
      \<in> measure (\<lambda>(err, parse_buf, pos, out, segs). length (concat segs))"
    using read_some_shorter [of RELAY_BUF_SIZE segs b segs'] by simp
qed simp

function fill_len :: "string \<Rightarrow> nat \<Rightarrow> string \<Rightarrow> string \<Rightarrow> segments \<Rightarrow> string copy" where
  "fill_len err needed parse_buf out segs =
     (if needed \<le> length parse_buf then (Inr parse_buf, out, segs)
      else (case read_some RELAY_BUF_SIZE segs of (b, segs') \<Rightarrow>
        if b = [] then (Inl err, out, segs')
        else fill_len err needed (parse_buf @ b) (out @ b) segs'))"
  by pat_completeness auto
termination
proof (relation "measure (\<lambda>(err, needed, parse_buf, out, segs). needed - length parse_buf)")
  fix err needed and parse_buf out :: string and segs b segs'
  assume "\<not> needed \<le> length parse_buf" "(b, segs') = read_some RELAY_BUF_SIZE segs" "b \<noteq> []"
  then show "((err, needed, parse_buf @ b, out @ b, segs'), err, needed, parse_buf, out, segs)
      \<in> measure (\<lambda>(err, needed, parse_buf, out, segs). needed - length parse_buf)"
    by (cases b) auto
qed simp

declare fill_crlf.simps [simp del] fill_len.simps [simp del]

text \<open>What a filling loop reads is exactly what it writes and appends to the parse buffer.\<close>

lemma fill_crlf_reads:
  "fill_crlf err pb pos out segs = (Inr (e, pb'), out', segs') \<Longrightarrow>
    \<exists>r. pb' = pb @ r \<and> out' = out @ r \<and> r @ concat segs' = concat segs \<and> find_crlf pb' pos = Some e"
proof (induction err pb pos out segs rule: fill_crlf.induct)
  case (1 err pb pos out segs)
  show ?case
  proof (cases "find_crlf pb pos")
    case None
    obtain b s1 where b: "read_some RELAY_BUF_SIZE segs = (b, s1)" by fastforce
    then have "b \<noteq> []" "fill_crlf err (pb @ b) pos (out @ b) s1 = (Inr (e, pb'), out', segs')"
      using "1.prems" None by (auto simp: fill_crlf.simps [of err pb] split: if_splits)
    then show ?thesis
      using "1.IH" [OF None b [symmetric]] read_some_concat [OF b] by fastforce
  qed (use "1.prems" in \<open>simp add: fill_crlf.simps [of err pb]\<close>)
qed

lemma fill_len_reads:
  "fill_len err needed pb out segs = (Inr pb', out', segs') \<Longrightarrow>
    \<exists>r. pb' = pb @ r \<and> out' = out @ r \<and> r @ concat segs' = concat segs \<and> needed \<le> length pb'"
proof (induction err needed pb out segs rule: fill_len.induct)
  case (1 err needed pb out segs)
  show ?case
  proof (cases "needed \<le> length pb")
    case False
    obtain b s1 where b: "read_some RELAY_BUF_SIZE segs = (b, s1)" by fastforce
    then have "b \<noteq> []" "fill_len err needed (pb @ b) (out @ b) s1 = (Inr pb', out', segs')"
      using "1.prems" False by (auto simp: fill_len.simps [of err needed pb] split: if_splits)
    then show ?thesis
      using "1.IH" [OF False b [symmetric]] read_some_concat [OF b] by fastforce
  qed (use "1.prems" in \<open>simp add: fill_len.simps [of err needed pb]\<close>)
qed

lemma fill_crlf_decreases:
  assumes "(Inr (e, pb'), out', segs') = fill_crlf err pb pos out segs"
  shows "length pb' + length (concat segs') - Suc e < Suc (length pb + length (concat segs)) - pos"
proof -
  obtain r where r: "pb' = pb @ r" "r @ concat segs' = concat segs" "find_crlf pb' pos = Some e"
    using fill_crlf_reads [OF assms [symmetric]] by blast
  then have "length (concat segs) = length r + length (concat segs')" by (metis length_append)
  then show ?thesis using find_crlf_Some [OF r(3)] r(1) by (simp; linarith)
qed

text \<open>The trailer lines after the last chunk.\<close>

function relay_trailers :: "string \<Rightarrow> nat \<Rightarrow> string \<Rightarrow> segments \<Rightarrow> unit copy" where
  "relay_trailers parse_buf pos out segs =
     (case fill_crlf ''Chunked body ended before trailer terminator'' parse_buf pos out segs of
        (Inl e, out', segs') \<Rightarrow> (Inl e, out', segs')
      | (Inr (e, pb), out', segs') \<Rightarrow>
          if subslice pb pos e = [] then (Inr (), out', segs') else relay_trailers pb (e + 2) out' segs')"
  by pat_completeness auto
termination
  by (relation "measure (\<lambda>(pb, pos, out, segs). length pb + length (concat segs) + 1 - pos)")
    (auto dest: fill_crlf_decreases)

declare relay_trailers.simps [simp del]

text \<open>One chunk after its size line: the end of its data and line end, and the bounded parse buffer.\<close>

definition chunk_data :: "nat \<Rightarrow> string \<Rightarrow> nat \<Rightarrow> string \<Rightarrow> segments \<Rightarrow> (string \<times> nat) copy" where
  "chunk_data sz pb pos out segs =
     (case checked_add pos sz of None \<Rightarrow> (Inl ''Chunk size overflow'', out, segs)
      | Some chunk_end \<Rightarrow> (case checked_add chunk_end 2 of None \<Rightarrow> (Inl ''Chunk size overflow'', out, segs)
        | Some end2 \<Rightarrow> (case fill_len ''Chunked body ended mid-chunk'' end2 pb out segs of
            (Inl e, out', segs') \<Rightarrow> (Inl e, out', segs')
          | (Inr pb', out', segs') \<Rightarrow>
              if subslice pb' chunk_end end2 \<noteq> CRLF then (Inl ''Chunk missing terminating CRLF'', out', segs')
              else if end2 > RELAY_BUF_SIZE * 4 then (Inr (drop end2 pb', 0), out', segs')
              else (Inr (pb', end2), out', segs'))))"

lemma chunk_data_reads:
  assumes "chunk_data sz pb pos out segs = (Inr (pb', pos'), out', segs')"
  shows "\<exists>r. out' = out @ r \<and> r @ concat segs' = concat segs \<and> pos' \<le> length pb'
    \<and> drop pos' pb' = drop (pos + sz + 2) (pb @ r) \<and> pos + sz + 2 \<le> length (pb @ r)
    \<and> subslice (pb @ r) (pos + sz) (pos + sz + 2) = CRLF"
proof -
  have add: "checked_add pos sz = Some (pos + sz)" "checked_add (pos + sz) 2 = Some (pos + sz + 2)"
    using assms by (auto simp: chunk_data_def checked_add_def split: if_splits option.splits)
  obtain pb1 where f: "fill_len ''Chunked body ended mid-chunk'' (pos + sz + 2) pb out segs = (Inr pb1, out', segs')"
    and c: "subslice pb1 (pos + sz) (pos + sz + 2) = CRLF"
    and p: "if pos + sz + 2 > RELAY_BUF_SIZE * 4 then pb' = drop (pos + sz + 2) pb1 \<and> pos' = 0
      else pb' = pb1 \<and> pos' = pos + sz + 2"
    using assms unfolding chunk_data_def add option.case
    by (auto split: prod.splits sum.splits if_splits)
  then show ?thesis using fill_len_reads [OF f] by (auto split: if_splits)
qed

definition size_line_token :: "string \<Rightarrow> string" where
  "size_line_token size_line = trim (hd (split_char CHR '';'' size_line))"

lemma chunk_step_decreases:
  assumes "(Inr (e, pb1), out1, segs1) = fill_crlf err pb pos out segs"
    "(Inr (pb2, pos2), out2, segs2) = chunk_data sz pb1 (Suc (Suc e)) out1 segs1"
  shows "Suc (length pb2 + length (concat segs2)) - pos2 < Suc (length pb + length (concat segs)) - pos"
proof -
  obtain r where r: "pb1 = pb @ r" "r @ concat segs1 = concat segs" "find_crlf pb1 pos = Some e"
    using fill_crlf_reads [OF assms(1) [symmetric]] by blast
  obtain q where q: "q @ concat segs2 = concat segs1" "pos2 \<le> length pb2"
    "drop pos2 pb2 = drop (e + 2 + sz + 2) (pb1 @ q)" "e + 2 + sz + 2 \<le> length (pb1 @ q)"
    using chunk_data_reads [OF assms(2) [symmetric]] by auto
  have "length pb2 - pos2 = length pb1 + length q - (e + 2 + sz + 2)"
    using q(3) by (metis length_append length_drop)
  moreover have "length (concat segs) = length r + length (concat segs1)"
    "length (concat segs1) = length q + length (concat segs2)"
    using r(2) q(1) by (metis length_append)+
  ultimately show ?thesis using find_crlf_Some [OF r(3)] q(2,4) r(1) by (simp; linarith)
qed

function chunked_loop :: "string \<Rightarrow> nat \<Rightarrow> string \<Rightarrow> segments \<Rightarrow> unit copy" where
  "chunked_loop parse_buf pos out segs =
     (case fill_crlf ''Chunked body ended before chunk-size line'' parse_buf pos out segs of
        (Inl e, out1, segs1) \<Rightarrow> (Inl e, out1, segs1)
      | (Inr (e, pb), out1, segs1) \<Rightarrow>
          if \<not> is_utf8 (subslice pb pos e) then (Inl ''Invalid UTF-8 in chunk-size line'', out1, segs1)
          else (case parse_uint 16 64 (size_line_token (subslice pb pos e)) of
            None \<Rightarrow> (Inl ''Invalid chunk size token'', out1, segs1)
          | Some sz \<Rightarrow>
              if sz = 0 then relay_trailers pb (e + 2) out1 segs1
              else (case chunk_data sz pb (e + 2) out1 segs1 of
                  (Inl err, out2, segs2) \<Rightarrow> (Inl err, out2, segs2)
                | (Inr (pb', pos'), out2, segs2) \<Rightarrow> chunked_loop pb' pos' out2 segs2)))"
  by pat_completeness auto
termination
  by (relation "measure (\<lambda>(pb, pos, out, segs). length pb + length (concat segs) + 1 - pos)")
    (auto dest: chunk_step_decreases)

declare chunked_loop.simps [simp del]

definition relay_chunked :: "string \<Rightarrow> segments \<Rightarrow> unit copy" where
  "relay_chunked already_forwarded segs = chunked_loop already_forwarded 0 [] segs"

text \<open>Copying until the end of the stream or the idle timeout.\<close>

function relay_until_eof :: "string \<Rightarrow> segments \<Rightarrow> unit copy" where
  "relay_until_eof out segs = (case read_some RELAY_BUF_SIZE segs of (b, segs') \<Rightarrow>
     if b = [] then (Inr (), out, segs') else relay_until_eof (out @ b) segs')"
  by pat_completeness auto
termination
  by (relation "measure (\<lambda>(out, segs). length (concat segs))") (auto dest: sym [THEN read_some_shorter])

declare relay_until_eof.simps [simp del]

section \<open>Connections\<close>

record relay_conn =
  cn_client_in :: segments
  cn_upstream_in :: segments
  cn_to_upstream :: string
  cn_to_client :: string

type_synonym 'a relay = "relay_conn \<Rightarrow> (string, 'a) result \<times> relay_conn"

definition relay_bind :: "'a relay \<Rightarrow> ('a \<Rightarrow> 'b relay) \<Rightarrow> 'b relay" where
  "relay_bind m f c = (case m c of (Inl e, c') \<Rightarrow> (Inl e, c') | (Inr x, c') \<Rightarrow> f x c')"

definition relay_ret :: "'a \<Rightarrow> 'a relay" where
  "relay_ret x c = (Inr x, c)"

definition relay_err :: "string \<Rightarrow> 'a relay" where
  "relay_err e c = (Inl e, c)"

definition write_upstream :: "string \<Rightarrow> unit relay" where
  "write_upstream b c = (Inr (), c\<lparr>cn_to_upstream := cn_to_upstream c @ b\<rparr>)"

definition write_client :: "string \<Rightarrow> unit relay" where
  "write_client b c = (Inr (), c\<lparr>cn_to_client := cn_to_client c @ b\<rparr>)"

definition copy_up :: "(segments \<Rightarrow> 'a copy) \<Rightarrow> 'a relay" where
  "copy_up f c = (case f (cn_client_in c) of (r, w, segs) \<Rightarrow>
     (r, c\<lparr>cn_client_in := segs, cn_to_upstream := cn_to_upstream c @ w\<rparr>))"

definition copy_down :: "(segments \<Rightarrow> 'a copy) \<Rightarrow> 'a relay" where
  "copy_down f c = (case f (cn_upstream_in c) of (r, w, segs) \<Rightarrow>
     (r, c\<lparr>cn_upstream_in := segs, cn_to_client := cn_to_client c @ w\<rparr>))"

section \<open>Responses\<close>

definition parse_status_code :: "string \<Rightarrow> nat option" where
  "parse_status_code headers = (case lines headers of [] \<Rightarrow> None
     | status_line # _ \<Rightarrow> (case split_whitespace status_line of
         _ # code # _ \<Rightarrow> parse_uint 10 16 code | _ \<Rightarrow> None))"

definition parse_connection_close :: "string \<Rightarrow> bool" where
  "parse_connection_close headers =
     (case find (\<lambda>l. starts_with ''connection:'' (to_ascii_lowercase l)) (drop 1 (lines headers)) of
        None \<Rightarrow> False
      | Some l \<Rightarrow> contains ''close'' (header_value (to_ascii_lowercase l)))"

definition client_requested_upgrade :: "string \<Rightarrow> bool" where
  "client_requested_upgrade headers =
     (let ls = map to_ascii_lowercase (drop 1 (lines headers)) in
      list_ex (starts_with ''upgrade:'') ls
      \<and> list_ex (\<lambda>l. starts_with ''connection:'' l
          \<and> list_ex (\<lambda>tok. trim tok = ''upgrade'') (split_char CHR '','' (header_value l))) ls)"

definition is_bodiless_response :: "string \<Rightarrow> nat \<Rightarrow> bool" where
  "is_bodiless_response request_method status_code \<longleftrightarrow>
     eq_ignore_ascii_case request_method ''HEAD'' \<or> 100 \<le> status_code \<and> status_code < 200
     \<or> status_code = 204 \<or> status_code = 304"

text \<open>The head of a response with what was read after it; \<open>None\<close> when the upstream closes first.\<close>

function read_response_head :: "string \<Rightarrow> segments \<Rightarrow> (string, (string \<times> string) option \<times> string) result \<times> segments" where
  "read_response_head buf segs =
     (if length buf > MAX_HEADER_BYTES then (Inl ''HTTP response headers exceed limit'', segs)
      else (case read_some 1024 segs of (b, segs') \<Rightarrow>
        if b = [] then (Inr (None, buf), segs')
        else (case find_sub CRLFCRLF (buf @ b) of
            Some p \<Rightarrow> (Inr (Some (take (p + 4) (buf @ b), drop (p + 4) (buf @ b)), buf @ b), segs')
          | None \<Rightarrow> read_response_head (buf @ b) segs')))"
  by pat_completeness auto
termination
  by (relation "measure (\<lambda>(buf, segs). length (concat segs))") (auto dest: sym [THEN read_some_shorter])

declare read_response_head.simps [simp del]

definition response_head :: "((string \<times> string) option \<times> string) relay" where
  "response_head c = (case read_response_head [] (cn_upstream_in c) of
     (r, segs) \<Rightarrow> (r, c\<lparr>cn_upstream_in := segs\<rparr>))"

definition relay_framed :: "string \<Rightarrow> string \<Rightarrow> string \<Rightarrow> body_length \<Rightarrow> bool \<Rightarrow> relay_outcome relay" where
  "relay_framed request_method head overflow bl server_wants_close =
     (case bl of
        NoBody \<Rightarrow>
          if server_wants_close then
            relay_bind (write_client (take (length head - 2) head)) (\<lambda>_.
            relay_bind (write_client (''Connection: close'' @ CRLFCRLF)) (\<lambda>_.
            relay_bind (if overflow \<noteq> [] then write_client overflow else relay_ret ()) (\<lambda>_.
            relay_bind (copy_down (relay_until_eof [])) (\<lambda>_. relay_ret Consumed))))
          else relay_bind (write_client head) (\<lambda>_. relay_ret Reusable)
      | ContentLength len \<Rightarrow>
          relay_bind (write_client (head @ overflow)) (\<lambda>_.
          relay_bind (if len - length overflow > 0 then copy_down (relay_fixed (len - length overflow) []) else relay_ret ())
            (\<lambda>_. relay_ret Reusable))
      | Chunked \<Rightarrow>
          relay_bind (write_client (head @ overflow)) (\<lambda>_.
          relay_bind (copy_down (relay_chunked overflow)) (\<lambda>_. relay_ret Reusable)))"

definition relay_response :: "string \<Rightarrow> relay_outcome relay" where
  "relay_response request_method =
     relay_bind response_head (\<lambda>(h, seen). case h of
       None \<Rightarrow> relay_bind (if seen \<noteq> [] then write_client seen else relay_ret ()) (\<lambda>_. relay_ret Consumed)
     | Some (head, overflow) \<Rightarrow>
         let header_str = utf8_lossy head;
             status_code = (case parse_status_code header_str of None \<Rightarrow> 200 | Some n \<Rightarrow> n);
             server_wants_close = parse_connection_close header_str
         in (case parse_body_length header_str of
             Inl e \<Rightarrow> relay_err e
           | Inr bl \<Rightarrow>
               if status_code = 101 then relay_bind (write_client head) (\<lambda>_. relay_ret (Upgraded overflow))
               else if is_bodiless_response request_method status_code then
                 relay_bind (write_client head) (\<lambda>_.
                   relay_ret (if server_wants_close then Consumed else Reusable))
               else relay_framed request_method head overflow bl server_wants_close))"

section \<open>Requests\<close>

definition request_header_end :: "l7_request \<Rightarrow> nat" where
  "request_header_end req = (case find_sub CRLFCRLF (l7_raw_header req) of
     None \<Rightarrow> length (l7_raw_header req) | Some p \<Rightarrow> p + 4)"

definition relay_request_body :: "l7_request \<Rightarrow> string \<Rightarrow> unit relay" where
  "relay_request_body req overflow = (case l7_body_length req of
     ContentLength len \<Rightarrow>
       if len - length overflow > 0 then copy_up (relay_fixed (len - length overflow) []) else relay_ret ()
   | Chunked \<Rightarrow> copy_up (relay_chunked overflow)
   | NoBody \<Rightarrow> relay_ret ())"

definition relay_http_request_with_resolver ::
  "base64_engine \<Rightarrow> l7_request \<Rightarrow> secret_resolver option \<Rightarrow> relay_outcome relay" where
  "relay_http_request_with_resolver b64 req resolver =
     (let header_end = request_header_end req;
          overflow = drop header_end (l7_raw_header req)
      in case rewrite_http_header_block b64 (take header_end (l7_raw_header req)) resolver of
        Inl _ \<Rightarrow> relay_err ''credential injection failed''
      | Inr rw \<Rightarrow>
          relay_bind (write_upstream (rr_rewritten rw)) (\<lambda>_.
          relay_bind (if overflow \<noteq> [] then write_upstream overflow else relay_ret ()) (\<lambda>_.
          relay_bind (relay_request_body req overflow) (\<lambda>_.
          relay_bind (relay_response (l7_action req)) (\<lambda>outcome.
            case outcome of
              Upgraded _ \<Rightarrow>
                if client_requested_upgrade (utf8_lossy (take header_end (l7_raw_header req)))
                then relay_ret outcome else relay_ret Consumed
            | _ \<Rightarrow> relay_ret outcome)))))"

definition METHODS :: "string list" where
  "METHODS = [''GET '', ''HEAD '', ''POST '', ''PUT '', ''DELETE '', ''PATCH '', ''OPTIONS '', ''CONNECT '', ''TRACE '']"

definition looks_like_http :: "string \<Rightarrow> bool" where
  "looks_like_http peek = list_ex (\<lambda>m. starts_with m peek) METHODS"

definition deny_response :: "nat \<Rightarrow> string \<Rightarrow> string \<Rightarrow> string" where
  "deny_response body_len policy_name body =
     ''HTTP/1.1 403 Forbidden'' @ CRLF @ ''Content-Type: application/json'' @ CRLF
     @ ''Content-Length: '' @ show_nat body_len @ CRLF @ ''X-OpenShell-Policy: '' @ policy_name @ CRLF
     @ ''Connection: close'' @ CRLF @ CRLF @ body"

text \<open>The JSON encoder is a parameter of the denial.\<close>

definition send_deny_response ::
  "((string \<times> string) list \<Rightarrow> string) \<Rightarrow> l7_request \<Rightarrow> string \<Rightarrow> string \<Rightarrow> string option \<Rightarrow> unit relay" where
  "send_deny_response json req policy_name reason redacted_target =
     (let target = (case redacted_target of None \<Rightarrow> l7_target req | Some t \<Rightarrow> t);
          body = json [(''error'', ''policy_denied''), (''policy'', policy_name),
            (''rule'', l7_action req @ '' '' @ target), (''detail'', reason)]
      in write_client (deny_response (length body) policy_name body))"

end
