(* ===== verification/L7_Relay.thy ===== *)
theory L7_Relay
  imports Rest_Relay
begin

text \<open>
  The inspected relay (\<open>crates/openshell-sandbox/src/l7/relay.rs\<close> and the configuration types of
  \<open>l7/mod.rs\<close>): request by request, parse, redact, evaluate the policy, then forward or deny. The policy
  engine is a parameter that maps a request to its decision.
\<close>

section \<open>Reading a head\<close>

lemma ends_with_length: "ends_with p s \<Longrightarrow> length p \<le> length s"
  by (simp add: ends_with_suffix suffix_length_le)

lemma find_sub_snoc:
  assumes "find_sub p buf = None" "p \<noteq> []"
  shows "find_sub p (buf @ [b]) = (if ends_with p (buf @ [b]) then Some (Suc (length buf) - length p) else None)"
proof (cases "ends_with p (buf @ [b])")
  case True
  then obtain pre where pre: "buf @ [b] = pre @ p" by (auto simp: ends_with_suffix suffix_def)
  have "\<not> starts_with p (drop j (buf @ [b]))" if "j < length pre" for j
  proof
    assume "starts_with p (drop j (buf @ [b]))"
    then obtain t where t: "drop j (buf @ [b]) = p @ t" by (auto simp: starts_with_prefix prefix_def)
    have "length (drop j (buf @ [b])) > length p" using that pre by (metis length_append length_drop add_diff_cancel_right' diff_less_mono2 length_append_singleton less_diff_conv add.commute)
    then have "t \<noteq> []" using t by auto
    then have "drop j buf = p @ butlast t" using t that pre
      by (metis (no_types, lifting) append_is_Nil_conv butlast_append butlast_snoc drop_butlast assms(2))
    then have "sublist p buf" by (metis append_take_drop_id sublist_appendI)
    then show False using assms(1) by (simp add: find_sub_None_iff)
  qed
  moreover have "length pre = Suc (length buf) - length p" using pre by (metis length_append length_append_singleton add_diff_cancel_right')
  ultimately show ?thesis using True pre by (simp add: find_sub_Some_iff) (simp add: starts_with_prefix)
next
  case False
  have "\<not> sublist p (buf @ [b])"
  proof
    assume "sublist p (buf @ [b])"
    then obtain x y where xy: "buf @ [b] = x @ p @ y" by (auto simp: sublist_def)
    have "y \<noteq> []" using False xy by (auto simp: ends_with_suffix suffix_def)
    then have "buf = x @ p @ butlast y" using xy by (metis butlast_append butlast_snoc append_is_Nil_conv)
    then show False using assms(1) by (simp add: find_sub_None_iff)
  qed
  then show ?thesis using False by (simp add: find_sub_None_iff)
qed

lemma read_head_exact:
  assumes "read_head buf segs = Inr (Some head, segs')" "find_sub CRLFCRLF buf = None"
  shows "head @ concat segs' = buf @ concat segs \<and> find_sub CRLFCRLF head = Some (length head - 4)
    \<and> length buf < length head \<and> 4 \<le> length head \<and> length head \<le> Suc MAX_HEADER_BYTES"
  using assms
proof (induction buf segs rule: read_head.induct)
  case (1 buf segs)
  obtain b s1 where b: "read_u8 segs = Some (b, s1)" "length buf \<le> MAX_HEADER_BYTES"
    using "1.prems"(1) by (subst (asm) read_head.simps) (auto split: if_splits option.splits)
  have c: "b # concat s1 = concat segs" by (rule read_u8_concat [OF b(1)])
  note snoc = find_sub_snoc [OF "1.prems"(2), of b]
  show ?case
  proof (cases "ends_with CRLFCRLF (buf @ [b])")
    case True
    then have "head = buf @ [b]" "segs' = s1"
      using "1.prems"(1) b by (simp_all add: read_head.simps [of buf])
    then show ?thesis using True snoc c b(2) ends_with_length [OF True] by auto
  next
    case False
    then have "read_head (buf @ [b]) s1 = Inr (Some head, segs')"
      using "1.prems"(1) b by (simp add: read_head.simps [of buf])
    then show ?thesis using "1.IH" [OF _ b(1) refl False] b(2) snoc False c by auto
  qed
qed


lemma find_sub_Nil_crlf: "find_sub CRLFCRLF [] = None"
  by simp

lemma parse_http_request_exact:
  assumes "parse_http_request segs = (Inr (Some req), segs')"
  shows "l7_raw_header req @ concat segs' = concat segs
    \<and> find_sub CRLFCRLF (l7_raw_header req) = Some (length (l7_raw_header req) - 4)
    \<and> 4 \<le> length (l7_raw_header req) \<and> length (l7_raw_header req) \<le> Suc MAX_HEADER_BYTES
    \<and> parse_head (l7_raw_header req) = Inr req"
proof -
  obtain head where h: "read_head [] segs = Inr (Some head, segs')" "parse_head head = Inr req"
    using assms by (auto simp: parse_http_request_def split: sum.splits option.splits)
  moreover have "l7_raw_header req = head"
    using h(2) by (auto simp: parse_head_def and_then_Inr split: if_splits list.splits)
  ultimately show ?thesis using read_head_exact [OF h(1) find_sub_Nil_crlf] by simp
qed

section \<open>Configuration\<close>

datatype l7_protocol = Rest | Sql
datatype tls_mode = TlsAuto | TlsSkip
datatype enforcement_mode = Audit | Enforce

definition l7_protocol_parse :: "string \<Rightarrow> l7_protocol option" where
  "l7_protocol_parse s = (let t = to_ascii_lowercase s in
     if t = ''rest'' then Some Rest else if t = ''sql'' then Some Sql else None)"

record l7_endpoint_config =
  ec_protocol :: l7_protocol
  ec_tls :: tls_mode
  ec_enforcement :: enforcement_mode

record l7_request_info =
  ri_action :: string
  ri_target :: string
  ri_query_params :: query_map

text \<open>An endpoint object of the policy engine, seen through its string fields.\<close>

type_synonym endpoint_object = "string \<Rightarrow> string option"

definition get_object_str :: "endpoint_object \<Rightarrow> string \<Rightarrow> string option" where
  "get_object_str val key = (case val key of None \<Rightarrow> None | Some s \<Rightarrow> if s = [] then None else Some s)"

definition parse_tls_mode :: "endpoint_object \<Rightarrow> tls_mode" where
  "parse_tls_mode val = (if get_object_str val ''tls'' = Some ''skip'' then TlsSkip else TlsAuto)"

definition parse_l7_config :: "endpoint_object \<Rightarrow> l7_endpoint_config option" where
  "parse_l7_config val = (case get_object_str val ''protocol'' of None \<Rightarrow> None
     | Some p \<Rightarrow> (case l7_protocol_parse p of None \<Rightarrow> None
       | Some protocol \<Rightarrow> Some \<lparr>ec_protocol = protocol,
           ec_tls = (if get_object_str val ''tls'' = Some ''skip'' then TlsSkip else TlsAuto),
           ec_enforcement = (if get_object_str val ''enforcement'' = Some ''enforce'' then Enforce else Audit)\<rparr>))"

section \<open>The relay\<close>

record rest_env =
  re_eval :: "l7_request_info \<Rightarrow> (string, bool \<times> string) result"
  re_enforcement :: enforcement_mode
  re_policy_name :: string
  re_resolver :: "secret_resolver option"
  re_b64 :: base64_engine
  re_json :: "(string \<times> string) list \<Rightarrow> string"

definition copy_bidirectional :: "unit relay" where
  "copy_bidirectional c = (Inr (), c\<lparr>cn_client_in := [], cn_upstream_in := [],
     cn_to_upstream := cn_to_upstream c @ concat (cn_client_in c),
     cn_to_client := cn_to_client c @ concat (cn_upstream_in c)\<rparr>)"

definition handle_upgrade :: "string \<Rightarrow> unit relay" where
  "handle_upgrade overflow =
     relay_bind (if overflow \<noteq> [] then write_client overflow else relay_ret ()) (\<lambda>_. copy_bidirectional)"

definition eval_targets :: "secret_resolver option \<Rightarrow> string \<Rightarrow> (unresolved_placeholder_error, string \<times> string) result" where
  "eval_targets resolver target = (case resolver of
     None \<Rightarrow> Inr (target, target)
   | Some r \<Rightarrow> and_then (rewrite_target_for_eval target r) (\<lambda>t. Inr (rt_resolved t, rt_redacted t)))"

definition internal_error_response :: string where
  "internal_error_response = ''HTTP/1.1 500 Internal Server Error'' @ CRLF @ ''Content-Length: 0'' @ CRLF
     @ ''Connection: close'' @ CRLF @ CRLF"

text \<open>The decision on a request: redact its target, then ask the policy.\<close>

definition request_info :: "rest_env \<Rightarrow> l7_request \<Rightarrow> (unresolved_placeholder_error, l7_request_info) result" where
  "request_info env req = and_then (eval_targets (re_resolver env) (l7_target req)) (\<lambda>(_, redacted).
     Inr \<lparr>ri_action = l7_action req, ri_target = redacted, ri_query_params = l7_query_params req\<rparr>)"

text \<open>Everything but the loop: \<open>Some\<close> result ends the relay, \<open>None\<close> continues it.\<close>

definition relay_one :: "rest_env \<Rightarrow> relay_conn \<Rightarrow> (string, unit) result option \<times> relay_conn" where
  "relay_one env c = (case parse_http_request (cn_client_in c) of
     (Inl e, segs) \<Rightarrow> (Some (Inr ()), c\<lparr>cn_client_in := segs\<rparr>)
   | (Inr None, segs) \<Rightarrow> (Some (Inr ()), c\<lparr>cn_client_in := segs\<rparr>)
   | (Inr (Some req), segs) \<Rightarrow>
       let c1 = c\<lparr>cn_client_in := segs\<rparr> in
       (case request_info env req of
          Inl _ \<Rightarrow> (Some (Inr ()), snd (write_client internal_error_response c1))
        | Inr info \<Rightarrow> (case re_eval env info of
            Inl e \<Rightarrow> (Some (Inl e), c1)
          | Inr (allowed, reason) \<Rightarrow>
              if allowed \<or> re_enforcement env = Audit then
                (case relay_http_request_with_resolver (re_b64 env) req (re_resolver env) c1 of
                   (Inl e, c2) \<Rightarrow> (Some (Inl e), c2)
                 | (Inr Reusable, c2) \<Rightarrow> (None, c2)
                 | (Inr Consumed, c2) \<Rightarrow> (Some (Inr ()), c2)
                 | (Inr (Upgraded overflow), c2) \<Rightarrow> map_prod Some id (handle_upgrade overflow c2))
              else map_prod Some id (send_deny_response (re_json env) req (re_policy_name env) reason
                     (Some (ri_target info)) c1))))"

section \<open>Progress\<close>

definition shrinks :: "'a relay \<Rightarrow> bool" where
  "shrinks m \<longleftrightarrow> (\<forall>c r c'. m c = (r, c') \<longrightarrow>
     (\<exists>w. concat (cn_client_in c) = w @ concat (cn_client_in c')))"

named_theorems shrinks_intro \<open>relays that only consume client input\<close>

lemma shrinks_bind [shrinks_intro]: "shrinks m \<Longrightarrow> (\<And>x. shrinks (f x)) \<Longrightarrow> shrinks (relay_bind m f)"
  unfolding shrinks_def relay_bind_def by (fastforce split: prod.splits sum.splits)

lemma shrinks_basic [shrinks_intro]:
  "shrinks (relay_ret x)" "shrinks (relay_err e)" "shrinks (write_upstream b)" "shrinks (write_client b)"
  "shrinks (copy_down f)" "shrinks response_head"
  by (auto simp: shrinks_def relay_ret_def relay_err_def write_upstream_def write_client_def copy_down_def
      response_head_def split: prod.splits)

lemma shrinks_if [shrinks_intro]: "shrinks m \<Longrightarrow> shrinks n \<Longrightarrow> shrinks (if b then m else n)"
  by simp


section \<open>Copying is verbatim\<close>

definition verbatim :: "string \<Rightarrow> segments \<Rightarrow> 'a copy \<Rightarrow> bool" where
  "verbatim out segs k \<longleftrightarrow> (\<exists>w. fst (snd k) = out @ w \<and> w @ concat (snd (snd k)) = concat segs)"

lemma verbatim_refl: "verbatim out segs (r, out, segs)"
  by (simp add: verbatim_def)

lemma verbatim_trans:
  "verbatim out segs (r, out1, segs1) \<Longrightarrow> verbatim out1 segs1 k \<Longrightarrow> verbatim out segs k"
  by (auto simp: verbatim_def)

lemma verbatim_result: "verbatim out segs (r, out1, segs1) \<Longrightarrow> verbatim out segs (r', out1, segs1)"
  by (simp add: verbatim_def)

lemma verbatim_read: "read_some k segs = (b, segs') \<Longrightarrow> verbatim out segs (r, out @ b, segs')"
  using read_some_concat [of k segs b segs'] by (auto simp: verbatim_def)

lemma verbatim_eof: "read_some k segs = ([], segs') \<Longrightarrow> verbatim out segs (r, out, segs')"
  using verbatim_read [of k segs "[]" segs' out] by simp

lemma relay_fixed_verbatim: "verbatim out segs (relay_fixed n out segs)"
proof (induction n out segs rule: relay_fixed.induct)
  case (1 n out segs)
  obtain b s1 where b: "read_some (min n RELAY_BUF_SIZE) segs = (b, s1)" by fastforce
  show ?case
  proof (cases "n = 0 \<or> b = []")
    case True
    then show ?thesis using b verbatim_eof [of "min n RELAY_BUF_SIZE" segs s1 out]
      by (subst relay_fixed.simps) (auto simp: verbatim_refl)
  next
    case False
    then show ?thesis
      using b "1.IH" [OF _ b [symmetric] refl]
      by (subst relay_fixed.simps) (auto intro: verbatim_trans [OF verbatim_read [OF b]])
  qed
qed

lemma relay_fixed_length:
  "relay_fixed n out segs = (r, out', segs') \<Longrightarrow> \<exists>w. out' = out @ w \<and> length w \<le> n \<and> (r = Inr () \<longrightarrow> length w = n)"
proof (induction n out segs rule: relay_fixed.induct)
  case (1 n out segs)
  obtain b s1 where b: "read_some (min n RELAY_BUF_SIZE) segs = (b, s1)" by fastforce
  note le = read_some_length [OF b]
  show ?case
  proof (cases "n = 0 \<or> b = []")
    case True
    then show ?thesis using "1.prems" b by (subst (asm) relay_fixed.simps) (auto split: if_splits)
  next
    case False
    then have "relay_fixed (n - length b) (out @ b) s1 = (r, out', segs')"
      using "1.prems" b by (subst (asm) relay_fixed.simps) (auto split: if_splits)
    then obtain w where "out' = (out @ b) @ w" "length w \<le> n - length b" "r = Inr () \<longrightarrow> length w = n - length b"
      using "1.IH" [OF _ b [symmetric] refl] False by auto
    then show ?thesis using le by (intro exI [of _ "b @ w"]) auto
  qed
qed

lemma fill_crlf_verbatim: "verbatim out segs (fill_crlf err pb pos out segs)"
proof (induction err pb pos out segs rule: fill_crlf.induct)
  case (1 err pb pos out segs)
  obtain b s1 where b: "read_some RELAY_BUF_SIZE segs = (b, s1)" by fastforce
  show ?case
    using b "1.IH" [OF _ b [symmetric]] verbatim_eof [of RELAY_BUF_SIZE segs s1 out]
    by (subst fill_crlf.simps) (auto simp: verbatim_refl intro: verbatim_trans [OF verbatim_read [OF b]] split: option.splits)
qed

lemma fill_len_verbatim: "verbatim out segs (fill_len err k pb out segs)"
proof (induction err k pb out segs rule: fill_len.induct)
  case (1 err k pb out segs)
  obtain b s1 where b: "read_some RELAY_BUF_SIZE segs = (b, s1)" by fastforce
  show ?case
    using b "1.IH" [OF _ b [symmetric]] verbatim_eof [of RELAY_BUF_SIZE segs s1 out]
    by (subst fill_len.simps) (auto simp: verbatim_refl intro: verbatim_trans [OF verbatim_read [OF b]])
qed

lemma relay_trailers_verbatim: "verbatim out segs (relay_trailers pb pos out segs)"
proof (induction pb pos out segs rule: relay_trailers.induct)
  case (1 pb pos out segs)
  obtain r o1 s1 where f: "fill_crlf ''Chunked body ended before trailer terminator'' pb pos out segs = (r, o1, s1)"
    by (metis prod_cases3)
  have v: "verbatim out segs (r', o1, s1)" for r' :: "(string, unit) result"
    using fill_crlf_verbatim [of out segs "''Chunked body ended before trailer terminator''" pb pos] f
    by (simp add: verbatim_def)
  show ?case
  proof (cases r)
    case (Inl e)
    then show ?thesis using f v by (subst relay_trailers.simps) simp
  next
    case (Inr x)
    obtain e pb1 where "x = (e, pb1)" by fastforce
    then show ?thesis
      using f v Inr "1.IH" [OF f [symmetric] Inr _ refl, of e pb1]
      by (subst relay_trailers.simps) (auto intro: verbatim_trans [OF v])
  qed
qed

lemma chunk_data_verbatim: "verbatim out segs (chunk_data sz pb pos out segs)"
proof -
  have "verbatim out segs (r', o1, s1)"
    if "fill_len err k pb out segs = (r, o1, s1)" for err k r o1 s1 and r' :: "(string, string \<times> nat) result"
    using fill_len_verbatim [of out segs err k pb] that by (simp add: verbatim_def)
  then show ?thesis
    by (auto simp: chunk_data_def verbatim_refl split: option.splits prod.splits sum.splits)
qed

lemma chunked_loop_verbatim: "verbatim out segs (chunked_loop pb pos out segs)"
proof (induction pb pos out segs rule: chunked_loop.induct)
  case (1 pb pos out segs)
  obtain r o1 s1 where f: "fill_crlf ''Chunked body ended before chunk-size line'' pb pos out segs = (r, o1, s1)"
    by (metis prod_cases3)
  have v: "verbatim out segs (r', o1, s1)" for r' :: "(string, unit) result"
    using fill_crlf_verbatim [of out segs "''Chunked body ended before chunk-size line''" pb pos] f
    by (simp add: verbatim_def)
  show ?case
  proof (cases r)
    case (Inl e)
    then show ?thesis using f v by (subst chunked_loop.simps) simp
  next
    case (Inr x)
    obtain e pb1 where x: "x = (e, pb1)" by fastforce
    let ?line = "subslice pb1 pos e"
    consider "\<not> is_utf8 ?line \<or> parse_uint 16 64 (size_line_token ?line) = None"
      | sz where "is_utf8 ?line" "parse_uint 16 64 (size_line_token ?line) = Some sz" by fastforce
    then show ?thesis
    proof cases
      case 1
      then show ?thesis using f Inr x v by (subst chunked_loop.simps) auto
    next
      case (2 sz)
      obtain r2 o2 s2 where d: "chunk_data sz pb1 (e + 2) o1 s1 = (r2, o2, s2)" by (metis prod_cases3)
      have v2: "verbatim out segs (r', o2, s2)" for r' :: "(string, unit) result"
        using verbatim_trans [OF v chunk_data_verbatim [of o1 s1 sz pb1 "e + 2"]] d by (simp add: verbatim_def)
      have ih: "verbatim o2 s2 (chunked_loop pb2 pos2 o2 s2)" if "sz \<noteq> 0" "r2 = Inr (pb2, pos2)" for pb2 pos2
        using "1.IH" [OF f [symmetric] Inr _ refl _ 2(2) that(1) d [symmetric] that(2)] x 2(1) by simp
      show ?thesis
        using f Inr x 2 d v v2 ih
        by (subst chunked_loop.simps)
          (auto intro: verbatim_trans [OF v relay_trailers_verbatim] verbatim_trans [OF v2] split: sum.splits)
    qed
  qed
qed

lemma relay_chunked_verbatim: "verbatim [] segs (relay_chunked fwd segs)"
  by (simp add: relay_chunked_def chunked_loop_verbatim)


section \<open>The loop\<close>

lemma shrinks_copy_up [shrinks_intro]:
  assumes "\<And>segs. verbatim [] segs (f segs)"
  shows "shrinks (copy_up f)"
  unfolding shrinks_def
proof (intro allI impI)
  fix c r c' assume "copy_up f c = (r, c')"
  then show "\<exists>w. concat (cn_client_in c) = w @ concat (cn_client_in c')"
    using assms [of "cn_client_in c"] by (auto simp: copy_up_def verbatim_def split: prod.splits) (metis)
qed

lemma shrinks_request_body [shrinks_intro]: "shrinks (relay_request_body req overflow)"
  by (auto simp: relay_request_body_def split: body_length.splits
      intro!: shrinks_intro relay_fixed_verbatim relay_chunked_verbatim)

lemma shrinks_response [shrinks_intro]: "shrinks (relay_response m)"
  unfolding relay_response_def relay_framed_def Let_def
  by (auto intro!: shrinks_intro split: option.splits sum.splits body_length.splits)

lemma shrinks_relay_request: "shrinks (relay_http_request_with_resolver b64 req resolver)"
  unfolding relay_http_request_with_resolver_def Let_def
  by (auto intro!: shrinks_intro split: sum.splits relay_outcome.splits)

lemma relayed_suffix:
  assumes p: "parse_http_request (cn_client_in c) = (Inr (Some req), segs)"
    and r: "relay_http_request_with_resolver b64 req resolver (c\<lparr>cn_client_in := segs\<rparr>) = (x, c')"
  shows "\<exists>w. w \<noteq> [] \<and> concat (cn_client_in c) = w @ concat (cn_client_in c')"
proof -
  have "\<exists>w. concat segs = w @ concat (cn_client_in c')"
    using shrinks_relay_request r unfolding shrinks_def by fastforce
  moreover have "l7_raw_header req \<noteq> []" "l7_raw_header req @ concat segs = concat (cn_client_in c)"
    using parse_http_request_exact [OF p] by auto
  ultimately show ?thesis by (metis append.assoc append_is_Nil_conv)
qed

lemma relay_one_suffix:
  assumes "relay_one env c = (None, c')"
  shows "\<exists>w. w \<noteq> [] \<and> concat (cn_client_in c) = w @ concat (cn_client_in c')"
proof -
  obtain req segs where p: "parse_http_request (cn_client_in c) = (Inr (Some req), segs)"
    and r: "relay_http_request_with_resolver (re_b64 env) req (re_resolver env) (c\<lparr>cn_client_in := segs\<rparr>)
      = (Inr Reusable, c')"
    using assms by (auto simp: relay_one_def Let_def write_client_def map_prod_def
        split: prod.splits sum.splits option.splits if_splits relay_outcome.splits)
  show ?thesis by (rule relayed_suffix [OF p r])
qed

lemma relay_one_progress:
  "relay_one env c = (None, c') \<Longrightarrow> length (concat (cn_client_in c')) < length (concat (cn_client_in c))"
  using relay_one_suffix [of env c c'] by auto

function relay_rest :: "rest_env \<Rightarrow> unit relay" where
  "relay_rest env c = (case relay_one env c of
     (Some r, c') \<Rightarrow> (r, c')
   | (None, c') \<Rightarrow> relay_rest env c')"
  by pat_completeness auto
termination
  by (relation "measure (\<lambda>(env, c). length (concat (cn_client_in c)))") (auto dest: sym [THEN relay_one_progress])

declare relay_rest.simps [simp del]

text \<open>
  The context of a tunnel and the evaluation of a request in it. The Rego engine is a parameter: setting the
  input document may fail, and so may the evaluation of a rule.
\<close>

record l7_eval_context =
  ctx_host :: string
  ctx_port :: nat
  ctx_policy_name :: string
  ctx_binary_path :: string
  ctx_ancestors :: "string list"
  ctx_cmdline_paths :: "string list"
  ctx_secret_resolver :: "secret_resolver option"

datatype rego_value = RegoBool bool | RegoString string | RegoUndefined | RegoOther string

fun rego_display :: "rego_value \<Rightarrow> string" where
  "rego_display (RegoBool b) = (if b then ''true'' else ''false'')"
| "rego_display (RegoString s) = s"
| "rego_display RegoUndefined = ''<undefined>''"
| "rego_display (RegoOther s) = s"

record l7_input =
  in_host :: string
  in_port :: nat
  in_exec_path :: string
  in_ancestors :: "string list"
  in_cmdline_paths :: "string list"
  in_method :: string
  in_path :: string
  in_query_params :: query_map

type_synonym rego_engine = "l7_input \<Rightarrow> (string, string \<Rightarrow> (string, rego_value) result) result"

definition evaluate_l7_request ::
  "rego_engine \<Rightarrow> l7_eval_context \<Rightarrow> l7_request_info \<Rightarrow> (string, bool \<times> string) result" where
  "evaluate_l7_request engine ctx request =
     and_then (engine \<lparr>in_host = ctx_host ctx, in_port = ctx_port ctx, in_exec_path = ctx_binary_path ctx,
         in_ancestors = ctx_ancestors ctx, in_cmdline_paths = ctx_cmdline_paths ctx,
         in_method = ri_action request, in_path = ri_target request, in_query_params = ri_query_params request\<rparr>) (\<lambda>eval_rule.
     and_then (eval_rule ''data.openshell.sandbox.allow_request'') (\<lambda>v.
     if v = RegoBool True then Inr (True, [])
     else and_then (eval_rule ''data.openshell.sandbox.request_deny_reason'') (\<lambda>val.
       Inr (False, case val of RegoString s \<Rightarrow> s | RegoUndefined \<Rightarrow> ''request denied by policy'' | other \<Rightarrow> rego_display other))))"

definition inspection_env ::
  "l7_endpoint_config \<Rightarrow> rego_engine \<Rightarrow> base64_engine \<Rightarrow> ((string \<times> string) list \<Rightarrow> string) \<Rightarrow> l7_eval_context \<Rightarrow> rest_env" where
  "inspection_env config engine b64 json ctx = \<lparr>re_eval = evaluate_l7_request engine ctx,
     re_enforcement = ec_enforcement config, re_policy_name = ctx_policy_name ctx,
     re_resolver = ctx_secret_resolver ctx, re_b64 = b64, re_json = json\<rparr>"

definition relay_with_inspection ::
  "l7_endpoint_config \<Rightarrow> rego_engine \<Rightarrow> base64_engine \<Rightarrow> ((string \<times> string) list \<Rightarrow> string) \<Rightarrow> l7_eval_context \<Rightarrow> unit relay" where
  "relay_with_inspection config engine b64 json ctx = (case ec_protocol config of
     Rest \<Rightarrow> relay_rest (inspection_env config engine b64 json ctx)
   | Sql \<Rightarrow> copy_bidirectional)"

subsection \<open>Credential injection without inspection\<close>

definition BENIGN :: "string list" where
  "BENIGN = [''close_notify'', ''tls handshake eof'', ''connection reset'', ''broken pipe'', ''unexpected eof'',
     ''client disconnected mid-request'']"

definition is_benign_connection_error :: "string \<Rightarrow> bool" where
  "is_benign_connection_error err = list_ex (\<lambda>pat. contains pat (to_ascii_lowercase err)) BENIGN"

definition passthrough_one ::
  "base64_engine \<Rightarrow> l7_eval_context \<Rightarrow> relay_conn \<Rightarrow> (string, unit) result option \<times> relay_conn" where
  "passthrough_one b64 ctx c = (case parse_http_request (cn_client_in c) of
     (Inl e, segs) \<Rightarrow> (Some (if is_benign_connection_error e then Inr () else Inl e), c\<lparr>cn_client_in := segs\<rparr>)
   | (Inr None, segs) \<Rightarrow> (Some (Inr ()), c\<lparr>cn_client_in := segs\<rparr>)
   | (Inr (Some req), segs) \<Rightarrow>
       let c1 = c\<lparr>cn_client_in := segs\<rparr> in
       (case eval_targets (ctx_secret_resolver ctx) (l7_target req) of
          Inl _ \<Rightarrow> (Some (Inr ()), snd (write_client internal_error_response c1))
        | Inr _ \<Rightarrow>
            (case relay_http_request_with_resolver b64 req (ctx_secret_resolver ctx) c1 of
               (Inl e, c2) \<Rightarrow> (Some (Inl e), c2)
             | (Inr Reusable, c2) \<Rightarrow> (None, c2)
             | (Inr Consumed, c2) \<Rightarrow> (Some (Inr ()), c2)
             | (Inr (Upgraded overflow), c2) \<Rightarrow> map_prod Some id (handle_upgrade overflow c2))))"

lemma passthrough_one_progress:
  assumes "passthrough_one b64 ctx c = (None, c')"
  shows "length (concat (cn_client_in c')) < length (concat (cn_client_in c))"
proof -
  obtain req segs where p: "parse_http_request (cn_client_in c) = (Inr (Some req), segs)"
    and r: "relay_http_request_with_resolver b64 req (ctx_secret_resolver ctx) (c\<lparr>cn_client_in := segs\<rparr>)
      = (Inr Reusable, c')"
    using assms by (auto simp: passthrough_one_def Let_def write_client_def map_prod_def
        split: prod.splits sum.splits option.splits if_splits relay_outcome.splits)
  then show ?thesis using relayed_suffix [OF p r] by auto
qed

function relay_passthrough_with_credentials :: "base64_engine \<Rightarrow> l7_eval_context \<Rightarrow> unit relay" where
  "relay_passthrough_with_credentials b64 ctx c = (case passthrough_one b64 ctx c of
     (Some r, c') \<Rightarrow> (r, c')
   | (None, c') \<Rightarrow> relay_passthrough_with_credentials b64 ctx c')"
  by pat_completeness auto
termination
  by (relation "measure (\<lambda>(b64, ctx, c). length (concat (cn_client_in c)))") (auto dest: sym [THEN passthrough_one_progress])

declare relay_passthrough_with_credentials.simps [simp del]

section \<open>Enforcement\<close>

definition allows :: "rest_env \<Rightarrow> l7_request \<Rightarrow> bool" where
  "allows env req \<longleftrightarrow> (case request_info env req of Inl _ \<Rightarrow> False
     | Inr info \<Rightarrow> (case re_eval env info of Inl _ \<Rightarrow> False | Inr (allowed, _) \<Rightarrow> allowed))"

text \<open>
  A forwarded unit: the rewritten head of an allowed request of the client's input followed by its body, no longer than its
  content length; only a chunked request leaves the length of its body open.
\<close>

definition forwarded_unit :: "rest_env \<Rightarrow> string \<Rightarrow> string \<Rightarrow> bool" where
  "forwarded_unit env input u \<longleftrightarrow> (\<exists>req rw body. sublist (l7_raw_header req) input \<and> parse_head (l7_raw_header req) = Inr req \<and> allows env req
     \<and> rewrite_http_header_block (re_b64 env) (l7_raw_header req) (re_resolver env) = Inr rw
     \<and> u = rr_rewritten rw @ body
     \<and> (case l7_body_length req of NoBody \<Rightarrow> body = [] | ContentLength n \<Rightarrow> length body \<le> n | Chunked \<Rightarrow> True))"

definition upgrade_allowed :: "rest_env \<Rightarrow> string \<Rightarrow> bool" where
  "upgrade_allowed env input \<longleftrightarrow> (\<exists>req. sublist (l7_raw_header req) input \<and> parse_head (l7_raw_header req) = Inr req \<and> allows env req
     \<and> client_requested_upgrade (utf8_lossy (l7_raw_header req)))"

lemma relay_bind_Pair:
  "relay_bind m f c = (r, c'') \<longleftrightarrow>
     (\<exists>e. m c = (Inl e, c'') \<and> r = Inl e) \<or> (\<exists>x c'. m c = (Inr x, c') \<and> f x c' = (r, c''))"
  by (auto simp: relay_bind_def split: prod.splits sum.splits)

lemma relay_bind_ret: "relay_bind (relay_ret x) f = f x"
  by (simp add: relay_bind_def relay_ret_def fun_eq_iff)

text \<open>Relays that write nothing upstream.\<close>

definition silent :: "'a relay \<Rightarrow> bool" where
  "silent m \<longleftrightarrow> (\<forall>c r c'. m c = (r, c') \<longrightarrow> cn_to_upstream c' = cn_to_upstream c)"

lemma silent_bind: "silent m \<Longrightarrow> (\<And>x. silent (f x)) \<Longrightarrow> silent (relay_bind m f)"
  unfolding silent_def relay_bind_Pair by metis

lemma silent_basic:
  "silent (relay_ret x)" "silent (relay_err e)" "silent (write_client b)" "silent (copy_down f)" "silent response_head"
  by (auto simp: silent_def relay_ret_def relay_err_def write_client_def copy_down_def response_head_def
      split: prod.splits)

lemma silent_response: "silent (relay_response m)"
  unfolding relay_response_def relay_framed_def Let_def
  by (auto intro!: silent_bind silent_basic split: option.splits sum.splits body_length.splits)

lemma relay_request_body_upstream:
  assumes "relay_request_body req [] c = (r, c')"
  shows "\<exists>body. cn_to_upstream c' = cn_to_upstream c @ body
    \<and> (case l7_body_length req of NoBody \<Rightarrow> body = [] | ContentLength n \<Rightarrow> length body \<le> n | Chunked \<Rightarrow> True)"
proof (cases "l7_body_length req")
  case (ContentLength n)
  then show ?thesis
    using assms relay_fixed_length [of n "[]" "cn_client_in c"]
    by (auto simp: relay_request_body_def copy_up_def relay_ret_def split: prod.splits if_splits)
next
  case Chunked
  then show ?thesis using assms by (auto simp: relay_request_body_def copy_up_def split: prod.splits)
next
  case NoBody
  then show ?thesis using assms by (auto simp: relay_request_body_def relay_ret_def)
qed

lemma relay_request_upstream:
  assumes "relay_http_request_with_resolver b64 req resolver c = (r, c')"
    "find_sub CRLFCRLF (l7_raw_header req) = Some (length (l7_raw_header req) - 4)" "4 \<le> length (l7_raw_header req)"
  shows "cn_to_upstream c' = cn_to_upstream c \<or>
    (\<exists>rw body. rewrite_http_header_block b64 (l7_raw_header req) resolver = Inr rw
      \<and> cn_to_upstream c' = cn_to_upstream c @ rr_rewritten rw @ body
      \<and> (case l7_body_length req of NoBody \<Rightarrow> body = [] | ContentLength n \<Rightarrow> length body \<le> n | Chunked \<Rightarrow> True))"
    and "r = Inr (Upgraded overflow) \<Longrightarrow> client_requested_upgrade (utf8_lossy (l7_raw_header req))"
proof -
  have he: "request_header_end req = length (l7_raw_header req)"
    using assms(2,3) by (simp add: request_header_end_def)
  note def = relay_http_request_with_resolver_def [of b64 req resolver, unfolded he Let_def take_all [OF order_refl], simplified]
  show "cn_to_upstream c' = cn_to_upstream c \<or>
    (\<exists>rw body. rewrite_http_header_block b64 (l7_raw_header req) resolver = Inr rw
      \<and> cn_to_upstream c' = cn_to_upstream c @ rr_rewritten rw @ body
      \<and> (case l7_body_length req of NoBody \<Rightarrow> body = [] | ContentLength n \<Rightarrow> length body \<le> n | Chunked \<Rightarrow> True))"
  proof (cases "rewrite_http_header_block b64 (l7_raw_header req) resolver")
    case (Inl e)
    then show ?thesis using assms(1) by (simp add: def relay_err_def)
  next
    case (Inr rw)
    let ?c1 = "c\<lparr>cn_to_upstream := cn_to_upstream c @ rr_rewritten rw\<rparr>"
    let ?k = "relay_bind (relay_response (l7_action req)) (\<lambda>outcome. case outcome of
        Upgraded _ \<Rightarrow> if client_requested_upgrade (utf8_lossy (l7_raw_header req)) then relay_ret outcome else relay_ret Consumed
      | _ \<Rightarrow> relay_ret outcome)"
    have k: "silent ?k"
      by (auto intro!: silent_bind silent_response silent_basic split: relay_outcome.splits)
    have "relay_bind (relay_request_body req []) (\<lambda>_. ?k) ?c1 = (r, c')"
      using assms(1) unfolding def Inr by (simp add: relay_bind_ret relay_bind_def [of "write_upstream b" for b] write_upstream_def)
    then obtain r1 c1 where "relay_request_body req [] ?c1 = (r1, c1)" "cn_to_upstream c' = cn_to_upstream c1"
      using k unfolding relay_bind_Pair [of "relay_request_body req []"] silent_def by blast
    then show ?thesis using relay_request_body_upstream [of req ?c1 r1 c1] Inr by auto
  qed
  show "client_requested_upgrade (utf8_lossy (l7_raw_header req))" if "r = Inr (Upgraded overflow)"
    using assms(1) that unfolding def
    by (auto simp: relay_bind_Pair relay_ret_def relay_err_def split: sum.splits relay_outcome.splits if_splits)
      (metis relay_outcome.exhaust)
qed


lemma copy_bidirectional_upstream:
  "handle_upgrade overflow c = (r, c') \<Longrightarrow> cn_to_upstream c' = cn_to_upstream c @ concat (cn_client_in c)"
  by (auto simp: handle_upgrade_def copy_bidirectional_def relay_bind_def write_client_def relay_ret_def split: if_splits)

lemma relay_one_cases:
  assumes "relay_one env c = (r, c')" "re_enforcement env = Enforce"
  obtains (unit) us where "list_all (forwarded_unit env (concat (cn_client_in c))) us" "length us \<le> 1" "cn_to_upstream c' = cn_to_upstream c @ concat us"
  | (upgrade) us tail where "list_all (forwarded_unit env (concat (cn_client_in c))) us" "r \<noteq> None" "upgrade_allowed env (concat (cn_client_in c))"
      "cn_to_upstream c' = cn_to_upstream c @ concat us @ tail"
proof -
  consider (quiet) "cn_to_upstream c' = cn_to_upstream c"
    | (relay) req segs r2 c2 where "parse_http_request (cn_client_in c) = (Inr (Some req), segs)" "allows env req"
        "relay_http_request_with_resolver (re_b64 env) req (re_resolver env) (c\<lparr>cn_client_in := segs\<rparr>) = (r2, c2)"
        "c' = c2 \<or> (\<exists>overflow r3. r2 = Inr (Upgraded overflow) \<and> r \<noteq> None \<and> handle_upgrade overflow c2 = (r3, c'))"
    using assms
    by (auto simp: relay_one_def Let_def write_client_def map_prod_def allows_def send_deny_response_def
        split: prod.splits sum.splits option.splits if_splits relay_outcome.splits) 
  then show thesis
  proof cases
    case quiet
    then show ?thesis using unit [of "[]"] by simp
  next
    case relay
    note ex = parse_http_request_exact [OF relay(1)]
    have sub: "sublist (l7_raw_header req) (concat (cn_client_in c))" using ex by (metis sublist_append_rightI)
    note up = relay_request_upstream [OF relay(3)]
    obtain us where us: "list_all (forwarded_unit env (concat (cn_client_in c))) us" "length us \<le> 1" "cn_to_upstream c2 = cn_to_upstream c @ concat us"
    proof (cases "cn_to_upstream c2 = cn_to_upstream c")
      case True
      then show ?thesis using that [of "[]"] by simp
    next
      case False
      then obtain u where "forwarded_unit env (concat (cn_client_in c)) u" "cn_to_upstream c2 = cn_to_upstream c @ u"
        using up(1) ex sub relay(2) unfolding forwarded_unit_def by fastforce
      then show ?thesis using that [of "[u]"] by simp
    qed
    show ?thesis using relay(4)
    proof (elim disjE exE conjE)
      assume "c' = c2"
      then show ?thesis using unit us by blast
    next
      fix overflow r3
      assume *: "r2 = Inr (Upgraded overflow)" "r \<noteq> None" "handle_upgrade overflow c2 = (r3, c')"
      have "upgrade_allowed env (concat (cn_client_in c))" unfolding upgrade_allowed_def using up(2) * ex sub relay(2) by blast
      then show ?thesis using upgrade us(1) *(2) copy_bidirectional_upstream [OF *(3)] us(3) by simp
    qed
  qed
qed

lemma forwarded_unit_mono: "forwarded_unit env i u \<Longrightarrow> forwarded_unit env (w @ i) u"
  unfolding forwarded_unit_def by (metis append.right_neutral sublist_appendI sublist_order.order_trans)

lemma upgrade_allowed_mono: "upgrade_allowed env i \<Longrightarrow> upgrade_allowed env (w @ i)"
  unfolding upgrade_allowed_def by (metis append.right_neutral sublist_appendI sublist_order.order_trans)

lemma relay_rest_enforced:
  assumes "re_enforcement env = Enforce" "relay_rest env c = (r, c')"
  shows "\<exists>us tail. cn_to_upstream c' = cn_to_upstream c @ concat us @ tail
    \<and> list_all (forwarded_unit env (concat (cn_client_in c))) us
    \<and> (tail = [] \<or> upgrade_allowed env (concat (cn_client_in c)))"
  using assms
proof (induction env c rule: relay_rest.induct)
  case (1 env c)
  obtain o1 c1 where o: "relay_one env c = (o1, c1)" by fastforce
  show ?case
  proof (cases o1)
    case (Some r1)
    then have "c1 = c'" using "1.prems"(2) o by (simp add: relay_rest.simps)
    then show ?thesis using relay_one_cases [OF o "1.prems"(1)] by (metis append.right_neutral)
  next
    case None
    obtain us where us: "list_all (forwarded_unit env (concat (cn_client_in c))) us"
      "cn_to_upstream c1 = cn_to_upstream c @ concat us"
      using relay_one_cases [OF o "1.prems"(1)] None by metis
    obtain w where w: "concat (cn_client_in c) = w @ concat (cn_client_in c1)"
      using relay_one_suffix o None by blast
    have "relay_rest env c1 = (r, c')" using "1.prems"(2) o None by (simp add: relay_rest.simps [of env c])
    then obtain us' tail where ih: "cn_to_upstream c' = cn_to_upstream c1 @ concat us' @ tail"
      "list_all (forwarded_unit env (concat (cn_client_in c1))) us'"
      "tail = [] \<or> upgrade_allowed env (concat (cn_client_in c1))"
      using "1.IH" [OF o [symmetric] None "1.prems"(1)] by blast
    show ?thesis
      using us ih w by (intro exI [of _ "us @ us'"] exI [of _ tail])
        (auto simp: list_all_iff intro: upgrade_allowed_mono forwarded_unit_mono)
  qed
qed

text \<open>In enforce mode nothing reaches the upstream but allowed requests. What the relay writes upstream is a
  sequence of units, each the rewritten head of a request of the client's input that the policy allowed, followed
  by at most its declared body; the only other bytes are the tail of a connection upgraded by an allowed upgrade
  request.
\<close>

theorem l7_enforcement:
  assumes "re_enforcement env = Enforce" "relay_rest env c = (r, c')"
  shows "\<exists>us tail. cn_to_upstream c' = cn_to_upstream c @ concat us @ tail
    \<and> list_all (forwarded_unit env (concat (cn_client_in c))) us
    \<and> (tail = [] \<or> upgrade_allowed env (concat (cn_client_in c)))"
  by (rule relay_rest_enforced [OF assms])

theorem l7_enforcement_witness:
  "let env = \<lparr>re_eval = (\<lambda>_. Inr (False, ''denied'')), re_enforcement = Enforce, re_policy_name = ''p'',
         re_resolver = None, re_b64 = \<lparr>b64_decode = Some, b64_encode = id\<rparr>, re_json = concat \<circ> map fst\<rparr>;
       c = \<lparr>cn_client_in = [''DELETE /x HTTP/1.1'' @ CRLF @ CRLF], cn_upstream_in = [], cn_to_upstream = [], cn_to_client = []\<rparr>
   in cn_to_upstream (snd (relay_rest env c)) = []"
proof -
  let ?env = "\<lparr>re_eval = (\<lambda>_. Inr (False, ''denied'')), re_enforcement = Enforce, re_policy_name = ''p'',
         re_resolver = None, re_b64 = \<lparr>b64_decode = Some, b64_encode = id\<rparr>, re_json = concat \<circ> map fst\<rparr>"
  let ?c = "\<lparr>cn_client_in = [''DELETE /x HTTP/1.1'' @ CRLF @ CRLF], cn_upstream_in = [], cn_to_upstream = [], cn_to_client = []\<rparr>"
  have "\<not> allows ?env req" for req by (auto simp: allows_def split: sum.splits)
  then have "\<not> forwarded_unit ?env i u" "\<not> upgrade_allowed ?env i" for i u
    by (auto simp: forwarded_unit_def upgrade_allowed_def)
  then show ?thesis
    using l7_enforcement [of ?env ?c "fst (relay_rest ?env ?c)" "snd (relay_rest ?env ?c)"]
    by (auto simp: list_all_iff Let_def)
qed

section \<open>Pipelining after a chunked body\<close>

text \<open>A chunked request body is relayed in blocks, and whatever the client sent behind its terminator in the same
  block is written upstream with it: the bytes of a pipelined request reach the upstream without having been
  parsed or evaluated, and the relay reports success.
\<close>

theorem chunked_body_smuggles:
  assumes "length smuggled + 5 \<le> RELAY_BUF_SIZE"
  shows "relay_chunked [] [''0'' @ CRLF @ CRLF @ smuggled] = (Inr (), ''0'' @ CRLF @ CRLF @ smuggled, [])"
proof -
  let ?b = "CHR ''0'' # CR # LF # CR # LF # smuggled"
  have rd: "read_some RELAY_BUF_SIZE [?b] = (?b, [])" using assms by (simp)
  have c0: "find_crlf [] 0 = None" "find_crlf ?b 0 = Some 1" "find_crlf ?b 3 = Some 3"
    by (simp_all add: find_crlf_def starts_with_prefix)
  have l: "subslice ?b 0 (Suc 0) = ''0''" "subslice ?b 3 3 = []" by (simp_all add: subslice_def)
  have t: "trim ''0'' = ''0''" by code_simp
  have z: "is_utf8 ''0''" "parse_uint 16 64 (size_line_token ''0'') = Some 0"
    using t by (code_simp, simp add: size_line_token_def parse_uint_def digit_value_def is_ascii_digit_def)
  have f1: "fill_crlf e [] 0 [] [?b] = (Inr (Suc 0, ?b), ?b, [])" for e
    using rd c0 by (simp add: fill_crlf.simps [of e "[]"] fill_crlf.simps [of e ?b])
  have f2: "fill_crlf e ?b 3 ?b [] = (Inr (3, ?b), ?b, [])" for e
    using c0 by (simp add: fill_crlf.simps [of e ?b])
  show ?thesis
    unfolding relay_chunked_def
    by (subst chunked_loop.simps) (simp add: f1 l z relay_trailers.simps [of ?b] f2 [unfolded numeral_3_eq_3] l(2) [unfolded numeral_3_eq_3])
qed

theorem chunked_body_smuggles_witness:
  "relay_chunked [] [''0'' @ CRLF @ CRLF @ ''GET /admin HTTP/1.1'' @ CRLF @ CRLF]
     = (Inr (), ''0'' @ CRLF @ CRLF @ ''GET /admin HTTP/1.1'' @ CRLF @ CRLF, [])"
  using chunked_body_smuggles [of "''GET /admin HTTP/1.1'' @ CRLF @ CRLF"] by (simp add: RELAY_BUF_SIZE_def)

end
