(* ===== verification/Proxy_Net.thy ===== *)
theory Proxy_Net
  imports Rust_Text
begin

text \<open>
  The address checks of the proxy (\<open>crates/openshell-sandbox/src/proxy.rs\<close>): which resolved addresses
  are internal, which are blocked whatever the policy says, the allow list of networks and the two
  resolution functions. An IPv4 address is a 32-bit word, an IPv6 address a 128-bit word. DNS, the
  network parser and network membership (third-party crates) are parameters.
\<close>

unbundle bit_operations_syntax

section \<open>Addresses of the standard library\<close>

datatype ip_addr = V4 "32 word" | V6 "128 word"

definition octet :: "nat \<Rightarrow> 32 word \<Rightarrow> nat" where
  "octet i a = unat a div 2 ^ (24 - 8 * i) mod 256"

definition v4_is_loopback :: "32 word \<Rightarrow> bool" where
  "v4_is_loopback a \<longleftrightarrow> octet 0 a = 127"

definition v4_is_private :: "32 word \<Rightarrow> bool" where
  "v4_is_private a \<longleftrightarrow> octet 0 a = 10 \<or> octet 0 a = 172 \<and> 16 \<le> octet 1 a \<and> octet 1 a \<le> 31
     \<or> octet 0 a = 192 \<and> octet 1 a = 168"

definition v4_is_link_local :: "32 word \<Rightarrow> bool" where
  "v4_is_link_local a \<longleftrightarrow> octet 0 a = 169 \<and> octet 1 a = 254"

definition v4_is_unspecified :: "32 word \<Rightarrow> bool" where
  "v4_is_unspecified a \<longleftrightarrow> a = 0"

definition v6_is_loopback :: "128 word \<Rightarrow> bool" where
  "v6_is_loopback a \<longleftrightarrow> a = 1"

definition v6_is_unspecified :: "128 word \<Rightarrow> bool" where
  "v6_is_unspecified a \<longleftrightarrow> a = 0"

definition segment0 :: "128 word \<Rightarrow> 16 word" where
  "segment0 a = ucast (drop_bit 112 a)"

definition to_ipv4_mapped :: "128 word \<Rightarrow> 32 word option" where
  "to_ipv4_mapped a = (if drop_bit 32 a = 0xffff then Some (ucast a) else None)"

section \<open>Classification\<close>

definition is_internal_ip :: "ip_addr \<Rightarrow> bool" where
  "is_internal_ip ip = (case ip of
     V4 v4 \<Rightarrow> v4_is_loopback v4 \<or> v4_is_private v4 \<or> v4_is_link_local v4 \<or> v4_is_unspecified v4
   | V6 v6 \<Rightarrow>
       if v6_is_loopback v6 \<or> v6_is_unspecified v6 then True
       else if segment0 v6 AND 0xffc0 = 0xfe80 then True
       else if segment0 v6 AND 0xfe00 = 0xfc00 then True
       else (case to_ipv4_mapped v6 of
          Some v4 \<Rightarrow> v4_is_loopback v4 \<or> v4_is_private v4 \<or> v4_is_link_local v4 \<or> v4_is_unspecified v4
        | None \<Rightarrow> False))"

definition is_always_blocked_ip :: "ip_addr \<Rightarrow> bool" where
  "is_always_blocked_ip ip = (case ip of
     V4 v4 \<Rightarrow> v4_is_loopback v4 \<or> v4_is_link_local v4 \<or> v4_is_unspecified v4
   | V6 v6 \<Rightarrow>
       if v6_is_loopback v6 \<or> v6_is_unspecified v6 then True
       else if segment0 v6 AND 0xffc0 = 0xfe80 then True
       else (case to_ipv4_mapped v6 of
          Some v4 \<Rightarrow> v4_is_loopback v4 \<or> v4_is_link_local v4 \<or> v4_is_unspecified v4
        | None \<Rightarrow> False))"

section \<open>Resolution\<close>

record socket_addr =
  so_ip :: ip_addr
  so_port :: "16 word"

text \<open>
  What the resolution relies on: name lookup, the text of an address, parsing of an address (standard
  library) and of a network, membership in a network, and the network of a single address.
\<close>

record 'n net_env =
  ne_lookup_host :: "string \<Rightarrow> 16 word \<Rightarrow> (string, socket_addr list) result"
  ne_show_ip :: "ip_addr \<Rightarrow> string"
  ne_parse_ip :: "string \<Rightarrow> ip_addr option"
  ne_parse_net :: "string \<Rightarrow> 'n option"
  ne_net_of_ip :: "ip_addr \<Rightarrow> 'n"
  ne_contains :: "'n \<Rightarrow> ip_addr \<Rightarrow> bool"

definition show_port :: "16 word \<Rightarrow> string" where
  "show_port p = show_nat (unat p)"

definition lookup_addrs :: "'n net_env \<Rightarrow> string \<Rightarrow> 16 word \<Rightarrow> (string, socket_addr list) result" where
  "lookup_addrs env host port = (case ne_lookup_host env host port of
     Inl e \<Rightarrow> Inl (''DNS resolution failed for '' @ host @ '':'' @ show_port port @ '': '' @ e)
   | Inr addrs \<Rightarrow> if addrs = []
       then Inl (''DNS resolution returned no addresses for '' @ host @ '':'' @ show_port port)
       else Inr addrs)"

definition implicit_allowed_ips_for_ip_host :: "'n net_env \<Rightarrow> string \<Rightarrow> string list" where
  "implicit_allowed_ips_for_ip_host env host = (if ne_parse_ip env host \<noteq> None then [host] else [])"

definition resolve_and_reject_internal ::
  "'n net_env \<Rightarrow> string \<Rightarrow> 16 word \<Rightarrow> (string, socket_addr list) result" where
  "resolve_and_reject_internal env host port =
     and_then (lookup_addrs env host port) (\<lambda>addrs.
     and_then (for_each (\<lambda>addr. fail_if (is_internal_ip (so_ip addr))
         (host @ '' resolves to internal address '' @ ne_show_ip env (so_ip addr) @ '', connection rejected'')) addrs)
       (\<lambda>_. Inr addrs))"

definition BLOCKED_CONTROL_PLANE_PORTS :: "16 word list" where
  "BLOCKED_CONTROL_PLANE_PORTS = [2379, 2380, 6443, 10250, 10255]"

definition check_allowed :: "'n net_env \<Rightarrow> string \<Rightarrow> 'n list \<Rightarrow> socket_addr \<Rightarrow> (string, unit) result" where
  "check_allowed env host allowed_ips addr =
     and_then (fail_if (is_always_blocked_ip (so_ip addr))
         (host @ '' resolves to always-blocked address '' @ ne_show_ip env (so_ip addr) @ '', connection rejected''))
       (\<lambda>_. fail_if (\<not> list_ex (\<lambda>net. ne_contains env net (so_ip addr)) allowed_ips)
         (host @ '' resolves to '' @ ne_show_ip env (so_ip addr)
            @ '' which is not in allowed_ips, connection rejected''))"

definition resolve_and_check_allowed_ips ::
  "'n net_env \<Rightarrow> string \<Rightarrow> 16 word \<Rightarrow> 'n list \<Rightarrow> (string, socket_addr list) result" where
  "resolve_and_check_allowed_ips env host port allowed_ips =
     and_then (lookup_addrs env host port) (\<lambda>addrs.
     and_then (fail_if (port \<in> set BLOCKED_CONTROL_PLANE_PORTS)
         (''port '' @ show_port port @ '' is a blocked control-plane port, connection rejected'')) (\<lambda>_.
     and_then (for_each (check_allowed env host allowed_ips) addrs) (\<lambda>_. Inr addrs)))"

definition parse_allowed_ip :: "'n net_env \<Rightarrow> string \<Rightarrow> 'n option" where
  "parse_allowed_ip env entry = (case ne_parse_net env entry of
     Some n \<Rightarrow> Some n
   | None \<Rightarrow> map_option (ne_net_of_ip env) (ne_parse_ip env entry))"

definition parse_allowed_ips :: "'n net_env \<Rightarrow> string list \<Rightarrow> (string, 'n list) result" where
  "parse_allowed_ips env raw =
     (let errors = map (\<lambda>entry. ''invalid CIDR/IP in allowed_ips: '' @ entry)
        (filter (\<lambda>entry. parse_allowed_ip env entry = None) raw)
      in if errors = [] then Inr (map (\<lambda>entry. the (parse_allowed_ip env entry)) raw)
         else Inl (join ''; '' errors))"

section \<open>Classification by ranges\<close>

text \<open>Membership in a CIDR block: the address agrees with the base on the first \<open>plen\<close> bits.\<close>

definition in_cidr :: "'a::len word \<Rightarrow> nat \<Rightarrow> 'a word \<Rightarrow> bool" where
  "in_cidr base plen a \<longleftrightarrow>
     unat a div 2 ^ (LENGTH('a) - plen) = unat base div 2 ^ (LENGTH('a) - plen)"

definition ipv4 :: "nat \<Rightarrow> nat \<Rightarrow> nat \<Rightarrow> nat \<Rightarrow> 32 word" where
  "ipv4 a b c d = of_nat (((a * 256 + b) * 256 + c) * 256 + d)"

lemma unat_ipv4: "a < 256 \<Longrightarrow> b < 256 \<Longrightarrow> c < 256 \<Longrightarrow> d < 256 \<Longrightarrow>
    unat (ipv4 a b c d) = ((a * 256 + b) * 256 + c) * 256 + d"
  unfolding ipv4_def unat_of_nat by (rule mod_less) simp

lemma octet_div: "octet 0 a = unat a div 2 ^ 24" "octet (Suc 0) a = unat a div 2 ^ 16 mod 256"
proof -
  have "unat a < 2 ^ 32" using unsigned_less [of a] by simp
  then have "unat a div 2 ^ 24 < 256" by (simp add: less_mult_imp_div_less)
  then show "octet 0 a = unat a div 2 ^ 24" "octet (Suc 0) a = unat a div 2 ^ 16 mod 256"
    by (simp_all add: octet_def)
qed


text \<open>172.16/12 through the octets.\<close>

lemma private_172: "y div 256 = 172 \<and> 16 \<le> y mod 256 \<and> y mod 256 \<le> 31 \<longleftrightarrow> y div 16 = (2753 :: nat)"
proof -
  have a: "y div 256 = y div 16 div 16" by (simp add: div_mult2_eq [symmetric])
  have b: "y mod 256 = 16 * (y div 16 mod 16) + y mod 16" using mod_mult2_eq [of y 16 16] by simp
  have "16 \<le> 16 * m + k \<and> 16 * m + k \<le> 31 \<longleftrightarrow> m = 1" if "k < 16" for m k :: nat using that by linarith
  then have "16 \<le> y mod 256 \<and> y mod 256 \<le> 31 \<longleftrightarrow> y div 16 mod 16 = 1" unfolding b by simp
  moreover have "z div 16 = 172 \<and> z mod 16 = 1 \<longleftrightarrow> z = 2753" for z :: nat
  proof
    assume "z div 16 = 172 \<and> z mod 16 = 1"
    then show "z = 2753" using div_mult_mod_eq [of z 16] by simp
  qed simp
  ultimately show ?thesis using a by metis
qed

text \<open>The blocks of IPv4 in the documentation of the function.\<close>

definition internal_v4 :: "32 word \<Rightarrow> bool" where
  "internal_v4 a \<longleftrightarrow> in_cidr (ipv4 127 0 0 0) 8 a \<or> in_cidr (ipv4 10 0 0 0) 8 a \<or> in_cidr (ipv4 172 16 0 0) 12 a
     \<or> in_cidr (ipv4 192 168 0 0) 16 a \<or> in_cidr (ipv4 169 254 0 0) 16 a \<or> a = ipv4 0 0 0 0"

lemma v4_ranges:
  "v4_is_loopback a \<longleftrightarrow> in_cidr (ipv4 127 0 0 0) 8 a"
  "v4_is_link_local a \<longleftrightarrow> in_cidr (ipv4 169 254 0 0) 16 a"
  "v4_is_private a \<longleftrightarrow> in_cidr (ipv4 10 0 0 0) 8 a \<or> in_cidr (ipv4 172 16 0 0) 12 a \<or> in_cidr (ipv4 192 168 0 0) 16 a"
proof -
  let ?x = "unat a"
  show "v4_is_loopback a \<longleftrightarrow> in_cidr (ipv4 127 0 0 0) 8 a"
    by (simp add: v4_is_loopback_def in_cidr_def octet_div unat_ipv4)
  have link: "?x div 2 ^ 24 = p \<and> ?x div 2 ^ 16 mod 256 = q \<longleftrightarrow> ?x div 2 ^ 16 = 256 * p + q" if "q < 256" for p q
  proof -
    have "?x div 2 ^ 24 = ?x div 2 ^ 16 div 256" by (simp add: div_mult2_eq [symmetric])
    moreover have "y div 256 = p \<and> y mod 256 = q \<longleftrightarrow> y = 256 * p + q" for y :: nat using that by auto
    ultimately show ?thesis by metis
  qed
  show "v4_is_link_local a \<longleftrightarrow> in_cidr (ipv4 169 254 0 0) 16 a"
    using link [of 254 169] by (simp add: v4_is_link_local_def in_cidr_def octet_div unat_ipv4)
  have "?x div 2 ^ 24 = 172 \<and> 16 \<le> ?x div 2 ^ 16 mod 256 \<and> ?x div 2 ^ 16 mod 256 \<le> 31 \<longleftrightarrow> ?x div 2 ^ 20 = 2753"
  proof -
    have "?x div 2 ^ 24 = ?x div 2 ^ 16 div 256" "?x div 2 ^ 20 = ?x div 2 ^ 16 div 16"
      by (simp_all add: div_mult2_eq [symmetric])
    then show ?thesis using private_172 [of "?x div 2 ^ 16"] by metis
  qed
  then show "v4_is_private a \<longleftrightarrow> in_cidr (ipv4 10 0 0 0) 8 a \<or> in_cidr (ipv4 172 16 0 0) 12 a
      \<or> in_cidr (ipv4 192 168 0 0) 16 a"
    using link [of 168 192] by (simp add: v4_is_private_def in_cidr_def octet_div unat_ipv4)
qed

lemma v4_zero: "ipv4 0 0 0 0 = 0"
  by (simp add: ipv4_def)

lemma mask_eq_block:
  fixes w b :: "'a::len word"
  assumes "m = NOT (mask n)" "b AND m = b" "n < LENGTH('a)"
  shows "w AND m = b \<longleftrightarrow> unat w div 2 ^ n = unat b div 2 ^ n"
proof -
  have "w AND m = b \<longleftrightarrow> drop_bit n w = drop_bit n b"
  proof
    assume "w AND m = b"
    then have "drop_bit n b = drop_bit n (w AND NOT (mask n))" by (simp add: assms(1))
    also have "\<dots> = drop_bit n w" by (rule bit_eqI) (auto simp: bit_simps dest: bit_imp_le_length)
    finally show "drop_bit n w = drop_bit n b" by simp
  next
    assume d: "drop_bit n w = drop_bit n b"
    have "w AND m = push_bit n (drop_bit n w)" for w :: "'a word"
      unfolding assms(1) by (rule bit_eqI) (auto simp: bit_simps dest: bit_imp_le_length)
    then show "w AND m = b" using d assms(2) by metis
  qed
  then show ?thesis
    by (metis unat_drop_bit_eq drop_bit_eq_div word_unat_eq_iff)
qed

lemma segment0_div: "unat (segment0 a) = unat a div 2 ^ 112"
proof -
  have "unat a < 2 ^ 128" using unsigned_less [of a] by simp
  then have "unat a div 2 ^ 112 < 2 ^ 16" by (simp add: less_mult_imp_div_less)
  then show ?thesis
    unfolding segment0_def unsigned_ucast_eq unat_drop_bit_eq by (simp add: drop_bit_eq_div take_bit_eq_mod)
qed

lemma segment_block:
  fixes a :: "128 word" and b m :: "16 word"
  assumes "m = NOT (mask n)" "b AND m = b" "n < 16"
  shows "segment0 a AND m = b \<longleftrightarrow> in_cidr (push_bit 112 (ucast b)) (16 - n) a"
proof -
  have l: "128 - (16 - n) = 112 + n" using assms(3) by simp
  have b: "unat b < 2 ^ 16" using unsigned_less [of b] by simp
  have "unat (push_bit 112 (ucast b) :: 128 word) = unat b * 2 ^ 112"
  proof -
    have "(push_bit 112 (ucast b) :: 128 word) = of_nat (unat b * 2 ^ 112)"
      by (simp add: push_bit_eq_mult unsigned_of_nat)
    moreover have "unat b * 2 ^ 112 < 2 ^ LENGTH(128)" using b by simp
    ultimately show ?thesis by (metis unat_of_nat mod_less)
  qed
  then have "in_cidr (push_bit 112 (ucast b)) (16 - n) a \<longleftrightarrow>
      unat a div 2 ^ (112 + n) = (unat b * 2 ^ 112) div 2 ^ (112 + n)"
    by (simp add: in_cidr_def l)
  also have "\<dots> \<longleftrightarrow> unat (segment0 a) div 2 ^ n = unat b div 2 ^ n"
    by (simp add: segment0_div power_add div_mult2_eq)
  finally show ?thesis using mask_eq_block [OF assms(1,2), of "segment0 a"] assms(3) by simp
qed

lemma v6_blocks:
  "segment0 a AND 0xffc0 = 0xfe80 \<longleftrightarrow> in_cidr (push_bit 112 0xfe80) 10 a"
  "segment0 a AND 0xfe00 = 0xfc00 \<longleftrightarrow> in_cidr (push_bit 112 0xfc00) 7 a"
  using segment_block [where m = "0xffc0" and n = 6 and b = "0xfe80" and a = a]
    segment_block [where m = "0xfe00" and n = 9 and b = "0xfc00" and a = a]
  by (simp_all add: mask_eq_exp_minus_1)

lemma mapped_block:
  "to_ipv4_mapped a = (if in_cidr (push_bit 32 0xffff) 96 a then Some (ucast a) else None)"
proof -
  have "drop_bit 32 a = 0xffff \<longleftrightarrow> unat (drop_bit 32 a) = unat (0xffff :: 128 word)"
    by (simp only: word_unat_eq_iff)
  also have "\<dots> \<longleftrightarrow> unat a div 2 ^ 32 = 0xffff"
    unfolding unat_drop_bit_eq by (simp add: drop_bit_eq_div)
  finally show ?thesis by (simp add: to_ipv4_mapped_def in_cidr_def)
qed


lemma always_blocked_internal: "is_always_blocked_ip ip \<Longrightarrow> is_internal_ip ip"
  by (auto simp: is_internal_ip_def is_always_blocked_ip_def split: ip_addr.splits option.splits if_splits)

section \<open>Resolution\<close>

lemma lookup_addrs_ok:
  "lookup_addrs env host port = Inr addrs \<longleftrightarrow> ne_lookup_host env host port = Inr addrs \<and> addrs \<noteq> []"
  by (auto simp: lookup_addrs_def split: sum.splits)

lemma resolve_reject_iff:
  "resolve_and_reject_internal env host port = Inr addrs \<longleftrightarrow>
      ne_lookup_host env host port = Inr addrs \<and> addrs \<noteq> [] \<and> list_all (\<lambda>a. \<not> is_internal_ip (so_ip a)) addrs"
  by (auto simp: resolve_and_reject_internal_def and_then_Inr lookup_addrs_ok list_all_iff and_then_unit_ok)

lemma resolve_check_iff:
  "resolve_and_check_allowed_ips env host port nets = Inr addrs \<longleftrightarrow>
      ne_lookup_host env host port = Inr addrs \<and> addrs \<noteq> [] \<and> port \<notin> {2379, 2380, 6443, 10250, 10255}
      \<and> list_all (\<lambda>a. \<not> is_always_blocked_ip (so_ip a) \<and> list_ex (\<lambda>net. ne_contains env net (so_ip a)) nets) addrs"
  by (auto simp: resolve_and_check_allowed_ips_def and_then_Inr lookup_addrs_ok
      check_allowed_def BLOCKED_CONTROL_PLANE_PORTS_def list_all_iff and_then_unit_ok)

text \<open>The contract of a resolver that guards the outgoing connection: what it returns is permitted, and nothing
  that is always blocked is permitted.\<close>

locale address_guard =
  fixes resolve :: "string \<Rightarrow> 16 word \<Rightarrow> (string, socket_addr list) result"
    and permitted :: "ip_addr \<Rightarrow> bool"
  assumes resolve_permitted: "resolve host port = Inr addrs \<Longrightarrow> a \<in> set addrs \<Longrightarrow> permitted (so_ip a)"
    and permitted_not_blocked: "permitted ip \<Longrightarrow> \<not> is_always_blocked_ip ip"
begin

lemma never_blocked: "resolve host port = Inr addrs \<Longrightarrow> list_all (\<lambda>a. \<not> is_always_blocked_ip (so_ip a)) addrs"
  by (simp add: list_all_iff resolve_permitted permitted_not_blocked)

lemma all_permitted: "resolve host port = Inr addrs \<Longrightarrow> list_all (\<lambda>a. permitted (so_ip a)) addrs"
  by (simp add: list_all_iff resolve_permitted)

end

interpretation reject_guard: address_guard "resolve_and_reject_internal net" "\<lambda>ip. \<not> is_internal_ip ip" for net
  by unfold_locales (auto simp: resolve_reject_iff list_all_iff dest: always_blocked_internal)

interpretation allow_guard: address_guard "\<lambda>host port. resolve_and_check_allowed_ips net host port nets"
    "\<lambda>ip. \<not> is_always_blocked_ip ip \<and> list_ex (\<lambda>n. ne_contains net n ip) nets" for net nets
  by unfold_locales (auto simp: resolve_check_iff list_all_iff)

text \<open>The resolution functions never hand out an address they should not: without an allow list no
  returned address is internal; with one, no returned address is loopback, link-local or unspecified,
  each lies in a listed network and the port is no control-plane port. In both cases the result is
  exactly the non-empty answer of the name lookup, so one bad address rejects the whole answer.\<close>

theorem resolution_never_internal:
  "(resolve_and_reject_internal env host port = Inr addrs \<longleftrightarrow>
      ne_lookup_host env host port = Inr addrs \<and> addrs \<noteq> [] \<and> list_all (\<lambda>a. \<not> is_internal_ip (so_ip a)) addrs)
   \<and> (resolve_and_check_allowed_ips env host port nets = Inr addrs \<longleftrightarrow>
      ne_lookup_host env host port = Inr addrs \<and> addrs \<noteq> [] \<and> port \<notin> {2379, 2380, 6443, 10250, 10255}
      \<and> list_all (\<lambda>a. \<not> is_always_blocked_ip (so_ip a) \<and> list_ex (\<lambda>net. ne_contains env net (so_ip a)) nets) addrs)"
  by (simp only: resolve_reject_iff resolve_check_iff simp_thms)

lemma parse_allowed_ips_ok:
  "parse_allowed_ips env raw = Inr nets \<longleftrightarrow>
     list_all (\<lambda>e. parse_allowed_ip env e \<noteq> None) raw \<and> nets = map (\<lambda>e. the (parse_allowed_ip env e)) raw"
  by (auto simp: parse_allowed_ips_def Let_def list_all_iff filter_empty_conv)

end
