(* ===== verification/Proxy_Http.thy ===== *)
theory Proxy_Http
  imports L7_Relay Proxy_Net
begin

text \<open>
  The text processing of the sandbox proxy (\<open>crates/openshell-sandbox/src/proxy.rs\<close>, and the TLS detection of
  \<open>l7/tls.rs\<close>): request targets and URIs, header filtering for inference, and the rewriting of a forward proxy
  request to origin form.
\<close>

section \<open>Targets and URIs\<close>

definition parse_port :: "string \<Rightarrow> 16 word option" where
  "parse_port s = map_option of_nat (parse_uint 10 16 s)"

definition parse_target :: "string \<Rightarrow> (string, string \<times> 16 word) result" where
  "parse_target target = (case split_once '':'' target of
     None \<Rightarrow> Inl (''CONNECT target missing port: '' @ target)
   | Some (host, port_str) \<Rightarrow> (case parse_port port_str of
       None \<Rightarrow> Inl (''Invalid port in CONNECT target: '' @ target)
     | Some port \<Rightarrow> Inr (host, port)))"

definition normalize_inference_path :: "string \<Rightarrow> string" where
  "normalize_inference_path path = (case find_sub ''://'' path of
     Some scheme_idx \<Rightarrow>
       let after_scheme = drop (scheme_idx + 3) path in
       (case find_sub ''/'' after_scheme of Some path_start \<Rightarrow> drop path_start after_scheme | None \<Rightarrow> ''/'')
   | None \<Rightarrow> path)"

definition default_port :: "string \<Rightarrow> 16 word" where
  "default_port scheme = (if scheme = ''https'' then 443 else 80)"

text \<open>The authority and the path of what follows the scheme.\<close>

definition split_authority :: "string \<Rightarrow> string \<Rightarrow> (string, string \<times> string) result" where
  "split_authority uri rest =
     (if starts_with ''['' rest then
        (case find_sub '']'' rest of
           None \<Rightarrow> Inl (''Unclosed IPv6 bracket in URI: '' @ uri)
         | Some bracket_end \<Rightarrow>
             let after_bracket = drop (bracket_end + 1) rest in
             (case find_sub ''/'' after_bracket of
                Some slash_pos \<Rightarrow> Inr (take (bracket_end + 1 + slash_pos) rest, drop slash_pos after_bracket)
              | None \<Rightarrow> Inr (rest, ''/'')))
      else (case find_sub ''/'' rest of
          Some slash_pos \<Rightarrow> Inr (take slash_pos rest, drop slash_pos rest)
        | None \<Rightarrow> Inr (rest, ''/'')))"

definition split_host_port :: "string \<Rightarrow> string \<Rightarrow> string \<Rightarrow> (string, string \<times> 16 word) result" where
  "split_host_port uri scheme authority =
     (let port_of = (\<lambda>s. case parse_port s of None \<Rightarrow> Inl (''Invalid port in URI: '' @ uri) | Some p \<Rightarrow> Inr p) in
      if starts_with ''['' authority then
        (case find_sub '']'' authority of
           None \<Rightarrow> Inl (''Unclosed IPv6 bracket: '' @ uri)
         | Some bracket_end \<Rightarrow>
             and_then (case strip_prefix '':'' (drop (bracket_end + 1) authority) of
                 Some port_str \<Rightarrow> port_of port_str
               | None \<Rightarrow> Inr (default_port scheme))
               (\<lambda>port. Inr (take (bracket_end - 1) (drop 1 authority), port)))
      else (case rsplit_once CHR '':'' authority of
          Some (h, p) \<Rightarrow> and_then (port_of p) (\<lambda>port. Inr (h, port))
        | None \<Rightarrow> Inr (authority, default_port scheme)))"

definition parse_proxy_uri :: "string \<Rightarrow> (string, string \<times> string \<times> 16 word \<times> string) result" where
  "parse_proxy_uri uri = (case split_once ''://'' uri of
     None \<Rightarrow> Inl (''Missing scheme in proxy URI: '' @ uri)
   | Some (scheme0, rest) \<Rightarrow>
       let scheme = to_ascii_lowercase scheme0 in
       and_then (split_authority uri rest) (\<lambda>(authority, path).
       and_then (split_host_port uri scheme authority) (\<lambda>(host, port).
         if host = [] then Inl (''Empty host in URI: '' @ uri)
         else Inr (scheme, host, port, if path = [] then ''/'' else path))))"

section \<open>Protocol detection\<close>

definition looks_like_tls :: "string \<Rightarrow> bool" where
  "looks_like_tls peek = (if length peek < 3 then False
     else if ord (peek ! 0) \<noteq> 0x16 then False
     else if ord (peek ! 1) \<noteq> 0x03 then False
     else ord (peek ! 2) \<le> 0x04)"

section \<open>Inference headers\<close>

definition is_hop_by_hop_header :: "string \<Rightarrow> bool" where
  "is_hop_by_hop_header name \<longleftrightarrow> name \<in> {''connection'', ''keep-alive'', ''proxy-authenticate'', ''proxy-authorization'',
     ''proxy-connection'', ''te'', ''trailer'', ''transfer-encoding'', ''upgrade''}"

definition should_strip_request_header :: "string \<Rightarrow> bool" where
  "should_strip_request_header name = (let name_lc = to_ascii_lowercase name in
     name_lc \<in> {''authorization'', ''x-api-key'', ''host'', ''content-length''} \<or> is_hop_by_hop_header name_lc)"

definition should_strip_response_header :: "string \<Rightarrow> bool" where
  "should_strip_response_header name = (let name_lc = to_ascii_lowercase name in
     name_lc \<in> {''content-length''} \<or> is_hop_by_hop_header name_lc)"

definition sanitize_inference_request_headers :: "(string \<times> string) list \<Rightarrow> (string \<times> string) list" where
  "sanitize_inference_request_headers headers = filter (\<lambda>(name, _). \<not> should_strip_request_header name) headers"

definition sanitize_inference_response_headers :: "(string \<times> string) list \<Rightarrow> (string \<times> string) list" where
  "sanitize_inference_response_headers headers = filter (\<lambda>(name, _). \<not> should_strip_response_header name) headers"

datatype router_error = RouteNotFound string | NoCompatibleRoute string | Unauthorized string
  | UpstreamUnavailable string | UpstreamProtocol string | RouterInternal string

fun router_error_to_http :: "router_error \<Rightarrow> nat \<times> string" where
  "router_error_to_http (RouteNotFound _) = (400, ''no inference route configured'')"
| "router_error_to_http (NoCompatibleRoute _) = (400, ''no compatible inference route available'')"
| "router_error_to_http (Unauthorized _) = (401, ''unauthorized'')"
| "router_error_to_http (UpstreamUnavailable _) = (503, ''inference service unavailable'')"
| "router_error_to_http (UpstreamProtocol _) = (502, ''inference service error'')"
| "router_error_to_http (RouterInternal _) = (502, ''inference service error'')"

definition RELAY_BENIGN :: "string list" where
  "RELAY_BENIGN = [''close_notify'', ''tls handshake eof'', ''connection reset'', ''broken pipe'', ''unexpected eof'']"

definition is_benign_relay_error :: "string \<Rightarrow> bool" where
  "is_benign_relay_error err = list_ex (\<lambda>pat. contains pat (to_ascii_lowercase err)) RELAY_BENIGN"

section \<open>Forward requests\<close>

definition forward_request_line :: "string \<Rightarrow> string \<Rightarrow> string" where
  "forward_request_line path line = (case splitn3 CHR '' '' line of
     [a, b, c] \<Rightarrow> a @ '' '' @ path @ '' '' @ c
   | _ \<Rightarrow> line)"

definition proxy_hop_header :: "string \<Rightarrow> bool" where
  "proxy_hop_header line = (let lower = to_ascii_lowercase line in
     starts_with ''proxy-connection:'' lower \<or> starts_with ''proxy-authorization:'' lower
     \<or> starts_with ''proxy-authenticate:'' lower)"

definition connection_header :: "string \<Rightarrow> bool" where
  "connection_header line = starts_with ''connection:'' (to_ascii_lowercase line)"

definition via_header :: "string \<Rightarrow> bool" where
  "via_header line = starts_with ''via:'' (to_ascii_lowercase line)"

text \<open>The header lines after the request line: the lines written and whether a Connection and a Via line were
  seen. Lines are kept separate here; each is written with a line end.\<close>

fun forward_headers :: "(string \<Rightarrow> string) \<Rightarrow> string list \<Rightarrow> string list \<times> bool \<times> bool" where
  "forward_headers rewr [] = ([], False, False)"
| "forward_headers rewr (line # ls) =
     (if line = [] then ([], False, False)
      else if proxy_hop_header line then forward_headers rewr ls
      else if connection_header line then
        (case forward_headers rewr ls of (out, _, has_via) \<Rightarrow> (''Connection: close'' # out, True, has_via))
      else (case forward_headers rewr ls of (out, has_connection, has_via) \<Rightarrow>
        (rewr line # out, has_connection, via_header line \<or> has_via)))"

definition forward_header_end :: "string \<Rightarrow> nat" where
  "forward_header_end raw = (case find_sub CRLFCRLF raw of None \<Rightarrow> length raw | Some p \<Rightarrow> p + 4)"

definition forward_head_lines :: "base64_engine \<Rightarrow> string \<Rightarrow> string \<Rightarrow> secret_resolver option \<Rightarrow> string list" where
  "forward_head_lines b64 raw path resolver =
     (let rewr = (\<lambda>line. case resolver of Some r \<Rightarrow> rewrite_header_line b64 line r | None \<Rightarrow> line) in
      case split_str CRLF (utf8_lossy (take (forward_header_end raw) raw)) of
        [] \<Rightarrow> []
      | first # ls \<Rightarrow> (case forward_headers rewr ls of (out, has_connection, has_via) \<Rightarrow>
          forward_request_line path first # out
            @ (if has_connection then [] else [''Connection: close''])
            @ (if has_via then [] else [''Via: 1.1 openshell-sandbox''])))"

text \<open>\<open>raw\<close> is the used part of the buffer.\<close>

definition rewrite_forward_request ::
  "base64_engine \<Rightarrow> string \<Rightarrow> string \<Rightarrow> secret_resolver option \<Rightarrow> (unresolved_placeholder_error, string) result" where
  "rewrite_forward_request b64 raw path resolver =
     (let output = concat (map (\<lambda>line. line @ CRLF) (forward_head_lines b64 raw path resolver)) @ CRLF
            @ drop (forward_header_end raw) raw
      in if resolver \<noteq> None \<and> contains PLACEHOLDER_PREFIX (utf8_lossy output)
         then Inl (UnresolvedPlaceholderError ''header'') else Inr output)"

section \<open>URI round trip\<close>

definition uri_authority :: "string \<Rightarrow> 16 word \<Rightarrow> string" where
  "uri_authority host port = (if CHR '':'' \<in> set host then ''['' @ host @ '']'' else host) @ '':'' @ show_port port"

lemma find_char_append: "c \<notin> set a \<Longrightarrow> find_sub [c] (a @ c # b) = Some (length a)"
  by (simp add: find_sub_char position_append) (auto simp: position_None split: option.splits dest: position_Some)

lemma show_port_chars: "c \<in> set (show_port p) \<Longrightarrow> c \<noteq> CHR '':'' \<and> c \<noteq> CHR ''/'' \<and> c \<noteq> CHR '']''"
  using show_radix_hexdigit [of 10 c "unat p"]
  by (auto simp: show_port_def is_ascii_hexdigit_def is_ascii_digit_def)

lemma parse_port_show [simp]: "parse_port (show_port p) = Some p"
proof -
  have "unat p < 2 ^ 16" using unsigned_less [of p] by simp
  then show ?thesis unfolding parse_port_def show_port_def by (subst parse_uint_show_radix) simp_all
qed

lemma rsplit_once_char: "c \<notin> set b \<Longrightarrow> rsplit_once c (a @ c # b) = Some (a, b)"
proof -
  assume "c \<notin> set b"
  then have "position (\<lambda>x. x = c) (rev b) = None" by (auto simp: position_None)
  then have "position (\<lambda>x. x = c) (rev (a @ c # b)) = Some (length b)" by (simp add: position_append)
  then show ?thesis by (simp add: rsplit_once_def)
qed

lemma strip_prefix_Cons [simp]: "strip_prefix [c] (c # s) = Some s"
  by (simp add: strip_prefix_def starts_with_def)

text \<open>Parsing the URI of a host, a port and a path gives them back, for names and IPv4 addresses and for
  bracketed IPv6 addresses.\<close>

theorem parse_proxy_uri_roundtrip:
  assumes "host \<noteq> []" "set host \<inter> {CHR ''/'', CHR ''['', CHR '']''} = {}"
  shows "parse_proxy_uri (''http://'' @ uri_authority host port @ CHR ''/'' # path) = Inr (''http'', host, port, CHR ''/'' # path)"
proof -
  let ?rest = "uri_authority host port @ CHR ''/'' # path"
  have scheme: "split_once ''://'' (''http://'' @ ?rest) = Some (''http'', ?rest)"
    by (simp add: split_once_def starts_with_prefix)
  have low: "to_ascii_lowercase ''http'' = ''http''" by code_simp
  let ?port = "show_port port"
  have port: "CHR '':'' \<notin> set ?port" "CHR ''/'' \<notin> set ?port" using show_port_chars by blast+
  have auth: "split_authority uri ?rest = Inr (uri_authority host port, CHR ''/'' # path)" for uri
  proof (cases "CHR '':'' \<in> set host")
    case True
    have "find_sub '']'' ((CHR ''['' # host) @ CHR '']'' # '':'' @ ?port @ CHR ''/'' # path) = Some (length (CHR ''['' # host))"
      using assms(2) by (intro find_char_append) auto
    moreover have "find_sub ''/'' (('':'' @ ?port) @ CHR ''/'' # path) = Some (length ('':'' @ ?port))"
      using port by (intro find_char_append) auto
    ultimately show ?thesis using True by (simp add: split_authority_def uri_authority_def starts_with_def)
  next
    case False
    have "find_sub ''/'' ((host @ '':'' @ ?port) @ CHR ''/'' # path) = Some (length (host @ '':'' @ ?port))"
      using assms(2) port by (intro find_char_append) auto
    moreover have "\<not> starts_with ''['' (host @ t)" for t using assms by (cases host) (auto simp: starts_with_def)
    ultimately show ?thesis using False by (simp add: split_authority_def uri_authority_def)
  qed
  have hp: "split_host_port uri ''http'' (uri_authority host port) = Inr (host, port)" for uri
  proof (cases "CHR '':'' \<in> set host")
    case True
    have "find_sub '']'' ((CHR ''['' # host) @ CHR '']'' # '':'' @ ?port) = Some (length (CHR ''['' # host))"
      using assms(2) by (intro find_char_append) auto
    then show ?thesis using True by (simp add: split_host_port_def uri_authority_def starts_with_def and_then_Inr)
  next
    case False
    have "\<not> starts_with ''['' (host @ t)" for t using assms by (cases host) (auto simp: starts_with_def)
    then show ?thesis using False rsplit_once_char [OF port(1), of host] by (simp add: split_host_port_def uri_authority_def and_then_Inr)
  qed
  show ?thesis
    unfolding parse_proxy_uri_def scheme option.case prod.case Let_def low auth using assms(1) hp by simp
qed

theorem parse_proxy_uri_roundtrip_witness:
  "parse_proxy_uri (''http://'' @ uri_authority ''::1'' 8080 @ ''/x'') = Inr (''http'', ''::1'', 8080, ''/x'')"
  using parse_proxy_uri_roundtrip [of "''::1''" 8080 "''x''"] by simp

section \<open>What a forwarded head holds\<close>

lemma ascii_lower_colon: "ascii_lower c = CHR '':'' \<longleftrightarrow> c = CHR '':''"
  by (auto simp: ascii_lower_def is_ascii_upper_def ord_inj [symmetric])

lemma header_name_match:
  assumes "CHR '':'' \<notin> set n" "CHR '':'' \<notin> set nm"
  shows "starts_with (n @ '':'') (to_ascii_lowercase (nm @ CHR '':'' # w)) \<longleftrightarrow> n = to_ascii_lowercase nm"
proof -
  let ?l = "to_ascii_lowercase (nm @ CHR '':'' # w)"
  have l: "?l = to_ascii_lowercase nm @ CHR '':'' # to_ascii_lowercase w"
    by (simp add: to_ascii_lowercase_def ascii_lower_colon)
  have "CHR '':'' \<notin> set (to_ascii_lowercase nm)"
    using assms(2) ascii_lower_colon by (metis (no_types) imageE list.set_map to_ascii_lowercase_def)
  then have s: "split_once '':'' ?l = Some (to_ascii_lowercase nm, to_ascii_lowercase w)"
    by (simp add: l split_once_char_Some)
  show ?thesis
  proof
    assume "starts_with (n @ '':'') ?l"
    then obtain t where "?l = n @ CHR '':'' # t" by (auto simp: starts_with_prefix prefix_def)
    then have "split_once '':'' ?l = Some (n, t)" using assms(1) by (simp add: split_once_char_Some)
    then show "n = to_ascii_lowercase nm" using s by simp
  next
    assume "n = to_ascii_lowercase nm"
    then show "starts_with (n @ '':'') ?l" by (simp add: l starts_with_prefix prefix_def)
  qed
qed

lemma header_name_kept:
  assumes "CHR '':'' \<notin> set n"
  shows "starts_with (n @ '':'') (to_ascii_lowercase (rewrite_header_line b64 line r)) = starts_with (n @ '':'') (to_ascii_lowercase line)"
proof (cases "split_once '':'' line")
  case None
  then show ?thesis by (simp add: rewrite_header_line_def)
next
  case (Some nv)
  obtain nm v where nv: "nv = (nm, v)" by fastforce
  then have line: "line = nm @ CHR '':'' # v" using Some by (simp add: split_once_char_Some)
  have "\<exists>v'. rewrite_header_line b64 line r = nm @ CHR '':'' # v'"
    using Some nv line by (auto simp: rewrite_header_line_def split: option.splits)
  then obtain v' where "rewrite_header_line b64 line r = nm @ CHR '':'' # v'" by blast
  moreover have "starts_with (n @ '':'') (to_ascii_lowercase (nm @ CHR '':'' # w)) \<longleftrightarrow> n = to_ascii_lowercase nm" for w
    using header_name_match [OF assms, of nm w] Some nv by (simp add: split_once_char_Some)
  ultimately show ?thesis using line by simp
qed

lemma forward_headers_ok:
  assumes "\<And>l. proxy_hop_header (rewr l) = proxy_hop_header l" "\<And>l. connection_header (rewr l) = connection_header l"
    and "forward_headers rewr ls = (out, has_connection, has_via)"
  shows "list_all (\<lambda>l. \<not> proxy_hop_header l \<and> (connection_header l \<longrightarrow> l = ''Connection: close'')) out
    \<and> has_connection = list_ex connection_header out"
  using assms(3)
proof (induction ls arbitrary: out has_connection has_via)
  case (Cons line ls)
  obtain o1 c1 v1 where r: "forward_headers rewr ls = (o1, c1, v1)" by (metis prod_cases3)
  have close: "\<not> proxy_hop_header ''Connection: close''" "connection_header ''Connection: close''" by code_simp+
  show ?case using Cons.IH [OF r] Cons.prems r assms(1,2) close by (auto split: if_splits)
qed simp

lemma rewrite_kept:
  "proxy_hop_header (case resolver of Some r \<Rightarrow> rewrite_header_line b64 line r | None \<Rightarrow> line) = proxy_hop_header line"
  "connection_header (case resolver of Some r \<Rightarrow> rewrite_header_line b64 line r | None \<Rightarrow> line) = connection_header line"
  using header_name_kept [of "''proxy-connection''"] header_name_kept [of "''proxy-authorization''"]
    header_name_kept [of "''proxy-authenticate''"] header_name_kept [of "''connection''"]
  by (simp_all add: proxy_hop_header_def connection_header_def Let_def split: option.splits)

text \<open>A forwarded request asks the upstream to close the connection and keeps no proxy credentials: behind its
  request line the head has at least one Connection header, every one of them is \<open>Connection: close\<close>, no line is a
  proxy hop-by-hop header, and with credentials configured no placeholder is left anywhere in the output.\<close>

theorem forward_request_hygiene:
  assumes "rewrite_forward_request b64 raw path resolver = Inr output"
  shows "let ls = tl (forward_head_lines b64 raw path resolver) in
    output = concat (map (\<lambda>l. l @ CRLF) (forward_head_lines b64 raw path resolver)) @ CRLF @ drop (forward_header_end raw) raw
    \<and> list_ex connection_header ls
    \<and> list_all (\<lambda>l. \<not> proxy_hop_header l \<and> (connection_header l \<longrightarrow> l = ''Connection: close'')) ls
    \<and> (resolver \<noteq> None \<longrightarrow> \<not> contains PLACEHOLDER_PREFIX output)"
proof -
  let ?rewr = "\<lambda>line. case resolver of Some r \<Rightarrow> rewrite_header_line b64 line r | None \<Rightarrow> line"
  let ?split = "split_str CRLF (utf8_lossy (take (forward_header_end raw) raw))"
  have "?split \<noteq> []" by (subst split_str.simps) (simp split: option.splits)
  then obtain first ls where f: "?split = first # ls" by (cases ?split) auto
  obtain out hc hv where fh: "forward_headers ?rewr ls = (out, hc, hv)" by (metis prod_cases3)
  note ok = forward_headers_ok [OF rewrite_kept fh]
  have tl: "tl (forward_head_lines b64 raw path resolver) = out @ (if hc then [] else [''Connection: close''])
      @ (if hv then [] else [''Via: 1.1 openshell-sandbox''])"
    by (simp add: forward_head_lines_def Let_def f fh)
  have lits: "connection_header ''Connection: close''" "\<not> proxy_hop_header ''Connection: close''"
    "\<not> connection_header ''Via: 1.1 openshell-sandbox''" "\<not> proxy_hop_header ''Via: 1.1 openshell-sandbox''" by code_simp+
  have out: "output = concat (map (\<lambda>l. l @ CRLF) (forward_head_lines b64 raw path resolver)) @ CRLF @ drop (forward_header_end raw) raw"
    and clean: "resolver \<noteq> None \<longrightarrow> \<not> contains PLACEHOLDER_PREFIX (utf8_lossy output)"
    using assms by (auto simp: rewrite_forward_request_def Let_def split: if_splits)
  have "resolver \<noteq> None \<longrightarrow> \<not> contains PLACEHOLDER_PREFIX output"
    using clean contains_utf8_lossy [of PLACEHOLDER_PREFIX] by (simp add: ascii_def PLACEHOLDER_PREFIX_def)
  then show ?thesis unfolding Let_def tl using out ok lits by auto
qed

theorem forward_request_hygiene_witness:
  "let raw = ''GET http://h/x HTTP/1.1'' @ CRLF @ ''Proxy-Authorization: Basic eA'' @ CRLF @ CRLF;
       b64 = \<lparr>b64_decode = Some, b64_encode = id\<rparr>
   in list_ex connection_header (tl (forward_head_lines b64 raw ''/x'' None))"
proof -
  let ?raw = "''GET http://h/x HTTP/1.1'' @ CRLF @ ''Proxy-Authorization: Basic eA'' @ CRLF @ CRLF"
  obtain out where "rewrite_forward_request \<lparr>b64_decode = Some, b64_encode = id\<rparr> ?raw ''/x'' None = Inr out"
    by (simp add: rewrite_forward_request_def Let_def)
  from forward_request_hygiene [OF this] show ?thesis by (simp only: Let_def)
qed

end
