(* ===== verification/Inference_Proxy.thy ===== *)
theory Inference_Proxy
  imports Proxy_Http
begin

text \<open>
  Interception of \<open>inference.local\<close> (\<open>proxy.rs\<close>, \<open>handle_inference_interception\<close> and
  \<open>route_inference_request\<close>): requests of the decrypted tunnel are parsed from a growing buffer, matched with the
  inference patterns and handed to the router. The router, the routes and the TLS handshake are parameters; the
  calls of the router are recorded.
\<close>

section \<open>Routing one request\<close>

definition MAX_STREAMING_BODY :: nat where "MAX_STREAMING_BODY = 32 * 1024 * 1024"
definition MAX_INFERENCE_BUF :: nat where "MAX_INFERENCE_BUF = 10 * 1024 * 1024"
definition INITIAL_INFERENCE_BUF :: nat where "INITIAL_INFERENCE_BUF = 65536"

datatype stream_item = StreamChunk string | StreamError string | StreamIdle

record streaming_response =
  sr_status :: nat
  sr_headers :: "(string \<times> string) list"
  sr_stream :: "stream_item list"

record router_call =
  rc_protocol :: string
  rc_method :: string
  rc_path :: string
  rc_headers :: "(string \<times> string) list"
  rc_body :: string

record 'r inference_ctx =
  ic_patterns :: "inference_api_pattern list"
  ic_router :: "router_call \<Rightarrow> 'r list \<Rightarrow> (router_error, streaming_response) result"
  ic_routes :: "'r list"
  ic_json :: "(string \<times> string) list \<Rightarrow> string"

text \<open>The chunks relayed to the client: the stream ends at its end, at an error, at the idle timeout, or when the
  byte limit is exceeded; in every case the terminator follows.\<close>

fun stream_body :: "nat \<Rightarrow> stream_item list \<Rightarrow> string" where
  "stream_body n [] = []"
| "stream_body n (StreamChunk chunk # items) =
     (let total_bytes = n + length chunk in
      if total_bytes > MAX_STREAMING_BODY then [] else format_chunk chunk @ stream_body total_bytes items)"
| "stream_body n (StreamError _ # items) = []"
| "stream_body n (StreamIdle # items) = []"

definition json_response :: "'r inference_ctx \<Rightarrow> nat \<Rightarrow> (string \<times> string) list \<Rightarrow> string" where
  "json_response ctx st body = format_http_response st [(''content-type'', ''application/json'')] (ic_json ctx body)"

text \<open>Whether the request was routed, what is written to the client, and the call of the router.\<close>

definition route_inference_request ::
  "'r inference_ctx \<Rightarrow> parsed_http_request \<Rightarrow> bool \<times> string \<times> router_call list" where
  "route_inference_request ctx request =
     (let normalized_path = normalize_inference_path (rq_path request) in
      case detect_inference_pattern (rq_method request) normalized_path (ic_patterns ctx) of
        None \<Rightarrow> (False, json_response ctx 403 [(''error'', ''connection not allowed by policy'')], [])
      | Some pattern \<Rightarrow>
          if ic_routes ctx = [] then
            (True, json_response ctx 503 [(''error'', ''cluster inference is not configured''),
               (''hint'', ''run: openshell cluster inference set --help'')], [])
          else
            let call = \<lparr>rc_protocol = ip_protocol pattern, rc_method = rq_method request, rc_path = normalized_path,
                  rc_headers = sanitize_inference_request_headers (rq_headers request), rc_body = rq_body request\<rparr>
            in (case ic_router ctx call (ic_routes ctx) of
                Inr resp \<Rightarrow> (True, format_http_response_header (sr_status resp)
                    (sanitize_inference_response_headers (sr_headers resp))
                    @ stream_body 0 (sr_stream resp) @ format_chunk_terminator, [call])
              | Inl e \<Rightarrow> (case router_error_to_http e of (st, msg) \<Rightarrow>
                  (True, json_response ctx st [(''error'', msg)], [call]))))"

section \<open>The interception loop\<close>

datatype inference_outcome = Routed | Denied string

text \<open>
  The result of the loop: the outcome, or \<open>None\<close> when the parser panics; the bytes written to the client and the
  calls of the router. \<open>buf_len\<close> is the size of the buffer and \<open>data\<close> its used part.
\<close>

function inference_loop ::
  "'r inference_ctx \<Rightarrow> nat \<Rightarrow> string \<Rightarrow> bool \<Rightarrow> segments \<Rightarrow> inference_outcome option \<times> string \<times> router_call list" where
  "inference_loop ctx buf_len data routed_any segs =
     (case read_some (buf_len - length data) segs of (b, segs') \<Rightarrow>
      if b = [] then (Some (if routed_any then Routed else Denied ''client closed connection''), [], [])
      else let data' = data @ b in
        (case try_parse_http_request data' of
           None \<Rightarrow> (None, [], [])
         | Some (Complete request consumed) \<Rightarrow>
             (case route_inference_request ctx request of (was_routed, response, calls) \<Rightarrow>
                if \<not> was_routed \<and> \<not> routed_any then
                  (Some (Denied ''connection not allowed by policy''), response, calls)
                else (case inference_loop ctx buf_len (drop consumed data') True segs' of
                    (outcome, response', calls') \<Rightarrow> (outcome, response @ response', calls @ calls')))
         | Some Incomplete \<Rightarrow>
             if length data' = buf_len then
               if buf_len \<ge> MAX_INFERENCE_BUF then
                 (Some (if routed_any then Routed else Denied ''payload too large''),
                  format_http_response 413 [] ''Payload Too Large'', [])
               else inference_loop ctx (min (buf_len * 2) MAX_INFERENCE_BUF) data' routed_any segs'
             else inference_loop ctx buf_len data' routed_any segs'
         | Some (Invalid reason) \<Rightarrow>
             (Some (Denied reason), format_http_response 400 [] ''Bad Request'', [])))"
  by pat_completeness auto
termination
  by (relation "measure (\<lambda>(ctx, buf_len, data, routed_any, segs). length (concat segs))")
    (auto dest: sym [THEN read_some_shorter])

declare inference_loop.simps [simp del]

definition handle_inference_interception ::
  "(segments \<Rightarrow> (string, segments) result) option \<Rightarrow> 'r inference_ctx option \<Rightarrow> segments \<Rightarrow>
     inference_outcome option \<times> string \<times> router_call list" where
  "handle_inference_interception tls_state inference_ctx client = (case inference_ctx of
     None \<Rightarrow> (Some (Denied ''cluster inference context not configured''), [], [])
   | Some ctx \<Rightarrow> (case tls_state of
       None \<Rightarrow> (Some (Denied ''missing TLS state''), [], [])
     | Some handshake \<Rightarrow> (case handshake client of
         Inl e \<Rightarrow> (Some (Denied (''TLS handshake failed: '' @ e)), [], [])
       | Inr plain \<Rightarrow> inference_loop ctx INITIAL_INFERENCE_BUF [] False plain)))"

section \<open>What reaches the router\<close>

definition call_ok :: "inference_api_pattern list \<Rightarrow> router_call \<Rightarrow> bool" where
  "call_ok patterns call \<longleftrightarrow>
     map_option ip_protocol (detect_inference_pattern (rc_method call) (rc_path call) patterns) = Some (rc_protocol call)
     \<and> list_all (\<lambda>(name, _). to_ascii_lowercase name \<notin> {''authorization'', ''x-api-key'', ''host'', ''content-length'',
         ''connection'', ''keep-alive'', ''proxy-authenticate'', ''proxy-authorization'', ''proxy-connection'', ''te'',
         ''trailer'', ''transfer-encoding'', ''upgrade''}) (rc_headers call)"

lemma sanitized_ok:
  "list_all (\<lambda>(name, _). to_ascii_lowercase name \<notin> {''authorization'', ''x-api-key'', ''host'', ''content-length'',
         ''connection'', ''keep-alive'', ''proxy-authenticate'', ''proxy-authorization'', ''proxy-connection'', ''te'',
         ''trailer'', ''transfer-encoding'', ''upgrade''}) (sanitize_inference_request_headers hs)"
  unfolding list_all_iff sanitize_inference_request_headers_def should_strip_request_header_def is_hop_by_hop_header_def Let_def
  by auto

lemma route_calls_ok:
  assumes "route_inference_request ctx request = (routed, response, calls)"
  shows "list_all (call_ok (ic_patterns ctx)) calls"
proof (cases "detect_inference_pattern (rq_method request) (normalize_inference_path (rq_path request)) (ic_patterns ctx)")
  case None
  then show ?thesis using assms by (auto simp: route_inference_request_def Let_def)
next
  case (Some pattern)
  then show ?thesis
    using assms sanitized_ok [of "rq_headers request"]
    by (auto simp: route_inference_request_def Let_def call_ok_def simp del: insert_iff split: if_splits sum.splits prod.splits)
qed

lemma inference_loop_calls_ok:
  "inference_loop ctx buf_len data routed segs = (outcome, response, calls) \<Longrightarrow> list_all (call_ok (ic_patterns ctx)) calls"
proof (induction ctx buf_len data routed segs arbitrary: outcome response calls rule: inference_loop.induct)
  case (1 ctx buf_len data routed segs)
  obtain b segs' where b: "read_some (buf_len - length data) segs = (b, segs')" by fastforce
  show ?case
  proof (cases "b = []")
    case True
    then show ?thesis using "1.prems" b by (auto simp: inference_loop.simps [of ctx buf_len])
  next
    case False
    show ?thesis
    proof (cases "try_parse_http_request (data @ b)")
      case None
      then show ?thesis using "1.prems" b False by (auto simp: inference_loop.simps [of ctx buf_len])
    next
      case (Some pr)
      note ih = "1.IH" [OF b [symmetric] False refl Some]
      show ?thesis
      proof (cases pr)
        case (Complete request consumed)
        obtain wr resp cs where r: "route_inference_request ctx request = (wr, resp, cs)" by (metis prod_cases3)
        obtain oc resp' cs' where l: "inference_loop ctx buf_len (drop consumed (data @ b)) True segs' = (oc, resp', cs')"
          by (metis prod_cases3)
        show ?thesis
          using "1.prems" b False Some Complete r l ih(1) [OF Complete r [symmetric] refl] route_calls_ok [OF r]
          by (subst (asm) inference_loop.simps) (auto split: if_splits)
      next
        case Incomplete
        then show ?thesis using "1.prems" b False Some ih(2,3) [OF Incomplete]
          by (subst (asm) inference_loop.simps) (auto simp: Let_def split: if_splits)
      next
        case (Invalid reason)
        then show ?thesis using "1.prems" b False Some by (subst (asm) inference_loop.simps) auto
      qed
    qed
  qed
qed

text \<open>On every intercepted connection each call of the router is for a request that matches a configured
  inference pattern, under the protocol of that pattern, and carries none of the client's credentials, framing or
  hop-by-hop headers, whatever their letter case.\<close>

theorem inference_calls_sanitized:
  assumes "handle_inference_interception tls_state (Some ctx) client = (outcome, response, calls)"
  shows "list_all (call_ok (ic_patterns ctx)) calls"
  using assms inference_loop_calls_ok [of ctx]
  by (auto simp: handle_inference_interception_def split: option.splits sum.splits)

definition example_ctx :: "nat inference_ctx" where
  "example_ctx = \<lparr>ic_patterns = default_patterns,
     ic_router = (\<lambda>call routes. Inr \<lparr>sr_status = 200, sr_headers = [], sr_stream = []\<rparr>),
     ic_routes = [1], ic_json = concat \<circ> map snd\<rparr>"

theorem inference_calls_sanitized_witness:
  "list_all (call_ok default_patterns)
     (snd (snd (handle_inference_interception (Some Inr) (Some example_ctx) [''GET /v1/models HTTP/1.1'' @ CRLF @ CRLF])))"
  using inference_calls_sanitized [of "Some Inr" example_ctx "[''GET /v1/models HTTP/1.1'' @ CRLF @ CRLF]"]
  by (simp add: example_ctx_def prod_eq_iff)

section \<open>Pipelined requests\<close>

text \<open>A request that the client sent together with the preceding one is parsed only after more bytes arrive:
  when the client closes its side after one block, exactly the first request of the block is answered, whatever
  follows it in the buffer.\<close>

theorem inference_pipelined_dropped:
  assumes "block \<noteq> []" "length block \<le> INITIAL_INFERENCE_BUF"
    "try_parse_http_request block = Some (Complete request consumed)"
  shows "inference_loop ctx INITIAL_INFERENCE_BUF [] False [block] =
    (case route_inference_request ctx request of (was_routed, response, calls) \<Rightarrow>
       (Some (if was_routed then Routed else Denied ''connection not allowed by policy''), response, calls))"
proof -
  have "read_some INITIAL_INFERENCE_BUF [block] = (block, [])" using assms(1,2) by simp
  moreover have "inference_loop ctx n d True [] = (Some Routed, [], [])" for n d
    by (simp add: inference_loop.simps)
  ultimately show ?thesis
    using assms(1,3) by (subst inference_loop.simps) (simp add: Let_def split: prod.splits)
qed

lemma models_block_parses:
  "try_parse_http_request (''GET /v1/models HTTP/1.1'' @ CRLF @ CRLF @ rest) =
     Some (Complete \<lparr>rq_method = ''GET'', rq_path = ''/v1/models'', rq_headers = [], rq_body = []\<rparr> 27)"
proof -
  have f: "find_sub CRLFCRLF (''GET /v1/models HTTP/1.1'' @ CRLF @ CRLF @ rest) = Some 23"
    by (simp add: starts_with_prefix)
  have u: "is_utf8 ''GET /v1/models HTTP/1.1''" "split_str CRLF ''GET /v1/models HTTP/1.1'' = [''GET /v1/models HTTP/1.1'']"
    "split_whitespace ''GET /v1/models HTTP/1.1'' = [''GET'', ''/v1/models'', ''HTTP/1.1'']" by code_simp+
  show ?thesis
    unfolding try_parse_http_request_def f option.case
    by (simp add: u parse_body_def header_state_init_def subslice_def)
qed

theorem inference_pipelined_dropped_witness:
  "let request = ''GET /v1/models HTTP/1.1'' @ CRLF @ CRLF
   in length (snd (snd (inference_loop example_ctx INITIAL_INFERENCE_BUF [] False [request @ request]))) = 1"
proof -
  let ?r = "''GET /v1/models HTTP/1.1'' @ CRLF @ CRLF"
  have p: "try_parse_http_request (?r @ ?r) = Some (Complete \<lparr>rq_method = ''GET'', rq_path = ''/v1/models'', rq_headers = [], rq_body = []\<rparr> 27)"
    using models_block_parses [of ?r] by simp
  have d: "map_option ip_kind (detect_inference_pattern ''GET'' (normalize_inference_path ''/v1/models'') default_patterns) = Some ''models_list''"
    by code_simp
  then obtain pattern where "detect_inference_pattern ''GET'' (normalize_inference_path ''/v1/models'') default_patterns = Some pattern" by auto
  then have "length (snd (snd (route_inference_request example_ctx \<lparr>rq_method = ''GET'', rq_path = ''/v1/models'', rq_headers = [], rq_body = []\<rparr>))) = 1"
    by (simp add: route_inference_request_def example_ctx_def)
  moreover have "inference_loop example_ctx INITIAL_INFERENCE_BUF [] False [?r @ ?r] =
    (case route_inference_request example_ctx \<lparr>rq_method = ''GET'', rq_path = ''/v1/models'', rq_headers = [], rq_body = []\<rparr> of
      (was_routed, response, calls) \<Rightarrow>
       (Some (if was_routed then Routed else Denied ''connection not allowed by policy''), response, calls))"
    by (rule inference_pipelined_dropped [OF _ _ p]) (simp_all add: INITIAL_INFERENCE_BUF_def)
  ultimately show ?thesis unfolding Let_def by (simp only: case_prod_beta snd_conv)
qed

end
