(* ===== verification/Identity.thy ===== *)
theory Identity
  imports Rust_Text
begin

text \<open>
  The trust-on-first-use cache of binary hashes (\<open>crates/openshell-sandbox/src/identity.rs\<close>). The file system
  is a parameter: what \<open>stat\<close> and the hash function return. A verification is two critical sections with the
  hashing between them, so concurrent verifications and changes of the file system interleave there; the step
  relation has them as separate steps.
\<close>

section \<open>The cache\<close>

record file_fingerprint =
  fp_len :: nat
  fp_mtime_sec :: int
  fp_mtime_nsec :: int
  fp_ctime_sec :: int
  fp_ctime_nsec :: int
  fp_dev :: nat
  fp_ino :: nat

record cached_binary =
  cb_hash :: string
  cb_fingerprint :: file_fingerprint

type_synonym identity_cache = "string \<rightharpoonup> cached_binary"

record file_system =
  fs_stat :: "string \<Rightarrow> (string, file_fingerprint) result"
  fs_sha256 :: "string \<Rightarrow> (string, string) result"

definition new_cache :: identity_cache where
  "new_cache = Map.empty"

text \<open>First critical section: a cached hash is returned when the fingerprint is unchanged.\<close>

definition cache_hit :: "identity_cache \<Rightarrow> string \<Rightarrow> file_fingerprint \<Rightarrow> string option" where
  "cache_hit cache path fingerprint = (case cache path of
     None \<Rightarrow> None
   | Some cached \<Rightarrow> if cb_fingerprint cached = fingerprint then Some (cb_hash cached) else None)"

text \<open>Second critical section: compare the computed hash with the cached one, or store it.\<close>

definition commit_hash ::
  "string \<Rightarrow> file_fingerprint \<Rightarrow> string \<Rightarrow> identity_cache \<Rightarrow> (string, string) result \<times> identity_cache" where
  "commit_hash path fingerprint current cache =
     (let inserted = (Inr current, cache(path \<mapsto> \<lparr>cb_hash = current, cb_fingerprint = fingerprint\<rparr>))
      in case cache path of
        None \<Rightarrow> inserted
      | Some existing \<Rightarrow>
          if cb_hash existing \<noteq> current
          then (Inl (''Binary integrity violation: '' @ path @ '' hash changed (cached: ''
                 @ cb_hash existing @ '', current: '' @ current @ '')''), cache)
          else inserted)"

definition verify_or_cache :: "file_system \<Rightarrow> string \<Rightarrow> identity_cache \<Rightarrow> (string, string) result \<times> identity_cache" where
  "verify_or_cache fs path cache = (case fs_stat fs path of
     Inl e \<Rightarrow> (Inl (''Failed to stat '' @ path @ '': '' @ e), cache)
   | Inr fingerprint \<Rightarrow> (case cache_hit cache path fingerprint of
       Some h \<Rightarrow> (Inr h, cache)
     | None \<Rightarrow> (case fs_sha256 fs path of
         Inl e \<Rightarrow> (Inl e, cache)
       | Inr current \<Rightarrow> commit_hash path fingerprint current cache)))"

section \<open>Interleaved verifications\<close>

text \<open>
  The system: the file system, the cache, the verifications that have looked up and not yet committed, with the
  hash they computed, and the successful verifications reported so far.
\<close>

record tofu =
  tf_fs :: file_system
  tf_cache :: identity_cache
  tf_pending :: "(string \<times> file_fingerprint) list"
  tf_hashed :: "(string \<times> file_fingerprint \<times> string) list"
  tf_verified :: "(string \<times> string) list"

inductive tofu_step :: "tofu \<Rightarrow> tofu \<Rightarrow> bool" where
  change: "tofu_step s (s\<lparr>tf_fs := fs'\<rparr>)"
| hit: "fs_stat (tf_fs s) p = Inr fp \<Longrightarrow> cache_hit (tf_cache s) p fp = Some h \<Longrightarrow>
    tofu_step s (s\<lparr>tf_verified := (p, h) # tf_verified s\<rparr>)"
| miss: "fs_stat (tf_fs s) p = Inr fp \<Longrightarrow> cache_hit (tf_cache s) p fp = None \<Longrightarrow>
    tofu_step s (s\<lparr>tf_pending := (p, fp) # tf_pending s\<rparr>)"
| hashed: "(p, fp) \<in> set (tf_pending s) \<Longrightarrow> fs_sha256 (tf_fs s) p = Inr h \<Longrightarrow>
    tofu_step s (s\<lparr>tf_pending := remove1 (p, fp) (tf_pending s), tf_hashed := (p, fp, h) # tf_hashed s\<rparr>)"
| commit: "(p, fp, h) \<in> set (tf_hashed s) \<Longrightarrow> commit_hash p fp h (tf_cache s) = (Inr h', cache') \<Longrightarrow>
    tofu_step s (s\<lparr>tf_hashed := remove1 (p, fp, h) (tf_hashed s), tf_cache := cache',
      tf_verified := (p, h') # tf_verified s\<rparr>)"
| reject: "(p, fp, h) \<in> set (tf_hashed s) \<Longrightarrow> commit_hash p fp h (tf_cache s) = (Inl e, cache') \<Longrightarrow>
    tofu_step s (s\<lparr>tf_hashed := remove1 (p, fp, h) (tf_hashed s), tf_cache := cache'\<rparr>)"

definition tofu_init :: "file_system \<Rightarrow> tofu" where
  "tofu_init fs = \<lparr>tf_fs = fs, tf_cache = new_cache, tf_pending = [], tf_hashed = [], tf_verified = []\<rparr>"

text \<open>The abstract cache: the golden hash of each path. It is a write-once store.\<close>

definition golden :: "identity_cache \<Rightarrow> string \<rightharpoonup> string" where
  "golden cache path = map_option cb_hash (cache path)"

lemma cache_hit_golden: "cache_hit cache p fp = Some h \<Longrightarrow> golden cache p = Some h"
  by (auto simp: cache_hit_def golden_def split: option.splits if_splits)

lemma commit_hash_ok:
  assumes "commit_hash p fp h cache = (Inr h', cache')"
  shows "h' = h \<and> golden cache' = (golden cache)(p \<mapsto> h) \<and> (golden cache p = None \<or> golden cache p = Some h)"
  using assms by (fastforce simp: commit_hash_def golden_def [abs_def] Let_def split: option.splits if_splits)

lemma commit_hash_err:
  "commit_hash p fp h cache = (Inl e, cache') \<Longrightarrow> cache' = cache \<and> (\<exists>g. golden cache p = Some g \<and> g \<noteq> h)"
  by (auto simp: commit_hash_def golden_def Let_def split: option.splits if_splits)

lemma tofu_step_golden: "tofu_step s t \<Longrightarrow> golden (tf_cache s) p = Some h \<Longrightarrow> golden (tf_cache t) p = Some h"
  by (induction rule: tofu_step.induct) (fastforce dest: commit_hash_ok commit_hash_err)+

interpretation golden_log: append_only_log tofu_step "\<lambda>s. golden (tf_cache s)"
  by unfold_locales (rule tofu_step_golden)

definition verified_golden :: "tofu \<Rightarrow> bool" where
  "verified_golden s \<longleftrightarrow> list_all (\<lambda>(p, h). golden (tf_cache s) p = Some h) (tf_verified s)"

lemma tofu_step_verified:
  assumes "tofu_step s t" "verified_golden s"
  shows "verified_golden t"
  using assms(1)
proof cases
  case (hit p fp h)
  then show ?thesis using assms(2) cache_hit_golden by (auto simp: verified_golden_def)
next
  case (commit p fp h h' cache')
  have "golden cache' q = Some g" if "(q, g) \<in> set (tf_verified s)" for q g
    using tofu_step_golden [OF assms(1)] that assms(2) commit(1)
    by (auto simp: verified_golden_def list_all_iff)
  then show ?thesis using commit commit_hash_ok [OF commit(3)] by (auto simp: verified_golden_def list_all_iff)
qed (use assms(2) in \<open>auto simp: verified_golden_def dest: commit_hash_err\<close>)

lemma tofu_run_verified: "tofu_step\<^sup>*\<^sup>* (tofu_init fs) s \<Longrightarrow> verified_golden s"
  by (induction rule: rtranclp_induct)
    (auto simp: verified_golden_def tofu_init_def intro: tofu_step_verified [unfolded verified_golden_def])

text \<open>C20: however verifications interleave with one another and with changes of the file system, all successful
  verifications of one path report the same hash, the one the cache holds for it from its first use on.\<close>

theorem tofu_single_identity:
  assumes "tofu_step\<^sup>*\<^sup>* (tofu_init fs) s" "tofu_step\<^sup>*\<^sup>* s t"
    "(p, h) \<in> set (tf_verified s)" "(p, h') \<in> set (tf_verified t)"
  shows "h' = h \<and> golden (tf_cache t) p = Some h"
proof -
  have "golden (tf_cache s) p = Some h" using tofu_run_verified [OF assms(1)] assms(3)
    by (auto simp: verified_golden_def list_all_iff)
  then have "golden (tf_cache t) p = Some h" by (rule golden_log.run_keeps [OF assms(2)])
  moreover have "golden (tf_cache t) p = Some h'"
    using tofu_run_verified [OF rtranclp_trans [OF assms(1,2)]] assms(4) by (auto simp: verified_golden_def list_all_iff)
  ultimately show ?thesis by simp
qed

definition example_fs :: file_system where
  "example_fs = \<lparr>fs_stat = (\<lambda>_. Inr \<lparr>fp_len = 1, fp_mtime_sec = 0, fp_mtime_nsec = 0, fp_ctime_sec = 0, fp_ctime_nsec = 0,
     fp_dev = 0, fp_ino = 7\<rparr>), fs_sha256 = (\<lambda>_. Inr ''abc'')\<rparr>"

lemma verify_steps:
  assumes "verify_or_cache (tf_fs s) p (tf_cache s) = (Inr h, cache')"
  shows "\<exists>pend hashed. tofu_step\<^sup>*\<^sup>* s (s\<lparr>tf_pending := pend, tf_hashed := hashed, tf_cache := cache',
    tf_verified := (p, h) # tf_verified s\<rparr>)"
proof -
  obtain fp where fp: "fs_stat (tf_fs s) p = Inr fp" using assms by (auto simp: verify_or_cache_def split: sum.splits)
  show ?thesis
  proof (cases "cache_hit (tf_cache s) p fp")
    case (Some g)
    then have "g = h" "cache' = tf_cache s" using assms fp by (auto simp: verify_or_cache_def)
    then have "tofu_step s (s\<lparr>tf_pending := tf_pending s, tf_hashed := tf_hashed s, tf_cache := cache',
      tf_verified := (p, h) # tf_verified s\<rparr>)" using tofu_step.hit [OF fp Some] by simp
    then show ?thesis by blast
  next
    case None
    then obtain c where c: "fs_sha256 (tf_fs s) p = Inr c" "commit_hash p fp c (tf_cache s) = (Inr h, cache')"
      using assms fp by (auto simp: verify_or_cache_def split: sum.splits)
    let ?s1 = "s\<lparr>tf_pending := (p, fp) # tf_pending s\<rparr>"
    let ?s2 = "s\<lparr>tf_hashed := (p, fp, c) # tf_hashed s\<rparr>"
    have "tofu_step s ?s1" by (rule tofu_step.miss [OF fp None])
    moreover have "tofu_step ?s1 ?s2" using tofu_step.hashed [of p fp ?s1 c] c(1) by simp
    moreover have "tofu_step ?s2 (s\<lparr>tf_pending := tf_pending s, tf_hashed := tf_hashed s, tf_cache := cache',
      tf_verified := (p, h) # tf_verified s\<rparr>)"
      using tofu_step.commit [of p fp c ?s2 h cache'] c(2) by simp
    ultimately show ?thesis by (meson converse_rtranclp_into_rtranclp r_into_rtranclp)
  qed
qed

theorem tofu_single_identity_witness:
  "\<exists>s. tofu_step\<^sup>*\<^sup>* (tofu_init example_fs) s \<and> tf_verified s = [(''/bin/x'', ''abc'')] \<and> golden (tf_cache s) ''/bin/x'' = Some ''abc''"
proof -
  let ?s = "tofu_init example_fs"
  obtain cache' where v: "verify_or_cache (tf_fs ?s) ''/bin/x'' (tf_cache ?s) = (Inr ''abc'', cache')"
    by (simp add: verify_or_cache_def commit_hash_def example_fs_def tofu_init_def new_cache_def cache_hit_def)
  obtain s where s: "tofu_step\<^sup>*\<^sup>* ?s s" "tf_verified s = [(''/bin/x'', ''abc'')]"
    using verify_steps [OF v] by (auto simp: tofu_init_def)
  then show ?thesis using tofu_single_identity [OF s(1) rtranclp.rtrancl_refl, of "''/bin/x''" "''abc''" "''abc''"] by auto
qed

section \<open>Refinement of a write-once store\<close>

text \<open>
  What the fingerprint shortcut relies on: a file whose fingerprint is the cached one has the cached hash.
\<close>

definition fingerprint_faithful :: "file_system \<Rightarrow> identity_cache \<Rightarrow> bool" where
  "fingerprint_faithful fs cache \<longleftrightarrow> (\<forall>p b. cache p = Some b \<longrightarrow> fs_stat fs p = Inr (cb_fingerprint b) \<longrightarrow>
     fs_sha256 fs p = Inr (cb_hash b))"

definition verify_spec :: "(string \<rightharpoonup> string) \<Rightarrow> string \<Rightarrow> string \<Rightarrow> bool \<times> (string \<rightharpoonup> string)" where
  "verify_spec g p current = (case g p of None \<Rightarrow> (True, g(p \<mapsto> current)) | Some h \<Rightarrow> (h = current, g))"

text \<open>One verification implements the abstract write-once store of golden hashes, provided that a file whose
  fingerprint is the cached one still has the cached hash: an unknown path records the current hash, a known path
  succeeds exactly when its current hash is the golden one, and a failure leaves the store as it was.\<close>

theorem verify_or_cache_refines:
  assumes "fingerprint_faithful fs cache" "fs_stat fs p = Inr fp" "fs_sha256 fs p = Inr current"
  shows "(fst (verify_or_cache fs p cache) = Inr current, golden (snd (verify_or_cache fs p cache)))
      = verify_spec (golden cache) p current"
  using assms
  by (auto simp: verify_or_cache_def cache_hit_def commit_hash_def verify_spec_def golden_def fingerprint_faithful_def
      fun_eq_iff Let_def split: option.splits)

theorem verify_or_cache_refines_witness:
  "golden (snd (verify_or_cache example_fs ''/bin/x'' new_cache)) ''/bin/x'' = Some ''abc''"
proof -
  have "fingerprint_faithful example_fs new_cache" by (simp add: fingerprint_faithful_def new_cache_def)
  then show ?thesis
    using verify_or_cache_refines [of example_fs new_cache "''/bin/x''" _ "''abc''"]
    by (simp add: example_fs_def verify_spec_def golden_def new_cache_def fun_eq_iff)
qed

end
