(* ===== verification/Denials.thy ===== *)
theory Denials
  imports Orca_Prelude "HOL-Library.Word" "HOL-Library.Multiset"
begin

text \<open>
  The denial aggregator of the sandbox (\<open>crates/openshell-sandbox/src/denial_aggregator.rs\<close>): events of the
  proxy are merged into one summary per host, port and binary, and the summaries are flushed at every tick and
  when the channel closes. Counters are 32-bit words. The iteration order of the hash map is a parameter of
  draining.
\<close>

section \<open>Events and summaries\<close>

record denial_event =
  de_host :: string
  de_port :: nat
  de_binary :: string
  de_ancestors :: "string list"
  de_deny_reason :: string
  de_denial_stage :: string
  de_l7_method :: "string option"
  de_l7_path :: "string option"

record l7_sample =
  ls_method :: string
  ls_path :: string
  ls_count :: "32 word"

record aggregated_denial =
  ad_host :: string
  ad_port :: nat
  ad_binary :: string
  ad_ancestors :: "string list"
  ad_deny_reason :: string
  ad_denial_stage :: string
  ad_first_seen_ms :: int
  ad_last_seen_ms :: int
  ad_count :: "32 word"
  ad_sample_cmdlines :: "string list"
  ad_l7_samples :: "l7_sample list"

type_synonym denial_key = "string \<times> nat \<times> string"
type_synonym summaries = "(denial_key \<times> aggregated_denial) list"

definition event_key :: "denial_event \<Rightarrow> denial_key" where
  "event_key e = (de_host e, de_port e, de_binary e)"

section \<open>Operations\<close>

fun bump_sample :: "string \<Rightarrow> string \<Rightarrow> l7_sample list \<Rightarrow> l7_sample list option" where
  "bump_sample m p [] = None"
| "bump_sample m p (s # ss) =
     (if ls_method s = m \<and> ls_path s = p then Some (s\<lparr>ls_count := ls_count s + 1\<rparr> # ss)
      else map_option ((#) s) (bump_sample m p ss))"

definition merge_sample :: "string \<Rightarrow> string \<Rightarrow> l7_sample list \<Rightarrow> l7_sample list" where
  "merge_sample m p samples = (case bump_sample m p samples of
     Some samples' \<Rightarrow> samples'
   | None \<Rightarrow> if length samples < 20 then samples @ [\<lparr>ls_method = m, ls_path = p, ls_count = 1\<rparr>] else samples)"

definition fresh_denial :: "int \<Rightarrow> denial_event \<Rightarrow> aggregated_denial" where
  "fresh_denial now e = \<lparr>ad_host = de_host e, ad_port = de_port e, ad_binary = de_binary e,
     ad_ancestors = de_ancestors e, ad_deny_reason = de_deny_reason e, ad_denial_stage = de_denial_stage e,
     ad_first_seen_ms = now, ad_last_seen_ms = now, ad_count = 0, ad_sample_cmdlines = [], ad_l7_samples = []\<rparr>"

definition update_denial :: "int \<Rightarrow> denial_event \<Rightarrow> aggregated_denial \<Rightarrow> aggregated_denial" where
  "update_denial now e d = (let d1 = d\<lparr>ad_count := ad_count d + 1, ad_last_seen_ms := now\<rparr> in
     case (de_l7_method e, de_l7_path e) of
       (Some m, Some p) \<Rightarrow> d1\<lparr>ad_l7_samples := merge_sample m p (ad_l7_samples d1)\<rparr>
     | _ \<Rightarrow> d1)"

definition ingest :: "int \<Rightarrow> denial_event \<Rightarrow> summaries \<Rightarrow> summaries" where
  "ingest now e s = (let key = event_key e;
     d = (case map_of s key of None \<Rightarrow> fresh_denial now e | Some d \<Rightarrow> d)
     in al_insert key (update_denial now e d) s)"

text \<open>The flushed form has the same fields, so a batch is a list of summaries in the order of the map.\<close>

definition drain :: "(aggregated_denial list \<Rightarrow> aggregated_denial list) \<Rightarrow> summaries \<Rightarrow> aggregated_denial list \<times> summaries" where
  "drain order s = (order (map snd s), [])"

text \<open>One input of the loop: an event received at a time, or the flush tick. The end of the inputs is the
  closing of the channel.\<close>

datatype agg_input = Recv int denial_event | FlushTick

fun agg_run :: "(aggregated_denial list \<Rightarrow> aggregated_denial list) \<Rightarrow> agg_input list \<Rightarrow> summaries \<Rightarrow> aggregated_denial list list" where
  "agg_run order [] s = (if s \<noteq> [] then [fst (drain order s)] else [])"
| "agg_run order (Recv now e # is) s = agg_run order is (ingest now e s)"
| "agg_run order (FlushTick # is) s =
     (if s \<noteq> [] then case drain order s of (batch, s') \<Rightarrow> batch # agg_run order is s' else agg_run order is s)"

section \<open>The incremental summary is the summary of the events\<close>

definition firsts :: "'a list \<Rightarrow> 'a list" where
  "firsts xs = rev (remdups (rev xs))"

lemma firsts_snoc: "firsts (xs @ [x]) = (if x \<in> set xs then firsts xs else firsts xs @ [x])"
  by (simp add: firsts_def)

lemma set_firsts [simp]: "set (firsts xs) = set xs"
  by (simp add: firsts_def)

lemma distinct_firsts [simp]: "distinct (firsts xs)"
  by (simp add: firsts_def)

text \<open>The reference: the requests of the events of a key, and the summary computed from all of them at once.\<close>

definition l7_pairs :: "(int \<times> denial_event) list \<Rightarrow> (string \<times> string) list" where
  "l7_pairs es = concat (map (\<lambda>(_, e). case (de_l7_method e, de_l7_path e) of
     (Some m, Some p) \<Rightarrow> [(m, p)] | _ \<Rightarrow> []) es)"

definition samples_of :: "(string \<times> string) list \<Rightarrow> l7_sample list" where
  "samples_of ps = map (\<lambda>(m, p). \<lparr>ls_method = m, ls_path = p, ls_count = of_nat (count_list ps (m, p))\<rparr>) (take 20 (firsts ps))"

definition summary_of :: "(int \<times> denial_event) list \<Rightarrow> aggregated_denial" where
  "summary_of es = (fresh_denial (fst (hd es)) (snd (hd es)))\<lparr>ad_last_seen_ms := fst (last es),
     ad_count := of_nat (length es), ad_l7_samples := samples_of (l7_pairs es)\<rparr>"

definition of_key :: "denial_key \<Rightarrow> (int \<times> denial_event) list \<Rightarrow> (int \<times> denial_event) list" where
  "of_key k es = filter (\<lambda>(_, e). event_key e = k) es"

lemma bump_sample_map:
  assumes "distinct qs"
  shows "bump_sample m p (map (\<lambda>(a, b). \<lparr>ls_method = a, ls_path = b, ls_count = f (a, b)\<rparr>) qs) =
    (if (m, p) \<in> set qs then Some (map (\<lambda>(a, b). \<lparr>ls_method = a, ls_path = b,
        ls_count = (f((m, p) := f (m, p) + 1)) (a, b)\<rparr>) qs) else None)"
  using assms by (induction qs) auto

lemma merge_sample_samples_of: "merge_sample m p (samples_of ps) = samples_of (ps @ [(m, p)])"
proof -
  let ?qs = "take 20 (firsts ps)"
  let ?f = "\<lambda>x. of_nat (count_list ps x) :: 32 word"
  have bump: "bump_sample m p (samples_of ps) = (if (m, p) \<in> set ?qs then Some (map (\<lambda>(a, b). \<lparr>ls_method = a, ls_path = b,
      ls_count = (?f((m, p) := ?f (m, p) + 1)) (a, b)\<rparr>) ?qs) else None)"
    unfolding samples_of_def by (rule bump_sample_map) simp
  consider "(m, p) \<in> set ?qs" | "(m, p) \<notin> set ?qs" "(m, p) \<in> set ps" | "(m, p) \<notin> set ps" by blast
  then show ?thesis
  proof cases
    case 1
    then have "(m, p) \<in> set ps" using in_set_takeD set_firsts by metis
    then show ?thesis using 1 bump by (auto simp: merge_sample_def samples_of_def firsts_snoc)
  next
    case 2
    then have "\<not> length (firsts ps) \<le> 20" by (metis set_firsts take_all)
    then show ?thesis using 2 bump by (auto simp: merge_sample_def samples_of_def firsts_snoc)
  next
    case 3
    then have "(m, p) \<notin> set ?qs" using in_set_takeD set_firsts by metis
    moreover have "count_list ps (m, p) = 0" using 3 by (simp add: count_list_0_iff)
    moreover have "(m, p) \<noteq> q" if "q \<in> set ?qs" for q using that calculation(1) by blast
    ultimately show ?thesis using 3 bump
      by (auto simp: merge_sample_def samples_of_def firsts_snoc)
  qed
qed

lemma update_summary:
  assumes "es \<noteq> []"
  shows "update_denial now e (summary_of es) = summary_of (es @ [(now, e)])"
proof (cases "\<exists>m p. de_l7_method e = Some m \<and> de_l7_path e = Some p")
  case True
  then show ?thesis
    using assms merge_sample_samples_of by (auto simp: update_denial_def summary_of_def l7_pairs_def)
next
  case False
  then show ?thesis
    using assms by (auto simp: update_denial_def summary_of_def l7_pairs_def split: option.splits)
qed

lemma update_fresh: "update_denial now e (fresh_denial now e) = summary_of [(now, e)]"
  using merge_sample_samples_of [of _ _ "[]"]
  by (auto simp: update_denial_def summary_of_def l7_pairs_def fresh_denial_def samples_of_def firsts_def split: option.splits)

definition ingest_all :: "(int \<times> denial_event) list \<Rightarrow> summaries \<Rightarrow> summaries" where
  "ingest_all es s = fold (\<lambda>(now, e). ingest now e) es s"

definition reference :: "(int \<times> denial_event) list \<Rightarrow> denial_key \<Rightarrow> aggregated_denial option" where
  "reference es k = (if of_key k es = [] then None else Some (summary_of (of_key k es)))"

lemma ingest_reference:
  assumes "map_of s = reference es"
  shows "map_of (ingest now e s) = reference (es @ [(now, e)])"
proof
  fix k
  show "map_of (ingest now e s) k = reference (es @ [(now, e)]) k"
  proof (cases "event_key e = k")
    case False
    then show ?thesis using assms by (simp add: ingest_def Let_def reference_def of_key_def)
  next
    case True
    then have "of_key k (es @ [(now, e)]) = of_key k es @ [(now, e)]" by (simp add: of_key_def)
    then show ?thesis
      using True assms update_summary [of "of_key k es" now e] update_fresh
      by (simp add: ingest_def Let_def reference_def)
  qed
qed

text \<open>C21: merging events one by one into the table refines the summary of the whole history: for each host, port
  and binary the table holds the first event's details, the times of the first and the last event, the number of
  events, and the first twenty distinct requests with their numbers of occurrences.\<close>

theorem ingest_refines_history:
  "map_of (ingest_all es []) = reference es"
proof (induction es rule: rev_induct)
  case Nil
  then show ?case by (simp add: ingest_all_def reference_def of_key_def fun_eq_iff)
next
  case (snoc x es)
  obtain now e where "x = (now, e)" by fastforce
  then show ?case using ingest_reference [OF snoc] by (simp add: ingest_all_def)
qed

section \<open>Flushing\<close>

definition input_events :: "agg_input list \<Rightarrow> denial_event list" where
  "input_events is = concat (map (\<lambda>i. case i of Recv _ e \<Rightarrow> [e] | FlushTick \<Rightarrow> []) is)"

definition denial_key_of :: "aggregated_denial \<Rightarrow> denial_key" where
  "denial_key_of d = (ad_host d, ad_port d, ad_binary d)"

definition flushed_count :: "denial_key \<Rightarrow> aggregated_denial list \<Rightarrow> nat" where
  "flushed_count k ds = sum_list (map (\<lambda>d. if denial_key_of d = k then unat (ad_count d) else 0) ds)"

lemma flushed_count_append: "flushed_count k (xs @ ys) = flushed_count k xs + flushed_count k ys"
  by (simp add: flushed_count_def)

lemma flushed_count_order:
  assumes "mset (order xs) = mset xs"
  shows "flushed_count k (order xs) = flushed_count k xs"
proof -
  have "sum_list (map f (order xs)) = sum_list (map f xs)" for f :: "aggregated_denial \<Rightarrow> nat"
    using arg_cong [OF assms, of "\<lambda>M. sum_mset (image_mset f M)"] by (simp flip: sum_mset_sum_list)
  then show ?thesis by (simp add: flushed_count_def)
qed

lemma flushed_count_table:
  assumes "distinct (map fst s)" "list_all (\<lambda>(k, d). denial_key_of d = k) s"
  shows "flushed_count k (map snd s) = (case map_of s k of None \<Rightarrow> 0 | Some d \<Rightarrow> unat (ad_count d))"
  using assms
proof (induction s)
  case Nil
  then show ?case by (simp add: flushed_count_def)
next
  case (Cons x s)
  obtain k' d where x: "x = (k', d)" by fastforce
  have ih: "flushed_count k (map snd s) = (case map_of s k of None \<Rightarrow> 0 | Some d \<Rightarrow> unat (ad_count d))"
    by (rule Cons.IH) (use Cons.prems in simp_all)
  have new: "map_of s k' = None" using Cons.prems(1) x by (simp add: map_of_eq_None_iff)
  have key: "denial_key_of d = k'" using Cons.prems(2) x by simp
  have "flushed_count k (map snd (x # s)) = (if k' = k then unat (ad_count d) else 0) + flushed_count k (map snd s)"
    unfolding flushed_count_def using x key by simp
  then show ?case unfolding ih using x new by simp
qed

lemma reference_key: "reference es k = Some d \<Longrightarrow> denial_key_of d = k"
proof -
  assume *: "reference es k = Some d"
  then have "hd (of_key k es) \<in> set (of_key k es)" by (auto simp: reference_def split: if_splits)
  then have "event_key (snd (hd (of_key k es))) = k" by (auto simp: of_key_def)
  then show ?thesis using * by (auto simp: reference_def summary_of_def fresh_denial_def denial_key_of_def event_key_def split: if_splits)
qed

text \<open>The table stands for a history: its keys are distinct and it holds the reference summaries.\<close>

definition table_of :: "(int \<times> denial_event) list \<Rightarrow> summaries \<Rightarrow> bool" where
  "table_of es s \<longleftrightarrow> distinct (map fst s) \<and> map_of s = reference es"

lemma table_of_Nil: "table_of [] []"
  by (simp add: table_of_def reference_def of_key_def fun_eq_iff)

lemma table_of_ingest: "table_of es s \<Longrightarrow> table_of (es @ [(now, e)]) (ingest now e s)"
  using ingest_reference [of s es now e] by (simp add: table_of_def ingest_def Let_def distinct_al_insert)

lemma drain_counts:
  assumes "table_of es s" "\<And>xs. mset (order xs) = mset xs" "length es < 2 ^ 32"
  shows "flushed_count k (fst (drain order s)) = length (of_key k es)"
proof -
  have keys: "list_all (\<lambda>(k, d). denial_key_of d = k) s"
    using assms(1) reference_key by (fastforce simp: table_of_def list_all_iff dest: map_of_is_SomeI)
  have "length (of_key k es) < 2 ^ 32" using assms(3) le_less_trans [OF length_filter_le] unfolding of_key_def by blast
  then have "unat (of_nat (length (of_key k es)) :: 32 word) = length (of_key k es)" by (simp add: unat_of_nat)
  then show ?thesis
    using assms(1) flushed_count_table [OF _ keys] flushed_count_order [of order "map snd s" k] assms(2)
    by (auto simp: drain_def table_of_def reference_def summary_of_def split: option.splits)
qed

lemma agg_run_counts:
  assumes "table_of es s" "\<And>xs. mset (order xs) = mset xs" "length es + length (input_events is) < 2 ^ 32"
  shows "flushed_count k (concat (agg_run order is s)) =
    length (of_key k es) + length (filter (\<lambda>e. event_key e = k) (input_events is))"
  using assms(1,3)
proof (induction "is" arbitrary: es s)
  case Nil
  then have "reference es k = map_of s k" by (simp add: table_of_def)
  then have "s = [] \<Longrightarrow> of_key k es = []" by (simp add: reference_def split: if_splits)
  moreover have "flushed_count k [] = 0" by (simp add: flushed_count_def)
  ultimately show ?case using Nil drain_counts [OF Nil(1) assms(2)] by (auto simp: input_events_def)
next
  case (Cons i "is")
  show ?case
  proof (cases i)
    case (Recv now e)
    then have "length (es @ [(now, e)]) + length (input_events is) < 2 ^ 32" using Cons.prems(2) by (simp add: input_events_def)
    from Cons.IH [OF table_of_ingest [OF Cons.prems(1)] this] show ?thesis
      using Recv by (auto simp: input_events_def of_key_def)
  next
    case FlushTick
    then have le: "length es < 2 ^ 32" "length (input_events is) < 2 ^ 32" and ev: "input_events (i # is) = input_events is"
      using Cons.prems(2) by (simp_all add: input_events_def)
    show ?thesis
    proof (cases "s = []")
      case True
      then show ?thesis using Cons FlushTick ev by simp
    next
      case False
      then show ?thesis
        using FlushTick ev drain_counts [OF Cons.prems(1) assms(2) le(1)] Cons.IH [OF table_of_Nil] le(2)
        by (simp add: drain_def flushed_count_append of_key_def)
    qed
  qed
qed

text \<open>C22: no denial is lost or counted twice. When the channel has closed, the batches handed to the flush callback
  count for each host, port and binary exactly the events received, whenever the flush ticks fell between them and
  whatever the order of the map, as long as there are fewer than \<open>2\<^sup>3\<^sup>2\<close> events.\<close>

theorem denials_conserved:
  assumes "\<And>xs. mset (order xs) = mset xs" "length (input_events is) < 2 ^ 32"
  shows "flushed_count k (concat (agg_run order is [])) = length (filter (\<lambda>e. event_key e = k) (input_events is))"
  using agg_run_counts [OF table_of_Nil assms(1), of "is" k] assms(2) by (simp add: of_key_def)

definition example_event :: denial_event where
  "example_event = \<lparr>de_host = ''h'', de_port = 443, de_binary = ''/b'', de_ancestors = [], de_deny_reason = ''r'',
     de_denial_stage = ''connect'', de_l7_method = None, de_l7_path = None\<rparr>"

theorem denials_conserved_witness:
  "flushed_count (''h'', 443, ''/b'') (concat (agg_run rev [Recv 1 example_event, FlushTick, Recv 2 example_event] [])) = 2"
  using denials_conserved [of rev "[Recv 1 example_event, FlushTick, Recv 2 example_event]" "(''h'', 443, ''/b'')"]
  by (simp add: input_events_def example_event_def event_key_def)

end
