(* ===== verification/Proxy_Connect.thy ===== *)
theory Proxy_Connect
  imports Inference_Proxy Identity Denials
begin

text \<open>
  The connection handlers of the sandbox proxy (\<open>crates/openshell-sandbox/src/proxy.rs\<close>): CONNECT tunnels and
  plain forward requests. A run works on the client connection, the hash cache of binaries, the denial channel and
  the addresses it connects to. Parameters: process lookup, the file system, the policy engine, name resolution,
  the outgoing connection, and TLS termination, which turns the connection into its plaintext view.
\<close>

section \<open>Decisions\<close>

datatype network_action = Allow "string option" | Deny string

record network_input =
  ni_host :: string
  ni_port :: "16 word"
  ni_binary_path :: string
  ni_binary_sha256 :: string
  ni_ancestors :: "string list"
  ni_cmdline_paths :: "string list"

record connect_decision =
  cd_action :: network_action
  cd_binary :: "string option"
  cd_binary_pid :: "nat option"
  cd_ancestors :: "string list"
  cd_cmdline_paths :: "string list"

record ('n, 'r) proxy_env =
  px_entrypoint_pid :: nat
  px_peer_identity :: "nat \<Rightarrow> nat \<Rightarrow> (string, string \<times> nat) result"
  px_ancestor_binaries :: "nat \<Rightarrow> nat \<Rightarrow> string list"
  px_cmdline_paths :: "nat \<Rightarrow> nat \<Rightarrow> string list \<Rightarrow> string list"
  px_fs :: file_system
  px_network_action :: "network_input \<Rightarrow> (string, network_action) result"
  px_endpoint_config :: "network_input \<Rightarrow> (string, endpoint_object option) result"
  px_allowed_ips :: "network_input \<Rightarrow> (string, string list) result"
  px_tunnel_engine :: "(string, rego_engine) result"
  px_empty_engine :: rego_engine
  px_net :: "'n net_env"
  px_connect :: "socket_addr list \<Rightarrow> (string, segments) result"
  px_tls :: "(relay_conn \<Rightarrow> (string, relay_conn) result) option"
  px_client_tls :: "(segments \<Rightarrow> (string, segments) result) option"
  px_inference :: "'r inference_ctx option"
  px_resolver :: "secret_resolver option"
  px_b64 :: base64_engine
  px_json :: "(string \<times> string) list \<Rightarrow> string"
  px_denial_tx :: bool

record proxy_run =
  pr_conn :: relay_conn
  pr_cache :: identity_cache
  pr_denials :: "denial_event list"
  pr_connected :: "socket_addr list option"

definition deny_decision :: "string \<Rightarrow> string option \<Rightarrow> nat option \<Rightarrow> string list \<Rightarrow> string list \<Rightarrow> connect_decision" where
  "deny_decision reason binary pid ancestors cmdline = \<lparr>cd_action = Deny reason, cd_binary = binary, cd_binary_pid = pid,
     cd_ancestors = ancestors, cd_cmdline_paths = cmdline\<rparr>"

text \<open>The ancestors are verified in order; the first failure is reported.\<close>

fun verify_ancestors :: "file_system \<Rightarrow> string list \<Rightarrow> identity_cache \<Rightarrow> (string, unit) result \<times> identity_cache" where
  "verify_ancestors fs [] cache = (Inr (), cache)"
| "verify_ancestors fs (a # as) cache = (case verify_or_cache fs a cache of
     (Inl e, cache') \<Rightarrow> (Inl (''ancestor integrity check failed for '' @ a @ '': '' @ e), cache')
   | (Inr _, cache') \<Rightarrow> verify_ancestors fs as cache')"

definition evaluate_opa_tcp ::
  "('n, 'r) proxy_env \<Rightarrow> nat \<Rightarrow> string \<Rightarrow> 16 word \<Rightarrow> identity_cache \<Rightarrow> connect_decision \<times> identity_cache" where
  "evaluate_opa_tcp env peer_port host port cache =
     (let pid = px_entrypoint_pid env in
      if pid = 0 then (deny_decision ''entrypoint process not yet spawned'' None None [] [], cache)
      else (case px_peer_identity env pid peer_port of
          Inl e \<Rightarrow> (deny_decision (''failed to resolve peer binary: '' @ e) None None [] [], cache)
        | Inr (bin_path, binary_pid) \<Rightarrow> (case verify_or_cache (px_fs env) bin_path cache of
            (Inl e, cache1) \<Rightarrow> (deny_decision (''binary integrity check failed: '' @ e) (Some bin_path) (Some binary_pid) [] [], cache1)
          | (Inr bin_hash, cache1) \<Rightarrow>
              let ancestors = px_ancestor_binaries env binary_pid pid in
              (case verify_ancestors (px_fs env) ancestors cache1 of
                 (Inl e, cache2) \<Rightarrow> (deny_decision e (Some bin_path) (Some binary_pid) ancestors [], cache2)
               | (Inr _, cache2) \<Rightarrow>
                   let cmdline = px_cmdline_paths env binary_pid pid (ancestors @ [bin_path]);
                       inp = \<lparr>ni_host = host, ni_port = port, ni_binary_path = bin_path, ni_binary_sha256 = bin_hash,
                         ni_ancestors = ancestors, ni_cmdline_paths = cmdline\<rparr>
                   in (case px_network_action env inp of
                       Inr action \<Rightarrow> (\<lparr>cd_action = action, cd_binary = Some bin_path, cd_binary_pid = Some binary_pid,
                           cd_ancestors = ancestors, cd_cmdline_paths = cmdline\<rparr>, cache2)
                     | Inl e \<Rightarrow> (deny_decision (''policy evaluation error: '' @ e) (Some bin_path) (Some binary_pid)
                           ancestors cmdline, cache2))))))"

section \<open>Endpoint queries\<close>

definition has_policy :: "connect_decision \<Rightarrow> bool" where
  "has_policy decision = (case cd_action decision of Allow matched_policy \<Rightarrow> matched_policy \<noteq> None | Deny _ \<Rightarrow> False)"

definition query_input :: "connect_decision \<Rightarrow> string \<Rightarrow> 16 word \<Rightarrow> network_input" where
  "query_input decision host port = \<lparr>ni_host = host, ni_port = port,
     ni_binary_path = (case cd_binary decision of None \<Rightarrow> [] | Some b \<Rightarrow> b), ni_binary_sha256 = [],
     ni_ancestors = cd_ancestors decision, ni_cmdline_paths = cd_cmdline_paths decision\<rparr>"

definition query_l7_config :: "('n, 'r) proxy_env \<Rightarrow> connect_decision \<Rightarrow> string \<Rightarrow> 16 word \<Rightarrow> l7_endpoint_config option" where
  "query_l7_config env decision host port = (if \<not> has_policy decision then None
     else case px_endpoint_config env (query_input decision host port) of
       Inr (Some val) \<Rightarrow> parse_l7_config val | Inr None \<Rightarrow> None | Inl _ \<Rightarrow> None)"

definition query_tls_mode :: "('n, 'r) proxy_env \<Rightarrow> connect_decision \<Rightarrow> string \<Rightarrow> 16 word \<Rightarrow> tls_mode" where
  "query_tls_mode env decision host port = (if \<not> has_policy decision then TlsAuto
     else case px_endpoint_config env (query_input decision host port) of
       Inr (Some val) \<Rightarrow> parse_tls_mode val | _ \<Rightarrow> TlsAuto)"

definition query_allowed_ips :: "('n, 'r) proxy_env \<Rightarrow> connect_decision \<Rightarrow> string \<Rightarrow> 16 word \<Rightarrow> string list" where
  "query_allowed_ips env decision host port = (if \<not> has_policy decision then []
     else case px_allowed_ips env (query_input decision host port) of Inr ips \<Rightarrow> ips | Inl _ \<Rightarrow> [])"

text \<open>The addresses to connect to, or the reason of the refusal; both handlers have this code.\<close>

definition effective_allowed_ips :: "('n, 'r) proxy_env \<Rightarrow> connect_decision \<Rightarrow> string \<Rightarrow> string \<Rightarrow> 16 word \<Rightarrow> string list" where
  "effective_allowed_ips env decision host host_lc port =
     (let raw = query_allowed_ips env decision host_lc port
      in if raw = [] then implicit_allowed_ips_for_ip_host (px_net env) host else raw)"

definition upstream_addrs ::
  "('n, 'r) proxy_env \<Rightarrow> connect_decision \<Rightarrow> string \<Rightarrow> string \<Rightarrow> 16 word \<Rightarrow> (string, socket_addr list) result" where
  "upstream_addrs env decision host host_lc port =
     (let raw = effective_allowed_ips env decision host host_lc port in
      if raw \<noteq> [] then and_then (parse_allowed_ips (px_net env) raw)
        (\<lambda>nets. resolve_and_check_allowed_ips (px_net env) host port nets)
      else resolve_and_reject_internal (px_net env) host port)"

section \<open>Effects\<close>

definition respond :: "string \<Rightarrow> proxy_run \<Rightarrow> proxy_run" where
  "respond bytes st = st\<lparr>pr_conn := (pr_conn st)\<lparr>cn_to_client := cn_to_client (pr_conn st) @ bytes\<rparr>\<rparr>"

definition status_line :: "string \<Rightarrow> string" where
  "status_line text = ''HTTP/1.1 '' @ text @ CRLF @ CRLF"

definition binary_str :: "connect_decision \<Rightarrow> string" where
  "binary_str decision = (case cd_binary decision of None \<Rightarrow> ''-'' | Some p \<Rightarrow> p)"

definition emit_denial :: "('n, 'r) proxy_env \<Rightarrow> string \<Rightarrow> 16 word \<Rightarrow> connect_decision \<Rightarrow> string \<Rightarrow> string \<Rightarrow> proxy_run \<Rightarrow> proxy_run" where
  "emit_denial env host port decision reason stage st = (if px_denial_tx env then
     st\<lparr>pr_denials := pr_denials st @ [\<lparr>de_host = host, de_port = unat port, de_binary = binary_str decision,
       de_ancestors = cd_ancestors decision, de_deny_reason = reason, de_denial_stage = stage,
       de_l7_method = None, de_l7_path = None\<rparr>]\<rparr> else st)"

definition forbid :: "('n, 'r) proxy_env \<Rightarrow> string \<Rightarrow> 16 word \<Rightarrow> connect_decision \<Rightarrow> string \<Rightarrow> string \<Rightarrow> proxy_run \<Rightarrow> proxy_run" where
  "forbid env host port decision reason stage st =
     respond (status_line ''403 Forbidden'') (emit_denial env host port decision reason stage st)"

definition connect_upstream :: "('n, 'r) proxy_env \<Rightarrow> socket_addr list \<Rightarrow> proxy_run \<Rightarrow> (string, unit) result \<times> proxy_run" where
  "connect_upstream env addrs st = (let st1 = st\<lparr>pr_connected := Some addrs\<rparr> in
     case px_connect env addrs of Inl e \<Rightarrow> (Inl e, st1)
     | Inr segs \<Rightarrow> (Inr (), st1\<lparr>pr_conn := (pr_conn st1)\<lparr>cn_upstream_in := segs\<rparr>\<rparr>))"

definition eval_context :: "('n, 'r) proxy_env \<Rightarrow> connect_decision \<Rightarrow> string \<Rightarrow> 16 word \<Rightarrow> l7_eval_context" where
  "eval_context env decision host port = \<lparr>ctx_host = host, ctx_port = unat port,
     ctx_policy_name = (case cd_action decision of Allow (Some p) \<Rightarrow> p | _ \<Rightarrow> []),
     ctx_binary_path = (case cd_binary decision of None \<Rightarrow> [] | Some b \<Rightarrow> b),
     ctx_ancestors = cd_ancestors decision, ctx_cmdline_paths = cd_cmdline_paths decision,
     ctx_secret_resolver = px_resolver env\<rparr>"

definition tunnel_engine :: "('n, 'r) proxy_env \<Rightarrow> rego_engine" where
  "tunnel_engine env = (case px_tunnel_engine env of Inr e \<Rightarrow> e | Inl _ \<Rightarrow> px_empty_engine env)"

section \<open>The tunnel\<close>

text \<open>Peeking returns what has arrived: at most eight bytes of the first segment.\<close>

fun peek :: "segments \<Rightarrow> string" where
  "peek [] = []"
| "peek (seg # segs) = (if seg = [] then peek segs else take 8 seg)"

definition inspect_or_inject :: "('n, 'r) proxy_env \<Rightarrow> l7_endpoint_config option \<Rightarrow> l7_eval_context \<Rightarrow> unit relay" where
  "inspect_or_inject env l7_config ctx = (case l7_config of
     Some config \<Rightarrow> relay_with_inspection config (tunnel_engine env) (px_b64 env) (px_json env) ctx
   | None \<Rightarrow> relay_passthrough_with_credentials (px_b64 env) ctx)"

text \<open>What follows the reply to CONNECT. Errors of the inspected relays are logged only.\<close>

definition run_tunnel :: "('n, 'r) proxy_env \<Rightarrow> l7_endpoint_config option \<Rightarrow> tls_mode \<Rightarrow> l7_eval_context \<Rightarrow> unit relay" where
  "run_tunnel env l7_config tls ctx c =
     (if tls = TlsSkip then copy_bidirectional c
      else let peeked = peek (cn_client_in c) in
        if peeked = [] then (Inr (), c)
        else if looks_like_tls peeked then
          (case px_tls env of
             Some terminate \<Rightarrow> (case terminate c of
                 Inl e \<Rightarrow> (Inr (), c)
               | Inr c1 \<Rightarrow> (Inr (), snd (inspect_or_inject env l7_config ctx c1)))
           | None \<Rightarrow> copy_bidirectional c)
        else if looks_like_http peeked then (Inr (), snd (inspect_or_inject env l7_config ctx c))
        else copy_bidirectional c)"

section \<open>Handlers\<close>

definition PROXY_MAX_HEADER_BYTES :: nat where "PROXY_MAX_HEADER_BYTES = 8192"
definition INFERENCE_LOCAL_HOST :: string where "INFERENCE_LOCAL_HOST = ''inference.local''"

text \<open>The used part of the buffer once the head is complete; \<open>Inl True\<close> when the buffer is full and
  \<open>Inl False\<close> when the client closes.\<close>

function read_proxy_head :: "string \<Rightarrow> segments \<Rightarrow> (bool, string) result \<times> segments" where
  "read_proxy_head buf segs =
     (if length buf \<ge> PROXY_MAX_HEADER_BYTES then (Inl True, segs)
      else (case read_some (PROXY_MAX_HEADER_BYTES - length buf) segs of (b, segs') \<Rightarrow>
        if b = [] then (Inl False, segs')
        else if contains CRLFCRLF (buf @ b) then (Inr (buf @ b), segs')
        else read_proxy_head (buf @ b) segs'))"
  by pat_completeness auto
termination
  by (relation "measure (\<lambda>(buf, segs). length (concat segs))") (auto dest: sym [THEN read_some_shorter])

declare read_proxy_head.simps [simp del]

definition handle_connect ::
  "('n, 'r) proxy_env \<Rightarrow> nat \<Rightarrow> string \<Rightarrow> 16 word \<Rightarrow> proxy_run \<Rightarrow> (string, unit) result \<times> proxy_run" where
  "handle_connect env peer_port host port st =
     (let host_lc = to_ascii_lowercase host in
      if host_lc = INFERENCE_LOCAL_HOST then
        (let st1 = respond (status_line ''200 Connection Established'') st in
         case handle_inference_interception (px_client_tls env) (px_inference env) (cn_client_in (pr_conn st1)) of
           (None, response, _) \<Rightarrow> (Inl ''panicked'', respond response st1)
         | (Some outcome, response, _) \<Rightarrow> (Inr (), respond response st1))
      else (case evaluate_opa_tcp env peer_port host_lc port (pr_cache st) of (decision, cache) \<Rightarrow>
        let st1 = st\<lparr>pr_cache := cache\<rparr> in
        (case cd_action decision of
           Deny reason \<Rightarrow> (Inr (), forbid env host_lc port decision reason ''connect'' st1)
         | Allow matched_policy \<Rightarrow> (case upstream_addrs env decision host host_lc port of
             Inl reason \<Rightarrow> (Inr (), forbid env host_lc port decision reason ''ssrf'' st1)
           | Inr addrs \<Rightarrow> (case connect_upstream env addrs st1 of
               (Inl e, st2) \<Rightarrow> (Inl e, st2)
             | (Inr _, st2) \<Rightarrow>
                 let st3 = respond (status_line ''200 Connection Established'') st2 in
                 (case run_tunnel env (query_l7_config env decision host_lc port) (query_tls_mode env decision host_lc port)
                     (eval_context env decision host_lc port) (pr_conn st3) of
                   (r, c) \<Rightarrow> (r, st3\<lparr>pr_conn := c\<rparr>)))))))"

text \<open>The decision of the policy on the single request of a forward connection: the reason of a denial.\<close>

definition forward_l7_denial ::
  "('n, 'r) proxy_env \<Rightarrow> connect_decision \<Rightarrow> string \<Rightarrow> string \<Rightarrow> 16 word \<Rightarrow> string \<Rightarrow> string option" where
  "forward_l7_denial env decision method0 host_lc port path = (case query_l7_config env decision host_lc port of
     None \<Rightarrow> None
   | Some config \<Rightarrow>
       let (target_path, query_params) = (case parse_target_query path of Inr tq \<Rightarrow> tq | Inl _ \<Rightarrow> (path, []));
           info = \<lparr>ri_action = method0, ri_target = target_path, ri_query_params = query_params\<rparr>;
           (allowed, reason) = (case evaluate_l7_request (tunnel_engine env) (eval_context env decision host_lc port) info of
              Inr ar \<Rightarrow> ar | Inl e \<Rightarrow> (False, ''L7 evaluation error: '' @ e))
       in if \<not> allowed \<and> ec_enforcement config = Enforce then Some reason else None)"

definition handle_forward_proxy ::
  "('n, 'r) proxy_env \<Rightarrow> nat \<Rightarrow> string \<Rightarrow> string \<Rightarrow> string \<Rightarrow> proxy_run \<Rightarrow> (string, unit) result \<times> proxy_run" where
  "handle_forward_proxy env peer_port method0 target_uri buf st = (case parse_proxy_uri target_uri of
     Inl e \<Rightarrow> (Inr (), respond (status_line ''400 Bad Request'') st)
   | Inr (scheme, host, port, path) \<Rightarrow>
       let host_lc = to_ascii_lowercase host in
       if scheme = ''https'' then
         (Inr (), respond (''HTTP/1.1 400 Bad Request'' @ CRLF @ ''Content-Length: 27'' @ CRLF @ CRLF
            @ ''Use CONNECT for HTTPS URLs'') st)
       else (case evaluate_opa_tcp env peer_port host_lc port (pr_cache st) of (decision, cache) \<Rightarrow>
         let st1 = st\<lparr>pr_cache := cache\<rparr> in
         (case cd_action decision of
            Deny reason \<Rightarrow> (Inr (), forbid env host_lc port decision reason ''forward'' st1)
          | Allow matched_policy \<Rightarrow> (case forward_l7_denial env decision method0 host_lc port path of
              Some reason \<Rightarrow> (Inr (), forbid env host_lc port decision reason ''forward-l7-deny'' st1)
            | None \<Rightarrow> (case upstream_addrs env decision host host_lc port of
                Inl reason \<Rightarrow> (Inr (), forbid env host_lc port decision reason ''ssrf'' st1)
              | Inr addrs \<Rightarrow> (case connect_upstream env addrs st1 of
                  (Inl e, st2) \<Rightarrow> (Inr (), respond (status_line ''502 Bad Gateway'') st2)
                | (Inr _, st2) \<Rightarrow> (case rewrite_forward_request (px_b64 env) buf path (px_resolver env) of
                    Inl e \<Rightarrow> (Inr (), respond (status_line ''500 Internal Server Error'') st2)
                  | Inr rewritten \<Rightarrow>
                      (case relay_bind (write_upstream rewritten) (\<lambda>_. copy_bidirectional) (pr_conn st2) of
                        (r, c) \<Rightarrow> (r, st2\<lparr>pr_conn := c\<rparr>)))))))))"

definition handle_tcp_connection ::
  "('n, 'r) proxy_env \<Rightarrow> nat \<Rightarrow> proxy_run \<Rightarrow> (string, unit) result \<times> proxy_run" where
  "handle_tcp_connection env peer_port st = (case read_proxy_head [] (cn_client_in (pr_conn st)) of (r, segs) \<Rightarrow>
     let st1 = st\<lparr>pr_conn := (pr_conn st)\<lparr>cn_client_in := segs\<rparr>\<rparr> in
     (case r of
        Inl True \<Rightarrow> (Inr (), respond (status_line ''431 Request Header Fields Too Large'') st1)
      | Inl False \<Rightarrow> (Inr (), st1)
      | Inr buf \<Rightarrow>
          let request_line = (case split_str CRLF (utf8_lossy buf) of [] \<Rightarrow> [] | l # _ \<Rightarrow> l);
              parts = split_whitespace request_line;
              method0 = (case parts of [] \<Rightarrow> [] | m # _ \<Rightarrow> m);
              target = (case parts of _ # t # _ \<Rightarrow> t | _ \<Rightarrow> [])
          in if method0 \<noteq> ''CONNECT'' then handle_forward_proxy env peer_port method0 target buf st1
             else (case parse_target target of
                 Inl e \<Rightarrow> (Inl e, st1)
               | Inr (host, port) \<Rightarrow> handle_connect env peer_port host port st1)))"

section \<open>Which addresses are reached\<close>

text \<open>The addresses a decision permits: none that is always blocked, and an internal one only in a network that the
  policy lists for the endpoint, or when it is the literal host of the request.\<close>

definition permitted_addr :: "('n, 'r) proxy_env \<Rightarrow> connect_decision \<Rightarrow> string \<Rightarrow> 16 word \<Rightarrow> ip_addr \<Rightarrow> bool" where
  "permitted_addr env decision host port ip \<longleftrightarrow> \<not> is_always_blocked_ip ip
     \<and> (is_internal_ip ip \<longrightarrow> list_ex (\<lambda>entry. case parse_allowed_ip (px_net env) entry of None \<Rightarrow> False
         | Some net \<Rightarrow> ne_contains (px_net env) net ip)
       (effective_allowed_ips env decision host (to_ascii_lowercase host) port))"

lemma allowed_nets_entries:
  assumes "parse_allowed_ips net raw = Inr nets"
  shows "list_ex P nets = list_ex (\<lambda>entry. case parse_allowed_ip net entry of None \<Rightarrow> False | Some n \<Rightarrow> P n) raw"
proof -
  have "nets = map (\<lambda>e. the (parse_allowed_ip net e)) raw" "list_all (\<lambda>e. parse_allowed_ip net e \<noteq> None) raw"
    using assms by (simp_all add: parse_allowed_ips_ok)
  then show ?thesis by (induction raw arbitrary: nets) auto
qed

lemma upstream_addrs_permitted:
  assumes "upstream_addrs env decision host (to_ascii_lowercase host) port = Inr addrs"
  shows "list_all (\<lambda>a. permitted_addr env decision host port (so_ip a)) addrs"
proof (cases "effective_allowed_ips env decision host (to_ascii_lowercase host) port = []")
  case True
  then have r: "resolve_and_reject_internal (px_net env) host port = Inr addrs"
    using assms by (simp add: upstream_addrs_def)
  show ?thesis using reject_guard.all_permitted [OF r] reject_guard.never_blocked [OF r]
    by (auto simp: permitted_addr_def list_all_iff)
next
  case False
  then obtain nets where n: "parse_allowed_ips (px_net env) (effective_allowed_ips env decision host (to_ascii_lowercase host) port) = Inr nets"
    "resolve_and_check_allowed_ips (px_net env) host port nets = Inr addrs"
    using assms by (auto simp: upstream_addrs_def Let_def and_then_Inr)
  show ?thesis using allow_guard.all_permitted [OF n(2)]
    by (simp add: permitted_addr_def list_all_iff allowed_nets_entries [OF n(1)])
qed

text \<open>What a handler may do to a run: keep it from the upstream, or connect where an allowing decision permits.\<close>

definition guarded_run :: "('n, 'r) proxy_env \<Rightarrow> nat \<Rightarrow> identity_cache \<Rightarrow> proxy_run \<Rightarrow> proxy_run \<Rightarrow> bool" where
  "guarded_run env peer_port cache st st' \<longleftrightarrow>
     pr_connected st' = pr_connected st \<and> cn_to_upstream (pr_conn st') = cn_to_upstream (pr_conn st)
     \<or> (\<exists>host port addrs decision matched.
          decision = fst (evaluate_opa_tcp env peer_port (to_ascii_lowercase host) port cache)
          \<and> cd_action decision = Allow matched \<and> pr_connected st' = Some addrs
          \<and> list_all (\<lambda>a. permitted_addr env decision host port (so_ip a)) addrs)"

lemma guarded_runI:
  assumes "fst (evaluate_opa_tcp env peer_port (to_ascii_lowercase host) port cache) = decision"
    "cd_action decision = Allow matched" "pr_connected st' = Some addrs"
    "list_all (\<lambda>a. permitted_addr env decision host port (so_ip a)) addrs"
  shows "guarded_run env peer_port cache st st'"
  unfolding guarded_run_def using assms
  by (intro disjI2 exI [of _ host] exI [of _ port] exI [of _ addrs] exI [of _ decision] exI [of _ matched]) simp

lemma respond_simps [simp]:
  "pr_connected (respond b st) = pr_connected st" "cn_to_upstream (pr_conn (respond b st)) = cn_to_upstream (pr_conn st)"
  "pr_cache (respond b st) = pr_cache st" "pr_denials (respond b st) = pr_denials st"
  "cn_to_client (pr_conn (respond b st)) = cn_to_client (pr_conn st) @ b"
  by (simp_all add: respond_def)

lemma forbid_simps [simp]:
  "pr_connected (forbid env h p d r s st) = pr_connected st"
  "cn_to_upstream (pr_conn (forbid env h p d r s st)) = cn_to_upstream (pr_conn st)"
  "pr_cache (forbid env h p d r s st) = pr_cache st"
  by (simp_all add: forbid_def emit_denial_def)

lemma connect_upstream_connected: "connect_upstream env addrs st = (r, st') \<Longrightarrow> pr_connected st' = Some addrs"
  by (auto simp: connect_upstream_def Let_def split: sum.splits)

lemma handle_connect_guarded:
  assumes "handle_connect env peer_port host port st = (r, st')"
  shows "guarded_run env peer_port (pr_cache st) st st'"
proof (cases "to_ascii_lowercase host = INFERENCE_LOCAL_HOST")
  case True
  then show ?thesis using assms by (auto simp: handle_connect_def guarded_run_def Let_def split: prod.splits option.splits)
next
  case False
  obtain decision cache where e: "evaluate_opa_tcp env peer_port (to_ascii_lowercase host) port (pr_cache st) = (decision, cache)" by fastforce
  let ?st1 = "st\<lparr>pr_cache := cache\<rparr>"
  show ?thesis
  proof (cases "\<exists>matched addrs. cd_action decision = Allow matched \<and>
      upstream_addrs env decision host (to_ascii_lowercase host) port = Inr addrs")
    case True
    then obtain matched addrs where a: "cd_action decision = Allow matched"
      "upstream_addrs env decision host (to_ascii_lowercase host) port = Inr addrs" by blast
    obtain r2 st2 where c: "connect_upstream env addrs ?st1 = (r2, st2)" by fastforce
    have "pr_connected st' = Some addrs"
      using assms False e a c connect_upstream_connected [OF c]
      by (auto simp: handle_connect_def Let_def split: sum.splits prod.splits)
    then show ?thesis using guarded_runI [OF _ a(1) _ upstream_addrs_permitted [OF a(2)]] e by simp
  next
    case no: False
    then show ?thesis using assms False e
      by (auto simp: handle_connect_def guarded_run_def Let_def split: network_action.splits sum.splits)
  qed
qed

lemma handle_forward_guarded:
  assumes "handle_forward_proxy env peer_port method0 target buf st = (r, st')"
  shows "guarded_run env peer_port (pr_cache st) st st'"
proof (cases "\<exists>scheme host port path. parse_proxy_uri target = Inr (scheme, host, port, path) \<and> scheme \<noteq> ''https''")
  case False
  then show ?thesis using assms by (auto simp: handle_forward_proxy_def guarded_run_def Let_def split: sum.splits if_splits)
next
  case True
  then obtain scheme host port path where p: "parse_proxy_uri target = Inr (scheme, host, port, path)" "scheme \<noteq> ''https''" by blast
  obtain decision cache where e: "evaluate_opa_tcp env peer_port (to_ascii_lowercase host) port (pr_cache st) = (decision, cache)" by fastforce
  let ?st1 = "st\<lparr>pr_cache := cache\<rparr>"
  show ?thesis
  proof (cases "\<exists>matched addrs. cd_action decision = Allow matched
      \<and> forward_l7_denial env decision method0 (to_ascii_lowercase host) port path = None
      \<and> upstream_addrs env decision host (to_ascii_lowercase host) port = Inr addrs")
    case True
    then obtain matched addrs where a: "cd_action decision = Allow matched"
      "upstream_addrs env decision host (to_ascii_lowercase host) port = Inr addrs"
      "forward_l7_denial env decision method0 (to_ascii_lowercase host) port path = None" by blast
    obtain r2 st2 where c: "connect_upstream env addrs ?st1 = (r2, st2)" by fastforce
    have "pr_connected st' = Some addrs"
      using assms p e a c connect_upstream_connected [OF c]
      by (auto simp: handle_forward_proxy_def Let_def split: sum.splits prod.splits)
    then show ?thesis using guarded_runI [OF _ a(1) _ upstream_addrs_permitted [OF a(2)]] e by simp
  next
    case no: False
    then show ?thesis using assms p e
      by (auto simp: handle_forward_proxy_def guarded_run_def Let_def split: network_action.splits sum.splits option.splits)
  qed
qed

lemma handle_tcp_connection_guarded:
  assumes "handle_tcp_connection env peer_port st = (r, st')"
  shows "guarded_run env peer_port (pr_cache st) st st'"
proof -
  obtain rd segs where h: "read_proxy_head [] (cn_client_in (pr_conn st)) = (rd, segs)" by fastforce
  let ?st1 = "st\<lparr>pr_conn := (pr_conn st)\<lparr>cn_client_in := segs\<rparr>\<rparr>"
  have same: "guarded_run env peer_port (pr_cache st) ?st1 st' \<Longrightarrow> ?thesis" by (simp add: guarded_run_def)
  consider "st' = ?st1" | b where "st' = respond b ?st1"
    | m t buf where "handle_forward_proxy env peer_port m t buf ?st1 = (r, st')"
    | host port where "handle_connect env peer_port host port ?st1 = (r, st')"
    using assms h by (auto simp: handle_tcp_connection_def Let_def split: sum.splits bool.splits if_splits)
  then show ?thesis
    using handle_forward_guarded [of env peer_port _ _ _ ?st1 r st'] handle_connect_guarded [of env peer_port _ _ ?st1 r st'] same
    by cases (auto simp: guarded_run_def)
qed

text \<open>The proxy reaches the network only where the policy lets it. In every run, either no connection is opened
  and nothing is written upstream, or the policy allowed the requesting binary the host and the port, and every
  address connected to is permitted for that decision: never loopback, link-local or unspecified, and internal
  only inside a network the policy lists for the endpoint or as the literal host of the request.\<close>

theorem proxy_reaches_permitted_only:
  assumes "handle_tcp_connection env peer_port st = (r, st')"
  shows "guarded_run env peer_port (pr_cache st) st st'"
  using assms by (rule handle_tcp_connection_guarded)

definition example_env :: "(nat, nat) proxy_env" where
  "example_env = \<lparr>px_entrypoint_pid = 0, px_peer_identity = (\<lambda>_ _. Inr (''/bin/x'', 7)), px_ancestor_binaries = (\<lambda>_ _. []),
     px_cmdline_paths = (\<lambda>_ _ _. []), px_fs = example_fs, px_network_action = (\<lambda>_. Inr (Allow (Some ''p''))),
     px_endpoint_config = (\<lambda>_. Inr None), px_allowed_ips = (\<lambda>_. Inr []), px_tunnel_engine = Inl ''none'',
     px_empty_engine = (\<lambda>_. Inl ''empty''),
     px_net = \<lparr>ne_lookup_host = (\<lambda>_ p. Inr [\<lparr>so_ip = V4 0x08080808, so_port = p\<rparr>]), ne_show_ip = (\<lambda>_. []),
       ne_parse_ip = (\<lambda>_. None), ne_parse_net = (\<lambda>_. None), ne_net_of_ip = (\<lambda>_. 0), ne_contains = (\<lambda>_ _. False)\<rparr>,
     px_connect = (\<lambda>_. Inr []), px_tls = None, px_client_tls = None, px_inference = None, px_resolver = None,
     px_b64 = \<lparr>b64_decode = Some, b64_encode = id\<rparr>, px_json = concat \<circ> map snd, px_denial_tx = True\<rparr>"

definition example_run :: "string \<Rightarrow> proxy_run" where
  "example_run bytes = \<lparr>pr_conn = \<lparr>cn_client_in = [bytes], cn_upstream_in = [], cn_to_upstream = [], cn_to_client = []\<rparr>,
     pr_cache = new_cache, pr_denials = [], pr_connected = None\<rparr>"

theorem proxy_reaches_permitted_only_witness:
  "pr_connected (snd (handle_tcp_connection example_env 5 (example_run (''CONNECT h:443 HTTP/1.1'' @ CRLF @ CRLF)))) = None"
proof -
  let ?run = "handle_tcp_connection example_env 5 (example_run (''CONNECT h:443 HTTP/1.1'' @ CRLF @ CRLF))"
  have deny: "cd_action (fst (evaluate_opa_tcp example_env 5 h p c)) = Deny ''entrypoint process not yet spawned''" for h p c
    by (simp add: evaluate_opa_tcp_def example_env_def deny_decision_def)
  have "guarded_run example_env 5 new_cache (example_run (''CONNECT h:443 HTTP/1.1'' @ CRLF @ CRLF)) (snd ?run)"
    using proxy_reaches_permitted_only [of example_env 5 "example_run (''CONNECT h:443 HTTP/1.1'' @ CRLF @ CRLF)" "fst ?run" "snd ?run"]
    by (simp add: example_run_def)
  then show ?thesis by (auto simp: guarded_run_def deny) (simp add: example_run_def)
qed

section \<open>Inspection of a tunnel\<close>

text \<open>The plaintext view of the tunnel that detection leads to.\<close>

definition plaintext_view :: "('n, 'r) proxy_env \<Rightarrow> relay_conn \<Rightarrow> relay_conn option" where
  "plaintext_view env c = (let peeked = peek (cn_client_in c) in
     if looks_like_tls peeked then (case px_tls env of None \<Rightarrow> None
       | Some terminate \<Rightarrow> (case terminate c of Inl _ \<Rightarrow> None | Inr c1 \<Rightarrow> Some c1))
     else if looks_like_http peeked then Some c else None)"

lemma peek_nonempty: "looks_like_http p \<or> looks_like_tls p \<Longrightarrow> p \<noteq> []"
  by (auto simp: looks_like_http_def METHODS_def looks_like_tls_def starts_with_def)

lemma run_tunnel_enforced:
  assumes "run_tunnel env (Some config) TlsAuto ctx c = (r, c')" "plaintext_view env c = Some plain"
    "ec_protocol config = Rest" "ec_enforcement config = Enforce"
  shows "\<exists>us tail. cn_to_upstream c' = cn_to_upstream plain @ concat us @ tail
    \<and> list_all (forwarded_unit (inspection_env config (tunnel_engine env) (px_b64 env) (px_json env) ctx)
        (concat (cn_client_in plain))) us
    \<and> (tail = [] \<or> upgrade_allowed (inspection_env config (tunnel_engine env) (px_b64 env) (px_json env) ctx)
        (concat (cn_client_in plain)))"
proof -
  let ?e = "inspection_env config (tunnel_engine env) (px_b64 env) (px_json env) ctx"
  have "c' = snd (relay_rest ?e plain)"
    using assms peek_nonempty [of "peek (cn_client_in c)"]
    by (auto simp: run_tunnel_def plaintext_view_def Let_def inspect_or_inject_def relay_with_inspection_def
        split: if_splits option.splits sum.splits)
  moreover have "re_enforcement ?e = Enforce" using assms(4) by (simp add: inspection_env_def)
  ultimately show ?thesis using relay_rest_enforced [of ?e plain "fst (relay_rest ?e plain)" c'] by simp
qed

text \<open>When the first bytes of a tunnel to an endpoint with an enforced REST configuration are recognised as TLS
  that can be terminated or as plain HTTP, everything the tunnel sends upstream is made of requests that the policy
  allowed, each with its rewritten head and at most its declared body, up to an allowed upgrade.\<close>

theorem tunnel_enforced:
  assumes "run_tunnel env (Some config) TlsAuto ctx c = (r, c')" "plaintext_view env c = Some plain"
    "ec_protocol config = Rest" "ec_enforcement config = Enforce"
  shows "\<exists>us tail. cn_to_upstream c' = cn_to_upstream plain @ concat us @ tail
    \<and> list_all (forwarded_unit (inspection_env config (tunnel_engine env) (px_b64 env) (px_json env) ctx)
        (concat (cn_client_in plain))) us
    \<and> (tail = [] \<or> upgrade_allowed (inspection_env config (tunnel_engine env) (px_b64 env) (px_json env) ctx)
        (concat (cn_client_in plain)))"
  by (rule run_tunnel_enforced [OF assms])

definition example_config :: l7_endpoint_config where
  "example_config = \<lparr>ec_protocol = Rest, ec_tls = TlsAuto, ec_enforcement = Enforce\<rparr>"

definition example_eval_ctx :: l7_eval_context where
  "example_eval_ctx = eval_context example_env (deny_decision [] None None [] []) ''h'' 80"

theorem tunnel_enforced_witness:
  "let c = \<lparr>cn_client_in = [''GET /x HTTP/1.1'' @ CRLF @ CRLF], cn_upstream_in = [], cn_to_upstream = [], cn_to_client = []\<rparr>
   in cn_to_upstream (snd (run_tunnel example_env (Some example_config) TlsAuto example_eval_ctx c)) = []"
proof -
  let ?c = "\<lparr>cn_client_in = [''GET /x HTTP/1.1'' @ CRLF @ CRLF], cn_upstream_in = [], cn_to_upstream = [], cn_to_client = []\<rparr>"
  let ?e = "inspection_env example_config (tunnel_engine example_env) (px_b64 example_env) (px_json example_env) example_eval_ctx"
  have v: "plaintext_view example_env ?c = Some ?c" by code_simp
  have "\<not> allows ?e req" for req
    by (auto simp: allows_def inspection_env_def evaluate_l7_request_def tunnel_engine_def example_env_def split: sum.splits)
  then have "\<not> forwarded_unit ?e i u" "\<not> upgrade_allowed ?e i" for i u
    by (auto simp: forwarded_unit_def upgrade_allowed_def)
  then show ?thesis
    using tunnel_enforced [OF _ v, of example_config example_eval_ctx] 
    by (fastforce simp: Let_def example_config_def list_all_iff prod_eq_iff)
qed

text \<open>Detection looks only at the bytes that have arrived. When the first segment of a tunnel is one or two
  bytes long, the tunnel is raw: every byte the client sends reaches the upstream without inspection, for every
  inspection configuration, engine and context, although the bytes may form an HTTP request.\<close>

theorem short_first_segment_bypasses_inspection:
  assumes "cn_client_in c = seg # segs" "0 < length seg" "length seg < 3"
  shows "run_tunnel env l7_config tls ctx c = copy_bidirectional c
    \<and> cn_to_upstream (snd (run_tunnel env l7_config tls ctx c)) = cn_to_upstream c @ seg @ concat segs"
proof -
  have "take 8 seg = seg" using assms(3) by simp
  moreover have "\<not> looks_like_http seg" using assms(3)
    by (auto simp: looks_like_http_def METHODS_def starts_with_prefix dest!: prefix_length_le)
  moreover have "\<not> looks_like_tls seg" using assms(3) by (simp add: looks_like_tls_def)
  ultimately have "run_tunnel env l7_config tls ctx c = copy_bidirectional c"
    using assms(1,2) by (auto simp: run_tunnel_def Let_def)
  then show ?thesis using assms(1) by (simp add: copy_bidirectional_def)
qed

theorem short_first_segment_bypasses_inspection_witness:
  "let c = \<lparr>cn_client_in = [''G'', ''ET /admin HTTP/1.1'' @ CRLF @ CRLF], cn_upstream_in = [], cn_to_upstream = [], cn_to_client = []\<rparr>
   in cn_to_upstream (snd (run_tunnel example_env (Some example_config) TlsAuto example_eval_ctx c)) = ''GET /admin HTTP/1.1'' @ CRLF @ CRLF"
  using short_first_segment_bypasses_inspection
    [of "\<lparr>cn_client_in = [''G'', ''ET /admin HTTP/1.1'' @ CRLF @ CRLF], cn_upstream_in = [], cn_to_upstream = [], cn_to_client = []\<rparr>"
      "''G''" "[''ET /admin HTTP/1.1'' @ CRLF @ CRLF]" example_env "Some example_config" TlsAuto example_eval_ctx]
  by (simp add: copy_bidirectional_def)

end
