(* ===== verification/Procfs.thy ===== *)
theory Procfs
  imports Proxy_Connect
begin

text \<open>
  Process lookup (\<open>crates/openshell-sandbox/src/procfs.rs\<close>): from the port of a connection to the socket inode,
  the process that owns it, its binary and its ancestors. The parameter is a view of \<open>/proc\<close>: the contents of
  its files and the targets of its links, \<open>None\<close> where they cannot be read.
\<close>

section \<open>Lookups\<close>

record proc_view =
  pv_exe :: "nat \<Rightarrow> (string, string) result"
  pv_status :: "nat \<Rightarrow> string option"
  pv_cmdline :: "nat \<Rightarrow> string option"
  pv_net :: "nat \<Rightarrow> string \<Rightarrow> string option"
  pv_children :: "nat \<Rightarrow> string list"
  pv_fds :: "nat \<Rightarrow> string list option"
  pv_entries :: "string list"

definition PPID_LABEL :: string where "PPID_LABEL = ''PPid:''"

fun ppid_of_lines :: "string list \<Rightarrow> nat option" where
  "ppid_of_lines [] = None"
| "ppid_of_lines (line # ls) = (case strip_prefix PPID_LABEL line of
     Some rest \<Rightarrow> parse_uint 10 32 (trim rest)
   | None \<Rightarrow> ppid_of_lines ls)"

definition read_ppid :: "proc_view \<Rightarrow> nat \<Rightarrow> nat option" where
  "read_ppid pv pid = (case pv_status pv pid of None \<Rightarrow> None | Some status \<Rightarrow> ppid_of_lines (lines status))"

definition MAX_DEPTH :: nat where "MAX_DEPTH = 64"

text \<open>The parents visited from a process, at most \<open>depth\<close> of them.\<close>

fun ancestor_pids :: "proc_view \<Rightarrow> nat \<Rightarrow> nat \<Rightarrow> nat \<Rightarrow> nat list" where
  "ancestor_pids pv stop_pid 0 current = []"
| "ancestor_pids pv stop_pid (Suc depth) current = (case read_ppid pv current of
     None \<Rightarrow> []
   | Some p \<Rightarrow> if p > 0 \<and> p \<noteq> current then
       p # (if p = stop_pid \<or> p = 1 then [] else ancestor_pids pv stop_pid depth p) else [])"

definition collect_ancestor_binaries :: "proc_view \<Rightarrow> nat \<Rightarrow> nat \<Rightarrow> string list" where
  "collect_ancestor_binaries pv pid stop_pid =
     concat (map (\<lambda>p. case pv_exe pv p of Inr path \<Rightarrow> [path] | Inl _ \<Rightarrow> []) (ancestor_pids pv stop_pid MAX_DEPTH pid))"

definition cmdline_absolute_paths :: "proc_view \<Rightarrow> nat \<Rightarrow> string list" where
  "cmdline_absolute_paths pv pid = (case pv_cmdline pv pid of
     None \<Rightarrow> []
   | Some cmdline \<Rightarrow> map utf8_lossy (filter (\<lambda>arg. arg \<noteq> [] \<and> hd arg = CHR ''/'') (split_char NUL cmdline)))"

definition push_new :: "string list \<Rightarrow> string \<Rightarrow> string list \<Rightarrow> string list" where
  "push_new exclude p paths = (if p \<notin> set exclude \<and> p \<notin> set paths then paths @ [p] else paths)"

definition collect_cmdline_paths :: "proc_view \<Rightarrow> nat \<Rightarrow> nat \<Rightarrow> string list \<Rightarrow> string list" where
  "collect_cmdline_paths pv pid stop_pid exclude =
     fold (push_new exclude) (concat (map (cmdline_absolute_paths pv) (pid # ancestor_pids pv stop_pid MAX_DEPTH pid))) []"

section \<open>Sockets\<close>

text \<open>One line of a table: skipped, a malformed inode, or the inode.\<close>

definition tcp_line :: "nat \<Rightarrow> string \<Rightarrow> (string, nat) result option" where
  "tcp_line peer_port line = (let fields = split_whitespace line in
     if length fields < 10 then None
     else (case rsplit_once CHR '':'' (fields ! 1) of
         None \<Rightarrow> None
       | Some (_, port_hex) \<Rightarrow>
           let local_port = (case parse_uint 16 16 port_hex of Some p \<Rightarrow> p | None \<Rightarrow> 0) in
           if fields ! 3 \<noteq> ''01'' then None
           else if local_port = peer_port then
             (case parse_uint 10 64 (fields ! 9) of
                None \<Rightarrow> Some (Inl (''Failed to parse inode from '' @ fields ! 9))
              | Some inode \<Rightarrow> if inode = 0 then None else Some (Inr inode))
           else None))"

fun first_match :: "('a \<Rightarrow> 'b option) \<Rightarrow> 'a list \<Rightarrow> 'b option" where
  "first_match f [] = None"
| "first_match f (x # xs) = (case f x of Some y \<Rightarrow> Some y | None \<Rightarrow> first_match f xs)"

definition parse_proc_net_tcp :: "proc_view \<Rightarrow> nat \<Rightarrow> nat \<Rightarrow> (string, nat) result" where
  "parse_proc_net_tcp pv pid peer_port =
     (case first_match (\<lambda>suffix. case pv_net pv pid suffix of None \<Rightarrow> None
         | Some content \<Rightarrow> first_match (tcp_line peer_port) (drop 1 (lines content))) [''tcp'', ''tcp6''] of
        Some r \<Rightarrow> r
      | None \<Rightarrow> Inl (''No ESTABLISHED TCP connection found for port '' @ show_nat peer_port @ '' in /proc/'' @ show_nat pid
          @ ''/net/tcp{,6}''))"

definition child_pids :: "proc_view \<Rightarrow> nat \<Rightarrow> nat list" where
  "child_pids pv pid = concat (map (\<lambda>children_str. List.map_filter (parse_uint 10 32) (split_whitespace children_str)) (pv_children pv pid))"

text \<open>The breadth-first walk; not returning is the value \<open>None\<close>. \<open>i\<close> is the index of the next process.\<close>

partial_function (option) descendant_walk :: "proc_view \<Rightarrow> nat list \<Rightarrow> nat \<Rightarrow> nat list option" where
  "descendant_walk pv pids i =
     (if i < length pids then descendant_walk pv (pids @ child_pids pv (pids ! i)) (i + 1) else Some pids)"

definition collect_descendant_pids :: "proc_view \<Rightarrow> nat \<Rightarrow> nat list option" where
  "collect_descendant_pids pv root_pid = descendant_walk pv [root_pid] 0"

definition check_pid_fds :: "proc_view \<Rightarrow> string \<Rightarrow> nat \<Rightarrow> nat option" where
  "check_pid_fds pv target pid = (case pv_fds pv pid of None \<Rightarrow> None
     | Some links \<Rightarrow> if list_ex (\<lambda>link. utf8_lossy link = target) links then Some pid else None)"

definition find_pid_by_socket_inode :: "proc_view \<Rightarrow> nat \<Rightarrow> nat \<Rightarrow> (string, nat) result option" where
  "find_pid_by_socket_inode pv inode entrypoint_pid =
     (let target = ''socket:['' @ show_nat inode @ '']'' in
      case collect_descendant_pids pv entrypoint_pid of None \<Rightarrow> None
      | Some descendants \<Rightarrow> Some (case first_match (check_pid_fds pv target) descendants of
          Some found \<Rightarrow> Inr found
        | None \<Rightarrow> (case first_match (\<lambda>name. case parse_uint 10 32 (utf8_lossy name) of None \<Rightarrow> None
             | Some pid \<Rightarrow> if pid \<in> set descendants then None else check_pid_fds pv target pid) (pv_entries pv) of
            Some found \<Rightarrow> Inr found
          | None \<Rightarrow> Inl (''No process found owning socket inode '' @ show_nat inode @ '' (scanned ''
              @ show_nat (length descendants) @ '' descendants of entrypoint PID '' @ show_nat entrypoint_pid
              @ ''). Hint: the container may need --cap-add=SYS_PTRACE to read /proc/<pid>/fd/ for processes running as a different user.''))))"

definition resolve_tcp_peer_identity :: "proc_view \<Rightarrow> nat \<Rightarrow> nat \<Rightarrow> (string, string \<times> nat) result option" where
  "resolve_tcp_peer_identity pv entrypoint_pid peer_port = (case parse_proc_net_tcp pv entrypoint_pid peer_port of
     Inl e \<Rightarrow> Some (Inl e)
   | Inr inode \<Rightarrow> map_option (\<lambda>r. and_then r (\<lambda>pid. and_then (pv_exe pv pid) (\<lambda>path. Inr (path, pid))))
       (find_pid_by_socket_inode pv inode entrypoint_pid))"

section \<open>The walk ends and finds the descendants\<close>

definition child_rel :: "proc_view \<Rightarrow> (nat \<times> nat) set" where
  "child_rel pv = {(p, c). c \<in> set (child_pids pv p)}"

lemma walk_step_decreases:
  assumes "i < length pids"
  shows "(mset (drop (Suc i) (pids @ child_pids pv (pids ! i))), mset (drop i pids)) \<in> mult ((child_rel pv)\<inverse>)"
proof -
  have "drop i pids = pids ! i # drop (Suc i) pids" using assms by (simp add: Cons_nth_drop_Suc)
  then have "mset (drop i pids) = mset (drop (Suc i) pids) + {#pids ! i#}" by simp
  moreover have "drop (Suc i) (pids @ child_pids pv (pids ! i)) = drop (Suc i) pids @ child_pids pv (pids ! i)"
    using assms by simp
  moreover have "(mset (drop (Suc i) pids) + mset (child_pids pv (pids ! i)), mset (drop (Suc i) pids) + {#pids ! i#})
      \<in> mult ((child_rel pv)\<inverse>)"
    by (rule one_step_implies_mult) (auto simp: child_rel_def)
  ultimately show ?thesis by simp
qed

lemma descendant_walk_result:
  assumes "wf ((child_rel pv)\<inverse>)"
  shows "\<exists>res. descendant_walk pv pids i = Some res \<and> set res = set (take i pids) \<union> (child_rel pv)\<^sup>* `` set (drop i pids)"
proof (induction "mset (drop i pids)" arbitrary: pids i rule: wf_induct_rule [OF wf_mult [OF assms]])
  case less: 1
  show ?case
  proof (cases "i < length pids")
    case False
    then show ?thesis by (simp add: descendant_walk.simps)
  next
    case True
    let ?x = "pids ! i" and ?pids = "pids @ child_pids pv (pids ! i)"
    obtain res where r: "descendant_walk pv ?pids (Suc i) = Some res"
      "set res = set (take (Suc i) ?pids) \<union> (child_rel pv)\<^sup>* `` set (drop (Suc i) ?pids)"
      using less [OF walk_step_decreases [OF True]] by blast
    have "set (take (Suc i) ?pids) = insert ?x (set (take i pids))" using True by (simp add: take_Suc_conv_app_nth)
    moreover have "set (drop (Suc i) ?pids) = set (drop (Suc i) pids) \<union> child_rel pv `` {?x}"
      using True by (auto simp: child_rel_def)
    moreover have "set (drop i pids) = insert ?x (set (drop (Suc i) pids))"
      using True by (simp add: Cons_nth_drop_Suc [symmetric])
    moreover have "(child_rel pv)\<^sup>* `` {?x} = insert ?x ((child_rel pv)\<^sup>* `` (child_rel pv `` {?x}))"
      by (auto elim: converse_rtranclE intro: converse_rtrancl_into_rtrancl)
    ultimately have "set res = set (take i pids) \<union> (child_rel pv)\<^sup>* `` set (drop i pids)"
      unfolding r(2) by auto
    moreover have "descendant_walk pv pids i = Some res" using True r(1) by (subst descendant_walk.simps) simp
    ultimately show ?thesis by blast
  qed
qed

text \<open>C27: over a finite process tree without cycles the walk of the children files ends, and it visits exactly the
  process and its descendants.\<close>

theorem collect_descendants_terminates:
  assumes "finite (child_rel pv)" "acyclic (child_rel pv)"
  shows "\<exists>pids. collect_descendant_pids pv root_pid = Some pids \<and> set pids = (child_rel pv)\<^sup>* `` {root_pid}"
  using descendant_walk_result [OF finite_acyclic_wf_converse [OF assms], of "[root_pid]" 0]
  by (simp add: collect_descendant_pids_def)

definition example_proc :: proc_view where
  "example_proc = \<lparr>pv_exe = (\<lambda>_. Inl ''none''), pv_status = (\<lambda>_. None), pv_cmdline = (\<lambda>_. None), pv_net = (\<lambda>_ _. None),
     pv_children = (\<lambda>p. if p = 1 then [''2 3''] else []), pv_fds = (\<lambda>_. None), pv_entries = []\<rparr>"

lemma example_child_rel: "child_rel example_proc = {(1, 2), (1, 3)}"
proof -
  have "split_whitespace ''2 3'' = [''2'', ''3'']" by code_simp
  then have "child_pids example_proc p = (if p = 1 then [2, 3] else [])" for p
    by (simp add: child_pids_def example_proc_def List.map_filter_def parse_uint_def digit_value_def is_ascii_digit_def)
  then show ?thesis by (auto simp: child_rel_def)
qed

theorem collect_descendants_terminates_witness:
  "\<exists>pids. collect_descendant_pids example_proc 1 = Some pids \<and> set pids = {(1, 2), (1, 3)}\<^sup>* `` {1}"
proof -
  have "acyclic {(1 :: nat, 2 :: nat), (1, 3)}" by (rule acyclic_subset [OF wf_acyclic [OF wf_less_than]]) auto
  then show ?thesis using collect_descendants_terminates [of example_proc 1] by (simp add: example_child_rel)
qed

section \<open>Attribution\<close>

text \<open>A row is read through its local address, state and inode only, and the first matching row decides. Two
  established sockets with one local port and different remote addresses are not told apart.\<close>

lemma tcp_line_ignores_remote:
  assumes "length (split_whitespace l) = length (split_whitespace l')"
    "\<And>k. k \<in> {1, 3, 9} \<Longrightarrow> split_whitespace l ! k = split_whitespace l' ! k"
  shows "tcp_line p l = tcp_line p l'"
proof -
  have "split_whitespace l ! 1 = split_whitespace l' ! 1" "split_whitespace l ! 3 = split_whitespace l' ! 3"
    "split_whitespace l ! 9 = split_whitespace l' ! 9" using assms(2) by blast+
  then show ?thesis using assms(1) unfolding tcp_line_def Let_def by (simp only:)
qed

theorem attribution_ignores_remote_address:
  assumes "pv_net pv pid ''tcp'' = Some content" "lines content = header # row # rows" "tcp_line peer_port row = Some (Inr inode)"
  shows "parse_proc_net_tcp pv pid peer_port = Inr inode"
  using assms by (simp add: parse_proc_net_tcp_def)

section \<open>Paths\<close>

lemma ancestor_pids_bound: "length (ancestor_pids pv stop_pid depth current) \<le> depth"
  by (induction pv stop_pid depth current rule: ancestor_pids.induct) (auto split: option.splits)

lemma fold_push_new:
  "distinct acc \<Longrightarrow> set acc \<inter> set exclude = {} \<Longrightarrow>
     distinct (fold (push_new exclude) ps acc) \<and> set (fold (push_new exclude) ps acc) = set acc \<union> (set ps - set exclude)"
  by (induction ps arbitrary: acc) (auto simp: push_new_def)

text \<open>At most 64 ancestors are collected, and the command line paths of a process and its ancestors are reported
  once each and without the excluded ones.\<close>

theorem collected_paths_bounded_and_distinct:
  "length (collect_ancestor_binaries pv pid stop_pid) \<le> 64
   \<and> distinct (collect_cmdline_paths pv pid stop_pid exclude)
   \<and> set (collect_cmdline_paths pv pid stop_pid exclude) =
       (\<Union>p \<in> insert pid (set (ancestor_pids pv stop_pid MAX_DEPTH pid)). set (cmdline_absolute_paths pv p)) - set exclude"
proof -
  have "length (concat (map (\<lambda>p. case pv_exe pv p of Inr path \<Rightarrow> [path] | Inl _ \<Rightarrow> []) ps)) \<le> length ps" for ps
    by (induction ps) (auto split: sum.splits)
  then have "length (collect_ancestor_binaries pv pid stop_pid) \<le> 64"
    using ancestor_pids_bound [of pv stop_pid MAX_DEPTH pid] order_trans
    unfolding collect_ancestor_binaries_def MAX_DEPTH_def by blast
  then show ?thesis
    using fold_push_new [of "[]" exclude "concat (map (cmdline_absolute_paths pv) (pid # ancestor_pids pv stop_pid MAX_DEPTH pid))"]
    by (simp add: collect_cmdline_paths_def)
qed

end
