(* ===== verification/Ssh_Sessions.thy ===== *)
theory Ssh_Sessions
  imports Gateway_Machine "HOL-Library.Multiset"
begin

text \<open>
  SSH sessions of the gateway: the session handlers of \<open>crates/openshell-server/src/grpc/sandbox.rs\<close> and the
  tunnel endpoint of \<open>crates/openshell-server/src/ssh_tunnel.rs\<close>, with the authorisation of a tunnel, its connection
  limits and the reaper. Time, tokens and names are arguments; the relay of the tunnel itself is I/O.
\<close>

section \<open>Sessions\<close>

record ssh_session =
  ss_id :: string
  ss_sandbox_id :: string
  ss_token :: string
  ss_created_at_ms :: int
  ss_revoked :: bool
  ss_name :: string
  ss_expires_at_ms :: int

definition session_type :: "(ssh_session \<Rightarrow> 'b) \<Rightarrow> ('b \<Rightarrow> ssh_session option) \<Rightarrow> (ssh_session, 'b) message_type" where
  "session_type enc dec = \<lparr>mt_object_type = ''ssh_session'', mt_object_id = ss_id, mt_object_name = ss_name,
     mt_encode = enc, mt_decode = dec\<rparr>"

record gateway_config =
  gc_ssh_gateway_host :: string
  gc_ssh_gateway_port :: u16
  gc_bind_ip :: string
  gc_bind_port :: u16
  gc_tls :: bool
  gc_ssh_connect_path :: string
  gc_ssh_session_ttl_secs :: nat
  gc_sandbox_namespace :: string
  gc_sandbox_ssh_port :: u16

definition resolve_gateway :: "gateway_config \<Rightarrow> string \<times> u16" where
  "resolve_gateway config =
     (if gc_ssh_gateway_host config = [] then gc_bind_ip config else gc_ssh_gateway_host config,
      if gc_ssh_gateway_port config = 0 then gc_bind_port config else gc_ssh_gateway_port config)"

record create_ssh_session_response =
  cs_sandbox_id :: string
  cs_token :: string
  cs_gateway_host :: string
  cs_gateway_port :: u16
  cs_gateway_scheme :: string
  cs_connect_path :: string
  cs_host_key_fingerprint :: string
  cs_expires_at_ms :: int

text \<open>The expiry is computed on signed 64-bit integers, from the unsigned configured lifetime.\<close>

definition session_expiry :: "nat \<Rightarrow> int \<Rightarrow> int" where
  "session_expiry ttl_secs now_ms =
     (if ttl_secs > 0 then sint (word_of_int now_ms + (of_nat ttl_secs * 1000) :: 64 word) else 0)"

definition handle_create_ssh_session ::
  "('s sandbox, 'b) message_type \<Rightarrow> (ssh_session, 'b) message_type \<Rightarrow> gateway_config \<Rightarrow> string \<Rightarrow> string \<Rightarrow> int \<Rightarrow>
     string \<Rightarrow> ('b, create_ssh_session_response) handler" where
  "handle_create_ssh_session sbt sst config token nm now_ms sandbox_id =
     (if sandbox_id = [] then fail (invalid_argument ''sandbox_id is required'')
      else gbind (reading (\<lambda>s. case get_message sbt sandbox_id s of
            Inl e \<Rightarrow> Inl (internal (''fetch sandbox failed: '' @ e))
          | Inr None \<Rightarrow> Inl (not_found ''sandbox not found'')
          | Inr (Some sb) \<Rightarrow> Inr sb)) (\<lambda>sandbox.
        if sb_phase sandbox \<noteq> SANDBOX_PHASE_READY then fail (failed_precondition ''sandbox is not ready'')
        else
          let expires = session_expiry (gc_ssh_session_ttl_secs config) now_ms;
              session = \<lparr>ss_id = token, ss_sandbox_id = sandbox_id, ss_token = token, ss_created_at_ms = now_ms,
                ss_revoked = False, ss_name = nm, ss_expires_at_ms = expires\<rparr>
          in gbind (writing (\<lambda>e. internal (''persist ssh session failed: '' @ e)) (put_message sst now_ms session)) (\<lambda>_.
            case resolve_gateway config of (host, port) \<Rightarrow>
            ret \<lparr>cs_sandbox_id = sandbox_id, cs_token = token, cs_gateway_host = host, cs_gateway_port = port,
              cs_gateway_scheme = (if gc_tls config then ''https'' else ''http''),
              cs_connect_path = gc_ssh_connect_path config, cs_host_key_fingerprint = [], cs_expires_at_ms = expires\<rparr>)))"

definition handle_revoke_ssh_session :: "(ssh_session, 'b) message_type \<Rightarrow> int \<Rightarrow> string \<Rightarrow> ('b, bool) handler" where
  "handle_revoke_ssh_session sst now_ms token =
     (if token = [] then fail (invalid_argument ''token is required'')
      else gbind (reading (\<lambda>s. case get_message sst token s of
            Inl e \<Rightarrow> Inl (internal (''fetch ssh session failed: '' @ e)) | Inr m \<Rightarrow> Inr m)) (\<lambda>found.
        case found of
          None \<Rightarrow> ret False
        | Some session \<Rightarrow>
            gbind (writing (\<lambda>e. internal (''persist ssh session failed: '' @ e))
                (put_message sst now_ms (session\<lparr>ss_revoked := True\<rparr>))) (\<lambda>_. ret True)))"

section \<open>Authorisation of a tunnel\<close>

definition redact_token :: "string \<Rightarrow> string" where
  "redact_token token = (if length token \<le> 4 then ''****'' else ''****'' @ drop (length token - 4) token)"

datatype http_status = HttpOk | BadRequest | HttpUnauthorized | HttpNotFound | MethodNotAllowed | PreconditionFailed
  | TooManyRequests | InternalServerError | BadGateway

text \<open>A header value: absent, not visible ASCII, or its text.\<close>

datatype header_field = Absent | NotText | HeaderText string

definition header_value0 :: "header_field \<Rightarrow> (http_status, string) result" where
  "header_value0 h = (case h of Absent \<Rightarrow> Inl HttpUnauthorized | NotText \<Rightarrow> Inl BadRequest
     | HeaderText v \<Rightarrow> if trim v = [] then Inl BadRequest else Inr (trim v))"

datatype connect_target = TargetIp string u16 | TargetHost string u16

definition connect_target_of ::
  "(string \<Rightarrow> (string, string option) result) \<Rightarrow> gateway_config \<Rightarrow> 's sandbox \<Rightarrow> (http_status, connect_target) result" where
  "connect_target_of agent_pod_ip config sandbox = (case map_option su_agent_pod (sb_status sandbox) of
     Some pod \<Rightarrow> if pod \<noteq> [] then (case agent_pod_ip pod of
         Inr (Some ip) \<Rightarrow> Inr (TargetIp ip (gc_sandbox_ssh_port config))
       | Inr None \<Rightarrow> Inl BadGateway | Inl _ \<Rightarrow> Inl BadGateway)
       else if sb_name sandbox \<noteq> []
       then Inr (TargetHost (sb_name sandbox @ ''.'' @ gc_sandbox_namespace config @ ''.svc.cluster.local'') (gc_sandbox_ssh_port config))
       else Inl PreconditionFailed
   | None \<Rightarrow> if sb_name sandbox \<noteq> []
       then Inr (TargetHost (sb_name sandbox @ ''.'' @ gc_sandbox_namespace config @ ''.svc.cluster.local'') (gc_sandbox_ssh_port config))
       else Inl PreconditionFailed)"

text \<open>Everything before the connection limits.\<close>

definition authorise_tunnel ::
  "('s sandbox, 'b) message_type \<Rightarrow> (ssh_session, 'b) message_type \<Rightarrow> (string \<Rightarrow> (string, string option) result) \<Rightarrow>
     gateway_config \<Rightarrow> int \<Rightarrow> string \<Rightarrow> header_field \<Rightarrow> header_field \<Rightarrow> 'b store \<Rightarrow>
     (http_status, string \<times> string \<times> connect_target) result" where
  "authorise_tunnel sbt sst agent_pod_ip config now_ms meth sandbox_header token_header s =
     (if meth \<noteq> ''CONNECT'' then Inl MethodNotAllowed
      else and_then (header_value0 sandbox_header) (\<lambda>sandbox_id.
        and_then (header_value0 token_header) (\<lambda>token.
        case get_message sst token s of
          Inl _ \<Rightarrow> Inl InternalServerError
        | Inr None \<Rightarrow> Inl HttpUnauthorized
        | Inr (Some session) \<Rightarrow>
            if ss_revoked session \<or> ss_sandbox_id session \<noteq> sandbox_id then Inl HttpUnauthorized
            else if ss_expires_at_ms session > 0 \<and> now_ms > ss_expires_at_ms session then Inl HttpUnauthorized
            else (case get_message sbt sandbox_id s of
                Inl _ \<Rightarrow> Inl InternalServerError
              | Inr None \<Rightarrow> Inl HttpNotFound
              | Inr (Some sandbox) \<Rightarrow>
                  if sb_phase sandbox \<noteq> SANDBOX_PHASE_READY then Inl PreconditionFailed
                  else and_then (connect_target_of agent_pod_ip config sandbox) (\<lambda>target. Inr (sandbox_id, token, target))))))"

section \<open>Connection limits\<close>

definition MAX_CONNECTIONS_PER_TOKEN :: nat where "MAX_CONNECTIONS_PER_TOKEN = 3"
definition MAX_CONNECTIONS_PER_SANDBOX :: nat where "MAX_CONNECTIONS_PER_SANDBOX = 20"

type_synonym counts = "string \<rightharpoonup> nat"

definition count_at :: "counts \<Rightarrow> string \<Rightarrow> nat" where
  "count_at counts key = (case counts key of None \<Rightarrow> 0 | Some n \<Rightarrow> n)"

definition reserve :: "nat \<Rightarrow> string \<Rightarrow> counts \<Rightarrow> bool \<times> counts" where
  "reserve limit key counts = (let n = count_at counts key; counts' = counts(key \<mapsto> n) in
     if n \<ge> limit then (False, counts') else (True, counts'(key \<mapsto> n + 1)))"

definition decrement_connection_count :: "string \<Rightarrow> counts \<Rightarrow> counts" where
  "decrement_connection_count key counts = (case counts key of
     None \<Rightarrow> counts
   | Some n \<Rightarrow> if n - 1 = 0 then counts(key := None) else counts(key \<mapsto> n - 1))"

text \<open>The whole endpoint: the response, the target of the spawned tunnel, and the counters.\<close>

definition ssh_connect ::
  "('s sandbox, 'b) message_type \<Rightarrow> (ssh_session, 'b) message_type \<Rightarrow> (string \<Rightarrow> (string, string option) result) \<Rightarrow>
     gateway_config \<Rightarrow> int \<Rightarrow> string \<Rightarrow> header_field \<Rightarrow> header_field \<Rightarrow> 'b store \<Rightarrow> counts \<times> counts \<Rightarrow>
     (http_status \<times> (string \<times> string \<times> connect_target) option) \<times> counts \<times> counts" where
  "ssh_connect sbt sst agent_pod_ip config now_ms meth sandbox_header token_header s counts =
     (case counts of (by_token, by_sandbox) \<Rightarrow>
      case authorise_tunnel sbt sst agent_pod_ip config now_ms meth sandbox_header token_header s of
        Inl st \<Rightarrow> ((st, None), by_token, by_sandbox)
      | Inr (sandbox_id, token, target) \<Rightarrow>
          (case reserve MAX_CONNECTIONS_PER_TOKEN token by_token of
             (False, by_token1) \<Rightarrow> ((TooManyRequests, None), by_token1, by_sandbox)
           | (True, by_token1) \<Rightarrow>
               (case reserve MAX_CONNECTIONS_PER_SANDBOX sandbox_id by_sandbox of
                  (False, by_sandbox1) \<Rightarrow>
                    ((TooManyRequests, None), decrement_connection_count token by_token1, by_sandbox1)
                | (True, by_sandbox1) \<Rightarrow> ((HttpOk, Some (sandbox_id, token, target)), by_token1, by_sandbox1))))"

section \<open>The reaper\<close>

definition session_dead :: "int \<Rightarrow> ssh_session \<Rightarrow> bool" where
  "session_dead now_ms session \<longleftrightarrow> (ss_expires_at_ms session > 0 \<and> now_ms > ss_expires_at_ms session) \<or> ss_revoked session"

definition reap_record :: "(ssh_session, 'b) message_type \<Rightarrow> int \<Rightarrow> 'b object_record \<Rightarrow> 'b store \<Rightarrow> 'b store" where
  "reap_record sst now_ms record0 s = (case mt_decode sst (ob_payload record0) of
     None \<Rightarrow> s
   | Some session \<Rightarrow> if session_dead now_ms session then snd (db_delete (mt_object_type sst) (ss_id session) s) else s)"

definition reap_expired_sessions :: "(ssh_session, 'b) message_type \<Rightarrow> int \<Rightarrow> 'b store \<Rightarrow> 'b store" where
  "reap_expired_sessions sst now_ms s = fold (reap_record sst now_ms) (db_list (mt_object_type sst) 1000 0 s) s"

section \<open>The counters over interleaved connections\<close>

text \<open>A connection attempt holds its token, then its sandbox as well; a tunnel that ends gives back the token first.\<close>

datatype tunnel = Reserved string string | Open string string | Closing string

record tunnels =
  tn_by_token :: counts
  tn_by_sandbox :: counts
  tn_live :: "tunnel multiset"

inductive tunnel_step :: "tunnels \<Rightarrow> tunnels \<Rightarrow> bool" where
  take_token: "reserve MAX_CONNECTIONS_PER_TOKEN t (tn_by_token s) = (True, c) \<Longrightarrow>
    tunnel_step s (s\<lparr>tn_by_token := c, tn_live := add_mset (Reserved t sb) (tn_live s)\<rparr>)"
| refuse_token: "reserve MAX_CONNECTIONS_PER_TOKEN t (tn_by_token s) = (False, c) \<Longrightarrow> tunnel_step s (s\<lparr>tn_by_token := c\<rparr>)"
| take_sandbox: "Reserved t sb \<in># tn_live s \<Longrightarrow> reserve MAX_CONNECTIONS_PER_SANDBOX sb (tn_by_sandbox s) = (True, c) \<Longrightarrow>
    tunnel_step s (s\<lparr>tn_by_sandbox := c, tn_live := add_mset (Open t sb) (tn_live s - {#Reserved t sb#})\<rparr>)"
| refuse_sandbox: "Reserved t sb \<in># tn_live s \<Longrightarrow> reserve MAX_CONNECTIONS_PER_SANDBOX sb (tn_by_sandbox s) = (False, c) \<Longrightarrow>
    tunnel_step s (s\<lparr>tn_by_sandbox := c, tn_by_token := decrement_connection_count t (tn_by_token s),
      tn_live := tn_live s - {#Reserved t sb#}\<rparr>)"
| give_token: "Open t sb \<in># tn_live s \<Longrightarrow>
    tunnel_step s (s\<lparr>tn_by_token := decrement_connection_count t (tn_by_token s),
      tn_live := add_mset (Closing sb) (tn_live s - {#Open t sb#})\<rparr>)"
| give_sandbox: "Closing sb \<in># tn_live s \<Longrightarrow>
    tunnel_step s (s\<lparr>tn_by_sandbox := decrement_connection_count sb (tn_by_sandbox s), tn_live := tn_live s - {#Closing sb#}\<rparr>)"

fun holds_token :: "string \<Rightarrow> tunnel \<Rightarrow> bool" where
  "holds_token t (Reserved t' _) = (t' = t)"
| "holds_token t (Open t' _) = (t' = t)"
| "holds_token t (Closing _) = False"

fun holds_sandbox :: "string \<Rightarrow> tunnel \<Rightarrow> bool" where
  "holds_sandbox sb (Reserved _ _) = False"
| "holds_sandbox sb (Open _ sb') = (sb' = sb)"
| "holds_sandbox sb (Closing sb') = (sb' = sb)"

text \<open>A counter table counts what holds its keys, within the limit and without entries for zero.\<close>

definition counts_exactly :: "nat \<Rightarrow> (string \<Rightarrow> tunnel \<Rightarrow> bool) \<Rightarrow> tunnel multiset \<Rightarrow> counts \<Rightarrow> bool" where
  "counts_exactly limit holds live counts \<longleftrightarrow> (\<forall>k. count_at counts k = size (filter_mset (holds k) live)
     \<and> count_at counts k \<le> limit \<and> counts k \<noteq> Some 0)"

definition tunnels_ok :: "tunnels \<Rightarrow> bool" where
  "tunnels_ok s \<longleftrightarrow> counts_exactly MAX_CONNECTIONS_PER_TOKEN holds_token (tn_live s) (tn_by_token s)
     \<and> counts_exactly MAX_CONNECTIONS_PER_SANDBOX holds_sandbox (tn_live s) (tn_by_sandbox s)"

lemma reserve_True:
  assumes "reserve limit key counts = (True, c)" "counts_exactly limit holds live counts"
    "\<And>k. size (filter_mset (holds k) live') = size (filter_mset (holds k) live) + (if k = key then 1 else 0)"
  shows "counts_exactly limit holds live' c"
  using assms by (auto simp: reserve_def counts_exactly_def count_at_def Let_def split: if_splits)

lemma reserve_False:
  assumes "reserve limit key counts = (False, c)" "counts_exactly limit holds live counts" "0 < limit"
  shows "c = counts"
proof -
  have "count_at counts key \<le> limit" using assms(2) unfolding counts_exactly_def by blast
  then have "count_at counts key = limit" "c = counts(key \<mapsto> limit)"
    using assms(1) by (auto simp: reserve_def Let_def split: if_splits)
  then show ?thesis using assms(3) by (auto simp: count_at_def fun_eq_iff split: option.splits)
qed

lemma decrement_counts:
  assumes "counts_exactly limit holds live counts"
    "\<And>k. size (filter_mset (holds k) live) = size (filter_mset (holds k) live') + (if k = key then 1 else 0)"
  shows "counts_exactly limit holds live' (decrement_connection_count key counts)"
proof -
  obtain n where n: "counts key = Some n" "0 < n"
    using assms(1) assms(2) [of key] unfolding counts_exactly_def count_at_def
    by (metis (mono_tags, lifting) add_gr_0 less_one option.exhaust option.simps(4) option.simps(5) not_gr_zero)
  show ?thesis unfolding counts_exactly_def
  proof
    fix k
    show "count_at (decrement_connection_count key counts) k = size (filter_mset (holds k) live')
      \<and> count_at (decrement_connection_count key counts) k \<le> limit \<and> decrement_connection_count key counts k \<noteq> Some 0"
      using n assms(1) assms(2) [of k]
      by (cases "k = key") (auto simp: decrement_connection_count_def counts_exactly_def count_at_def dest: spec [of _ k])
  qed
qed

lemma counts_same:
  assumes "counts_exactly limit holds live counts" "\<And>k. size (filter_mset (holds k) live') = size (filter_mset (holds k) live)"
  shows "counts_exactly limit holds live' counts"
  using assms unfolding counts_exactly_def by metis

lemma tunnel_step_ok:
  assumes "tunnel_step s s'" "tunnels_ok s"
  shows "tunnels_ok s'"
proof -
  have tok: "counts_exactly MAX_CONNECTIONS_PER_TOKEN holds_token (tn_live s) (tn_by_token s)"
    and sbx: "counts_exactly MAX_CONNECTIONS_PER_SANDBOX holds_sandbox (tn_live s) (tn_by_sandbox s)"
    using assms(2) by (simp_all add: tunnels_ok_def)
  have lim: "0 < MAX_CONNECTIONS_PER_TOKEN" "0 < MAX_CONNECTIONS_PER_SANDBOX"
    by (simp_all add: MAX_CONNECTIONS_PER_TOKEN_def MAX_CONNECTIONS_PER_SANDBOX_def)
  show ?thesis using assms(1)
  proof cases
    case (take_token t c sb)
    then show ?thesis using reserve_True [OF take_token(2) tok] counts_same [OF sbx] by (simp add: tunnels_ok_def)
  next
    case (refuse_token t c)
    then show ?thesis using reserve_False [OF refuse_token(2) tok lim(1)] assms(2) by (simp add: tunnels_ok_def)
  next
    case (take_sandbox t sb c)
    then obtain M where M: "tn_live s = add_mset (Reserved t sb) M" by (metis multi_member_split)
    show ?thesis using take_sandbox(1) M reserve_True [OF take_sandbox(3) sbx] counts_same [OF tok] by (simp add: tunnels_ok_def)
  next
    case (refuse_sandbox t sb c)
    then obtain M where M: "tn_live s = add_mset (Reserved t sb) M" by (metis multi_member_split)
    have "c = tn_by_sandbox s" by (rule reserve_False [OF refuse_sandbox(3) sbx lim(2)])
    then show ?thesis using refuse_sandbox(1) M decrement_counts [OF tok] counts_same [OF sbx] by (simp add: tunnels_ok_def)
  next
    case (give_token t sb)
    then obtain M where M: "tn_live s = add_mset (Open t sb) M" by (metis multi_member_split)
    show ?thesis using give_token(1) M decrement_counts [OF tok] counts_same [OF sbx] by (simp add: tunnels_ok_def)
  next
    case (give_sandbox sb)
    then obtain M where M: "tn_live s = add_mset (Closing sb) M" by (metis multi_member_split)
    show ?thesis using give_sandbox(1) M decrement_counts [OF sbx] counts_same [OF tok] by (simp add: tunnels_ok_def)
  qed
qed

definition no_tunnels :: tunnels where
  "no_tunnels = \<lparr>tn_by_token = Map.empty, tn_by_sandbox = Map.empty, tn_live = {#}\<rparr>"

lemma no_tunnels_ok: "tunnels_ok no_tunnels"
  by (simp add: tunnels_ok_def counts_exactly_def count_at_def no_tunnels_def)

text \<open>C30: however connection attempts and ending tunnels interleave, each counter is exactly the number of
  connections that hold its token or its sandbox, at most three per token and twenty per sandbox, and a table keeps
  no entry once the last connection is gone.\<close>

theorem tunnel_counts_exact:
  assumes "tunnel_step\<^sup>*\<^sup>* no_tunnels s"
  shows "count_at (tn_by_token s) t = size (filter_mset (holds_token t) (tn_live s)) \<and> count_at (tn_by_token s) t \<le> 3
    \<and> count_at (tn_by_sandbox s) sb = size (filter_mset (holds_sandbox sb) (tn_live s)) \<and> count_at (tn_by_sandbox s) sb \<le> 20
    \<and> (tn_live s = {#} \<longrightarrow> tn_by_token s = Map.empty \<and> tn_by_sandbox s = Map.empty)"
proof -
  have ok: "tunnels_ok s" using assms by (induction rule: rtranclp_induct) (auto intro: tunnel_step_ok no_tunnels_ok)
  have "c = Map.empty" if "counts_exactly limit holds {#} c" for limit holds c
  proof
    fix k show "c k = None"
      using that [unfolded counts_exactly_def, rule_format, of k] by (cases "c k") (auto simp: count_at_def)
  qed
  note empty = this
  have t: "counts_exactly 3 holds_token (tn_live s) (tn_by_token s)" and b: "counts_exactly 20 holds_sandbox (tn_live s) (tn_by_sandbox s)"
    using ok by (simp_all add: tunnels_ok_def MAX_CONNECTIONS_PER_TOKEN_def MAX_CONNECTIONS_PER_SANDBOX_def)
  have "tn_live s = {#} \<longrightarrow> tn_by_token s = Map.empty \<and> tn_by_sandbox s = Map.empty"
  proof
    assume e: "tn_live s = {#}"
    show "tn_by_token s = Map.empty \<and> tn_by_sandbox s = Map.empty"
      using empty [OF t [unfolded e]] empty [OF b [unfolded e]] by simp
  qed
  then show ?thesis
    using t [unfolded counts_exactly_def, rule_format, of t] b [unfolded counts_exactly_def, rule_format, of sb] by simp
qed

theorem tunnel_counts_exact_witness:
  "\<exists>s. tunnel_step\<^sup>*\<^sup>* no_tunnels s \<and> tn_live s = {#Reserved ''t'' ''sb''#} \<and> count_at (tn_by_token s) ''t'' = 1"
proof -
  obtain c where "reserve MAX_CONNECTIONS_PER_TOKEN ''t'' (tn_by_token no_tunnels) = (True, c)"
    by (simp add: reserve_def no_tunnels_def count_at_def MAX_CONNECTIONS_PER_TOKEN_def)
  then have st: "tunnel_step\<^sup>*\<^sup>* no_tunnels (no_tunnels\<lparr>tn_by_token := c, tn_live := add_mset (Reserved ''t'' ''sb'') (tn_live no_tunnels)\<rparr>)"
    by (intro r_into_rtranclp tunnel_step.take_token)
  show ?thesis using st tunnel_counts_exact [OF st, of "''t''"] by (auto simp: no_tunnels_def)
qed

section \<open>Who may connect\<close>

lemma authorise_tunnel_ok:
  assumes "authorise_tunnel sbt sst agent_pod_ip config now_ms meth sandbox_header token_header s = Inr (sandbox_id, token, target)"
  obtains session sandbox where "header_value0 token_header = Inr token" "get_message sst token s = Inr (Some session)"
    "\<not> session_dead now_ms session" "ss_sandbox_id session = sandbox_id"
    "get_message sbt sandbox_id s = Inr (Some sandbox)" "sb_phase sandbox = SANDBOX_PHASE_READY"
proof -
  obtain sid tok where h: "meth = ''CONNECT''" "header_value0 sandbox_header = Inr sid" "header_value0 token_header = Inr tok"
    using assms by (auto simp: authorise_tunnel_def and_then_Inr split: if_splits)
  obtain session where m: "get_message sst tok s = Inr (Some session)"
    using assms h by (auto simp: authorise_tunnel_def split: sum.splits option.splits)
  have d: "\<not> session_dead now_ms session" "ss_sandbox_id session = sid"
    using assms h m by (auto simp: authorise_tunnel_def session_dead_def split: if_splits)
  obtain sandbox where b: "get_message sbt sid s = Inr (Some sandbox)"
    using assms h m d by (auto simp: authorise_tunnel_def session_dead_def split: sum.splits option.splits)
  have "sb_phase sandbox = SANDBOX_PHASE_READY" "sid = sandbox_id" "tok = token"
    using assms h m d b by (auto simp: authorise_tunnel_def session_dead_def and_then_Inr split: if_splits)
  then show thesis using that h m d b by blast
qed

lemma header_value0_err: "header_value0 h \<noteq> Inl HttpOk"
  by (simp add: header_value0_def split: header_field.split)

lemma connect_target_of_err: "connect_target_of agent_pod_ip config sandbox \<noteq> Inl HttpOk"
  by (simp add: connect_target_of_def split: option.split sum.split)

lemma authorise_tunnel_err: "authorise_tunnel sbt sst agent_pod_ip config now_ms meth sandbox_header token_header s \<noteq> Inl HttpOk"
  by (simp add: authorise_tunnel_def and_then_Inl header_value0_err connect_target_of_err split: option.split sum.split)


section \<open>Revocation\<close>

text \<open>
  What happens to the stored sessions: creation under a fresh token, revocation, the reaper, and writes of other
  object types. A token is a fresh random identifier, so a later creation does not reuse it.
\<close>

inductive session_step ::
  "('s sandbox, 'b) message_type \<Rightarrow> (ssh_session, 'b) message_type \<Rightarrow> string set \<Rightarrow> 'b store \<Rightarrow> 'b store \<Rightarrow> bool"
  for sbt sst used where
  create: "token \<notin> used \<Longrightarrow>
    handle_create_ssh_session sbt sst config token nm now_ms sandbox_id s = Some (r, s') \<Longrightarrow> session_step sbt sst used s s'"
| revoke: "handle_revoke_ssh_session sst now_ms token s = Some (r2, s') \<Longrightarrow> session_step sbt sst used s s'"
| reap: "session_step sbt sst used s (reap_expired_sessions sst now_ms s)"
| other_put: "t \<noteq> mt_object_type sst \<Longrightarrow> db_put now_ms t i nm p s = Inr s' \<Longrightarrow> session_step sbt sst used s s'"
| other_delete: "t \<noteq> mt_object_type sst \<Longrightarrow> db_delete t i s = (b, s') \<Longrightarrow> session_step sbt sst used s s'"

definition session_codec_ok :: "(ssh_session, 'b) message_type \<Rightarrow> bool" where
  "session_codec_ok sst \<longleftrightarrow> mt_object_id sst = ss_id \<and> (\<forall>m. mt_decode sst (mt_encode sst m) = Some m)"

text \<open>A session row is kept under the identifier of its session.\<close>

definition sessions_keyed :: "(ssh_session, 'b) message_type \<Rightarrow> 'b store \<Rightarrow> bool" where
  "sessions_keyed sst s \<longleftrightarrow> (\<forall>r m. r \<in> set (st_objects s) \<longrightarrow> ob_type r = mt_object_type sst \<longrightarrow>
     mt_decode sst (ob_payload r) = Some m \<longrightarrow> ss_id m = ob_id r)"

text \<open>No row of the token holds a session that is not revoked.\<close>

definition token_barred :: "(ssh_session, 'b) message_type \<Rightarrow> string \<Rightarrow> 'b store \<Rightarrow> bool" where
  "token_barred sst token s \<longleftrightarrow> (\<forall>r m. r \<in> set (st_objects s) \<longrightarrow> ob_type r = mt_object_type sst \<longrightarrow> ob_id r = token \<longrightarrow>
     mt_decode sst (ob_payload r) = Some m \<longrightarrow> ss_revoked m)"

lemma db_put_row:
  assumes "db_put now t i nm p s = Inr s'" "r \<in> set (st_objects s')"
  shows "r \<in> set (st_objects s) \<or> ob_type r = t \<and> ob_id r = i \<and> ob_payload r = p"
  using assms by (auto simp: db_put_def split: if_splits)

lemma reap_expired_rows: "set (st_objects (reap_expired_sessions sst now s)) \<subseteq> set (st_objects s)"
proof -
  have "set (st_objects (fold (reap_record sst now) rs s)) \<subseteq> set (st_objects s)" for rs
  proof (induction rs arbitrary: s)
    case (Cons r rs)
    have "set (st_objects (reap_record sst now r s)) \<subseteq> set (st_objects s)"
      by (auto simp: reap_record_def db_delete_def split: option.splits)
    then show ?case using Cons [of "reap_record sst now r s"] by auto
  qed simp
  then show ?thesis by (simp add: reap_expired_sessions_def)
qed

lemma create_cases:
  assumes "handle_create_ssh_session sbt sst config token nm now_ms sandbox_id s = Some (r, s')"
  obtains "s' = s" | m where "put_message sst now_ms m s = Inr s'" "ss_id m = token"
proof (cases "sandbox_id = []")
  case True
  then show thesis using assms that(1) by (simp add: handle_create_ssh_session_def fail_def)
next
  case ne: False
  consider e where "get_message sbt sandbox_id s = Inl e" | "get_message sbt sandbox_id s = Inr None"
    | sb where "get_message sbt sandbox_id s = Inr (Some sb)"
    by (metis option.exhaust sum.exhaust)
  then show thesis
  proof cases
    case (3 sb)
    show thesis
    proof (cases "sb_phase sb = SANDBOX_PHASE_READY")
      case True
      let ?m = "\<lparr>ss_id = token, ss_sandbox_id = sandbox_id, ss_token = token, ss_created_at_ms = now_ms,
        ss_revoked = False, ss_name = nm, ss_expires_at_ms = session_expiry (gc_ssh_session_ttl_secs config) now_ms\<rparr>"
      show thesis
        using assms ne 3 True that(1) that(2) [of ?m]
        by (cases "put_message sst now_ms ?m s")
          (simp_all add: handle_create_ssh_session_def gbind_def reading_def writing_def ret_def Let_def split_beta)
    qed (use assms ne 3 that(1) in \<open>simp add: handle_create_ssh_session_def gbind_def reading_def fail_def\<close>)
  qed (use assms ne that(1) in \<open>simp_all add: handle_create_ssh_session_def gbind_def reading_def\<close>)
qed

lemma revoke_cases:
  assumes "handle_revoke_ssh_session sst now_ms token s = Some (r, s')"
  obtains "s' = s" "r \<noteq> Inr True" | m where "get_message sst token s = Inr (Some m)" "put_message sst now_ms (m\<lparr>ss_revoked := True\<rparr>) s = Inr s'"
proof (cases "token = []")
  case True
  then show thesis using assms that(1) by (auto simp: handle_revoke_ssh_session_def fail_def)
next
  case ne: False
  consider e where "get_message sst token s = Inl e" | "get_message sst token s = Inr None"
    | m where "get_message sst token s = Inr (Some m)"
    by (metis option.exhaust sum.exhaust)
  then show thesis
  proof cases
    case (3 m)
    show thesis
    proof (cases "put_message sst now_ms (m\<lparr>ss_revoked := True\<rparr>) s")
      case (Inl e)
      then have "s' = s" "r \<noteq> Inr True"
        using assms ne 3 by (auto simp: handle_revoke_ssh_session_def gbind_def reading_def writing_def)
      then show thesis by (rule that(1))
    next
      case (Inr t)
      then have "put_message sst now_ms (m\<lparr>ss_revoked := True\<rparr>) s = Inr s'"
        using assms ne 3 by (simp add: handle_revoke_ssh_session_def gbind_def reading_def writing_def ret_def)
      with 3 show thesis by (rule that(2))
    qed
  qed (use assms ne that(1) in \<open>auto simp: handle_revoke_ssh_session_def gbind_def reading_def ret_def\<close>)
qed

lemma create_row:
  assumes "handle_create_ssh_session sbt sst config token nm now_ms sandbox_id s = Some (r, s')" "row \<in> set (st_objects s')"
  shows "row \<in> set (st_objects s) \<or> (\<exists>m. ob_type row = mt_object_type sst \<and> ob_id row = mt_object_id sst m
    \<and> ob_payload row = mt_encode sst m \<and> ss_id m = token)"
  using assms(1)
proof (cases rule: create_cases)
  case (2 m)
  then show ?thesis using db_put_row [OF 2(1) [unfolded put_message_def] assms(2)] by blast
qed (use assms(2) in simp)

lemma revoke_row:
  assumes "handle_revoke_ssh_session sst now_ms token s = Some (r, s')" "row \<in> set (st_objects s')"
  shows "row \<in> set (st_objects s) \<or> (\<exists>m. ob_type row = mt_object_type sst \<and> ob_id row = mt_object_id sst m
    \<and> ob_payload row = mt_encode sst m \<and> ss_revoked m)"
  using assms(1)
proof (cases rule: revoke_cases)
  case (2 m)
  have "ss_revoked (m\<lparr>ss_revoked := True\<rparr>)" by simp
  then show ?thesis using db_put_row [OF 2(2) [unfolded put_message_def] assms(2)] by blast
qed (use assms(2) in simp)

lemma session_step_row:
  assumes "session_step sbt sst used s s'" "row \<in> set (st_objects s')" "ob_type row = mt_object_type sst"
  shows "row \<in> set (st_objects s) \<or> (\<exists>m. ob_id row = mt_object_id sst m \<and> ob_payload row = mt_encode sst m
    \<and> (ss_revoked m \<or> ss_id m \<notin> used))"
  using assms(1)
proof cases
  case (create token config nm now_ms sandbox_id r)
  then show ?thesis using create_row [OF create(2) assms(2)] by blast
next
  case (revoke now_ms token r2)
  then show ?thesis using revoke_row [OF revoke assms(2)] by blast
next
  case (reap now_ms)
  then show ?thesis using reap_expired_rows assms(2) by blast
next
  case (other_put t now_ms i nm p)
  then show ?thesis using db_put_row [OF other_put(2) assms(2)] assms(3) by blast
next
  case (other_delete t i b)
  then show ?thesis using assms(2) by (auto simp: db_delete_def)
qed

lemma session_step_keyed:
  "session_codec_ok sst \<Longrightarrow> session_step sbt sst used s s' \<Longrightarrow> sessions_keyed sst s \<Longrightarrow> sessions_keyed sst s'"
  unfolding sessions_keyed_def session_codec_ok_def by (metis option.inject session_step_row)

lemma session_step_barred:
  "session_codec_ok sst \<Longrightarrow> session_step sbt sst used s s' \<Longrightarrow> token \<in> used \<Longrightarrow> token_barred sst token s \<Longrightarrow>
    token_barred sst token s'"
  unfolding token_barred_def session_codec_ok_def by (metis option.inject session_step_row)

lemma get_message_row:
  assumes "get_message mt i s = Inr (Some m)"
  obtains r where "r \<in> set (st_objects s)" "ob_type r = mt_object_type mt" "ob_id r = i" "mt_decode mt (ob_payload r) = Some m"
proof -
  obtain r where "db_get (mt_object_type mt) i s = Some r" "mt_decode mt (ob_payload r) = Some m"
    using assms by (auto simp: get_message_def decode_record_def split: option.splits)
  then show thesis using that [of r] by (auto simp: db_get_def find_Some_iff)
qed

lemma db_put_overwrites:
  assumes "db_put now t i nm p s = Inr s'" "list_ex (\<lambda>row. ob_id row = i) (st_objects s)"
    "r \<in> set (st_objects s')" "ob_type r = t" "ob_id r = i"
  shows "ob_payload r = p"
proof -
  let ?f = "\<lambda>row. if ob_id row = i \<and> ob_type row = t then row\<lparr>ob_payload := p, ob_updated_at_ms := now\<rparr> else row"
  have "r \<in> ?f ` set (st_objects s)" using assms(1-3) by (auto simp: db_put_def)
  then obtain row where "r = ?f row" by blast
  then show ?thesis using assms(4,5) by (cases "ob_id row = i \<and> ob_type row = t") auto
qed

lemma revoke_bars:
  assumes "session_codec_ok sst" "sessions_keyed sst s" "handle_revoke_ssh_session sst now_ms token s = Some (Inr True, s')"
  shows "token_barred sst token s'"
  using assms(3)
proof (cases rule: revoke_cases)
  case 1
  then show ?thesis by simp
next
  case m: (2 m)
  obtain r0 where r0: "r0 \<in> set (st_objects s)" "ob_type r0 = mt_object_type sst" "ob_id r0 = token"
    "mt_decode sst (ob_payload r0) = Some m"
    by (rule get_message_row [OF m(1)])
  then have "ss_id m = token" using assms(2) unfolding sessions_keyed_def by blast
  then have put: "db_put now_ms (mt_object_type sst) token (mt_object_name sst (m\<lparr>ss_revoked := True\<rparr>))
      (mt_encode sst (m\<lparr>ss_revoked := True\<rparr>)) s = Inr s'"
    using m(2) assms(1) by (simp add: put_message_def session_codec_ok_def)
  show ?thesis unfolding token_barred_def
  proof (intro allI impI)
    fix r m2
    assume r: "r \<in> set (st_objects s')" "ob_type r = mt_object_type sst" "ob_id r = token" "mt_decode sst (ob_payload r) = Some m2"
    have "list_ex (\<lambda>row. ob_id row = token) (st_objects s)" using r0 by (auto simp: list_ex_iff)
    then have "ob_payload r = mt_encode sst (m\<lparr>ss_revoked := True\<rparr>)"
      using db_put_overwrites [OF put] r(1-3) by blast
    then have "mt_decode sst (ob_payload r) = Some (m\<lparr>ss_revoked := True\<rparr>)"
      using assms(1) by (simp add: session_codec_ok_def)
    then have "m2 = m\<lparr>ss_revoked := True\<rparr>" using r(4) by (metis option.inject)
    then show "ss_revoked m2" by simp
  qed
qed

lemma barred_refused:
  assumes "token_barred sst token s" "header_value0 token_header = Inr token"
  shows "fst (fst (ssh_connect sbt sst agent_pod_ip config now_ms meth sandbox_header token_header s counts)) \<noteq> HttpOk"
proof (cases "authorise_tunnel sbt sst agent_pod_ip config now_ms meth sandbox_header token_header s")
  case (Inl st)
  then have "st \<noteq> HttpOk" using authorise_tunnel_err by blast
  then show ?thesis using Inl by (simp add: ssh_connect_def split_beta)
next
  case (Inr v)
  obtain sandbox_id tok target where v: "v = (sandbox_id, tok, target)" by (cases v)
  have False
  proof (rule authorise_tunnel_ok [OF Inr [unfolded v]])
    fix session
    assume b: "header_value0 token_header = Inr tok" "get_message sst tok s = Inr (Some session)" "\<not> session_dead now_ms session"
    obtain r where "r \<in> set (st_objects s)" "ob_type r = mt_object_type sst" "ob_id r = tok" "mt_decode sst (ob_payload r) = Some session"
      by (rule get_message_row [OF b(2)])
    moreover have "tok = token" using b(1) assms(2) by simp
    ultimately have "ss_revoked session" using assms(1) unfolding token_barred_def by blast
    then show False using b(3) by (simp add: session_dead_def)
  qed
  then show ?thesis ..
qed

text \<open>C29: once a revocation has been confirmed, no tunnel is opened for that token again, whatever sessions are
  created, revoked or reaped afterwards.\<close>

theorem revoked_token_refused:
  assumes "session_codec_ok sst" "(session_step sbt sst {})\<^sup>*\<^sup>* s0 s" "sessions_keyed sst s0"
    "handle_revoke_ssh_session sst now_ms token s = Some (Inr True, s1)" "(session_step sbt sst {token})\<^sup>*\<^sup>* s1 s2"
    "header_value0 token_header = Inr token"
  shows "fst (fst (ssh_connect sbt sst agent_pod_ip config now2 meth sandbox_header token_header s2 counts)) \<noteq> HttpOk"
proof -
  have "sessions_keyed sst s"
    using assms(2,3) by (induction rule: rtranclp_induct) (auto intro: session_step_keyed [OF assms(1)])
  then have "token_barred sst token s1" using revoke_bars [OF assms(1) _ assms(4)] by blast
  with assms(5) have "token_barred sst token s2"
    by (induction rule: rtranclp_induct) (auto intro: session_step_barred [OF assms(1)])
  then show ?thesis using assms(6) by (rule barred_refused)
qed

section \<open>Examples\<close>

datatype session_blob = SandboxBlob "unit sandbox" | SessionBlob ssh_session

definition example_sandbox_type :: "(unit sandbox, session_blob) message_type" where
  "example_sandbox_type = \<lparr>mt_object_type = ''sandbox'', mt_object_id = sb_id, mt_object_name = sb_name,
     mt_encode = SandboxBlob, mt_decode = (\<lambda>b. case b of SandboxBlob sb \<Rightarrow> Some sb | SessionBlob _ \<Rightarrow> None)\<rparr>"

definition example_session_type :: "(ssh_session, session_blob) message_type" where
  "example_session_type = session_type SessionBlob (\<lambda>b. case b of SandboxBlob _ \<Rightarrow> None | SessionBlob m \<Rightarrow> Some m)"

definition ready_sandbox :: "unit sandbox" where
  "ready_sandbox = \<lparr>sb_id = ''sb1'', sb_name = ''dev'', sb_namespace = ''ns'', sb_spec = None, sb_status = None,
     sb_phase = 2, sb_created_at_ms = 1, sb_current_policy_version = 1\<rparr>"

definition live_session :: ssh_session where
  "live_session = \<lparr>ss_id = ''tok'', ss_sandbox_id = ''sb1'', ss_token = ''tok'', ss_created_at_ms = 1, ss_revoked = False,
     ss_name = ''quiet-fox'', ss_expires_at_ms = 0\<rparr>"

definition session_store :: "bool \<Rightarrow> session_blob store" where
  "session_store revoked = empty_store\<lparr>st_objects :=
     [\<lparr>ob_type = ''sandbox'', ob_id = ''sb1'', ob_name = ''dev'', ob_payload = SandboxBlob ready_sandbox, ob_created_at_ms = 1, ob_updated_at_ms = 1\<rparr>,
      \<lparr>ob_type = ''ssh_session'', ob_id = ''tok'', ob_name = ''quiet-fox'',
        ob_payload = SessionBlob (live_session\<lparr>ss_revoked := revoked\<rparr>), ob_created_at_ms = 1, ob_updated_at_ms = 5\<rparr>]\<rparr>"

definition example_config :: gateway_config where
  "example_config = \<lparr>gc_ssh_gateway_host = [], gc_ssh_gateway_port = 0, gc_bind_ip = ''0.0.0.0'', gc_bind_port = 8080, gc_tls = False,
     gc_ssh_connect_path = ''/connect/ssh'', gc_ssh_session_ttl_secs = 3600, gc_sandbox_namespace = ''ns'', gc_sandbox_ssh_port = 2222\<rparr>"

lemma session_store_get:
  "get_message example_sandbox_type ''sb1'' (session_store b) = Inr (Some ready_sandbox)"
  "get_message example_session_type ''tok'' (session_store b) = Inr (Some (live_session\<lparr>ss_revoked := b\<rparr>))"
  by (simp_all add: get_message_def db_get_def decode_record_def session_store_def example_sandbox_type_def
      example_session_type_def session_type_def)

lemma session_store_revoke:
  "put_message example_session_type 5 (live_session\<lparr>ss_revoked := True\<rparr>) (session_store False) = Inr (session_store True)"
  by (simp add: put_message_def db_put_def example_session_type_def session_type_def session_store_def live_session_def)

lemma example_headers: "header_value0 (HeaderText ''sb1'') = Inr ''sb1''" "header_value0 (HeaderText ''tok'') = Inr ''tok''"
  by code_simp+

definition example_connect :: "(http_status \<times> (string \<times> string \<times> connect_target) option) \<times> counts \<times> counts" where
  "example_connect = ssh_connect example_sandbox_type example_session_type (\<lambda>_. Inr None) example_config 9 ''CONNECT''
     (HeaderText ''sb1'') (HeaderText ''tok'') (session_store False) (Map.empty, Map.empty)"

lemma example_connect_ok:
  "fst example_connect = (HttpOk, Some (''sb1'', ''tok'', TargetHost ''dev.ns.svc.cluster.local'' 2222))"
  by (simp add: example_connect_def ssh_connect_def authorise_tunnel_def example_headers session_store_get connect_target_of_def
      live_session_def ready_sandbox_def SANDBOX_PHASE_READY_def example_config_def reserve_def count_at_def
      MAX_CONNECTIONS_PER_TOKEN_def MAX_CONNECTIONS_PER_SANDBOX_def)


theorem revoked_token_refused_witness:
  "fst (fst (ssh_connect example_sandbox_type example_session_type (\<lambda>_. Inr None) example_config 9 ''CONNECT''
     (HeaderText ''sb1'') (HeaderText ''tok'') (session_store True) (Map.empty, Map.empty))) \<noteq> HttpOk"
proof (rule revoked_token_refused)
  show "session_codec_ok example_session_type" by (simp add: session_codec_ok_def example_session_type_def session_type_def)
  show "(session_step example_sandbox_type example_session_type {})\<^sup>*\<^sup>* (session_store False) (session_store False)" by simp
  show "sessions_keyed example_session_type (session_store False)"
    by (auto simp: sessions_keyed_def session_store_def example_session_type_def session_type_def live_session_def)
  show "handle_revoke_ssh_session example_session_type 5 ''tok'' (session_store False) = Some (Inr True, session_store True)"
    by (simp add: handle_revoke_ssh_session_def gbind_def reading_def writing_def ret_def session_store_get session_store_revoke)
  show "(session_step example_sandbox_type example_session_type {''tok''})\<^sup>*\<^sup>* (session_store True) (session_store True)" by simp
qed (rule example_headers)

section \<open>The reaper removes the dead\<close>

lemma reap_record_rows:
  "st_objects (reap_record sst now r s) = filter (\<lambda>row. \<not> (ob_type row = mt_object_type sst \<and>
     (\<exists>m. mt_decode sst (ob_payload r) = Some m \<and> session_dead now m \<and> ob_id row = ss_id m))) (st_objects s)"
  by (auto simp: reap_record_def db_delete_def filter_empty_conv filter_id_conv split: option.split)

lemma reap_fold_rows:
  "set (st_objects (fold (reap_record sst now) rs s)) = {row \<in> set (st_objects s). \<not> (ob_type row = mt_object_type sst \<and>
     (\<exists>r m. r \<in> set rs \<and> mt_decode sst (ob_payload r) = Some m \<and> session_dead now m \<and> ob_id row = ss_id m))}"
proof (induction rs arbitrary: s)
  case (Cons r rs)
  show ?case by (simp add: Cons reap_record_rows) blast
qed simp

lemma db_list_whole:
  assumes "length (filter (\<lambda>r. ob_type r = t) (st_objects s)) \<le> 1000"
  shows "set (db_list t 1000 0 s) = {r \<in> set (st_objects s). ob_type r = t}"
proof -
  have "unat (1000 :: u32) = 1000" "unat (0 :: u32) = 0" by simp_all
  then show ?thesis using assms by (auto simp: db_list_def page_def)
qed

text \<open>The reaper is exact while all sessions fit into its page: it removes the sessions that are revoked or expired, and no other row.\<close>

theorem reap_exact:
  assumes "objects_ok s" "sessions_keyed sst s"
    "length (filter (\<lambda>r. ob_type r = mt_object_type sst) (st_objects s)) \<le> 1000"
  shows "set (st_objects (reap_expired_sessions sst now s)) = {row \<in> set (st_objects s). \<not> (ob_type row = mt_object_type sst \<and>
    (\<exists>m. mt_decode sst (ob_payload row) = Some m \<and> session_dead now m))}"
proof -
  have same: "r = row" if "r \<in> set (st_objects s)" "row \<in> set (st_objects s)" "ob_id r = ob_id row" for r row
    using that assms(1) unfolding objects_ok_def distinct_map inj_on_def by blast
  have "(\<exists>r m. r \<in> set (db_list (mt_object_type sst) 1000 0 s) \<and> mt_decode sst (ob_payload r) = Some m \<and> session_dead now m \<and> ob_id row = ss_id m)
      \<longleftrightarrow> (\<exists>m. mt_decode sst (ob_payload row) = Some m \<and> session_dead now m)" (is "?l \<longleftrightarrow> ?r")
    if row: "row \<in> set (st_objects s)" "ob_type row = mt_object_type sst" for row
  proof
    assume ?l
    then obtain r m where r: "r \<in> set (st_objects s)" "ob_type r = mt_object_type sst" "mt_decode sst (ob_payload r) = Some m"
        "session_dead now m" "ob_id row = ss_id m"
      using db_list_whole [OF assms(3)] by blast
    then have "ss_id m = ob_id r" using assms(2) unfolding sessions_keyed_def by blast
    then have "r = row" using same [OF r(1) row(1)] r(5) by simp
    then show ?r using r(3,4) by blast
  next
    assume ?r
    then obtain m where m: "mt_decode sst (ob_payload row) = Some m" "session_dead now m" by blast
    then have "ss_id m = ob_id row" using assms(2) row unfolding sessions_keyed_def by blast
    moreover have "row \<in> set (db_list (mt_object_type sst) 1000 0 s)" using row by (simp add: db_list_whole [OF assms(3)])
    ultimately show ?l using m by force
  qed
  then show ?thesis unfolding reap_expired_sessions_def reap_fold_rows by (intro Collect_cong conj_cong refl) metis
qed

text \<open>Beyond the page nothing is reaped: when the thousand oldest sessions are alive, every younger one stays, dead or not.\<close>

lemma reaper_misses_beyond_page:
  assumes "\<And>r m. r \<in> set (db_list (mt_object_type sst) 1000 0 s) \<Longrightarrow> mt_decode sst (ob_payload r) = Some m \<Longrightarrow> \<not> session_dead now m"
  shows "reap_expired_sessions sst now s = s"
proof -
  have "fold (reap_record sst now) rs s = s"
    if "\<And>r m. r \<in> set rs \<Longrightarrow> mt_decode sst (ob_payload r) = Some m \<Longrightarrow> \<not> session_dead now m" for rs
    using that by (induction rs) (auto simp: reap_record_def split: option.split)
  then show ?thesis using assms by (simp add: reap_expired_sessions_def)
qed

end
