(* ===== verification/Ssh_Handshake.thy ===== *)
theory Ssh_Handshake
  imports Ssh_Sessions Utf8
begin

text \<open>
  The NSSH1 handshake between the gateway (\<open>crates/openshell-server/src/ssh_tunnel.rs\<close>) and the SSH server of a
  sandbox (\<open>crates/openshell-sandbox/src/ssh.rs\<close>): the preface, its verification with replay protection, and the
  machine of connections, clock and nonce reaper. HMAC-SHA256 is a parameter; a connection is the bytes it delivers.
\<close>

section \<open>Signed numbers as text\<close>

text \<open>\<open>Display\<close> and \<open>FromStr\<close> of \<open>i64\<close>.\<close>

definition show_i64 :: "int \<Rightarrow> string" where
  "show_i64 n = (if n < 0 then ''-'' @ show_nat (nat (- n)) else show_nat (nat n))"

definition parse_i64 :: "string \<Rightarrow> int option" where
  "parse_i64 s = (case s of
     c # cs \<Rightarrow> if c = CHR ''-''
       then (if cs = [] then None else case digits_value 10 0 cs of None \<Rightarrow> None
         | Some v \<Rightarrow> if v \<le> 2 ^ 63 then Some (- int v) else None)
       else map_option int (parse_uint 10 63 s)
   | [] \<Rightarrow> None)"

lemma show_nat_first: "\<exists>c cs. show_nat n = c # cs \<and> c \<noteq> CHR ''-''"
proof -
  obtain c cs where s: "show_nat n = c # cs" by (meson neq_Nil_conv show_radix_nonempty)
  then have "is_ascii_hexdigit c" by (intro show_radix_hexdigit [of 10 c n]) auto
  then show ?thesis using s by (auto simp: is_ascii_hexdigit_def is_ascii_digit_def)
qed

lemma parse_show_i64:
  assumes "- (2 ^ 63) \<le> n" "n < 2 ^ 63"
  shows "parse_i64 (show_i64 n) = Some n"
proof (cases "n < 0")
  case True
  have "digits_value 10 0 (show_nat (nat (- n))) = Some (nat (- n))" by (rule digits_value_show_radix) simp_all
  moreover have "nat (- n) \<le> 2 ^ 63" using assms(1) by simp
  ultimately show ?thesis using True by (simp add: parse_i64_def show_i64_def)
next
  case False
  obtain c cs where s: "show_nat (nat n) = c # cs" "c \<noteq> CHR ''-''" using show_nat_first by blast
  have "parse_uint 10 63 (show_nat (nat n)) = Some (nat n)" using assms(2) False by (intro parse_uint_show_radix) auto
  then show ?thesis using False s by (simp add: parse_i64_def show_i64_def)
qed

lemma show_i64_chars: "c \<in> set (show_i64 n) \<Longrightarrow> is_ascii_hexdigit c \<or> c = CHR ''-''"
  by (auto simp: show_i64_def split: if_splits dest: show_radix_hexdigit [rotated 2])

lemma show_i64_no_bar: "CHR ''|'' \<notin> set (show_i64 n)"
  using show_i64_chars [of "CHR ''|''" n] by (auto simp: is_ascii_hexdigit_def is_ascii_digit_def)

section \<open>The preface\<close>

type_synonym mac = "string \<Rightarrow> string \<Rightarrow> string"

definition PREFACE_MAGIC :: string where "PREFACE_MAGIC = ''NSSH1''"

definition signed_payload :: "string \<Rightarrow> int \<Rightarrow> string option \<Rightarrow> string" where
  "signed_payload token timestamp nonce = token @ ''|'' @ show_i64 timestamp @ (case nonce of None \<Rightarrow> [] | Some n \<Rightarrow> ''|'' @ n)"

definition build_preface :: "mac \<Rightarrow> string \<Rightarrow> string \<Rightarrow> int \<Rightarrow> string \<Rightarrow> string" where
  "build_preface hmac token secret timestamp nonce =
     (let payload = signed_payload token timestamp (Some nonce); signature = hmac secret payload
      in PREFACE_MAGIC @ '' '' @ token @ '' '' @ show_i64 timestamp @ '' '' @ nonce @ '' '' @ signature @ [LF])"

fun read_line_bytes :: "string \<Rightarrow> string \<Rightarrow> string \<times> string" where
  "read_line_bytes acc [] = (acc, [])"
| "read_line_bytes acc (b # s) = (if b = LF then (acc, s)
     else if length (acc @ [b]) > 1024 then (acc @ [b], s) else read_line_bytes (acc @ [b]) s)"

definition read_line :: "string \<Rightarrow> string \<times> string" where
  "read_line s = (case read_line_bytes [] s of (bytes, rest) \<Rightarrow> (utf8_lossy bytes, rest))"

section \<open>Verification\<close>

text \<open>The nonces with the instant of their insertion, in milliseconds.\<close>

type_synonym nonce_cache = "string \<rightharpoonup> nat"

definition preface_fields :: "string \<Rightarrow> (string \<times> string \<times> string option \<times> string) option" where
  "preface_fields line = (case split_whitespace line of
     [magic, token, timestamp, nonce, signature] \<Rightarrow>
       if magic = PREFACE_MAGIC then Some (token, timestamp, Some nonce, signature) else None
   | [magic, token, timestamp, signature] \<Rightarrow>
       if magic = PREFACE_MAGIC then Some (token, timestamp, None, signature) else None
   | _ \<Rightarrow> None)"

text \<open>The skew is computed on signed 64-bit integers.\<close>

definition clock_skew :: "int \<Rightarrow> int \<Rightarrow> nat" where
  "clock_skew now timestamp = nat \<bar>sint (word_of_int now - word_of_int timestamp :: 64 word)\<bar>"

definition verify_preface ::
  "mac \<Rightarrow> string \<Rightarrow> string \<Rightarrow> nat \<Rightarrow> int \<Rightarrow> nat \<Rightarrow> nonce_cache \<Rightarrow> bool \<times> nonce_cache" where
  "verify_preface hmac line secret handshake_skew_secs now instant cache = (case preface_fields line of
     None \<Rightarrow> (False, cache)
   | Some (token, timestamp_str, nonce_opt, signature) \<Rightarrow>
       let timestamp = (case parse_i64 timestamp_str of None \<Rightarrow> 0 | Some t \<Rightarrow> t) in
       if clock_skew now timestamp > handshake_skew_secs then (False, cache)
       else if signature \<noteq> hmac secret (signed_payload token timestamp nonce_opt) then (False, cache)
       else (case nonce_opt of None \<Rightarrow> (True, cache)
         | Some nonce \<Rightarrow> if cache nonce \<noteq> None then (False, cache) else (True, cache(nonce \<mapsto> instant))))"

text \<open>The answer of the sandbox and what is left for the SSH protocol, if it starts.\<close>

definition handle_handshake ::
  "mac \<Rightarrow> string \<Rightarrow> nat \<Rightarrow> int \<Rightarrow> nat \<Rightarrow> string \<Rightarrow> nonce_cache \<Rightarrow> (string \<times> string option) \<times> nonce_cache" where
  "handle_handshake hmac secret handshake_skew_secs now instant stream cache = (case read_line stream of (line, rest) \<Rightarrow>
     case verify_preface hmac line secret handshake_skew_secs now instant cache of
       (False, cache') \<Rightarrow> ((''ERR'' @ [LF], None), cache')
     | (True, cache') \<Rightarrow> ((''OK'' @ [LF], Some rest), cache'))"

text \<open>The gateway's reading of the answer.\<close>

definition handshake_accepted :: "string \<Rightarrow> bool" where
  "handshake_accepted response_stream \<longleftrightarrow> trim (fst (read_line response_stream)) = ''OK''"

definition reap_nonces :: "nat \<Rightarrow> nat \<Rightarrow> nonce_cache \<Rightarrow> nonce_cache" where
  "reap_nonces handshake_skew_secs instant cache n = (case cache n of None \<Rightarrow> None
     | Some inserted \<Rightarrow> if instant - inserted < handshake_skew_secs * 1000 then Some inserted else None)"

section \<open>The gateway's preface is understood\<close>

lemma read_line_bytes_line:
  assumes "LF \<notin> set s" "length acc + length s \<le> 1024"
  shows "read_line_bytes acc (s @ LF # rest) = (acc @ s, rest)"
  using assms by (induction s arbitrary: acc) auto

text \<open>A word of printable ASCII.\<close>

definition plain_word :: "string \<Rightarrow> bool" where
  "plain_word w \<longleftrightarrow> w \<noteq> [] \<and> list_all printable_ascii w"

lemma printable_no_ws: "printable_ascii c \<Longrightarrow> ws_prefix (c # s) = 0"
  by (rule ws_prefix_0_ascii) (auto simp: printable_ascii_def ascii_ws_def)

lemma space_ws: "ws_prefix (CHR '' '' # s) \<noteq> 0"
  by (simp add: ws_prefix_def ws_seqs_def starts_with_def)

lemma take_word_plain:
  assumes "list_all printable_ascii w" "s = [] \<or> hd s = CHR '' ''"
  shows "take_word (w @ s) = (w, s)"
  using assms(1)
proof (induction w)
  case Nil
  then show ?case using assms(2) space_ws by (cases s) auto
next
  case (Cons c w)
  then show ?case by (simp add: printable_no_ws)
qed

lemma trim_start_plain: "plain_word w \<Longrightarrow> trim_start (w @ s) = w @ s"
  by (subst trim_start.simps, cases w) (auto simp: plain_word_def printable_no_ws)

lemma trim_start_space: "plain_word w \<Longrightarrow> trim_start (CHR '' '' # w @ s) = w @ s"
  using trim_start_plain [of w s] by (subst trim_start.simps) (simp add: ws_prefix_def ws_seqs_def starts_with_def)

lemma split_whitespace_step:
  assumes "plain_word w" "s = [] \<or> hd s = CHR '' ''" "trim_start t = w @ s"
  shows "split_whitespace t = w # split_whitespace s"
proof -
  obtain c cs where w: "w = c # cs" "list_all printable_ascii cs" using assms(1) by (cases w) (auto simp: plain_word_def)
  then show ?thesis using assms(2,3) take_word_plain [of cs s] by (subst split_whitespace.simps) simp
qed

lemma split_whitespace_words:
  "list_all plain_word (w # ws) \<Longrightarrow> split_whitespace (join '' '' (w # ws)) = w # ws"
  "list_all plain_word (w # ws) \<Longrightarrow> split_whitespace ('' '' @ join '' '' (w # ws)) = w # ws"
proof (induction ws arbitrary: w)
  case Nil
  case 1
  have "split_whitespace [] = []" by (subst split_whitespace.simps, subst trim_start.simps) (simp add: ws_prefix_def ws_seqs_def starts_with_def)
  moreover have "split_whitespace w = w # split_whitespace []"
    using 1 trim_start_plain [of w "[]"] by (intro split_whitespace_step) simp_all
  ultimately show ?case by simp
next
  case Nil
  case 2
  have "split_whitespace [] = []" by (subst split_whitespace.simps, subst trim_start.simps) (simp add: ws_prefix_def ws_seqs_def starts_with_def)
  moreover have "split_whitespace (CHR '' '' # w) = w # split_whitespace []"
    using 2 trim_start_space [of w "[]"] by (intro split_whitespace_step) simp_all
  ultimately show ?case by simp
next
  case (Cons v ws)
  case 1
  have "split_whitespace (w @ '' '' @ join '' '' (v # ws)) = w # split_whitespace ('' '' @ join '' '' (v # ws))"
    using 1 trim_start_plain [of w "'' '' @ join '' '' (v # ws)"] by (intro split_whitespace_step) simp_all
  then show ?case using Cons.IH(2) [of v] 1 by simp
next
  case (Cons v ws)
  case 2
  have "split_whitespace (CHR '' '' # w @ '' '' @ join '' '' (v # ws)) = w # split_whitespace ('' '' @ join '' '' (v # ws))"
    using 2 trim_start_space [of w "'' '' @ join '' '' (v # ws)"] by (intro split_whitespace_step) simp_all
  then show ?case using Cons.IH(2) [of v] 2 by simp
qed

lemma plain_word_ascii: "plain_word w \<Longrightarrow> ascii w"
  by (auto simp: plain_word_def ascii_def printable_ascii_def list_all_iff)

lemma plain_word_no_LF: "plain_word w \<Longrightarrow> LF \<notin> set w"
  by (auto simp: plain_word_def printable_ascii_def list_all_iff)

lemma show_i64_plain: "plain_word (show_i64 n)"
proof -
  have "show_i64 n \<noteq> []" by (simp add: show_i64_def)
  moreover have "printable_ascii c" if "c \<in> set (show_i64 n)" for c
    using show_i64_chars [OF that] by (auto simp: is_ascii_hexdigit_def is_ascii_digit_def printable_ascii_def)
  ultimately show ?thesis by (simp add: plain_word_def list_all_iff)
qed

lemma magic_plain: "plain_word PREFACE_MAGIC"
  by (simp add: plain_word_def PREFACE_MAGIC_def printable_ascii_def)

text \<open>The sandbox accepts the preface the gateway builds, when both hold the same secret, the clocks differ by at
  most the permitted skew and the nonce is new; the nonce is recorded, the bytes behind the preface are left
  to the SSH protocol, and the gateway reads the answer as an acceptance.\<close>

theorem handshake_roundtrip:
  assumes "plain_word token" "plain_word nonce" "plain_word (hmac secret (signed_payload token timestamp (Some nonce)))"
    "- (2 ^ 63) \<le> timestamp" "timestamp < 2 ^ 63" "clock_skew now timestamp \<le> handshake_skew_secs" "cache nonce = None"
    "length (build_preface hmac token secret timestamp nonce) \<le> 1025"
  shows "handle_handshake hmac secret handshake_skew_secs now instant (build_preface hmac token secret timestamp nonce @ rest) cache
      = ((''OK'' @ [LF], Some rest), cache(nonce \<mapsto> instant))
    \<and> handshake_accepted (''OK'' @ [LF])"
proof
  let ?words = "[PREFACE_MAGIC, token, show_i64 timestamp, nonce, hmac secret (signed_payload token timestamp (Some nonce))]"
  let ?line = "join '' '' ?words"
  have words: "list_all plain_word ?words" using assms(1-3) by (simp add: magic_plain show_i64_plain)
  have b: "build_preface hmac token secret timestamp nonce @ rest = ?line @ LF # rest" by (simp add: build_preface_def Let_def)
  have len: "length ?line \<le> 1024" using assms(8) b by (simp add: build_preface_def Let_def)
  have lf: "LF \<notin> set ?line" using words plain_word_no_LF by auto
  have "ascii ?line" using words plain_word_ascii by (auto simp: ascii_def list_all_iff)
  then have "utf8_lossy ?line = ?line" by (simp add: ascii_is_utf8 utf8_lossy_valid)
  then have rl: "read_line (build_preface hmac token secret timestamp nonce @ rest) = (?line, rest)"
    using read_line_bytes_line [OF lf, of "[]" rest] len by (simp only: b read_line_def) simp
  have pf: "preface_fields ?line = Some (token, show_i64 timestamp, Some nonce, hmac secret (signed_payload token timestamp (Some nonce)))"
    using split_whitespace_words(1) [OF words] by (simp only: preface_fields_def) simp
  show "handle_handshake hmac secret handshake_skew_secs now instant (build_preface hmac token secret timestamp nonce @ rest) cache
      = ((''OK'' @ [LF], Some rest), cache(nonce \<mapsto> instant))"
    using assms(6,7) by (simp add: handle_handshake_def rl verify_preface_def pf parse_show_i64 [OF assms(4,5)] del: join.simps)
  show "handshake_accepted (''OK'' @ [LF])" by code_simp
qed

definition example_mac :: mac where "example_mac key data0 = ''deadbeef''"

theorem handshake_roundtrip_witness:
  "fst (handle_handshake example_mac ''s'' 300 1000 5 (build_preface example_mac ''tok'' ''s'' 990 ''n-1'' @ ''SSH-2.0'') Map.empty)
    = (''OK'' @ [LF], Some ''SSH-2.0'')"
proof -
  have "clock_skew 1000 990 \<le> 300" by (simp add: clock_skew_def)
  moreover have "length (build_preface example_mac ''tok'' ''s'' 990 ''n-1'') \<le> 1025" by code_simp
  ultimately show ?thesis
    using handshake_roundtrip [of "''tok''" "''n-1''" example_mac "''s''" 990 1000 300 Map.empty 5 "''SSH-2.0''"]
    by (simp add: plain_word_def printable_ascii_def example_mac_def)
qed

section \<open>Only issued prefaces are accepted\<close>

lemma first_bar:
  assumes "x @ b # x' = y @ b # y'" "b \<notin> set x" "b \<notin> set y"
  shows "x = y \<and> x' = y'"
  using assms
proof (induction x arbitrary: y)
  case Nil
  then show ?case by (cases y) auto
next
  case (Cons a x)
  then show ?case by (cases y) auto
qed

lemma two_bars:
  assumes "a @ ''|'' @ b @ ''|'' @ c = a' @ ''|'' @ b' @ ''|'' @ c'" "CHR ''|'' \<notin> set a" "CHR ''|'' \<notin> set b"
    "CHR ''|'' \<notin> set c" "CHR ''|'' \<notin> set b'"
  shows "a = a' \<and> b = b' \<and> c = c'"
proof -
  have z: "count_list l (CHR ''|'') = 0" if "CHR ''|'' \<notin> set l" for l using that by simp
  have "count_list (a' @ ''|'' @ b' @ ''|'' @ c') (CHR ''|'') = 2"
    unfolding assms(1) [symmetric] using z [OF assms(2)] z [OF assms(3)] z [OF assms(4)] by simp
  then have "count_list a' (CHR ''|'') = 0" by simp
  then have "CHR ''|'' \<notin> set a'" by (simp add: count_list_0_iff)
  then have "a = a'" "b @ ''|'' @ c = b' @ ''|'' @ c'" using first_bar [of a "CHR ''|''" _ a'] assms(1,2) by auto
  then show ?thesis using first_bar [of b "CHR ''|''" c b' c'] assms(3,5) by auto
qed

lemma last_bar:
  assumes "x @ ''|'' @ n = y @ ''|'' @ m" "CHR ''|'' \<notin> set n" "CHR ''|'' \<notin> set m"
  shows "n = m"
proof -
  have "rev n @ CHR ''|'' # rev x = rev m @ CHR ''|'' # rev y" using arg_cong [OF assms(1), of rev] by simp
  moreover have "CHR ''|'' \<notin> set (rev n)" "CHR ''|'' \<notin> set (rev m)" using assms(2,3) by simp_all
  ultimately have "rev n = rev m" using first_bar [of "rev n" "CHR ''|''" "rev x" "rev m" "rev y"] by blast
  then show ?thesis by simp
qed

lemma show_nat_inj: "show_nat m = show_nat n \<longleftrightarrow> m = n"
proof
  assume "show_nat m = show_nat n"
  then have "digits_value 10 0 (show_nat m) = digits_value 10 0 (show_nat n)" by simp
  then show "m = n" by (simp add: digits_value_show_radix)
qed simp

lemma show_i64_inj: "show_i64 m = show_i64 n \<longleftrightarrow> m = n"
proof
  obtain c cs where "show_nat (nat m) = c # cs" "c \<noteq> CHR ''-''" using show_nat_first by blast
  moreover obtain d ds where "show_nat (nat n) = d # ds" "d \<noteq> CHR ''-''" using show_nat_first by blast
  moreover assume "show_i64 m = show_i64 n"
  ultimately show "m = n" using show_nat_inj [of "nat m" "nat n"] by (auto simp: show_i64_def show_nat_inj split: if_splits)
qed simp

text \<open>A line accepted by the verification has a genuine signature over its own fields.\<close>

lemma verify_preface_True:
  assumes "verify_preface hmac line secret skew now instant cache = (True, cache')"
  obtains token ts_str nonce ts where "preface_fields line = Some (token, ts_str, nonce, hmac secret (signed_payload token ts nonce))"
    "ts = (case parse_i64 ts_str of None \<Rightarrow> 0 | Some t \<Rightarrow> t)" "clock_skew now ts \<le> skew"
    "case nonce of None \<Rightarrow> cache' = cache | Some n \<Rightarrow> cache n = None \<and> cache' = cache(n \<mapsto> instant)"
proof -
  obtain token ts_str nonce sg where pf: "preface_fields line = Some (token, ts_str, nonce, sg)"
    using assms by (cases "preface_fields line") (auto simp: verify_preface_def)
  define ts where "ts = (case parse_i64 ts_str of None \<Rightarrow> 0 | Some t \<Rightarrow> t)"
  have "sg = hmac secret (signed_payload token ts nonce)" "clock_skew now ts \<le> skew"
      "case nonce of None \<Rightarrow> cache' = cache | Some n \<Rightarrow> cache n = None \<and> cache' = cache(n \<mapsto> instant)"
    using assms by (auto simp: verify_preface_def pf Let_def ts_def [symmetric] split: if_splits option.splits)
  then show thesis using that pf ts_def by blast
qed

text \<open>What is signed is what was issued: the signatures that are known belong to prefaces of the gateway.\<close>

definition signatures_from_gateway :: "mac \<Rightarrow> string \<Rightarrow> (string \<times> int \<times> string) set \<Rightarrow> string set \<Rightarrow> bool" where
  "signatures_from_gateway hmac secret issued known \<longleftrightarrow>
     (\<forall>p. hmac secret p \<in> known \<longrightarrow> (\<exists>t ts n. (t, ts, n) \<in> issued \<and> p = signed_payload t ts (Some n)))"

text \<open>Tokens and nonces of the gateway are UUIDs: they have no bar, and a nonce is not the text of a number.\<close>

definition issued_fields :: "(string \<times> int \<times> string) set \<Rightarrow> bool" where
  "issued_fields issued \<longleftrightarrow> (\<forall>t ts n. (t, ts, n) \<in> issued \<longrightarrow>
     CHR ''|'' \<notin> set t \<and> CHR ''|'' \<notin> set n \<and> (\<forall>k. n \<noteq> show_i64 k))"

text \<open>C31: when signatures can only be had from the gateway, the sandbox accepts only prefaces with the token, the
  timestamp and the nonce of one the gateway issued: neither moving field borders nor falling back to the older
  format without a nonce yields another accepted line.\<close>

theorem accepted_preface_was_issued:
  assumes "signatures_from_gateway hmac secret issued known" "issued_fields issued"
    "preface_fields line = Some (token, ts_str, nonce, signature)" "signature \<in> known"
    "verify_preface hmac line secret skew now instant cache = (True, cache')"
  shows "\<exists>ts n. (token, ts, n) \<in> issued \<and> nonce = Some n \<and> ts = (case parse_i64 ts_str of None \<Rightarrow> 0 | Some t \<Rightarrow> t)
    \<and> clock_skew now ts \<le> skew \<and> cache n = None"
proof -
  obtain ts where v: "signature = hmac secret (signed_payload token ts nonce)" "clock_skew now ts \<le> skew"
      "ts = (case parse_i64 ts_str of None \<Rightarrow> 0 | Some t \<Rightarrow> t)" "case nonce of None \<Rightarrow> True | Some n \<Rightarrow> cache n = None"
    by (rule verify_preface_True [OF assms(5)]) (use assms(3) in \<open>auto split: option.splits\<close>)
  then obtain t ts' n where i: "(t, ts', n) \<in> issued" "signed_payload token ts nonce = signed_payload t ts' (Some n)"
    using assms(1,4) unfolding signatures_from_gateway_def by blast
  have clean: "CHR ''|'' \<notin> set t" "CHR ''|'' \<notin> set n" "n \<noteq> show_i64 k" for k
    using assms(2) i(1) unfolding issued_fields_def by blast+
  show ?thesis
  proof (cases nonce)
    case None
    have "(t @ ''|'' @ show_i64 ts') @ ''|'' @ n = token @ ''|'' @ show_i64 ts"
      using i(2) None by (simp add: signed_payload_def)
    from last_bar [OF this clean(2) show_i64_no_bar] have False using clean(3) by blast
    then show ?thesis ..
  next
    case (Some n1)
    have "t @ ''|'' @ show_i64 ts' @ ''|'' @ n = token @ ''|'' @ show_i64 ts @ ''|'' @ n1"
      using i(2) Some by (simp add: signed_payload_def)
    from two_bars [OF this clean(1) show_i64_no_bar clean(2) show_i64_no_bar]
    have "t = token" "ts' = ts" "n = n1" by (simp_all add: show_i64_inj)
    then show ?thesis using i(1) Some v by auto
  qed
qed

definition signing_mac :: mac where "signing_mac key data0 = ''sig-of:'' @ data0"

definition example_line :: string where
  "example_line = join '' '' [PREFACE_MAGIC, ''tok'', ''990'', ''n-1'', ''sig-of:tok|990|n-1'']"

lemma example_payload: "signed_payload ''tok'' 990 (Some ''n-1'') = ''tok|990|n-1''"
  by code_simp

lemma example_fields: "preface_fields example_line = Some (''tok'', ''990'', Some ''n-1'', ''sig-of:tok|990|n-1'')"
proof -
  have "split_whitespace example_line = [PREFACE_MAGIC, ''tok'', ''990'', ''n-1'', ''sig-of:tok|990|n-1'']"
    unfolding example_line_def by (rule split_whitespace_words) (simp add: magic_plain, simp add: plain_word_def printable_ascii_def)
  then show ?thesis by (simp add: preface_fields_def)
qed

lemma example_verified: "verify_preface signing_mac example_line ''s'' 300 1000 5 Map.empty = (True, [''n-1'' \<mapsto> 5])"
proof -
  have "show_i64 990 = ''990''" by code_simp
  then have "parse_i64 ''990'' = Some 990" using parse_show_i64 [of 990] by simp
  moreover have "clock_skew 1000 990 = 10" by (simp add: clock_skew_def)
  ultimately show ?thesis unfolding verify_preface_def example_fields
    by (simp add: example_payload signing_mac_def Let_def)
qed

lemma example_signatures: "signatures_from_gateway signing_mac ''s'' {(''tok'', 990, ''n-1'')} {''sig-of:tok|990|n-1''}"
  unfolding signatures_from_gateway_def signing_mac_def using example_payload by simp

lemma example_issued: "issued_fields {(''tok'', 990, ''n-1'')}"
proof -
  have "CHR ''n'' \<notin> set (show_i64 k)" for k
    using show_i64_chars [of "CHR ''n''" k] by (auto simp: is_ascii_hexdigit_def is_ascii_digit_def)
  then have "''n-1'' \<noteq> show_i64 k" for k by (metis list.set_intros(1))
  then show ?thesis by (simp add: issued_fields_def)
qed

theorem accepted_preface_was_issued_witness:
  "\<exists>ts n. (''tok'', ts, n) \<in> {(''tok'', 990, ''n-1'')} \<and> clock_skew 1000 ts \<le> 300"
  using accepted_preface_was_issued [OF example_signatures example_issued example_fields _ example_verified] by blast

section \<open>Replay\<close>

text \<open>
  A sandbox over time: the clock in milliseconds, the nonces, and what was accepted, newest first, with the time, the
  nonce and the timestamp. Wall clock and monotonic clock advance together.
\<close>

record handshakes =
  hs_clock :: nat
  hs_cache :: nonce_cache
  hs_accepted :: "(nat \<times> string option \<times> int) list"

definition accepted_entry :: "nat \<Rightarrow> string \<Rightarrow> nat \<times> string option \<times> int" where
  "accepted_entry clock line = (case preface_fields line of None \<Rightarrow> (clock, None, 0)
     | Some (_, ts_str, nonce, _) \<Rightarrow> (clock, nonce, case parse_i64 ts_str of None \<Rightarrow> 0 | Some t \<Rightarrow> t))"

inductive handshake_step :: "mac \<Rightarrow> string \<Rightarrow> nat \<Rightarrow> handshakes \<Rightarrow> handshakes \<Rightarrow> bool" for hmac secret skew where
  pass: "hs_clock s \<le> c \<Longrightarrow> handshake_step hmac secret skew s (s\<lparr>hs_clock := c\<rparr>)"
| accept: "verify_preface hmac line secret skew (int (hs_clock s div 1000)) (hs_clock s) (hs_cache s) = (True, cache') \<Longrightarrow>
    handshake_step hmac secret skew s (s\<lparr>hs_cache := cache', hs_accepted := accepted_entry (hs_clock s) line # hs_accepted s\<rparr>)"
| refuse: "verify_preface hmac line secret skew (int (hs_clock s div 1000)) (hs_clock s) (hs_cache s) = (False, cache') \<Longrightarrow>
    handshake_step hmac secret skew s (s\<lparr>hs_cache := cache'\<rparr>)"
| reap: "handshake_step hmac secret skew s (s\<lparr>hs_cache := reap_nonces skew (hs_clock s) (hs_cache s)\<rparr>)"

definition no_handshakes :: handshakes where
  "no_handshakes = \<lparr>hs_clock = 0, hs_cache = Map.empty, hs_accepted = []\<rparr>"

text \<open>Two acceptances of one nonce are the whole window apart, and each happened within the skew of its timestamp.\<close>

definition apart :: "nat \<Rightarrow> nat \<times> string option \<times> int \<Rightarrow> nat \<times> string option \<times> int \<Rightarrow> bool" where
  "apart skew later earlier \<longleftrightarrow> (case (later, earlier) of ((c2, n2, _), (c1, n1, _)) \<Rightarrow>
     n2 \<noteq> None \<longrightarrow> n2 = n1 \<longrightarrow> c1 + skew * 1000 \<le> c2)"

definition in_window :: "nat \<Rightarrow> nat \<times> string option \<times> int \<Rightarrow> bool" where
  "in_window skew e \<longleftrightarrow> (case e of (c, _, ts) \<Rightarrow> clock_skew (int (c div 1000)) ts \<le> skew \<and> - (2 ^ 63) \<le> ts \<and> ts < 2 ^ 63)"

text \<open>An accepted nonce is still in the cache, or the window has passed since.\<close>

definition remembered :: "nat \<Rightarrow> handshakes \<Rightarrow> bool" where
  "remembered skew s \<longleftrightarrow> (\<forall>c n ts. (c, Some n, ts) \<in> set (hs_accepted s) \<longrightarrow>
     c + skew * 1000 \<le> hs_clock s \<or> (\<exists>t. hs_cache s n = Some t \<and> c \<le> t))"

definition handshakes_ok :: "nat \<Rightarrow> handshakes \<Rightarrow> bool" where
  "handshakes_ok skew s \<longleftrightarrow> sorted_wrt (apart skew) (hs_accepted s) \<and> list_all (in_window skew) (hs_accepted s)
     \<and> list_all (\<lambda>e. fst e \<le> hs_clock s) (hs_accepted s) \<and> remembered skew s"

lemma parse_i64_range: "parse_i64 s = Some t \<Longrightarrow> - (2 ^ 63) \<le> t \<and> t < 2 ^ 63"
proof (cases s)
  case (Cons c cs)
  assume p: "parse_i64 s = Some t"
  show ?thesis
  proof (cases "c = CHR ''-''")
    case True
    then obtain v where "v \<le> 2 ^ 63" "t = - int v" using p Cons by (auto simp: parse_i64_def split: if_splits option.splits)
    moreover have "int v \<le> 2 ^ 63" using calculation(1) by (metis of_nat_le_iff of_nat_numeral of_nat_power)
    ultimately show ?thesis by auto
  next
    case False
    then obtain v where "parse_uint 10 63 s = Some v" "t = int v" using p Cons by (auto simp: parse_i64_def)
    moreover have "int v < 2 ^ 63" using parse_uint_bound [OF calculation(1)] by (metis of_nat_less_iff of_nat_numeral of_nat_power)
    ultimately show ?thesis by auto
  qed
qed (simp add: parse_i64_def)

lemma verify_refused: "verify_preface hmac line secret skew now instant cache = (False, cache') \<Longrightarrow> cache' = cache"
  by (auto simp: verify_preface_def Let_def split: option.splits if_splits prod.splits)

lemma handshake_step_ok:
  assumes "handshake_step hmac secret skew s s'" "handshakes_ok skew s"
  shows "handshakes_ok skew s'"
  using assms(1)
proof cases
  case (pass c)
  then show ?thesis using assms(2) by (fastforce simp: handshakes_ok_def remembered_def list_all_iff)
next
  case (refuse line cache')
  then show ?thesis using assms(2) verify_refused [OF refuse(2)] by simp
next
  case reap
  then show ?thesis using assms(2)
    by (fastforce simp: handshakes_ok_def remembered_def list_all_iff reap_nonces_def split: option.splits)
next
  case (accept line cache')
  obtain token ts_str nonce ts where v: "preface_fields line = Some (token, ts_str, nonce, hmac secret (signed_payload token ts nonce))"
      "ts = (case parse_i64 ts_str of None \<Rightarrow> 0 | Some t \<Rightarrow> t)" "clock_skew (int (hs_clock s div 1000)) ts \<le> skew"
      "case nonce of None \<Rightarrow> cache' = hs_cache s | Some n \<Rightarrow> hs_cache s n = None \<and> cache' = (hs_cache s)(n \<mapsto> hs_clock s)"
    by (rule verify_preface_True [OF accept(2)])
  have e: "accepted_entry (hs_clock s) line = (hs_clock s, nonce, ts)" by (simp add: accepted_entry_def v(1,2))
  have "- (2 ^ 63) \<le> ts \<and> ts < 2 ^ 63" using v(2) parse_i64_range by (cases "parse_i64 ts_str") auto
  then have win: "in_window skew (hs_clock s, nonce, ts)" using v(3) by (simp add: in_window_def)
  have rem: "remembered skew s" using assms(2) by (simp add: handshakes_ok_def)
  have ap: "apart skew (hs_clock s, nonce, ts) e" if "e \<in> set (hs_accepted s)" for e
  proof (cases e)
    case (fields c n ts0)
    show ?thesis
    proof (cases nonce)
      case (Some n1)
      then have "hs_cache s n1 = None" using v(4) by simp
      then have "n = Some n1 \<longrightarrow> c + skew * 1000 \<le> hs_clock s"
        using rem that fields unfolding remembered_def by (metis option.distinct(1))
      then show ?thesis using Some fields by (simp add: apart_def)
    qed (simp add: apart_def fields)
  qed
  have "remembered skew s'"
    using rem v(4) by (cases nonce) (fastforce simp: remembered_def accept(1) e)+
  then show ?thesis using assms(2) ap win by (simp add: handshakes_ok_def accept(1) e)
qed

lemma clock_skew_exact:
  assumes "0 \<le> now" "now + int skew < 2 ^ 63" "- (2 ^ 63) \<le> ts" "ts < 2 ^ 63" "clock_skew now ts \<le> skew"
  shows "\<bar>now - ts\<bar> \<le> int skew"
proof -
  define d where "d = signed_take_bit 63 (now - ts)"
  have "sint (word_of_int now - word_of_int ts :: 64 word) = d"
    unfolding wi_hom_sub sint_sbintrunc' d_def by simp
  then have d: "\<bar>d\<bar> \<le> int skew" using assms(5) unfolding clock_skew_def by simp
  have r: "- (2 ^ 63) \<le> d" "d < 2 ^ 63" unfolding d_def
    using signed_take_bit_int_greater_eq_minus_exp [of 63 "now - ts"] signed_take_bit_int_less_exp [of 63 "now - ts"] by simp_all
  have "take_bit 64 d = take_bit 64 (now - ts)" by (simp add: d_def take_bit_signed_take_bit)
  then have "d mod 2 ^ 64 = (now - ts) mod 2 ^ 64" by (simp add: take_bit_eq_mod)
  then obtain k where k: "now - ts = d + 2 ^ 64 * k" by (metis mod_eqE)
  have "now - ts < 2 ^ 64 - int skew" "- (2 ^ 63) \<le> now - ts" using assms(1-4) by simp_all
  then have "- 2 < k" "k < 1" using k r d by simp_all
  moreover have "k \<noteq> - 1" using k r assms(1,4) by auto
  ultimately have "k = 0" by simp
  then show ?thesis using k d by simp
qed


text \<open>
  A preface stamped ahead of the sandbox clock outlives its nonce: the reaper drops the nonce when the window has
  passed since the first use, while the timestamp is still inside the window.
\<close>

theorem future_preface_replayable:
  assumes "verify_preface hmac line secret skew (int (c1 div 1000)) c1 cache = (True, cache1)"
    "preface_fields line = Some (token, ts_str, Some nonce, signature)" "parse_i64 ts_str = Some ts"
    "clock_skew (int ((c1 + skew * 1000) div 1000)) ts \<le> skew"
  shows "fst (verify_preface hmac line secret skew (int ((c1 + skew * 1000) div 1000)) (c1 + skew * 1000)
    (reap_nonces skew (c1 + skew * 1000) cache1))"
proof -
  have v: "signature = hmac secret (signed_payload token ts (Some nonce))" "cache1 = cache(nonce \<mapsto> c1)"
    using assms(1) by (auto simp: verify_preface_def assms(2,3) split: if_splits)
  have "reap_nonces skew (c1 + skew * 1000) cache1 nonce = None" by (simp add: reap_nonces_def v(2))
  then show ?thesis using assms(4) by (simp add: verify_preface_def assms(2,3) v(1))
qed

lemma example_verify_at:
  assumes "clock_skew now 990 \<le> 300" "cache ''n-1'' = None"
  shows "verify_preface signing_mac example_line ''s'' 300 now c cache = (True, cache(''n-1'' \<mapsto> c))"
    and "accepted_entry c example_line = (c, Some ''n-1'', 990)"
proof -
  have "show_i64 990 = ''990''" by code_simp
  then have p: "parse_i64 ''990'' = Some 990" using parse_show_i64 [of 990] by simp
  show "verify_preface signing_mac example_line ''s'' 300 now c cache = (True, cache(''n-1'' \<mapsto> c))"
    using assms unfolding verify_preface_def example_fields by (simp add: p example_payload signing_mac_def Let_def)
  show "accepted_entry c example_line = (c, Some ''n-1'', 990)" by (simp add: accepted_entry_def example_fields p)
qed

lemma example_skews: "clock_skew 700 990 \<le> 300" "clock_skew 1000 990 \<le> 300"
  by (simp_all add: clock_skew_def)

theorem future_preface_replayable_witness:
  "fst (verify_preface signing_mac example_line ''s'' 300 1000 1000000 (reap_nonces 300 1000000 [''n-1'' \<mapsto> 700000]))"
proof -
  have "show_i64 990 = ''990''" by code_simp
  then have p: "parse_i64 ''990'' = Some 990" using parse_show_i64 [of 990] by simp
  have "verify_preface signing_mac example_line ''s'' 300 (int (700000 div 1000)) 700000 Map.empty = (True, [''n-1'' \<mapsto> 700000])"
    using example_verify_at(1) [OF example_skews(1), of Map.empty 700000] by simp
  from future_preface_replayable [OF this example_fields p] example_skews(2) show ?thesis by simp
qed

definition replayed :: "nat \<Rightarrow> nonce_cache \<Rightarrow> (nat \<times> string option \<times> int) list \<Rightarrow> handshakes" where
  "replayed c cache acc = \<lparr>hs_clock = c, hs_cache = cache, hs_accepted = acc\<rparr>"

lemma replayed_run:
  "(handshake_step signing_mac ''s'' 300)\<^sup>*\<^sup>* no_handshakes
     (replayed 1000000 [''n-1'' \<mapsto> 1000000] [(1000000, Some ''n-1'', 990), (700000, Some ''n-1'', 990)])"
proof -
  let ?step = "handshake_step signing_mac ''s'' 300"
  have a: "?step no_handshakes (replayed 700000 Map.empty [])"
    using handshake_step.pass [of no_handshakes 700000 signing_mac "''s''" 300] by (simp add: no_handshakes_def replayed_def)
  have b: "?step (replayed 700000 Map.empty []) (replayed 700000 [''n-1'' \<mapsto> 700000] [(700000, Some ''n-1'', 990)])"
    using handshake_step.accept [of signing_mac example_line "''s''" 300 "replayed 700000 Map.empty []" "[''n-1'' \<mapsto> 700000]"]
      example_verify_at [OF example_skews(1), of Map.empty 700000] by (simp add: replayed_def)
  have c: "?step (replayed 700000 [''n-1'' \<mapsto> 700000] [(700000, Some ''n-1'', 990)]) (replayed 1000000 [''n-1'' \<mapsto> 700000] [(700000, Some ''n-1'', 990)])"
    using handshake_step.pass [of "replayed 700000 [''n-1'' \<mapsto> 700000] [(700000, Some ''n-1'', 990)]" 1000000 signing_mac "''s''" 300]
    by (simp add: replayed_def)
  have "reap_nonces 300 1000000 [''n-1'' \<mapsto> 700000] = Map.empty" by (rule ext) (simp add: reap_nonces_def)
  then have d: "?step (replayed 1000000 [''n-1'' \<mapsto> 700000] [(700000, Some ''n-1'', 990)]) (replayed 1000000 Map.empty [(700000, Some ''n-1'', 990)])"
    using handshake_step.reap [of signing_mac "''s''" 300 "replayed 1000000 [''n-1'' \<mapsto> 700000] [(700000, Some ''n-1'', 990)]"]
    by (simp add: replayed_def)
  have e: "?step (replayed 1000000 Map.empty [(700000, Some ''n-1'', 990)])
      (replayed 1000000 [''n-1'' \<mapsto> 1000000] [(1000000, Some ''n-1'', 990), (700000, Some ''n-1'', 990)])"
    using handshake_step.accept [of signing_mac example_line "''s''" 300 "replayed 1000000 Map.empty [(700000, Some ''n-1'', 990)]" "[''n-1'' \<mapsto> 1000000]"]
      example_verify_at [OF example_skews(2), of Map.empty 1000000] by (simp add: replayed_def)
  show ?thesis using a b c d e by (meson converse_rtranclp_into_rtranclp rtranclp.rtrancl_refl)
qed


end
