(* ===== verification/Rego_Policy.thy ===== *)
theory Rego_Policy
  imports Policy_Model
begin

text \<open>
  The Rego rules of the sandbox (\<open>crates/openshell-sandbox/data/sandbox-policy.rego\<close>), rule by rule, over JSON documents.
  An expression has a value or is undefined; a rule body holds when each of its statements is defined and not false; a
  \<open>not\<close> holds when its expression is undefined or false; objects are visited in key order. The string built-ins
  \<open>lower\<close>, \<open>upper\<close> and \<open>glob.match\<close> belong to the engine and are parameters; patterns that the engine refuses are
  outside this model.
\<close>

section \<open>JSON\<close>

datatype json = JNull | JBool bool | JNum int | JStr string | JArr "json list" | JObj "(string \<times> json) list"

text \<open>An object is a sorted map.\<close>

definition obj :: "(string \<times> json) list \<Rightarrow> json" where
  "obj kvs = JObj (btree_collect kvs)"

fun jget :: "json \<Rightarrow> string \<Rightarrow> json option" where
  "jget (JObj kvs) key = map_of kvs key"
| "jget _ key = None"

fun as_str :: "json option \<Rightarrow> string option" where
  "as_str (Some (JStr s)) = Some s"
| "as_str _ = None"

fun as_array :: "json option \<Rightarrow> json list option" where
  "as_array (Some (JArr xs)) = Some xs"
| "as_array _ = None"

fun as_object :: "json option \<Rightarrow> (string \<times> json) list option" where
  "as_object (Some (JObj kvs)) = Some kvs"
| "as_object _ = None"

section \<open>Rego expressions\<close>

definition ref :: "json option \<Rightarrow> string \<Rightarrow> json option" where
  "ref v key = (case v of None \<Rightarrow> None | Some j \<Rightarrow> jget j key)"

text \<open>The bindings of \<open>v[k]\<close> for a variable \<open>k\<close>, and the values of \<open>v[_]\<close>.\<close>

fun items :: "json option \<Rightarrow> (json \<times> json) list" where
  "items (Some (JArr xs)) = zip (map (\<lambda>i. JNum (int i)) [0..<length xs]) xs"
| "items (Some (JObj kvs)) = map (\<lambda>(k, v). (JStr k, v)) kvs"
| "items _ = []"

definition elems :: "json option \<Rightarrow> json list" where
  "elems v = map snd (items v)"

definition truthy :: "json option \<Rightarrow> bool" where
  "truthy v \<longleftrightarrow> v \<noteq> None \<and> v \<noteq> Some (JBool False)"

fun count0 :: "json option \<Rightarrow> nat option" where
  "count0 (Some (JArr xs)) = Some (length xs)"
| "count0 (Some (JObj kvs)) = Some (length kvs)"
| "count0 (Some (JStr s)) = Some (length s)"
| "count0 _ = None"

definition count_positive :: "json option \<Rightarrow> bool" where
  "count_positive v \<longleftrightarrow> (case count0 v of None \<Rightarrow> False | Some n \<Rightarrow> n > 0)"

text \<open>\<open>object.get\<close> on a string key; other keys give the default.\<close>

definition object_get :: "json option \<Rightarrow> json \<Rightarrow> json \<Rightarrow> json option" where
  "object_get v key default0 = (case v of
     Some (JObj kvs) \<Rightarrow> (case key of JStr k \<Rightarrow> (case map_of kvs k of None \<Rightarrow> Some default0 | Some j \<Rightarrow> Some j) | _ \<Rightarrow> Some default0)
   | _ \<Rightarrow> None)"

record rego_builtins =
  rb_lower :: "string \<Rightarrow> string"
  rb_upper :: "string \<Rightarrow> string"
  rb_glob :: "string \<Rightarrow> string list \<Rightarrow> string \<Rightarrow> bool"

definition contains_star :: "json option \<Rightarrow> bool" where
  "contains_star v \<longleftrightarrow> (case as_str v of None \<Rightarrow> False | Some s \<Rightarrow> contains ''*'' s)"

definition lower_eq :: "rego_builtins \<Rightarrow> json option \<Rightarrow> json option \<Rightarrow> bool" where
  "lower_eq rb a b \<longleftrightarrow> (case (as_str a, as_str b) of (Some s, Some t) \<Rightarrow> rb_lower rb s = rb_lower rb t | _ \<Rightarrow> False)"

definition lower_glob :: "rego_builtins \<Rightarrow> json option \<Rightarrow> json option \<Rightarrow> bool" where
  "lower_glob rb a b \<longleftrightarrow> (case (as_str a, as_str b) of
     (Some s, Some t) \<Rightarrow> rb_glob rb (rb_lower rb s) [''.''] (rb_lower rb t) | _ \<Rightarrow> False)"

definition glob :: "rego_builtins \<Rightarrow> json option \<Rightarrow> string list \<Rightarrow> json option \<Rightarrow> bool" where
  "glob rb pattern delims v \<longleftrightarrow> (case (as_str pattern, as_str v) of (Some p, Some s) \<Rightarrow> rb_glob rb p delims s | _ \<Rightarrow> False)"

section \<open>Endpoints and binaries\<close>

definition port_listed :: "json option \<Rightarrow> json option \<Rightarrow> bool" where
  "port_listed endpoint network \<longleftrightarrow> ref network ''port'' \<noteq> None \<and>
     list_ex (\<lambda>p. Some p = ref network ''port'') (elems (ref endpoint ''ports''))"

definition host_exact :: "rego_builtins \<Rightarrow> json option \<Rightarrow> json option \<Rightarrow> bool" where
  "host_exact rb endpoint network \<longleftrightarrow> \<not> contains_star (ref endpoint ''host'')
     \<and> lower_eq rb (ref endpoint ''host'') (ref network ''host'') \<and> port_listed endpoint network"

definition host_glob :: "rego_builtins \<Rightarrow> json option \<Rightarrow> json option \<Rightarrow> bool" where
  "host_glob rb endpoint network \<longleftrightarrow> contains_star (ref endpoint ''host'')
     \<and> lower_glob rb (ref endpoint ''host'') (ref network ''host'') \<and> port_listed endpoint network"

definition hostless :: "json option \<Rightarrow> json option \<Rightarrow> bool" where
  "hostless endpoint network \<longleftrightarrow> object_get endpoint (JStr ''host'') (JStr []) = Some (JStr [])
     \<and> count_positive (object_get endpoint (JStr ''allowed_ips'') (JArr [])) \<and> port_listed endpoint network"

definition endpoint_allowed :: "rego_builtins \<Rightarrow> json option \<Rightarrow> json option \<Rightarrow> bool" where
  "endpoint_allowed rb policy network \<longleftrightarrow>
     list_ex (\<lambda>ep. host_exact rb (Some ep) network) (elems (ref policy ''endpoints''))
   \<or> list_ex (\<lambda>ep. host_glob rb (Some ep) network) (elems (ref policy ''endpoints''))
   \<or> list_ex (\<lambda>ep. hostless (Some ep) network) (elems (ref policy ''endpoints''))"

definition endpoint_matches_request :: "rego_builtins \<Rightarrow> json \<Rightarrow> json option \<Rightarrow> bool" where
  "endpoint_matches_request rb ep network \<longleftrightarrow>
     host_exact rb (Some ep) network \<or> host_glob rb (Some ep) network \<or> hostless (Some ep) network"

definition binary_allowed :: "rego_builtins \<Rightarrow> json option \<Rightarrow> json option \<Rightarrow> bool" where
  "binary_allowed rb policy exec \<longleftrightarrow>
     list_ex (\<lambda>b. let path = ref (Some b) ''path'' in \<not> contains_star path \<and> path \<noteq> None \<and> path = ref exec ''path'')
       (elems (ref policy ''binaries''))
   \<or> list_ex (\<lambda>b. let path = ref (Some b) ''path'' in \<not> contains_star path \<and> path \<noteq> None
       \<and> list_ex (\<lambda>a. path = Some a) (elems (ref exec ''ancestors''))) (elems (ref policy ''binaries''))
   \<or> list_ex (\<lambda>b. let path = ref (Some b) ''path'' in contains_star path
       \<and> (case (ref exec ''path'', as_array (ref exec ''ancestors'')) of
            (Some p, Some as) \<Rightarrow> list_ex (\<lambda>q. glob rb path [''/''] (Some q)) (p # as) | _ \<Rightarrow> False))
       (elems (ref policy ''binaries''))"

section \<open>Network decision\<close>

definition network_policies :: "json \<Rightarrow> (json \<times> json) list" where
  "network_policies data = items (ref (Some data) ''network_policies'')"

definition policy_matches :: "rego_builtins \<Rightarrow> json \<Rightarrow> json \<Rightarrow> bool" where
  "policy_matches rb inp policy \<longleftrightarrow> endpoint_allowed rb (Some policy) (ref (Some inp) ''network'')
     \<and> binary_allowed rb (Some policy) (ref (Some inp) ''exec'')"

definition network_policy_for_request :: "rego_builtins \<Rightarrow> json \<Rightarrow> json \<Rightarrow> bool" where
  "network_policy_for_request rb data inp \<longleftrightarrow> list_ex (\<lambda>(name, policy). policy_matches rb inp policy) (network_policies data)"

definition allow_network :: "rego_builtins \<Rightarrow> json \<Rightarrow> json \<Rightarrow> bool" where
  "allow_network rb data inp \<longleftrightarrow> network_policy_for_request rb data inp"

definition network_action_rule :: "rego_builtins \<Rightarrow> json \<Rightarrow> json \<Rightarrow> string" where
  "network_action_rule rb data inp = (if network_policy_for_request rb data inp then ''allow'' else ''deny'')"

fun json_strs :: "json list \<Rightarrow> string list option" where
  "json_strs [] = Some []"
| "json_strs (JStr s # js) = map_option (Cons s) (json_strs js)"
| "json_strs (_ # js) = None"

text \<open>\<open>sprintf\<close> with strings and a port, and \<open>concat\<close>, on the types the rules use; undefined otherwise.\<close>

definition concat0 :: "string \<Rightarrow> json option \<Rightarrow> string option" where
  "concat0 sep v = (case as_array v of None \<Rightarrow> None | Some js \<Rightarrow> map_option (join sep) (json_strs js))"

fun port_text :: "json option \<Rightarrow> string option" where
  "port_text (Some (JNum n)) = (if n \<ge> 0 then Some (show_nat (nat n)) else None)"
| "port_text _ = None"

definition endpoint_misses :: "rego_builtins \<Rightarrow> json \<Rightarrow> json \<Rightarrow> string list" where
  "endpoint_misses rb data inp = (let network = ref (Some inp) ''network'' in
     List.map_filter (\<lambda>(name, policy). if endpoint_allowed rb (Some policy) network then None
       else (case (as_str (ref network ''host''), port_text (ref network ''port''), name) of
           (Some h, Some p, JStr n) \<Rightarrow> Some (''endpoint '' @ h @ '':'' @ p @ '' not in policy '' @ [CHR 0x27] @ n @ [CHR 0x27])
         | _ \<Rightarrow> None)) (network_policies data))"

definition binary_misses :: "rego_builtins \<Rightarrow> json \<Rightarrow> json \<Rightarrow> string \<Rightarrow> string \<Rightarrow> string list" where
  "binary_misses rb data inp ancestors_str cmdline_str = (let network = ref (Some inp) ''network''; exec = ref (Some inp) ''exec'' in
     List.map_filter (\<lambda>(name, policy).
       if endpoint_allowed rb (Some policy) network \<and> \<not> binary_allowed rb (Some policy) exec
       then (case (as_str (ref exec ''path''), name) of
           (Some p, JStr n) \<Rightarrow> Some (''binary '' @ [CHR 0x27] @ p @ [CHR 0x27] @ '' (ancestors: ['' @ ancestors_str @ ''], cmdline: [''
             @ cmdline_str @ '']) not allowed in policy '' @ [CHR 0x27] @ n @ [CHR 0x27])
         | _ \<Rightarrow> None)
       else None) (network_policies data))"

text \<open>The values that the bodies of \<open>deny_reason\<close> produce, in the order of the file.\<close>

definition deny_reasons :: "rego_builtins \<Rightarrow> json \<Rightarrow> json \<Rightarrow> string list" where
  "deny_reasons rb data inp = (let network = ref (Some inp) ''network''; exec = ref (Some inp) ''exec'' in
     (if \<not> truthy network then [''missing input.network''] else [])
   @ (if truthy network \<and> \<not> truthy exec then [''missing input.exec''] else [])
   @ (if truthy network \<and> truthy exec \<and> \<not> network_policy_for_request rb data inp then
        (case (concat0 '' -> '' (ref exec ''ancestors''), concat0 '', '' (ref exec ''cmdline_paths'')) of
           (Some as, Some cs) \<Rightarrow>
             let all_reasons = endpoint_misses rb data inp @ binary_misses rb data inp as cs
             in if all_reasons \<noteq> [] then [join ''; '' all_reasons] else []
         | _ \<Rightarrow> [])
      else [])
   @ (if truthy network \<and> truthy exec \<and> \<not> network_policy_for_request rb data inp
        \<and> count0 (ref (Some data) ''network_policies'') = Some 0 then [''network connections not allowed by policy''] else []))"

text \<open>A complete rule has at most one value; two different ones are a conflict, an error of the evaluation.\<close>

definition complete_rule :: "'v list \<Rightarrow> (string, 'v option) result" where
  "complete_rule vs = (case vs of [] \<Rightarrow> Inr None
     | v # rest \<Rightarrow> if list_all (\<lambda>w. w = v) rest then Inr (Some v) else Inl ''complete rule conflict'')"

definition matching_policy_names :: "rego_builtins \<Rightarrow> json \<Rightarrow> json \<Rightarrow> string list" where
  "matching_policy_names rb data inp = sort (remdups (List.map_filter
     (\<lambda>(name, policy). if policy_matches rb inp policy then as_str (Some name) else None) (network_policies data)))"

definition matched_network_policy :: "rego_builtins \<Rightarrow> json \<Rightarrow> json \<Rightarrow> string option" where
  "matched_network_policy rb data inp = (case matching_policy_names rb data inp of [] \<Rightarrow> None | n # _ \<Rightarrow> Some n)"

section \<open>Requests inside a tunnel\<close>

definition method_matches :: "rego_builtins \<Rightarrow> json option \<Rightarrow> json option \<Rightarrow> bool" where
  "method_matches rb actual expected \<longleftrightarrow> (case (actual, as_str expected) of
     (Some a, Some e) \<Rightarrow> if e = ''*'' then True else (case a of JStr s \<Rightarrow> rb_upper rb s = rb_upper rb e | _ \<Rightarrow> False)
   | _ \<Rightarrow> False)"

definition path_matches :: "rego_builtins \<Rightarrow> json option \<Rightarrow> json option \<Rightarrow> bool" where
  "path_matches rb actual pattern \<longleftrightarrow> (case (actual, as_str pattern) of
     (Some a, Some p) \<Rightarrow> if p = ''**'' then True else glob rb pattern [''/''] actual
   | _ \<Rightarrow> False)"

definition query_value_matches :: "rego_builtins \<Rightarrow> json \<Rightarrow> json \<Rightarrow> bool" where
  "query_value_matches rb value matcher \<longleftrightarrow> (case matcher of
     JStr _ \<Rightarrow> glob rb (Some matcher) [] (Some value)
   | JObj _ \<Rightarrow>
       (let glob_pattern = object_get (Some matcher) (JStr ''glob'') (JStr []) in
        glob_pattern \<noteq> Some (JStr []) \<and> glob rb glob_pattern [] (Some value))
     \<or> (let any_patterns = object_get (Some matcher) (JStr ''any'') (JArr []) in
        count_positive any_patterns \<and> list_ex (\<lambda>p. glob rb (Some p) [] (Some value)) (elems any_patterns))
   | _ \<Rightarrow> False)"

definition query_value_mismatch :: "rego_builtins \<Rightarrow> json option \<Rightarrow> json \<Rightarrow> bool" where
  "query_value_mismatch rb values matcher \<longleftrightarrow> list_ex (\<lambda>v. \<not> query_value_matches rb v matcher) (elems values)"

definition query_key_matches :: "rego_builtins \<Rightarrow> json \<Rightarrow> json \<Rightarrow> json \<Rightarrow> bool" where
  "query_key_matches rb request key matcher \<longleftrightarrow>
     (let request_query = object_get (Some request) (JStr ''query_params'') (JObj []);
          values = object_get request_query key JNull
      in values \<noteq> None \<and> values \<noteq> Some JNull \<and> count_positive values \<and> \<not> query_value_mismatch rb values matcher)"

definition query_mismatch :: "rego_builtins \<Rightarrow> json \<Rightarrow> json option \<Rightarrow> bool" where
  "query_mismatch rb request query_rules \<longleftrightarrow>
     list_ex (\<lambda>(key, matcher). \<not> query_key_matches rb request key matcher) (items query_rules)"

definition query_params_match :: "rego_builtins \<Rightarrow> json \<Rightarrow> json \<Rightarrow> bool" where
  "query_params_match rb request rule \<longleftrightarrow>
     (let query_rules = object_get (ref (Some rule) ''allow'') (JStr ''query'') (JObj [])
      in query_rules \<noteq> None \<and> \<not> query_mismatch rb request query_rules)"

definition command_matches :: "rego_builtins \<Rightarrow> json option \<Rightarrow> json option \<Rightarrow> bool" where
  "command_matches rb actual expected \<longleftrightarrow> method_matches rb actual expected"

definition request_allowed_for_endpoint :: "rego_builtins \<Rightarrow> json option \<Rightarrow> json \<Rightarrow> bool" where
  "request_allowed_for_endpoint rb request endpoint \<longleftrightarrow>
     list_ex (\<lambda>rule. let allow = ref (Some rule) ''allow'' in truthy (ref allow ''method'')
       \<and> method_matches rb (ref request ''method'') (ref allow ''method'')
       \<and> path_matches rb (ref request ''path'') (ref allow ''path'')
       \<and> (case request of None \<Rightarrow> False | Some r \<Rightarrow> query_params_match rb r rule)) (elems (ref (Some endpoint) ''rules''))
   \<or> list_ex (\<lambda>rule. let allow = ref (Some rule) ''allow'' in truthy (ref allow ''command'')
       \<and> command_matches rb (ref request ''command'') (ref allow ''command'')) (elems (ref (Some endpoint) ''rules''))"

definition policy_allows_l7 :: "rego_builtins \<Rightarrow> json \<Rightarrow> json \<Rightarrow> bool" where
  "policy_allows_l7 rb inp policy \<longleftrightarrow> list_ex (\<lambda>ep. endpoint_matches_request rb ep (ref (Some inp) ''network'')
     \<and> request_allowed_for_endpoint rb (ref (Some inp) ''request'') ep) (elems (ref (Some policy) ''endpoints''))"

definition allow_request :: "rego_builtins \<Rightarrow> json \<Rightarrow> json \<Rightarrow> bool" where
  "allow_request rb data inp \<longleftrightarrow>
     list_ex (\<lambda>(name, policy). policy_matches rb inp policy \<and> policy_allows_l7 rb inp policy) (network_policies data)"

definition request_deny_reason :: "rego_builtins \<Rightarrow> json \<Rightarrow> json \<Rightarrow> string option" where
  "request_deny_reason rb data inp = (let request = ref (Some inp) ''request'' in
     if truthy request \<and> \<not> allow_request rb data inp
     then (case (as_str (ref request ''method''), as_str (ref request ''path'')) of
         (Some m, Some p) \<Rightarrow> Some (m @ '' '' @ p @ '' not permitted by policy'') | _ \<Rightarrow> None)
     else None)"

section \<open>The configuration of the matched endpoint\<close>

definition endpoint_has_extended_config :: "json \<Rightarrow> bool" where
  "endpoint_has_extended_config ep \<longleftrightarrow> truthy (ref (Some ep) ''protocol'')
     \<or> count_positive (object_get (Some ep) (JStr ''allowed_ips'') (JArr [])) \<or> truthy (ref (Some ep) ''tls'')"

definition policy_endpoint_configs :: "rego_builtins \<Rightarrow> json \<Rightarrow> json \<Rightarrow> json list" where
  "policy_endpoint_configs rb inp policy = filter (\<lambda>ep. endpoint_matches_request rb ep (ref (Some inp) ''network'')
     \<and> endpoint_has_extended_config ep) (elems (ref (Some policy) ''endpoints''))"

definition matching_endpoint_configs :: "rego_builtins \<Rightarrow> json \<Rightarrow> json \<Rightarrow> json list" where
  "matching_endpoint_configs rb data inp = concat (map (\<lambda>pname.
     (case ref (ref (Some data) ''network_policies'') pname of None \<Rightarrow> [] | Some policy \<Rightarrow> policy_endpoint_configs rb inp policy))
     (matching_policy_names rb data inp))"

definition matched_endpoint_config :: "rego_builtins \<Rightarrow> json \<Rightarrow> json \<Rightarrow> json option" where
  "matched_endpoint_config rb data inp = (case matching_endpoint_configs rb data inp of [] \<Rightarrow> None | c # _ \<Rightarrow> Some c)"

end
