(* ===== verification/Opa_Data.thy ===== *)
theory Opa_Data
  imports Rego_Policy
begin

text \<open>
  The data document of the policy engine: its construction from a policy message
  (\<open>crates/openshell-sandbox/src/opa.rs\<close>), port normalisation, validation and preset expansion
  (\<open>crates/openshell-sandbox/src/l7/mod.rs\<close>). Numbers of a document are integers.
\<close>

section \<open>Policy messages as data documents\<close>

definition opt_field :: "string \<Rightarrow> string \<Rightarrow> (string \<times> json) list" where
  "opt_field key s = (if s = [] then [] else [(key, JStr s)])"

definition opt_array :: "string \<Rightarrow> json list \<Rightarrow> (string \<times> json) list" where
  "opt_array key js = (if js = [] then [] else [(key, JArr js)])"

definition str_array :: "string list \<Rightarrow> json" where
  "str_array ss = JArr (map JStr ss)"

definition matcher_json :: "l7_query_matcher \<Rightarrow> json" where
  "matcher_json m = obj (opt_field ''glob'' (qm_glob m) @ opt_array ''any'' (map JStr (qm_any m)))"

definition allow_json :: "l7_rule \<Rightarrow> json" where
  "allow_json r = (let a = lr_allow r;
       query = (case a of None \<Rightarrow> [] | Some al \<Rightarrow> map (\<lambda>(key, m). (key, matcher_json m)) (al_query al))
     in obj ([(''method'', JStr (case a of None \<Rightarrow> [] | Some al \<Rightarrow> al_method al)),
          (''path'', JStr (case a of None \<Rightarrow> [] | Some al \<Rightarrow> al_path al)),
          (''command'', JStr (case a of None \<Rightarrow> [] | Some al \<Rightarrow> al_command al))]
        @ (if query = [] then [] else [(''query'', obj query)])))"

definition endpoint_ports :: "network_endpoint \<Rightarrow> u32 list" where
  "endpoint_ports e = (if ep_ports e \<noteq> [] then ep_ports e else if ep_port e > 0 then [ep_port e] else [])"

definition endpoint_json :: "network_endpoint \<Rightarrow> json" where
  "endpoint_json e = obj ([(''host'', JStr (ep_host e)), (''ports'', JArr (map (\<lambda>p. JNum (uint p)) (endpoint_ports e)))]
     @ opt_field ''protocol'' (ep_protocol e) @ opt_field ''tls'' (ep_tls e) @ opt_field ''enforcement'' (ep_enforcement e)
     @ opt_field ''access'' (ep_access e)
     @ opt_array ''rules'' (map (\<lambda>r. obj [(''allow'', allow_json r)]) (ep_rules e))
     @ opt_array ''allowed_ips'' (map JStr (ep_allowed_ips e)))"

definition policy_rule_json :: "network_policy_rule \<Rightarrow> json" where
  "policy_rule_json rule = obj [(''name'', JStr (np_name rule)), (''endpoints'', JArr (map endpoint_json (np_endpoints rule))),
     (''binaries'', JArr (map (\<lambda>b. obj [(''path'', JStr (nb_path b))]) (np_binaries rule)))]"

definition proto_to_opa_data_json :: "sandbox_policy \<Rightarrow> json" where
  "proto_to_opa_data_json proto = obj
     [(''filesystem_policy'', (case sp_filesystem proto of
         None \<Rightarrow> obj [(''include_workdir'', JBool True), (''read_only'', JArr []), (''read_write'', JArr [])]
       | Some fs \<Rightarrow> obj [(''include_workdir'', JBool (fs_include_workdir fs)), (''read_only'', str_array (fs_read_only fs)),
           (''read_write'', str_array (fs_read_write fs))])),
      (''landlock'', (case sp_landlock proto of None \<Rightarrow> obj [(''compatibility'', JStr ''best_effort'')]
       | Some ll \<Rightarrow> obj [(''compatibility'', JStr (ll_compatibility ll))])),
      (''process'', (case sp_process proto of
         None \<Rightarrow> obj [(''run_as_user'', JStr ''sandbox''), (''run_as_group'', JStr ''sandbox'')]
       | Some p \<Rightarrow> obj [(''run_as_user'', JStr (pr_run_as_user p)), (''run_as_group'', JStr (pr_run_as_group p))])),
      (''network_policies'', obj (map (\<lambda>(key, rule). (key, policy_rule_json rule)) (sp_network_policies proto)))]"

section \<open>Changing a document\<close>

fun jupdate :: "json \<Rightarrow> string \<Rightarrow> (json \<Rightarrow> json) \<Rightarrow> json" where
  "jupdate (JObj kvs) key f = JObj (map (\<lambda>(k, v). (k, if k = key then f v else v)) kvs)"
| "jupdate j key f = j"

fun jinsert :: "json \<Rightarrow> string \<Rightarrow> json \<Rightarrow> json" where
  "jinsert (JObj kvs) key v = obj ((key, v) # filter (\<lambda>(k, _). k \<noteq> key) kvs)"
| "jinsert j key v = j"

fun jremove :: "json \<Rightarrow> string \<Rightarrow> json" where
  "jremove (JObj kvs) key = JObj (filter (\<lambda>(k, _). k \<noteq> key) kvs)"
| "jremove j key = j"

text \<open>The loop over the endpoints of every policy that both passes have.\<close>

definition map_endpoints :: "(json \<Rightarrow> json) \<Rightarrow> json \<Rightarrow> json" where
  "map_endpoints f data = jupdate data ''network_policies'' (\<lambda>np. case np of
     JObj policies \<Rightarrow> JObj (map (\<lambda>(name, policy). (name, jupdate policy ''endpoints''
       (\<lambda>es. case es of JArr eps \<Rightarrow> JArr (map f eps) | _ \<Rightarrow> es))) policies)
   | _ \<Rightarrow> np)"

fun as_u64 :: "json option \<Rightarrow> nat option" where
  "as_u64 (Some (JNum n)) = (if 0 \<le> n \<and> n < 2 ^ 64 then Some (nat n) else None)"
| "as_u64 _ = None"

definition nonempty_array :: "json option \<Rightarrow> bool" where
  "nonempty_array v \<longleftrightarrow> (case as_array v of None \<Rightarrow> False | Some a \<Rightarrow> a \<noteq> [])"

definition str_or_empty :: "json option \<Rightarrow> string" where
  "str_or_empty v = (case as_str v of None \<Rightarrow> [] | Some s \<Rightarrow> s)"

definition normalize_ports :: "json \<Rightarrow> json" where
  "normalize_ports ep = (case ep of
     JObj _ \<Rightarrow>
       let has_ports = nonempty_array (jget ep ''ports'');
           port = (case as_u64 (jget ep ''port'') of None \<Rightarrow> 0 | Some p \<Rightarrow> p);
           ep1 = (if \<not> has_ports \<and> port > 0 then jinsert ep ''ports'' (JArr [JNum (int port)]) else ep)
       in jremove ep1 ''port''
   | _ \<Rightarrow> ep)"

definition normalize_endpoint_ports :: "json \<Rightarrow> json" where
  "normalize_endpoint_ports data = map_endpoints normalize_ports data"

definition rule_json :: "string \<Rightarrow> string \<Rightarrow> json" where
  "rule_json method0 path = obj [(''allow'', obj [(''method'', JStr method0), (''path'', JStr path)])]"

definition access_preset :: "string \<Rightarrow> json list option" where
  "access_preset access =
     (if access = ''read-only'' then Some (map (\<lambda>m. rule_json m ''**'') [''GET'', ''HEAD'', ''OPTIONS''])
      else if access = ''read-write'' then Some (map (\<lambda>m. rule_json m ''**'') [''GET'', ''HEAD'', ''OPTIONS'', ''POST'', ''PUT'', ''PATCH''])
      else if access = ''full'' then Some [rule_json ''*'' ''**''] else None)"

definition expand_endpoint :: "json \<Rightarrow> json" where
  "expand_endpoint ep = (let access = str_or_empty (jget ep ''access'') in
     if access = [] then ep
     else if nonempty_array (jget ep ''rules'') then ep
     else (case access_preset access of None \<Rightarrow> ep | Some rules \<Rightarrow> jinsert ep ''rules'' (JArr rules)))"

definition expand_access_presets :: "json \<Rightarrow> json" where
  "expand_access_presets data = map_endpoints expand_endpoint data"

section \<open>Validation\<close>

fun depth_check :: "char \<Rightarrow> char \<Rightarrow> nat \<Rightarrow> string \<Rightarrow> (unit, nat) result" where
  "depth_check open0 close0 d [] = Inr d"
| "depth_check open0 close0 d (c # cs) = (if c = open0 then depth_check open0 close0 (d + 1) cs
     else if c = close0 then (if d = 0 then Inl () else depth_check open0 close0 (d - 1) cs)
     else depth_check open0 close0 d cs)"

definition quoted_pattern :: "string \<Rightarrow> string" where
  "quoted_pattern pattern = ''glob pattern '' @ [CHR 0x27] @ pattern @ [CHR 0x27]"

definition check_glob_syntax :: "string \<Rightarrow> string option" where
  "check_glob_syntax pattern = (case depth_check (CHR ''['') (CHR '']'') 0 pattern of
     Inl _ \<Rightarrow> Some (quoted_pattern pattern @ '' has unmatched '' @ [CHR 0x27] @ '']'' @ [CHR 0x27])
   | Inr d \<Rightarrow> if d > 0 then Some (quoted_pattern pattern @ '' has unclosed '' @ [CHR 0x27] @ ''['' @ [CHR 0x27])
     else (case depth_check (CHR ''{'') (CHR ''}'') 0 pattern of
         Inl _ \<Rightarrow> Some (quoted_pattern pattern @ '' has unmatched '' @ [CHR 0x27] @ ''}'' @ [CHR 0x27])
       | Inr e \<Rightarrow> if e > 0 then Some (quoted_pattern pattern @ '' has unclosed '' @ [CHR 0x27] @ ''{'' @ [CHR 0x27]) else None))"

text \<open>Errors and warnings, in the order they are pushed.\<close>

type_synonym diagnostics = "string list \<times> string list"

definition diag_append :: "diagnostics \<Rightarrow> diagnostics \<Rightarrow> diagnostics" where
  "diag_append a b = (fst a @ fst b, snd a @ snd b)"

definition diag_concat :: "diagnostics list \<Rightarrow> diagnostics" where
  "diag_concat ds = (concat (map fst ds), concat (map snd ds))"

definition err :: "string \<Rightarrow> diagnostics" where "err e = ([e], [])"
definition warn :: "string \<Rightarrow> diagnostics" where "warn w = ([], [w])"
definition no_diag :: diagnostics where "no_diag = ([], [])"

definition glob_warning :: "string \<Rightarrow> string \<Rightarrow> diagnostics" where
  "glob_warning loc g = (case check_glob_syntax g of None \<Rightarrow> no_diag | Some w \<Rightarrow> warn (loc @ '': '' @ w))"

definition validate_matcher :: "string \<Rightarrow> json \<Rightarrow> diagnostics" where
  "validate_matcher loc matcher = (case matcher of
     JStr g \<Rightarrow> glob_warning loc g
   | JObj kvs \<Rightarrow>
       let has_any = map_of kvs ''any'' \<noteq> None; has_glob = map_of kvs ''glob'' \<noteq> None;
           has_unknown = list_ex (\<lambda>(k, _). k \<noteq> ''any'' \<and> k \<noteq> ''glob'') kvs
       in if has_unknown then err (loc @ '': unknown matcher keys; only `glob` or `any` are supported'')
          else if has_glob \<and> has_any then err (loc @ '': matcher cannot specify both `glob` and `any`'')
          else if \<not> has_glob \<and> \<not> has_any then err (loc @ '': object matcher requires `glob` string or non-empty `any` list'')
          else if has_glob then (case as_str (map_of kvs ''glob'') of
              None \<Rightarrow> err (loc @ ''.glob: expected glob string'')
            | Some g \<Rightarrow> glob_warning (loc @ ''.glob'') g)
          else (case as_array (map_of kvs ''any'') of
              None \<Rightarrow> err (loc @ ''.any: expected array of glob strings'')
            | Some any \<Rightarrow> if any = [] then err (loc @ ''.any: list must not be empty'')
                else diag_append (if list_ex (\<lambda>v. as_str (Some v) = None) any then err (loc @ ''.any: all values must be strings'') else no_diag)
                  (diag_concat (map (glob_warning (loc @ ''.any'')) (List.map_filter (\<lambda>v. as_str (Some v)) any))))
   | _ \<Rightarrow> err (loc @ '': expected string glob or object with `any`''))"

definition valid_methods :: "string list" where
  "valid_methods = [''GET'', ''HEAD'', ''POST'', ''PUT'', ''DELETE'', ''PATCH'', ''OPTIONS'', ''*'']"

definition validate_l7_rule :: "string \<Rightarrow> nat \<Rightarrow> json \<Rightarrow> diagnostics" where
  "validate_l7_rule loc rule_idx rule = (let allow = jget rule ''allow'';
       rloc = loc @ ''.rules['' @ show_nat rule_idx @ ''].allow.query''
     in diag_append
       (case as_str (ref allow ''method'') of
          None \<Rightarrow> no_diag
        | Some method0 \<Rightarrow> if method0 \<noteq> [] \<and> to_ascii_uppercase method0 \<notin> set valid_methods
            then warn (loc @ '': Unknown HTTP method '' @ [CHR 0x27] @ method0 @ [CHR 0x27]
              @ ''. Standard methods: GET, HEAD, POST, PUT, DELETE, PATCH, OPTIONS.'') else no_diag)
       (case ref allow ''query'' of
          None \<Rightarrow> no_diag
        | Some JNull \<Rightarrow> no_diag
        | Some (JObj kvs) \<Rightarrow> diag_concat (map (\<lambda>(param, matcher). validate_matcher (rloc @ ''.'' @ param) matcher) kvs)
        | Some _ \<Rightarrow> err (rloc @ '': expected map of query matchers'')))"

definition em_dash :: string where "em_dash = [CHR 0xE2, CHR 0x80, CHR 0x94]"

definition validate_host :: "string \<Rightarrow> string \<Rightarrow> diagnostics" where
  "validate_host loc host = (let q = [CHR 0x27] in
     if \<not> contains ''*'' host then no_diag
     else if host = ''*'' \<or> host = ''**'' then err (loc @ '': host wildcard '' @ q @ host @ q
       @ '' matches all hosts; use specific patterns like '' @ q @ ''*.example.com'' @ q)
     else if \<not> starts_with ''*.'' host \<and> \<not> starts_with ''**.'' host then err (loc @ '': host wildcard must start with ''
       @ q @ ''*.'' @ q @ '' or '' @ q @ ''**.'' @ q @ '' (e.g., '' @ q @ ''*.example.com'' @ q @ ''), got '' @ q @ host @ q)
     else if length (split_char (CHR ''.'') host) \<le> 2 then warn (loc @ '': host wildcard '' @ q @ host @ q
       @ '' is very broad (covers all subdomains of a TLD)'')
     else no_diag)"

definition validation_ports :: "json \<Rightarrow> nat list" where
  "validation_ports ep = (case as_array (jget ep ''ports'') of
     Some arr \<Rightarrow> List.map_filter (\<lambda>v. as_u64 (Some v)) arr
   | None \<Rightarrow> (case as_u64 (jget ep ''port'') of None \<Rightarrow> [] | Some p \<Rightarrow> if p > 0 then [p] else []))"

definition validate_endpoint :: "string \<Rightarrow> nat \<Rightarrow> json \<Rightarrow> diagnostics" where
  "validate_endpoint name i ep =
     (let protocol = str_or_empty (jget ep ''protocol''); tls = str_or_empty (jget ep ''tls'');
          enforcement = str_or_empty (jget ep ''enforcement''); access = str_or_empty (jget ep ''access'');
          has_rules = nonempty_array (jget ep ''rules''); host = str_or_empty (jget ep ''host'');
          loc = name @ ''.endpoints['' @ show_nat i @ '']'';
          has_scalar_port = (case as_u64 (jget ep ''port'') of None \<Rightarrow> False | Some p \<Rightarrow> p > 0);
          has_ports_array = nonempty_array (jget ep ''ports'')
      in diag_concat
        [validate_host loc host,
         (if has_scalar_port \<and> has_ports_array then err (loc @ '': port and ports are mutually exclusive; use ports for multiple ports'') else no_diag),
         (if has_rules \<and> access \<noteq> [] then err (loc @ '': rules and access are mutually exclusive'') else no_diag),
         (if protocol \<noteq> [] \<and> \<not> has_rules \<and> access = [] then err (loc @ '': protocol requires rules or access to define allowed traffic'') else no_diag),
         (if tls = ''terminate'' \<or> tls = ''passthrough'' then warn (loc @ '': '' @ [CHR 0x27] @ ''tls: '' @ tls @ [CHR 0x27]
           @ '' is deprecated; TLS termination is now automatic. Use '' @ [CHR 0x27] @ ''tls: skip'' @ [CHR 0x27] @ '' to disable.'') else no_diag),
         (if tls = ''skip'' \<and> protocol \<noteq> [] \<and> 443 \<in> set (validation_ports ep) then warn (loc @ '': '' @ [CHR 0x27] @ ''tls: skip''
           @ [CHR 0x27] @ '' with L7 rules on port 443 '' @ em_dash @ '' L7 inspection cannot work on encrypted traffic'') else no_diag),
         (if protocol = ''sql'' \<and> enforcement = ''enforce'' then err (loc
           @ '': SQL enforcement requires full SQL parsing (not available in v1). Use `enforcement: audit`.'') else no_diag),
         (if as_array (jget ep ''rules'') = Some [] then err (loc
           @ '': rules list cannot be empty (would deny all traffic). Use `access: full` or remove rules.'') else no_diag),
         (if has_rules \<and> protocol = ''rest'' then (case as_array (jget ep ''rules'') of None \<Rightarrow> no_diag
            | Some rules \<Rightarrow> diag_concat (map (\<lambda>(idx, rule). validate_l7_rule loc idx rule) (zip [0..<length rules] rules)))
          else no_diag)])"

definition validate_l7_policies :: "json \<Rightarrow> diagnostics" where
  "validate_l7_policies data = (case as_object (jget data ''network_policies'') of
     None \<Rightarrow> no_diag
   | Some policies \<Rightarrow> diag_concat (map (\<lambda>(name, policy). (case as_array (jget policy ''endpoints'') of
         None \<Rightarrow> no_diag
       | Some eps \<Rightarrow> diag_concat (map (\<lambda>(i, ep). validate_endpoint name i ep) (zip [0..<length eps] eps)))) policies))"

end
