(* ===== verification/Opa_Engine.thy ===== *)
theory Opa_Engine
  imports Opa_Data Proxy_Connect
begin

text \<open>
  The policy engine of the sandbox (\<open>crates/openshell-sandbox/src/opa.rs\<close>): loading, reloading, and every query the
  proxy makes. An engine is its data document, evaluated by the rules of the repository; writing a document as text
  and reading it back is the identity.
\<close>

section \<open>Loading\<close>

definition preprocess :: "json \<Rightarrow> (string, json) result" where
  "preprocess data = (case validate_l7_policies data of (errors, warnings) \<Rightarrow>
     if errors \<noteq> [] then Inl (''L7 policy validation failed:'' @ [LF] @ join [LF] errors)
     else Inr (expand_access_presets data))"

definition engine_from_proto :: "sandbox_policy \<Rightarrow> (string, json) result" where
  "engine_from_proto proto = preprocess (proto_to_opa_data_json proto)"

definition preprocess_yaml_data :: "(string \<Rightarrow> (string, json) result) \<Rightarrow> string \<Rightarrow> (string, json) result" where
  "preprocess_yaml_data yaml yaml_str = (case yaml yaml_str of
     Inl e \<Rightarrow> Inl (''failed to parse YAML data: '' @ e)
   | Inr data \<Rightarrow> preprocess (normalize_endpoint_ports data))"

text \<open>The new engine replaces the old one only when it loads.\<close>

definition reload_from_proto :: "sandbox_policy \<Rightarrow> json \<Rightarrow> (string, unit) result \<times> json" where
  "reload_from_proto proto engine = (case engine_from_proto proto of Inl e \<Rightarrow> (Inl e, engine) | Inr new \<Rightarrow> (Inr (), new))"

section \<open>Queries\<close>

definition strings_lossy :: "string list \<Rightarrow> json" where
  "strings_lossy paths = str_array (map utf8_lossy paths)"

definition network_input_json :: "network_input \<Rightarrow> json" where
  "network_input_json inp = obj
     [(''exec'', obj [(''path'', JStr (utf8_lossy (ni_binary_path inp))), (''ancestors'', strings_lossy (ni_ancestors inp)),
        (''cmdline_paths'', strings_lossy (ni_cmdline_paths inp))]),
      (''network'', obj [(''host'', JStr (ni_host inp)), (''port'', JNum (uint (ni_port inp)))])]"

record policy_decision =
  pd_allowed :: bool
  pd_reason :: string
  pd_matched_policy :: "string option"

text \<open>\<open>value_to_string\<close> of an optional string value.\<close>

definition value_to_string :: "string option \<Rightarrow> string" where
  "value_to_string v = (case v of None \<Rightarrow> [] | Some s \<Rightarrow> s)"

definition evaluate_network :: "rego_builtins \<Rightarrow> json \<Rightarrow> network_input \<Rightarrow> (string, policy_decision) result" where
  "evaluate_network rb engine inp = (let j = network_input_json inp in
     and_then (complete_rule (deny_reasons rb engine j)) (\<lambda>reason.
       Inr \<lparr>pd_allowed = allow_network rb engine j, pd_reason = value_to_string reason,
         pd_matched_policy = matched_network_policy rb engine j\<rparr>))"

definition evaluate_network_action :: "rego_builtins \<Rightarrow> json \<Rightarrow> network_input \<Rightarrow> (string, network_action) result" where
  "evaluate_network_action rb engine inp = (let j = network_input_json inp in
     if network_action_rule rb engine j = ''allow'' then Inr (Allow (matched_network_policy rb engine j))
     else and_then (complete_rule (deny_reasons rb engine j)) (\<lambda>reason. Inr (Deny (value_to_string reason))))"

definition query_endpoint_config :: "rego_builtins \<Rightarrow> json \<Rightarrow> network_input \<Rightarrow> (string, json option) result" where
  "query_endpoint_config rb engine inp = Inr (matched_endpoint_config rb engine (network_input_json inp))"

definition get_str :: "json \<Rightarrow> string \<Rightarrow> string option" where
  "get_str val key = as_str (jget val key)"

definition get_bool :: "json \<Rightarrow> string \<Rightarrow> bool option" where
  "get_bool val key = (case jget val key of Some (JBool b) \<Rightarrow> Some b | _ \<Rightarrow> None)"

definition get_str_array :: "json \<Rightarrow> string \<Rightarrow> string list" where
  "get_str_array val key = (case jget val key of Some (JArr arr) \<Rightarrow> List.map_filter (\<lambda>v. as_str (Some v)) arr | _ \<Rightarrow> [])"

definition engine_allowed_ips :: "rego_builtins \<Rightarrow> json \<Rightarrow> network_input \<Rightarrow> (string, string list) result" where
  "engine_allowed_ips rb engine inp = and_then (query_endpoint_config rb engine inp) (\<lambda>c.
     Inr (case c of None \<Rightarrow> [] | Some val \<Rightarrow> get_str_array val ''allowed_ips''))"

subsection \<open>The static configuration\<close>

datatype landlock_compatibility = BestEffort | HardRequirement

record run_as_policy =
  ra_user :: "string option"
  ra_group :: "string option"

record sandbox_config =
  sc_filesystem :: filesystem_policy
  sc_landlock :: landlock_compatibility
  sc_process :: run_as_policy

definition parse_filesystem_policy :: "json \<Rightarrow> filesystem_policy" where
  "parse_filesystem_policy val = \<lparr>fs_include_workdir = (case get_bool val ''include_workdir'' of None \<Rightarrow> True | Some b \<Rightarrow> b),
     fs_read_only = get_str_array val ''read_only'', fs_read_write = get_str_array val ''read_write''\<rparr>"

definition parse_landlock_policy :: "json \<Rightarrow> landlock_compatibility" where
  "parse_landlock_policy val = (if get_str val ''compatibility'' = Some ''hard_requirement'' then HardRequirement else BestEffort)"

definition parse_process_policy :: "json \<Rightarrow> run_as_policy" where
  "parse_process_policy val = \<lparr>ra_user = get_str val ''run_as_user'', ra_group = get_str val ''run_as_group''\<rparr>"

text \<open>The three rules pass the data through; an undefined value has no fields.\<close>

definition query_sandbox_config :: "json \<Rightarrow> sandbox_config" where
  "query_sandbox_config engine = (let val = (\<lambda>key. case jget engine key of None \<Rightarrow> JNull | Some j \<Rightarrow> j) in
     \<lparr>sc_filesystem = parse_filesystem_policy (val ''filesystem_policy''), sc_landlock = parse_landlock_policy (val ''landlock''),
      sc_process = parse_process_policy (val ''process'')\<rparr>)"

section \<open>The engine behind the proxy\<close>

definition l7_input_json :: "l7_input \<Rightarrow> json" where
  "l7_input_json inp = obj
     [(''network'', obj [(''host'', JStr (in_host inp)), (''port'', JNum (int (in_port inp)))]),
      (''exec'', obj [(''path'', JStr (in_exec_path inp)), (''ancestors'', str_array (in_ancestors inp)),
        (''cmdline_paths'', str_array (in_cmdline_paths inp))]),
      (''request'', obj [(''method'', JStr (in_method inp)), (''path'', JStr (in_path inp)),
        (''query_params'', obj (map (\<lambda>(k, vs). (k, str_array vs)) (in_query_params inp)))])]"

text \<open>A rule that the engine does not define is an error.\<close>

definition tunnel_rego :: "rego_builtins \<Rightarrow> json \<Rightarrow> rego_engine" where
  "tunnel_rego rb engine inp = Inr (\<lambda>rule.
     if rule = ''data.openshell.sandbox.allow_request'' then Inr (RegoBool (allow_request rb engine (l7_input_json inp)))
     else if rule = ''data.openshell.sandbox.request_deny_reason''
     then Inr (case request_deny_reason rb engine (l7_input_json inp) of None \<Rightarrow> RegoUndefined | Some s \<Rightarrow> RegoString s)
     else Inl ''not a valid rule path'')"

definition endpoint_object_of :: "json \<Rightarrow> endpoint_object" where
  "endpoint_object_of val key = as_str (jget val key)"

definition proxy_with_engine :: "rego_builtins \<Rightarrow> json \<Rightarrow> ('n, 'r) proxy_env \<Rightarrow> ('n, 'r) proxy_env" where
  "proxy_with_engine rb engine env = env\<lparr>px_network_action := evaluate_network_action rb engine,
     px_endpoint_config := (\<lambda>inp. and_then (query_endpoint_config rb engine inp) (\<lambda>c. Inr (map_option endpoint_object_of c))),
     px_allowed_ips := engine_allowed_ips rb engine, px_tunnel_engine := Inr (tunnel_rego rb engine)\<rparr>"

end
