(* ===== verification/Opa_Props.thy ===== *)
theory Opa_Props
  imports Opa_Engine
begin

text \<open>
  What a loaded policy means: the decisions of the engine on the document of a policy message are exactly those of a
  specification on the message itself, for connections and for requests; the interaction of endpoint configurations;
  and the proxy with such an engine.
\<close>

section \<open>Lookups in documents\<close>

lemma map_of_insort: "map_of (insort_key fst (k, v) m) = (map_of m)(k \<mapsto> v)" for m :: "'v str_map"
  by (induction m) (auto simp: fun_eq_iff)

lemma map_of_btree_collect [simp]: "map_of (btree_collect m) = map_of m"
proof (induction m)
  case (Cons x m)
  then show ?case by (cases x) (simp add: btree_collect_def map_of_insort)
qed (simp add: btree_collect_def)

lemma set_btree_collect [simp]: "set (btree_collect m) = set m"
  by (simp add: btree_collect_def)

lemma length_btree_collect [simp]: "length (btree_collect m) = length m"
  by (simp add: btree_collect_def)

lemma jget_obj [simp]: "jget (obj kvs) key = map_of kvs key"
  by (simp add: obj_def)

lemma ref_Some [simp]: "ref (Some j) key = jget j key"
  by (simp add: ref_def)

lemma elems_JArr [simp]: "elems (Some (JArr xs)) = xs"
  by (simp add: elems_def map_snd_zip)

lemma map_of_update: "map_of (map (\<lambda>(k, v). (k, if k = key then f v else v)) kvs) k =
    (if k = key then map_option f (map_of kvs k) else map_of kvs k)"
  by (induction kvs) auto

lemma jget_jupdate: "jget (jupdate (JObj kvs) key f) k = (if k = key then map_option f (map_of kvs k) else map_of kvs k)"
  by (simp add: map_of_update)

lemma jget_jupdate_obj: "jget (jupdate (obj kvs) key f) k = (if k = key then map_option f (map_of kvs k) else map_of kvs k)"
  by (simp add: obj_def map_of_update)

lemma map_of_filter_ne: "k \<noteq> key \<Longrightarrow> map_of (filter (\<lambda>(k, _). k \<noteq> key) kvs) k = map_of kvs k"
  by (induction kvs) auto

lemma jget_jinsert_obj: "jget (jinsert (obj kvs) key v) k = (if k = key then Some v else map_of kvs k)"
proof (cases "k = key")
  case False
  have "map_of (filter (\<lambda>(k, _). k \<noteq> key) (btree_collect kvs)) k = map_of kvs k"
    using map_of_filter_ne [OF False, of "btree_collect kvs"] by simp
  then show ?thesis using False by (simp add: obj_def)
qed (simp add: obj_def)

lemmas doc_simps = opt_field_def opt_array_def str_array_def

section \<open>Endpoint documents\<close>

lemma endpoint_json_fields:
  "jget (endpoint_json e) ''host'' = Some (JStr (ep_host e))"
  "jget (endpoint_json e) ''ports'' = Some (JArr (map (\<lambda>p. JNum (uint p)) (endpoint_ports e)))"
  "jget (endpoint_json e) ''port'' = None"
  "jget (endpoint_json e) ''protocol'' = (if ep_protocol e = [] then None else Some (JStr (ep_protocol e)))"
  "jget (endpoint_json e) ''tls'' = (if ep_tls e = [] then None else Some (JStr (ep_tls e)))"
  "jget (endpoint_json e) ''enforcement'' = (if ep_enforcement e = [] then None else Some (JStr (ep_enforcement e)))"
  "jget (endpoint_json e) ''access'' = (if ep_access e = [] then None else Some (JStr (ep_access e)))"
  "jget (endpoint_json e) ''rules'' = (if ep_rules e = [] then None else Some (JArr (map (\<lambda>r. obj [(''allow'', allow_json r)]) (ep_rules e))))"
  "jget (endpoint_json e) ''allowed_ips'' = (if ep_allowed_ips e = [] then None else Some (JArr (map JStr (ep_allowed_ips e))))"
  by (simp_all add: endpoint_json_def doc_simps)

text \<open>The endpoint as the rules see it.\<close>

definition loaded_endpoint :: "network_endpoint \<Rightarrow> json" where
  "loaded_endpoint e = expand_endpoint (endpoint_json e)"

lemma expand_endpoint_other:
  assumes "k \<noteq> ''rules''"
  shows "jget (expand_endpoint (endpoint_json e)) k = jget (endpoint_json e) k"
proof -
  obtain kvs where "endpoint_json e = obj kvs" by (simp add: endpoint_json_def)
  then show ?thesis using assms by (simp add: expand_endpoint_def Let_def jget_jinsert_obj split: option.split)
qed

text \<open>The allow parts in force: the listed rules, or those of a known preset.\<close>

definition preset_allow :: "string \<Rightarrow> l7_allow" where
  "preset_allow method0 = l7_allow_default\<lparr>al_method := method0, al_path := ''**''\<rparr>"

definition preset_methods :: "string \<Rightarrow> string list" where
  "preset_methods access = (if access = ''read-only'' then [''GET'', ''HEAD'', ''OPTIONS'']
     else if access = ''read-write'' then [''GET'', ''HEAD'', ''OPTIONS'', ''POST'', ''PUT'', ''PATCH'']
     else if access = ''full'' then [''*''] else [])"

definition effective_allows :: "network_endpoint \<Rightarrow> l7_allow list" where
  "effective_allows e = (if ep_rules e \<noteq> [] then map (\<lambda>r. case lr_allow r of None \<Rightarrow> l7_allow_default | Some a \<Rightarrow> a) (ep_rules e)
     else map preset_allow (preset_methods (ep_access e)))"

text \<open>A rule document of either origin.\<close>

definition rule_doc_of :: "l7_allow \<Rightarrow> json \<Rightarrow> bool" where
  "rule_doc_of a j \<longleftrightarrow> (\<exists>kvs. jget j ''allow'' = Some (obj kvs) \<and> map_of kvs ''method'' = Some (JStr (al_method a))
     \<and> map_of kvs ''path'' = Some (JStr (al_path a))
     \<and> map_of kvs ''query'' = (if al_query a = [] then None
          else Some (obj (map (\<lambda>(key, m). (key, matcher_json m)) (al_query a)))))"

lemma rule_doc_listed:
  "rule_doc_of (case lr_allow r of None \<Rightarrow> l7_allow_default | Some a \<Rightarrow> a) (obj [(''allow'', allow_json r)])"
  unfolding rule_doc_of_def
  by (rule exI, intro conjI, simp add: allow_json_def Let_def) (auto simp: l7_allow_default_def split: option.split)

lemma rule_doc_preset: "rule_doc_of (preset_allow m) (rule_json m ''**'')"
  unfolding rule_doc_of_def
  by (rule exI [of _ "[(''method'', JStr m), (''path'', JStr ''**'')]"]) (simp add: rule_json_def preset_allow_def l7_allow_default_def)

lemma elems_None [simp]: "elems None = []"
  by (simp add: elems_def)

lemma loaded_rules:
  "(nonempty_array (jget (loaded_endpoint e) ''rules'') \<or> jget (loaded_endpoint e) ''rules'' = None)
   \<and> list_all2 rule_doc_of (effective_allows e) (elems (jget (loaded_endpoint e) ''rules''))"
proof (cases "ep_rules e = []")
  case False
  then have "jget (loaded_endpoint e) ''rules'' = Some (JArr (map (\<lambda>r. obj [(''allow'', allow_json r)]) (ep_rules e)))"
    by (simp add: loaded_endpoint_def expand_endpoint_def endpoint_json_fields Let_def nonempty_array_def)
  then show ?thesis using False rule_doc_listed
    by (simp add: effective_allows_def nonempty_array_def list_all2_map1 list_all2_map2 list_all2_refl)
next
  case True
  obtain kvs where k: "endpoint_json e = obj kvs" by (simp add: endpoint_json_def)
  have r: "map_of kvs ''rules'' = None" using endpoint_json_fields(8) [of e] True k by simp
  have ac: "str_or_empty (jget (endpoint_json e) ''access'') = ep_access e"
    by (simp add: endpoint_json_fields str_or_empty_def)
  have nr: "\<not> nonempty_array (jget (endpoint_json e) ''rules'')" using True by (simp add: endpoint_json_fields nonempty_array_def)
  have p: "access_preset a = (if preset_methods a = [] then None else Some (map (\<lambda>m. rule_json m ''**'') (preset_methods a)))" for a
    by (simp add: access_preset_def preset_methods_def)
  have "jget (loaded_endpoint e) ''rules'' = (if preset_methods (ep_access e) = [] then None
      else Some (JArr (map (\<lambda>m. rule_json m ''**'') (preset_methods (ep_access e)))))"
  proof (cases "ep_access e = []")
    case True
    then show ?thesis using r k ac by (simp add: loaded_endpoint_def expand_endpoint_def preset_methods_def)
  next
    case False
    then show ?thesis using r nr ac unfolding loaded_endpoint_def expand_endpoint_def Let_def p k by (simp add: jget_jinsert_obj)
  qed
  then show ?thesis using True rule_doc_preset
    by (auto simp: effective_allows_def nonempty_array_def list_all2_map1 list_all2_map2 list_all2_refl)
qed

lemma loaded_endpoint_fields:
  "jget (loaded_endpoint e) ''host'' = Some (JStr (ep_host e))"
  "jget (loaded_endpoint e) ''ports'' = Some (JArr (map (\<lambda>p. JNum (uint p)) (endpoint_ports e)))"
  "jget (loaded_endpoint e) ''protocol'' = (if ep_protocol e = [] then None else Some (JStr (ep_protocol e)))"
  "jget (loaded_endpoint e) ''tls'' = (if ep_tls e = [] then None else Some (JStr (ep_tls e)))"
  "jget (loaded_endpoint e) ''enforcement'' = (if ep_enforcement e = [] then None else Some (JStr (ep_enforcement e)))"
  "jget (loaded_endpoint e) ''allowed_ips'' = (if ep_allowed_ips e = [] then None else Some (JArr (map JStr (ep_allowed_ips e))))"
  by (simp_all add: loaded_endpoint_def expand_endpoint_other endpoint_json_fields)

lemma loaded_endpoint_object: "\<exists>kvs. loaded_endpoint e = JObj kvs"
proof -
  have "\<exists>kvs. jinsert (endpoint_json e) k v = JObj kvs" for k v by (simp add: endpoint_json_def obj_def)
  moreover have "\<exists>kvs. endpoint_json e = JObj kvs" by (simp add: endpoint_json_def obj_def)
  ultimately show ?thesis by (auto simp: loaded_endpoint_def expand_endpoint_def Let_def split: option.split)
qed

lemma object_get_loaded:
  "object_get (Some (loaded_endpoint e)) (JStr key) d = (case jget (loaded_endpoint e) key of None \<Rightarrow> Some d | Some j \<Rightarrow> Some j)"
proof -
  obtain kvs where "loaded_endpoint e = JObj kvs" using loaded_endpoint_object by blast
  then show ?thesis by (simp add: object_get_def)
qed

section \<open>The loaded document\<close>

definition loaded_rule :: "network_policy_rule \<Rightarrow> json" where
  "loaded_rule r = jupdate (policy_rule_json r) ''endpoints'' (\<lambda>es. case es of JArr eps \<Rightarrow> JArr (map expand_endpoint eps) | _ \<Rightarrow> es)"

lemma loaded_rule_fields:
  "jget (loaded_rule r) ''endpoints'' = Some (JArr (map loaded_endpoint (np_endpoints r)))"
  "jget (loaded_rule r) ''binaries'' = Some (JArr (map (\<lambda>b. obj [(''path'', JStr (nb_path b))]) (np_binaries r)))"
  by (simp_all add: loaded_rule_def policy_rule_json_def jget_jupdate_obj loaded_endpoint_def)

lemma btree_collect_values: "btree_collect (map (\<lambda>(k, v). (k, f v)) m) = map (\<lambda>(k, v). (k, f v)) (btree_collect m)" for m :: "'v str_map"
proof -
  have "insort_key fst (k, f v) (map (\<lambda>(k, v). (k, f v)) m) = map (\<lambda>(k, v). (k, f v)) (insort_key fst (k, v) m)"
    for k v and m :: "'v str_map" by (induction m) auto
  then show ?thesis by (induction m) (auto simp: btree_collect_def)
qed

definition loaded_data :: "sandbox_policy \<Rightarrow> json" where
  "loaded_data p = expand_access_presets (proto_to_opa_data_json p)"

lemma engine_from_proto_loaded: "engine_from_proto p = Inr engine \<Longrightarrow> engine = loaded_data p"
  by (auto simp: engine_from_proto_def preprocess_def loaded_data_def split: prod.splits if_splits)

lemma loaded_network_policies:
  "jget (loaded_data p) ''network_policies'' = Some (JObj (map (\<lambda>(k, r). (k, loaded_rule r)) (btree_collect (sp_network_policies p))))"
  unfolding loaded_data_def expand_access_presets_def map_endpoints_def proto_to_opa_data_json_def jget_jupdate_obj
  by (simp add: obj_def btree_collect_values loaded_rule_def case_prod_beta)

lemma network_policies_loaded:
  "network_policies (loaded_data p) = map (\<lambda>(k, r). (JStr k, loaded_rule r)) (btree_collect (sp_network_policies p))"
  by (simp add: network_policies_def loaded_network_policies case_prod_beta)

section \<open>Connections\<close>

text \<open>The meaning of a policy for a connection, on the message.\<close>

definition endpoint_covers :: "rego_builtins \<Rightarrow> network_endpoint \<Rightarrow> string \<Rightarrow> int \<Rightarrow> bool" where
  "endpoint_covers rb e host port \<longleftrightarrow> list_ex (\<lambda>p. uint p = port) (endpoint_ports e) \<and>
     (if contains ''*'' (ep_host e) then rb_glob rb (rb_lower rb (ep_host e)) [''.''] (rb_lower rb host)
      else rb_lower rb (ep_host e) = rb_lower rb host \<or> ep_host e = [] \<and> ep_allowed_ips e \<noteq> [])"

definition binary_covers :: "rego_builtins \<Rightarrow> network_binary \<Rightarrow> string \<Rightarrow> string list \<Rightarrow> bool" where
  "binary_covers rb b path ancestors \<longleftrightarrow> (if contains ''*'' (nb_path b)
     then list_ex (rb_glob rb (nb_path b) [''/'']) (path # ancestors) else nb_path b \<in> set (path # ancestors))"

definition rule_covers :: "rego_builtins \<Rightarrow> network_policy_rule \<Rightarrow> string \<Rightarrow> int \<Rightarrow> string \<Rightarrow> string list \<Rightarrow> bool" where
  "rule_covers rb r host port path ancestors \<longleftrightarrow> list_ex (\<lambda>e. endpoint_covers rb e host port) (np_endpoints r)
     \<and> list_ex (\<lambda>b. binary_covers rb b path ancestors) (np_binaries r)"

text \<open>An input document with these fields.\<close>

definition network_doc :: "json \<Rightarrow> string \<Rightarrow> int \<Rightarrow> bool" where
  "network_doc inp host port \<longleftrightarrow> (\<exists>n. jget inp ''network'' = Some n \<and> truthy (Some n)
     \<and> jget n ''host'' = Some (JStr host) \<and> jget n ''port'' = Some (JNum port))"

definition exec_doc :: "json \<Rightarrow> string \<Rightarrow> string list \<Rightarrow> string list \<Rightarrow> bool" where
  "exec_doc inp path ancestors cmdline \<longleftrightarrow> (\<exists>x. jget inp ''exec'' = Some x \<and> truthy (Some x) \<and> jget x ''path'' = Some (JStr path)
     \<and> jget x ''ancestors'' = Some (str_array ancestors) \<and> jget x ''cmdline_paths'' = Some (str_array cmdline))"

lemma port_listed_loaded:
  assumes "jget n ''port'' = Some (JNum port)"
  shows "port_listed (Some (loaded_endpoint e)) (Some n) \<longleftrightarrow> list_ex (\<lambda>p. uint p = port) (endpoint_ports e)"
  using assms by (auto simp: port_listed_def loaded_endpoint_fields list_ex_iff)

lemma contains_star_Nil: "\<not> contains ''*'' []"
  by (simp add: contains_def)

lemma endpoint_matches_loaded:
  assumes "jget n ''host'' = Some (JStr host)" "jget n ''port'' = Some (JNum port)"
  shows "endpoint_matches_request rb (loaded_endpoint e) (Some n) \<longleftrightarrow> endpoint_covers rb e host port"
  using contains_star_Nil
  by (auto simp: endpoint_matches_request_def host_exact_def host_glob_def hostless_def endpoint_covers_def object_get_loaded
      port_listed_loaded [OF assms(2)] loaded_endpoint_fields contains_star_def lower_eq_def lower_glob_def assms count_positive_def)

lemma endpoint_allowed_loaded:
  assumes "jget n ''host'' = Some (JStr host)" "jget n ''port'' = Some (JNum port)"
  shows "endpoint_allowed rb (Some (loaded_rule r)) (Some n) \<longleftrightarrow> list_ex (\<lambda>e. endpoint_covers rb e host port) (np_endpoints r)"
proof -
  have "endpoint_allowed rb (Some (loaded_rule r)) (Some n) \<longleftrightarrow>
      list_ex (\<lambda>e. endpoint_matches_request rb (loaded_endpoint e) (Some n)) (np_endpoints r)"
    by (auto simp: endpoint_allowed_def endpoint_matches_request_def loaded_rule_fields list_ex_iff)
  then show ?thesis by (simp add: endpoint_matches_loaded [OF assms])
qed

lemma binary_allowed_loaded:
  assumes "jget x ''path'' = Some (JStr path)" "jget x ''ancestors'' = Some (str_array ancestors)"
  shows "binary_allowed rb (Some (loaded_rule r)) (Some x) \<longleftrightarrow> list_ex (\<lambda>b. binary_covers rb b path ancestors) (np_binaries r)"
  by (auto simp: binary_allowed_def loaded_rule_fields list_ex_iff binary_covers_def assms str_array_def contains_star_def glob_def Let_def)

lemma policy_matches_loaded:
  assumes "network_doc inp host port" "exec_doc inp path ancestors cmdline"
  shows "policy_matches rb inp (loaded_rule r) \<longleftrightarrow> rule_covers rb r host port path ancestors"
  using assms by (auto simp: policy_matches_def rule_covers_def network_doc_def exec_doc_def endpoint_allowed_loaded binary_allowed_loaded)

definition covering_names :: "rego_builtins \<Rightarrow> sandbox_policy \<Rightarrow> string \<Rightarrow> int \<Rightarrow> string \<Rightarrow> string list \<Rightarrow> string list" where
  "covering_names rb p host port path ancestors =
     map fst (filter (\<lambda>(k, r). rule_covers rb r host port path ancestors) (btree_collect (sp_network_policies p)))"

lemma map_filter_pairs:
  "List.map_filter (\<lambda>(name, policy). if Q policy then as_str (Some name) else None) (map (\<lambda>(k, r). (JStr k, g r)) m)
    = map fst (filter (\<lambda>(k, r). Q (g r)) m)"
  by (induction m) (auto simp: List.map_filter_simps)

lemma matching_names_loaded:
  assumes "network_doc inp host port" "exec_doc inp path ancestors cmdline" "distinct (map fst (sp_network_policies p))"
  shows "matching_policy_names rb (loaded_data p) inp = covering_names rb p host port path ancestors"
proof -
  let ?m = "btree_collect (sp_network_policies p)" and ?f = "\<lambda>(k, r). rule_covers rb r host port path ancestors"
  have "mset (map fst ?m) = mset (map fst (sp_network_policies p))" by (simp add: btree_collect_def)
  then have d: "distinct (map fst ?m)" using assms(3) by (metis mset_eq_imp_distinct_iff)
  have "sorted (map fst ?m)" by (simp add: btree_collect_def)
  then have "sorted (map fst (filter ?f ?m))" by (rule sorted_filter)
  moreover have "distinct (map fst (filter ?f ?m))" using d by (rule distinct_map_filter)
  ultimately show ?thesis
    by (simp add: matching_policy_names_def network_policies_loaded map_filter_pairs policy_matches_loaded [OF assms(1,2)]
        covering_names_def sorted_sort_id distinct_remdups_id)
qed

lemma policy_for_request_loaded:
  assumes "network_doc inp host port" "exec_doc inp path ancestors cmdline"
  shows "network_policy_for_request rb (loaded_data p) inp \<longleftrightarrow> covering_names rb p host port path ancestors \<noteq> []"
proof -
  have "list_ex (\<lambda>(name, policy). policy_matches rb inp policy) (map (\<lambda>(k, r). (JStr k, loaded_rule r)) m)
      \<longleftrightarrow> filter (\<lambda>(k, r). rule_covers rb r host port path ancestors) m \<noteq> []" for m
    by (induction m) (auto simp: policy_matches_loaded [OF assms])
  then show ?thesis by (simp add: network_policy_for_request_def network_policies_loaded covering_names_def)
qed

lemma json_strs_str_array: "json_strs (map JStr ss) = Some ss"
  by (induction ss) auto

lemma map_filter_Some_nonempty: "x \<in> set xs \<Longrightarrow> f x \<noteq> None \<Longrightarrow> List.map_filter f xs \<noteq> []"
  by (induction xs) (auto simp: List.map_filter_simps split: option.splits)

lemma set_map_filter: "set (List.map_filter f xs) = {y. \<exists>x \<in> set xs. f x = Some y}"
  by (induction xs) (auto simp: List.map_filter_simps split: option.splits)

lemma join_nonempty: "xs \<noteq> [] \<Longrightarrow> [] \<notin> set xs \<Longrightarrow> join sep xs \<noteq> []"
  by (cases "(sep, xs)" rule: join.cases) auto

text \<open>When nothing covers the connection the reasons are consistent: exactly one body of the rule has a value.\<close>

lemma deny_reasons_loaded:
  assumes "network_doc inp host port" "exec_doc inp path ancestors cmdline" "0 \<le> port"
  shows "if covering_names rb p host port path ancestors \<noteq> [] then deny_reasons rb (loaded_data p) inp = []
    else (\<exists>reason. deny_reasons rb (loaded_data p) inp = [reason] \<and> reason \<noteq> [])"
proof -
  obtain n where n: "jget inp ''network'' = Some n" "truthy (Some n)" "jget n ''host'' = Some (JStr host)" "jget n ''port'' = Some (JNum port)"
    using assms(1) by (auto simp: network_doc_def)
  obtain x where x: "jget inp ''exec'' = Some x" "truthy (Some x)" "jget x ''path'' = Some (JStr path)"
      "jget x ''ancestors'' = Some (str_array ancestors)" "jget x ''cmdline_paths'' = Some (str_array cmdline)"
    using assms(2) by (auto simp: exec_doc_def)
  have c: "concat0 sep (Some (str_array ss)) = Some (join sep ss)" for sep ss
    by (simp add: concat0_def str_array_def json_strs_str_array)
  let ?em = "endpoint_misses rb (loaded_data p) inp"
  let ?bm = "binary_misses rb (loaded_data p) inp (join '' -> '' ancestors) (join '', '' cmdline)"
  show ?thesis
  proof (cases "covering_names rb p host port path ancestors = []")
    case False
    then have "network_policy_for_request rb (loaded_data p) inp" by (simp add: policy_for_request_loaded [OF assms(1,2)])
    then show ?thesis using False n x by (simp add: deny_reasons_def)
  next
    case True
    then have no: "\<not> network_policy_for_request rb (loaded_data p) inp" by (simp add: policy_for_request_loaded [OF assms(1,2)])
    show ?thesis
    proof (cases "sp_network_policies p")
      case Nil
      then have "network_policies (loaded_data p) = []" "count0 (jget (loaded_data p) ''network_policies'') = Some 0"
        by (simp_all add: network_policies_loaded loaded_network_policies btree_collect_def)
      then show ?thesis using True no n x
        by (simp add: deny_reasons_def c endpoint_misses_def binary_misses_def List.map_filter_simps)
    next
      case (Cons a as)
      then obtain k r where kr: "(k, r) \<in> set (btree_collect (sp_network_policies p))" by (cases a) auto
      then have mem: "(JStr k, loaded_rule r) \<in> set (network_policies (loaded_data p))" by (force simp: network_policies_loaded)
      have "\<not> rule_covers rb r host port path ancestors" using True kr by (auto simp: covering_names_def filter_empty_conv)
      then have miss: "\<not> endpoint_allowed rb (Some (loaded_rule r)) (Some n) \<or> \<not> binary_allowed rb (Some (loaded_rule r)) (Some x)"
        by (simp add: rule_covers_def endpoint_allowed_loaded [OF n(3,4)] binary_allowed_loaded [OF x(3,4)])
      have "?em \<noteq> [] \<or> ?bm \<noteq> []"
      proof (cases "endpoint_allowed rb (Some (loaded_rule r)) (Some n)")
        case False
        then have "?em \<noteq> []" unfolding endpoint_misses_def Let_def using n assms(3)
          by (intro map_filter_Some_nonempty [OF mem]) simp
        then show ?thesis ..
      next
        case True
        then have "?bm \<noteq> []" unfolding binary_misses_def Let_def using miss n x
          by (intro map_filter_Some_nonempty [OF mem]) simp
        then show ?thesis ..
      qed
      moreover have "[] \<notin> set (?em @ ?bm)"
        by (auto simp: endpoint_misses_def binary_misses_def Let_def set_map_filter split: if_splits option.splits json.splits)
      then have "?em @ ?bm \<noteq> [] \<Longrightarrow> join ''; '' (?em @ ?bm) \<noteq> []" by (rule join_nonempty [rotated])
      moreover have "count0 (jget (loaded_data p) ''network_policies'') \<noteq> Some 0"
        using Cons by (simp add: loaded_network_policies)
      ultimately show ?thesis using True no n x by (simp add: deny_reasons_def c)
    qed
  qed
qed

definition permitted_names :: "rego_builtins \<Rightarrow> sandbox_policy \<Rightarrow> string \<Rightarrow> int \<Rightarrow> string \<Rightarrow> string list \<Rightarrow> string set" where
  "permitted_names rb p host port path ancestors =
     {k. \<exists>r. (k, r) \<in> set (sp_network_policies p) \<and> rule_covers rb r host port path ancestors}"

lemma set_covering_names: "set (covering_names rb p host port path ancestors) = permitted_names rb p host port path ancestors"
  by (force simp: covering_names_def permitted_names_def)

lemma hd_covering_names:
  assumes "covering_names rb p host port path ancestors \<noteq> []"
  shows "hd (covering_names rb p host port path ancestors) = Min (permitted_names rb p host port path ancestors)"
proof -
  have "sorted (map fst (btree_collect (sp_network_policies p)))" by (simp add: btree_collect_def)
  then have "sorted (covering_names rb p host port path ancestors)" unfolding covering_names_def by (rule sorted_filter)
  then have "Min (set (covering_names rb p host port path ancestors)) = hd (covering_names rb p host port path ancestors)"
    using assms by (cases "covering_names rb p host port path ancestors") (auto intro!: Min_eqI)
  then show ?thesis by (simp add: set_covering_names)
qed

lemma network_input_docs:
  "network_doc (network_input_json inp) (ni_host inp) (uint (ni_port inp))"
  "exec_doc (network_input_json inp) (utf8_lossy (ni_binary_path inp)) (map utf8_lossy (ni_ancestors inp)) (map utf8_lossy (ni_cmdline_paths inp))"
  by (simp_all add: network_doc_def exec_doc_def network_input_json_def strings_lossy_def truthy_def obj_def)


definition example_builtins :: rego_builtins where
  "example_builtins = \<lparr>rb_lower = to_ascii_lowercase, rb_upper = to_ascii_uppercase, rb_glob = (\<lambda>p _ s. p = s)\<rparr>"

definition example_endpoint :: network_endpoint where
  "example_endpoint = \<lparr>ep_host = ''api.example.com'', ep_port = 443, ep_protocol = ''rest'', ep_tls = [], ep_enforcement = ''enforce'',
     ep_access = ''read-only'', ep_rules = [], ep_allowed_ips = [], ep_ports = []\<rparr>"

definition example_rules :: "network_endpoint list \<Rightarrow> sandbox_policy" where
  "example_rules eps = sandbox_policy_default\<lparr>sp_network_policies := [(''api'', \<lparr>np_name = ''api'', np_endpoints = eps,
     np_binaries = [\<lparr>nb_path = ''/usr/bin/curl'', nb_harness = False\<rparr>]\<rparr>)]\<rparr>"

definition curl_input :: network_input where
  "curl_input = \<lparr>ni_host = ''API.example.com'', ni_port = 443, ni_binary_path = ''/usr/bin/curl'', ni_binary_sha256 = [], ni_ancestors = [],
     ni_cmdline_paths = []\<rparr>"

lemma example_loads: "engine_from_proto (example_rules [example_endpoint]) = Inr (loaded_data (example_rules [example_endpoint]))"
proof -
  have "fst (validate_l7_policies (proto_to_opa_data_json (example_rules [example_endpoint]))) = []" by code_simp
  then show ?thesis by (simp add: engine_from_proto_def preprocess_def loaded_data_def split_beta)
qed

lemma example_permitted:
  "permitted_names example_builtins (example_rules [example_endpoint]) ''API.example.com'' 443 ''/usr/bin/curl'' [] = {''api''}"
proof -
  have "endpoint_covers example_builtins example_endpoint ''API.example.com'' 443" by code_simp
  moreover have "binary_covers example_builtins \<lparr>nb_path = ''/usr/bin/curl'', nb_harness = False\<rparr> ''/usr/bin/curl'' []" by code_simp
  ultimately show ?thesis by (simp add: permitted_names_def example_rules_def rule_covers_def)
qed


section \<open>Requests\<close>

text \<open>The meaning of an allow part for a request.\<close>

definition matcher_covers :: "rego_builtins \<Rightarrow> l7_query_matcher \<Rightarrow> string \<Rightarrow> bool" where
  "matcher_covers rb m v \<longleftrightarrow> qm_glob m \<noteq> [] \<and> rb_glob rb (qm_glob m) [] v \<or> list_ex (\<lambda>a. rb_glob rb a [] v) (qm_any m)"

definition allow_covers :: "rego_builtins \<Rightarrow> l7_allow \<Rightarrow> string \<Rightarrow> string \<Rightarrow> query_map \<Rightarrow> bool" where
  "allow_covers rb a method0 path query \<longleftrightarrow> (al_method a = ''*'' \<or> rb_upper rb method0 = rb_upper rb (al_method a))
     \<and> (al_path a = ''**'' \<or> rb_glob rb (al_path a) [''/''] path)
     \<and> list_all (\<lambda>(k, m). case map_of query k of None \<Rightarrow> False | Some vs \<Rightarrow> vs \<noteq> [] \<and> list_all (matcher_covers rb m) vs) (al_query a)"

definition request_permitted ::
  "rego_builtins \<Rightarrow> sandbox_policy \<Rightarrow> string \<Rightarrow> int \<Rightarrow> string \<Rightarrow> string list \<Rightarrow> string \<Rightarrow> string \<Rightarrow> query_map \<Rightarrow> bool" where
  "request_permitted rb p host port path ancestors method0 target query \<longleftrightarrow>
     list_ex (\<lambda>(k, r). rule_covers rb r host port path ancestors
       \<and> list_ex (\<lambda>e. endpoint_covers rb e host port \<and> list_ex (\<lambda>a. allow_covers rb a method0 target query) (effective_allows e))
           (np_endpoints r)) (sp_network_policies p)"

lemma object_get_obj: "object_get (Some (obj kvs)) (JStr k) d = (case map_of kvs k of None \<Rightarrow> Some d | Some j \<Rightarrow> Some j)"
  by (simp add: object_get_def obj_def)

lemma items_obj: "items (Some (obj kvs)) = map (\<lambda>(k, v). (JStr k, v)) (btree_collect kvs)"
  by (simp add: obj_def)

lemma matcher_json_covers: "query_value_matches rb (JStr v) (matcher_json m) \<longleftrightarrow> matcher_covers rb m v"
proof -
  let ?kvs = "opt_field ''glob'' (qm_glob m) @ opt_array ''any'' (map JStr (qm_any m))"
  have m: "matcher_json m = obj ?kvs" by (simp add: matcher_json_def)
  have g: "object_get (Some (matcher_json m)) (JStr ''glob'') (JStr []) = Some (JStr (qm_glob m))"
    by (simp add: m object_get_obj doc_simps)
  have a: "object_get (Some (matcher_json m)) (JStr ''any'') (JArr []) = Some (JArr (map JStr (qm_any m)))"
    by (simp add: m object_get_obj doc_simps)
  have "query_value_matches rb (JStr v) (matcher_json m) \<longleftrightarrow>
      (Some (JStr (qm_glob m)) \<noteq> Some (JStr []) \<and> glob rb (Some (JStr (qm_glob m))) [] (Some (JStr v)))
      \<or> (count_positive (Some (JArr (map JStr (qm_any m)))) \<and> list_ex (\<lambda>q. glob rb (Some q) [] (Some (JStr v))) (map JStr (qm_any m)))"
    unfolding query_value_matches_def Let_def g a by (simp add: m obj_def)
  then show ?thesis by (auto simp: matcher_covers_def glob_def count_positive_def list_ex_iff)
qed

text \<open>A request document with these fields and no command.\<close>

definition request_doc :: "json \<Rightarrow> string \<Rightarrow> string \<Rightarrow> query_map \<Rightarrow> bool" where
  "request_doc inp method0 target query \<longleftrightarrow> jget inp ''request'' = Some (obj [(''method'', JStr method0), (''path'', JStr target),
     (''query_params'', obj (map (\<lambda>(k, vs). (k, str_array vs)) query))])"

lemma map_of_map_value: "map_of (map (\<lambda>(k, v). (k, f v)) m) k = map_option f (map_of m k)"
  by (induction m) auto

lemma query_key_covers:
  fixes query :: query_map and method0 target :: string
  defines "req \<equiv> obj [(''method'', JStr method0), (''path'', JStr target), (''query_params'', obj (map (\<lambda>(k, vs). (k, str_array vs)) query))]"
  shows "query_key_matches rb req (JStr k) (matcher_json m) \<longleftrightarrow>
    (case map_of query k of None \<Rightarrow> False | Some vs \<Rightarrow> vs \<noteq> [] \<and> list_all (matcher_covers rb m) vs)"
  by (auto simp: query_key_matches_def req_def object_get_obj map_of_map_value Let_def str_array_def count_positive_def
      query_value_mismatch_def list_ex_iff list_all_iff matcher_json_covers split: option.splits)

lemma rule_doc_covers:
  fixes query :: query_map and method0 target :: string
  defines "req \<equiv> obj [(''method'', JStr method0), (''path'', JStr target), (''query_params'', obj (map (\<lambda>(k, vs). (k, str_array vs)) query))]"
  assumes "rule_doc_of a rule"
  shows "(let allow = jget rule ''allow'' in truthy (ref allow ''method'') \<and> method_matches rb (jget req ''method'') (ref allow ''method'')
    \<and> path_matches rb (jget req ''path'') (ref allow ''path'') \<and> query_params_match rb req rule) \<longleftrightarrow> allow_covers rb a method0 target query"
proof -
  obtain kvs where k: "jget rule ''allow'' = Some (obj kvs)" "map_of kvs ''method'' = Some (JStr (al_method a))"
      "map_of kvs ''path'' = Some (JStr (al_path a))"
      "map_of kvs ''query'' = (if al_query a = [] then None else Some (obj (map (\<lambda>(key, m). (key, matcher_json m)) (al_query a))))"
    using assms(2) by (auto simp: rule_doc_of_def)
  have q: "query_params_match rb req rule \<longleftrightarrow> list_all (\<lambda>(k, m). case map_of query k of None \<Rightarrow> False
      | Some vs \<Rightarrow> vs \<noteq> [] \<and> list_all (matcher_covers rb m) vs) (al_query a)"
  proof (cases "al_query a = []")
    case True
    then show ?thesis by (simp add: query_params_match_def k object_get_obj query_mismatch_def)
  next
    case False
    have "query_params_match rb req rule \<longleftrightarrow> \<not> list_ex (\<lambda>(key, matcher). \<not> query_key_matches rb req key matcher)
        (map (\<lambda>(k, v). (JStr k, v)) (btree_collect (map (\<lambda>(key, m). (key, matcher_json m)) (al_query a))))"
      using False by (simp add: query_params_match_def k object_get_obj query_mismatch_def items_obj)
    also have "\<dots> \<longleftrightarrow> list_all (\<lambda>(k, m). query_key_matches rb req (JStr k) (matcher_json m)) (al_query a)"
      by (force simp: list_ex_iff list_all_iff)
    finally show ?thesis unfolding req_def query_key_covers .
  qed
  show ?thesis using k(1-3) q
    by (auto simp: Let_def allow_covers_def method_matches_def path_matches_def glob_def truthy_def req_def)
qed

lemma list_ex_all2: "list_all2 R xs ys \<Longrightarrow> (\<And>x y. R x y \<Longrightarrow> P y \<longleftrightarrow> Q x) \<Longrightarrow> list_ex P ys \<longleftrightarrow> list_ex Q xs"
  by (induction rule: list_all2_induct) auto

lemma request_allowed_loaded:
  assumes "request_doc inp method0 target query"
  shows "request_allowed_for_endpoint rb (jget inp ''request'') (loaded_endpoint e)
    \<longleftrightarrow> list_ex (\<lambda>a. allow_covers rb a method0 target query) (effective_allows e)"
proof -
  let ?req = "obj [(''method'', JStr method0), (''path'', JStr target), (''query_params'', obj (map (\<lambda>(k, vs). (k, str_array vs)) query))]"
  have r: "jget inp ''request'' = Some ?req" using assms by (simp add: request_doc_def)
  have none: "\<not> command_matches rb (jget ?req ''command'') c" for c by (simp add: command_matches_def method_matches_def)
  have docs: "list_all2 rule_doc_of (effective_allows e) (elems (jget (loaded_endpoint e) ''rules''))" using loaded_rules by blast
  have "request_allowed_for_endpoint rb (jget inp ''request'') (loaded_endpoint e) \<longleftrightarrow>
      list_ex (\<lambda>rule. let allow = jget rule ''allow'' in truthy (ref allow ''method'') \<and> method_matches rb (jget ?req ''method'') (ref allow ''method'')
        \<and> path_matches rb (jget ?req ''path'') (ref allow ''path'') \<and> query_params_match rb ?req rule) (elems (jget (loaded_endpoint e) ''rules''))"
    unfolding request_allowed_for_endpoint_def r ref_Some Let_def by (simp add: none list_ex_iff del: jget_obj)
  also have "\<dots> \<longleftrightarrow> list_ex (\<lambda>a. allow_covers rb a method0 target query) (effective_allows e)"
    by (rule list_ex_all2 [OF docs]) (rule rule_doc_covers)
  finally show ?thesis .
qed

lemma allow_request_loaded:
  assumes "network_doc inp host port" "exec_doc inp path ancestors cmdline" "request_doc inp method0 target query"
  shows "allow_request rb (loaded_data p) inp \<longleftrightarrow> request_permitted rb p host port path ancestors method0 target query"
proof -
  obtain n where n: "jget inp ''network'' = Some n" "jget n ''host'' = Some (JStr host)" "jget n ''port'' = Some (JNum port)"
    using assms(1) by (auto simp: network_doc_def)
  have l7: "policy_allows_l7 rb inp (loaded_rule r) \<longleftrightarrow> list_ex (\<lambda>e. endpoint_covers rb e host port
      \<and> list_ex (\<lambda>a. allow_covers rb a method0 target query) (effective_allows e)) (np_endpoints r)" for r
    by (simp add: policy_allows_l7_def loaded_rule_fields list_ex_iff n(1) endpoint_matches_loaded [OF n(2,3)]
        request_allowed_loaded [OF assms(3)])
  show ?thesis
    by (force simp: allow_request_def request_permitted_def network_policies_loaded list_ex_iff policy_matches_loaded [OF assms(1,2)] l7)
qed

definition l7_input_of :: "l7_eval_context \<Rightarrow> l7_request_info \<Rightarrow> l7_input" where
  "l7_input_of ctx request = \<lparr>in_host = ctx_host ctx, in_port = ctx_port ctx, in_exec_path = ctx_binary_path ctx,
     in_ancestors = ctx_ancestors ctx, in_cmdline_paths = ctx_cmdline_paths ctx,
     in_method = ri_action request, in_path = ri_target request, in_query_params = ri_query_params request\<rparr>"

lemma l7_input_docs:
  "network_doc (l7_input_json (l7_input_of ctx request)) (ctx_host ctx) (int (ctx_port ctx))"
  "exec_doc (l7_input_json (l7_input_of ctx request)) (ctx_binary_path ctx) (ctx_ancestors ctx) (ctx_cmdline_paths ctx)"
  "request_doc (l7_input_json (l7_input_of ctx request)) (ri_action request) (ri_target request) (ri_query_params request)"
  by (simp_all add: network_doc_def exec_doc_def request_doc_def l7_input_json_def l7_input_of_def truthy_def obj_def)

lemma evaluate_loaded:
  "evaluate_l7_request (tunnel_rego rb (loaded_data p)) ctx request =
    (if request_permitted rb p (ctx_host ctx) (int (ctx_port ctx)) (ctx_binary_path ctx) (ctx_ancestors ctx)
          (ri_action request) (ri_target request) (ri_query_params request)
     then Inr (True, []) else Inr (False, ri_action request @ '' '' @ ri_target request @ '' not permitted by policy''))"
proof -
  let ?j = "l7_input_json (l7_input_of ctx request)"
  have a: "allow_request rb (loaded_data p) ?j \<longleftrightarrow> request_permitted rb p (ctx_host ctx) (int (ctx_port ctx)) (ctx_binary_path ctx)
      (ctx_ancestors ctx) (ri_action request) (ri_target request) (ri_query_params request)"
    by (rule allow_request_loaded [OF l7_input_docs])
  have d: "request_deny_reason rb (loaded_data p) ?j = (if allow_request rb (loaded_data p) ?j then None
      else Some (ri_action request @ '' '' @ ri_target request @ '' not permitted by policy''))"
    using l7_input_docs(3) [of ctx request] by (simp add: request_deny_reason_def request_doc_def truthy_def obj_def)
  have "evaluate_l7_request (tunnel_rego rb (loaded_data p)) ctx request = and_then (tunnel_rego rb (loaded_data p) (l7_input_of ctx request))
      (\<lambda>eval_rule. and_then (eval_rule ''data.openshell.sandbox.allow_request'') (\<lambda>v. if v = RegoBool True then Inr (True, [])
        else and_then (eval_rule ''data.openshell.sandbox.request_deny_reason'') (\<lambda>val.
          Inr (False, case val of RegoString s \<Rightarrow> s | RegoUndefined \<Rightarrow> ''request denied by policy'' | other \<Rightarrow> rego_display other))))"
    by (simp add: evaluate_l7_request_def l7_input_of_def)
  then show ?thesis by (simp add: tunnel_rego_def d a)
qed


definition curl_ctx :: l7_eval_context where
  "curl_ctx = \<lparr>ctx_host = ''api.example.com'', ctx_port = 443, ctx_policy_name = ''api'', ctx_binary_path = ''/usr/bin/curl'',
     ctx_ancestors = [], ctx_cmdline_paths = [], ctx_secret_resolver = None\<rparr>"


section \<open>What loads\<close>

definition host_pattern_ok :: "string \<Rightarrow> bool" where
  "host_pattern_ok host \<longleftrightarrow> (contains ''*'' host \<longrightarrow> host \<noteq> ''*'' \<and> host \<noteq> ''**'' \<and> (starts_with ''*.'' host \<or> starts_with ''**.'' host))"

definition matcher_ok :: "l7_query_matcher \<Rightarrow> bool" where
  "matcher_ok m \<longleftrightarrow> (qm_glob m = []) \<noteq> (qm_any m = [])"

definition endpoint_loads :: "network_endpoint \<Rightarrow> bool" where
  "endpoint_loads e \<longleftrightarrow> host_pattern_ok (ep_host e) \<and> (ep_rules e = [] \<or> ep_access e = [])
     \<and> (ep_protocol e \<noteq> [] \<longrightarrow> ep_rules e \<noteq> [] \<or> ep_access e \<noteq> [])
     \<and> \<not> (ep_protocol e = ''sql'' \<and> ep_enforcement e = ''enforce'')
     \<and> (ep_protocol e = ''rest'' \<longrightarrow> list_all (\<lambda>r. case lr_allow r of None \<Rightarrow> True
          | Some a \<Rightarrow> list_all (\<lambda>(k, m). matcher_ok m) (al_query a)) (ep_rules e))"

lemma diag_simps [simp]:
  "fst (diag_append a b) = fst a @ fst b" "fst (diag_concat ds) = concat (map fst ds)" "fst (err m) = [m]" "fst (warn m) = []" "fst no_diag = []"
  by (simp_all add: diag_append_def diag_concat_def err_def warn_def no_diag_def)

lemma glob_warning_no_error [simp]: "fst (glob_warning loc g) = []"
  by (simp add: glob_warning_def split: option.split)

lemma validate_matcher_json: "fst (validate_matcher loc (matcher_json m)) = [] \<longleftrightarrow> matcher_ok m"
proof -
  have e: "concat (map fst (map (glob_warning l) ws)) = []" for l ws by (simp add: comp_def)
  show ?thesis
    by (cases "qm_glob m = []"; cases "qm_any m = []")
      (simp_all add: validate_matcher_def matcher_json_def obj_def opt_field_def opt_array_def Let_def matcher_ok_def list_ex_iff e)
qed

lemma validate_host_ok: "fst (validate_host loc host) = [] \<longleftrightarrow> host_pattern_ok host"
  by (auto simp: validate_host_def host_pattern_ok_def Let_def)

lemma validate_l7_rule_json:
  "fst (validate_l7_rule loc i (obj [(''allow'', allow_json r)])) = [] \<longleftrightarrow>
    (case lr_allow r of None \<Rightarrow> True | Some a \<Rightarrow> list_all (\<lambda>(k, m). matcher_ok m) (al_query a))"
proof -
  have m: "fst (case as_str (jget (allow_json r) ''method'') of None \<Rightarrow> no_diag | Some method0 \<Rightarrow> if P method0 then warn (W method0) else no_diag) = []" for P W
    by (simp split: option.split)
  show ?thesis
  proof (cases "lr_allow r")
    case None
    then have "jget (allow_json r) ''query'' = None" by (simp add: allow_json_def Let_def)
    then show ?thesis using None by (simp add: validate_l7_rule_def Let_def m)
  next
    case (Some a)
    let ?q = "map (\<lambda>(key, m). (key, matcher_json m)) (al_query a)"
    let ?loc = "\<lambda>param. (loc @ ''.rules['' @ show_nat i @ ''].allow.query'') @ ''.'' @ param"
    have q: "jget (allow_json r) ''query'' = (if al_query a = [] then None else Some (JObj (btree_collect ?q)))"
      using Some by (simp add: allow_json_def Let_def obj_def)
    have "fst (validate_l7_rule loc i (obj [(''allow'', allow_json r)])) =
        (if al_query a = [] then [] else concat (map (\<lambda>x. fst (case x of (param, j) \<Rightarrow> validate_matcher (?loc param) j)) (btree_collect ?q)))"
      unfolding validate_l7_rule_def Let_def by (simp add: m q comp_def)
    moreover have "concat (map (\<lambda>x. fst (case x of (param, j) \<Rightarrow> validate_matcher (?loc param) j)) (btree_collect ?q)) = []
        \<longleftrightarrow> list_all (\<lambda>(k, m). matcher_ok m) (al_query a)"
      by (simp only: concat_eq_Nil_conv set_map set_btree_collect list_all_iff ball_simps) (simp add: validate_matcher_json split_def)
    ultimately show ?thesis using Some by simp
  qed
qed

lemma validate_endpoint_json: "fst (validate_endpoint name i (endpoint_json e)) = [] \<longleftrightarrow> endpoint_loads e"
proof -
  let ?rules = "map (\<lambda>r. obj [(''allow'', allow_json r)]) (ep_rules e)"
  let ?loc = "name @ ''.endpoints['' @ show_nat i @ '']''"
  have rules: "concat (map (\<lambda>x. fst (case x of (idx, rule) \<Rightarrow> validate_l7_rule ?loc idx rule)) (zip [0..<length ?rules] ?rules)) = []
      \<longleftrightarrow> list_all (\<lambda>r. case lr_allow r of None \<Rightarrow> True | Some a \<Rightarrow> list_all (\<lambda>(k, m). matcher_ok m) (al_query a)) (ep_rules e)"
    by (fastforce simp: concat_eq_Nil_conv set_zip list_all_length validate_l7_rule_json)
  have str: "str_or_empty (if s = [] then None else Some (JStr s)) = s" for s by (simp add: str_or_empty_def)
  have arr: "nonempty_array (if xs = [] then None else Some (JArr (map f xs))) \<longleftrightarrow> xs \<noteq> []" for xs and f :: "l7_rule \<Rightarrow> json"
    by (simp add: nonempty_array_def)
  show ?thesis
    unfolding validate_endpoint_def Let_def endpoint_json_fields str arr
    using rules by (simp add: validate_host_ok endpoint_loads_def str_or_empty_def comp_def)
qed

lemma loads_iff:
  "is_ok (engine_from_proto p) = list_all (\<lambda>(k, r). list_all endpoint_loads (np_endpoints r)) (sp_network_policies p)"
proof -
  let ?nps = "map (\<lambda>(key, rule). (key, policy_rule_json rule)) (sp_network_policies p)"
  have np: "as_object (jget (proto_to_opa_data_json p) ''network_policies'') = Some (btree_collect ?nps)"
    by (simp add: proto_to_opa_data_json_def obj_def)
  have eps: "concat (map (\<lambda>x. fst (case x of (i, ep) \<Rightarrow> validate_endpoint name i ep)) (zip [0..<length (map endpoint_json es)] (map endpoint_json es))) = []
      \<longleftrightarrow> list_all endpoint_loads es" for name es
    by (fastforce simp: concat_eq_Nil_conv set_zip list_all_length validate_endpoint_json)
  have rule: "fst (case as_array (jget (policy_rule_json r) ''endpoints'') of None \<Rightarrow> no_diag
      | Some es \<Rightarrow> diag_concat (map (\<lambda>(i, ep). validate_endpoint name i ep) (zip [0..<length es] es))) = [] \<longleftrightarrow> list_all endpoint_loads (np_endpoints r)" for name r
    using eps [of name "np_endpoints r"] by (simp add: policy_rule_json_def comp_def)
  have "fst (validate_l7_policies (proto_to_opa_data_json p)) = [] \<longleftrightarrow> list_all (\<lambda>(k, r). list_all endpoint_loads (np_endpoints r)) (sp_network_policies p)"
    unfolding validate_l7_policies_def np option.case diag_simps concat_eq_Nil_conv set_map set_btree_collect list_all_iff
    using rule by (fastforce simp: list_all_iff)
  then show ?thesis
    by (auto simp: engine_from_proto_def preprocess_def is_ok_def split: prod.split)
qed

text \<open>C33: a policy loads exactly when each of its endpoints is well formed: a host wildcard leads with a label wildcard and is not
  bare, rules and an access preset exclude each other, a protocol comes with one of them, SQL is not enforced, and every query matcher
  of a REST rule is either one pattern or a list of patterns. A policy that does not load leaves the running engine in place.\<close>

theorem policy_loads_iff:
  "is_ok (engine_from_proto p) = list_all (\<lambda>(k, r). list_all endpoint_loads (np_endpoints r)) (sp_network_policies p)
   \<and> reload_from_proto p engine = (if is_ok (engine_from_proto p) then (Inr (), loaded_data p) else (map_sum id (\<lambda>_. ()) (engine_from_proto p), engine))"
  using engine_from_proto_loaded [of p] loads_iff [of p] by (cases "engine_from_proto p") (simp_all add: reload_from_proto_def)

section \<open>Static configuration\<close>

lemma loaded_data_other:
  assumes "k \<noteq> ''network_policies''"
  shows "jget (loaded_data p) k = jget (proto_to_opa_data_json p) k"
  using assms unfolding loaded_data_def expand_access_presets_def map_endpoints_def proto_to_opa_data_json_def jget_jupdate_obj by simp

lemma strings_of_array: "List.map_filter (\<lambda>v. as_str (Some v)) (map JStr ss) = ss"
  by (induction ss) (auto simp: List.map_filter_simps)

text \<open>The static configuration read back from a loaded policy is that of the message, with the defaults of the conversion.\<close>

lemma static_configuration:
  assumes "engine_from_proto p = Inr engine"
  shows "query_sandbox_config engine =
    \<lparr>sc_filesystem = (case sp_filesystem p of None \<Rightarrow> \<lparr>fs_include_workdir = True, fs_read_only = [], fs_read_write = []\<rparr> | Some fs \<Rightarrow> fs),
     sc_landlock = (case sp_landlock p of None \<Rightarrow> BestEffort
       | Some ll \<Rightarrow> if ll_compatibility ll = ''hard_requirement'' then HardRequirement else BestEffort),
     sc_process = \<lparr>ra_user = Some (case sp_process p of None \<Rightarrow> ''sandbox'' | Some pr \<Rightarrow> pr_run_as_user pr),
       ra_group = Some (case sp_process p of None \<Rightarrow> ''sandbox'' | Some pr \<Rightarrow> pr_run_as_group pr)\<rparr>\<rparr>"
  unfolding engine_from_proto_loaded [OF assms] query_sandbox_config_def Let_def
  by (simp add: loaded_data_other proto_to_opa_data_json_def parse_filesystem_policy_def parse_landlock_policy_def parse_process_policy_def get_bool_def
      get_str_array_def get_str_def str_array_def strings_of_array split: option.split)

text \<open>Port normalisation: afterwards the ports the rules see are the ones validation saw, and no single port is left.\<close>

lemma map_of_removed: "map_of (filter (\<lambda>(k, _). k \<noteq> key) kvs) key = None"
  by (induction kvs) auto

lemma normalized_ports:
  assumes "ports \<noteq> []" "map_of kvs ''ports'' = Some (JArr ports)"
  shows "jget (normalize_ports (obj kvs)) ''ports'' = Some (JArr ports)"
  using assms by (simp add: normalize_ports_def nonempty_array_def Let_def obj_def map_of_filter_ne)

lemma normalized_no_single_port: "jget (normalize_ports (obj kvs)) ''port'' = None"
  by (simp add: normalize_ports_def Let_def obj_def map_of_removed)

lemma normalized_single_port:
  assumes "map_of kvs ''ports'' = None" "map_of kvs ''port'' = Some (JNum (int n))" "0 < n" "n < 2 ^ 64"
  shows "jget (normalize_ports (obj kvs)) ''ports'' = Some (JArr [JNum (int n)])"
proof -
  have "int n < 2 ^ 64" using assms(4) by (metis of_nat_less_iff of_nat_numeral of_nat_power)
  then show ?thesis using assms(1-3) by (simp add: normalize_ports_def nonempty_array_def Let_def obj_def map_of_filter_ne)
qed

end
