(* ===== verification/Opa_Proxy.thy ===== *)
theory Opa_Proxy
  imports Opa_Props
begin

text \<open>
  The proxy with the policy engine behind it: which endpoint configures a connection, what a loaded policy means for
  the connections the proxy opens and for the requests it forwards, and where a configuration is lost.
\<close>

section \<open>The configuration of a connection\<close>

definition extended :: "network_endpoint \<Rightarrow> bool" where
  "extended e \<longleftrightarrow> ep_protocol e \<noteq> [] \<or> ep_allowed_ips e \<noteq> [] \<or> ep_tls e \<noteq> []"

text \<open>The endpoints that may configure a connection: of the covering rules in the order of their names.\<close>

definition candidate_endpoints :: "rego_builtins \<Rightarrow> sandbox_policy \<Rightarrow> string \<Rightarrow> int \<Rightarrow> string \<Rightarrow> string list \<Rightarrow> network_endpoint list" where
  "candidate_endpoints rb p host port path ancestors =
     concat (map (\<lambda>(k, r). filter (\<lambda>e. endpoint_covers rb e host port \<and> extended e) (np_endpoints r))
       (filter (\<lambda>(k, r). rule_covers rb r host port path ancestors) (btree_collect (sp_network_policies p))))"

lemma extended_loaded: "endpoint_has_extended_config (loaded_endpoint e) \<longleftrightarrow> extended e"
  by (auto simp: endpoint_has_extended_config_def extended_def object_get_loaded loaded_endpoint_fields truthy_def count_positive_def)

lemma policy_configs_loaded:
  assumes "network_doc inp host port"
  shows "policy_endpoint_configs rb inp (loaded_rule r) =
    map loaded_endpoint (filter (\<lambda>e. endpoint_covers rb e host port \<and> extended e) (np_endpoints r))"
proof -
  obtain n where n: "jget inp ''network'' = Some n" "jget n ''host'' = Some (JStr host)" "jget n ''port'' = Some (JNum port)"
    using assms by (auto simp: network_doc_def)
  show ?thesis
    by (simp add: policy_endpoint_configs_def loaded_rule_fields n(1) endpoint_matches_loaded [OF n(2,3)] extended_loaded filter_map comp_def)
qed

lemma map_of_filtered_keys:
  assumes "distinct (map fst m)"
  shows "map (\<lambda>k. F (map_of m k)) (map fst (filter P m)) = map (\<lambda>(k, v). F (Some v)) (filter P m)"
  using assms by (auto intro!: map_cong [OF refl])

lemma matched_config_loaded:
  assumes "network_doc inp host port" "exec_doc inp path ancestors cmdline" "distinct (map fst (sp_network_policies p))"
  shows "matched_endpoint_config rb (loaded_data p) inp = (case candidate_endpoints rb p host port path ancestors of
    [] \<Rightarrow> None | e # _ \<Rightarrow> Some (loaded_endpoint e))"
proof -
  let ?m = "btree_collect (sp_network_policies p)"
  have "mset (map fst ?m) = mset (map fst (sp_network_policies p))" by (simp add: btree_collect_def)
  then have d: "distinct (map fst ?m)" using assms(3) by (metis mset_eq_imp_distinct_iff)
  have np: "ref (jget (loaded_data p) ''network_policies'') k = map_option loaded_rule (map_of ?m k)" for k
    by (simp add: loaded_network_policies map_of_map_value)
  have "matching_endpoint_configs rb (loaded_data p) inp = concat (map (\<lambda>k. case map_option loaded_rule (map_of ?m k) of
      None \<Rightarrow> [] | Some policy \<Rightarrow> policy_endpoint_configs rb inp policy) (covering_names rb p host port path ancestors))"
    by (simp add: matching_endpoint_configs_def matching_names_loaded [OF assms] np)
  also have "\<dots> = concat (map (\<lambda>(k, r). map loaded_endpoint (filter (\<lambda>e. endpoint_covers rb e host port \<and> extended e) (np_endpoints r)))
      (filter (\<lambda>(k, r). rule_covers rb r host port path ancestors) ?m))"
    unfolding covering_names_def
    by (subst map_of_filtered_keys [OF d, of "\<lambda>v. case map_option loaded_rule v of None \<Rightarrow> []
        | Some policy \<Rightarrow> policy_endpoint_configs rb inp policy"]) (simp add: policy_configs_loaded [OF assms(1)])
  also have "\<dots> = map loaded_endpoint (candidate_endpoints rb p host port path ancestors)"
    by (simp add: candidate_endpoints_def map_concat comp_def split_def)
  finally show ?thesis by (simp add: matched_endpoint_config_def split: list.split)
qed

lemma endpoint_object_loaded:
  "endpoint_object_of (loaded_endpoint e) ''protocol'' = (if ep_protocol e = [] then None else Some (ep_protocol e))"
  "endpoint_object_of (loaded_endpoint e) ''tls'' = (if ep_tls e = [] then None else Some (ep_tls e))"
  "endpoint_object_of (loaded_endpoint e) ''enforcement'' = (if ep_enforcement e = [] then None else Some (ep_enforcement e))"
  by (simp_all add: endpoint_object_of_def loaded_endpoint_fields)

text \<open>The inspection configuration an endpoint of the policy stands for.\<close>

definition endpoint_l7_config :: "network_endpoint \<Rightarrow> l7_endpoint_config option" where
  "endpoint_l7_config e = (case l7_protocol_parse (ep_protocol e) of None \<Rightarrow> None
     | Some protocol \<Rightarrow> Some \<lparr>ec_protocol = protocol, ec_tls = (if ep_tls e = ''skip'' then TlsSkip else TlsAuto),
         ec_enforcement = (if ep_enforcement e = ''enforce'' then Enforce else Audit)\<rparr>)"

lemma parse_l7_config_loaded: "parse_l7_config (endpoint_object_of (loaded_endpoint e)) = endpoint_l7_config e"
proof -
  have "l7_protocol_parse [] = None" by code_simp
  then show ?thesis
    by (auto simp: parse_l7_config_def get_object_str_def endpoint_object_loaded endpoint_l7_config_def split: option.split)
qed

lemma get_str_array_loaded: "get_str_array (loaded_endpoint e) ''allowed_ips'' = ep_allowed_ips e"
proof -
  have "List.map_filter (\<lambda>v. as_str (Some v)) (map JStr ss) = ss" for ss by (induction ss) (auto simp: List.map_filter_simps)
  then show ?thesis by (simp add: get_str_array_def loaded_endpoint_fields)
qed

definition first_candidate :: "rego_builtins \<Rightarrow> sandbox_policy \<Rightarrow> connect_decision \<Rightarrow> string \<Rightarrow> 16 word \<Rightarrow> network_endpoint option" where
  "first_candidate rb p decision host port = (case candidate_endpoints rb p host (uint port)
       (utf8_lossy (case cd_binary decision of None \<Rightarrow> [] | Some b \<Rightarrow> b)) (map utf8_lossy (cd_ancestors decision)) of
     [] \<Rightarrow> None | e # _ \<Rightarrow> Some e)"

lemma query_endpoint_loaded:
  assumes "distinct (map fst (sp_network_policies p))"
  shows "query_endpoint_config rb (loaded_data p) (query_input decision host port) =
    Inr (map_option loaded_endpoint (first_candidate rb p decision host port))"
  using matched_config_loaded [OF network_input_docs [of "query_input decision host port"] assms]
  by (simp add: query_endpoint_config_def first_candidate_def query_input_def split: list.split)

text \<open>For an allowed connection the proxy takes inspection, TLS handling and permitted internal networks all from one
  endpoint of the policy: the first one that covers the connection and says anything beyond host and port, in the order
  of the rule names and of the endpoints of a rule.\<close>

theorem configuration_is_first_candidate:
  assumes "engine_from_proto p = Inr engine" "distinct (map fst (sp_network_policies p))" "has_policy decision"
  shows "query_l7_config (proxy_with_engine rb engine env) decision host port =
      Option.bind (first_candidate rb p decision host port) endpoint_l7_config
    \<and> query_tls_mode (proxy_with_engine rb engine env) decision host port =
      (case first_candidate rb p decision host port of None \<Rightarrow> TlsAuto | Some e \<Rightarrow> if ep_tls e = ''skip'' then TlsSkip else TlsAuto)
    \<and> query_allowed_ips (proxy_with_engine rb engine env) decision host port =
      (case first_candidate rb p decision host port of None \<Rightarrow> [] | Some e \<Rightarrow> ep_allowed_ips e)"
proof -
  have e: "engine = loaded_data p" using assms(1) by (rule engine_from_proto_loaded)
  note q = query_endpoint_loaded [OF assms(2), of rb decision host port]
  have "query_l7_config (proxy_with_engine rb engine env) decision host port = Option.bind (first_candidate rb p decision host port) endpoint_l7_config"
    using assms(3) by (cases "first_candidate rb p decision host port")
      (simp_all add: query_l7_config_def proxy_with_engine_def e q parse_l7_config_loaded)
  moreover have "query_tls_mode (proxy_with_engine rb engine env) decision host port =
      (case first_candidate rb p decision host port of None \<Rightarrow> TlsAuto | Some e \<Rightarrow> if ep_tls e = ''skip'' then TlsSkip else TlsAuto)"
    using assms(3) by (cases "first_candidate rb p decision host port")
      (auto simp: query_tls_mode_def proxy_with_engine_def e q parse_tls_mode_def get_object_str_def endpoint_object_loaded)
  moreover have "query_allowed_ips (proxy_with_engine rb engine env) decision host port =
      (case first_candidate rb p decision host port of None \<Rightarrow> [] | Some e \<Rightarrow> ep_allowed_ips e)"
    using assms(3) by (cases "first_candidate rb p decision host port")
      (simp_all add: query_allowed_ips_def proxy_with_engine_def engine_allowed_ips_def e q get_str_array_loaded)
  ultimately show ?thesis by blast
qed

definition curl_decision :: connect_decision where
  "curl_decision = \<lparr>cd_action = Allow (Some ''api''), cd_binary = Some ''/usr/bin/curl'', cd_binary_pid = Some 7, cd_ancestors = [], cd_cmdline_paths = []\<rparr>"

theorem configuration_is_first_candidate_witness:
  "query_l7_config (proxy_with_engine example_builtins (loaded_data (example_rules [example_endpoint])) example_env) curl_decision ''api.example.com'' 443
     = Some \<lparr>ec_protocol = Rest, ec_tls = TlsAuto, ec_enforcement = Enforce\<rparr>"
proof -
  have "has_policy curl_decision" by (simp add: has_policy_def curl_decision_def)
  moreover have "distinct (map fst (sp_network_policies (example_rules [example_endpoint])))" by (simp add: example_rules_def)
  moreover have "Option.bind (first_candidate example_builtins (example_rules [example_endpoint]) curl_decision ''api.example.com'' 443) endpoint_l7_config
      = Some \<lparr>ec_protocol = Rest, ec_tls = TlsAuto, ec_enforcement = Enforce\<rparr>" by code_simp
  ultimately show ?thesis
    using configuration_is_first_candidate [OF example_loads, where decision = curl_decision and rb = example_builtins and env = example_env
        and host = "''api.example.com''" and port = 443] by metis
qed

section \<open>Configurations that are lost\<close>

text \<open>
  An endpoint without a host lists internal networks for any host on its port. When it precedes an inspected endpoint
  in its rule, it is the one that configures the connection: requests the policy does not permit are not inspected.
\<close>

definition internal_endpoint :: network_endpoint where
  "internal_endpoint = \<lparr>ep_host = [], ep_port = 443, ep_protocol = [], ep_tls = [], ep_enforcement = [], ep_access = [],
     ep_rules = [], ep_allowed_ips = [''10.0.0.0/8''], ep_ports = []\<rparr>"

lemma hidden_loads: "\<exists>engine. engine_from_proto (example_rules [internal_endpoint, example_endpoint]) = Inr engine"
proof -
  have "fst (validate_l7_policies (proto_to_opa_data_json (example_rules [internal_endpoint, example_endpoint]))) = []" by code_simp
  then show ?thesis by (simp add: engine_from_proto_def preprocess_def split_beta)
qed

theorem hostless_endpoint_hides_inspection:
  "\<exists>engine. engine_from_proto (example_rules [internal_endpoint, example_endpoint]) = Inr engine
     \<and> query_l7_config (proxy_with_engine example_builtins engine example_env) curl_decision ''api.example.com'' 443 = None
     \<and> \<not> request_permitted example_builtins (example_rules [internal_endpoint, example_endpoint]) ''api.example.com'' 443
          ''/usr/bin/curl'' [] ''DELETE'' ''/v1'' []"
proof -
  let ?p = "example_rules [internal_endpoint, example_endpoint]"
  obtain engine where e: "engine_from_proto ?p = Inr engine" using hidden_loads by blast
  have "query_endpoint_config example_builtins engine (query_input curl_decision ''api.example.com'' 443) =
      Inr (map_option loaded_endpoint (first_candidate example_builtins ?p curl_decision ''api.example.com'' 443))"
    unfolding engine_from_proto_loaded [OF e] by (rule query_endpoint_loaded) (simp add: example_rules_def)
  moreover have "first_candidate example_builtins ?p curl_decision ''api.example.com'' 443 = Some internal_endpoint"
    "endpoint_l7_config internal_endpoint = None" by code_simp+
  ultimately have "query_l7_config (proxy_with_engine example_builtins engine example_env) curl_decision ''api.example.com'' 443 = None"
    by (simp add: query_l7_config_def proxy_with_engine_def parse_l7_config_loaded)
  moreover have "\<not> request_permitted example_builtins ?p ''api.example.com'' 443 ''/usr/bin/curl'' [] ''DELETE'' ''/v1'' []" by code_simp
  ultimately show ?thesis using e by blast
qed

text \<open>A protocol name that is not known is accepted with its rules, and means no inspection at all.\<close>

theorem unknown_protocol_not_inspected:
  "\<exists>engine. engine_from_proto (example_rules [example_endpoint\<lparr>ep_protocol := ''http''\<rparr>]) = Inr engine
     \<and> query_l7_config (proxy_with_engine example_builtins engine example_env) curl_decision ''api.example.com'' 443 = None
     \<and> \<not> request_permitted example_builtins (example_rules [example_endpoint\<lparr>ep_protocol := ''http''\<rparr>]) ''api.example.com'' 443
          ''/usr/bin/curl'' [] ''DELETE'' ''/v1'' []"
proof -
  let ?e = "example_endpoint\<lparr>ep_protocol := ''http''\<rparr>" and ?p = "example_rules [example_endpoint\<lparr>ep_protocol := ''http''\<rparr>]"
  have "fst (validate_l7_policies (proto_to_opa_data_json ?p)) = []" by code_simp
  then obtain engine where e: "engine_from_proto ?p = Inr engine" by (simp add: engine_from_proto_def preprocess_def split_beta)
  have "query_endpoint_config example_builtins engine (query_input curl_decision ''api.example.com'' 443) =
      Inr (map_option loaded_endpoint (first_candidate example_builtins ?p curl_decision ''api.example.com'' 443))"
    unfolding engine_from_proto_loaded [OF e] by (rule query_endpoint_loaded) (simp add: example_rules_def)
  moreover have "first_candidate example_builtins ?p curl_decision ''api.example.com'' 443 = Some ?e" "endpoint_l7_config ?e = None" by code_simp+
  ultimately have "query_l7_config (proxy_with_engine example_builtins engine example_env) curl_decision ''api.example.com'' 443 = None"
    by (simp add: query_l7_config_def proxy_with_engine_def parse_l7_config_loaded)
  moreover have "\<not> request_permitted example_builtins ?p ''api.example.com'' 443 ''/usr/bin/curl'' [] ''DELETE'' ''/v1'' []" by code_simp
  ultimately show ?thesis using e by blast
qed

section \<open>The policy governs the proxy\<close>

lemma evaluate_opa_tcp_Allow:
  assumes "cd_action (fst (evaluate_opa_tcp env peer_port host port cache)) = Allow matched"
  obtains bin pid hash where "px_peer_identity env (px_entrypoint_pid env) peer_port = Inr (bin, pid)"
    "cd_binary (fst (evaluate_opa_tcp env peer_port host port cache)) = Some bin"
    "cd_ancestors (fst (evaluate_opa_tcp env peer_port host port cache)) = px_ancestor_binaries env pid (px_entrypoint_pid env)"
    "px_network_action env \<lparr>ni_host = host, ni_port = port, ni_binary_path = bin, ni_binary_sha256 = hash,
       ni_ancestors = px_ancestor_binaries env pid (px_entrypoint_pid env),
       ni_cmdline_paths = px_cmdline_paths env pid (px_entrypoint_pid env) (px_ancestor_binaries env pid (px_entrypoint_pid env) @ [bin])\<rparr>
     = Inr (Allow matched)"
proof -
  have pid: "px_entrypoint_pid env \<noteq> 0"
  proof
    assume "px_entrypoint_pid env = 0"
    then show False using assms by (simp add: evaluate_opa_tcp_def deny_decision_def)
  qed
  obtain bin bpid where i: "px_peer_identity env (px_entrypoint_pid env) peer_port = Inr (bin, bpid)"
    using assms pid by (auto simp: evaluate_opa_tcp_def deny_decision_def Let_def split: sum.splits)
  obtain hash cache1 where h: "verify_or_cache (px_fs env) bin cache = (Inr hash, cache1)"
    using assms pid i by (auto simp: evaluate_opa_tcp_def deny_decision_def Let_def split: sum.splits prod.splits)
  let ?anc = "px_ancestor_binaries env bpid (px_entrypoint_pid env)"
  obtain u cache2 where v: "verify_ancestors (px_fs env) ?anc cache1 = (Inr u, cache2)"
    using assms pid i h by (auto simp: evaluate_opa_tcp_def deny_decision_def Let_def split: sum.splits prod.splits)
  show thesis
    using that [OF i, of hash] assms pid i h v
    by (auto simp: evaluate_opa_tcp_def deny_decision_def Let_def split: sum.splits)
qed

lemma first_candidate_covers:
  assumes "first_candidate rb p decision host port = Some e"
  shows "\<exists>k r. (k, r) \<in> set (sp_network_policies p) \<and> e \<in> set (np_endpoints r) \<and> endpoint_covers rb e host (uint port)"
proof -
  have "e \<in> set (candidate_endpoints rb p host (uint port) (utf8_lossy (case cd_binary decision of None \<Rightarrow> [] | Some b \<Rightarrow> b))
      (map utf8_lossy (cd_ancestors decision)))"
    using assms by (auto simp: first_candidate_def split: list.splits)
  then show ?thesis by (auto simp: candidate_endpoints_def)
qed

text \<open>An address the policy opens: not blocked, and internal only inside a network listed for an endpoint that covers host
  and port, or as the literal host of the request.\<close>

definition policy_opens :: "rego_builtins \<Rightarrow> sandbox_policy \<Rightarrow> 'n net_env \<Rightarrow> string \<Rightarrow> 16 word \<Rightarrow> ip_addr \<Rightarrow> bool" where
  "policy_opens rb p net host port ip \<longleftrightarrow> \<not> is_always_blocked_ip ip \<and> (is_internal_ip ip \<longrightarrow>
     (\<exists>entry n. parse_allowed_ip net entry = Some n \<and> ne_contains net n ip
       \<and> (entry \<in> set (implicit_allowed_ips_for_ip_host net host)
          \<or> (\<exists>k r e. (k, r) \<in> set (sp_network_policies p) \<and> e \<in> set (np_endpoints r)
               \<and> endpoint_covers rb e (to_ascii_lowercase host) (uint port) \<and> entry \<in> set (ep_allowed_ips e)))))"

lemma allowed_ips_listed:
  assumes "distinct (map fst (sp_network_policies p))"
    "entry \<in> set (query_allowed_ips (proxy_with_engine rb (loaded_data p) env) decision host port)"
  shows "\<exists>k r e. (k, r) \<in> set (sp_network_policies p) \<and> e \<in> set (np_endpoints r) \<and> endpoint_covers rb e host (uint port) \<and> entry \<in> set (ep_allowed_ips e)"
proof -
  note q = query_endpoint_loaded [OF assms(1), of rb decision host port]
  obtain e where e: "first_candidate rb p decision host port = Some e" "entry \<in> set (ep_allowed_ips e)"
    using assms(2) by (cases "first_candidate rb p decision host port")
      (auto simp: query_allowed_ips_def proxy_with_engine_def engine_allowed_ips_def q get_str_array_loaded split: if_splits)
  then show ?thesis using first_candidate_covers [OF e(1)] by blast
qed

lemma permitted_addr_opens:
  assumes "distinct (map fst (sp_network_policies p))"
    "permitted_addr (proxy_with_engine rb (loaded_data p) env) decision host port ip"
  shows "policy_opens rb p (px_net env) host port ip"
proof -
  let ?env = "proxy_with_engine rb (loaded_data p) env"
  have net: "px_net ?env = px_net env" by (simp add: proxy_with_engine_def)
  show ?thesis unfolding policy_opens_def
  proof (intro conjI impI)
    show "\<not> is_always_blocked_ip ip" using assms(2) by (simp add: permitted_addr_def)
    assume "is_internal_ip ip"
    then obtain entry n where n: "entry \<in> set (effective_allowed_ips ?env decision host (to_ascii_lowercase host) port)"
        "parse_allowed_ip (px_net env) entry = Some n" "ne_contains (px_net env) n ip"
      using assms(2) by (auto simp: permitted_addr_def list_ex_iff net split: option.splits)
    then have "entry \<in> set (implicit_allowed_ips_for_ip_host (px_net env) host)
        \<or> entry \<in> set (query_allowed_ips ?env decision (to_ascii_lowercase host) port)"
      by (auto simp: effective_allowed_ips_def Let_def net split: if_splits)
    then show "\<exists>entry n. parse_allowed_ip (px_net env) entry = Some n \<and> ne_contains (px_net env) n ip
       \<and> (entry \<in> set (implicit_allowed_ips_for_ip_host (px_net env) host)
          \<or> (\<exists>k r e. (k, r) \<in> set (sp_network_policies p) \<and> e \<in> set (np_endpoints r)
               \<and> endpoint_covers rb e (to_ascii_lowercase host) (uint port) \<and> entry \<in> set (ep_allowed_ips e)))"
      using n(2,3) allowed_ips_listed [OF assms(1)] by blast
  qed
qed



text \<open>A forwarded request that the policy permits.\<close>

definition permitted_info :: "rego_builtins \<Rightarrow> sandbox_policy \<Rightarrow> l7_eval_context \<Rightarrow> l7_request_info \<Rightarrow> bool" where
  "permitted_info rb p ctx info \<longleftrightarrow> request_permitted rb p (ctx_host ctx) (int (ctx_port ctx)) (ctx_binary_path ctx) (ctx_ancestors ctx)
     (ri_action info) (ri_target info) (ri_query_params info)"

definition permitted_unit :: "rego_builtins \<Rightarrow> sandbox_policy \<Rightarrow> l7_eval_context \<Rightarrow> rest_env \<Rightarrow> string \<Rightarrow> string \<Rightarrow> bool" where
  "permitted_unit rb p ctx env input u \<longleftrightarrow> (\<exists>req info rw body. sublist (l7_raw_header req) input \<and> parse_head (l7_raw_header req) = Inr req
     \<and> request_info env req = Inr info \<and> permitted_info rb p ctx info
     \<and> rewrite_http_header_block (re_b64 env) (l7_raw_header req) (re_resolver env) = Inr rw \<and> u = rr_rewritten rw @ body
     \<and> (case l7_body_length req of NoBody \<Rightarrow> body = [] | ContentLength n \<Rightarrow> length body \<le> n | Chunked \<Rightarrow> True))"

definition permitted_upgrade :: "rego_builtins \<Rightarrow> sandbox_policy \<Rightarrow> l7_eval_context \<Rightarrow> rest_env \<Rightarrow> string \<Rightarrow> bool" where
  "permitted_upgrade rb p ctx env input \<longleftrightarrow> (\<exists>req info. sublist (l7_raw_header req) input \<and> parse_head (l7_raw_header req) = Inr req
     \<and> request_info env req = Inr info \<and> permitted_info rb p ctx info \<and> client_requested_upgrade (utf8_lossy (l7_raw_header req)))"

lemma allows_loaded:
  assumes "allows (inspection_env config (tunnel_rego rb (loaded_data p)) b64 json ctx) req"
  shows "\<exists>info. request_info (inspection_env config (tunnel_rego rb (loaded_data p)) b64 json ctx) req = Inr info \<and> permitted_info rb p ctx info"
proof -
  let ?e = "inspection_env config (tunnel_rego rb (loaded_data p)) b64 json ctx"
  obtain info where i: "request_info ?e req = Inr info" "\<exists>x. evaluate_l7_request (tunnel_rego rb (loaded_data p)) ctx info = Inr (True, x)"
    using assms by (auto simp: allows_def inspection_env_def split: sum.splits)
  then show ?thesis by (auto simp: evaluate_loaded permitted_info_def split: if_splits)
qed



end
