(* ===== verification/Proposals.thy ===== *)
theory Proposals
  imports Draft_Undo Denials Opa_Proxy "HOL-Library.Product_Lexorder"
begin

text \<open>
  From denials to proposals (\<open>crates/openshell-sandbox/src/mechanistic_mapper.rs\<close>, and the flush in \<open>lib.rs\<close>): summaries
  are grouped by host, port and binary, and each group becomes one draft chunk. Name resolution, the text of an
  address, the alphabetic characters beyond ASCII and the iteration order of the two hash maps are parameters. A
  32-bit float below one is a multiple of \<open>2\<^sup>-\<^sup>2\<^sup>7\<close>, rounded as the hardware does.
\<close>

section \<open>Summaries\<close>

record denial_summary =
  ds_host :: string
  ds_port :: u32
  ds_binary :: string
  ds_ancestors :: "string list"
  ds_deny_reason :: string
  ds_first_seen_ms :: int
  ds_last_seen_ms :: int
  ds_count :: u32
  ds_total_count :: u32
  ds_sample_cmdlines :: "string list"
  ds_denial_stage :: string
  ds_l7_request_samples :: "l7_sample list"
  ds_l7_inspection_active :: bool

text \<open>The message of a flushed summary; its constant fields are left out.\<close>

definition denial_summary_of :: "aggregated_denial \<Rightarrow> denial_summary" where
  "denial_summary_of s = \<lparr>ds_host = ad_host s, ds_port = of_nat (ad_port s), ds_binary = ad_binary s, ds_ancestors = ad_ancestors s,
     ds_deny_reason = ad_deny_reason s, ds_first_seen_ms = ad_first_seen_ms s, ds_last_seen_ms = ad_last_seen_ms s,
     ds_count = ad_count s, ds_total_count = ad_count s, ds_sample_cmdlines = ad_sample_cmdlines s,
     ds_denial_stage = ad_denial_stage s, ds_l7_request_samples = ad_l7_samples s, ds_l7_inspection_active = False\<rparr>"

type_synonym group_key = "string \<times> u32 \<times> string"
type_synonym sample_counts = "((string \<times> string) \<times> u32) list"

record mapper_env =
  mp_lookup_host :: "string \<Rightarrow> (string, ip_addr list) result"
  mp_show_ip :: "ip_addr \<Rightarrow> string"
  mp_alphanumeric :: "string \<Rightarrow> bool"
  mp_groups :: "(group_key \<times> denial_summary list) list \<Rightarrow> (group_key \<times> denial_summary list) list"
  mp_samples :: "sample_counts \<Rightarrow> sample_counts"

section \<open>Names, confidence and notes\<close>

definition WELL_KNOWN_PORTS :: "(u16 \<times> string) list" where
  "WELL_KNOWN_PORTS = [(80, ''HTTP''), (443, ''HTTPS''), (8080, ''HTTP-alt''), (8443, ''HTTPS-alt''), (5432, ''PostgreSQL''),
     (3306, ''MySQL''), (6379, ''Redis''), (27017, ''MongoDB''), (9200, ''Elasticsearch''), (9092, ''Kafka''), (2181, ''ZooKeeper''),
     (11211, ''Memcached''), (5672, ''RabbitMQ''), (6443, ''Kubernetes API''), (53, ''DNS''), (587, ''SMTP''), (993, ''IMAP''), (995, ''POP3'')]"

definition is_alphanumeric :: "(string \<Rightarrow> bool) \<Rightarrow> string \<Rightarrow> bool" where
  "is_alphanumeric beyond c \<longleftrightarrow> (case c of [b] \<Rightarrow> is_ascii_alphanumeric b | _ \<Rightarrow> beyond c)"

definition generate_rule_name :: "(string \<Rightarrow> bool) \<Rightarrow> string \<Rightarrow> u32 \<Rightarrow> string" where
  "generate_rule_name beyond host port = (let sanitized = concat (filter (\<lambda>c. is_alphanumeric beyond c \<or> c = ''_'')
       (utf8_chars (map (\<lambda>c. if c = CHR ''.'' \<or> c = CHR ''-'' then CHR ''_'' else c) host)))
     in ''allow_'' @ sanitized @ ''_'' @ show_nat (unat port))"

text \<open>Rounding to 24 significant bits, ties to even.\<close>

definition f32_round :: "nat \<Rightarrow> nat" where
  "f32_round n = (let u = (if n < 2 ^ 24 then 1 else if n < 2 ^ 25 then 2 else if n < 2 ^ 26 then 4 else 8); q = n div u; r = n mod u
     in if 2 * r < u \<or> 2 * r = u \<and> even q then q * u else (q + 1) * u)"

definition f32_units :: "nat \<Rightarrow> rat" where
  "f32_units n = of_nat n / 2 ^ 27"

text \<open>The literals 0.5, 0.2, 0.1, 0.15 and 0.95 as 32-bit floats, in units of \<open>2\<^sup>-\<^sup>2\<^sup>7\<close>.\<close>

definition f32_half :: nat where "f32_half = 67108864"
definition f32_02 :: nat where "f32_02 = 26843546"
definition f32_01 :: nat where "f32_01 = 13421773"
definition f32_015 :: nat where "f32_015 = 20132660"
definition f32_095 :: nat where "f32_095 = 127506840"

definition compute_confidence :: "u32 \<Rightarrow> u16 \<Rightarrow> bool \<Rightarrow> rat" where
  "compute_confidence total_count port is_ssrf = (let
       s1 = (if total_count \<ge> 10 then f32_round (f32_half + f32_02) else if total_count \<ge> 3 then f32_round (f32_half + f32_01) else f32_half);
       s2 = (if list_ex (\<lambda>(p, _). p = port) WELL_KNOWN_PORTS then f32_round (s1 + f32_015) else s1);
       s3 = (if is_ssrf then f32_round (s2 - f32_02) else s2)
     in f32_units (if s3 < f32_01 then f32_01 else if s3 > f32_095 then f32_095 else s3))"

definition mapper_security_notes :: "string \<Rightarrow> u16 \<Rightarrow> bool \<Rightarrow> string" where
  "mapper_security_notes host port is_ssrf = join '' ''
     ((if is_ssrf then [''This connection was blocked by SSRF protection. Allowing it bypasses internal-IP safety checks.''] else [])
      @ (if starts_with ''10.'' host \<or> starts_with ''172.'' host \<or> starts_with ''192.168.'' host \<or> host = ''localhost'' \<or> starts_with ''127.'' host
         then [''Destination '' @ quoted host @ '' appears to be an internal/private address.''] else [])
      @ (if port > 49152 then [''Port '' @ show_nat (unat port) @ '' is in the ephemeral range '' @ Draft_Policy.em_dash
           @ '' this may be a temporary service.''] else [])
      @ (if port \<in> set [5432, 3306, 6379, 27017, 9200, 11211, 5672]
         then [''Port '' @ show_nat (unat port) @ '' is a well-known database/service port. Consider restricting with L7 rules or read-only access.''] else []))"

section \<open>Request rules\<close>

definition looks_like_id :: "string \<Rightarrow> bool" where
  "looks_like_id segment = (if segment = [] then False
     else if list_all is_ascii_digit segment \<and> length segment \<ge> 2 then True
     else let hex_only = filter is_ascii_hexdigit segment in
       if length hex_only \<ge> 24 \<and> CHR ''-'' \<in> set segment then True
       else length hex_only \<ge> 16 \<and> length segment = length hex_only)"

definition generalise_path :: "string \<Rightarrow> string" where
  "generalise_path raw = (let path = hd (split_char (CHR ''?'') raw); segments = split_char (CHR ''/'') path in
     if length segments \<le> 1 then path
     else if looks_like_id (last segments) then join ''/'' (butlast segments) @ ''/*''
     else path)"

definition build_l7_rules :: "sample_counts \<Rightarrow> l7_rule list" where
  "build_l7_rules samples = map (\<lambda>(m, p). \<lparr>lr_allow = Some \<lparr>al_method = m, al_path = p, al_command = [], al_query = []\<rparr>\<rparr>)
     (sort (firsts (map (\<lambda>((m, p), _). (m, generalise_path p)) samples)))"

definition short_binary_name :: "string \<Rightarrow> string" where
  "short_binary_name path = last (split_char (CHR ''/'') path)"

section \<open>Addresses\<close>

definition mapper_is_internal_ip :: "ip_addr \<Rightarrow> bool" where
  "mapper_is_internal_ip ip = (case ip of
     V4 v4 \<Rightarrow> v4_is_loopback v4 \<or> v4_is_private v4 \<or> v4_is_link_local v4
   | V6 v6 \<Rightarrow>
       if v6_is_loopback v6 then True
       else if segment0 v6 AND 0xffc0 = 0xfe80 then True
       else if segment0 v6 AND 0xfe00 = 0xfc00 then True
       else (case to_ipv4_mapped v6 of
          Some v4 \<Rightarrow> v4_is_loopback v4 \<or> v4_is_private v4 \<or> v4_is_link_local v4
        | None \<Rightarrow> False))"

definition resolve_allowed_ips_if_private :: "mapper_env \<Rightarrow> string \<Rightarrow> u32 \<Rightarrow> string list" where
  "resolve_allowed_ips_if_private env host port = (case mp_lookup_host env (host @ '':'' @ show_nat (unat port)) of
     Inl _ \<Rightarrow> []
   | Inr addrs \<Rightarrow> if addrs = [] then []
       else if \<not> list_ex mapper_is_internal_ip addrs then []
       else remdups_adj (sort (map (mp_show_ip env) addrs)))"

section \<open>Proposals\<close>

definition summary_key :: "denial_summary \<Rightarrow> group_key" where
  "summary_key s = (ds_host s, ds_port s, ds_binary s)"

definition group_denials :: "denial_summary list \<Rightarrow> (group_key \<times> denial_summary list) list" where
  "group_denials summaries = foldl (\<lambda>groups s. al_insert (summary_key s)
     ((case map_of groups (summary_key s) of None \<Rightarrow> [] | Some ds \<Rightarrow> ds) @ [s]) groups) [] summaries"

definition sample_counts :: "denial_summary list \<Rightarrow> sample_counts" where
  "sample_counts denials = foldl (\<lambda>m s. al_insert (ls_method s, ls_path s)
     ((case map_of m (ls_method s, ls_path s) of None \<Rightarrow> 0 | Some n \<Rightarrow> n) + ls_count s) m) []
     (concat (map ds_l7_request_samples denials))"

definition network_endpoint_default :: network_endpoint where
  "network_endpoint_default = \<lparr>ep_host = [], ep_port = 0, ep_protocol = [], ep_tls = [], ep_enforcement = [], ep_access = [],
     ep_rules = [], ep_allowed_ips = [], ep_ports = []\<rparr>"

definition proposed_endpoint :: "string \<Rightarrow> u32 \<Rightarrow> bool \<Rightarrow> l7_rule list \<Rightarrow> string list \<Rightarrow> network_endpoint" where
  "proposed_endpoint host port has_l7 l7_rules allowed_ips =
     (if has_l7 \<and> l7_rules \<noteq> []
      then network_endpoint_default\<lparr>ep_host := host, ep_port := port, ep_ports := [port], ep_protocol := ''rest'',
        ep_enforcement := ''enforce'', ep_rules := l7_rules, ep_allowed_ips := allowed_ips\<rparr>
      else network_endpoint_default\<lparr>ep_host := host, ep_port := port, ep_ports := [port], ep_allowed_ips := allowed_ips\<rparr>)"

definition proposal_rationale :: "string \<Rightarrow> string \<Rightarrow> u32 \<Rightarrow> bool \<Rightarrow> sample_counts \<Rightarrow> string list \<Rightarrow> string" where
  "proposal_rationale binary host port has_l7 l7_methods allowed_ips = (let
       binary_list = (if binary = [] then ''unknown binary'' else short_binary_name binary);
       port_name = (case find (\<lambda>(p, _). p = ucast port) WELL_KNOWN_PORTS of None \<Rightarrow> [] | Some (_, name) \<Rightarrow> '' ('' @ name @ '')'');
       private_ip_note = (if allowed_ips \<noteq> [] then '' Host resolves to private IP ('' @ join '', '' allowed_ips
         @ ''); allowed_ips included for SSRF override.'' else []);
       target = ''Allow '' @ binary_list @ '' to connect to '' @ host @ '':'' @ show_nat (unat port) @ port_name
     in if has_l7 \<and> l7_methods \<noteq> [] then target @ '' with L7 inspection. Allowed paths: ''
          @ join '', '' (map (\<lambda>((m, p), _). m @ '' '' @ p) l7_methods) @ ''.'' @ private_ip_note
        else target @ ''.'' @ private_ip_note)"

definition proposal_of :: "mapper_env \<Rightarrow> group_key \<times> denial_summary list \<Rightarrow> policy_chunk" where
  "proposal_of env = (\<lambda>((host, port, binary), denials). let
       rule_name = generate_rule_name (mp_alphanumeric env) host port;
       total_count = sum_list (map ds_count denials);
       first_seen_ms = foldl (\<lambda>t d. min t (ds_first_seen_ms d)) (2 ^ 63 - 1) denials;
       last_seen_ms = foldl (\<lambda>t d. max t (ds_last_seen_ms d)) 0 denials;
       is_ssrf = list_ex (\<lambda>d. ds_denial_stage d = ''ssrf'') denials;
       l7_methods = mp_samples env (sample_counts denials);
       has_l7 = list_ex (\<lambda>d. ds_l7_inspection_active d \<or> ds_l7_request_samples d \<noteq> []) denials;
       allowed_ips = resolve_allowed_ips_if_private env host port;
       endpoint = proposed_endpoint host port has_l7 (build_l7_rules l7_methods) allowed_ips;
       binaries = (if binary = [] then [] else [\<lparr>nb_path = binary, nb_harness = False\<rparr>])
     in \<lparr>pc_id = [], pc_status = ''pending'', pc_rule_name = rule_name,
         pc_proposed_rule = Some \<lparr>np_name = rule_name, np_endpoints = [endpoint], np_binaries = binaries\<rparr>,
         pc_rationale = proposal_rationale binary host port has_l7 l7_methods allowed_ips,
         pc_security_notes = mapper_security_notes host (ucast port) is_ssrf,
         pc_confidence = compute_confidence total_count (ucast port) is_ssrf, pc_denial_summary_ids = [], pc_created_at_ms = 0,
         pc_decided_at_ms = 0, pc_stage = (case denials of [] \<Rightarrow> ''connect'' | d # _ \<Rightarrow> ds_denial_stage d),
         pc_supersedes_chunk_id = [], pc_hit_count = sint total_count, pc_first_seen_ms = first_seen_ms,
         pc_last_seen_ms = last_seen_ms, pc_binary = binary\<rparr>)"

definition generate_proposals :: "mapper_env \<Rightarrow> denial_summary list \<Rightarrow> policy_chunk list" where
  "generate_proposals env summaries =
     sort_key (\<lambda>c. - pc_confidence c) (map (proposal_of env) (mp_groups env (group_denials summaries)))"

text \<open>What a flush of the aggregator submits.\<close>

definition flush_proposals :: "mapper_env \<Rightarrow> aggregated_denial list \<Rightarrow> policy_chunk list" where
  "flush_proposals env summaries = generate_proposals env (map denial_summary_of summaries)"

end
