(* ===== verification/Proposal_Props.thy ===== *)
theory Proposal_Props
  imports Proposals
begin

text \<open>
  What the proposals are: one per denied connection, independent of hash map order up to ties and texts; approving one
  admits the connection it was made for. And where approval does more, or less, than that.
\<close>

section \<open>Groups\<close>

lemma group_denials_snoc: "group_denials (ss @ [s]) = al_insert (summary_key s)
    ((case map_of (group_denials ss) (summary_key s) of None \<Rightarrow> [] | Some ds \<Rightarrow> ds) @ [s]) (group_denials ss)"
  by (simp add: group_denials_def)

lemma group_denials_Nil [simp]: "group_denials [] = []"
  by (simp add: group_denials_def)

lemma map_of_groups:
  "map_of (group_denials ss) k = (if k \<in> summary_key ` set ss then Some (filter (\<lambda>s. summary_key s = k) ss) else None)"
proof (induction ss rule: rev_induct)
  case (snoc s ss)
  have "filter (\<lambda>x. summary_key x = summary_key s) ss = []" if "summary_key s \<notin> summary_key ` set ss"
    using that by (metis (mono_tags, lifting) filter_False image_eqI)
  with snoc show ?case by (auto simp: group_denials_snoc)
qed simp

lemma distinct_groups: "distinct (map fst (group_denials ss))"
  by (induction ss rule: rev_induct) (simp_all add: group_denials_snoc distinct_al_insert)

lemma keys_groups: "fst ` set (group_denials ss) = summary_key ` set ss"
proof -
  have "fst ` set (group_denials ss) = dom (map_of (group_denials ss))" by (rule dom_map_of_conv_image_fst [symmetric])
  then show ?thesis by (auto simp: dom_def map_of_groups)
qed

lemma groups_iff: "(k, ds) \<in> set (group_denials ss) \<longleftrightarrow> k \<in> summary_key ` set ss \<and> ds = filter (\<lambda>s. summary_key s = k) ss"
  using map_of_eq_Some_iff [OF distinct_groups, of ss k ds] by (auto simp: map_of_groups split: if_splits)

section \<open>One proposal per connection\<close>

text \<open>The connection a chunk is for.\<close>

definition connection_of :: "policy_chunk \<Rightarrow> group_key option" where
  "connection_of c = (case pc_proposed_rule c of None \<Rightarrow> None | Some r \<Rightarrow> (case np_endpoints r of [] \<Rightarrow> None
     | e # _ \<Rightarrow> Some (ep_host e, ep_port e, pc_binary c)))"

lemma proposal_connection [simp]: "connection_of (proposal_of env (k, ds)) = Some k"
  by (cases k) (simp add: connection_of_def proposal_of_def Let_def proposed_endpoint_def)

definition order_ok :: "mapper_env \<Rightarrow> bool" where
  "order_ok env \<longleftrightarrow> (\<forall>gs. mset (mp_groups env gs) = mset gs) \<and> (\<forall>ss. mset (mp_samples env ss) = mset ss)"

lemma order_okD: "order_ok env \<Longrightarrow> mset (mp_groups env gs) = mset gs" "order_ok env \<Longrightarrow> mset (mp_samples env ss) = mset ss"
  by (simp_all add: order_ok_def)

lemma order_ok_set: "order_ok env \<Longrightarrow> set (mp_groups env gs) = set gs" "order_ok env \<Longrightarrow> set (mp_samples env ss) = set ss"
  by (metis order_okD(1) set_mset_mset) (metis order_okD(2) set_mset_mset)

lemma mset_proposals:
  assumes "order_ok env"
  shows "mset (generate_proposals env ss) = image_mset (proposal_of env) (mset (group_denials ss))"
  using order_okD(1) [OF assms] by (simp add: generate_proposals_def)

lemma set_proposals:
  assumes "order_ok env"
  shows "set (generate_proposals env ss) = (\<lambda>k. proposal_of env (k, filter (\<lambda>s. summary_key s = k) ss)) ` summary_key ` set ss"
proof -
  have "set (generate_proposals env ss) = proposal_of env ` set (group_denials ss)"
    using mset_proposals [OF assms, of ss] by (metis set_mset_mset set_image_mset)
  also have "set (group_denials ss) = (\<lambda>k. (k, filter (\<lambda>s. summary_key s = k) ss)) ` summary_key ` set ss"
    by (auto simp: groups_iff)
  finally show ?thesis by (simp add: image_image)
qed

lemma distinct_connections:
  assumes "order_ok env"
  shows "distinct (map connection_of (generate_proposals env ss))"
proof -
  have "image_mset (\<lambda>x. connection_of (proposal_of env x)) M = image_mset Some (image_mset fst M)" for M
    by (induction M) (auto simp: proposal_connection)
  then have "mset (map connection_of (generate_proposals env ss)) = mset (map Some (map fst (group_denials ss)))"
    by (simp add: mset_proposals [OF assms] image_mset.compositionality comp_def)
  moreover have "distinct (map Some (map fst (group_denials ss)))"
    unfolding distinct_map [of Some "map fst (group_denials ss)"] using distinct_groups [of ss] by simp
  ultimately show ?thesis using mset_eq_imp_distinct_iff by blast
qed

text \<open>The proposals of a flush are one per denied connection (host, port and binary), for whatever order the hash maps are
  visited in: no denied connection is left out, none is proposed twice, the most confident come first, and each carries the
  total of its denials and a warning whenever one of them was an SSRF denial.\<close>

theorem one_proposal_per_connection:
  assumes "order_ok env"
  shows "distinct (map connection_of (generate_proposals env ss))
    \<and> connection_of ` set (generate_proposals env ss) = Some ` summary_key ` set ss
    \<and> sorted_wrt (\<lambda>a b. pc_confidence a \<ge> pc_confidence b) (generate_proposals env ss)
    \<and> (\<forall>c \<in> set (generate_proposals env ss). \<exists>k ds. connection_of c = Some k \<and> ds = filter (\<lambda>s. summary_key s = k) ss \<and> ds \<noteq> []
        \<and> pc_hit_count c = sint (sum_list (map ds_count ds)) \<and> ((\<exists>d \<in> set ds. ds_denial_stage d = ''ssrf'') \<longrightarrow> pc_security_notes c \<noteq> []))"
proof (intro conjI)
  show "distinct (map connection_of (generate_proposals env ss))" by (rule distinct_connections [OF assms])
  show "connection_of ` set (generate_proposals env ss) = Some ` summary_key ` set ss"
    by (simp add: set_proposals [OF assms] image_image)
  show "sorted_wrt (\<lambda>a b. pc_confidence a \<ge> pc_confidence b) (generate_proposals env ss)"
    using sorted_sort_key [of "\<lambda>c. - pc_confidence c" "map (proposal_of env) (mp_groups env (group_denials ss))"]
    unfolding generate_proposals_def sorted_map by (simp add: sorted_wrt_map)
  show "\<forall>c \<in> set (generate_proposals env ss). \<exists>k ds. connection_of c = Some k \<and> ds = filter (\<lambda>s. summary_key s = k) ss \<and> ds \<noteq> []
      \<and> pc_hit_count c = sint (sum_list (map ds_count ds)) \<and> ((\<exists>d \<in> set ds. ds_denial_stage d = ''ssrf'') \<longrightarrow> pc_security_notes c \<noteq> [])"
  proof
    fix c assume "c \<in> set (generate_proposals env ss)"
    then obtain k where k: "k \<in> summary_key ` set ss" "c = proposal_of env (k, filter (\<lambda>s. summary_key s = k) ss)"
      by (auto simp: set_proposals [OF assms])
    let ?ds = "filter (\<lambda>s. summary_key s = k) ss"
    have "?ds \<noteq> []" using k(1) by (auto simp: filter_empty_conv)
    moreover have "pc_hit_count c = sint (sum_list (map ds_count ?ds))" using k(2) by (cases k) (simp add: proposal_of_def Let_def)
    moreover have "pc_security_notes c \<noteq> []" if "\<exists>d \<in> set ?ds. ds_denial_stage d = ''ssrf''"
      using that k(2) by (cases k) (auto simp: proposal_of_def Let_def mapper_security_notes_def list_ex_iff join_nonempty)
    ultimately show "\<exists>k ds. connection_of c = Some k \<and> ds = filter (\<lambda>s. summary_key s = k) ss \<and> ds \<noteq> []
        \<and> pc_hit_count c = sint (sum_list (map ds_count ds)) \<and> ((\<exists>d \<in> set ds. ds_denial_stage d = ''ssrf'') \<longrightarrow> pc_security_notes c \<noteq> [])"
      using k(2) by auto
  qed
qed


definition example_mapper :: mapper_env where
  "example_mapper = \<lparr>mp_lookup_host = (\<lambda>_. Inl ''no such host''), mp_show_ip = (\<lambda>_. []), mp_alphanumeric = (\<lambda>_. False),
     mp_groups = (\<lambda>gs. gs), mp_samples = (\<lambda>ss. ss)\<rparr>"

definition example_summary :: "string \<Rightarrow> string \<Rightarrow> denial_summary" where
  "example_summary host binary = \<lparr>ds_host = host, ds_port = 443, ds_binary = binary, ds_ancestors = [], ds_deny_reason = ''denied'',
     ds_first_seen_ms = 1, ds_last_seen_ms = 2, ds_count = 3, ds_total_count = 3, ds_sample_cmdlines = [], ds_denial_stage = ''ssrf'',
     ds_l7_request_samples = [], ds_l7_inspection_active = False\<rparr>"

lemma example_order: "order_ok example_mapper"
  by (simp add: order_ok_def example_mapper_def)

lemma distinct_singleton_set: "set xs = {x} \<Longrightarrow> distinct xs \<Longrightarrow> xs = [x]"
  by (cases xs; cases "tl xs") auto

theorem one_proposal_per_connection_witness:
  "map connection_of (generate_proposals example_mapper [example_summary ''a.io'' ''/c'', example_summary ''a.io'' ''/c'']) = [Some (''a.io'', 443, ''/c'')]"
proof -
  let ?ss = "[example_summary ''a.io'' ''/c'', example_summary ''a.io'' ''/c'']"
  have "set (map connection_of (generate_proposals example_mapper ?ss)) = {Some (''a.io'', 443, ''/c'')}"
    "distinct (map connection_of (generate_proposals example_mapper ?ss))"
    using one_proposal_per_connection [OF example_order, of ?ss] by (simp_all add: summary_key_def example_summary_def)
  then show ?thesis by (rule distinct_singleton_set)
qed

section \<open>Request rules\<close>

lemma sort_firsts: "sort (firsts xs) = sorted_list_of_set (set xs)"
  by (rule sorted_distinct_set_unique) auto

lemma build_l7_rules_order: "mset samples = mset samples' \<Longrightarrow> build_l7_rules samples = build_l7_rules samples'"
  by (drule mset_eq_setD) (simp add: build_l7_rules_def sort_firsts)

section \<open>Confidence and addresses\<close>

lemma confidence_bounds: "3 / 10 \<le> compute_confidence n port ssrf \<and> compute_confidence n port ssrf \<le> 43 / 50"
  unfolding compute_confidence_def Let_def
  by (cases "10 \<le> n"; cases "3 \<le> n"; cases "list_ex (\<lambda>(p, _). p = port) WELL_KNOWN_PORTS"; cases ssrf)
    (simp_all only: if_True if_False f32_half_def f32_02_def f32_01_def f32_015_def f32_095_def, simp_all add: f32_round_def f32_units_def)

text \<open>The internal addresses of the mapper are those of the proxy without the unspecified ones.\<close>

lemma mapper_internal_iff:
  "mapper_is_internal_ip ip \<Longrightarrow> is_internal_ip ip"
  "is_internal_ip ip \<Longrightarrow> mapper_is_internal_ip ip \<or> (case ip of V4 a \<Rightarrow> a = 0 | V6 a \<Rightarrow> a = 0 \<or> to_ipv4_mapped a = Some 0)"
  by (auto simp: mapper_is_internal_ip_def is_internal_ip_def v4_is_unspecified_def v6_is_unspecified_def split: ip_addr.splits option.splits if_splits)


section \<open>Approval\<close>

lemma merge_endpoint_all:
  assumes "\<And>e ips. P e \<Longrightarrow> P (e\<lparr>ep_allowed_ips := ips\<rparr>)" "P ep"
  shows "list_all P es \<Longrightarrow> list_all P (merge_endpoint lc es ep)"
  by (induction es) (auto simp: assms)

lemma merge_rule_all:
  assumes "\<And>e ips. P e \<Longrightarrow> P (e\<lparr>ep_allowed_ips := ips\<rparr>)" "list_all P (np_endpoints rule)" "list_all P (np_endpoints r)"
  shows "list_all P (np_endpoints (merge_rule lc rule r))"
proof -
  have "list_all P es \<Longrightarrow> list_all P eps \<Longrightarrow> list_all P (foldl (merge_endpoint lc) es eps)" for es eps
    by (induction eps arbitrary: es) (auto intro: merge_endpoint_all assms(1))
  then show ?thesis using assms(2,3) by (simp add: merge_rule_def)
qed

text \<open>The entries of a merged policy, the ones that are kept, and the one that grants.\<close>

lemma set_al_insert_new: "map_of m k = None \<Longrightarrow> set (al_insert k v m) = insert (k, v) (set m)"
  by (induction m) (auto split: if_splits)

lemma merged_entries:
  assumes "(k, r') \<in> set (sp_network_policies (merge_policy lc n h pt rule p))"
  shows "(k, r') \<in> set (sp_network_policies p) \<or> r' = rule \<or> (\<exists>r. (k, r) \<in> set (sp_network_policies p) \<and> r' = merge_rule lc rule r)"
  using assms find_merge_key_None [of lc "sp_network_policies p" n h pt]
  by (cases "find_merge_key lc (sp_network_policies p) n h pt")
    (auto simp: merge_policy_def al_modify_def set_al_insert_new split: if_splits)

lemma merged_keeps:
  assumes "(k, r) \<in> set (sp_network_policies p)"
  shows "\<exists>r'. (k, r') \<in> set (sp_network_policies (merge_policy lc n h pt rule p)) \<and> keeps_rule r r'"
proof (cases "find_merge_key lc (sp_network_policies p) n h pt")
  case None
  then show ?thesis using assms find_merge_key_None [OF None] by (auto simp: merge_policy_def set_al_insert_new keeps_rule_refl)
next
  case (Some key)
  have "(k, if k = key then merge_rule lc rule r else r) \<in> set (al_modify key (merge_rule lc rule) (sp_network_policies p))"
    using assms by (force simp: al_modify_def)
  then show ?thesis using Some merge_rule_keeps keeps_rule_refl by (force simp: merge_policy_def)
qed

lemma merged_grants: "\<exists>k r'. (k, r') \<in> set (sp_network_policies (merge_policy lc n h pt rule p)) \<and> grants_rule lc rule r'"
proof (cases "find_merge_key lc (sp_network_policies p) n h pt")
  case None
  then show ?thesis using find_merge_key_None [OF None] grants_self [of lc rule] by (auto simp: merge_policy_def set_al_insert_new)
next
  case (Some key)
  then obtain r where "(key, r) \<in> set (sp_network_policies p)" using find_merge_key_Some [OF Some] map_of_SomeD by fastforce
  then have "(key, merge_rule lc rule r) \<in> set (al_modify key (merge_rule lc rule) (sp_network_policies p))" by (force simp: al_modify_def)
  then show ?thesis using Some merge_rule_grants by (force simp: merge_policy_def)
qed

text \<open>The decision of a loaded engine, as covering on the message.\<close>

definition covered :: "rego_builtins \<Rightarrow> sandbox_policy \<Rightarrow> network_input \<Rightarrow> bool" where
  "covered rb p inp \<longleftrightarrow> (\<exists>(k, r) \<in> set (sp_network_policies p). rule_covers rb r (ni_host inp) (uint (ni_port inp))
     (utf8_lossy (ni_binary_path inp)) (map utf8_lossy (ni_ancestors inp)))"

lemma engine_allows_iff: "(\<exists>m. evaluate_network_action rb (loaded_data p) inp = Inr (Allow m)) \<longleftrightarrow> covered rb p inp"
proof -
  have "network_policy_for_request rb (loaded_data p) (network_input_json inp) \<longleftrightarrow> covered rb p inp"
    unfolding policy_for_request_loaded [OF network_input_docs] covered_def by (auto simp: covering_names_def filter_empty_conv)
  then show ?thesis by (auto simp: evaluate_network_action_def network_action_rule_def Let_def and_then_Inr split: if_splits)
qed

text \<open>The single port of an endpoint is among its ports, as in every policy read from a file.\<close>

definition ports_consistent :: "network_endpoint \<Rightarrow> bool" where
  "ports_consistent e \<longleftrightarrow> ep_ports e = [] \<or> ep_port e \<in> set (ep_ports e)"

definition policy_ports_consistent :: "sandbox_policy \<Rightarrow> bool" where
  "policy_ports_consistent p \<longleftrightarrow> list_all (\<lambda>(k, r). list_all ports_consistent (np_endpoints r)) (sp_network_policies p)"

lemma rule_covers_keeps:
  assumes "keeps_rule r r'" "rule_covers rb r host port path ancestors"
  shows "rule_covers rb r' host port path ancestors"
proof -
  obtain e b where e: "e \<in> set (np_endpoints r)" "endpoint_covers rb e host port" and b: "b \<in> set (np_binaries r)" "binary_covers rb b path ancestors"
    using assms(2) by (auto simp: rule_covers_def list_ex_iff)
  obtain e' where e': "e' \<in> set (np_endpoints r')" "widened e e'"
    using assms(1) e(1) by (metis in_set_takeD in_set_conv_nth keeps_endpoints_def keeps_rule_def list_all2_conv_all_nth)
  have "endpoint_covers rb e' host port"
    using e(2) e'(2) unfolding widened_def by (cases e; cases e') (auto simp: endpoint_covers_def endpoint_ports_def split: if_splits)
  moreover have "b \<in> set (np_binaries r')" using assms(1) b(1) by (auto simp: keeps_rule_def prefix_def)
  ultimately show ?thesis using e'(1) b(2) by (auto simp: rule_covers_def list_ex_iff)
qed

lemma covered_merge:
  assumes "covered rb p inp"
  shows "covered rb (merge_policy lc n h pt rule p) inp"
proof -
  obtain k r where r: "(k, r) \<in> set (sp_network_policies p)" "rule_covers rb r (ni_host inp) (uint (ni_port inp))
      (utf8_lossy (ni_binary_path inp)) (map utf8_lossy (ni_ancestors inp))"
    using assms by (auto simp: covered_def)
  obtain r' where "(k, r') \<in> set (sp_network_policies (merge_policy lc n h pt rule p))" "keeps_rule r r'"
    using merged_keeps [OF r(1)] by blast
  then show ?thesis unfolding covered_def using rule_covers_keeps [OF _ r(2)] by (intro bexI [of _ "(k, r')"]) simp_all
qed

lemma same_endpoint_covers:
  assumes "same_endpoint (rb_lower rb) e ep" "ports_consistent e" "ep_port ep \<noteq> 0" "\<not> contains ''*'' (ep_host ep)"
    "\<forall>s. contains ''*'' (rb_lower rb s) \<longleftrightarrow> contains ''*'' s"
  shows "endpoint_covers rb e (ep_host ep) (uint (ep_port ep))"
proof -
  have h: "rb_lower rb (ep_host e) = rb_lower rb (ep_host ep)" using assms(1) by (simp add: same_endpoint_def)
  then have "\<not> contains ''*'' (ep_host e)" using assms(4,5) by metis
  moreover have "ep_port ep \<in> set (endpoint_ports e)"
    using assms(1-3) by (auto simp: same_endpoint_def ports_consistent_def endpoint_ports_def word_neq_0_conv)
  ultimately show ?thesis using h by (auto simp: endpoint_covers_def list_ex_iff)
qed

lemma built_rules_plain: "r \<in> set (build_l7_rules samples) \<Longrightarrow> \<exists>m p. lr_allow r = Some \<lparr>al_method = m, al_path = p, al_command = [], al_query = []\<rparr>"
  by (auto simp: build_l7_rules_def)

lemma proposed_endpoint_loads:
  "\<not> contains ''*'' host \<Longrightarrow> endpoint_loads (proposed_endpoint host port l7 (build_l7_rules samples) ips)
     \<and> ports_consistent (proposed_endpoint host port l7 (build_l7_rules samples) ips)"
  by (auto simp: proposed_endpoint_def endpoint_loads_def ports_consistent_def network_endpoint_default_def host_pattern_ok_def
      list_all_iff dest: built_rules_plain)

lemma proposal_loads:
  assumes "pc_proposed_rule (proposal_of env ((host, port, binary), ds)) = Some rule" "\<not> contains ''*'' host"
  shows "list_all (\<lambda>e. endpoint_loads e \<and> ports_consistent e) (np_endpoints rule)"
  using assms by (auto simp: proposal_of_def Let_def proposed_endpoint_loads)

lemma merged_loads:
  assumes "is_ok (engine_from_proto p)" "policy_ports_consistent p" "list_all (\<lambda>e. endpoint_loads e \<and> ports_consistent e) (np_endpoints rule)"
  shows "engine_from_proto (merge_policy lc n h pt rule p) = Inr (loaded_data (merge_policy lc n h pt rule p))"
    "policy_ports_consistent (merge_policy lc n h pt rule p)"
proof -
  let ?P = "\<lambda>e. endpoint_loads e \<and> ports_consistent e" and ?p = "merge_policy lc n h pt rule p"
  have closed: "?P (e\<lparr>ep_allowed_ips := ips\<rparr>)" if "?P e" for e ips
    using that by (simp add: endpoint_loads_def ports_consistent_def)
  have old: "list_all ?P (np_endpoints r)" if "(k, r) \<in> set (sp_network_policies p)" for k r
    using assms(1,2) that unfolding loads_iff policy_ports_consistent_def by (force simp: list_all_iff)
  have new: "list_all ?P (np_endpoints r')" if "(k, r') \<in> set (sp_network_policies ?p)" for k r'
    using merged_entries [OF that] old assms(3) merge_rule_all [where P = ?P, OF closed assms(3)] by blast
  then have "is_ok (engine_from_proto ?p)" unfolding loads_iff by (auto simp: list_all_iff)
  then show "engine_from_proto ?p = Inr (loaded_data ?p)"
    using engine_from_proto_loaded [of ?p] by (cases "engine_from_proto ?p") (auto simp: is_ok_def)
  show "policy_ports_consistent ?p" using new by (auto simp: policy_ports_consistent_def list_all_iff)
qed

text \<open>C5: approving the proposal made for a denied connection admits it: the merged policy loads, its engine allows the connection of
  that binary to that host and port, and it still allows every connection that was allowed before. The engine and the gateway
  compare hosts by the same lower case, and host and binary are not patterns.\<close>

theorem approval_admits:
  assumes "order_ok env" "c \<in> set (generate_proposals env ss)" "connection_of c = Some (host, ucast port, binary)" "pc_proposed_rule c = Some rule"
    and "port \<noteq> (0 :: u16)" "\<not> contains ''*'' host" "\<not> contains ''*'' binary" "binary \<noteq> []"
    and "rb_lower rb = x_to_lowercase x" "\<forall>s. contains ''*'' (rb_lower rb s) \<longleftrightarrow> contains ''*'' s"
    and "engine_from_proto p = Inr engine" "policy_ports_consistent p"
    and "d = chunk_record_of x now_ms cid sandbox_id ver c rule"
    and "p' = merge_policy (x_to_lowercase x) (dc_rule_name d) (dc_host d) (dc_port d) rule p"
  shows "\<exists>engine'. engine_from_proto p' = Inr engine'
    \<and> (\<forall>inp. ni_host inp = host \<longrightarrow> ni_port inp = port \<longrightarrow> utf8_lossy (ni_binary_path inp) = binary \<longrightarrow>
        (\<exists>m. evaluate_network_action rb engine' inp = Inr (Allow m)))
    \<and> (\<forall>inp m. evaluate_network_action rb engine inp = Inr (Allow m) \<longrightarrow> (\<exists>m'. evaluate_network_action rb engine' inp = Inr (Allow m')))"
proof -
  obtain ds where c: "c = proposal_of env ((host, ucast port, binary), ds)"
    using assms(2,3) by (auto simp: set_proposals [OF assms(1)])
  have rule: "list_all (\<lambda>e. endpoint_loads e \<and> ports_consistent e) (np_endpoints rule)"
    using proposal_loads assms(4,6) unfolding c by blast
  have eng: "engine = loaded_data p" "is_ok (engine_from_proto p)" using engine_from_proto_loaded [OF assms(11)] assms(11) by (auto simp: is_ok_def)
  note loads = merged_loads [OF eng(2) assms(12) rule, of "x_to_lowercase x" "dc_rule_name d" "dc_host d" "dc_port d", folded assms(14)]
  obtain k r' where r': "(k, r') \<in> set (sp_network_policies p')" "grants_rule (rb_lower rb) rule r'"
    using merged_grants [of "x_to_lowercase x" "dc_rule_name d" "dc_host d" "dc_port d" rule p] unfolding assms(9,14) by blast
  obtain ep where ep: "np_endpoints rule = [ep]" "ep_host ep = host" "ep_port ep = ucast port" and bins: "np_binaries rule = [\<lparr>nb_path = binary, nb_harness = False\<rparr>]"
    using assms(4,8) unfolding c by (auto simp: proposal_of_def Let_def proposed_endpoint_def)
  have u: "uint (ucast port :: u32) = uint port" by (simp add: uint_up_ucast is_up_def target_size_def source_size_def)
  then have "(ucast port :: u32) \<noteq> 0" using assms(5) by (metis uint_0_iff)
  obtain e where e: "e \<in> set (np_endpoints r')" "same_endpoint (rb_lower rb) e ep" using r'(2) ep(1) by (auto simp: grants_rule_def granted_def)
  have "ports_consistent e" using loads(2) r'(1) e(1) by (force simp: policy_ports_consistent_def list_all_iff)
  then have "endpoint_covers rb e host (uint (ucast port :: u32))"
    using same_endpoint_covers [OF e(2), unfolded ep(2,3)] \<open>(ucast port :: u32) \<noteq> 0\<close> assms(6,10) by blast
  then have cov: "endpoint_covers rb e host (uint port)" by (simp add: u)
  have "rule_covers rb r' host (uint port) binary as" for as
    using e(1) cov r'(2) assms(7) unfolding rule_covers_def grants_rule_def bins by (force simp: list_ex_iff binary_covers_def)
  then have allow: "\<exists>m. evaluate_network_action rb (loaded_data p') inp = Inr (Allow m)"
    if "ni_host inp = host" "ni_port inp = port" "utf8_lossy (ni_binary_path inp) = binary" for inp
    unfolding engine_allows_iff covered_def using r'(1) that by auto
  have "covered rb p' inp" if "covered rb p inp" for inp
    using covered_merge [OF that] unfolding assms(14) .
  then have "\<exists>m'. evaluate_network_action rb (loaded_data p') inp = Inr (Allow m')" if "evaluate_network_action rb engine inp = Inr (Allow m)" for inp m
    using that engine_allows_iff [of rb p inp] engine_allows_iff [of rb p' inp] unfolding eng(1) by blast
  then show ?thesis using loads(1) allow by blast
qed


definition example_input :: "string \<Rightarrow> string \<Rightarrow> network_input" where
  "example_input host binary = \<lparr>ni_host = host, ni_port = 443, ni_binary_path = binary, ni_binary_sha256 = [], ni_ancestors = [], ni_cmdline_paths = []\<rparr>"

definition example_chunk :: "string \<Rightarrow> string \<Rightarrow> policy_chunk" where
  "example_chunk host binary = proposal_of example_mapper ((host, 443, binary), [example_summary host binary])"

definition approved :: "string \<Rightarrow> string \<Rightarrow> sandbox_policy \<Rightarrow> sandbox_policy" where
  "approved host binary p = (let c = example_chunk host binary; rule = the (pc_proposed_rule c); d = chunk_record_of example_x 1 ''c1'' ''sb1'' 1 c rule
     in merge_policy (x_to_lowercase example_x) (dc_rule_name d) (dc_host d) (dc_port d) rule p)"

lemma lower_star: "ascii_lower c = CHR ''*'' \<longleftrightarrow> c = CHR ''*''"
proof (cases "is_ascii_upper c")
  case True
  then have "(ord (ascii_lower c) :: nat) \<noteq> ord (CHR ''*'')" "c \<noteq> CHR ''*''" by (auto simp: ascii_lower_def is_ascii_upper_def)
  then show ?thesis by auto
qed (simp add: ascii_lower_def)

lemma star_lowercase: "contains ''*'' (to_ascii_lowercase s) \<longleftrightarrow> contains ''*'' s"
  unfolding contains_char to_ascii_lowercase_def set_map by (metis (no_types, lifting) image_iff lower_star)

lemma approved_simps:
  "binary \<noteq> [] \<Longrightarrow> approved host binary p = merge_policy to_ascii_lowercase (generate_rule_name (\<lambda>_. False) host 443) (to_ascii_lowercase host) 443
     \<lparr>np_name = generate_rule_name (\<lambda>_. False) host 443,
      np_endpoints = [network_endpoint_default\<lparr>ep_host := host, ep_port := 443, ep_ports := [443]\<rparr>],
      np_binaries = [\<lparr>nb_path = binary, nb_harness = False\<rparr>]\<rparr> p"
  by (simp add: approved_def example_chunk_def proposal_of_def Let_def proposed_endpoint_def resolve_allowed_ips_if_private_def example_mapper_def
      example_summary_def sample_counts_def chunk_record_of_def example_x_def network_endpoint_default_def)

theorem approval_admits_witness:
  "\<exists>m. evaluate_network_action example_builtins (loaded_data (approved ''b.io'' ''/w'' (example_rules [example_endpoint]))) (example_input ''b.io'' ''/w'') = Inr (Allow m)"
proof -
  let ?c = "example_chunk ''b.io'' ''/w''"
  let ?rule = "the (pc_proposed_rule ?c)"
  have key: "connection_of ?c = Some (''b.io'', ucast (443 :: u16), ''/w'')" by (simp add: example_chunk_def)
  have mem: "?c \<in> set (generate_proposals example_mapper [example_summary ''b.io'' ''/w''])"
    by (simp add: set_proposals [OF example_order] example_chunk_def summary_key_def example_summary_def)
  have rule: "pc_proposed_rule ?c = Some ?rule" by (simp add: example_chunk_def proposal_of_def Let_def)
  have star: "\<not> contains ''*'' ''b.io''" "\<not> contains ''*'' ''/w''" by code_simp+
  have low: "rb_lower example_builtins = x_to_lowercase example_x" by (simp add: example_builtins_def example_x_def)
  have cons: "policy_ports_consistent (example_rules [example_endpoint])" by code_simp
  have lossy: "utf8_lossy ''/w'' = ''/w''" by (intro utf8_lossy_valid ascii_is_utf8) code_simp
  show ?thesis
    using approval_admits [OF example_order mem key rule _ star _ low _ example_loads cons refl refl, of 1 "''c1''" "''sb1''" 1]
      engine_from_proto_loaded [of "approved ''b.io'' ''/w'' (example_rules [example_endpoint])"] star_lowercase lossy
    by (auto simp: approved_def Let_def example_input_def low [symmetric] example_builtins_def)
qed

section \<open>What approval also does, and does not do\<close>

text \<open>Two hosts that differ in dots and dashes share a rule name, so their approvals end up in one rule: the binary of each
  may then connect to the host of the other, which neither approval alone admits.\<close>

theorem approvals_of_similar_hosts_mix:
  "\<exists>m. evaluate_network_action example_builtins (loaded_data (approved ''a.b.io'' ''/w'' (approved ''a-b.io'' ''/c'' sandbox_policy_default)))
      (example_input ''a.b.io'' ''/c'') = Inr (Allow m)"
  "\<not> (\<exists>m. evaluate_network_action example_builtins (loaded_data (approved ''a.b.io'' ''/w'' sandbox_policy_default)) (example_input ''a.b.io'' ''/c'') = Inr (Allow m))"
  "\<not> (\<exists>m. evaluate_network_action example_builtins (loaded_data (approved ''a-b.io'' ''/c'' sandbox_policy_default)) (example_input ''a.b.io'' ''/c'') = Inr (Allow m))"
  unfolding engine_allows_iff approved_simps [of "''/c''", simplified] approved_simps [of "''/w''", simplified] by code_simp+

text \<open>A request denied by the rules of an inspected endpoint is proposed as the connection that is already allowed; approving
  that leaves the policy as it was.\<close>

theorem approval_of_denied_request_changes_nothing:
  "approved ''api.example.com'' ''/usr/bin/curl'' (example_rules [example_endpoint]) = example_rules [example_endpoint]"
  unfolding approved_simps [of "''/usr/bin/curl''", simplified] by code_simp

text \<open>The warning that a connection was blocked as SSRF is not stored: the gateway derives its notes from the host name alone, so
  approving all chunks without notes approves this one.\<close>

theorem ssrf_warning_not_stored:
  "pc_security_notes (example_chunk ''db.io'' ''/c'') \<noteq> []"
  "dc_security_notes (chunk_record_of example_x 1 ''c1'' ''sb1'' 1 (example_chunk ''db.io'' ''/c'') (the (pc_proposed_rule (example_chunk ''db.io'' ''/c'')))) = []"
proof -
  have "generate_security_notes (to_ascii_lowercase ''db.io'') 443 = []" by code_simp
  then show "dc_security_notes (chunk_record_of example_x 1 ''c1'' ''sb1'' 1 (example_chunk ''db.io'' ''/c'') (the (pc_proposed_rule (example_chunk ''db.io'' ''/c'')))) = []"
    by (simp add: chunk_record_of_def example_chunk_def proposal_of_def Let_def proposed_endpoint_def network_endpoint_default_def example_x_def)
qed (simp add: example_chunk_def proposal_of_def Let_def example_summary_def mapper_security_notes_def join_nonempty)

text \<open>The unspecified address is internal for the proxy but not for the mapper; loopback is proposed with an override that the proxy
  never honours.\<close>

theorem mapper_and_proxy_disagree:
  "is_internal_ip (V4 0)" "\<not> mapper_is_internal_ip (V4 0)" "mapper_is_internal_ip (V4 0x7F000001)" "is_always_blocked_ip (V4 0x7F000001)"
  by (simp_all add: is_internal_ip_def mapper_is_internal_ip_def is_always_blocked_ip_def v4_is_loopback_def v4_is_private_def v4_is_link_local_def
      v4_is_unspecified_def octet_def)

end
