(* ===== verification/Bypass_Monitor.thy ===== *)
theory Bypass_Monitor
  imports Procfs Denials
begin

text \<open>
  The bypass monitor of the sandbox (\<open>crates/openshell-sandbox/src/bypass_monitor.rs\<close>): kernel log lines of refused direct
  connections become denial events. Following the kernel log is I/O: the monitor is a function of the lines it reads, an
  error being a line that could not be read. Lower-casing beyond ASCII is a parameter.
\<close>

section \<open>Lines\<close>

record bypass_event =
  be_dst_addr :: string
  be_dst_port :: nat
  be_src_port :: nat
  be_proto :: string
  be_uid :: "nat option"

definition extract_field :: "string \<Rightarrow> string \<Rightarrow> string option" where
  "extract_field s key = (case find_sub key s of None \<Rightarrow> None
     | Some i \<Rightarrow> let rest = drop (i + length key) s;
           value = (case find_sub '' '' rest of None \<Rightarrow> rest | Some e \<Rightarrow> take e rest)
         in if value = [] then None else Some value)"

definition parse_kmsg_line :: "(string \<Rightarrow> string) \<Rightarrow> string \<Rightarrow> string \<Rightarrow> bypass_event option" where
  "parse_kmsg_line lc line namespace_prefix = (case find_sub namespace_prefix line of None \<Rightarrow> None
     | Some prefix_pos \<Rightarrow> let relevant = drop (prefix_pos + length namespace_prefix) line in
         (case extract_field relevant ''DST='' of None \<Rightarrow> None | Some dst_addr \<Rightarrow>
         (case Option.bind (extract_field relevant ''DPT='') (parse_uint 10 16) of None \<Rightarrow> None | Some dst_port \<Rightarrow>
         Some \<lparr>be_dst_addr = dst_addr, be_dst_port = dst_port,
           be_src_port = (case Option.bind (extract_field relevant ''SPT='') (parse_uint 10 16) of None \<Rightarrow> 0 | Some p \<Rightarrow> p),
           be_proto = lc (case extract_field relevant ''PROTO='' of None \<Rightarrow> ''unknown'' | Some p \<Rightarrow> p),
           be_uid = Option.bind (extract_field relevant ''UID='') (parse_uint 10 32)\<rparr>)))"

definition hint_for_event :: "bypass_event \<Rightarrow> string" where
  "hint_for_event e = (if be_proto e = ''udp'' \<and> be_dst_port e = 53
     then ''DNS queries should route through the sandbox proxy; check resolver configuration''
     else if be_proto e = ''udp'' then ''UDP traffic must route through the sandbox proxy''
     else ''ensure process honors HTTP_PROXY/HTTPS_PROXY; for Node.js set NODE_USE_ENV_PROXY=1'')"

section \<open>Attribution and events\<close>

text \<open>Not returning is the value \<open>None\<close>, as for the walk over the processes.\<close>

definition resolve_process_identity :: "proc_view \<Rightarrow> nat \<Rightarrow> nat \<Rightarrow> (string \<times> string \<times> string) option" where
  "resolve_process_identity pv entrypoint_pid src_port = map_option (\<lambda>r. case r of
       Inl _ \<Rightarrow> (''-'', ''-'', ''-'')
     | Inr (binary_path, pid) \<Rightarrow> let ancestors = collect_ancestor_binaries pv pid entrypoint_pid in
         (utf8_lossy binary_path, show_nat pid, if ancestors = [] then ''-'' else join '' -> '' (map utf8_lossy ancestors)))
     (resolve_tcp_peer_identity pv entrypoint_pid src_port)"

definition bypass_denial :: "(string \<Rightarrow> string) \<Rightarrow> proc_view \<Rightarrow> nat \<Rightarrow> string \<Rightarrow> string \<Rightarrow> denial_event list option" where
  "bypass_denial lc pv pid namespace_prefix line = (case parse_kmsg_line lc line namespace_prefix of None \<Rightarrow> Some []
     | Some event \<Rightarrow> map_option (\<lambda>(binary, binary_pid, ancestors).
           [\<lparr>de_host = be_dst_addr event, de_port = be_dst_port event, de_binary = binary,
             de_ancestors = (if ancestors = ''-'' then [] else split_str '' -> '' ancestors),
             de_deny_reason = ''direct connection bypassed HTTP CONNECT proxy'', de_denial_stage = ''bypass'',
             de_l7_method = None, de_l7_path = None\<rparr>])
         (if be_proto event = ''tcp'' \<and> be_src_port event > 0 \<and> pid > 0 then resolve_process_identity pv pid (be_src_port event)
          else Some (''-'', ''-'', ''-'')))"

text \<open>The loop over the log; each line comes with the processes and the entry point at that moment.\<close>

fun bypass_monitor :: "(string \<Rightarrow> string) \<Rightarrow> string \<Rightarrow> ((string, string) result \<times> proc_view \<times> nat) list \<Rightarrow> denial_event list option" where
  "bypass_monitor lc ns [] = Some []"
| "bypass_monitor lc ns ((Inl e, pv, pid) # ls) = bypass_monitor lc ns ls"
| "bypass_monitor lc ns ((Inr line, pv, pid) # ls) = (case bypass_denial lc pv pid (''openshell:bypass:'' @ ns @ '':'') line of
     None \<Rightarrow> None
   | Some es \<Rightarrow> map_option (\<lambda>rest. es @ rest) (bypass_monitor lc ns ls))"


section \<open>Reading back a log line\<close>

definition log_fields :: "(string \<times> string) list \<Rightarrow> string" where
  "log_fields fs = join '' '' (map (\<lambda>(k, v). k @ ''='' @ v) fs)"

definition plain :: "string \<Rightarrow> bool" where
  "plain s \<longleftrightarrow> CHR ''='' \<notin> set s \<and> CHR '' '' \<notin> set s"

lemma log_fields_Cons: "log_fields ((k, v) # fs) = k @ ''='' @ v @ (if fs = [] then [] else CHR '' '' # log_fields fs)"
  by (cases fs) (simp_all add: log_fields_def)

lemma find_sub_skip:
  assumes "\<And>i. i < length s \<Longrightarrow> \<not> starts_with p (drop i (s @ t))"
  shows "find_sub p (s @ t) = map_option ((+) (length s)) (find_sub p t)"
  using assms
proof (induction s)
  case (Cons c s)
  have "\<not> starts_with p (c # s @ t)" using Cons.prems [of 0] by simp
  moreover have "\<not> starts_with p (drop i (s @ t))" if "i < length s" for i using Cons.prems [of "Suc i"] that by simp
  ultimately show ?case using Cons.IH by (simp add: option.map_comp comp_def)
qed (cases "find_sub p t", simp_all)

lemma starts_with_key:
  assumes "starts_with (k @ ''='') s" "CHR ''='' \<notin> set k"
  shows "k = takeWhile (\<lambda>c. c \<noteq> CHR ''='') s"
proof -
  obtain t where "s = k @ ''='' @ t" using assms(1) by (auto simp: starts_with_prefix prefix_def)
  moreover have "\<And>c. c \<in> set k \<Longrightarrow> c \<noteq> CHR ''=''" using assms(2) by auto
  ultimately show ?thesis by (simp add: takeWhile_append2)
qed

lemma no_key_before:
  assumes "plain k" "plain k'" "plain v'" "\<not> suffix k k'" "i < length (k' @ ''='' @ v' @ '' '')"
  shows "\<not> starts_with (k @ ''='') (drop i ((k' @ ''='' @ v' @ '' '') @ t))"
proof
  assume sw: "starts_with (k @ ''='') (drop i ((k' @ ''='' @ v' @ '' '') @ t))"
  have k: "k = takeWhile (\<lambda>c. c \<noteq> CHR ''='') (drop i ((k' @ ''='' @ v' @ '' '') @ t))"
    using starts_with_key [OF sw] assms(1) by (simp add: plain_def)
  show False
  proof (cases "i \<le> length k'")
    case True
    have "c \<noteq> CHR ''=''" if "c \<in> set (drop i k')" for c using assms(2) that by (auto simp: plain_def dest: in_set_dropD)
    then have "takeWhile (\<lambda>c. c \<noteq> CHR ''='') (drop i k' @ CHR ''='' # v' @ CHR '' '' # t) = drop i k'" by (simp add: takeWhile_append2)
    then have "k = drop i k'" using k True by simp
    then show False using assms(4) suffix_drop by blast
  next
    case False
    define j where "j = i - length k' - 1"
    have "c \<noteq> CHR ''=''" if "c \<in> set (drop j v')" for c using assms(3) that by (auto simp: plain_def dest: in_set_dropD)
    moreover have "drop i ((k' @ ''='' @ v' @ '' '') @ t) = drop j v' @ '' '' @ t"
      using False assms(5) by (simp add: j_def not_le drop_Cons') 
    ultimately have "CHR '' '' \<in> set k" using k by (simp add: takeWhile_append2)
    then show False using assms(1) by (simp add: plain_def)
  qed
qed

lemma extract_first:
  assumes "plain v" "t = [] \<or> hd t = CHR '' ''"
  shows "extract_field ((k @ ''='') @ v @ t) (k @ ''='') = (if v = [] then None else Some v)"
proof -
  have "find_sub (k @ ''='') ((k @ ''='') @ v @ t) = Some 0"
    unfolding find_sub_Some_iff by (simp add: starts_with_prefix)
  moreover have "(case find_sub '' '' (v @ t) of None \<Rightarrow> v @ t | Some e \<Rightarrow> take e (v @ t)) = v"
  proof -
    have "find_sub '' '' (v @ t) = map_option ((+) (length v)) (find_sub '' '' t)"
    proof (rule find_sub_skip)
      fix i assume "i < length v"
      then have "v ! i \<noteq> CHR '' ''" using assms(1) by (metis nth_mem plain_def)
      then show "\<not> starts_with '' '' (drop i (v @ t))"
        using \<open>i < length v\<close> by (simp add: starts_with_def Cons_nth_drop_Suc [symmetric] nth_append)
    qed
    moreover have "find_sub '' '' t = (if t = [] then None else Some 0)" using assms(2) by (cases t) (auto simp: starts_with_def)
    ultimately show ?thesis by simp
  qed
  ultimately show ?thesis by (simp add: extract_field_def Let_def)
qed

lemma extract_skip: "find_sub key (s @ t) = map_option ((+) (length s)) (find_sub key t) \<Longrightarrow> extract_field (s @ t) key = extract_field t key"
  by (cases "find_sub key t") (simp_all add: extract_field_def)

text \<open>Fields whose names do not end in each other are read back.\<close>

lemma extract_fields:
  assumes "list_all (\<lambda>(k', v'). plain k' \<and> plain v' \<and> (k' = k \<or> \<not> suffix k k')) fs" "plain k"
  shows "extract_field (log_fields fs) (k @ ''='') = (case map_of fs k of None \<Rightarrow> None | Some v \<Rightarrow> if v = [] then None else Some v)"
  using assms(1)
proof (induction fs)
  case Nil
  then show ?case by (simp add: log_fields_def extract_field_def)
next
  case (Cons f fs)
  obtain k' v' where f: "f = (k', v')" by force
  show ?case
  proof (cases "k' = k")
    case True
    then show ?thesis using Cons.prems extract_first [of v' "if fs = [] then [] else CHR '' '' # log_fields fs" k]
      by (simp add: f log_fields_Cons)
  next
    case False
    let ?s = "k' @ ''='' @ v' @ '' ''"
    have none: "\<not> starts_with (k @ ''='') (drop i (?s @ t))" if "i < length ?s" for i t
      using no_key_before [OF assms(2) _ _ _ that] Cons.prems False by (simp add: f)
    show ?thesis
    proof (cases "fs = []")
      case True
      have "find_sub (k @ ''='') (?s @ []) = None" using find_sub_skip [of ?s "k @ ''=''" "[]", OF none] by simp
      then have "\<not> contains (k @ ''='') ((k' @ ''='' @ v') @ '' '')" by (simp add: contains_def)
      then have "\<not> contains (k @ ''='') (k' @ ''='' @ v')" using contains_append_left by blast
      then show ?thesis using True False by (simp add: f log_fields_Cons extract_field_def contains_def)
    next
      case nonempty: False
      have "log_fields (f # fs) = ?s @ log_fields fs" using nonempty by (simp add: f log_fields_Cons)
      then have "extract_field (log_fields (f # fs)) (k @ ''='') = extract_field (log_fields fs) (k @ ''='')"
        using extract_skip [OF find_sub_skip [OF none]] by simp
      then show ?thesis using Cons False by (simp add: f)
    qed
  qed
qed

text \<open>A log line of the namespace is read back: address, ports, protocol and user of the refused packet are those the kernel
  wrote, whatever other fields there are, as long as no other field name ends in one of theirs.\<close>

theorem kmsg_roundtrip:
  assumes "find_sub ns (before @ ns @ log_fields fs) = Some (length before)"
    and "\<forall>(k, v) \<in> set fs. plain k \<and> plain v \<and> (\<forall>name \<in> {''DST'', ''DPT'', ''SPT'', ''PROTO'', ''UID''}. k = name \<or> \<not> suffix name k)"
    and "map_of fs ''DST'' = Some dst" "dst \<noteq> []" "map_of fs ''DPT'' = Some (show_nat dpt)" "dpt < 2 ^ 16"
    and "map_of fs ''SPT'' = Some (show_nat spt)" "spt < 2 ^ 16" "map_of fs ''PROTO'' = Some proto" "proto \<noteq> []"
    and "map_of fs ''UID'' = Some (show_nat uid)" "uid < 2 ^ 32"
  shows "parse_kmsg_line lc (before @ ns @ log_fields fs) ns
    = Some \<lparr>be_dst_addr = dst, be_dst_port = dpt, be_src_port = spt, be_proto = lc proto, be_uid = Some uid\<rparr>"
proof -
  have x: "extract_field (log_fields fs) (name @ ''='') = (case map_of fs name of None \<Rightarrow> None | Some v \<Rightarrow> if v = [] then None else Some v)"
    if "name \<in> {''DST'', ''DPT'', ''SPT'', ''PROTO'', ''UID''}" for name
  proof (rule extract_fields)
    show "list_all (\<lambda>(k', v'). plain k' \<and> plain v' \<and> (k' = name \<or> \<not> suffix name k')) fs"
      using assms(2) that unfolding list_all_iff by blast
    show "plain name" using that by (auto simp: plain_def)
  qed
  note fields = x [of "''DST''"] x [of "''DPT''"] x [of "''SPT''"] x [of "''PROTO''"] x [of "''UID''"]
  have n: "show_nat m \<noteq> []" "m < 2 ^ b \<Longrightarrow> parse_uint 10 b (show_nat m) = Some m" for m b
    by (simp_all add: parse_uint_show_radix)
  have vals: "extract_field (log_fields fs) ''DST='' = Some dst" "extract_field (log_fields fs) ''DPT='' = Some (show_nat dpt)"
    "extract_field (log_fields fs) ''SPT='' = Some (show_nat spt)" "extract_field (log_fields fs) ''PROTO='' = Some proto"
    "extract_field (log_fields fs) ''UID='' = Some (show_nat uid)"
    using fields by (simp_all only: insert_iff simp_thms append.simps assms(3,4,5,7,9,10,11) option.case n(1) if_False if_True)
  show ?thesis
    unfolding parse_kmsg_line_def assms(1) Let_def option.case
    using vals n(2) [OF assms(6)] n(2) [OF assms(8)] n(2) [OF assms(12)] by simp
qed

definition example_fields :: "(string \<times> string) list" where
  "example_fields = [(''IN'', []), (''OUT'', ''veth''), (''DST'', ''10.0.0.9''), (''PROTO'', ''TCP''), (''SPT'', show_nat 7), (''DPT'', show_nat 8),
     (''UID'', show_nat 9)]"

lemma example_plain: "\<forall>(k, v) \<in> set example_fields. plain k \<and> plain v \<and> (\<forall>name \<in> {''DST'', ''DPT'', ''SPT'', ''PROTO'', ''UID''}. k = name \<or> \<not> suffix name k)"
proof -
  have "show_nat 7 = ''7''" "show_nat 8 = ''8''" "show_nat 9 = ''9''" by code_simp+
  then show ?thesis unfolding example_fields_def by (simp add: plain_def suffix_to_prefix)
qed

lemma example_prefix: "find_sub ''ns:'' ([] @ ''ns:'' @ log_fields example_fields) = Some (length ([] :: string))"
  unfolding find_sub_Some_iff by (simp add: starts_with_def)

theorem kmsg_roundtrip_witness:
  "parse_kmsg_line to_ascii_lowercase (''ns:'' @ log_fields example_fields) ''ns:''
    = Some \<lparr>be_dst_addr = ''10.0.0.9'', be_dst_port = 8, be_src_port = 7, be_proto = ''tcp'', be_uid = Some 9\<rparr>"
proof -
  have "to_ascii_lowercase ''TCP'' = ''tcp''" by code_simp
  moreover have "map_of example_fields ''DST'' = Some ''10.0.0.9''" "map_of example_fields ''DPT'' = Some (show_nat 8)"
    "map_of example_fields ''SPT'' = Some (show_nat 7)" "map_of example_fields ''PROTO'' = Some ''TCP''" "map_of example_fields ''UID'' = Some (show_nat 9)"
    by (simp_all add: example_fields_def)
  ultimately show ?thesis using kmsg_roundtrip [OF example_prefix example_plain, of "''10.0.0.9''" 8 7 "''TCP''" 9 to_ascii_lowercase] by simp
qed


text \<open>Each readable line of the namespace is reported once, in order, and nothing else is; a connection that cannot be attributed is
  reported as well.\<close>

lemma bypass_reports:
  "bypass_monitor lc ns ls = Some es \<Longrightarrow> map (\<lambda>e. (de_host e, de_port e, de_denial_stage e)) es
    = List.map_filter (\<lambda>(l, _, _). case l of Inl _ \<Rightarrow> None | Inr line \<Rightarrow> map_option (\<lambda>b. (be_dst_addr b, be_dst_port b, ''bypass''))
        (parse_kmsg_line lc line (''openshell:bypass:'' @ ns @ '':''))) ls"
proof (induction lc ns ls arbitrary: es rule: bypass_monitor.induct)
  case (3 lc ns line pv pid ls)
  then show ?case by (auto simp: bypass_denial_def List.map_filter_simps split: option.splits if_splits)
qed (simp_all add: List.map_filter_simps)

end
