(* ===== verification/Router.thy ===== *)
theory Router
  imports Inference_Proxy Policy_Model Rego_Policy
begin

text \<open>
  The inference router (\<open>crates/openshell-router\<close>) and the provider profiles it builds on
  (\<open>crates/openshell-core/src/inference.rs\<close>): routes from a configuration file, selection of a route, and the request
  that is sent to its backend. The HTTP client, the JSON library, environment variables and the text of a status are
  parameters; a call of the client is recorded as the request it gets.
\<close>

section \<open>Provider profiles\<close>

datatype auth_header = Bearer | Custom string

record inference_provider_profile =
  ip_provider_type :: string
  ip_default_base_url :: string
  ip_protocols :: "string list"
  ip_credential_key_names :: "string list"
  ip_base_url_config_keys :: "string list"
  ip_auth :: auth_header
  ip_default_headers :: "(string \<times> string) list"

definition OPENAI_PROTOCOLS :: "string list" where
  "OPENAI_PROTOCOLS = [''openai_chat_completions'', ''openai_completions'', ''openai_responses'', ''model_discovery'']"

definition ANTHROPIC_PROTOCOLS :: "string list" where
  "ANTHROPIC_PROTOCOLS = [''anthropic_messages'', ''model_discovery'']"

definition OPENAI_PROFILE :: inference_provider_profile where
  "OPENAI_PROFILE = \<lparr>ip_provider_type = ''openai'', ip_default_base_url = ''https://api.openai.com/v1'', ip_protocols = OPENAI_PROTOCOLS,
     ip_credential_key_names = [''OPENAI_API_KEY''], ip_base_url_config_keys = [''OPENAI_BASE_URL''], ip_auth = Bearer, ip_default_headers = []\<rparr>"

definition ANTHROPIC_PROFILE :: inference_provider_profile where
  "ANTHROPIC_PROFILE = \<lparr>ip_provider_type = ''anthropic'', ip_default_base_url = ''https://api.anthropic.com/v1'', ip_protocols = ANTHROPIC_PROTOCOLS,
     ip_credential_key_names = [''ANTHROPIC_API_KEY''], ip_base_url_config_keys = [''ANTHROPIC_BASE_URL''], ip_auth = Custom ''x-api-key'',
     ip_default_headers = [(''anthropic-version'', ''2023-06-01'')]\<rparr>"

definition NVIDIA_PROFILE :: inference_provider_profile where
  "NVIDIA_PROFILE = \<lparr>ip_provider_type = ''nvidia'', ip_default_base_url = ''https://integrate.api.nvidia.com/v1'', ip_protocols = OPENAI_PROTOCOLS,
     ip_credential_key_names = [''NVIDIA_API_KEY''], ip_base_url_config_keys = [''NVIDIA_BASE_URL''], ip_auth = Bearer, ip_default_headers = []\<rparr>"

definition profile_for :: "string \<Rightarrow> inference_provider_profile option" where
  "profile_for provider_type = (let t = to_ascii_lowercase (trim provider_type) in
     if t = ''openai'' then Some OPENAI_PROFILE
     else if t = ''anthropic'' then Some ANTHROPIC_PROFILE
     else if t = ''nvidia'' then Some NVIDIA_PROFILE else None)"

definition auth_for_provider_type :: "string \<Rightarrow> auth_header \<times> (string \<times> string) list" where
  "auth_for_provider_type provider_type = (case profile_for provider_type of
     Some profile \<Rightarrow> (ip_auth profile, ip_default_headers profile) | None \<Rightarrow> (Bearer, []))"

fun normalize_protocols_from :: "string list \<Rightarrow> string list \<Rightarrow> string list" where
  "normalize_protocols_from seen [] = []"
| "normalize_protocols_from seen (protocol # ps) = (let candidate = to_ascii_lowercase (trim protocol) in
     if candidate = [] then normalize_protocols_from seen ps
     else if candidate \<in> set seen then normalize_protocols_from seen ps
     else candidate # normalize_protocols_from (candidate # seen) ps)"

definition normalize_protocols :: "string list \<Rightarrow> string list" where
  "normalize_protocols protocols = normalize_protocols_from [] protocols"

section \<open>Routes\<close>

record resolved_route =
  rr_name :: string
  rr_endpoint :: string
  rr_model :: string
  rr_api_key :: string
  rr_protocols :: "string list"
  rr_auth :: auth_header
  rr_default_headers :: "(string \<times> string) list"
  rr_timeout :: nat

record route_config =
  rc_name :: string
  rc_endpoint :: string
  rc_model :: string
  rc_provider_type :: "string option"
  rc_protocols :: "string list"
  rc_api_key :: "string option"
  rc_api_key_env :: "string option"

definition DEFAULT_ROUTE_TIMEOUT :: nat where "DEFAULT_ROUTE_TIMEOUT = 60"

definition sq :: "string \<Rightarrow> string" where "sq s = [CHR 0x27] @ s @ [CHR 0x27]"

definition resolve_api_key :: "(string \<Rightarrow> string option) \<Rightarrow> route_config \<Rightarrow> (router_error, string) result" where
  "resolve_api_key env_var c = (case rc_api_key c of Some key \<Rightarrow> Inr key
   | None \<Rightarrow> (case rc_api_key_env c of
       Some v \<Rightarrow> (case env_var v of Some key \<Rightarrow> Inr key
         | None \<Rightarrow> Inl (RouterInternal (''environment variable '' @ v @ '' not set for route '' @ sq (rc_name c))))
     | None \<Rightarrow> Inl (RouterInternal (''route '' @ sq (rc_name c) @ '' has neither api_key nor api_key_env''))))"

definition resolve_route_config :: "(string \<Rightarrow> string option) \<Rightarrow> route_config \<Rightarrow> (router_error, resolved_route) result" where
  "resolve_route_config env_var c = (let protocols = normalize_protocols (rc_protocols c) in
     if protocols = [] then Inl (RouterInternal (''route '' @ sq (rc_name c) @ '' has no protocols''))
     else case auth_for_provider_type (case rc_provider_type c of None \<Rightarrow> [] | Some t \<Rightarrow> t) of (auth, default_headers) \<Rightarrow>
       and_then (resolve_api_key env_var c) (\<lambda>key.
         Inr \<lparr>rr_name = rc_name c, rr_endpoint = rc_endpoint c, rr_model = rc_model c, rr_api_key = key, rr_protocols = protocols,
           rr_auth = auth, rr_default_headers = default_headers, rr_timeout = DEFAULT_ROUTE_TIMEOUT\<rparr>))"

definition resolve_routes :: "(string \<Rightarrow> string option) \<Rightarrow> route_config list \<Rightarrow> (router_error, resolved_route list) result" where
  "resolve_routes env_var cs = map_result (resolve_route_config env_var) cs"

text \<open>Loading a file: reading and parsing it are given; every key must resolve.\<close>

definition load_from_file ::
  "(string \<Rightarrow> string option) \<Rightarrow> (string, route_config list) result \<Rightarrow> (router_error, route_config list) result" where
  "load_from_file env_var file = (case file of Inl e \<Rightarrow> Inl (RouterInternal e)
     | Inr cs \<Rightarrow> and_then (map_result (resolve_api_key env_var) cs) (\<lambda>_. Inr cs))"

section \<open>Requests to a backend\<close>

record backend_request =
  bq_method :: string
  bq_url :: string
  bq_headers :: "(string \<times> string) list"
  bq_body :: string
  bq_timeout :: nat

datatype client_error = ClientTimeout | ClientConnect string | ClientOther string

record backend_response =
  br_status :: nat
  br_headers :: "(string \<times> string) list"
  br_chunks :: "stream_item list"
  br_text :: "(string, string) result"

text \<open>The libraries: parsing of a method, parsing and printing of JSON, setting a field of a JSON object (other values are
  left alone), the HTTP client, and the text of a status.\<close>

record 'j backend_env =
  be_method_ok :: "string \<Rightarrow> bool"
  be_parse :: "string \<Rightarrow> 'j option"
  be_set_field :: "string \<Rightarrow> string \<Rightarrow> 'j \<Rightarrow> 'j"
  be_print :: "'j \<Rightarrow> string"
  be_client :: "backend_request \<Rightarrow> (client_error, backend_response) result"
  be_status_text :: "nat \<Rightarrow> string"
  be_mock_json :: "json \<Rightarrow> string"

definition build_backend_url :: "string \<Rightarrow> string \<Rightarrow> string" where
  "build_backend_url endpoint path = (let base = trim_end_slashes endpoint in
     if ends_with ''/v1'' base \<and> (path = ''/v1'' \<or> starts_with ''/v1/'' path) then base @ drop 3 path else base @ path)"

definition auth_entry :: "resolved_route \<Rightarrow> string \<times> string" where
  "auth_entry route = (case rr_auth route of Bearer \<Rightarrow> (''authorization'', ''Bearer '' @ rr_api_key route) | Custom h \<Rightarrow> (h, rr_api_key route))"

definition backend_headers :: "resolved_route \<Rightarrow> (string \<times> string) list \<Rightarrow> (string \<times> string) list" where
  "backend_headers route headers = [auth_entry route]
     @ filter (\<lambda>(name, _). to_ascii_lowercase name \<notin> set [''authorization'', ''x-api-key'', ''host'']) headers
     @ filter (\<lambda>(name, _). \<not> list_ex (\<lambda>(h, _). eq_ignore_ascii_case h name) headers) (rr_default_headers route)"

definition backend_body :: "'j backend_env \<Rightarrow> resolved_route \<Rightarrow> string \<Rightarrow> string" where
  "backend_body env route body = (case be_parse env body of
     Some j \<Rightarrow> be_print env (be_set_field env ''model'' (rr_model route) j) | None \<Rightarrow> body)"

definition backend_request_of ::
  "'j backend_env \<Rightarrow> resolved_route \<Rightarrow> string \<Rightarrow> string \<Rightarrow> (string \<times> string) list \<Rightarrow> string \<Rightarrow> (router_error, backend_request) result" where
  "backend_request_of env route method0 path headers body =
     (if \<not> be_method_ok env method0 then Inl (RouterInternal (''invalid HTTP method: '' @ method0))
      else Inr \<lparr>bq_method = method0, bq_url = build_backend_url (rr_endpoint route) path, bq_headers = backend_headers route headers,
        bq_body = backend_body env route body, bq_timeout = rr_timeout route\<rparr>)"

text \<open>The answer, and the requests given to the client.\<close>

definition send_backend_request ::
  "'j backend_env \<Rightarrow> resolved_route \<Rightarrow> string \<Rightarrow> string \<Rightarrow> (string \<times> string) list \<Rightarrow> string \<Rightarrow>
     (router_error, backend_response) result \<times> backend_request list" where
  "send_backend_request env route method0 path headers body = (case backend_request_of env route method0 path headers body of
     Inl e \<Rightarrow> (Inl e, [])
   | Inr req \<Rightarrow> ((case be_client env req of
         Inr resp \<Rightarrow> Inr resp
       | Inl ClientTimeout \<Rightarrow> Inl (UpstreamUnavailable (''request to '' @ bq_url req @ '' timed out''))
       | Inl (ClientConnect e) \<Rightarrow> Inl (UpstreamUnavailable (''failed to connect to '' @ bq_url req @ '': '' @ e))
       | Inl (ClientOther e) \<Rightarrow> Inl (RouterInternal (''HTTP request failed: '' @ e))), [req]))"


section \<open>Mock routes\<close>

definition is_mock_route :: "resolved_route \<Rightarrow> bool" where
  "is_mock_route route \<longleftrightarrow> starts_with ''mock://'' (rr_endpoint route)"

definition mock_usage :: json where
  "mock_usage = obj [(''prompt_tokens'', JNum 1), (''completion_tokens'', JNum 5), (''total_tokens'', JNum 6)]"

definition openai_chat_completion_body :: "string \<Rightarrow> json" where
  "openai_chat_completion_body model = obj [(''id'', JStr ''mock-chatcmpl-001''), (''object'', JStr ''chat.completion''), (''created'', JNum 1700000000),
     (''model'', JStr model), (''choices'', JArr [obj [(''index'', JNum 0),
        (''message'', obj [(''role'', JStr ''assistant''), (''content'', JStr ''Hello from openshell mock backend'')]), (''finish_reason'', JStr ''stop'')]]),
     (''usage'', mock_usage)]"

definition openai_completion_body :: "string \<Rightarrow> json" where
  "openai_completion_body model = obj [(''id'', JStr ''mock-cmpl-001''), (''object'', JStr ''text_completion''), (''created'', JNum 1700000000),
     (''model'', JStr model), (''choices'', JArr [obj [(''index'', JNum 0), (''text'', JStr ''Hello from openshell mock backend''),
        (''finish_reason'', JStr ''stop'')]]), (''usage'', mock_usage)]"

definition anthropic_messages_body :: "string \<Rightarrow> json" where
  "anthropic_messages_body model = obj [(''id'', JStr ''mock-msg-001''), (''type'', JStr ''message''), (''role'', JStr ''assistant''), (''model'', JStr model),
     (''content'', JArr [obj [(''type'', JStr ''text''), (''text'', JStr ''Hello from openshell mock backend'')]]), (''stop_reason'', JStr ''end_turn''),
     (''usage'', obj [(''input_tokens'', JNum 1), (''output_tokens'', JNum 5)])]"

definition generic_body :: "string \<Rightarrow> json" where
  "generic_body model = obj [(''mock'', JBool True), (''model'', JStr model), (''message'', JStr ''Hello from openshell mock backend'')]"

definition mock_response :: "'j backend_env \<Rightarrow> resolved_route \<Rightarrow> string \<Rightarrow> streaming_response" where
  "mock_response env route source_protocol = (let
       protocol = (if source_protocol \<in> set (rr_protocols route) then source_protocol
         else (case rr_protocols route of [] \<Rightarrow> [] | p # _ \<Rightarrow> p));
       body = (if protocol = ''openai_chat_completions'' then openai_chat_completion_body (rr_model route)
         else if protocol = ''openai_completions'' then openai_completion_body (rr_model route)
         else if protocol = ''anthropic_messages'' then anthropic_messages_body (rr_model route)
         else generic_body (rr_model route))
     in \<lparr>sr_status = 200, sr_headers = [(''content-type'', ''application/json''), (''x-openshell-mock'', ''true'')],
         sr_stream = [StreamChunk (be_mock_json env body)]\<rparr>)"

section \<open>Routing\<close>

definition select_route :: "string \<Rightarrow> resolved_route list \<Rightarrow> resolved_route option" where
  "select_route normalized_source candidates = find (\<lambda>r. list_ex (\<lambda>p. p = normalized_source) (rr_protocols r)) candidates"

definition proxy_with_candidates_streaming ::
  "'j backend_env \<Rightarrow> router_call \<Rightarrow> resolved_route list \<Rightarrow> (router_error, streaming_response) result \<times> backend_request list" where
  "proxy_with_candidates_streaming env call candidates = (let normalized_source = to_ascii_lowercase (trim (rc_protocol call)) in
     case select_route normalized_source candidates of
       None \<Rightarrow> (Inl (NoCompatibleRoute (rc_protocol call)), [])
     | Some route \<Rightarrow> if is_mock_route route then (Inr (mock_response env route normalized_source), [])
         else (case send_backend_request env route (rc_method call) (rc_path call) (rc_headers call) (rc_body call) of
             (Inl e, reqs) \<Rightarrow> (Inl e, reqs)
           | (Inr resp, reqs) \<Rightarrow> (Inr \<lparr>sr_status = br_status resp, sr_headers = br_headers resp, sr_stream = br_chunks resp\<rparr>, reqs)))"

text \<open>The router as the interception calls it.\<close>

definition router_of :: "'j backend_env \<Rightarrow> router_call \<Rightarrow> resolved_route list \<Rightarrow> (router_error, streaming_response) result" where
  "router_of env call routes = fst (proxy_with_candidates_streaming env call routes)"

section \<open>Verification of a backend\<close>

datatype validation_failure_kind = RequestShape | Credentials | RateLimited | Connectivity | UpstreamHealth | Unexpected

record validated_endpoint =
  ve_url :: string
  ve_protocol :: string

record validation_failure =
  vf_kind :: validation_failure_kind
  vf_details :: string

record validation_probe =
  vp_path :: string
  vp_protocol :: string
  vp_body :: string
  vp_fallback_body :: "string option"

definition dq :: "string \<Rightarrow> string" where "dq s = [CHR 0x22] @ s @ [CHR 0x22]"

definition ping_messages :: "string \<Rightarrow> string" where
  "ping_messages limit = ''{'' @ dq ''messages'' @ '':[{'' @ dq ''role'' @ '':'' @ dq ''user'' @ '','' @ dq ''content'' @ '':'' @ dq ''ping'' @ ''}],'' @ dq limit @ '':32}''"

definition validation_probe_for :: "resolved_route \<Rightarrow> (validation_failure, validation_probe) result" where
  "validation_probe_for route =
     (if ''openai_chat_completions'' \<in> set (rr_protocols route)
      then Inr \<lparr>vp_path = ''/v1/chat/completions'', vp_protocol = ''openai_chat_completions'', vp_body = ping_messages ''max_completion_tokens'',
        vp_fallback_body = Some (ping_messages ''max_tokens'')\<rparr>
      else if ''anthropic_messages'' \<in> set (rr_protocols route)
      then Inr \<lparr>vp_path = ''/v1/messages'', vp_protocol = ''anthropic_messages'', vp_body = ping_messages ''max_tokens'', vp_fallback_body = None\<rparr>
      else if ''openai_responses'' \<in> set (rr_protocols route)
      then Inr \<lparr>vp_path = ''/v1/responses'', vp_protocol = ''openai_responses'',
        vp_body = ''{'' @ dq ''input'' @ '':'' @ dq ''ping'' @ '','' @ dq ''max_output_tokens'' @ '':32}'', vp_fallback_body = None\<rparr>
      else if ''openai_completions'' \<in> set (rr_protocols route)
      then Inr \<lparr>vp_path = ''/v1/completions'', vp_protocol = ''openai_completions'',
        vp_body = ''{'' @ dq ''prompt'' @ '':'' @ dq ''ping'' @ '','' @ dq ''max_tokens'' @ '':32}'', vp_fallback_body = None\<rparr>
      else Inl \<lparr>vf_kind = RequestShape, vf_details = ''route '' @ sq (rr_name route) @ '' does not expose a writable inference protocol for validation''\<rparr>)"

fun validation_error :: "router_error \<Rightarrow> validation_failure" where
  "validation_error (UpstreamUnavailable d) = \<lparr>vf_kind = Connectivity, vf_details = d\<rparr>"
| "validation_error (RouterInternal d) = \<lparr>vf_kind = Unexpected, vf_details = d\<rparr>"
| "validation_error (UpstreamProtocol d) = \<lparr>vf_kind = Unexpected, vf_details = d\<rparr>"
| "validation_error (RouteNotFound d) = \<lparr>vf_kind = Unexpected, vf_details = d\<rparr>"
| "validation_error (NoCompatibleRoute d) = \<lparr>vf_kind = Unexpected, vf_details = d\<rparr>"
| "validation_error (Unauthorized d) = \<lparr>vf_kind = Unexpected, vf_details = d\<rparr>"

definition status_failure :: "'j backend_env \<Rightarrow> nat \<Rightarrow> string \<Rightarrow> validation_failure" where
  "status_failure env status body_suffix = (let s = ''HTTP '' @ be_status_text env status @ ''.'' @ body_suffix in
     if status \<in> {400, 404, 405, 422} then \<lparr>vf_kind = RequestShape, vf_details = ''upstream rejected the validation request with '' @ s\<rparr>
     else if status \<in> {401, 403} then \<lparr>vf_kind = Credentials, vf_details = ''upstream rejected credentials with '' @ s\<rparr>
     else if status = 429 then \<lparr>vf_kind = RateLimited, vf_details = ''upstream rate-limited the validation request with '' @ s\<rparr>
     else if 500 \<le> status \<and> status \<le> 599 then \<lparr>vf_kind = UpstreamHealth, vf_details = ''upstream returned '' @ s\<rparr>
     else \<lparr>vf_kind = Unexpected, vf_details = ''upstream returned unexpected '' @ s\<rparr>)"

definition try_validation_request ::
  "'j backend_env \<Rightarrow> resolved_route \<Rightarrow> string \<Rightarrow> string \<Rightarrow> (string \<times> string) list \<Rightarrow> string \<Rightarrow> (validation_failure, validated_endpoint) result" where
  "try_validation_request env route path protocol headers body =
     (case fst (send_backend_request env route ''POST'' path headers body) of
        Inl e \<Rightarrow> Inl (validation_error e)
      | Inr response \<Rightarrow>
          if 200 \<le> br_status response \<and> br_status response < 300
          then Inr \<lparr>ve_url = build_backend_url (rr_endpoint route) path, ve_protocol = protocol\<rparr>
          else (case br_text response of
              Inl e \<Rightarrow> Inl \<lparr>vf_kind = Unexpected, vf_details = ''failed to read validation response body: '' @ e\<rparr>
            | Inr text \<Rightarrow> let t = trim text; body_suffix = (if t = [] then [] else '' Response body: '' @ concat (take 200 (utf8_chars t)))
                in Inl (status_failure env (br_status response) body_suffix)))"

definition verify_backend_endpoint :: "'j backend_env \<Rightarrow> resolved_route \<Rightarrow> (validation_failure, validated_endpoint) result" where
  "verify_backend_endpoint env route = and_then (validation_probe_for route) (\<lambda>probe.
     let headers = [(''content-type'', ''application/json'')] in
     if is_mock_route route then Inr \<lparr>ve_url = build_backend_url (rr_endpoint route) (vp_path probe), ve_protocol = vp_protocol probe\<rparr>
     else let result = try_validation_request env route (vp_path probe) (vp_protocol probe) headers (vp_body probe) in
       case (result, vp_fallback_body probe) of
         (Inl e, Some fallback_body) \<Rightarrow> if vf_kind e = RequestShape
           then try_validation_request env route (vp_path probe) (vp_protocol probe) headers fallback_body else result
       | _ \<Rightarrow> result)"


section \<open>What a backend receives\<close>

lemma hd_split_char_prefix: "prefix (hd (split_char c s)) s"
  by (induction s) (auto split: list.split)

lemma default_pattern_path:
  assumes "detect_inference_pattern m path default_patterns = Some p"
  shows "prefix ''/v1/'' path"
proof -
  let ?po = "hd (split_char CHR ''?'' path)"
  have p: "p \<in> set default_patterns" "pattern_matches m ?po p"
    using assms by (auto simp: detect_inference_pattern_def find_Some_iff)
  have glob: "strip_suffix ''/*'' ''/v1/models/*'' = Some ''/v1/models''" "strip_suffix ''/*'' ''/v1/models'' = None"
    "strip_suffix ''/*'' ''/v1/messages'' = None" "strip_suffix ''/*'' ''/v1/responses'' = None" "strip_suffix ''/*'' ''/v1/completions'' = None"
    "strip_suffix ''/*'' ''/v1/chat/completions'' = None"
    by (simp_all add: strip_suffix_def ends_with_def)
  have "prefix ''/v1/'' ?po"
    using p by (auto simp: default_patterns_def pattern_matches_def glob strip_prefix_def starts_with_prefix prefix_def split: if_splits)
  then show ?thesis using hd_split_char_prefix prefix_order.trans by blast
qed

text \<open>The routes of the gateway and of a file: the key goes into one of two headers, and no default header is a credential.\<close>

definition credential_header :: "string \<Rightarrow> bool" where
  "credential_header name \<longleftrightarrow> to_ascii_lowercase name \<in> {''authorization'', ''x-api-key''}"

definition route_ok :: "resolved_route \<Rightarrow> bool" where
  "route_ok r \<longleftrightarrow> rr_auth r \<in> {Bearer, Custom ''x-api-key''} \<and> list_all (\<lambda>(n, _). \<not> credential_header n \<and> to_ascii_lowercase n \<noteq> ''host'') (rr_default_headers r)"

lemma auth_for_ok:
  assumes "auth_for_provider_type t = (auth, hs)"
  shows "auth \<in> {Bearer, Custom ''x-api-key''} \<and> list_all (\<lambda>(n, _). \<not> credential_header n \<and> to_ascii_lowercase n \<noteq> ''host'') hs"
proof -
  have "to_ascii_lowercase ''anthropic-version'' = ''anthropic-version''" by code_simp
  then show ?thesis using assms
    by (auto simp: auth_for_provider_type_def profile_for_def Let_def OPENAI_PROFILE_def ANTHROPIC_PROFILE_def NVIDIA_PROFILE_def credential_header_def
        split: if_splits option.splits)
qed

lemma resolved_file_route_ok: "resolve_route_config env_var c = Inr r \<Longrightarrow> route_ok r \<and> rr_protocols r \<noteq> []"
  by (auto simp: resolve_route_config_def Let_def and_then_Inr route_ok_def split: if_splits prod.splits dest!: auth_for_ok)

lemma backend_headers_credentials:
  assumes "route_ok route"
  shows "filter (\<lambda>(n, _). credential_header n) (backend_headers route headers) = [auth_entry route]"
    "list_all (\<lambda>(n, _). to_ascii_lowercase n \<noteq> ''host'') (backend_headers route headers)"
proof -
  have l: "to_ascii_lowercase ''authorization'' = ''authorization''" "to_ascii_lowercase ''x-api-key'' = ''x-api-key''" by code_simp+
  have auth: "credential_header (fst (auth_entry route))" "to_ascii_lowercase (fst (auth_entry route)) \<noteq> ''host''"
    using assms l by (auto simp: route_ok_def auth_entry_def credential_header_def split: auth_header.splits)
  have fwd: "filter (\<lambda>(n, _). credential_header n) (filter (\<lambda>(name, _). to_ascii_lowercase name \<notin> set [''authorization'', ''x-api-key'', ''host'']) headers) = []"
    by (auto simp: filter_empty_conv credential_header_def)
  have dflt: "filter (\<lambda>(n, _). credential_header n) (filter P (rr_default_headers route)) = []" for P
    using assms by (auto simp: route_ok_def filter_empty_conv list_all_iff)
  show "filter (\<lambda>(n, _). credential_header n) (backend_headers route headers) = [auth_entry route]"
    unfolding backend_headers_def filter_append fwd dflt using auth(1) by (simp add: split_beta)
  show "list_all (\<lambda>(n, _). to_ascii_lowercase n \<noteq> ''host'') (backend_headers route headers)"
    using auth(2) assms by (auto simp: backend_headers_def list_all_iff route_ok_def split_beta)
qed

lemma backend_url_base:
  assumes "prefix ''/'' path"
  shows "\<exists>rest. build_backend_url endpoint path = trim_end_slashes endpoint @ rest \<and> (rest = [] \<or> hd rest = CHR ''/'')"
  using assms by (auto simp: build_backend_url_def Let_def prefix_def starts_with_prefix)

text \<open>The requests of an intercepted connection: those of the router calls.\<close>

definition backend_requests :: "'j backend_env \<Rightarrow> resolved_route list \<Rightarrow> router_call list \<Rightarrow> backend_request list" where
  "backend_requests env routes calls = concat (map (\<lambda>call. snd (proxy_with_candidates_streaming env call routes)) calls)"

definition request_of_route :: "'j backend_env \<Rightarrow> router_call \<Rightarrow> resolved_route \<Rightarrow> backend_request \<Rightarrow> bool" where
  "request_of_route env call route req \<longleftrightarrow> bq_method req = rc_method call \<and> bq_url req = build_backend_url (rr_endpoint route) (rc_path call)
     \<and> bq_headers req = backend_headers route (rc_headers call) \<and> bq_body req = backend_body env route (rc_body call)"

lemma routed_request:
  assumes "req \<in> set (snd (proxy_with_candidates_streaming env call routes))"
  shows "\<exists>route \<in> set routes. to_ascii_lowercase (trim (rc_protocol call)) \<in> set (rr_protocols route) \<and> \<not> is_mock_route route
    \<and> request_of_route env call route req"
proof -
  let ?src = "to_ascii_lowercase (trim (rc_protocol call))"
  obtain route where r: "select_route ?src routes = Some route" "\<not> is_mock_route route"
    "req \<in> set (snd (send_backend_request env route (rc_method call) (rc_path call) (rc_headers call) (rc_body call)))"
    using assms by (auto simp: proxy_with_candidates_streaming_def Let_def split: option.splits if_splits prod.splits sum.splits)
  then have "route \<in> set routes" "?src \<in> set (rr_protocols route)"
    by (auto simp: select_route_def find_Some_iff list_ex_iff)
  moreover have "request_of_route env call route req"
    using r(3) by (auto simp: send_backend_request_def backend_request_of_def request_of_route_def split: sum.splits if_splits)
  ultimately show ?thesis using r(2) by blast
qed

text \<open>C8: every request that an intercepted connection causes at an inference backend goes to the endpoint of a configured route
  that speaks the protocol of the request, carries the key of that route in one credential header and no other credential (none of
  the client's), no host of the client, and, when its body is a JSON object, the model of the route.\<close>

theorem backend_requests_use_route:
  assumes "handle_inference_interception tls_state (Some ctx) client = (outcome, response, calls)"
    and "ic_patterns ctx = default_patterns" "list_all route_ok (ic_routes ctx)"
    and "\<forall>j. be_parse env (be_print env j) = Some j" "\<forall>k v j. is_object j \<longrightarrow> field (be_set_field env k v j) k = Some v"
    and "req \<in> set (backend_requests env (ic_routes ctx) calls)"
  shows "\<exists>call \<in> set calls. \<exists>route \<in> set (ic_routes ctx). \<exists>rest.
    to_ascii_lowercase (trim (rc_protocol call)) \<in> set (rr_protocols route)
    \<and> bq_url req = trim_end_slashes (rr_endpoint route) @ rest \<and> (rest = [] \<or> hd rest = CHR ''/'')
    \<and> filter (\<lambda>(n, _). credential_header n) (bq_headers req) = [auth_entry route]
    \<and> list_all (\<lambda>(n, _). to_ascii_lowercase n \<noteq> ''host'') (bq_headers req)
    \<and> (\<forall>j. be_parse env (rc_body call) = Some j \<longrightarrow> is_object j \<longrightarrow>
        (\<exists>j'. be_parse env (bq_body req) = Some j' \<and> field j' ''model'' = Some (rr_model route)))"
proof -
  have ok: "list_all (call_ok (ic_patterns ctx)) calls"
    using assms(1) inference_loop_calls_ok [of ctx] by (auto simp: handle_inference_interception_def split: option.splits sum.splits)
  obtain call where call: "call \<in> set calls" "req \<in> set (snd (proxy_with_candidates_streaming env call (ic_routes ctx)))"
    using assms(6) by (auto simp: backend_requests_def)
  obtain route where route: "route \<in> set (ic_routes ctx)" "to_ascii_lowercase (trim (rc_protocol call)) \<in> set (rr_protocols route)"
    "request_of_route env call route req"
    using routed_request [OF call(2)] by blast
  have "prefix ''/'' (rc_path call)"
    using ok call(1) assms(2) default_pattern_path by (fastforce simp: list_all_iff call_ok_def prefix_def)
  then obtain rest where "bq_url req = trim_end_slashes (rr_endpoint route) @ rest" "rest = [] \<or> hd rest = CHR ''/''"
    using backend_url_base route(3) by (auto simp: request_of_route_def)
  moreover have "route_ok route" using assms(3) route(1) by (simp add: list_all_iff)
  moreover have "\<exists>j'. be_parse env (bq_body req) = Some j' \<and> field j' ''model'' = Some (rr_model route)"
    if "be_parse env (rc_body call) = Some j" "is_object j" for j
    using that assms(4,5) route(3) by (auto simp: request_of_route_def backend_body_def)
  ultimately show ?thesis
    using call(1) route backend_headers_credentials [of route "rc_headers call"] unfolding request_of_route_def by metis
qed

definition example_route :: resolved_route where
  "example_route = \<lparr>rr_name = ''inference.local'', rr_endpoint = ''https://api.openai.com/v1'', rr_model = ''m'', rr_api_key = ''k'',
     rr_protocols = OPENAI_PROTOCOLS, rr_auth = Bearer, rr_default_headers = [], rr_timeout = 60\<rparr>"

definition example_backend :: "string backend_env" where
  "example_backend = \<lparr>be_method_ok = (\<lambda>_. True), be_parse = Some, be_set_field = (\<lambda>_ v _. v), be_print = id,
     be_client = (\<lambda>_. Inl ClientTimeout), be_status_text = show_nat, be_mock_json = (\<lambda>_. [])\<rparr>"

definition route_ctx :: "resolved_route inference_ctx" where
  "route_ctx = \<lparr>ic_patterns = default_patterns, ic_router = router_of example_backend, ic_routes = [example_route], ic_json = concat \<circ> map snd\<rparr>"

definition models_call :: router_call where
  "models_call = \<lparr>rc_protocol = ''model_discovery'', rc_method = ''GET'', rc_path = ''/v1/models'', rc_headers = [], rc_body = []\<rparr>"

lemma one_block_loop:
  assumes "b \<noteq> []" "length b \<le> INITIAL_INFERENCE_BUF" "try_parse_http_request b = Some (Complete request consumed)"
    "route_inference_request ctx request = (True, response, calls)"
  shows "inference_loop ctx INITIAL_INFERENCE_BUF [] False [b] = (Some Routed, response, calls)"
proof -
  have "read_some INITIAL_INFERENCE_BUF [b] = (b, [])" using assms(1,2) by simp
  moreover have "inference_loop ctx n d True [] = (Some Routed, [], [])" for n d by (simp add: inference_loop.simps)
  ultimately show ?thesis using assms by (subst inference_loop.simps) (simp add: Let_def)
qed

lemma example_calls: "snd (snd (handle_inference_interception (Some Inr) (Some route_ctx) [''GET /v1/models HTTP/1.1'' @ CRLF @ CRLF])) = [models_call]"
proof -
  let ?b = "''GET /v1/models HTTP/1.1'' @ CRLF @ CRLF"
  have d: "detect_inference_pattern ''GET'' (normalize_inference_path ''/v1/models'') default_patterns
      = Some \<lparr>ip_method = ''GET'', ip_path_glob = ''/v1/models'', ip_protocol = ''model_discovery'', ip_kind = ''models_list''\<rparr>"
    "normalize_inference_path ''/v1/models'' = ''/v1/models''" "sanitize_inference_request_headers [] = []" by code_simp+
  obtain resp where r: "route_inference_request route_ctx \<lparr>rq_method = ''GET'', rq_path = ''/v1/models'', rq_headers = [], rq_body = []\<rparr> = (True, resp, [models_call])"
    using d by (cases "router_of example_backend models_call [example_route]")
      (auto simp: route_inference_request_def route_ctx_def models_call_def Let_def split_beta)
  have p: "try_parse_http_request ?b = Some (Complete \<lparr>rq_method = ''GET'', rq_path = ''/v1/models'', rq_headers = [], rq_body = []\<rparr> 27)"
    using models_block_parses [of "[]"] by simp
  have "inference_loop route_ctx INITIAL_INFERENCE_BUF [] False [?b] = (Some Routed, resp, [models_call])"
    by (rule one_block_loop [OF _ _ p r]) (simp_all add: INITIAL_INFERENCE_BUF_def)
  then show ?thesis by (simp add: handle_inference_interception_def)
qed

theorem backend_requests_use_route_witness:
  "map (filter (\<lambda>(n, _). credential_header n) \<circ> bq_headers) (backend_requests example_backend [example_route] [models_call]) = [[(''authorization'', ''Bearer k'')]]"
proof -
  let ?run = "handle_inference_interception (Some Inr) (Some route_ctx) [''GET /v1/models HTTP/1.1'' @ CRLF @ CRLF]"
  have run: "?run = (fst ?run, fst (snd ?run), [models_call])" using example_calls by (metis prod.collapse)
  have sel: "to_ascii_lowercase (trim ''model_discovery'') = ''model_discovery''" by code_simp
  obtain req where req: "backend_requests example_backend [example_route] [models_call] = [req]"
    by (simp add: backend_requests_def proxy_with_candidates_streaming_def Let_def select_route_def sel models_call_def example_route_def OPENAI_PROTOCOLS_def
        is_mock_route_def starts_with_def send_backend_request_def backend_request_of_def example_backend_def)
  have "filter (\<lambda>(n, _). credential_header n) (bq_headers req) = [auth_entry example_route]"
    using backend_requests_use_route [OF run, of example_backend "\<lambda>_. True" "\<lambda>j _. Some j" req] req
    by (auto simp: route_ctx_def example_backend_def route_ok_def example_route_def)
  then show ?thesis using req by (simp add: auth_entry_def example_route_def)
qed

text \<open>A model name with dot segments is accepted as a model lookup: the URL, whose dot segments a client resolves before it sends the
  request, then names another resource of the provider, and the key of the route goes with it.\<close>

theorem model_lookup_reaches_other_resources:
  "map_option ip_protocol (detect_inference_pattern ''GET'' ''/v1/models/../files'' default_patterns) = Some ''model_discovery''"
  "build_backend_url ''https://api.openai.com/v1'' ''/v1/models/../files'' = ''https://api.openai.com/v1/models/../files''"
  by code_simp+

end
