(* ===== verification/Inference_Routes.thy ===== *)
theory Inference_Routes
  imports Router Provider_Store
begin

text \<open>
  Managed inference routes: the gateway's handlers (\<open>crates/openshell-server/src/inference.rs\<close>) and the route caches of a
  sandbox (\<open>crates/openshell-sandbox/src/lib.rs\<close>). The hash of a bundle, the codec of a stored route, identifiers, times and
  the transport between sandbox and gateway are parameters.
\<close>

section \<open>Stored routes\<close>

record cluster_inference_config =
  ci_provider_name :: string
  ci_model_id :: string
  ci_timeout_secs :: nat

record inference_route =
  ir_id :: string
  ir_name :: string
  ir_config :: "cluster_inference_config option"
  ir_version :: "64 word"

definition route_message :: "(inference_route \<Rightarrow> 'b) \<Rightarrow> ('b \<Rightarrow> inference_route option) \<Rightarrow> (inference_route, 'b) message_type" where
  "route_message enc dec = \<lparr>mt_object_type = ''inference_route'', mt_object_id = ir_id, mt_object_name = ir_name, mt_encode = enc, mt_decode = dec\<rparr>"

definition CLUSTER_INFERENCE_ROUTE_NAME :: string where "CLUSTER_INFERENCE_ROUTE_NAME = ''inference.local''"
definition SANDBOX_SYSTEM_ROUTE_NAME :: string where "SANDBOX_SYSTEM_ROUTE_NAME = ''sandbox-system''"

definition effective_route_name :: "string \<Rightarrow> (status, string) result" where
  "effective_route_name name = (let n = trim name in
     if n = [] \<or> n = ''inference.local'' then Inr CLUSTER_INFERENCE_ROUTE_NAME
     else if n = ''sandbox-system'' then Inr SANDBOX_SYSTEM_ROUTE_NAME
     else Inl (invalid_argument (''unknown route_name '' @ sq n @ ''; expected '' @ sq ''inference.local'' @ '' or '' @ sq ''sandbox-system'')))"

definition saturating_succ :: "64 word \<Rightarrow> 64 word" where
  "saturating_succ v = (if v = - 1 then v else v + 1)"

section \<open>Routes of a provider\<close>

definition present :: "string \<Rightarrow> bool" where "present v \<longleftrightarrow> trim v \<noteq> []"

definition first_present :: "string str_map \<Rightarrow> string list \<Rightarrow> string option" where
  "first_present m keys = (case find (\<lambda>k. case map_of m k of None \<Rightarrow> False | Some v \<Rightarrow> present v) keys of None \<Rightarrow> None | Some k \<Rightarrow> map_of m k)"

definition find_provider_api_key :: "provider \<Rightarrow> string list \<Rightarrow> string option" where
  "find_provider_api_key p preferred_key_names = (case first_present (pv_credentials p) preferred_key_names of
     Some v \<Rightarrow> Some v | None \<Rightarrow> first_present (pv_credentials p) (sort (map fst (pv_credentials p))))"

definition find_provider_config_value :: "provider \<Rightarrow> string list \<Rightarrow> string option" where
  "find_provider_config_value p preferred_keys = first_present (pv_config p) preferred_keys"

definition resolve_provider_route :: "provider \<Rightarrow> (status, string \<times> resolved_route) result" where
  "resolve_provider_route p = (let provider_type = to_ascii_lowercase (trim (pv_type p)) in
     case profile_for provider_type of
       None \<Rightarrow> Inl (invalid_argument (''provider '' @ sq (pv_name p) @ '' has unsupported type '' @ sq provider_type
         @ '' for cluster inference (supported: openai, anthropic, nvidia)''))
     | Some profile \<Rightarrow> (case find_provider_api_key p (ip_credential_key_names profile) of
         None \<Rightarrow> Inl (invalid_argument (''provider '' @ sq (pv_name p) @ '' has no usable API key credential''))
       | Some api_key \<Rightarrow>
           let base_url = trim (case find_provider_config_value p (ip_base_url_config_keys profile) of
               None \<Rightarrow> ip_default_base_url profile | Some v \<Rightarrow> v) in
           if base_url = [] then Inl (invalid_argument (''provider '' @ sq (pv_name p) @ '' resolved to empty base_url''))
           else Inr (provider_type, \<lparr>rr_name = pv_name p, rr_endpoint = base_url, rr_model = [], rr_api_key = api_key,
             rr_protocols = ip_protocols profile, rr_auth = ip_auth profile, rr_default_headers = ip_default_headers profile,
             rr_timeout = DEFAULT_ROUTE_TIMEOUT\<rparr>)))"

fun validation_next_steps :: "validation_failure_kind \<Rightarrow> string" where
  "validation_next_steps Credentials = ''verify the provider API key and any required auth headers''"
| "validation_next_steps RateLimited = ''retry later or verify quota/limits on the upstream provider''"
| "validation_next_steps RequestShape = ''confirm the provider type, base URL, and model identifier''"
| "validation_next_steps Connectivity = ''check that the service is running, confirm the base URL and protocol, and verify credentials''"
| "validation_next_steps UpstreamHealth = ''check whether the endpoint is healthy and serving requests''"
| "validation_next_steps Unexpected = ''confirm the endpoint URL, protocol, credentials, and model identifier''"

definition validation_failure_status :: "string \<Rightarrow> string \<Rightarrow> string \<Rightarrow> string \<Rightarrow> string \<Rightarrow> status" where
  "validation_failure_status provider_name model_id base_url details next_steps = failed_precondition
     (''failed to verify inference endpoint for provider '' @ sq provider_name @ '' and model '' @ sq model_id @ '' at '' @ sq base_url @ '': ''
      @ details @ ''. Next steps: '' @ next_steps @ '', or retry with '' @ sq ''--no-verify'' @ '' if you want to skip verification'')"

definition verify_provider_endpoint :: "'j backend_env \<Rightarrow> string \<Rightarrow> string \<Rightarrow> resolved_route \<Rightarrow> (status, validated_endpoint) result" where
  "verify_provider_endpoint env provider_name model_id route0 = (let route = route0\<lparr>rr_model := model_id\<rparr> in
     map_err (\<lambda>f. validation_failure_status provider_name model_id (rr_endpoint route) (vf_details f) (validation_next_steps (vf_kind f)))
       (verify_backend_endpoint env route))"

section \<open>Handlers\<close>

definition fetch_route :: "(inference_route, 'b) message_type \<Rightarrow> string \<Rightarrow> 'b store \<Rightarrow> (status, inference_route option) result" where
  "fetch_route mt nm s = map_err (\<lambda>e. internal (''fetch route failed: '' @ e)) (get_message_by_name mt nm s)"

definition upsert_cluster_inference_route ::
  "'j backend_env \<Rightarrow> (provider, 'b) message_type \<Rightarrow> (inference_route, 'b) message_type \<Rightarrow> string \<Rightarrow> int \<Rightarrow> string \<Rightarrow> string \<Rightarrow> string \<Rightarrow>
   nat \<Rightarrow> bool \<Rightarrow> 'b store \<Rightarrow> (status, (inference_route \<times> validated_endpoint list) \<times> 'b store) result" where
  "upsert_cluster_inference_route env pm rm new_id now_ms route_name provider_name model_id timeout_secs verify s =
     (if trim provider_name = [] then Inl (invalid_argument ''provider_name is required'')
      else if trim model_id = [] then Inl (invalid_argument ''model_id is required'')
      else and_then (fetch_provider pm provider_name s) (\<lambda>r. case r of
        None \<Rightarrow> Inl (failed_precondition (''provider '' @ sq provider_name @ '' not found''))
      | Some provider \<Rightarrow>
          and_then (resolve_provider_route provider) (\<lambda>(_, resolved).
          and_then (if verify then and_then (verify_provider_endpoint env (pv_name provider) model_id resolved) (\<lambda>v. Inr [v]) else Inr []) (\<lambda>validation.
          and_then (fetch_route rm route_name s) (\<lambda>existing.
          let config = \<lparr>ci_provider_name = pv_name provider, ci_model_id = model_id, ci_timeout_secs = timeout_secs\<rparr>;
              route = (case existing of
                Some e \<Rightarrow> \<lparr>ir_id = ir_id e, ir_name = ir_name e, ir_config = Some config, ir_version = saturating_succ (ir_version e)\<rparr>
              | None \<Rightarrow> \<lparr>ir_id = new_id, ir_name = route_name, ir_config = Some config, ir_version = 1\<rparr>)
          in and_then (map_err (\<lambda>e. internal (''persist route failed: '' @ e)) (put_message rm now_ms route s)) (\<lambda>s'.
             Inr ((route, validation), s')))))))"

record set_cluster_inference_request =
  sq_provider_name :: string
  sq_model_id :: string
  sq_route_name :: string
  sq_verify :: bool
  sq_no_verify :: bool
  sq_timeout_secs :: nat

record cluster_inference_response =
  cr_provider_name :: string
  cr_model_id :: string
  cr_version :: "64 word"
  cr_route_name :: string
  cr_timeout_secs :: nat

text \<open>The response and the validated endpoints; validation was performed when there are any.\<close>

definition set_cluster_inference ::
  "'j backend_env \<Rightarrow> (provider, 'b) message_type \<Rightarrow> (inference_route, 'b) message_type \<Rightarrow> string \<Rightarrow> int \<Rightarrow> set_cluster_inference_request \<Rightarrow>
   'b store \<Rightarrow> (status, (cluster_inference_response \<times> validated_endpoint list) \<times> 'b store) result" where
  "set_cluster_inference env pm rm new_id now_ms req s = and_then (effective_route_name (sq_route_name req)) (\<lambda>route_name.
     and_then (upsert_cluster_inference_route env pm rm new_id now_ms route_name (sq_provider_name req) (sq_model_id req) (sq_timeout_secs req)
         (\<not> sq_no_verify req) s) (\<lambda>((route, validation), s').
       case ir_config route of None \<Rightarrow> Inl (internal ''managed route missing config'')
       | Some config \<Rightarrow> Inr ((\<lparr>cr_provider_name = ci_provider_name config, cr_model_id = ci_model_id config, cr_version = ir_version route,
           cr_route_name = route_name, cr_timeout_secs = ci_timeout_secs config\<rparr>, validation), s')))"

definition get_cluster_inference :: "(inference_route, 'b) message_type \<Rightarrow> string \<Rightarrow> 'b store \<Rightarrow> (status, cluster_inference_response) result" where
  "get_cluster_inference rm name s = and_then (effective_route_name name) (\<lambda>route_name.
     and_then (fetch_route rm route_name s) (\<lambda>r. case r of
       None \<Rightarrow> Inl (not_found (''inference route '' @ sq route_name @ '' is not configured; run ''
         @ sq ''openshell inference set --provider <name> --model <id>''))
     | Some route \<Rightarrow> (case ir_config route of
         None \<Rightarrow> Inl (internal ''managed route missing config'')
       | Some config \<Rightarrow>
           if trim (ci_provider_name config) = [] \<or> trim (ci_model_id config) = []
           then Inl (failed_precondition ''managed route is missing provider/model metadata'')
           else Inr \<lparr>cr_provider_name = ci_provider_name config, cr_model_id = ci_model_id config, cr_version = ir_version route,
             cr_route_name = route_name, cr_timeout_secs = ci_timeout_secs config\<rparr>)))"

section \<open>Bundles\<close>

record bundle_route =
  bn_name :: string
  bn_base_url :: string
  bn_protocols :: "string list"
  bn_api_key :: string
  bn_model_id :: string
  bn_provider_type :: string
  bn_timeout_secs :: nat

record inference_bundle =
  ib_routes :: "bundle_route list"
  ib_revision :: string
  ib_generated_at_ms :: int

definition resolve_route_by_name ::
  "(provider, 'b) message_type \<Rightarrow> (inference_route, 'b) message_type \<Rightarrow> string \<Rightarrow> 'b store \<Rightarrow> (status, bundle_route option) result" where
  "resolve_route_by_name pm rm route_name s = and_then (fetch_route rm route_name s) (\<lambda>r. case r of None \<Rightarrow> Inr None
   | Some route \<Rightarrow> (case ir_config route of None \<Rightarrow> Inr None
     | Some config \<Rightarrow>
         if trim (ci_provider_name config) = [] then Inl (failed_precondition (''route '' @ sq route_name @ '' is missing provider_name''))
         else if trim (ci_model_id config) = [] then Inl (failed_precondition (''route '' @ sq route_name @ '' is missing model_id''))
         else and_then (fetch_provider pm (ci_provider_name config) s) (\<lambda>p. case p of
             None \<Rightarrow> Inl (failed_precondition (''configured provider '' @ sq (ci_provider_name config) @ '' was not found''))
           | Some provider \<Rightarrow> and_then (resolve_provider_route provider) (\<lambda>(provider_type, route0).
               Inr (Some \<lparr>bn_name = route_name, bn_base_url = rr_endpoint route0, bn_protocols = rr_protocols route0, bn_api_key = rr_api_key route0,
                 bn_model_id = ci_model_id config, bn_provider_type = provider_type, bn_timeout_secs = ci_timeout_secs config\<rparr>)))))"

definition resolve_inference_bundle ::
  "(bundle_route list \<Rightarrow> string) \<Rightarrow> int \<Rightarrow> (provider, 'b) message_type \<Rightarrow> (inference_route, 'b) message_type \<Rightarrow> 'b store \<Rightarrow> (status, inference_bundle) result" where
  "resolve_inference_bundle hash now_ms pm rm s =
     and_then (resolve_route_by_name pm rm CLUSTER_INFERENCE_ROUTE_NAME s) (\<lambda>user.
     and_then (resolve_route_by_name pm rm SANDBOX_SYSTEM_ROUTE_NAME s) (\<lambda>system.
     let routes = (case user of None \<Rightarrow> [] | Some r \<Rightarrow> [r]) @ (case system of None \<Rightarrow> [] | Some r \<Rightarrow> [r])
     in Inr \<lparr>ib_routes = routes, ib_revision = hash routes, ib_generated_at_ms = now_ms\<rparr>))"

section \<open>The route caches of a sandbox\<close>

definition bundle_to_resolved_routes :: "inference_bundle \<Rightarrow> resolved_route list" where
  "bundle_to_resolved_routes b = map (\<lambda>r. case auth_for_provider_type (bn_provider_type r) of (auth, default_headers) \<Rightarrow>
     \<lparr>rr_name = bn_name r, rr_endpoint = bn_base_url r, rr_model = bn_model_id r, rr_api_key = bn_api_key r, rr_protocols = bn_protocols r,
      rr_auth = auth, rr_default_headers = default_headers,
      rr_timeout = (if bn_timeout_secs r = 0 then DEFAULT_ROUTE_TIMEOUT else bn_timeout_secs r)\<rparr>) (ib_routes b)"

definition partition_routes :: "resolved_route list \<Rightarrow> resolved_route list \<times> resolved_route list" where
  "partition_routes routes = (filter (\<lambda>r. rr_name r \<noteq> SANDBOX_SYSTEM_ROUTE_NAME) routes, filter (\<lambda>r. rr_name r = SANDBOX_SYSTEM_ROUTE_NAME) routes)"

datatype inference_route_source = SourceFile | SourceCluster | SourceNone

definition infer_route_source :: "string option \<Rightarrow> string option \<Rightarrow> string option \<Rightarrow> inference_route_source" where
  "infer_route_source sandbox_id openshell_endpoint inference_routes =
     (if inference_routes \<noteq> None then SourceFile
      else if sandbox_id \<noteq> None \<and> openshell_endpoint \<noteq> None then SourceCluster else SourceNone)"

definition disable_inference_on_empty_routes :: "inference_route_source \<Rightarrow> bool" where
  "disable_inference_on_empty_routes source \<longleftrightarrow> source \<noteq> SourceCluster"

record route_caches =
  ca_user :: "resolved_route list"
  ca_system :: "resolved_route list"
  ca_revision :: "string option"
  ca_refreshed :: bool

text \<open>The initial caches: \<open>file\<close> is the resolved route file, \<open>fetched\<close> the answer of the gateway. No caches means that inference is not
  routed; only a file that does not load is an error. The caches are refreshed when they came from the gateway.\<close>

definition build_inference_context ::
  "string option \<Rightarrow> string option \<Rightarrow> string option \<Rightarrow> (string, resolved_route list) result \<Rightarrow> (string, inference_bundle) result \<Rightarrow>
   (string, route_caches option) result" where
  "build_inference_context sandbox_id openshell_endpoint inference_routes file fetched =
     (let source = infer_route_source sandbox_id openshell_endpoint inference_routes;
          caches = (\<lambda>routes revision. if routes = [] \<and> disable_inference_on_empty_routes source then Inr None
            else case partition_routes routes of (user, system) \<Rightarrow>
              Inr (Some \<lparr>ca_user = user, ca_system = system, ca_revision = revision, ca_refreshed = (source = SourceCluster)\<rparr>))
      in case source of
        SourceFile \<Rightarrow> (case file of Inl e \<Rightarrow> Inl e | Inr routes \<Rightarrow> caches routes None)
      | SourceCluster \<Rightarrow> (case fetched of Inl e \<Rightarrow> Inr None | Inr b \<Rightarrow> caches (bundle_to_resolved_routes b) (Some (ib_revision b)))
      | SourceNone \<Rightarrow> Inr None)"

text \<open>One tick of the refresh loop.\<close>

definition refresh_tick :: "(string, inference_bundle) result \<Rightarrow> route_caches \<Rightarrow> route_caches" where
  "refresh_tick fetched c = (case fetched of Inl e \<Rightarrow> c
     | Inr b \<Rightarrow> if ca_revision c = Some (ib_revision b) then c
         else case partition_routes (bundle_to_resolved_routes b) of (user, system) \<Rightarrow>
           c\<lparr>ca_revision := Some (ib_revision b), ca_user := user, ca_system := system\<rparr>)"


section \<open>Storing and serving a route\<close>

text \<open>Every stored route has the identifier and name of its row; the codec gives back what it was given.\<close>

definition routes_ok :: "(inference_route, 'b) message_type \<Rightarrow> 'b store \<Rightarrow> bool" where
  "routes_ok rm s \<longleftrightarrow> mt_object_type rm = ''inference_route'' \<and> mt_object_id rm = ir_id \<and> mt_object_name rm = ir_name
     \<and> (\<forall>r. mt_decode rm (mt_encode rm r) = Some r)
     \<and> (\<forall>row \<in> set (st_objects s). ob_type row = ''inference_route'' \<longrightarrow> (\<forall>r. mt_decode rm (ob_payload row) = Some r \<longrightarrow> ir_id r = ob_id row \<and> ir_name r = ob_name row))"

lemma fetch_route_stored:
  assumes "routes_ok rm s" "objects_ok s" "fetch_route rm n s = Inr existing" "put_message rm now route s = Inr s'"
    and "case existing of Some e \<Rightarrow> ir_id route = ir_id e \<and> ir_name route = ir_name e
       | None \<Rightarrow> ir_name route = n \<and> \<not> list_ex (\<lambda>r. ob_id r = ir_id route) (st_objects s)"
  shows "fetch_route rm n s' = Inr (Some route) \<and> (\<forall>t m. t \<noteq> ''inference_route'' \<longrightarrow> db_get_by_name t m s' = db_get_by_name t m s)"
proof -
  have put: "db_put now ''inference_route'' (ir_id route) (ir_name route) (mt_encode rm route) s = Inr s'"
    using assms(1,4) by (simp add: put_message_def routes_ok_def)
  have "\<exists>row. db_get_by_name ''inference_route'' n s' = Some row \<and> ob_payload row = mt_encode rm route"
  proof (cases existing)
    case None
    then show ?thesis using assms(5) put_fresh_name [OF put] by simp
  next
    case (Some e)
    then obtain row where row: "db_get_by_name ''inference_route'' n s = Some row" "mt_decode rm (ob_payload row) = Some e"
      using assms(1,3) by (auto simp: fetch_route_def get_message_by_name_def decode_record_def routes_ok_def split: option.splits)
    then have "ir_id e = ob_id row" using assms(1) find_Some_in [OF row(1) [unfolded db_get_by_name_def]] by (auto simp: routes_ok_def)
    then show ?thesis using put_existing_name [OF assms(2) row(1), of now "ir_name route" "mt_encode rm route" s' n] put Some assms(5) by simp
  qed
  then have "fetch_route rm n s' = Inr (Some route)"
    using assms(1) by (auto simp: fetch_route_def get_message_by_name_def decode_record_def routes_ok_def map_err_def)
  then show ?thesis using put_other_type [OF put] by blast
qed

text \<open>The route of a sandbox for an entry of the bundle.\<close>

definition served_route :: "string \<Rightarrow> cluster_inference_response \<Rightarrow> resolved_route \<Rightarrow> resolved_route" where
  "served_route n resp route = route\<lparr>rr_name := n, rr_model := cr_model_id resp,
     rr_timeout := (if cr_timeout_secs resp = 0 then DEFAULT_ROUTE_TIMEOUT else cr_timeout_secs resp)\<rparr>"

lemma resolve_provider_auth:
  "resolve_provider_route p = Inr (t, route) \<Longrightarrow> auth_for_provider_type t = (rr_auth route, rr_default_headers route)"
  by (auto simp: resolve_provider_route_def auth_for_provider_type_def Let_def split: option.splits if_splits)

text \<open>What a confirmed configuration did.\<close>

lemma set_cluster_inferenceE:
  assumes "set_cluster_inference env pm rm new_id now_ms req s = Inr ((resp, validation), s')"
  obtains n p t route existing r where "effective_route_name (sq_route_name req) = Inr n" "trim (sq_provider_name req) \<noteq> []" "trim (sq_model_id req) \<noteq> []"
    "fetch_provider pm (sq_provider_name req) s = Inr (Some p)" "resolve_provider_route p = Inr (t, route)"
    "fetch_route rm n s = Inr existing" "put_message rm now_ms r s = Inr s'"
    "r = (case existing of
       Some e \<Rightarrow> \<lparr>ir_id = ir_id e, ir_name = ir_name e, ir_config = Some \<lparr>ci_provider_name = pv_name p, ci_model_id = sq_model_id req, ci_timeout_secs = sq_timeout_secs req\<rparr>,
          ir_version = saturating_succ (ir_version e)\<rparr>
     | None \<Rightarrow> \<lparr>ir_id = new_id, ir_name = n, ir_config = Some \<lparr>ci_provider_name = pv_name p, ci_model_id = sq_model_id req, ci_timeout_secs = sq_timeout_secs req\<rparr>, ir_version = 1\<rparr>)"
    "resp = \<lparr>cr_provider_name = pv_name p, cr_model_id = sq_model_id req, cr_version = ir_version r, cr_route_name = n, cr_timeout_secs = sq_timeout_secs req\<rparr>"
proof -
  obtain n r v config where n: "effective_route_name (sq_route_name req) = Inr n" and
    up: "upsert_cluster_inference_route env pm rm new_id now_ms n (sq_provider_name req) (sq_model_id req) (sq_timeout_secs req) (\<not> sq_no_verify req) s = Inr ((r, v), s')"
      "ir_config r = Some config" "resp = \<lparr>cr_provider_name = ci_provider_name config, cr_model_id = ci_model_id config, cr_version = ir_version r,
         cr_route_name = n, cr_timeout_secs = ci_timeout_secs config\<rparr>"
    using assms by (auto simp: set_cluster_inference_def and_then_Inr split: option.splits)
  obtain p t route existing where "trim (sq_provider_name req) \<noteq> []" "trim (sq_model_id req) \<noteq> []"
    "fetch_provider pm (sq_provider_name req) s = Inr (Some p)" "resolve_provider_route p = Inr (t, route)"
    "fetch_route rm n s = Inr existing" "put_message rm now_ms r s = Inr s'"
    "r = (case existing of
       Some e \<Rightarrow> \<lparr>ir_id = ir_id e, ir_name = ir_name e, ir_config = Some \<lparr>ci_provider_name = pv_name p, ci_model_id = sq_model_id req, ci_timeout_secs = sq_timeout_secs req\<rparr>,
          ir_version = saturating_succ (ir_version e)\<rparr>
     | None \<Rightarrow> \<lparr>ir_id = new_id, ir_name = n, ir_config = Some \<lparr>ci_provider_name = pv_name p, ci_model_id = sq_model_id req, ci_timeout_secs = sq_timeout_secs req\<rparr>, ir_version = 1\<rparr>)"
    "resp = \<lparr>cr_provider_name = pv_name p, cr_model_id = sq_model_id req, cr_version = ir_version r, cr_route_name = n, cr_timeout_secs = sq_timeout_secs req\<rparr>"
    using up by (auto simp: upsert_cluster_inference_route_def and_then_Inr Let_def split: if_splits option.splits)
  then show ?thesis by (rule that [OF n])
qed

text \<open>C34: after a confirmed configuration of a route, reading it back gives the confirmed values, and the bundle entry of the route,
  turned into a route by a sandbox, is the provider's route the gateway resolved (and verified): same endpoint, key, protocols and
  headers, with the configured model and time limit.\<close>

theorem configured_route_is_served:
  assumes "providers_ok pm s" "mt_object_type pm = ''provider''" "routes_ok rm s"
    and "\<not> list_ex (\<lambda>r. ob_id r = new_id) (st_objects s)"
    and "set_cluster_inference env pm rm new_id now_ms req s = Inr ((resp, validation), s')"
  shows "get_cluster_inference rm (sq_route_name req) s' = Inr resp
    \<and> (\<exists>p t route entry. fetch_provider pm (sq_provider_name req) s = Inr (Some p) \<and> resolve_provider_route p = Inr (t, route)
        \<and> resolve_route_by_name pm rm (cr_route_name resp) s' = Inr (Some entry)
        \<and> bundle_to_resolved_routes \<lparr>ib_routes = [entry], ib_revision = tag, ib_generated_at_ms = ms\<rparr> = [served_route (cr_route_name resp) resp route])"
proof -
  obtain n p t route existing r where n: "effective_route_name (sq_route_name req) = Inr n" and facts: "trim (sq_provider_name req) \<noteq> []" "trim (sq_model_id req) \<noteq> []"
      "fetch_provider pm (sq_provider_name req) s = Inr (Some p)" "resolve_provider_route p = Inr (t, route)"
      "fetch_route rm n s = Inr existing" "put_message rm now_ms r s = Inr s'" and
    r: "r = (case existing of
       Some e \<Rightarrow> \<lparr>ir_id = ir_id e, ir_name = ir_name e, ir_config = Some \<lparr>ci_provider_name = pv_name p, ci_model_id = sq_model_id req, ci_timeout_secs = sq_timeout_secs req\<rparr>,
          ir_version = saturating_succ (ir_version e)\<rparr>
     | None \<Rightarrow> \<lparr>ir_id = new_id, ir_name = n, ir_config = Some \<lparr>ci_provider_name = pv_name p, ci_model_id = sq_model_id req, ci_timeout_secs = sq_timeout_secs req\<rparr>, ir_version = 1\<rparr>)" and
    resp: "resp = \<lparr>cr_provider_name = pv_name p, cr_model_id = sq_model_id req, cr_version = ir_version r, cr_route_name = n, cr_timeout_secs = sq_timeout_secs req\<rparr>"
    by (rule set_cluster_inferenceE [OF assms(5)])
  have cfg: "ir_config r = Some \<lparr>ci_provider_name = pv_name p, ci_model_id = sq_model_id req, ci_timeout_secs = sq_timeout_secs req\<rparr>"
    using r by (simp split: option.split)
  have stored: "fetch_route rm n s' = Inr (Some r)" "\<And>m. db_get_by_name ''provider'' m s' = db_get_by_name ''provider'' m s"
    using fetch_route_stored [OF assms(3) _ facts(5,6)] assms(1,4) r by (auto simp: providers_ok_def split: option.splits)
  obtain row where row: "db_get_by_name ''provider'' (sq_provider_name req) s = Some row" "mt_decode pm (ob_payload row) = Some p"
    using facts(3) assms(2) by (auto simp: fetch_provider_def get_message_by_name_def decode_record_def split: option.splits)
  then have name: "pv_name p = sq_provider_name req"
    using assms(1) find_Some_in [OF row(1) [unfolded db_get_by_name_def]] by (fastforce simp: providers_ok_def)
  have prov: "fetch_provider pm (pv_name p) s' = Inr (Some p)"
    using row assms(2) stored(2) name by (simp add: fetch_provider_def get_message_by_name_def decode_record_def map_err_def)
  define entry where "entry = \<lparr>bn_name = n, bn_base_url = rr_endpoint route, bn_protocols = rr_protocols route, bn_api_key = rr_api_key route,
      bn_model_id = sq_model_id req, bn_provider_type = t, bn_timeout_secs = sq_timeout_secs req\<rparr>"
  have "get_cluster_inference rm (sq_route_name req) s' = Inr resp"
    using n stored(1) cfg facts(1,2) resp name by (simp add: get_cluster_inference_def)
  moreover have "resolve_route_by_name pm rm n s' = Inr (Some entry)"
    using stored(1) cfg facts(1,2,4) name prov by (simp add: resolve_route_by_name_def entry_def)
  moreover have "bundle_to_resolved_routes \<lparr>ib_routes = [entry], ib_revision = tag, ib_generated_at_ms = ms\<rparr> = [served_route n resp route]"
    using resolve_provider_auth [OF facts(4)] resp by (simp add: bundle_to_resolved_routes_def entry_def served_route_def)
  ultimately show ?thesis using facts(3,4) resp by auto
qed

definition openai_provider :: provider where
  "openai_provider = \<lparr>pv_id = ''p1'', pv_name = ''oa'', pv_type = ''openai'', pv_credentials = [(''OPENAI_API_KEY'', ''k'')], pv_config = []\<rparr>"

definition stored_provider :: "(provider + inference_route) store" where
  "stored_provider = empty_store\<lparr>st_objects := [\<lparr>ob_type = ''provider'', ob_id = ''p1'', ob_name = ''oa'', ob_payload = Inl openai_provider,
     ob_created_at_ms = 0, ob_updated_at_ms = 0\<rparr>]\<rparr>"

definition example_pm :: "(provider, provider + inference_route) message_type" where
  "example_pm = provider_message Inl (\<lambda>b. case b of Inl p \<Rightarrow> Some p | Inr _ \<Rightarrow> None)"

definition example_rm :: "(inference_route, provider + inference_route) message_type" where
  "example_rm = route_message Inr (\<lambda>b. case b of Inl _ \<Rightarrow> None | Inr r \<Rightarrow> Some r)"

definition example_set :: set_cluster_inference_request where
  "example_set = \<lparr>sq_provider_name = ''oa'', sq_model_id = ''m'', sq_route_name = [], sq_verify = False, sq_no_verify = True, sq_timeout_secs = 0\<rparr>"

definition configured :: "(provider + inference_route) store" where
  "configured = stored_provider\<lparr>st_objects := st_objects stored_provider @ [\<lparr>ob_type = ''inference_route'', ob_id = ''r1'', ob_name = ''inference.local'',
     ob_payload = Inr \<lparr>ir_id = ''r1'', ir_name = ''inference.local'', ir_config = Some \<lparr>ci_provider_name = ''oa'', ci_model_id = ''m'', ci_timeout_secs = 0\<rparr>, ir_version = 1\<rparr>,
     ob_created_at_ms = 5, ob_updated_at_ms = 5\<rparr>]\<rparr>"

lemma example_resolves: "is_ok (resolve_provider_route openai_provider)"
  by code_simp

lemma example_configures:
  "set_cluster_inference example_backend example_pm example_rm ''r1'' 5 example_set stored_provider
    = Inr ((\<lparr>cr_provider_name = ''oa'', cr_model_id = ''m'', cr_version = 1, cr_route_name = ''inference.local'', cr_timeout_secs = 0\<rparr>, []), configured)"
proof -
  obtain route where "resolve_provider_route openai_provider = Inr route" using example_resolves
    by (cases "resolve_provider_route openai_provider") (simp_all add: is_ok_def)
  moreover have "trim ''oa'' = ''oa''" "trim ''m'' = ''m''" "trim [] = []" by code_simp+
  ultimately show ?thesis
    by (simp add: set_cluster_inference_def effective_route_name_def upsert_cluster_inference_route_def example_set_def fetch_provider_def fetch_route_def
        get_message_by_name_def decode_record_def db_get_by_name_def stored_provider_def example_pm_def example_rm_def provider_message_def route_message_def
        map_err_def put_message_def db_put_def configured_def CLUSTER_INFERENCE_ROUTE_NAME_def openai_provider_def split_beta Let_def)
qed

theorem configured_route_is_served_witness:
  "get_cluster_inference example_rm [] configured
    = Inr \<lparr>cr_provider_name = ''oa'', cr_model_id = ''m'', cr_version = 1, cr_route_name = ''inference.local'', cr_timeout_secs = 0\<rparr>"
proof -
  have "validate_provider_fields openai_provider = Inr ()" by code_simp
  then have "providers_ok example_pm stored_provider" "mt_object_type example_pm = ''provider''" "routes_ok example_rm stored_provider"
    "\<not> list_ex (\<lambda>r. ob_id r = ''r1'') (st_objects stored_provider)"
    by (simp_all add: providers_ok_def objects_ok_def stored_provider_def example_pm_def provider_message_def openai_provider_def routes_ok_def
        example_rm_def route_message_def)
  then show ?thesis using configured_route_is_served [OF _ _ _ _ example_configures] by (simp add: example_set_def)
qed


section \<open>What a sandbox serves over time\<close>

text \<open>The caches a sandbox has for a bundle, and the bundle of the last answer of the gateway that was not an error.\<close>

definition caches_of :: "inference_bundle \<Rightarrow> route_caches" where
  "caches_of b = \<lparr>ca_user = fst (partition_routes (bundle_to_resolved_routes b)), ca_system = snd (partition_routes (bundle_to_resolved_routes b)),
     ca_revision = Some (ib_revision b), ca_refreshed = True\<rparr>"

definition received :: "(string, inference_bundle) result list \<Rightarrow> inference_bundle list" where
  "received fs = List.map_filter (\<lambda>f. case f of Inl e \<Rightarrow> None | Inr b \<Rightarrow> Some b) fs"

lemma received_simps [simp]: "received [] = []" "received (Inl e # fs) = received fs" "received (Inr b # fs) = b # received fs"
  by (simp_all add: received_def List.map_filter_def)

text \<open>Bundles of one revision have the same routes.\<close>

definition revisions_tell :: "inference_bundle list \<Rightarrow> bool" where
  "revisions_tell bs \<longleftrightarrow> (\<forall>b1 \<in> set bs. \<forall>b2 \<in> set bs. ib_revision b1 = ib_revision b2 \<longrightarrow> ib_routes b1 = ib_routes b2)"

lemma refresh_tick_caches:
  assumes "ib_revision b' = ib_revision b \<longrightarrow> ib_routes b' = ib_routes b"
  shows "refresh_tick (Inr b') (caches_of b) = caches_of b'"
proof (cases "ib_revision b' = ib_revision b")
  case True
  then have "bundle_to_resolved_routes b' = bundle_to_resolved_routes b" using assms by (simp add: bundle_to_resolved_routes_def)
  then show ?thesis using True by (simp add: refresh_tick_def caches_of_def)
qed (simp add: refresh_tick_def caches_of_def split_beta)

lemma refresh_ticks_caches:
  assumes "revisions_tell (b # received fs)"
  shows "fold refresh_tick fs (caches_of b) = caches_of (last (b # received fs))"
  using assms
proof (induction fs arbitrary: b)
  case (Cons f fs)
  show ?case
  proof (cases f)
    case (Inl e)
    then show ?thesis using Cons.IH [of b] Cons.prems by (simp add: refresh_tick_def)
  next
    case (Inr b')
    then have tell: "revisions_tell (b # b' # received fs)" using Cons.prems by simp
    then have "refresh_tick f (caches_of b) = caches_of b'" unfolding Inr by (intro refresh_tick_caches) (metis revisions_tell_def list.set_intros)
    moreover have "revisions_tell (b' # received fs)" using tell unfolding revisions_tell_def by (meson list.set_intros(2))
    ultimately show ?thesis using Cons.IH [of b'] Inr by simp
  qed
qed simp

text \<open>A sandbox of a gateway that could fetch its first bundle has, after any sequence of refreshes, exactly the routes of the last
  bundle it received, divided into those for the agent and those for the system, provided the revision of a bundle tells its routes
  apart; refreshes that fail change nothing.\<close>

theorem caches_follow_the_gateway:
  assumes "build_inference_context (Some sandbox_id) (Some endpoint) None file (Inr b) = Inr (Some c)"
    and "revisions_tell (b # received fs)"
  shows "ca_user (fold refresh_tick fs c) @ ca_system (fold refresh_tick fs c)
      = (let (agent, sys) = partition_routes (bundle_to_resolved_routes (last (b # received fs))) in agent @ sys)
    \<and> (\<forall>r \<in> set (ca_user (fold refresh_tick fs c)). rr_name r \<noteq> SANDBOX_SYSTEM_ROUTE_NAME)
    \<and> (\<forall>r \<in> set (ca_system (fold refresh_tick fs c)). rr_name r = SANDBOX_SYSTEM_ROUTE_NAME)
    \<and> ca_revision (fold refresh_tick fs c) = Some (ib_revision (last (b # received fs))) \<and> ca_refreshed c"
proof -
  have c: "c = caches_of b"
    using assms(1) by (auto simp: build_inference_context_def infer_route_source_def disable_inference_on_empty_routes_def caches_of_def Let_def split: prod.splits)
  show ?thesis unfolding c refresh_ticks_caches [OF assms(2)]
    by (simp add: caches_of_def partition_routes_def)
qed

definition example_bundle :: inference_bundle where
  "example_bundle = \<lparr>ib_routes = [\<lparr>bn_name = ''inference.local'', bn_base_url = ''https://a'', bn_protocols = [''openai_chat_completions''], bn_api_key = ''k'',
     bn_model_id = ''m'', bn_provider_type = ''openai'', bn_timeout_secs = 0\<rparr>], ib_revision = ''1'', ib_generated_at_ms = 0\<rparr>"

theorem caches_follow_the_gateway_witness:
  "let c = fold refresh_tick [Inl ''unavailable'', Inr (example_bundle\<lparr>ib_routes := [], ib_revision := ''2''\<rparr>), Inl ''unavailable''] (caches_of example_bundle)
   in ca_user c @ ca_system c = [] \<and> ca_revision c = Some ''2''"
proof -
  have "build_inference_context (Some ''s'') (Some ''e'') None (Inl []) (Inr example_bundle) = Inr (Some (caches_of example_bundle))"
    by (simp add: build_inference_context_def infer_route_source_def disable_inference_on_empty_routes_def caches_of_def Let_def split: prod.splits)
  moreover have "revisions_tell (example_bundle # received [Inl ''unavailable'', Inr (example_bundle\<lparr>ib_routes := [], ib_revision := ''2''\<rparr>), Inl ''unavailable''])"
    by (simp add: revisions_tell_def example_bundle_def)
  ultimately show ?thesis using caches_follow_the_gateway
    by (fastforce simp: bundle_to_resolved_routes_def partition_routes_def Let_def simp del: fold_simps)
qed

text \<open>One route that does not resolve takes the whole bundle with it: when the provider of the system route is gone, the gateway has no
  bundle for a sandbox although the agent's route resolves. A sandbox then keeps the routes and keys it has, and one that
  starts has no inference at all, without a later attempt.\<close>

definition broken_system :: "(provider + inference_route) store" where
  "broken_system = configured\<lparr>st_objects := st_objects configured @ [\<lparr>ob_type = ''inference_route'', ob_id = ''r2'', ob_name = ''sandbox-system'',
     ob_payload = Inr \<lparr>ir_id = ''r2'', ir_name = ''sandbox-system'', ir_config = Some \<lparr>ci_provider_name = ''gone'', ci_model_id = ''m'', ci_timeout_secs = 0\<rparr>, ir_version = 1\<rparr>,
     ob_created_at_ms = 6, ob_updated_at_ms = 6\<rparr>]\<rparr>"

theorem system_route_breaks_inference:
  "(\<exists>entry. resolve_route_by_name example_pm example_rm CLUSTER_INFERENCE_ROUTE_NAME broken_system = Inr (Some entry))
   \<and> (\<exists>e. resolve_inference_bundle hash ms example_pm example_rm broken_system = Inl e)
   \<and> refresh_tick (Inl msg) c = c
   \<and> build_inference_context (Some i) (Some a) None file (Inl msg) = Inr None"
proof -
  note defs = resolve_route_by_name_def fetch_route_def fetch_provider_def get_message_by_name_def decode_record_def db_get_by_name_def
    broken_system_def configured_def stored_provider_def example_pm_def example_rm_def provider_message_def route_message_def map_err_def
    CLUSTER_INFERENCE_ROUTE_NAME_def SANDBOX_SYSTEM_ROUTE_NAME_def
  obtain t route where "resolve_provider_route openai_provider = Inr (t, route)" using example_resolves
    by (cases "resolve_provider_route openai_provider") (auto simp: is_ok_def)
  moreover have "trim ''oa'' = ''oa''" "trim ''m'' = ''m''" "trim ''gone'' = ''gone''" by code_simp+
  ultimately have user: "\<exists>entry. resolve_route_by_name example_pm example_rm CLUSTER_INFERENCE_ROUTE_NAME broken_system = Inr (Some entry)"
    and "\<exists>e. resolve_route_by_name example_pm example_rm SANDBOX_SYSTEM_ROUTE_NAME broken_system = Inl e"
    by (simp_all add: defs)
  then obtain entry e where "resolve_route_by_name example_pm example_rm CLUSTER_INFERENCE_ROUTE_NAME broken_system = Inr (Some entry)"
    "resolve_route_by_name example_pm example_rm SANDBOX_SYSTEM_ROUTE_NAME broken_system = Inl e" by blast
  then have "resolve_inference_bundle hash ms example_pm example_rm broken_system = Inl e" by (simp add: resolve_inference_bundle_def)
  then show ?thesis using user by (simp add: refresh_tick_def build_inference_context_def infer_route_source_def)
qed

end
