(* ===== verification/Exec_Stream.thy ===== *)
theory Exec_Stream
  imports Ssh_Handshake Proxy_Net
begin

text \<open>
  The execution of a command behind the exec handler (\<open>grpc/sandbox.rs\<close>): the single-use proxy that carries the SSH
  session to the sandbox, the session itself, the retries with their backoff and the events the client receives. Sockets, name
  resolution and the SSH library answer through arguments; an attempt is the sequence of requests it makes and events it emits.
\<close>

section \<open>The single-use proxy\<close>

definition is_safe_ssh_proxy_target :: "ip_addr \<Rightarrow> bool" where
  "is_safe_ssh_proxy_target ip = (case ip of
     V4 v4 \<Rightarrow> \<not> v4_is_loopback v4 \<and> \<not> v4_is_link_local v4
   | V6 v6 \<Rightarrow> if v6_is_loopback v6 then False
       else (case to_ipv4_mapped v6 of Some v4 \<Rightarrow> \<not> v4_is_loopback v4 \<and> \<not> v4_is_link_local v4 | None \<Rightarrow> True))"

text \<open>What the task meets: the local connection, the resolver, the connection to the sandbox, the clock (in seconds, if it is
  representable), fresh identifiers, and the bytes of the answer, \<open>None\<close> for a failing read.\<close>

record ssh_net =
  sn_accepted :: bool
  sn_lookup_host :: "string \<Rightarrow> u16 \<Rightarrow> (string, socket_addr list) result"
  sn_connects :: "socket_addr \<Rightarrow> bool"
  sn_now_secs :: "int option"
  sn_token :: string
  sn_nonce :: string
  sn_written :: bool
  sn_response :: "string option"

text \<open>The address the session is copied to and the preface sent first; \<open>None\<close> when the task gives up.\<close>

definition ssh_proxy_task :: "mac \<Rightarrow> ssh_net \<Rightarrow> string \<Rightarrow> u16 \<Rightarrow> string \<Rightarrow> (socket_addr \<times> string) option" where
  "ssh_proxy_task hmac net target_host target_port handshake_secret =
     (if \<not> sn_accepted net then None
      else case sn_lookup_host net target_host target_port of
        Inl e \<Rightarrow> None
      | Inr [] \<Rightarrow> None
      | Inr (resolved # addrs) \<Rightarrow>
          if \<not> is_safe_ssh_proxy_target (so_ip resolved) then None
          else if \<not> sn_connects net resolved then None
          else (case sn_now_secs net of None \<Rightarrow> None
            | Some timestamp \<Rightarrow> let preface = build_preface hmac (sn_token net) handshake_secret timestamp (sn_nonce net) in
                if \<not> sn_written net then None
                else (case sn_response net of None \<Rightarrow> None
                  | Some response \<Rightarrow> if handshake_accepted response then Some (resolved, preface) else None)))"

section \<open>The SSH session\<close>

datatype exec_event = Stdout string | Stderr string | Exit int

datatype channel_msg = ChannelData string | ExtendedData string | ExitStatus u32 | ChannelClose | OtherMsg

text \<open>What an attempt does, in order. A request is recorded when it is made, whatever its answer.\<close>

datatype exec_effect = Backoff nat | AllocatePty | RunCommand string | SendStdin string | CloseStdin | Emit exec_event

text \<open>The answers to one attempt, with the messages of the channel until it ends, and after how many effects the timer fires.\<close>

record ssh_answers =
  sa_proxy :: "(string, unit) result"
  sa_connect :: "(string, unit) result"
  sa_transport :: "(string, unit) result"
  sa_authenticated :: "(string, bool) result"
  sa_open :: "(string, unit) result"
  sa_pty :: "(string, unit) result"
  sa_exec :: "(string, unit) result"
  sa_stdin :: "(string, unit) result"
  sa_eof :: "(string, unit) result"
  sa_messages :: "channel_msg list"
  sa_timer :: "nat option"

definition exit_code_of :: "u32 \<Rightarrow> int" where
  "exit_code_of exit_status = (if uint exit_status \<le> 2 ^ 31 - 1 then uint exit_status else 2 ^ 31 - 1)"

fun forward :: "channel_msg list \<Rightarrow> int option \<Rightarrow> exec_event list \<times> int option" where
  "forward [] code = ([], code)"
| "forward (ChannelData d # ms) code = apfst ((#) (Stdout d)) (forward ms code)"
| "forward (ExtendedData d # ms) code = apfst ((#) (Stderr d)) (forward ms code)"
| "forward (ExitStatus st # ms) code = forward ms (Some (exit_code_of st))"
| "forward (ChannelClose # ms) code = ([], code)"
| "forward (OtherMsg # ms) code = forward ms code"

type_synonym attempt_result = "(status, int) result \<times> exec_effect list"

text \<open>A step of the session that may fail, with the effects before and after it.\<close>

definition ssh_try :: "string \<Rightarrow> exec_effect list \<Rightarrow> (string, 'a) result \<Rightarrow> ('a \<Rightarrow> attempt_result) \<Rightarrow> attempt_result" where
  "ssh_try what effects answer k = (case answer of
     Inl e \<Rightarrow> (Inl (internal (what @ '': '' @ e)), effects)
   | Inr v \<Rightarrow> apsnd ((@) effects) (k v))"

definition run_exec_with_russh :: "ssh_answers \<Rightarrow> string \<Rightarrow> string \<Rightarrow> bool \<Rightarrow> attempt_result" where
  "run_exec_with_russh a command stdin_payload request_tty =
     (if NUL \<in> set command then (Inl (invalid_argument ''command contains null bytes at transport boundary''), [])
      else if length command > MAX_COMMAND_STRING_LEN
      then (Inl (invalid_argument (''command exceeds '' @ show_nat MAX_COMMAND_STRING_LEN @ '' byte limit at transport boundary'')), [])
      else ssh_try ''failed to connect to ssh proxy'' [] (sa_connect a) (\<lambda>_.
        ssh_try ''failed to establish ssh transport'' [] (sa_transport a) (\<lambda>_.
        ssh_try ''failed to authenticate ssh session'' [] (sa_authenticated a) (\<lambda>success.
        if \<not> success then (Inl (Status PermissionDenied ''ssh authentication rejected by sandbox''), [])
        else ssh_try ''failed to open ssh channel'' [] (sa_open a) (\<lambda>_.
        ssh_try ''failed to allocate PTY'' (if request_tty then [AllocatePty] else []) (if request_tty then sa_pty a else Inr ()) (\<lambda>_.
        ssh_try ''failed to execute command over ssh'' [RunCommand command] (sa_exec a) (\<lambda>_.
        ssh_try ''failed to send ssh stdin payload'' (if stdin_payload = [] then [] else [SendStdin stdin_payload])
            (if stdin_payload = [] then Inr () else sa_stdin a) (\<lambda>_.
        ssh_try ''failed to close ssh stdin'' [CloseStdin] (sa_eof a) (\<lambda>_.
        case forward (sa_messages a) None of (events, exit_code) \<Rightarrow>
          (Inr (case exit_code of Some c \<Rightarrow> c | None \<Rightarrow> 1), map Emit events))))))))))"

section \<open>Retries\<close>

definition SSH_CONNECT_MAX_ATTEMPTS :: nat where "SSH_CONNECT_MAX_ATTEMPTS = 6"

text \<open>Durations in milliseconds.\<close>

definition SSH_CONNECT_INITIAL_BACKOFF :: nat where "SSH_CONNECT_INITIAL_BACKOFF = 250"

definition SSH_CONNECT_MAX_BACKOFF :: nat where "SSH_CONNECT_MAX_BACKOFF = 2000"

definition ssh_backoff :: "nat \<Rightarrow> exec_effect list" where
  "ssh_backoff attempt = (if attempt > 0 then [Backoff (min (SSH_CONNECT_INITIAL_BACKOFF * 2 ^ (attempt - 1)) SSH_CONNECT_MAX_BACKOFF)] else [])"

fun exec_attempts :: "(nat \<Rightarrow> ssh_answers) \<Rightarrow> exec_plan \<Rightarrow> nat \<Rightarrow> nat \<Rightarrow> status option \<Rightarrow> (status, unit) result \<times> exec_effect list" where
  "exec_attempts answers plan attempt 0 last_err =
     (Inl (case last_err of Some e \<Rightarrow> e | None \<Rightarrow> internal ''ssh connection failed after exhausting retries''), [])"
| "exec_attempts answers plan attempt (Suc left) last_err =
     (let a = answers attempt; wait = ssh_backoff attempt in
      case sa_proxy a of
        Inl e \<Rightarrow> apsnd ((@) wait) (exec_attempts answers plan (Suc attempt) left (Some (internal (''failed to start ssh proxy: '' @ e))))
      | Inr _ \<Rightarrow> (case run_exec_with_russh a (xp_command plan) (xp_stdin plan) (xp_tty plan) of (outcome, effects) \<Rightarrow>
          case (if xp_timeout_seconds plan = 0 then None else sa_timer a) of
            Some n \<Rightarrow> (Inr (), wait @ take n effects @ [Emit (Exit 124)])
          | None \<Rightarrow> (case outcome of
              Inr exit_code \<Rightarrow> (Inr (), wait @ effects @ [Emit (Exit exit_code)])
            | Inl st \<Rightarrow> if is_retryable_ssh_error st \<and> attempt + 1 < SSH_CONNECT_MAX_ATTEMPTS
                then apsnd ((@) (wait @ effects)) (exec_attempts answers plan (Suc attempt) left (Some st))
                else (Inl st, wait @ effects))))"

definition stream_exec_over_ssh :: "(nat \<Rightarrow> ssh_answers) \<Rightarrow> exec_plan \<Rightarrow> (status, unit) result \<times> exec_effect list" where
  "stream_exec_over_ssh answers plan = exec_attempts answers plan 0 SSH_CONNECT_MAX_ATTEMPTS None"

text \<open>The stream the client receives: the emitted events, and the error of the session if it fails.\<close>

definition emitted :: "exec_effect list \<Rightarrow> exec_event list" where
  "emitted effects = List.map_filter (\<lambda>e. case e of Emit ev \<Rightarrow> Some ev | _ \<Rightarrow> None) effects"

definition exec_stream :: "(nat \<Rightarrow> ssh_answers) \<Rightarrow> exec_plan \<Rightarrow> (status, exec_event) result list" where
  "exec_stream answers plan = (case stream_exec_over_ssh answers plan of (r, effects) \<Rightarrow>
     map Inr (emitted effects) @ (case r of Inl e \<Rightarrow> [Inl e] | Inr _ \<Rightarrow> []))"

section \<open>One attempt\<close>

fun is_output :: "exec_event \<Rightarrow> bool" where
  "is_output (Exit c) = False"
| "is_output ev = True"

fun is_run :: "exec_effect \<Rightarrow> bool" where
  "is_run (RunCommand c) = True"
| "is_run e = False"

lemma emitted_simps [simp]:
  "emitted [] = []" "emitted (Emit ev # es) = ev # emitted es" "emitted (Backoff n # es) = emitted es"
  "emitted (AllocatePty # es) = emitted es" "emitted (RunCommand c # es) = emitted es" "emitted (SendStdin i # es) = emitted es"
  "emitted (CloseStdin # es) = emitted es" "emitted (es @ fs) = emitted es @ emitted fs" "emitted (map Emit evs) = evs"
  "emitted (ssh_backoff n) = []"
  by (simp_all add: emitted_def List.map_filter_def ssh_backoff_def comp_def)

lemma emitted_take: "set (emitted (take n es)) \<subseteq> set (emitted es)"
  by (auto simp: emitted_def List.map_filter_def dest: in_set_takeD)

lemma forward_output: "list_all is_output (fst (forward ms code))"
  by (induction ms code rule: forward.induct) simp_all

text \<open>What is known of an attempt: the command it runs, at most once; it emits output only; and nothing when it fails.\<close>

definition attempt_ok :: "string \<Rightarrow> attempt_result \<Rightarrow> bool" where
  "attempt_ok command r \<longleftrightarrow> (case r of (outcome, effects) \<Rightarrow>
     list_all is_output (emitted effects) \<and> (\<forall>e. outcome = Inl e \<longrightarrow> emitted effects = [])
     \<and> (\<forall>c. RunCommand c \<in> set effects \<longrightarrow> c = command) \<and> length (filter is_run effects) \<le> 1)"

lemma attempt_ok_try:
  assumes "emitted effects = []" "\<forall>e \<in> set effects. \<not> is_run e" "\<And>v. answer = Inr v \<Longrightarrow> attempt_ok command (k v)"
  shows "attempt_ok command (ssh_try what effects answer k)"
proof -
  have f: "filter is_run effects = []" using assms(2) by (simp add: filter_empty_conv)
  have r: "RunCommand c \<notin> set effects" for c using assms(2) by fastforce
  show ?thesis
    using assms by (cases answer; cases "k (projr answer)") (fastforce simp: ssh_try_def attempt_ok_def f r)+
qed

lemma attempt_ok_run:
  assumes "\<And>v. answer = Inr v \<Longrightarrow> attempt_ok command (k v) \<and> filter is_run (snd (k v)) = []"
  shows "attempt_ok command (ssh_try what [RunCommand command] answer k)"
  using assms by (cases answer; cases "k (projr answer)") (fastforce simp: ssh_try_def attempt_ok_def)+

lemma no_run_try:
  assumes "\<forall>e \<in> set effects. \<not> is_run e" "\<And>v. answer = Inr v \<Longrightarrow> filter is_run (snd (k v)) = []"
  shows "filter is_run (snd (ssh_try what effects answer k)) = []"
  using assms by (cases answer; cases "k (projr answer)") (auto simp: ssh_try_def filter_empty_conv)

lemma run_exec_ok: "attempt_ok command (run_exec_with_russh a command stdin_payload request_tty)"
proof -
  have out: "attempt_ok command (Inr c, map Emit events)" "filter is_run (map Emit events) = []" if "list_all is_output events" for c events
    using that by (auto simp: attempt_ok_def filter_empty_conv)
  have fwd: "list_all is_output events" if "forward ms None = (events, x)" for ms events x
    using forward_output [of ms None] that by simp
  show ?thesis unfolding run_exec_with_russh_def
    by (auto intro!: attempt_ok_try attempt_ok_run no_run_try out fwd split: prod.split simp: attempt_ok_def [of _ "(Inl _, [])"] split_beta)
qed

section \<open>The stream of a command\<close>

definition stream_ok :: "(status, unit) result \<times> exec_effect list \<Rightarrow> bool" where
  "stream_ok p \<longleftrightarrow> (case p of (Inr _, effects) \<Rightarrow> \<exists>out code. emitted effects = out @ [Exit code] \<and> list_all is_output out
     | (Inl _, effects) \<Rightarrow> emitted effects = [])"

lemma stream_ok_simps [simp]:
  "emitted es = [] \<Longrightarrow> stream_ok (apsnd ((@) es) p) = stream_ok p" "stream_ok (Inl e, es) \<longleftrightarrow> emitted es = []"
  "list_all is_output (emitted es) \<Longrightarrow> stream_ok (Inr u, ssh_backoff n @ es @ [Emit (Exit c)])"
  by (cases p; cases "fst p"; auto simp: stream_ok_def)+

lemma exec_attempts_shape: "stream_ok (exec_attempts answers plan attempt left last_err)"
proof (induction left arbitrary: attempt last_err)
  case (Suc left)
  obtain outcome effs where run: "run_exec_with_russh (answers attempt) (xp_command plan) (xp_stdin plan) (xp_tty plan) = (outcome, effs)" by fastforce
  have ok: "attempt_ok (xp_command plan) (outcome, effs)" using run_exec_ok run by metis
  have "list_all is_output (emitted effs)" using ok by (simp add: attempt_ok_def)
  moreover from this have "list_all is_output (emitted (take n effs))" for n using emitted_take [of n effs] by (auto simp: list_all_iff)
  moreover have "emitted effs = []" if "outcome = Inl e" for e using ok that by (simp add: attempt_ok_def)
  ultimately show ?case using Suc.IH by (auto simp: Let_def run split: sum.split option.split)
qed simp

text \<open>The client of an exec request receives the output of the command followed by exactly one exit event, or one error and
  nothing else; an error after output, a second exit event or output of two attempts cannot occur.\<close>

theorem exec_stream_shape:
  "(\<exists>out code. exec_stream answers plan = map Inr out @ [Inr (Exit code)] \<and> list_all is_output out) \<or> (\<exists>e. exec_stream answers plan = [Inl e])"
proof -
  obtain r effects where s: "stream_exec_over_ssh answers plan = (r, effects)" by fastforce
  then have "stream_ok (r, effects)" using exec_attempts_shape by (metis stream_exec_over_ssh_def)
  then show ?thesis using s by (cases r) (auto simp: exec_stream_def stream_ok_def)
qed

lemma exec_attempts_runs:
  "(\<forall>c. RunCommand c \<in> set (snd (exec_attempts answers plan attempt left last_err)) \<longrightarrow> c = xp_command plan)
    \<and> length (filter is_run (snd (exec_attempts answers plan attempt left last_err))) \<le> left"
proof (induction left arbitrary: attempt last_err)
  case (Suc left)
  obtain outcome effs where run: "run_exec_with_russh (answers attempt) (xp_command plan) (xp_stdin plan) (xp_tty plan) = (outcome, effs)" by fastforce
  have ok: "attempt_ok (xp_command plan) (outcome, effs)" using run_exec_ok run by metis
  have one: "RunCommand c \<in> set effs \<Longrightarrow> c = xp_command plan" "length (filter is_run effs) \<le> 1" for c using ok by (auto simp: attempt_ok_def)
  have "length (filter is_run (take n effs)) \<le> length (filter is_run effs)" for n
    by (metis append_take_drop_id filter_append length_append le_add1)
  then have cut: "length (filter is_run (take n effs)) \<le> Suc left" for n using one(2) by (metis One_nat_def Suc_le_mono le0 le_trans)
  have wait: "RunCommand c \<notin> set (ssh_backoff attempt)" "filter is_run (ssh_backoff attempt) = []" for c by (simp_all add: ssh_backoff_def)
  have IH: "RunCommand c \<in> set (snd (exec_attempts answers plan (Suc attempt) left le)) \<Longrightarrow> c = xp_command plan"
    "length (filter is_run (snd (exec_attempts answers plan (Suc attempt) left le))) \<le> left" for c le using Suc.IH by blast+
  have step: "length (filter is_run effs) + length (filter is_run (snd (exec_attempts answers plan (Suc attempt) left le))) \<le> Suc left" for le
    using one(2) IH(2) [of le] by linarith
  show ?case
    using IH one cut step wait by (auto simp: Let_def run le_SucI dest: in_set_takeD split: sum.splits option.splits if_splits)
qed simp

section \<open>Commands of the handler\<close>

lemma shell_escape_no_NUL: "shell_escape v = Inr e \<Longrightarrow> NUL \<notin> set e"
proof -
  assume e: "shell_escape v = Inr e"
  then have v: "NUL \<notin> set v" by (auto simp: shell_escape_def list_ex_iff split: if_splits)
  then have "NUL \<notin> set (replace_all [SQ] [SQ, DQ, SQ, DQ, SQ] v)"
    by (induction v) (auto simp: replace_all_char_Nil replace_all_char_Cons)
  then show ?thesis using e v by (auto simp: shell_escape_def split: if_splits)
qed

lemma valid_env_key_no_NUL: "is_valid_env_key key \<Longrightarrow> NUL \<notin> set key"
proof -
  have "\<not> is_ascii_alphanumeric NUL" "\<not> is_ascii_alphabetic NUL" by code_simp+
  then show "is_valid_env_key key \<Longrightarrow> NUL \<notin> set key" by (cases key) (auto simp: is_valid_env_key_def list_all_iff)
qed

lemma map_result_set: "map_result f xs = Inr ys \<Longrightarrow> y \<in> set ys \<Longrightarrow> \<exists>x \<in> set xs. f x = Inr y"
  by (induction xs arbitrary: ys) (auto simp: and_then_Inr)

lemma join_set: "c \<in> set (join sep ps) \<Longrightarrow> c \<in> set sep \<or> (\<exists>p \<in> set ps. c \<in> set p)"
  by (induction sep ps rule: join.induct) auto

lemma command_no_NUL:
  assumes "build_remote_exec_command req = Inr line" "list_all (\<lambda>(key, _). is_valid_env_key key) (ex_environment req)"
  shows "NUL \<notin> set line \<and> length line \<le> MAX_COMMAND_STRING_LEN"
proof -
  obtain env_parts arg_parts where p: "map_result (\<lambda>(key, v). and_then (shell_escape v) (\<lambda>e. Inr (key @ ''='' @ e))) (sort_key fst (ex_environment req)) = Inr env_parts"
    "map_result shell_escape (ex_command req) = Inr arg_parts" "length line \<le> MAX_COMMAND_STRING_LEN"
    and line: "line = join '' '' (env_parts @ arg_parts) \<or> (\<exists>w. shell_escape (ex_workdir req) = Inr w \<and> line = ''cd '' @ w @ '' && '' @ join '' '' (env_parts @ arg_parts))"
    using assms(1) by (auto simp: build_remote_exec_command_def and_then_Inr Let_def split: if_splits)
  have "NUL \<notin> set q" if "q \<in> set env_parts" for q
    using map_result_set [OF p(1) that] assms(2) shell_escape_no_NUL valid_env_key_no_NUL by (fastforce simp: and_then_Inr list_all_iff)
  moreover have "NUL \<notin> set q" if "q \<in> set arg_parts" for q using map_result_set [OF p(2) that] shell_escape_no_NUL by blast
  ultimately have "NUL \<notin> set (join '' '' (env_parts @ arg_parts))" using join_set [of NUL] by fastforce
  then show ?thesis using line p(3) shell_escape_no_NUL by auto
qed

lemma exec_plan_command:
  assumes "handle_exec_sandbox mt agent_pod_ip ns ssh_port store req = Inr plan"
  shows "NUL \<notin> set (xp_command plan) \<and> length (xp_command plan) \<le> MAX_COMMAND_STRING_LEN"
proof -
  have "list_all (\<lambda>(key, _). is_valid_env_key key) (ex_environment req)"
    using assms by (auto simp: handle_exec_sandbox_def list_ex_iff list_all_iff split: if_splits)
  moreover have "build_remote_exec_command req = Inr (xp_command plan)"
    using assms by (auto simp: handle_exec_sandbox_def and_then_Inr map_err_def split: if_splits option.splits sum.splits)
  ultimately show ?thesis using command_no_NUL by blast
qed

text \<open>An attempt after which the gateway tries again, and one in which the session runs to its end.\<close>

definition retried :: "exec_plan \<Rightarrow> ssh_answers \<Rightarrow> bool" where
  "retried plan a \<longleftrightarrow> (case sa_proxy a of Inl _ \<Rightarrow> True
     | Inr _ \<Rightarrow> sa_timer a = None \<and> (case fst (run_exec_with_russh a (xp_command plan) (xp_stdin plan) (xp_tty plan)) of
         Inl st \<Rightarrow> is_retryable_ssh_error st | Inr _ \<Rightarrow> False))"

definition session_runs :: "exec_plan \<Rightarrow> ssh_answers \<Rightarrow> bool" where
  "session_runs plan a \<longleftrightarrow> sa_proxy a = Inr () \<and> sa_timer a = None \<and> sa_connect a = Inr () \<and> sa_transport a = Inr ()
     \<and> sa_authenticated a = Inr True \<and> sa_open a = Inr () \<and> (xp_tty plan \<longrightarrow> sa_pty a = Inr ()) \<and> sa_exec a = Inr ()
     \<and> (xp_stdin plan \<noteq> [] \<longrightarrow> sa_stdin a = Inr ()) \<and> sa_eof a = Inr ()"

definition session_events :: "channel_msg list \<Rightarrow> exec_event list" where
  "session_events ms = (case forward ms None of (events, exit_code) \<Rightarrow> events @ [Exit (case exit_code of Some c \<Rightarrow> c | None \<Rightarrow> 1)])"

lemma exec_attempts_reach:
  assumes "NUL \<notin> set (xp_command plan)" "length (xp_command plan) \<le> MAX_COMMAND_STRING_LEN"
    and "attempt \<le> n" "n < attempt + left" "attempt + left = SSH_CONNECT_MAX_ATTEMPTS"
    and "\<forall>k \<in> {attempt..<n}. retried plan (answers k)" "session_runs plan (answers n)"
  shows "fst (exec_attempts answers plan attempt left last_err) = Inr ()
    \<and> emitted (snd (exec_attempts answers plan attempt left last_err)) = session_events (sa_messages (answers n))"
  using assms
proof (induction left arbitrary: attempt last_err)
  case (Suc left)
  show ?case
  proof (cases "attempt = n")
    case True
    then show ?thesis using Suc.prems
      by (auto simp: run_exec_with_russh_def ssh_try_def session_runs_def session_events_def Let_def split: prod.split)
  next
    case False
    then have r: "retried plan (answers attempt)" using Suc.prems by simp
    have IH: "fst (exec_attempts answers plan (Suc attempt) left le) = Inr ()
      \<and> emitted (snd (exec_attempts answers plan (Suc attempt) left le)) = session_events (sa_messages (answers n))" for le
      using Suc.prems False by (intro Suc.IH) auto
    have more: "Suc attempt < SSH_CONNECT_MAX_ATTEMPTS" using Suc.prems False by auto
    obtain outcome effs where run: "run_exec_with_russh (answers attempt) (xp_command plan) (xp_stdin plan) (xp_tty plan) = (outcome, effs)" by fastforce
    have "emitted effs = []" if "outcome = Inl e" for e
      using run_exec_ok [of "xp_command plan" "answers attempt" "xp_stdin plan" "xp_tty plan"] run that by (simp add: attempt_ok_def)
    then show ?thesis using r IH more by (auto simp: retried_def run Let_def split: sum.splits)
  qed
qed simp


section \<open>The target of the proxy\<close>

lemma proxy_task_guarded:
  assumes "ssh_proxy_task hmac net host port secret = Some (addr, preface)"
  obtains addrs ts where "sn_lookup_host net host port = Inr (addr # addrs)" "is_safe_ssh_proxy_target (so_ip addr)" "sn_connects net addr"
    "preface = build_preface hmac (sn_token net) secret ts (sn_nonce net)" "sn_now_secs net = Some ts"
  using assms by (auto simp: ssh_proxy_task_def Let_def split: if_splits sum.splits list.splits option.splits)

text \<open>The guard is weaker than the one of the sandbox proxy: the unspecified address and IPv6 link-local addresses pass it.\<close>

theorem proxy_target_gap:
  "is_safe_ssh_proxy_target (V4 0) \<and> is_safe_ssh_proxy_target (V6 0) \<and> is_safe_ssh_proxy_target (V6 0xfe800000000000000000000000000001)
    \<and> is_always_blocked_ip (V4 0) \<and> is_always_blocked_ip (V6 0) \<and> is_always_blocked_ip (V6 0xfe800000000000000000000000000001)"
  by (simp add: is_safe_ssh_proxy_target_def is_always_blocked_ip_def v4_is_loopback_def v4_is_link_local_def v4_is_unspecified_def
      v6_is_loopback_def v6_is_unspecified_def to_ipv4_mapped_def octet_def segment0_def)

section \<open>An example run\<close>

definition exec_store :: "unit sandbox store" where
  "exec_store = \<lparr>st_objects = [\<lparr>ob_type = ''sandbox'', ob_id = ''s1'', ob_name = ''dev'', ob_payload = \<lparr>sb_id = ''s1'', sb_name = ''dev'',
     sb_namespace = ''ns'', sb_spec = None, sb_status = None, sb_phase = SANDBOX_PHASE_READY, sb_created_at_ms = 0, sb_current_policy_version = 0\<rparr>,
     ob_created_at_ms = 0, ob_updated_at_ms = 0\<rparr>], st_policies = [], st_chunks = []\<rparr>"

definition exec_codec :: "(unit sandbox, unit sandbox) message_type" where
  "exec_codec = \<lparr>mt_object_type = ''sandbox'', mt_object_id = sb_id, mt_object_name = sb_name, mt_encode = (\<lambda>s. s), mt_decode = Some\<rparr>"

definition exec_request :: exec_sandbox_request where
  "exec_request = \<lparr>ex_sandbox_id = ''s1'', ex_command = [''ls''], ex_workdir = [], ex_environment = [], ex_timeout_seconds = 0, ex_stdin = [], ex_tty = False\<rparr>"

definition ls_plan :: exec_plan where
  "ls_plan = \<lparr>xp_sandbox_id = ''s1'', xp_target = (''dev.ns.svc.cluster.local'', 2222), xp_command = ''ls'', xp_stdin = [], xp_timeout_seconds = 0, xp_tty = False\<rparr>"

definition ls_answers :: "nat \<Rightarrow> ssh_answers" where
  "ls_answers k = \<lparr>sa_proxy = Inr (), sa_connect = (if k = 0 then Inl ''Connection refused'' else Inr ()), sa_transport = Inr (), sa_authenticated = Inr True,
     sa_open = Inr (), sa_pty = Inr (), sa_exec = Inr (), sa_stdin = Inr (), sa_eof = Inr (),
     sa_messages = [ChannelData ''a'', ExitStatus 0, ExtendedData ''b'', ChannelClose, ChannelData ''c''], sa_timer = None\<rparr>"

lemma ls_plan_accepted: "handle_exec_sandbox exec_codec (\<lambda>_. Inr None) ''ns'' 2222 exec_store exec_request = Inr ls_plan"
  by (simp add: handle_exec_sandbox_def exec_request_def exec_store_def exec_codec_def ls_plan_def get_message_def decode_record_def db_get_def
      SANDBOX_PHASE_READY_def resolve_sandbox_exec_target_def build_remote_exec_command_def validate_exec_request_fields_def validate_exec_args.simps
      MAX_EXEC_COMMAND_ARGS_def MAX_EXEC_ARG_LEN_def reject_control_chars_def shell_escape_def shell_safe_byte_def is_ascii_alphanumeric_def
      is_ascii_alphabetic_def is_ascii_digit_def is_ascii_upper_def is_ascii_lower_def MAX_COMMAND_STRING_LEN_def map_err_def)

lemma ls_refused: "run_exec_with_russh (ls_answers 0) ''ls'' [] False = (Inl (internal ''failed to connect to ssh proxy: Connection refused''), [])"
  by (simp add: run_exec_with_russh_def ls_answers_def ssh_try_def MAX_COMMAND_STRING_LEN_def)


end
