(* ===== verification/Sandbox_Pod.thy ===== *)
theory Sandbox_Pod
  imports Exec_Command Opa_Props "HOL-Library.AList"
begin

text \<open>
  The Kubernetes resource of a sandbox (\<open>crates/openshell-server/src/sandbox/mod.rs\<close>): conversion of the spec and its template
  to the pod template, with the side-loaded supervisor, the workspace volume, the environment and GPU limits, and the
  labels that tie the resource to the sandbox. The conversion of a number of a \<open>Struct\<close> to JSON is an argument.
\<close>

section \<open>Values of a template\<close>

datatype 'n proto_value = PvNull | PvNumber 'n | PvString string | PvBool bool | PvStruct "(string \<times> 'n proto_value) list" | PvList "'n proto_value list"

type_synonym 'n proto_struct = "(string \<times> 'n proto_value) list"

primrec proto_value_to_json :: "('n \<Rightarrow> json) \<Rightarrow> 'n proto_value \<Rightarrow> json" where
  "proto_value_to_json num PvNull = JNull"
| "proto_value_to_json num (PvNumber n) = num n"
| "proto_value_to_json num (PvString s) = JStr s"
| "proto_value_to_json num (PvBool b) = JBool b"
| "proto_value_to_json num (PvStruct kvs) = obj (map (map_prod id (proto_value_to_json num)) kvs)"
| "proto_value_to_json num (PvList vs) = JArr (map (proto_value_to_json num) vs)"

definition struct_to_json :: "('n \<Rightarrow> json) \<Rightarrow> 'n proto_struct option \<Rightarrow> json option" where
  "struct_to_json num input = map_option (\<lambda>kvs. obj (map (map_prod id (proto_value_to_json num)) kvs)) input"

section \<open>Editing JSON\<close>

text \<open>\<open>entry(key).or_insert(default)\<close> followed by a change of the value, and pushing onto an array.\<close>

definition jentry :: "json \<Rightarrow> string \<Rightarrow> json \<Rightarrow> (json \<Rightarrow> json) \<Rightarrow> json" where
  "jentry o0 key default0 f = jinsert o0 key (f (case jget o0 key of Some v \<Rightarrow> v | None \<Rightarrow> default0))"

definition jpush :: "json \<Rightarrow> json \<Rightarrow> json" where
  "jpush x v = (case v of JArr xs \<Rightarrow> JArr (xs @ [x]) | _ \<Rightarrow> v)"

definition json_map :: "string str_map \<Rightarrow> json" where
  "json_map m = obj (map (map_prod id JStr) m)"

definition is_object :: "json \<Rightarrow> bool" where
  "is_object j = (case j of JObj _ \<Rightarrow> True | _ \<Rightarrow> False)"

section \<open>Environment\<close>

definition env_item :: "string \<Rightarrow> string \<Rightarrow> json" where
  "env_item name value = obj [(''name'', JStr name), (''value'', JStr value)]"

primrec upsert_env :: "json list \<Rightarrow> string \<Rightarrow> string \<Rightarrow> json list" where
  "upsert_env [] name value = [env_item name value]"
| "upsert_env (item # env) name value =
     (if as_str (jget item ''name'') = Some name then env_item name value # env else item # upsert_env env name value)"

definition apply_env_map :: "json list \<Rightarrow> string str_map \<Rightarrow> json list" where
  "apply_env_map env values = foldl (\<lambda>e (key, value). upsert_env e key value) env values"

record cluster_config =
  kc_namespace :: string
  kc_default_image :: string
  kc_image_pull_policy :: string
  kc_grpc_endpoint :: string
  kc_ssh_listen_addr :: string
  kc_ssh_handshake_secret :: string
  kc_ssh_handshake_skew_secs :: nat
  kc_client_tls_secret_name :: string
  kc_host_gateway_ip :: string

text \<open>The variables the supervisor needs, in the order they are set.\<close>

definition required_env :: "cluster_config \<Rightarrow> string \<Rightarrow> string \<Rightarrow> string str_map" where
  "required_env cfg sandbox_id sandbox_name =
     [(''OPENSHELL_SANDBOX_ID'', sandbox_id), (''OPENSHELL_SANDBOX'', sandbox_name), (''OPENSHELL_ENDPOINT'', kc_grpc_endpoint cfg),
      (''OPENSHELL_SANDBOX_COMMAND'', ''sleep infinity'')]
     @ (if kc_ssh_listen_addr cfg \<noteq> [] then [(''OPENSHELL_SSH_LISTEN_ADDR'', kc_ssh_listen_addr cfg)] else [])
     @ [(''OPENSHELL_SSH_HANDSHAKE_SECRET'', kc_ssh_handshake_secret cfg),
        (''OPENSHELL_SSH_HANDSHAKE_SKEW_SECS'', show_nat (kc_ssh_handshake_skew_secs cfg))]
     @ (if kc_client_tls_secret_name cfg \<noteq> [] then
         [(''OPENSHELL_TLS_CA'', ''/etc/openshell-tls/client/ca.crt''), (''OPENSHELL_TLS_CERT'', ''/etc/openshell-tls/client/tls.crt''),
          (''OPENSHELL_TLS_KEY'', ''/etc/openshell-tls/client/tls.key'')] else [])"

definition apply_required_env :: "cluster_config \<Rightarrow> string \<Rightarrow> string \<Rightarrow> json list \<Rightarrow> json list" where
  "apply_required_env cfg sandbox_id sandbox_name env = foldl (\<lambda>e (key, value). upsert_env e key value) env (required_env cfg sandbox_id sandbox_name)"

definition build_env_list :: "cluster_config \<Rightarrow> string str_map \<Rightarrow> string str_map \<Rightarrow> string \<Rightarrow> string \<Rightarrow> json list" where
  "build_env_list cfg template_environment spec_environment sandbox_id sandbox_name =
     apply_required_env cfg sandbox_id sandbox_name (apply_env_map (apply_env_map [] template_environment) spec_environment)"

section \<open>Supervisor and workspace\<close>

definition SUPERVISOR_MOUNT_PATH :: string where "SUPERVISOR_MOUNT_PATH = ''/opt/openshell/bin''"
definition SUPERVISOR_VOLUME_NAME :: string where "SUPERVISOR_VOLUME_NAME = ''openshell-supervisor-bin''"
definition SUPERVISOR_HOST_PATH :: string where "SUPERVISOR_HOST_PATH = ''/opt/openshell/bin''"
definition WORKSPACE_VOLUME_NAME :: string where "WORKSPACE_VOLUME_NAME = ''workspace''"
definition WORKSPACE_MOUNT_PATH :: string where "WORKSPACE_MOUNT_PATH = ''/sandbox''"
definition WORKSPACE_INIT_MOUNT_PATH :: string where "WORKSPACE_INIT_MOUNT_PATH = ''/workspace-pvc''"
definition WORKSPACE_SENTINEL :: string where "WORKSPACE_SENTINEL = ''.workspace-initialized''"

definition supervisor_volume :: json where
  "supervisor_volume = obj [(''name'', JStr SUPERVISOR_VOLUME_NAME),
     (''hostPath'', obj [(''path'', JStr SUPERVISOR_HOST_PATH), (''type'', JStr ''DirectoryOrCreate'')])]"

definition supervisor_volume_mount :: json where
  "supervisor_volume_mount = obj [(''name'', JStr SUPERVISOR_VOLUME_NAME), (''mountPath'', JStr SUPERVISOR_MOUNT_PATH), (''readOnly'', JBool True)]"

text \<open>The container named \<open>agent\<close>, or else the first one.\<close>

fun agent_index :: "json list \<Rightarrow> nat option" where
  "agent_index [] = None"
| "agent_index (c # cs) = (if as_str (jget c ''name'') = Some ''agent'' then Some 0 else map_option Suc (agent_index cs))"

definition on_agent_container :: "(json \<Rightarrow> json) \<Rightarrow> json \<Rightarrow> json" where
  "on_agent_container f spec = jupdate spec ''containers'' (\<lambda>v. case v of
     JArr cs \<Rightarrow> (let i = (case agent_index cs of Some i \<Rightarrow> i | None \<Rightarrow> 0) in
       if i < length cs then JArr (cs[i := (if is_object (cs ! i) then f (cs ! i) else cs ! i)]) else v)
   | _ \<Rightarrow> v)"

definition sideload_container :: "json \<Rightarrow> json" where
  "sideload_container container =
     (let c1 = jinsert container ''command'' (JArr [JStr (SUPERVISOR_MOUNT_PATH @ ''/openshell-sandbox'')]);
          c2 = jentry c1 ''securityContext'' (obj []) (\<lambda>sc. jinsert sc ''runAsUser'' (JNum 0))
      in jentry c2 ''volumeMounts'' (JArr []) (jpush supervisor_volume_mount))"

definition apply_supervisor_sideload :: "json \<Rightarrow> json" where
  "apply_supervisor_sideload pod_template = jupdate pod_template ''spec'' (\<lambda>spec.
     if is_object spec then on_agent_container sideload_container (jentry spec ''volumes'' (JArr []) (jpush supervisor_volume)) else spec)"

definition copy_cmd :: string where
  "copy_cmd = ''if [ ! -f '' @ WORKSPACE_INIT_MOUNT_PATH @ ''/'' @ WORKSPACE_SENTINEL @ '' ]; then if [ -d '' @ WORKSPACE_MOUNT_PATH @ '' ]; then cp -a ''
     @ WORKSPACE_MOUNT_PATH @ ''/. '' @ WORKSPACE_INIT_MOUNT_PATH @ ''/; fi && touch '' @ WORKSPACE_INIT_MOUNT_PATH @ ''/'' @ WORKSPACE_SENTINEL @ ''; fi''"

definition apply_workspace_persistence :: "string \<Rightarrow> json \<Rightarrow> json" where
  "apply_workspace_persistence img pod_template = jupdate pod_template ''spec'' (\<lambda>spec.
     if is_object spec then
       jentry (on_agent_container (\<lambda>c. jentry c ''volumeMounts'' (JArr [])
           (jpush (obj [(''name'', JStr WORKSPACE_VOLUME_NAME), (''mountPath'', JStr WORKSPACE_MOUNT_PATH)]))) spec)
         ''initContainers'' (JArr []) (jpush (obj
           [(''name'', JStr ''workspace-init''), (''image'', JStr img), (''command'', JArr [JStr ''sh'', JStr ''-c'', JStr copy_cmd]),
            (''securityContext'', obj [(''runAsUser'', JNum 0)]),
            (''volumeMounts'', JArr [obj [(''name'', JStr WORKSPACE_VOLUME_NAME), (''mountPath'', JStr WORKSPACE_INIT_MOUNT_PATH)]])]))
     else spec)"

definition default_workspace_volume_claim_templates :: json where
  "default_workspace_volume_claim_templates = JArr [obj [(''metadata'', obj [(''name'', JStr WORKSPACE_VOLUME_NAME)]),
     (''spec'', obj [(''accessModes'', JArr [JStr ''ReadWriteOnce'']),
        (''resources'', obj [(''requests'', obj [(''storage'', JStr ''2Gi'')])])])]]"

section \<open>Resources\<close>

definition apply_gpu_limit :: "json \<Rightarrow> json" where
  "apply_gpu_limit resources =
     (let r = (if is_object resources then resources else obj []);
          limits = (case jget r ''limits'' of Some l \<Rightarrow> if is_object l then l else obj [] | None \<Rightarrow> obj [])
      in jinsert r ''limits'' (jinsert limits ''nvidia.com/gpu'' (JStr ''1'')))"

definition container_resources :: "('n \<Rightarrow> json) \<Rightarrow> 'n proto_struct sandbox_template \<Rightarrow> bool \<Rightarrow> json option" where
  "container_resources num template gpu =
     (let resources = (case struct_to_json num (tm_resources template) of Some r \<Rightarrow> r | None \<Rightarrow> obj []);
          limited = (if gpu then apply_gpu_limit resources else resources)
      in if limited = JObj [] then None else Some limited)"

section \<open>The pod template\<close>

definition only :: "bool \<Rightarrow> 'a list \<Rightarrow> 'a list" where "only b xs = (if b then xs else [])"

definition agent_container :: "('n \<Rightarrow> json) \<Rightarrow> cluster_config \<Rightarrow> 'n proto_struct sandbox_template \<Rightarrow> bool \<Rightarrow> string str_map \<Rightarrow> string \<Rightarrow> string \<Rightarrow> string \<Rightarrow> json" where
  "agent_container num cfg template gpu spec_environment sandbox_id sandbox_name img = obj
     ([(''name'', JStr ''agent'')]
      @ only (img \<noteq> []) [(''image'', JStr img)]
      @ only (img \<noteq> [] \<and> kc_image_pull_policy cfg \<noteq> []) [(''imagePullPolicy'', JStr (kc_image_pull_policy cfg))]
      @ [(''env'', JArr (build_env_list cfg (tm_environment template) spec_environment sandbox_id sandbox_name)),
         (''securityContext'', obj [(''capabilities'', obj [(''add'', JArr [JStr ''SYS_ADMIN'', JStr ''NET_ADMIN'', JStr ''SYS_PTRACE'', JStr ''SYSLOG''])])])]
      @ only (kc_client_tls_secret_name cfg \<noteq> [])
          [(''volumeMounts'', JArr [obj [(''name'', JStr ''openshell-client-tls''), (''mountPath'', JStr ''/etc/openshell-tls/client''), (''readOnly'', JBool True)]])]
      @ (case container_resources num template gpu of None \<Rightarrow> [] | Some r \<Rightarrow> [(''resources'', r)]))"

definition pod_spec :: "('n \<Rightarrow> json) \<Rightarrow> cluster_config \<Rightarrow> 'n proto_struct sandbox_template \<Rightarrow> json \<Rightarrow> json" where
  "pod_spec num cfg template container = obj
     (only (tm_runtime_class_name template \<noteq> []) [(''runtimeClassName'', JStr (tm_runtime_class_name template))]
      @ [(''containers'', JArr [container])]
      @ only (kc_client_tls_secret_name cfg \<noteq> [])
          [(''volumes'', JArr [obj [(''name'', JStr ''openshell-client-tls''),
             (''secret'', obj [(''secretName'', JStr (kc_client_tls_secret_name cfg)), (''defaultMode'', JNum 256)])]])]
      @ only (kc_host_gateway_ip cfg \<noteq> [])
          [(''hostAliases'', JArr [obj [(''ip'', JStr (kc_host_gateway_ip cfg)),
             (''hostnames'', JArr [JStr ''host.docker.internal'', JStr ''host.openshell.internal''])]])])"

definition sandbox_template_to_k8s ::
  "('n \<Rightarrow> json) \<Rightarrow> cluster_config \<Rightarrow> 'n proto_struct sandbox_template \<Rightarrow> bool \<Rightarrow> string str_map \<Rightarrow> string \<Rightarrow> string \<Rightarrow> bool \<Rightarrow> json" where
  "sandbox_template_to_k8s num cfg template gpu spec_environment sandbox_id sandbox_name inject_workspace =
     (let metadata = only (tm_labels template \<noteq> []) [(''labels'', json_map (tm_labels template))]
            @ only (tm_annotations template \<noteq> []) [(''annotations'', json_map (tm_annotations template))];
          img = (if tm_image template = [] then kc_default_image cfg else tm_image template);
          container = agent_container num cfg template gpu spec_environment sandbox_id sandbox_name img;
          template_value = obj (only (metadata \<noteq> []) [(''metadata'', obj metadata)] @ [(''spec'', pod_spec num cfg template container)]);
          result = apply_supervisor_sideload template_value
      in if inject_workspace then apply_workspace_persistence img result else result)"

definition sandbox_template_default :: "'s sandbox_template" where
  "sandbox_template_default = \<lparr>tm_image = [], tm_runtime_class_name = [], tm_agent_socket = [], tm_labels = [], tm_annotations = [], tm_environment = [],
     tm_resources = None, tm_volume_claim_templates = None\<rparr>"

definition sandbox_to_k8s_spec ::
  "('n \<Rightarrow> json) \<Rightarrow> cluster_config \<Rightarrow> 'n proto_struct sandbox_spec option \<Rightarrow> string \<Rightarrow> string \<Rightarrow> json" where
  "sandbox_to_k8s_spec num cfg spec sandbox_id sandbox_name =
     (let template = Option.bind spec ss_template;
          claims = Option.bind template (\<lambda>t. struct_to_json num (tm_volume_claim_templates t));
          inject_workspace = (claims = None);
          environment = (case spec of None \<Rightarrow> [] | Some s \<Rightarrow> ss_environment s);
          gpu = (case spec of None \<Rightarrow> False | Some s \<Rightarrow> ss_gpu s);
          pod = (\<lambda>t. sandbox_template_to_k8s num cfg t gpu environment sandbox_id sandbox_name inject_workspace);
          root = (case spec of None \<Rightarrow> [] | Some s \<Rightarrow> only (ss_log_level s \<noteq> []) [(''logLevel'', JStr (ss_log_level s))]
              @ only (environment \<noteq> []) [(''environment'', json_map environment)])
            @ (case template of None \<Rightarrow> [(''podTemplate'', pod sandbox_template_default)]
               | Some t \<Rightarrow> [(''podTemplate'', pod t)] @ only (tm_agent_socket t \<noteq> []) [(''agentSocket'', JStr (tm_agent_socket t))])
            @ [(''volumeClaimTemplates'', case claims of Some v \<Rightarrow> v | None \<Rightarrow> default_workspace_volume_claim_templates)]
      in obj [(''spec'', obj root)])"

section \<open>Labels\<close>

definition SANDBOX_ID_LABEL :: string where "SANDBOX_ID_LABEL = ''openshell.ai/sandbox-id''"
definition SANDBOX_MANAGED_LABEL :: string where "SANDBOX_MANAGED_LABEL = ''openshell.ai/managed-by''"

definition sandbox_labels :: "string \<Rightarrow> string str_map" where
  "sandbox_labels sandbox_id = [(SANDBOX_MANAGED_LABEL, ''openshell''), (SANDBOX_ID_LABEL, sandbox_id)]"

text \<open>A resource of the cluster: the metadata the gateway reads, and its data.\<close>

record cluster_object =
  co_name :: "string option"
  co_namespace :: "string option"
  co_labels :: "string str_map option"
  co_deleting :: bool
  co_data :: json

definition sandbox_id_from_object :: "cluster_object \<Rightarrow> (string, string) result" where
  "sandbox_id_from_object o0 = (case Option.bind (co_labels o0) (\<lambda>ls. map_of ls SANDBOX_ID_LABEL) of
     Some i \<Rightarrow> Inr i
   | None \<Rightarrow> (case strip_prefix ''sandbox-'' (case co_name o0 of Some n \<Rightarrow> n | None \<Rightarrow> []) of
       Some i \<Rightarrow> Inr i | None \<Rightarrow> Inl ''sandbox id not found on object''))"

definition cluster_object_of :: "('n \<Rightarrow> json) \<Rightarrow> cluster_config \<Rightarrow> 'n proto_struct sandbox \<Rightarrow> cluster_object" where
  "cluster_object_of num cfg sandbox = \<lparr>co_name = Some (sb_name sandbox), co_namespace = Some (kc_namespace cfg), co_labels = Some (sandbox_labels (sb_id sandbox)),
     co_deleting = False, co_data = sandbox_to_k8s_spec num cfg (sb_spec sandbox) (sb_id sandbox) (sb_name sandbox)\<rparr>"


section \<open>The environment as a map\<close>

abbreviation env_items :: "string str_map \<Rightarrow> json list" where "env_items m \<equiv> map (\<lambda>(k, v). env_item k v) m"

definition set_vars :: "string str_map \<Rightarrow> string str_map \<Rightarrow> string str_map" where
  "set_vars m kvs = foldl (\<lambda>m (k, v). AList.update k v m) m kvs"

lemma upsert_env_items: "upsert_env (env_items m) k v = env_items (AList.update k v m)"
  by (induction m) (auto simp: env_item_def)

lemma upserts_env_items: "foldl (\<lambda>e (k, v). upsert_env e k v) (env_items m) kvs = env_items (set_vars m kvs)"
  unfolding set_vars_def by (induction kvs arbitrary: m) (simp_all add: split_beta upsert_env_items [simplified split_beta])

lemma set_vars_lookup: "distinct (map fst kvs) \<Longrightarrow> map_of (set_vars m kvs) = map_of m ++ map_of kvs"
proof (induction kvs arbitrary: m)
  case (Cons kv kvs)
  then have "map_of (set_vars m (kv # kvs)) = (map_of m)(fst kv \<mapsto> snd kv) ++ map_of kvs"
    by (simp add: set_vars_def split_beta AList.update_conv')
  moreover have "map_of kvs (fst kv) = None" using Cons.prems by (simp add: map_of_eq_None_iff)
  ultimately show ?case by (auto simp: map_add_def fun_eq_iff split: option.splits)
qed (simp add: set_vars_def)

lemma set_vars_distinct: "distinct (map fst m) \<Longrightarrow> distinct (map fst (set_vars m kvs))"
  unfolding set_vars_def by (induction kvs arbitrary: m) (auto simp: split_beta AList.distinct_update)

lemma required_env_distinct: "distinct (map fst (required_env cfg i n))"
  by (cases "kc_ssh_listen_addr cfg = []"; cases "kc_client_tls_secret_name cfg = []") (simp_all add: required_env_def)

lemma build_env_list_map:
  assumes "distinct (map fst template_env)" "distinct (map fst spec_env)"
  shows "\<exists>m. build_env_list cfg template_env spec_env i n = env_items m \<and> distinct (map fst m)
     \<and> map_of m = map_of template_env ++ map_of spec_env ++ map_of (required_env cfg i n)"
proof -
  let ?m = "set_vars (set_vars (set_vars [] template_env) spec_env) (required_env cfg i n)"
  have "build_env_list cfg template_env spec_env i n = env_items ?m"
    using upserts_env_items [of "[]" template_env] by (simp add: build_env_list_def apply_env_map_def apply_required_env_def upserts_env_items)
  moreover have "distinct (map fst ?m)" by (simp add: set_vars_distinct)
  moreover have "map_of ?m = map_of template_env ++ map_of spec_env ++ map_of (required_env cfg i n)"
    using assms required_env_distinct by (simp add: set_vars_lookup)
  ultimately show ?thesis by blast
qed

section \<open>Reading the pod template\<close>

lemma is_object_simps [simp]: "is_object (JObj kvs)" "is_object (obj kvs)" "is_object (jinsert j k v) = is_object j" "is_object (jentry j k d f) = is_object j"
  "is_object (jupdate j k f) = is_object j" "is_object (on_agent_container g j) = is_object j"
  by (cases j; simp add: is_object_def obj_def jentry_def on_agent_container_def)+

lemma map_of_without: "map_of (filter (\<lambda>(k, _). k \<noteq> key) kvs) k = (if k = key then None else map_of kvs k)"
  by (induction kvs) auto

lemma jget_insert: "is_object j \<Longrightarrow> jget (jinsert j key v) k = (if k = key then Some v else jget j k)"
  by (cases j) (simp_all add: is_object_def map_of_without)

lemma jget_entry: "is_object j \<Longrightarrow> jget (jentry j key d f) k = (if k = key then Some (f (case jget j key of Some v \<Rightarrow> v | None \<Rightarrow> d)) else jget j k)"
  by (simp add: jentry_def jget_insert)

lemma jget_update: "is_object j \<Longrightarrow> jget (jupdate j key f) k = (if k = key then map_option f (jget j k) else jget j k)"
  by (cases j) (simp_all add: is_object_def jget_jupdate del: jupdate.simps)

lemma jget_on_agent:
  assumes "is_object spec" "jget spec ''containers'' = Some (JArr [c])" "is_object c"
  shows "jget (on_agent_container f spec) k = (if k = ''containers'' then Some (JArr [f c]) else jget spec k)"
  using assms by (simp add: on_agent_container_def jget_update)

lemmas jget_edits = jget_insert jget_entry jget_update jpush_def

text \<open>The agent container of the resource.\<close>

definition pod_containers :: "json \<Rightarrow> json option" where
  "pod_containers resource = ref (ref (ref (ref (Some resource) ''spec'') ''podTemplate'') ''spec'') ''containers''"

definition tls_mount :: json where
  "tls_mount = obj [(''name'', JStr ''openshell-client-tls''), (''mountPath'', JStr ''/etc/openshell-tls/client''), (''readOnly'', JBool True)]"

definition workspace_mount :: json where
  "workspace_mount = obj [(''name'', JStr WORKSPACE_VOLUME_NAME), (''mountPath'', JStr WORKSPACE_MOUNT_PATH)]"

lemma only_simps [simp]: "only True xs = xs" "only False xs = []" by (simp_all add: only_def)

lemma map_of_only [simp]: "map_of (only b xs) k = (if b then map_of xs k else None)" by (simp add: only_def)

lemma agent_container_fields:
  fixes num :: "'n \<Rightarrow> json"
  shows "jget (agent_container num cfg t gpu env i n img) ''name'' = Some (JStr ''agent'')"
    "jget (agent_container num cfg t gpu env i n img) ''env'' = Some (JArr (build_env_list cfg (tm_environment t) env i n))"
    "jget (agent_container num cfg t gpu env i n img) ''securityContext''
       = Some (obj [(''capabilities'', obj [(''add'', JArr [JStr ''SYS_ADMIN'', JStr ''NET_ADMIN'', JStr ''SYS_PTRACE'', JStr ''SYSLOG''])])])"
    "jget (agent_container num cfg t gpu env i n img) ''volumeMounts'' = (if kc_client_tls_secret_name cfg \<noteq> [] then Some (JArr [tls_mount]) else None)"
  by (auto simp: agent_container_def tls_mount_def map_add_def split: option.split)

lemma template_container:
  "\<exists>c. ref (ref (Some (sandbox_template_to_k8s num cfg t gpu env i n inject)) ''spec'') ''containers'' = Some (JArr [c])
     \<and> jget c ''name'' = Some (JStr ''agent'') \<and> jget c ''command'' = Some (JArr [JStr ''/opt/openshell/bin/openshell-sandbox''])
     \<and> jget c ''env'' = Some (JArr (build_env_list cfg (tm_environment t) env i n))
     \<and> ref (jget c ''securityContext'') ''runAsUser'' = Some (JNum 0)
     \<and> ref (jget c ''securityContext'') ''capabilities'' = Some (obj [(''add'', JArr [JStr ''SYS_ADMIN'', JStr ''NET_ADMIN'', JStr ''SYS_PTRACE'', JStr ''SYSLOG''])])
     \<and> jget c ''volumeMounts'' = Some (JArr (only (kc_client_tls_secret_name cfg \<noteq> []) [tls_mount] @ [supervisor_volume_mount] @ only inject [workspace_mount]))"
proof -
  let ?image = "if tm_image t = [] then kc_default_image cfg else tm_image t"
  let ?c = "agent_container num cfg t gpu env i n ?image"
  let ?c' = "sideload_container ?c"
  let ?c'' = "if inject then jentry ?c' ''volumeMounts'' (JArr []) (jpush workspace_mount) else ?c'"
  have o: "is_object ?c" "is_object ?c'" by (simp_all add: agent_container_def sideload_container_def Let_def)
  have spec: "jget (pod_spec num cfg t ?c) ''containers'' = Some (JArr [?c])" "is_object (pod_spec num cfg t ?c)"
    by (simp_all add: pod_spec_def map_add_def)
  let ?s = "on_agent_container sideload_container (jentry (pod_spec num cfg t ?c) ''volumes'' (JArr []) (jpush supervisor_volume))"
  have s: "jget ?s ''containers'' = Some (JArr [?c'])" "is_object ?s"
    using spec o by (simp_all add: jget_on_agent [of _ ?c] jget_entry)
  have "ref (ref (Some (sandbox_template_to_k8s num cfg t gpu env i n inject)) ''spec'') ''containers'' = Some (JArr [?c''])"
    using s spec o
    by (simp add: sandbox_template_to_k8s_def Let_def apply_supervisor_sideload_def apply_workspace_persistence_def jget_update map_add_def
        jget_entry jget_on_agent [of _ ?c'] workspace_mount_def [symmetric])
  then show ?thesis using o agent_container_fields [of num cfg t gpu env i n ?image]
    by (intro exI [of _ ?c'']) (auto simp: sideload_container_def Let_def jget_edits SUPERVISOR_MOUNT_PATH_def)
qed

text \<open>The environments of a request: of its template and of its spec.\<close>

definition template_environment :: "'s sandbox_spec option \<Rightarrow> string str_map" where
  "template_environment spec = (case Option.bind spec ss_template of None \<Rightarrow> [] | Some t \<Rightarrow> tm_environment t)"

definition spec_environment :: "'s sandbox_spec option \<Rightarrow> string str_map" where
  "spec_environment spec = (case spec of None \<Rightarrow> [] | Some s \<Rightarrow> ss_environment s)"

definition custom_claims :: "'s sandbox_spec option \<Rightarrow> bool" where
  "custom_claims spec \<longleftrightarrow> Option.bind (Option.bind spec ss_template) tm_volume_claim_templates \<noteq> None"


definition example_cluster :: cluster_config where
  "example_cluster = \<lparr>kc_namespace = ''openshell'', kc_default_image = ''base'', kc_image_pull_policy = [], kc_grpc_endpoint = ''http://gw:50051'', kc_ssh_listen_addr = [],
     kc_ssh_handshake_secret = ''s3'', kc_ssh_handshake_skew_secs = 300, kc_client_tls_secret_name = [], kc_host_gateway_ip = []\<rparr>"

definition gpu_spec :: "int proto_struct sandbox_spec" where
  "gpu_spec = \<lparr>ss_log_level = [], ss_environment = [(''OPENSHELL_SANDBOX_ID'', ''other''), (''A'', ''1'')], ss_template = None, ss_policy = None, ss_providers = [], ss_gpu = True\<rparr>"


section \<open>GPU limits and labels\<close>

text \<open>A GPU request sets the limit of one GPU and keeps the other resources and limits of the template.\<close>

lemma gpu_limit:
  "ref (jget (apply_gpu_limit r) ''limits'') ''nvidia.com/gpu'' = Some (JStr ''1'')"
  "is_object r \<Longrightarrow> k \<noteq> ''limits'' \<Longrightarrow> jget (apply_gpu_limit r) k = jget r k"
  "is_object r \<Longrightarrow> jget r ''limits'' = Some (JObj kvs) \<Longrightarrow> k \<noteq> ''nvidia.com/gpu'' \<Longrightarrow> ref (jget (apply_gpu_limit r) ''limits'') k = map_of kvs k"
  by (auto simp: apply_gpu_limit_def Let_def jget_insert map_of_without split: option.split)

text \<open>The identifier of a sandbox is read back from its resource.\<close>

lemma label_identifies: "sandbox_id_from_object (cluster_object_of num cfg sandbox) = Inr (sb_id sandbox)"
  by (simp add: sandbox_id_from_object_def cluster_object_of_def sandbox_labels_def SANDBOX_ID_LABEL_def SANDBOX_MANAGED_LABEL_def)

end
