(* ===== verification/Policy_Loading.thy ===== *)
theory Policy_Loading
  imports Opa_Props Config_Props
begin

text \<open>
  How a sandbox comes by its policy: the baseline paths it adds, discovery on disk, the start of \<open>lib.rs\<close> with the
  gateway, the conversion of \<open>policy.rs\<close>, and the loop that polls for changes and reloads the policy engine.
  The file system, YAML text and the gateway are arguments.
\<close>

section \<open>Baseline paths\<close>

definition PROXY_BASELINE_READ_ONLY :: "string list" where
  "PROXY_BASELINE_READ_ONLY = [''/usr'', ''/lib'', ''/etc'', ''/app'', ''/var/log'', ''/proc'', ''/dev/urandom'']"

definition PROXY_BASELINE_READ_WRITE :: "string list" where "PROXY_BASELINE_READ_WRITE = [''/sandbox'', ''/tmp'']"

definition GPU_BASELINE_READ_ONLY :: "string list" where "GPU_BASELINE_READ_ONLY = [''/run/nvidia-persistenced'']"

definition GPU_BASELINE_READ_WRITE :: "string list" where
  "GPU_BASELINE_READ_WRITE = [''/dev/nvidiactl'', ''/dev/nvidia-uvm'', ''/dev/nvidia-uvm-tools'', ''/dev/nvidia-modeset'', ''/proc'']"

text \<open>Existence of a path, and the names in \<open>/dev\<close> (none when it cannot be listed).\<close>

record disk =
  dk_exists :: "string \<Rightarrow> bool"
  dk_dev :: "string list"
  dk_read :: "string \<Rightarrow> string option"

definition has_gpu_devices :: "disk \<Rightarrow> bool" where "has_gpu_devices d = dk_exists d ''/dev/nvidiactl''"

definition enumerate_gpu_device_nodes :: "disk \<Rightarrow> string list" where
  "enumerate_gpu_device_nodes d = List.map_filter (\<lambda>name. case strip_prefix ''nvidia'' (utf8_lossy name) of
       None \<Rightarrow> None
     | Some number \<Rightarrow> if number = [] \<or> \<not> list_all is_ascii_digit number then None else Some (utf8_lossy (''/dev/'' @ name))) (dk_dev d)"

definition baseline_enrichment_paths :: "disk \<Rightarrow> string list \<times> string list" where
  "baseline_enrichment_paths d =
     (let ro = PROXY_BASELINE_READ_ONLY @ (if has_gpu_devices d then GPU_BASELINE_READ_ONLY else []);
          rw = PROXY_BASELINE_READ_WRITE @ (if has_gpu_devices d then GPU_BASELINE_READ_WRITE @ enumerate_gpu_device_nodes d else [])
      in (filter (\<lambda>p. p \<notin> set rw) ro, rw))"

definition add_read_only :: "disk \<Rightarrow> string \<Rightarrow> filesystem_policy \<times> bool \<Rightarrow> filesystem_policy \<times> bool" where
  "add_read_only d path = (\<lambda>(f, modified).
     if path \<notin> set (fs_read_only f) \<and> path \<notin> set (fs_read_write f) \<and> dk_exists d path
     then (f\<lparr>fs_read_only := fs_read_only f @ [path]\<rparr>, True) else (f, modified))"

definition add_read_write :: "disk \<Rightarrow> string \<Rightarrow> filesystem_policy \<times> bool \<Rightarrow> filesystem_policy \<times> bool" where
  "add_read_write d path = (\<lambda>(f, modified).
     if path \<notin> set (fs_read_write f) \<and> dk_exists d path
     then (f\<lparr>fs_read_write := fs_read_write f @ [path]\<rparr>, True) else (f, modified))"

definition enrich_proto_baseline_paths :: "disk \<Rightarrow> sandbox_policy \<Rightarrow> sandbox_policy \<times> bool" where
  "enrich_proto_baseline_paths d proto =
     (if sp_network_policies proto = [] then (proto, False)
      else let f = (case sp_filesystem proto of Some f \<Rightarrow> f | None \<Rightarrow> \<lparr>fs_include_workdir = True, fs_read_only = [], fs_read_write = []\<rparr>);
               (ro, rw) = baseline_enrichment_paths d;
               (f', modified) = fold (add_read_write d) rw (fold (add_read_only d) ro (f, False))
           in (proto\<lparr>sp_filesystem := Some f'\<rparr>, modified))"

section \<open>The policy of the sandbox process\<close>

datatype network_mode = NetBlock | NetProxy | NetAllow

record process_sandbox_policy =
  pp_version :: u32
  pp_filesystem :: filesystem_policy
  pp_network :: network_mode
  pp_landlock :: landlock_compatibility
  pp_process :: run_as_policy

definition filesystem_from_proto :: "filesystem_policy \<Rightarrow> filesystem_policy" where
  "filesystem_from_proto proto = \<lparr>fs_include_workdir = fs_include_workdir proto, fs_read_only = map normalize_path (fs_read_only proto),
     fs_read_write = map normalize_path (fs_read_write proto)\<rparr>"

definition landlock_from_proto :: "landlock_policy \<Rightarrow> landlock_compatibility" where
  "landlock_from_proto proto = (if ll_compatibility proto = ''hard_requirement'' then HardRequirement else BestEffort)"

definition process_from_proto :: "process_policy \<Rightarrow> run_as_policy" where
  "process_from_proto proto = \<lparr>ra_user = (if pr_run_as_user proto = [] then None else Some (pr_run_as_user proto)),
     ra_group = (if pr_run_as_group proto = [] then None else Some (pr_run_as_group proto))\<rparr>"

definition policy_try_from :: "sandbox_policy \<Rightarrow> process_sandbox_policy" where
  "policy_try_from proto = \<lparr>pp_version = sp_version proto,
     pp_filesystem = (case sp_filesystem proto of Some f \<Rightarrow> filesystem_from_proto f | None \<Rightarrow> \<lparr>fs_include_workdir = True, fs_read_only = [], fs_read_write = []\<rparr>),
     pp_network = NetProxy,
     pp_landlock = (case sp_landlock proto of Some l \<Rightarrow> landlock_from_proto l | None \<Rightarrow> BestEffort),
     pp_process = (case sp_process proto of Some p \<Rightarrow> process_from_proto p | None \<Rightarrow> \<lparr>ra_user = None, ra_group = None\<rparr>)\<rparr>"

text \<open>The same enrichment on the paths of the process policy, which are compared by their components.\<close>

definition lists_path :: "string list \<Rightarrow> string \<Rightarrow> bool" where
  "lists_path ps p = list_ex (\<lambda>q. components q = components p) ps"

definition enrich_sandbox_baseline_paths :: "disk \<Rightarrow> process_sandbox_policy \<Rightarrow> process_sandbox_policy" where
  "enrich_sandbox_baseline_paths d policy =
     (if pp_network policy \<noteq> NetProxy then policy
      else let (ro, rw) = baseline_enrichment_paths d;
               f1 = fold (\<lambda>p f. if \<not> lists_path (fs_read_only f) p \<and> \<not> lists_path (fs_read_write f) p \<and> dk_exists d p
                  then f\<lparr>fs_read_only := fs_read_only f @ [p]\<rparr> else f) ro (pp_filesystem policy);
               f2 = fold (\<lambda>p f. if \<not> lists_path (fs_read_write f) p \<and> dk_exists d p
                  then f\<lparr>fs_read_write := fs_read_write f @ [p]\<rparr> else f) rw f1
           in policy\<lparr>pp_filesystem := f2\<rparr>)"

section \<open>Discovery on disk\<close>

definition CONTAINER_POLICY_PATH :: string where "CONTAINER_POLICY_PATH = ''/etc/openshell/policy.yaml''"
definition LEGACY_CONTAINER_POLICY_PATH :: string where "LEGACY_CONTAINER_POLICY_PATH = ''/etc/navigator/policy.yaml''"

text \<open>Validation may panic when it shortens a long path for display (\<open>None\<close>).\<close>

definition discover_policy_from_path :: "(string \<Rightarrow> ('e, policy_file) result) \<Rightarrow> disk \<Rightarrow> string \<Rightarrow> sandbox_policy option" where
  "discover_policy_from_path from_str d path = (case dk_read d path of
     None \<Rightarrow> Some restrictive_default_policy
   | Some yaml \<Rightarrow> (case parse_sandbox_policy from_str yaml of
       Inl e \<Rightarrow> Some restrictive_default_policy
     | Inr policy \<Rightarrow> (case validate_sandbox_policy policy of
         None \<Rightarrow> None
       | Some (Inl violations) \<Rightarrow> Some restrictive_default_policy
       | Some (Inr _) \<Rightarrow> Some policy)))"

definition discover_policy_from_disk_or_default :: "(string \<Rightarrow> ('e, policy_file) result) \<Rightarrow> disk \<Rightarrow> sandbox_policy option" where
  "discover_policy_from_disk_or_default from_str d =
     (if dk_exists d CONTAINER_POLICY_PATH then discover_policy_from_path from_str d CONTAINER_POLICY_PATH
      else if dk_exists d LEGACY_CONTAINER_POLICY_PATH then discover_policy_from_path from_str d LEGACY_CONTAINER_POLICY_PATH
      else discover_policy_from_path from_str d CONTAINER_POLICY_PATH)"

section \<open>Loading at the start\<close>

text \<open>The two calls of the gateway, on its state.\<close>

record 'g gateway_client =
  gl_get :: "string \<Rightarrow> 'g \<Rightarrow> (string, get_sandbox_config_response) result \<times> 'g"
  gl_update :: "update_config_request \<Rightarrow> 'g \<Rightarrow> (string, unit) result \<times> 'g"

definition fetch_policy_with_client :: "'g gateway_client \<Rightarrow> string \<Rightarrow> 'g \<Rightarrow> (string, sandbox_policy option) result \<times> 'g" where
  "fetch_policy_with_client gl sandbox_id g = (case gl_get gl sandbox_id g of
     (Inl e, g') \<Rightarrow> (Inl e, g')
   | (Inr inner, g') \<Rightarrow>
       (if gc_version inner = 0 \<and> gc_policy inner = None then Inr None
        else case gc_policy inner of Some p \<Rightarrow> Inr (Some p) | None \<Rightarrow> Inl ''Server returned non-zero version but empty policy'', g'))"

definition sync_policy_with_client :: "'g gateway_client \<Rightarrow> string \<Rightarrow> sandbox_policy \<Rightarrow> 'g \<Rightarrow> (string, unit) result \<times> 'g" where
  "sync_policy_with_client gl sandbox policy g = gl_update gl
     \<lparr>uc_name = sandbox, uc_policy = Some policy, uc_setting_key = [], uc_setting_value = None, uc_delete_setting = False, uc_global = False\<rparr> g"

definition discover_and_sync_policy :: "'g gateway_client \<Rightarrow> string \<Rightarrow> string \<Rightarrow> sandbox_policy \<Rightarrow> 'g \<Rightarrow> (string, sandbox_policy) result \<times> 'g" where
  "discover_and_sync_policy gl sandbox_id sandbox discovered g = (case sync_policy_with_client gl sandbox discovered g of
     (Inl e, g1) \<Rightarrow> (Inl e, g1)
   | (Inr _, g1) \<Rightarrow> (case fetch_policy_with_client gl sandbox_id g1 of
       (Inl e, g2) \<Rightarrow> (Inl e, g2)
     | (Inr None, g2) \<Rightarrow> (Inl (''Server still returned no policy after sync '' @ em_dash @ '' this is a bug''), g2)
     | (Inr (Some p), g2) \<Rightarrow> (Inr p, g2)))"

text \<open>Without a policy on the gateway one is discovered, enriched and stored there first.\<close>

definition policy_of_gateway ::
  "'g gateway_client \<Rightarrow> (string \<Rightarrow> ('e, policy_file) result) \<Rightarrow> disk \<Rightarrow> string \<Rightarrow> string option \<Rightarrow> 'g \<Rightarrow> ((string, sandbox_policy) result \<times> 'g) option" where
  "policy_of_gateway gl from_str d sandbox_id sandbox g = (case fetch_policy_with_client gl sandbox_id g of
     (Inl e, g1) \<Rightarrow> Some (Inl e, g1)
   | (Inr (Some p), g1) \<Rightarrow> Some (Inr p, g1)
   | (Inr None, g1) \<Rightarrow> map_option (\<lambda>discovered.
       case sandbox of None \<Rightarrow> (Inl (''Cannot sync discovered policy: sandbox not available.'' @ [LF] @ ''Set OPENSHELL_SANDBOX or --sandbox to enable policy sync.''), g1)
       | Some name \<Rightarrow> discover_and_sync_policy gl sandbox_id name (fst (enrich_proto_baseline_paths d discovered)) g1)
       (discover_policy_from_disk_or_default from_str d))"

text \<open>\<open>load_policy\<close>: \<open>file_engine\<close> is the engine of the local rule and data files with its configuration.\<close>

definition load_policy ::
  "'g gateway_client \<Rightarrow> (string \<Rightarrow> ('e, policy_file) result) \<Rightarrow> disk \<Rightarrow> (string \<Rightarrow> string \<Rightarrow> (string, json \<times> sandbox_config) result) \<Rightarrow>
   string option \<Rightarrow> string option \<Rightarrow> string option \<Rightarrow> string option \<Rightarrow> string option \<Rightarrow> 'g \<Rightarrow>
   ((string, process_sandbox_policy \<times> json) result \<times> 'g) option" where
  "load_policy gl from_str d file_engine sandbox_id sandbox openshell_endpoint policy_rules policy_data g =
     (case (policy_rules, policy_data) of
        (Some rules, Some data) \<Rightarrow> Some (case file_engine rules data of
            Inl e \<Rightarrow> Inl e
          | Inr (engine, config) \<Rightarrow> Inr (enrich_sandbox_baseline_paths d
              \<lparr>pp_version = 1, pp_filesystem = sc_filesystem config, pp_network = NetProxy, pp_landlock = sc_landlock config, pp_process = sc_process config\<rparr>, engine), g)
      | _ \<Rightarrow> (case (sandbox_id, openshell_endpoint) of
          (Some i, Some endpoint) \<Rightarrow> map_option (\<lambda>fetched. case fetched of
              (Inl e, g1) \<Rightarrow> (Inl e, g1)
            | (Inr proto, g1) \<Rightarrow>
                let (proto', enriched) = enrich_proto_baseline_paths d proto;
                    g2 = (case (enriched, sandbox) of (True, Some name) \<Rightarrow> snd (sync_policy_with_client gl name proto' g1) | _ \<Rightarrow> g1)
                in (and_then (engine_from_proto proto') (\<lambda>engine. Inr (policy_try_from proto', engine)), g2))
              (policy_of_gateway gl from_str d i sandbox g)
        | _ \<Rightarrow> Some (Inl (''Sandbox policy required. Provide one of:'' @ [LF]
              @ ''- --policy-rules and --policy-data (or OPENSHELL_POLICY_RULES and OPENSHELL_POLICY_DATA env vars)'' @ [LF]
              @ ''- --sandbox-id and --openshell-endpoint (or OPENSHELL_SANDBOX_ID and OPENSHELL_ENDPOINT env vars)''), g)))"

section \<open>Polling for changes\<close>

definition extract_bool_setting :: "effective_setting str_map \<Rightarrow> string \<Rightarrow> bool option" where
  "extract_bool_setting settings key = (case map_of settings key of None \<Rightarrow> None
     | Some es \<Rightarrow> (case es_value es of Some (BoolValue b) \<Rightarrow> Some b | _ \<Rightarrow> None))"

record poll_state =
  ps_config_revision :: "64 word"
  ps_policy_hash :: string
  ps_settings :: "effective_setting str_map"
  ps_engine :: json
  ps_ocsf :: bool
  ps_reports :: "(u32 \<times> bool \<times> string) list"

text \<open>The state after the first poll; an unreachable gateway leaves the defaults.\<close>

definition poll_start :: "json \<Rightarrow> (string, get_sandbox_config_response) result \<Rightarrow> bool \<Rightarrow> poll_state" where
  "poll_start engine first ocsf = (case first of
     Inl e \<Rightarrow> \<lparr>ps_config_revision = 0, ps_policy_hash = [], ps_settings = [], ps_engine = engine, ps_ocsf = ocsf, ps_reports = []\<rparr>
   | Inr r \<Rightarrow> \<lparr>ps_config_revision = gc_config_revision r, ps_policy_hash = gc_policy_hash r, ps_settings = gc_settings r, ps_engine = engine,
        ps_ocsf = ocsf, ps_reports = []\<rparr>)"

definition poll_remember :: "get_sandbox_config_response \<Rightarrow> poll_state \<Rightarrow> poll_state" where
  "poll_remember r s = s\<lparr>ps_config_revision := gc_config_revision r, ps_policy_hash := gc_policy_hash r, ps_settings := gc_settings r\<rparr>"

definition reload_and_report :: "get_sandbox_config_response \<Rightarrow> sandbox_policy \<Rightarrow> poll_state \<Rightarrow> poll_state" where
  "reload_and_report r policy s = (case reload_from_proto policy (ps_engine s) of (outcome, engine) \<Rightarrow>
     s\<lparr>ps_engine := engine,
       ps_reports := ps_reports s @ (if gc_version r > 0 \<and> gc_policy_source r = SourceSandbox
         then [case outcome of Inr _ \<Rightarrow> (gc_version r, True, []) | Inl e \<Rightarrow> (gc_version r, False, e)] else [])\<rparr>)"

definition poll_tick :: "(string, get_sandbox_config_response) result \<Rightarrow> poll_state \<Rightarrow> poll_state" where
  "poll_tick answer s = (case answer of Inl e \<Rightarrow> s
   | Inr r \<Rightarrow>
       if gc_config_revision r = ps_config_revision s then s
       else let policy_changed = (gc_policy_hash r \<noteq> ps_policy_hash s);
                toggle = (\<lambda>s. s\<lparr>ps_ocsf := (case extract_bool_setting (gc_settings r) ''ocsf_json_enabled'' of Some b \<Rightarrow> b | None \<Rightarrow> False)\<rparr>)
            in if policy_changed then (case gc_policy r of
                   None \<Rightarrow> poll_remember r s
                 | Some policy \<Rightarrow> poll_remember r (toggle (reload_and_report r policy s)))
               else poll_remember r (toggle s))"


section \<open>What enrichment does\<close>

lemma add_step:
  "add_read_only d q (f, m) = (if q \<notin> set (fs_read_only f) \<and> q \<notin> set (fs_read_write f) \<and> dk_exists d q
     then (f\<lparr>fs_read_only := fs_read_only f @ [q]\<rparr>, True) else (f, m))"
  "add_read_write d q (f, m) = (if q \<notin> set (fs_read_write f) \<and> dk_exists d q then (f\<lparr>fs_read_write := fs_read_write f @ [q]\<rparr>, True) else (f, m))"
  by (simp_all add: add_read_only_def add_read_write_def)

lemma add_read_only_fold:
  "\<exists>news. fold (add_read_only d) ps (f, m) = (f\<lparr>fs_read_only := fs_read_only f @ news\<rparr>, m \<or> news \<noteq> []) \<and> distinct news
     \<and> (\<forall>p \<in> set news. p \<in> set ps \<and> dk_exists d p \<and> p \<notin> set (fs_read_only f) \<and> p \<notin> set (fs_read_write f))
     \<and> (\<forall>p \<in> set ps. dk_exists d p \<longrightarrow> p \<in> set (fs_read_only f) \<union> set news \<union> set (fs_read_write f))"
proof (induction ps arbitrary: f m)
  case (Cons q ps)
  show ?case
  proof (cases "q \<notin> set (fs_read_only f) \<and> q \<notin> set (fs_read_write f) \<and> dk_exists d q")
    case True
    obtain news where "fold (add_read_only d) ps (f\<lparr>fs_read_only := fs_read_only f @ [q]\<rparr>, True) = (f\<lparr>fs_read_only := fs_read_only f @ q # news\<rparr>, True)"
      "distinct news" "\<forall>p \<in> set news. p \<in> set ps \<and> dk_exists d p \<and> p \<notin> set (fs_read_only f) \<and> p \<noteq> q \<and> p \<notin> set (fs_read_write f)"
      "\<forall>p \<in> set ps. dk_exists d p \<longrightarrow> p \<in> insert q (set (fs_read_only f)) \<union> set news \<union> set (fs_read_write f)"
      using Cons.IH [of "f\<lparr>fs_read_only := fs_read_only f @ [q]\<rparr>" True] by auto
    then show ?thesis using True by (intro exI [of _ "q # news"]) (auto simp: add_step)
  next
    case False
    obtain news where "fold (add_read_only d) ps (f, m) = (f\<lparr>fs_read_only := fs_read_only f @ news\<rparr>, m \<or> news \<noteq> [])" "distinct news"
      "\<forall>p \<in> set news. p \<in> set ps \<and> dk_exists d p \<and> p \<notin> set (fs_read_only f) \<and> p \<notin> set (fs_read_write f)"
      "\<forall>p \<in> set ps. dk_exists d p \<longrightarrow> p \<in> set (fs_read_only f) \<union> set news \<union> set (fs_read_write f)" using Cons.IH [of f m] by blast
    then show ?thesis using False by (intro exI [of _ news]) (auto simp: add_step)
  qed
qed simp

lemma add_read_write_fold:
  "\<exists>news. fold (add_read_write d) ps (f, m) = (f\<lparr>fs_read_write := fs_read_write f @ news\<rparr>, m \<or> news \<noteq> []) \<and> distinct news
     \<and> (\<forall>p \<in> set news. p \<in> set ps \<and> dk_exists d p \<and> p \<notin> set (fs_read_write f))
     \<and> (\<forall>p \<in> set ps. dk_exists d p \<longrightarrow> p \<in> set (fs_read_write f) \<union> set news)"
proof (induction ps arbitrary: f m)
  case (Cons q ps)
  show ?case
  proof (cases "q \<notin> set (fs_read_write f) \<and> dk_exists d q")
    case True
    obtain news where "fold (add_read_write d) ps (f\<lparr>fs_read_write := fs_read_write f @ [q]\<rparr>, True) = (f\<lparr>fs_read_write := fs_read_write f @ q # news\<rparr>, True)"
      "distinct news" "\<forall>p \<in> set news. p \<in> set ps \<and> dk_exists d p \<and> p \<notin> set (fs_read_write f) \<and> p \<noteq> q"
      "\<forall>p \<in> set ps. dk_exists d p \<longrightarrow> p \<in> insert q (set (fs_read_write f)) \<union> set news"
      using Cons.IH [of "f\<lparr>fs_read_write := fs_read_write f @ [q]\<rparr>" True] by auto
    then show ?thesis using True by (intro exI [of _ "q # news"]) (auto simp: add_step)
  next
    case False
    obtain news where "fold (add_read_write d) ps (f, m) = (f\<lparr>fs_read_write := fs_read_write f @ news\<rparr>, m \<or> news \<noteq> [])" "distinct news"
      "\<forall>p \<in> set news. p \<in> set ps \<and> dk_exists d p \<and> p \<notin> set (fs_read_write f)"
      "\<forall>p \<in> set ps. dk_exists d p \<longrightarrow> p \<in> set (fs_read_write f) \<union> set news" using Cons.IH [of f m] by blast
    then show ?thesis using False by (intro exI [of _ news]) (auto simp: add_step)
  qed
qed simp

lemma add_nothing:
  "\<forall>p \<in> set ps. dk_exists d p \<longrightarrow> p \<in> set (fs_read_only f) \<union> set (fs_read_write f) \<Longrightarrow> fold (add_read_only d) ps (f, m) = (f, m)"
  "\<forall>p \<in> set ps. dk_exists d p \<longrightarrow> p \<in> set (fs_read_write f) \<Longrightarrow> fold (add_read_write d) ps (f, m) = (f, m)"
  by (induction ps) (auto simp: add_step)

text \<open>The filesystem section that is enriched.\<close>

definition filesystem_or_default :: "sandbox_policy \<Rightarrow> filesystem_policy" where
  "filesystem_or_default p = (case sp_filesystem p of Some f \<Rightarrow> f | None \<Rightarrow> \<lparr>fs_include_workdir = True, fs_read_only = [], fs_read_write = []\<rparr>)"

lemma enrich_cases:
  assumes "enrich_proto_baseline_paths d p = (p', modified)" "sp_network_policies p \<noteq> []" "baseline_enrichment_paths d = (ro, rw)"
  obtains ro_news rw_news where
    "p' = p\<lparr>sp_filesystem := Some ((filesystem_or_default p)\<lparr>fs_read_only := fs_read_only (filesystem_or_default p) @ ro_news,
       fs_read_write := fs_read_write (filesystem_or_default p) @ rw_news\<rparr>)\<rparr>"
    "modified \<longleftrightarrow> ro_news @ rw_news \<noteq> []" "\<forall>q \<in> set ro_news. q \<in> set ro \<and> dk_exists d q" "\<forall>q \<in> set rw_news. q \<in> set rw \<and> dk_exists d q"
    "\<forall>q \<in> set ro. dk_exists d q \<longrightarrow> q \<in> set (fs_read_only (filesystem_or_default p) @ ro_news @ fs_read_write (filesystem_or_default p) @ rw_news)"
    "\<forall>q \<in> set rw. dk_exists d q \<longrightarrow> q \<in> set (fs_read_write (filesystem_or_default p) @ rw_news)"
proof -
  let ?f = "filesystem_or_default p"
  obtain rn where rn: "fold (add_read_only d) ro (?f, False) = (?f\<lparr>fs_read_only := fs_read_only ?f @ rn\<rparr>, rn \<noteq> [])" "\<forall>q \<in> set rn. q \<in> set ro \<and> dk_exists d q"
    "\<forall>q \<in> set ro. dk_exists d q \<longrightarrow> q \<in> set (fs_read_only ?f) \<union> set rn \<union> set (fs_read_write ?f)"
    using add_read_only_fold [of d ro ?f False] by auto
  obtain wn where wn: "fold (add_read_write d) rw (?f\<lparr>fs_read_only := fs_read_only ?f @ rn\<rparr>, rn \<noteq> [])
      = (?f\<lparr>fs_read_only := fs_read_only ?f @ rn, fs_read_write := fs_read_write ?f @ wn\<rparr>, rn \<noteq> [] \<or> wn \<noteq> [])"
    "\<forall>q \<in> set wn. q \<in> set rw \<and> dk_exists d q" "\<forall>q \<in> set rw. dk_exists d q \<longrightarrow> q \<in> set (fs_read_write ?f) \<union> set wn"
    using add_read_write_fold [of d rw "?f\<lparr>fs_read_only := fs_read_only ?f @ rn\<rparr>" "rn \<noteq> []"] by auto
  have "enrich_proto_baseline_paths d p = (p\<lparr>sp_filesystem := Some (?f\<lparr>fs_read_only := fs_read_only ?f @ rn, fs_read_write := fs_read_write ?f @ wn\<rparr>)\<rparr>, rn \<noteq> [] \<or> wn \<noteq> [])"
    unfolding enrich_proto_baseline_paths_def using assms(2,3) rn(1) wn(1) by (simp add: filesystem_or_default_def Let_def)
  then have p': "p' = p\<lparr>sp_filesystem := Some (?f\<lparr>fs_read_only := fs_read_only ?f @ rn, fs_read_write := fs_read_write ?f @ wn\<rparr>)\<rparr>" "modified \<longleftrightarrow> rn @ wn \<noteq> []"
    using assms(1) by simp_all
  show ?thesis by (rule that [OF p' rn(2) wn(2)]) (use rn(3) wn(3) in auto)
qed

text \<open>Enrichment of a policy with network rules adds to its filesystem section exactly the baseline paths that exist and are missing, and
  changes nothing else: the paths of the policy keep their places, every existing baseline path is there afterwards, a second enrichment
  changes nothing, and the gateway accepts the enriched policy as an update of the original as far as the static fields go.\<close>

theorem enrichment_adds_baseline:
  assumes "sp_network_policies p \<noteq> []" "enrich_proto_baseline_paths d p = (p', modified)" "baseline_enrichment_paths d = (ro, rw)"
  shows "\<exists>f' ro_news rw_news. p' = p\<lparr>sp_filesystem := Some f'\<rparr> \<and> fs_include_workdir f' = fs_include_workdir (filesystem_or_default p)
      \<and> fs_read_only f' = fs_read_only (filesystem_or_default p) @ ro_news \<and> fs_read_write f' = fs_read_write (filesystem_or_default p) @ rw_news
      \<and> (modified \<longleftrightarrow> ro_news @ rw_news \<noteq> [])
      \<and> set ro_news \<subseteq> {q \<in> set ro. dk_exists d q} \<and> set rw_news \<subseteq> {q \<in> set rw. dk_exists d q}
      \<and> {q \<in> set ro. dk_exists d q} \<subseteq> set (fs_read_only f' @ fs_read_write f') \<and> {q \<in> set rw. dk_exists d q} \<subseteq> set (fs_read_write f')
      \<and> enrich_proto_baseline_paths d p' = (p', False) \<and> validate_static_fields_unchanged p p' = Inr ()"
proof -
  obtain rn wn where e: "p' = p\<lparr>sp_filesystem := Some ((filesystem_or_default p)\<lparr>fs_read_only := fs_read_only (filesystem_or_default p) @ rn,
       fs_read_write := fs_read_write (filesystem_or_default p) @ wn\<rparr>)\<rparr>" (is "_ = p\<lparr>sp_filesystem := Some ?f\<rparr>")
    "modified \<longleftrightarrow> rn @ wn \<noteq> []" "\<forall>q \<in> set rn. q \<in> set ro \<and> dk_exists d q" "\<forall>q \<in> set wn. q \<in> set rw \<and> dk_exists d q"
    "\<forall>q \<in> set ro. dk_exists d q \<longrightarrow> q \<in> set (fs_read_only (filesystem_or_default p) @ rn @ fs_read_write (filesystem_or_default p) @ wn)"
    "\<forall>q \<in> set rw. dk_exists d q \<longrightarrow> q \<in> set (fs_read_write (filesystem_or_default p) @ wn)"
    by (rule enrich_cases [OF assms(2,1,3)])
  have "fold (add_read_write d) rw (fold (add_read_only d) ro (?f, False)) = (?f, False)"
    using e(5,6) by (subst add_nothing(1)) (auto intro: add_nothing(2))
  then have "enrich_proto_baseline_paths d p' = (p', False)"
    using assms(1,3) e(1) by (simp add: enrich_proto_baseline_paths_def Let_def)
  moreover have "validate_static_fields_unchanged p p' = Inr ()"
    using e(1) by (auto simp: validate_static_fields_ok static_extends_def fs_extends_def filesystem_or_default_def split: option.splits)
  ultimately show ?thesis using e by (intro exI [of _ ?f] exI [of _ rn] exI [of _ wn]) auto
qed

definition example_disk :: disk where
  "example_disk = \<lparr>dk_exists = (\<lambda>p. p \<in> set [''/usr'', ''/tmp'', ''/dev/nvidiactl'', ''/dev/nvidia0'', ''/proc'']), dk_dev = [''nvidia'', ''nvidia0'', ''nvidiactl''],
     dk_read = (\<lambda>_. None)\<rparr>"

definition ruled_policy :: sandbox_policy where
  "ruled_policy = restrictive_default_policy\<lparr>sp_filesystem := None, sp_network_policies := [(''r'', \<lparr>np_name = ''r'', np_endpoints = [], np_binaries = []\<rparr>)]\<rparr>"

theorem enrichment_adds_baseline_witness:
  "snd (enrich_proto_baseline_paths example_disk ruled_policy)
   \<and> enrich_proto_baseline_paths example_disk (fst (enrich_proto_baseline_paths example_disk ruled_policy)) = (fst (enrich_proto_baseline_paths example_disk ruled_policy), False)"
proof -
  obtain ro rw where b: "baseline_enrichment_paths example_disk = (ro, rw)" by fastforce
  have "''/tmp'' \<in> set rw" using b by (auto simp: baseline_enrichment_paths_def PROXY_BASELINE_READ_WRITE_def Let_def)
  moreover obtain p' m where e: "enrich_proto_baseline_paths example_disk ruled_policy = (p', m)" by fastforce
  moreover have "sp_network_policies ruled_policy \<noteq> []" by (simp add: ruled_policy_def)
  ultimately show ?thesis using enrichment_adds_baseline [OF _ e b]
    by (auto simp: ruled_policy_def filesystem_or_default_def example_disk_def)
qed


section \<open>Discovered policies\<close>

lemma restrictive_default_safe: "safe_policy restrictive_default_policy"
  unfolding safe_policy_def safe_filesystem_def safe_path_def restrictive_default_policy_def by simp

text \<open>Whatever is on disk, a discovered policy is safe; files that are missing, malformed or unsafe give the default without network access.\<close>

lemma discovered_policy_safe:
  assumes "discover_policy_from_disk_or_default from_str d = Some p"
  shows "validate_sandbox_policy p = Some (Inr ()) \<and> safe_policy p"
proof -
  have "safe_policy p" if "discover_policy_from_path from_str d path = Some p" for path
    using that restrictive_default_safe
    by (auto simp: discover_policy_from_path_def validate_sandbox_policy_safe [symmetric] split: option.splits sum.splits)
  then show ?thesis using assms by (auto simp: discover_policy_from_disk_or_default_def validate_sandbox_policy_safe split: if_splits)
qed


section \<open>Decisions depend on the network rules only\<close>

text \<open>Two engines with the same network rules, whatever their other sections, give the same answers to every query of the proxy.\<close>

definition same_rules :: "json \<Rightarrow> json \<Rightarrow> bool" where
  "same_rules e e' \<longleftrightarrow> ref (Some e) ''network_policies'' = ref (Some e') ''network_policies''"

lemma same_rules_answers:
  assumes "same_rules e e'"
  shows "evaluate_network_action rb e inp = evaluate_network_action rb e' inp" "evaluate_network rb e inp = evaluate_network rb e' inp"
    "query_endpoint_config rb e inp = query_endpoint_config rb e' inp" "tunnel_rego rb e = tunnel_rego rb e'"
proof -
  have np: "network_policies e = network_policies e'" "ref (Some e) ''network_policies'' = ref (Some e') ''network_policies''"
    using assms by (simp_all add: same_rules_def network_policies_def)
  have a: "network_policy_for_request rb e j = network_policy_for_request rb e' j" "deny_reasons rb e j = deny_reasons rb e' j"
    "matching_policy_names rb e j = matching_policy_names rb e' j" "allow_request rb e j = allow_request rb e' j"
    "request_deny_reason rb e j = request_deny_reason rb e' j" for j
    by (simp_all only: network_policy_for_request_def deny_reasons_def endpoint_misses_def binary_misses_def matching_policy_names_def allow_request_def
        request_deny_reason_def np)
  show "evaluate_network_action rb e inp = evaluate_network_action rb e' inp" "evaluate_network rb e inp = evaluate_network rb e' inp"
    "query_endpoint_config rb e inp = query_endpoint_config rb e' inp" "tunnel_rego rb e = tunnel_rego rb e'"
    unfolding evaluate_network_action_def evaluate_network_def query_endpoint_config_def tunnel_rego_def matched_endpoint_config_def matching_endpoint_configs_def
      network_action_rule_def allow_network_def matched_network_policy_def a np by (rule refl)+
qed

lemma same_rules_loaded: "sp_network_policies p = sp_network_policies p' \<Longrightarrow> same_rules (loaded_data p) (loaded_data p')"
  using loaded_network_policies [of p] loaded_network_policies [of p'] by (simp add: same_rules_def)

lemma same_rules_trans: "same_rules e e' \<Longrightarrow> same_rules e' e'' \<Longrightarrow> same_rules e e''" and same_rules_refl [simp]: "same_rules e e"
  by (simp_all add: same_rules_def)

lemma enrich_rules [simp]: "sp_network_policies (fst (enrich_proto_baseline_paths d p)) = sp_network_policies p"
  by (simp add: enrich_proto_baseline_paths_def Let_def split_beta)


section \<open>The last policy that loads\<close>

text \<open>The policies among the answers that load.\<close>

definition good_policies :: "(string, get_sandbox_config_response) result list \<Rightarrow> sandbox_policy list" where
  "good_policies answers = List.map_filter (\<lambda>answer. case answer of Inl _ \<Rightarrow> None
     | Inr r \<Rightarrow> (case gc_policy r of None \<Rightarrow> None | Some p \<Rightarrow> if is_ok (engine_from_proto p) then Some p else None)) answers"

lemma good_policies_simps [simp]: "good_policies [] = []" "good_policies (Inl e # as) = good_policies as"
  "good_policies (Inr r # as) = (case gc_policy r of None \<Rightarrow> good_policies as
     | Some p \<Rightarrow> if is_ok (engine_from_proto p) then p # good_policies as else good_policies as)"
  by (simp_all add: good_policies_def List.map_filter_def split: option.split)

text \<open>Answers of one revision have the same hash, and answers of one hash the same policy.\<close>

definition fingerprints_tell :: "get_sandbox_config_response list \<Rightarrow> bool" where
  "fingerprints_tell rs \<longleftrightarrow> (\<forall>a \<in> set rs. \<forall>b \<in> set rs. (gc_config_revision a = gc_config_revision b \<longrightarrow> gc_policy_hash a = gc_policy_hash b)
     \<and> (gc_policy_hash a = gc_policy_hash b \<longrightarrow> gc_policy a = gc_policy b))"

definition answered :: "(string, get_sandbox_config_response) result list \<Rightarrow> get_sandbox_config_response list" where
  "answered answers = List.map_filter (\<lambda>a. case a of Inl _ \<Rightarrow> None | Inr r \<Rightarrow> Some r) answers"

lemma answered_simps [simp]: "answered [] = []" "answered (Inl e # as) = answered as" "answered (Inr r # as) = r # answered as"
  by (simp_all add: answered_def List.map_filter_def)

text \<open>The state remembers answer \<open>r\<close>, and runs its policy if that loads.\<close>

definition follows :: "get_sandbox_config_response \<Rightarrow> poll_state \<Rightarrow> bool" where
  "follows r s \<longleftrightarrow> ps_config_revision s = gc_config_revision r \<and> ps_policy_hash s = gc_policy_hash r
     \<and> (\<forall>p \<in> set (good_policies [Inr r]). same_rules (ps_engine s) (loaded_data p))"

lemma reload_engine: "snd (reload_from_proto p e) = (if is_ok (engine_from_proto p) then loaded_data p else e)"
  using engine_from_proto_loaded [of p] by (cases "engine_from_proto p") (simp_all add: reload_from_proto_def is_ok_def)

lemma poll_tick_engine:
  assumes "follows r s" "fingerprints_tell (r # r' # rs)"
  shows "same_rules (ps_engine (poll_tick (Inr r') s)) (last (ps_engine s # map loaded_data (good_policies [Inr r']))) \<and> follows r' (poll_tick (Inr r') s)"
proof -
  have tell: "gc_config_revision r' = gc_config_revision r \<longrightarrow> gc_policy_hash r' = gc_policy_hash r" "gc_policy_hash r' = gc_policy_hash r \<longrightarrow> gc_policy r' = gc_policy r"
    using assms(2) unfolding fingerprints_tell_def by (meson list.set_intros)+
  show ?thesis
  proof (cases "gc_policy_hash r' = gc_policy_hash r")
    case True
    then have "good_policies [Inr r'] = good_policies [Inr r]" using tell(2) by simp
    then show ?thesis using assms(1) True
      by (auto simp: poll_tick_def poll_remember_def follows_def Let_def last_map simp del: good_policies_simps split: option.splits)
  next
    case False
    then have "gc_config_revision r' \<noteq> gc_config_revision r" using tell(1) by blast
    then show ?thesis using assms(1) False
      by (auto simp: poll_tick_def poll_remember_def reload_and_report_def follows_def reload_engine Let_def split_beta split: option.splits)
  qed
qed

lemma poll_ticks_engine:
  assumes "follows r s" "fingerprints_tell (r # answered answers)"
  shows "same_rules (ps_engine (fold poll_tick answers s)) (last (ps_engine s # map loaded_data (good_policies answers)))"
  using assms
proof (induction answers arbitrary: r s)
  case (Cons a answers)
  show ?case
  proof (cases a)
    case (Inl e)
    then have "fingerprints_tell (r # answered answers)" using Cons.prems(2) by simp
    then show ?thesis using Cons.IH [OF Cons.prems(1)] Inl by (simp add: poll_tick_def)
  next
    case (Inr r')
    then have tell: "fingerprints_tell (r # r' # answered answers)" using Cons.prems(2) by simp
    then have "fingerprints_tell (r' # answered answers)" unfolding fingerprints_tell_def by (meson list.set_intros(2))
    moreover have "follows r' (poll_tick a s)" using poll_tick_engine [OF Cons.prems(1) tell] Inr by blast
    ultimately have "same_rules (ps_engine (fold poll_tick (a # answers) s)) (last (ps_engine (poll_tick a s) # map loaded_data (good_policies answers)))"
      using Cons.IH by (simp only: fold_simps)
    moreover have "same_rules (last (ps_engine (poll_tick a s) # map loaded_data (good_policies answers))) (last (ps_engine s # map loaded_data (good_policies (a # answers))))"
      using poll_tick_engine [OF Cons.prems(1) tell] Inr by (auto split: option.splits if_splits)
    ultimately show ?thesis by (rule same_rules_trans)
  qed
qed simp

text \<open>C6: a sandbox that started with the rules of the policy of the first poll decides, after any sequence of polls, every connection as
  the last of the served policies that loads, provided the fingerprints tell policies apart: a policy that does not load and an
  unreachable gateway leave the last good policy in force.\<close>

theorem polling_runs_last_good_policy:
  assumes "gc_policy first = Some p0" "same_rules engine (loaded_data p0)" "fingerprints_tell (first # answered answers)"
    and "s = fold poll_tick answers (poll_start engine (Inr first) ocsf)" "p = last (p0 # good_policies answers)"
  shows "evaluate_network_action rb (ps_engine s) inp = evaluate_network_action rb (loaded_data p) inp
    \<and> query_endpoint_config rb (ps_engine s) inp = query_endpoint_config rb (loaded_data p) inp
    \<and> tunnel_rego rb (ps_engine s) = tunnel_rego rb (loaded_data p)"
proof -
  have "follows first (poll_start engine (Inr first) ocsf)" using assms(1,2) by (simp add: follows_def poll_start_def)
  from poll_ticks_engine [OF this assms(3)] have "same_rules (ps_engine s) (last (engine # map loaded_data (good_policies answers)))"
    using assms(4) by (simp add: poll_start_def)
  moreover have "same_rules (last (engine # map loaded_data (good_policies answers))) (loaded_data p)"
    using assms(2,5) by (simp add: last_map)
  ultimately have "same_rules (ps_engine s) (loaded_data p)" by (rule same_rules_trans)
  then show ?thesis by (simp add: same_rules_answers)
qed


text \<open>The first poll only records the fingerprints. A policy that became current between the start and the first poll is therefore
  never loaded, however often it is served.\<close>

theorem first_poll_skips_reload:
  "ps_engine (fold poll_tick (replicate n (Inr r)) (poll_start engine (Inr r) ocsf)) = engine"
  by (induction n) (simp_all add: poll_tick_def poll_start_def)

definition example_answer :: "sandbox_policy \<Rightarrow> string \<Rightarrow> 64 word \<Rightarrow> get_sandbox_config_response" where
  "example_answer p h n = \<lparr>gc_policy = Some p, gc_version = 1, gc_policy_hash = h, gc_settings = [], gc_config_revision = n, gc_policy_source = SourceSandbox,
     gc_global_policy_version = 0\<rparr>"

definition unloadable_policy :: sandbox_policy where
  "unloadable_policy = example_rules [Opa_Props.example_endpoint\<lparr>ep_access := []\<rparr>]"

lemma unloadable: "\<exists>msg. engine_from_proto unloadable_policy = Inl msg"
proof -
  have "\<not> is_ok (engine_from_proto unloadable_policy)" unfolding loads_iff by code_simp
  then show ?thesis by (cases "engine_from_proto unloadable_policy") (simp_all add: is_ok_def)
qed

lemma default_loads: "is_ok (engine_from_proto sandbox_policy_default)" unfolding loads_iff by code_simp

theorem polling_runs_last_good_policy_witness:
  "evaluate_network_action example_builtins (ps_engine (fold poll_tick [Inl ''down'', Inr (example_answer sandbox_policy_default ''b'' 2), Inr (example_answer unloadable_policy ''c'' 3)]
      (poll_start (loaded_data (example_rules [Opa_Props.example_endpoint])) (Inr (example_answer (example_rules [Opa_Props.example_endpoint]) ''a'' 1)) False))) curl_input
    = evaluate_network_action example_builtins (loaded_data sandbox_policy_default) curl_input"
proof -
  have "fingerprints_tell (example_answer (example_rules [Opa_Props.example_endpoint]) ''a'' 1 # answered
      [Inl ''down'', Inr (example_answer sandbox_policy_default ''b'' 2), Inr (example_answer unloadable_policy ''c'' 3)])"
    by (simp add: fingerprints_tell_def example_answer_def)
  moreover have "sandbox_policy_default = last (example_rules [Opa_Props.example_endpoint] # good_policies
      [Inl ''down'', Inr (example_answer sandbox_policy_default ''b'' 2), Inr (example_answer unloadable_policy ''c'' 3)])"
    using unloadable default_loads by (auto simp: example_answer_def is_ok_def)
  moreover have "gc_policy (example_answer (example_rules [Opa_Props.example_endpoint]) ''a'' 1) = Some (example_rules [Opa_Props.example_endpoint])"
    by (simp add: example_answer_def)
  ultimately show ?thesis using polling_runs_last_good_policy [OF _ same_rules_refl _ refl] by blast
qed



definition example_gateway :: "unit gateway_client" where
  "example_gateway = \<lparr>gl_get = (\<lambda>_ g. (Inr (example_answer (example_rules [Opa_Props.example_endpoint]) ''a'' 1), g)), gl_update = (\<lambda>_ g. (Inr (), g))\<rparr>"


end
