(* ===== verification/Sandbox_Lifecycle.thy ===== *)
theory Sandbox_Lifecycle
  imports Sandbox_Pod Ssh_Sessions Policy_Loading
begin

text \<open>
  The life of a sandbox record: the create, get, list and delete handlers (\<open>grpc/sandbox.rs\<close>), the cluster watcher and the reconciler
  (\<open>sandbox/mod.rs\<close>), the index of names and pods (\<open>sandbox_index.rs\<close>) and the log bus (\<open>tracing_bus.rs\<close>). The
  answers of the cluster are arguments; so are time, identifiers and generated names.
\<close>

section \<open>The index\<close>

record sandbox_index =
  ix_name_to_id :: "string \<rightharpoonup> string"
  ix_pod_to_id :: "string \<rightharpoonup> string"

definition update_from_sandbox :: "'s sandbox \<Rightarrow> sandbox_index \<Rightarrow> sandbox_index" where
  "update_from_sandbox sandbox ix =
     (let ix1 = (if sb_name sandbox \<noteq> [] then ix\<lparr>ix_name_to_id := (ix_name_to_id ix)(sb_name sandbox \<mapsto> sb_id sandbox)\<rparr> else ix)
      in case sb_status sandbox of
           Some st \<Rightarrow> if su_agent_pod st \<noteq> [] then ix1\<lparr>ix_pod_to_id := (ix_pod_to_id ix1)(su_agent_pod st \<mapsto> sb_id sandbox)\<rparr> else ix1
         | None \<Rightarrow> ix1)"

definition retain_other :: "string \<Rightarrow> (string \<rightharpoonup> string) \<Rightarrow> string \<rightharpoonup> string" where
  "retain_other sandbox_id m = (\<lambda>k. if m k = Some sandbox_id then None else m k)"

definition remove_sandbox :: "string \<Rightarrow> sandbox_index \<Rightarrow> sandbox_index" where
  "remove_sandbox sandbox_id ix = \<lparr>ix_name_to_id = retain_other sandbox_id (ix_name_to_id ix), ix_pod_to_id = retain_other sandbox_id (ix_pod_to_id ix)\<rparr>"

text \<open>The sandbox of a cluster event, by the kind and name of the object it is about.\<close>

definition event_sandbox :: "sandbox_index \<Rightarrow> string \<Rightarrow> string \<Rightarrow> string option" where
  "event_sandbox ix kind name =
     (if kind = ''Sandbox'' then ix_name_to_id ix name
      else if kind = ''Pod'' then (case ix_name_to_id ix name of Some i \<Rightarrow> Some i | None \<Rightarrow> ix_pod_to_id ix name)
      else None)"

section \<open>The log bus\<close>

record log_line =
  lo_sandbox_id :: string
  lo_timestamp_ms :: int
  lo_level :: string
  lo_target :: string
  lo_message :: string
  lo_source :: string
  lo_fields :: "string str_map"

definition DEFAULT_TAIL :: nat where "DEFAULT_TAIL = 2000"

text \<open>The tail buffer of every sandbox that has an entry.\<close>

type_synonym 'e log_bus = "string \<rightharpoonup> 'e list"

definition bus_publish :: "string \<Rightarrow> 'e \<Rightarrow> nat \<Rightarrow> 'e log_bus \<Rightarrow> 'e log_bus" where
  "bus_publish sandbox_id event tail_cap bus =
     (let deque = (case bus sandbox_id of Some d \<Rightarrow> d | None \<Rightarrow> []) @ [event]
      in bus(sandbox_id \<mapsto> drop (length deque - tail_cap) deque))"

definition bus_tail :: "string \<Rightarrow> nat \<Rightarrow> 'e log_bus \<Rightarrow> 'e list" where
  "bus_tail sandbox_id mx bus = (case bus sandbox_id of Some d \<Rightarrow> rev (take mx (rev d)) | None \<Rightarrow> [])"

definition bus_remove :: "string \<Rightarrow> 'e log_bus \<Rightarrow> 'e log_bus" where
  "bus_remove sandbox_id bus = bus(sandbox_id := None)"

section \<open>Status of a resource\<close>

definition str_field :: "json \<Rightarrow> string \<Rightarrow> string" where
  "str_field j key = (case as_str (jget j key) of Some v \<Rightarrow> v | None \<Rightarrow> [])"

definition condition_from_value :: "json \<Rightarrow> sandbox_condition option" where
  "condition_from_value value = (if \<not> is_object value then None
     else case (as_str (jget value ''type''), as_str (jget value ''status'')) of
       (Some t, Some st) \<Rightarrow> Some \<lparr>cn_type = t, cn_status = st, cn_reason = str_field value ''reason'', cn_message = str_field value ''message'',
          cn_last_transition_time = str_field value ''lastTransitionTime''\<rparr>
     | _ \<Rightarrow> None)"

definition status_from_object :: "json \<Rightarrow> sandbox_status option" where
  "status_from_object data = (case jget data ''status'' of
     Some status \<Rightarrow> if \<not> is_object status then None else Some
       \<lparr>su_sandbox_name = str_field status ''sandboxName'', su_agent_pod = str_field status ''agentPod'', su_agent_fd = str_field status ''agentFd'',
        su_sandbox_fd = str_field status ''sandboxFd'',
        su_conditions = (case as_array (jget status ''conditions'') of Some vs \<Rightarrow> List.map_filter condition_from_value vs | None \<Rightarrow> [])\<rparr>
   | None \<Rightarrow> None)"

definition gpu_unschedulable_message :: string where
  "gpu_unschedulable_message = ''GPU sandbox could not be scheduled on the active gateway. Another GPU sandbox may already be using the available GPU, or the gateway may not currently be able to satisfy GPU placement. Please refer to documentation and use `openshell doctor` commands to inspect GPU support and gateway configuration.''"

definition rewrite_user_facing_conditions :: "'s sandbox_spec option \<Rightarrow> sandbox_status option \<Rightarrow> sandbox_status option" where
  "rewrite_user_facing_conditions spec status =
     (if (case spec of Some s \<Rightarrow> ss_gpu s | None \<Rightarrow> False)
      then map_option (\<lambda>st. st\<lparr>su_conditions := map (\<lambda>c.
          if cn_type c = ''Ready'' \<and> eq_ignore_ascii_case (cn_status c) ''false'' \<and> eq_ignore_ascii_case (cn_reason c) ''Unschedulable''
          then c\<lparr>cn_message := gpu_unschedulable_message\<rparr> else c) (su_conditions st)\<rparr>) status
      else status)"

definition is_terminal_failure_condition :: "sandbox_condition \<Rightarrow> bool" where
  "is_terminal_failure_condition c \<longleftrightarrow> to_ascii_lowercase (cn_reason c) \<notin> set [''reconcilererror'', ''dependenciesnotready'']"

datatype sandbox_phase = PhaseUnspecified | Provisioning | Ready | PhaseError | Deleting | PhaseUnknown

definition phase_number :: "sandbox_phase \<Rightarrow> int" where
  "phase_number p = (case p of PhaseUnspecified \<Rightarrow> 0 | Provisioning \<Rightarrow> 1 | Ready \<Rightarrow> 2 | PhaseError \<Rightarrow> 3 | Deleting \<Rightarrow> 4 | PhaseUnknown \<Rightarrow> 5)"

definition derive_phase :: "sandbox_status option \<Rightarrow> bool \<Rightarrow> sandbox_phase" where
  "derive_phase status deleting =
     (if deleting then Deleting
      else case status of
        None \<Rightarrow> PhaseUnknown
      | Some st \<Rightarrow> (case find (\<lambda>c. cn_type c = ''Ready'') (su_conditions st) of
          None \<Rightarrow> Provisioning
        | Some c \<Rightarrow> if eq_ignore_ascii_case (cn_status c) ''true'' then Ready
            else if eq_ignore_ascii_case (cn_status c) ''false'' \<and> is_terminal_failure_condition c then PhaseError
            else Provisioning))"

section \<open>The cluster\<close>

datatype kube_error = KubeApi nat string | KubeOther string

datatype 'a api_outcome = ApiOk 'a | ApiErr kube_error | ApiTimeout

definition KUBE_API_TIMEOUT :: nat where "KUBE_API_TIMEOUT = 30"

definition timed_out :: kube_error where
  "timed_out = KubeApi 504 (''timed out after '' @ show_nat KUBE_API_TIMEOUT @ ''s waiting for Kubernetes API'')"

record ('n, 'b) lifecycle_env =
  le_sandbox :: "('n proto_struct sandbox, 'b) message_type"
  le_provider :: "(provider, 'b) message_type"
  le_session :: "(ssh_session, 'b) message_type"
  le_encoded_len :: "'n proto_struct \<Rightarrow> nat"
  le_policy_len :: "sandbox_policy \<Rightarrow> nat"
  le_num :: "'n \<Rightarrow> json"
  le_cluster :: cluster_config
  le_sandbox_namespace :: string
  le_nodes :: "(string, string str_map option list) result"
  le_api_create :: "cluster_object \<Rightarrow> unit api_outcome"
  le_api_delete :: "string \<Rightarrow> unit api_outcome"
  le_api_get :: "string \<Rightarrow> unit api_outcome"
  le_error_text :: "kube_error \<Rightarrow> string"

definition validate_gpu_support :: "('n, 'b) lifecycle_env \<Rightarrow> (status, unit) result" where
  "validate_gpu_support env = (case le_nodes env of
     Inl e \<Rightarrow> Inl (internal (''check GPU node capacity failed: '' @ e))
   | Inr nodes \<Rightarrow> if list_ex (\<lambda>allocatable. case Option.bind allocatable (\<lambda>m. map_of m ''nvidia.com/gpu'') of Some q \<Rightarrow> q \<noteq> ''0'' | None \<Rightarrow> False) nodes then Inr ()
       else Inl (failed_precondition ''GPU sandbox requested, but the active gateway has no allocatable GPUs. Please refer to documentation and use `openshell doctor` commands to inspect GPU support and gateway configuration.''))"

definition client_create :: "('n, 'b) lifecycle_env \<Rightarrow> 'n proto_struct sandbox \<Rightarrow> (kube_error, unit) result" where
  "client_create env sandbox = (case le_api_create env (cluster_object_of (le_num env) (le_cluster env) sandbox) of
     ApiOk _ \<Rightarrow> Inr () | ApiErr e \<Rightarrow> Inl e | ApiTimeout \<Rightarrow> Inl timed_out)"

definition client_delete :: "('n, 'b) lifecycle_env \<Rightarrow> string \<Rightarrow> (kube_error, bool) result" where
  "client_delete env name = (case le_api_delete env name of
     ApiOk _ \<Rightarrow> Inr True | ApiErr (KubeApi code msg) \<Rightarrow> if code = 404 then Inr False else Inl (KubeApi code msg)
   | ApiErr e \<Rightarrow> Inl e | ApiTimeout \<Rightarrow> Inl timed_out)"


section \<open>The state of the gateway\<close>

record platform_event =
  pe_timestamp_ms :: int
  pe_source :: string
  pe_type :: string
  pe_reason :: string
  pe_message :: string
  pe_metadata :: "string str_map"

record 'b gateway_state =
  gs_store :: "'b store"
  gs_index :: sandbox_index
  gs_logs :: "log_line log_bus"
  gs_platform :: "platform_event log_bus"

definition remove_buses :: "string \<Rightarrow> 'b gateway_state \<Rightarrow> 'b gateway_state" where
  "remove_buses sandbox_id g = g\<lparr>gs_logs := bus_remove sandbox_id (gs_logs g), gs_platform := bus_remove sandbox_id (gs_platform g)\<rparr>"

text \<open>A cluster event, and the event it becomes for the sandbox it is about.\<close>

record kube_event =
  ke_kind :: "string option"
  ke_name :: "string option"
  ke_namespace :: "string option"
  ke_count :: "int option"
  ke_last_ms :: "int option"
  ke_first_ms :: "int option"
  ke_type :: "string option"
  ke_reason :: "string option"
  ke_message :: "string option"

definition or_empty :: "string option \<Rightarrow> string" where "or_empty o0 = (case o0 of Some s \<Rightarrow> s | None \<Rightarrow> [])"

definition map_kube_event_to_platform :: "(int \<Rightarrow> string) \<Rightarrow> sandbox_index \<Rightarrow> kube_event \<Rightarrow> (string \<times> platform_event) option" where
  "map_kube_event_to_platform show_count ix e = (case event_sandbox ix (or_empty (ke_kind e)) (or_empty (ke_name e)) of
     None \<Rightarrow> None
   | Some i \<Rightarrow> Some (i, \<lparr>pe_timestamp_ms = (case ke_last_ms e of Some t \<Rightarrow> t | None \<Rightarrow> (case ke_first_ms e of Some t \<Rightarrow> t | None \<Rightarrow> 0)),
       pe_source = ''kubernetes'', pe_type = or_empty (ke_type e), pe_reason = or_empty (ke_reason e), pe_message = or_empty (ke_message e),
       pe_metadata = [(''involved_kind'', or_empty (ke_kind e)), (''involved_name'', or_empty (ke_name e))]
         @ (case ke_namespace e of Some n \<Rightarrow> [(''namespace'', n)] | None \<Rightarrow> []) @ (case ke_count e of Some c \<Rightarrow> [(''count'', show_count c)] | None \<Rightarrow> [])\<rparr>))"

definition publish_kube_event :: "(int \<Rightarrow> string) \<Rightarrow> kube_event \<Rightarrow> 'b gateway_state \<Rightarrow> 'b gateway_state" where
  "publish_kube_event show_count e g = (case map_kube_event_to_platform show_count (gs_index g) e of
     None \<Rightarrow> g | Some (i, evt) \<Rightarrow> g\<lparr>gs_platform := bus_publish i evt 50 (gs_platform g)\<rparr>)"

section \<open>Creation\<close>

record 's create_sandbox_request =
  cq_name :: string
  cq_spec :: "'s sandbox_spec option"

fun check_providers :: "(provider, 'b) message_type \<Rightarrow> string list \<Rightarrow> 'b store \<Rightarrow> (status, unit) result" where
  "check_providers pm [] s = Inr ()"
| "check_providers pm (name # names) s = (case get_message_by_name pm name s of
     Inl e \<Rightarrow> Inl (internal (''fetch provider failed: '' @ e))
   | Inr None \<Rightarrow> Inl (failed_precondition (''provider '' @ [SQ] @ name @ [SQ] @ '' not found''))
   | Inr (Some _) \<Rightarrow> check_providers pm names s)"

definition with_template_image :: "string \<Rightarrow> 's sandbox_spec \<Rightarrow> 's sandbox_spec" where
  "with_template_image default_image spec =
     (let t = (case ss_template spec of Some t \<Rightarrow> t | None \<Rightarrow> sandbox_template_default)
      in spec\<lparr>ss_template := Some (if tm_image t = [] then t\<lparr>tm_image := default_image\<rparr> else t)\<rparr>)"

text \<open>The policy with the default identity, validated; \<open>None\<close> is a panic of the validation.\<close>

definition secured_spec :: "'s sandbox_spec \<Rightarrow> (status, 's sandbox_spec) result option" where
  "secured_spec spec = (case ss_policy spec of None \<Rightarrow> Some (Inr spec)
     | Some p \<Rightarrow> let p' = ensure_sandbox_process_identity p in
         map_option (\<lambda>r. and_then r (\<lambda>_. Inr (spec\<lparr>ss_policy := Some p'\<rparr>))) (validate_policy_safety p'))"

text \<open>Everything before the record is stored: the checks and the record. Only the store is read.\<close>

definition prepare_sandbox ::
  "('n, 'b) lifecycle_env \<Rightarrow> string \<Rightarrow> string \<Rightarrow> 'n proto_struct create_sandbox_request \<Rightarrow> 'b store \<Rightarrow> (status, 'n proto_struct sandbox) result option" where
  "prepare_sandbox env new_id petname request s = (case cq_spec request of
     None \<Rightarrow> Some (Inl (invalid_argument ''spec is required''))
   | Some spec0 \<Rightarrow> (case and_then (validate_sandbox_spec (le_encoded_len env) (le_policy_len env) (cq_name request) spec0) (\<lambda>_.
         and_then (check_providers (le_provider env) (ss_providers spec0) s) (\<lambda>_.
         if ss_gpu spec0 then validate_gpu_support env else Inr ())) of
       Inl e \<Rightarrow> Some (Inl e)
     | Inr _ \<Rightarrow> map_option (\<lambda>r. and_then r (\<lambda>spec.
         let name = (if cq_name request = [] then petname else cq_name request) in
         (case get_message_by_name (le_sandbox env) name s of
            Inl e \<Rightarrow> Inl (internal (''fetch sandbox failed: '' @ e))
          | Inr (Some _) \<Rightarrow> Inl (Status AlreadyExists (''sandbox '' @ [SQ] @ name @ [SQ] @ '' already exists''))
          | Inr None \<Rightarrow> Inr \<lparr>sb_id = new_id, sb_name = name, sb_namespace = le_sandbox_namespace env, sb_spec = Some spec, sb_status = None,
               sb_phase = phase_number Provisioning, sb_created_at_ms = 0, sb_current_policy_version = 0\<rparr>)))
         (secured_spec (with_template_image (kc_default_image (le_cluster env)) spec0))))"

definition handle_create_sandbox ::
  "('n, 'b) lifecycle_env \<Rightarrow> int \<Rightarrow> string \<Rightarrow> string \<Rightarrow> 'n proto_struct create_sandbox_request \<Rightarrow> 'b gateway_state \<Rightarrow>
   ((status, 'n proto_struct sandbox) result \<times> 'b gateway_state) option" where
  "handle_create_sandbox env now_ms new_id petname request g =
     map_option (\<lambda>prepared. case prepared of
         Inl e \<Rightarrow> (Inl e, g)
       | Inr sandbox \<Rightarrow> let g1 = g\<lparr>gs_index := update_from_sandbox sandbox (gs_index g)\<rparr> in
           (case put_message (le_sandbox env) now_ms sandbox (gs_store g) of
              Inl e \<Rightarrow> (Inl (internal (''persist sandbox failed: '' @ e)), g1)
            | Inr s1 \<Rightarrow> let undone = g1\<lparr>gs_store := snd (db_delete ''sandbox'' new_id s1), gs_index := remove_sandbox new_id (gs_index g1)\<rparr> in
                (case client_create env sandbox of
                   Inr _ \<Rightarrow> (Inr sandbox, g1\<lparr>gs_store := s1\<rparr>)
                 | Inl (KubeApi code msg) \<Rightarrow> (Inl (if code = 409 then Status AlreadyExists ''sandbox already exists''
                       else internal (''create sandbox in kubernetes failed: '' @ le_error_text env (KubeApi code msg))), undone)
                 | Inl e \<Rightarrow> (Inl (internal (''create sandbox in kubernetes failed: '' @ le_error_text env e)), undone))))
       (prepare_sandbox env new_id petname request (gs_store g))"

section \<open>Reading\<close>

definition handle_get_sandbox :: "('n, 'b) lifecycle_env \<Rightarrow> string \<Rightarrow> 'b gateway_state \<Rightarrow> (status, 'n proto_struct sandbox) result" where
  "handle_get_sandbox env name g = (if name = [] then Inl (invalid_argument ''name is required'')
     else case get_message_by_name (le_sandbox env) name (gs_store g) of
       Inl e \<Rightarrow> Inl (internal (''fetch sandbox failed: '' @ e))
     | Inr None \<Rightarrow> Inl (not_found ''sandbox not found'')
     | Inr (Some sandbox) \<Rightarrow> Inr sandbox)"

definition handle_list_sandboxes :: "('n, 'b) lifecycle_env \<Rightarrow> u32 \<Rightarrow> u32 \<Rightarrow> 'b gateway_state \<Rightarrow> (status, 'n proto_struct sandbox list) result" where
  "handle_list_sandboxes env limit offset g =
     map_result (\<lambda>r. case mt_decode (le_sandbox env) (ob_payload r) of
         None \<Rightarrow> Inl (internal ''decode sandbox failed: protobuf decode error'')
       | Some sandbox \<Rightarrow> Inr (sandbox\<lparr>sb_created_at_ms := ob_created_at_ms r\<rparr>))
       (db_list ''sandbox'' (clamp_limit limit 100 MAX_PAGE_SIZE) offset (gs_store g))"

section \<open>Deletion\<close>

definition delete_sessions_of :: "(ssh_session, 'b) message_type \<Rightarrow> string \<Rightarrow> 'b store \<Rightarrow> 'b store" where
  "delete_sessions_of sst sandbox_id s = fold (\<lambda>r s. case mt_decode sst (ob_payload r) of
       Some session \<Rightarrow> if ss_sandbox_id session = sandbox_id then snd (db_delete ''ssh_session'' (ss_id session) s) else s
     | None \<Rightarrow> s) (db_list ''ssh_session'' 1000 0 s) s"

text \<open>The completion line is logged after the buses of the sandbox are removed; of the log lines it is the only one modelled.\<close>

definition handle_delete_sandbox :: "('n, 'b) lifecycle_env \<Rightarrow> int \<Rightarrow> string \<Rightarrow> 'b gateway_state \<Rightarrow> (status, bool) result \<times> 'b gateway_state" where
  "handle_delete_sandbox env now_ms name g = (case handle_get_sandbox env name g of
     Inl e \<Rightarrow> (Inl e, g)
   | Inr found \<Rightarrow> let i = sb_id found; sandbox = found\<lparr>sb_phase := phase_number Deleting\<rparr> in
       (case put_message (le_sandbox env) now_ms sandbox (gs_store g) of
          Inl e \<Rightarrow> (Inl (internal (''persist sandbox failed: '' @ e)), g)
        | Inr s1 \<Rightarrow> let s2 = delete_sessions_of (le_session env) i s1;
                       s3 = snd (db_delete SANDBOX_SETTINGS_OBJECT_TYPE (sandbox_settings_id i) s2);
                       g1 = g\<lparr>gs_store := s3, gs_index := update_from_sandbox sandbox (gs_index g)\<rparr> in
            (case client_delete env (sb_name sandbox) of
               Inl e \<Rightarrow> (Inl (internal (''delete sandbox in kubernetes failed: '' @ le_error_text env e)), g1)
             | Inr deleted \<Rightarrow>
                 let g2 = remove_buses i (if deleted then g1 else g1\<lparr>gs_store := snd (db_delete ''sandbox'' i s3)\<rparr>);
                     line = \<lparr>lo_sandbox_id = i, lo_timestamp_ms = now_ms, lo_level = ''INFO'', lo_target = ''openshell_server::grpc::sandbox'',
                       lo_message = ''DeleteSandbox request completed successfully'', lo_source = ''gateway'', lo_fields = []\<rparr>
                 in (Inr deleted, g2\<lparr>gs_logs := bus_publish i line DEFAULT_TAIL (gs_logs g2)\<rparr>))))"

section \<open>Following the cluster\<close>

text \<open>The record written for an applied resource, from the record that was read.\<close>

definition applied_sandbox :: "('n, 'b) lifecycle_env \<Rightarrow> cluster_object \<Rightarrow> string \<Rightarrow> 'n proto_struct sandbox option \<Rightarrow> 'n proto_struct sandbox" where
  "applied_sandbox env o0 i existing =
     (let status = rewrite_user_facing_conditions (Option.bind existing sb_spec) (status_from_object (co_data o0));
          sandbox = (case existing of Some sb \<Rightarrow> sb
            | None \<Rightarrow> \<lparr>sb_id = i, sb_name = or_empty (co_name o0),
                sb_namespace = (case co_namespace o0 of Some n \<Rightarrow> n | None \<Rightarrow> kc_namespace (le_cluster env)), sb_spec = None, sb_status = None,
                sb_phase = phase_number PhaseUnknown, sb_created_at_ms = 0, sb_current_policy_version = 0\<rparr>)
      in sandbox\<lparr>sb_status := status, sb_phase := phase_number (derive_phase status (co_deleting o0))\<rparr>)"

definition write_applied :: "('n, 'b) lifecycle_env \<Rightarrow> int \<Rightarrow> 'n proto_struct sandbox \<Rightarrow> 'b gateway_state \<Rightarrow> (string, unit) result \<times> 'b gateway_state" where
  "write_applied env now_ms sandbox g =
     (let g1 = g\<lparr>gs_index := update_from_sandbox sandbox (gs_index g)\<rparr>
      in case put_message (le_sandbox env) now_ms sandbox (gs_store g) of
           Inl e \<Rightarrow> (Inl e, g1) | Inr s1 \<Rightarrow> (Inr (), g1\<lparr>gs_store := s1\<rparr>))"

definition handle_applied :: "('n, 'b) lifecycle_env \<Rightarrow> int \<Rightarrow> cluster_object \<Rightarrow> 'b gateway_state \<Rightarrow> (string, unit) result \<times> 'b gateway_state" where
  "handle_applied env now_ms o0 g = (case sandbox_id_from_object o0 of
     Inl e \<Rightarrow> (Inl e, g)
   | Inr i \<Rightarrow> (case get_message (le_sandbox env) i (gs_store g) of
       Inl e \<Rightarrow> (Inl e, g)
     | Inr existing \<Rightarrow> write_applied env now_ms (applied_sandbox env o0 i existing) g))"

definition handle_deleted :: "cluster_object \<Rightarrow> 'b gateway_state \<Rightarrow> (string, unit) result \<times> 'b gateway_state" where
  "handle_deleted o0 g = (case sandbox_id_from_object o0 of
     Inl e \<Rightarrow> (Inl e, g)
   | Inr i \<Rightarrow> (Inr (), remove_buses i (g\<lparr>gs_store := snd (db_delete ''sandbox'' i (gs_store g)), gs_index := remove_sandbox i (gs_index g)\<rparr>)))"

datatype watch_event = Applied cluster_object | Deleted cluster_object | Restarted "cluster_object list"

fun watch_step :: "('n, 'b) lifecycle_env \<Rightarrow> int \<Rightarrow> watch_event \<Rightarrow> 'b gateway_state \<Rightarrow> 'b gateway_state" where
  "watch_step env now_ms (Applied o0) g = snd (handle_applied env now_ms o0 g)"
| "watch_step env now_ms (Deleted o0) g = snd (handle_deleted o0 g)"
| "watch_step env now_ms (Restarted os) g = fold (\<lambda>o0 g. snd (handle_applied env now_ms o0 g)) os g"

definition ORPHAN_GRACE_PERIOD_MS :: int where "ORPHAN_GRACE_PERIOD_MS = 300000"

definition reconcile_record :: "('n, 'b) lifecycle_env \<Rightarrow> int \<Rightarrow> 'b object_record \<Rightarrow> 'b gateway_state \<Rightarrow> 'b gateway_state" where
  "reconcile_record env now_ms r g = (case mt_decode (le_sandbox env) (ob_payload r) of
     None \<Rightarrow> g
   | Some sandbox \<Rightarrow>
       if sb_phase sandbox \<noteq> phase_number Provisioning \<or> now_ms - ob_created_at_ms r < ORPHAN_GRACE_PERIOD_MS then g
       else case le_api_get env (sb_name sandbox) of
         ApiErr (KubeApi code msg) \<Rightarrow> if code = 404
           then remove_buses (sb_id sandbox) (g\<lparr>gs_store := snd (db_delete ''sandbox'' (sb_id sandbox) (gs_store g)),
                  gs_index := remove_sandbox (sb_id sandbox) (gs_index g)\<rparr>)
           else g
       | _ \<Rightarrow> g)"

definition reconcile_orphaned_sandboxes :: "('n, 'b) lifecycle_env \<Rightarrow> int \<Rightarrow> 'b gateway_state \<Rightarrow> 'b gateway_state" where
  "reconcile_orphaned_sandboxes env now_ms g = fold (reconcile_record env now_ms) (db_list ''sandbox'' 500 0 (gs_store g)) g"


section \<open>Records of the store\<close>

text \<open>The codec of sandboxes; the object types are those of the sources.\<close>

definition codec_ok :: "('n, 'b) lifecycle_env \<Rightarrow> bool" where
  "codec_ok env \<longleftrightarrow> mt_object_type (le_sandbox env) = ''sandbox'' \<and> mt_object_id (le_sandbox env) = sb_id \<and> mt_object_name (le_sandbox env) = sb_name
     \<and> (\<forall>sb. mt_decode (le_sandbox env) (mt_encode (le_sandbox env) sb) = Some sb)"

definition sandbox_at :: "('n, 'b) lifecycle_env \<Rightarrow> 'b store \<Rightarrow> string \<Rightarrow> 'n proto_struct sandbox option" where
  "sandbox_at env s i = Option.bind (db_get ''sandbox'' i s) (\<lambda>r. mt_decode (le_sandbox env) (ob_payload r))"

text \<open>A policy in the spec of a stored sandbox is safe and runs as the sandbox user.\<close>

definition spec_safe :: "'s sandbox \<Rightarrow> bool" where
  "spec_safe sb \<longleftrightarrow> (\<forall>spec p. sb_spec sb = Some spec \<longrightarrow> ss_policy spec = Some p \<longrightarrow>
     safe_policy p \<and> sp_process p = Some \<lparr>pr_run_as_user = ''sandbox'', pr_run_as_group = ''sandbox''\<rparr>)"

definition sandboxes_ok :: "('n, 'b) lifecycle_env \<Rightarrow> 'b store \<Rightarrow> bool" where
  "sandboxes_ok env s \<longleftrightarrow> objects_ok s \<and> (\<forall>r \<in> set (st_objects s). ob_type r = ''sandbox'' \<longrightarrow>
     (\<exists>sb. mt_decode (le_sandbox env) (ob_payload r) = Some sb \<and> sb_id sb = ob_id r \<and> sb_name sb = ob_name r \<and> spec_safe sb))"

lemma find_map_comp: "find P (map f xs) = map_option f (find (\<lambda>x. P (f x)) xs)"
  by (induction xs) auto

lemma get_message_at:
  assumes "codec_ok env" "get_message (le_sandbox env) i s = Inr existing"
  shows "existing = sandbox_at env s i"
  using assms by (auto simp: get_message_def decode_record_def sandbox_at_def codec_ok_def split: option.splits)

lemma sandbox_at_row:
  assumes "sandbox_at env s i = Some sb"
  obtains r where "r \<in> set (st_objects s)" "ob_type r = ''sandbox''" "ob_id r = i" "mt_decode (le_sandbox env) (ob_payload r) = Some sb"
  using assms find_Some_in by (fastforce simp: sandbox_at_def db_get_def bind_eq_Some_conv)

lemma sandbox_at_ids: "sandboxes_ok env s \<Longrightarrow> sandbox_at env s i = Some sb \<Longrightarrow> sb_id sb = i \<and> spec_safe sb"
  by (erule sandbox_at_row) (fastforce simp: sandboxes_ok_def)

lemma sandbox_at_put:
  assumes "codec_ok env" "put_message (le_sandbox env) now sb s = Inr s'"
  shows "sandbox_at env s' j = sandbox_at env s j \<or> j = sb_id sb \<and> sandbox_at env s' j = Some sb"
proof (cases "list_ex (\<lambda>r. ob_id r = sb_id sb) (st_objects s)")
  case True
  let ?f = "\<lambda>r. if ob_id r = sb_id sb \<and> ob_type r = ''sandbox'' then r\<lparr>ob_payload := mt_encode (le_sandbox env) sb, ob_updated_at_ms := now\<rparr> else r"
  have s': "st_objects s' = map ?f (st_objects s)" using assms True by (auto simp: put_message_def db_put_def codec_ok_def)
  have "find (\<lambda>r. ob_type r = ''sandbox'' \<and> ob_id r = j) (map ?f (st_objects s)) = map_option ?f (find (\<lambda>r. ob_type r = ''sandbox'' \<and> ob_id r = j) (st_objects s))"
    unfolding find_map_comp by (rule arg_cong [where f = "map_option ?f"], rule arg_cong [where f = "\<lambda>P. find P (st_objects s)"]) auto
  then have "db_get ''sandbox'' j s' = map_option ?f (db_get ''sandbox'' j s)" by (simp add: db_get_def s')
  then show ?thesis using assms(1) find_Some_in [of _ "st_objects s"]
    by (cases "db_get ''sandbox'' j s") (auto simp: sandbox_at_def codec_ok_def db_get_def dest!: find_Some_in)
next
  case False
  then have "st_objects s' = st_objects s @ [\<lparr>ob_type = ''sandbox'', ob_id = sb_id sb, ob_name = sb_name sb, ob_payload = mt_encode (le_sandbox env) sb,
      ob_created_at_ms = now, ob_updated_at_ms = now\<rparr>]"
    using assms by (auto simp: put_message_def db_put_def codec_ok_def split: if_splits)
  then show ?thesis using assms(1) by (auto simp: sandbox_at_def db_get_def codec_ok_def find_append split: option.split)
qed

lemma sandbox_at_delete: "sandbox_at env (snd (db_delete t i s)) j = sandbox_at env s j \<or> sandbox_at env (snd (db_delete t i s)) j = None"
proof -
  let ?P = "\<lambda>r. ob_type r = ''sandbox'' \<and> ob_id r = j" and ?Q = "\<lambda>r. \<not> (ob_type r = t \<and> ob_id r = i)"
  have "find ?P (filter ?Q xs) = (if t = ''sandbox'' \<and> i = j then None else find ?P xs)" for xs :: "'b object_record list"
    by (induction xs) auto
  then show ?thesis by (simp add: sandbox_at_def db_get_def db_delete_def)
qed

lemma put_sandbox_ok:
  assumes "codec_ok env" "sandboxes_ok env s" "put_message (le_sandbox env) now sb s = Inr s'" "spec_safe sb"
    and "\<And>r. r \<in> set (st_objects s) \<Longrightarrow> ob_type r = ''sandbox'' \<Longrightarrow> ob_id r = sb_id sb \<Longrightarrow> ob_name r = sb_name sb"
  shows "sandboxes_ok env s'"
proof -
  have p: "db_put now ''sandbox'' (sb_id sb) (sb_name sb) (mt_encode (le_sandbox env) sb) s = Inr s'"
    using assms(1,3) by (simp add: put_message_def codec_ok_def)
  have "objects_ok s'" using db_put_ok [OF p] assms(2) by (simp add: sandboxes_ok_def)
  moreover have "\<exists>m. mt_decode (le_sandbox env) (ob_payload r) = Some m \<and> sb_id m = ob_id r \<and> sb_name m = ob_name r \<and> spec_safe m"
    if r: "r \<in> set (st_objects s')" "ob_type r = ''sandbox''" for r
  proof (cases "r \<in> set (st_objects s)")
    case True
    then show ?thesis using r assms(2) by (auto simp: sandboxes_ok_def)
  next
    case False
    then have "ob_id r = sb_id sb" "ob_payload r = mt_encode (le_sandbox env) sb" "ob_name r = sb_name sb"
      using r p assms(5) by (auto simp: db_put_def split: if_splits)
    then show ?thesis using assms(1,4) by (simp add: codec_ok_def)
  qed
  ultimately show ?thesis by (simp add: sandboxes_ok_def)
qed

lemma delete_ok: "sandboxes_ok env s \<Longrightarrow> sandboxes_ok env (snd (db_delete t i s))"
  using db_delete_ok [of s] by (auto simp: sandboxes_ok_def db_delete_def)


section \<open>Runs of the gateway\<close>

text \<open>What changes the records of sandboxes: the handlers (identifiers are fresh), the watcher, the reconciler, cluster events, and writes
  of objects of other types.\<close>

inductive lifecycle_step :: "('n, 'b) lifecycle_env \<Rightarrow> 'b gateway_state \<Rightarrow> 'b gateway_state \<Rightarrow> bool" for env where
  create: "\<not> list_ex (\<lambda>r. ob_id r = new_id) (st_objects (gs_store g)) \<Longrightarrow>
    handle_create_sandbox env now_ms new_id petname request g = Some (r, g') \<Longrightarrow> lifecycle_step env g g'"
| delete: "handle_delete_sandbox env now_ms name g = (r, g') \<Longrightarrow> lifecycle_step env g g'"
| watch: "lifecycle_step env g (watch_step env now_ms event g)"
| reconcile: "lifecycle_step env g (reconcile_orphaned_sandboxes env now_ms g)"
| event: "lifecycle_step env g (publish_kube_event show_count e g)"
| other_put: "t \<noteq> ''sandbox'' \<Longrightarrow> db_put now_ms t i n p (gs_store g) = Inr s' \<Longrightarrow> lifecycle_step env g (g\<lparr>gs_store := s'\<rparr>)"
| other_delete: "t \<noteq> ''sandbox'' \<Longrightarrow> lifecycle_step env g (g\<lparr>gs_store := snd (db_delete t i (gs_store g))\<rparr>)"

text \<open>From one store to the next, the records are still good and no record that stays has another spec.\<close>

definition keeps :: "('n, 'b) lifecycle_env \<Rightarrow> 'b store \<Rightarrow> 'b store \<Rightarrow> bool" where
  "keeps env s s' \<longleftrightarrow> sandboxes_ok env s' \<and> (\<forall>i sb sb'. sandbox_at env s i = Some sb \<longrightarrow> sandbox_at env s' i = Some sb' \<longrightarrow> sb_spec sb' = sb_spec sb)"

text \<open>Records may disappear on the way, so keeping composes along steps that create no record that was there before.\<close>

definition only_loses :: "('n, 'b) lifecycle_env \<Rightarrow> 'b store \<Rightarrow> 'b store \<Rightarrow> bool" where
  "only_loses env s s' \<longleftrightarrow> sandboxes_ok env s' \<and> (\<forall>i. sandbox_at env s' i = sandbox_at env s i \<or> sandbox_at env s' i = None)"

lemma only_loses_refl: "sandboxes_ok env s \<Longrightarrow> only_loses env s s" by (simp add: only_loses_def)

lemma only_loses_trans: "only_loses env s s1 \<Longrightarrow> only_loses env s1 s2 \<Longrightarrow> only_loses env s s2" unfolding only_loses_def by metis

lemma only_loses_delete: "sandboxes_ok env s \<Longrightarrow> only_loses env s (snd (db_delete t i s))"
  by (simp add: only_loses_def delete_ok sandbox_at_delete)

lemma only_loses_keeps: "only_loses env s s' \<Longrightarrow> keeps env s s'"
  unfolding only_loses_def keeps_def by (metis option.distinct(1) option.inject)

lemma keeps_only_loses: "keeps env s s1 \<Longrightarrow> only_loses env s1 s2 \<Longrightarrow> keeps env s s2"
  unfolding only_loses_def keeps_def by (metis option.distinct(1))

lemma keeps_put:
  assumes "codec_ok env" "sandboxes_ok env s" "put_message (le_sandbox env) now sb s = Inr s'" "spec_safe sb"
    and "\<And>r. r \<in> set (st_objects s) \<Longrightarrow> ob_type r = ''sandbox'' \<Longrightarrow> ob_id r = sb_id sb \<Longrightarrow> ob_name r = sb_name sb"
    and "\<And>old. sandbox_at env s (sb_id sb) = Some old \<Longrightarrow> sb_spec sb = sb_spec old"
  shows "keeps env s s'"
  unfolding keeps_def using put_sandbox_ok [OF assms(1-5)] sandbox_at_put [OF assms(1,3)] assms(6) by (metis option.inject)

text \<open>A record that was read and is written back under its identifier and spec.\<close>

lemma keeps_put_existing:
  assumes "codec_ok env" "sandboxes_ok env s" "put_message (le_sandbox env) now sb s = Inr s'" "sandbox_at env s i = Some old"
    and "sb_id sb = sb_id old" "sb_name sb = sb_name old" "sb_spec sb = sb_spec old"
  shows "keeps env s s'"
proof (rule keeps_put [OF assms(1-3)])
  have i: "sb_id old = i" "spec_safe old" using sandbox_at_ids [OF assms(2,4)] by simp_all
  then show "spec_safe sb" using assms(7) by (simp add: spec_safe_def)
  show "sb_spec sb = sb_spec old'" if "sandbox_at env s (sb_id sb) = Some old'" for old' using that assms(4,5,7) i by simp
  show "ob_name r = sb_name sb" if r: "r \<in> set (st_objects s)" "ob_type r = ''sandbox''" "ob_id r = sb_id sb" for r
  proof -
    obtain r' where r': "r' \<in> set (st_objects s)" "ob_type r' = ''sandbox''" "ob_id r' = i" "mt_decode (le_sandbox env) (ob_payload r') = Some old"
      using sandbox_at_row [OF assms(4)] by metis
    then have "r' = r" using objects_ok_id_inj [of s r' r] r assms(2,5) i by (simp add: sandboxes_ok_def)
    then show ?thesis using r'(2,4) r(1) assms(2,6) by (auto simp: sandboxes_ok_def)
  qed
qed

lemma keeps_applied:
  assumes "codec_ok env" "sandboxes_ok env (gs_store g)"
  shows "keeps env (gs_store g) (gs_store (snd (handle_applied env now o0 g)))"
proof -
  have same: "keeps env (gs_store g) (gs_store g)" using assms(2) only_loses_refl only_loses_keeps by blast
  show ?thesis
  proof (cases "sandbox_id_from_object o0")
    case (Inr i)
    show ?thesis
    proof (cases "get_message (le_sandbox env) i (gs_store g)")
      case got: (Inr existing)
      let ?sb = "applied_sandbox env o0 i existing"
      have e: "existing = sandbox_at env (gs_store g) i" by (rule get_message_at [OF assms(1) got])
      show ?thesis
      proof (cases "put_message (le_sandbox env) now ?sb (gs_store g)")
        case put: (Inr s')
        have "keeps env (gs_store g) s'"
        proof (cases existing)
          case (Some old)
          then show ?thesis using keeps_put_existing [OF assms put, of i old] e by (simp add: applied_sandbox_def Let_def)
        next
          case None
          then have sb: "sb_id ?sb = i" "sb_spec ?sb = None" by (simp_all add: applied_sandbox_def Let_def)
          have "db_get ''sandbox'' i (gs_store g) = None \<or> (\<exists>r. db_get ''sandbox'' i (gs_store g) = Some r \<and> mt_decode (le_sandbox env) (ob_payload r) = None)"
            using e None by (cases "db_get ''sandbox'' i (gs_store g)") (simp_all add: sandbox_at_def)
          then have "\<not> (\<exists>r \<in> set (st_objects (gs_store g)). ob_type r = ''sandbox'' \<and> ob_id r = i)"
            using assms(2) find_Some_in by (fastforce simp: db_get_def find_None_iff sandboxes_ok_def)
          then show ?thesis using sb e None by (intro keeps_put [OF assms put]) (auto simp: spec_safe_def)
        qed
        then show ?thesis using Inr got put by (simp add: handle_applied_def write_applied_def Let_def)
      qed (use Inr got same in \<open>simp add: handle_applied_def write_applied_def Let_def\<close>)
    qed (use Inr same in \<open>simp add: handle_applied_def\<close>)
  qed (use same in \<open>simp add: handle_applied_def\<close>)
qed

lemma applied_stays:
  assumes "codec_ok env" "sandbox_at env (gs_store g) i = Some sb"
  shows "\<exists>sb'. sandbox_at env (gs_store (snd (handle_applied env now o0 g))) i = Some sb'"
proof -
  have "\<exists>sb'. sandbox_at env s' i = Some sb'" if "put_message (le_sandbox env) now new (gs_store g) = Inr s'" for new s'
    using sandbox_at_put [OF assms(1) that, of i] assms(2) by auto
  then show ?thesis using assms(2) by (auto simp: handle_applied_def write_applied_def Let_def split: sum.split)
qed

lemma keeps_restarted:
  assumes "codec_ok env" "sandboxes_ok env (gs_store g)"
  shows "keeps env (gs_store g) (gs_store (fold (\<lambda>o0 g. snd (handle_applied env now o0 g)) os g))"
  using assms(2)
proof (induction os arbitrary: g)
  case Nil
  then show ?case using only_loses_refl only_loses_keeps by fastforce
next
  case (Cons o0 os)
  let ?g = "snd (handle_applied env now o0 g)"
  have a: "keeps env (gs_store g) (gs_store ?g)" by (rule keeps_applied [OF assms(1) Cons.prems])
  then have b: "keeps env (gs_store ?g) (gs_store (fold (\<lambda>o0 g. snd (handle_applied env now o0 g)) os ?g))" by (intro Cons.IH) (simp add: keeps_def)
  have "sb_spec sb' = sb_spec sb"
    if "sandbox_at env (gs_store g) i = Some sb" "sandbox_at env (gs_store (fold (\<lambda>o0 g. snd (handle_applied env now o0 g)) os ?g)) i = Some sb'" for i sb sb'
    using a b that applied_stays [OF assms(1) that(1), of now o0] unfolding keeps_def by metis
  then show ?case using b by (simp add: keeps_def)
qed

lemma only_loses_reconcile_record: "sandboxes_ok env (gs_store g) \<Longrightarrow> only_loses env (gs_store g) (gs_store (reconcile_record env now r g))"
  by (auto simp: reconcile_record_def remove_buses_def intro: only_loses_refl only_loses_delete split: option.split api_outcome.split kube_error.split)

lemma only_loses_reconcile: "sandboxes_ok env (gs_store g) \<Longrightarrow> only_loses env (gs_store g) (gs_store (fold (reconcile_record env now) rs g))"
proof (induction rs arbitrary: g)
  case (Cons r rs)
  have a: "only_loses env (gs_store g) (gs_store (reconcile_record env now r g))" by (rule only_loses_reconcile_record [OF Cons.prems])
  then have "only_loses env (gs_store (reconcile_record env now r g)) (gs_store (fold (reconcile_record env now) rs (reconcile_record env now r g)))"
    by (intro Cons.IH) (simp add: only_loses_def)
  with a show ?case using only_loses_trans by fastforce
qed (simp add: only_loses_refl)

lemma only_loses_sessions:
  fixes env :: "('n, 'b) lifecycle_env" and sst :: "(ssh_session, 'b) message_type" and s :: "'b store"
  assumes "sandboxes_ok env s"
  shows "only_loses env s (delete_sessions_of sst i s)"
proof -
  define f :: "'b object_record \<Rightarrow> 'b store \<Rightarrow> 'b store" where "f = (\<lambda>r s. case mt_decode sst (ob_payload r) of
       Some session \<Rightarrow> if ss_sandbox_id session = i then snd (db_delete ''ssh_session'' (ss_id session) s) else s | None \<Rightarrow> s)"
  have f: "only_loses env s (f r s)" if "sandboxes_ok env s" for r s
    using that by (auto simp: f_def intro: only_loses_refl only_loses_delete split: option.split)
  have "only_loses env s (fold f rs s)" if "sandboxes_ok env s" for rs
    using that
  proof (induction rs arbitrary: s)
    case (Cons r rs)
    then have "only_loses env (f r s) (fold f rs (f r s))" using f [OF Cons.prems, of r] by (intro Cons.IH) (simp add: only_loses_def)
    then show ?case using f [OF Cons.prems, of r] only_loses_trans by fastforce
  qed (simp add: only_loses_refl)
  then show ?thesis using assms by (simp add: delete_sessions_of_def f_def)
qed

lemma get_by_name_at:
  assumes "codec_ok env" "sandboxes_ok env (gs_store g)" "handle_get_sandbox env name g = Inr sb"
  shows "sandbox_at env (gs_store g) (sb_id sb) = Some sb \<and> sb_name sb = name"
proof -
  obtain r where r: "db_get_by_name ''sandbox'' name (gs_store g) = Some r" "mt_decode (le_sandbox env) (ob_payload r) = Some sb"
    using assms(1,3) by (auto simp: handle_get_sandbox_def get_message_by_name_def decode_record_def codec_ok_def split: if_splits option.splits sum.splits)
  then have m: "r \<in> set (st_objects (gs_store g))" "ob_type r = ''sandbox''" "ob_name r = name"
    using find_Some_in by (fastforce simp: db_get_by_name_def)+
  then have ids: "sb_id sb = ob_id r" "sb_name sb = name" using assms(2) r(2) by (auto simp: sandboxes_ok_def)
  obtain r' where "db_get ''sandbox'' (ob_id r) (gs_store g) = Some r'"
    using m by (cases "db_get ''sandbox'' (ob_id r) (gs_store g)") (auto simp: db_get_def find_None_iff)
  moreover from this have "r' = r" using m assms(2) find_Some_in [of _ "st_objects (gs_store g)" r'] objects_ok_id_inj [of "gs_store g" r' r]
    by (auto simp: db_get_def sandboxes_ok_def dest!: find_Some_in)
  ultimately show ?thesis using r(2) ids by (simp add: sandbox_at_def)
qed

lemma keeps_delete:
  assumes "codec_ok env" "sandboxes_ok env (gs_store g)" "handle_delete_sandbox env now name g = (r, g')"
  shows "keeps env (gs_store g) (gs_store g')"
proof (cases "handle_get_sandbox env name g")
  case (Inl e)
  then show ?thesis using assms only_loses_refl only_loses_keeps by (fastforce simp: handle_delete_sandbox_def)
next
  case (Inr found)
  note at = get_by_name_at [OF assms(1,2) Inr, THEN conjunct1]
  let ?sb = "found\<lparr>sb_phase := phase_number Deleting\<rparr>"
  show ?thesis
  proof (cases "put_message (le_sandbox env) now ?sb (gs_store g)")
    case (Inl e)
    then show ?thesis using Inr assms only_loses_refl only_loses_keeps by (fastforce simp: handle_delete_sandbox_def Let_def)
  next
    case put: (Inr s1)
    let ?s3 = "snd (db_delete SANDBOX_SETTINGS_OBJECT_TYPE (sandbox_settings_id (sb_id found)) (delete_sessions_of (le_session env) (sb_id found) s1))"
    have k: "keeps env (gs_store g) s1" using keeps_put_existing [OF assms(1,2) put at] by simp
    have s2: "only_loses env s1 (delete_sessions_of (le_session env) (sb_id found) s1)" using k by (intro only_loses_sessions) (simp add: keeps_def)
    then have s3: "only_loses env s1 ?s3" using only_loses_trans [OF s2 only_loses_delete] by (simp add: only_loses_def)
    then have s4: "only_loses env s1 (snd (db_delete ''sandbox'' (sb_id found) ?s3))" using only_loses_trans [OF s3 only_loses_delete] by (simp add: only_loses_def)
    have "gs_store g' = ?s3 \<or> gs_store g' = snd (db_delete ''sandbox'' (sb_id found) ?s3)"
      using assms(3) Inr put by (auto simp: handle_delete_sandbox_def Let_def remove_buses_def split: sum.splits if_splits)
    then show ?thesis using keeps_only_loses [OF k s3] keeps_only_loses [OF k s4] by auto
  qed
qed

lemma prepared_sandbox:
  assumes "prepare_sandbox env i petname request s = Some (Inr sb)"
  shows "sb_id sb = i \<and> spec_safe sb \<and> get_message_by_name (le_sandbox env) (sb_name sb) s = Inr None
     \<and> sb_name sb = (if cq_name request = [] then petname else cq_name request) \<and> sb_phase sb = phase_number Provisioning"
proof -
  obtain spec0 spec where s: "cq_spec request = Some spec0"
    "secured_spec (with_template_image (kc_default_image (le_cluster env)) spec0) = Some (Inr spec)" "sb_spec sb = Some spec" "sb_id sb = i"
    "get_message_by_name (le_sandbox env) (sb_name sb) s = Inr None" "sb_name sb = (if cq_name request = [] then petname else cq_name request)"
    "sb_phase sb = phase_number Provisioning"
  proof -
    let ?name = "if cq_name request = [] then petname else cq_name request"
    obtain spec0 z where a: "cq_spec request = Some spec0" "secured_spec (with_template_image (kc_default_image (le_cluster env)) spec0) = Some z"
      "and_then z (\<lambda>spec. case get_message_by_name (le_sandbox env) ?name s of
            Inl e \<Rightarrow> Inl (internal (''fetch sandbox failed: '' @ e))
          | Inr (Some _) \<Rightarrow> Inl (Status AlreadyExists (''sandbox '' @ [SQ] @ ?name @ [SQ] @ '' already exists''))
          | Inr None \<Rightarrow> Inr \<lparr>sb_id = i, sb_name = ?name, sb_namespace = le_sandbox_namespace env, sb_spec = Some spec, sb_status = None,
               sb_phase = phase_number Provisioning, sb_created_at_ms = 0, sb_current_policy_version = 0\<rparr>) = Inr sb"
      using assms by (auto simp: prepare_sandbox_def Let_def split: option.splits sum.splits)
    from a(3) obtain spec where "z = Inr spec" "get_message_by_name (le_sandbox env) ?name s = Inr None" "sb_spec sb = Some spec" "sb_id sb = i" "sb_name sb = ?name"
      "sb_phase sb = phase_number Provisioning"
      by (cases "get_message_by_name (le_sandbox env) ?name s") (auto simp: and_then_Inr split: option.splits)
    then show ?thesis using a that by simp
  qed
  have "safe_policy p \<and> sp_process p = Some \<lparr>pr_run_as_user = ''sandbox'', pr_run_as_group = ''sandbox''\<rparr>" if pol: "ss_policy spec = Some p" for p
  proof -
    obtain q where q: "p = ensure_sandbox_process_identity q" "validate_policy_safety p = Some (Inr ())"
      using s(2) pol by (auto simp: secured_spec_def and_then_Inr Let_def split: option.splits)
    then have safe: "safe_policy p" by (simp add: validate_policy_safety_ok validate_sandbox_policy_safe)
    moreover obtain pr where "sp_process p = Some pr" using q(1) by (simp add: ensure_sandbox_process_identity_def Let_def)
    ultimately show ?thesis by (cases pr) (auto simp: safe_policy_def)
  qed
  then show ?thesis using s by (simp add: spec_safe_def)
qed

text \<open>What a creation does to the store: nothing, or it adds the prepared record.\<close>

lemma create_store:
  assumes "codec_ok env" "\<not> list_ex (\<lambda>r. ob_id r = i) (st_objects (gs_store g))" "handle_create_sandbox env now i petname request g = Some (r, g')"
  shows "case r of Inl e \<Rightarrow> gs_store g' = gs_store g
    | Inr sb \<Rightarrow> prepare_sandbox env i petname request (gs_store g) = Some (Inr sb) \<and> put_message (le_sandbox env) now sb (gs_store g) = Inr (gs_store g')
        \<and> client_create env sb = Inr ()"
proof -
  obtain prepared where p: "prepare_sandbox env i petname request (gs_store g) = Some prepared"
    using assms(3) by (auto simp: handle_create_sandbox_def)
  show ?thesis
  proof (cases prepared)
    case (Inl e)
    then show ?thesis using assms(3) p by (auto simp: handle_create_sandbox_def)
  next
    case (Inr sb)
    then have i: "sb_id sb = i" using prepared_sandbox p by blast
    have undone: "snd (db_delete ''sandbox'' i s1) = gs_store g" if "put_message (le_sandbox env) now sb (gs_store g) = Inr s1" for s1
    proof -
      have "filter (\<lambda>r. ob_type r = ''sandbox'' \<longrightarrow> ob_id r \<noteq> i) (st_objects (gs_store g)) = st_objects (gs_store g)"
        using assms(2) by (auto simp: list_ex_iff intro: filter_True)
      then show ?thesis using that assms(1,2) i by (auto simp: put_message_def db_put_def db_delete_def codec_ok_def split: if_splits)
    qed
    show ?thesis using assms(3) p Inr undone
      by (auto simp: handle_create_sandbox_def Let_def split: sum.splits kube_error.splits if_splits)
  qed
qed

lemma keeps_create:
  assumes "codec_ok env" "sandboxes_ok env (gs_store g)" "\<not> list_ex (\<lambda>r. ob_id r = i) (st_objects (gs_store g))"
    and "handle_create_sandbox env now i petname request g = Some (r, g')"
  shows "keeps env (gs_store g) (gs_store g')"
proof (cases r)
  case (Inl e)
  then have "gs_store g' = gs_store g" using create_store [OF assms(1,3,4)] by simp
  then show ?thesis using only_loses_keeps [OF only_loses_refl [OF assms(2)]] by simp
next
  case (Inr sb)
  then have c: "prepare_sandbox env i petname request (gs_store g) = Some (Inr sb)" "put_message (le_sandbox env) now sb (gs_store g) = Inr (gs_store g')"
    using create_store [OF assms(1,3,4)] by simp_all
  have sb: "sb_id sb = i" "spec_safe sb" using prepared_sandbox [OF c(1)] by simp_all
  have fresh: "r \<in> set (st_objects (gs_store g)) \<Longrightarrow> ob_id r \<noteq> i" for r using assms(3) by (auto simp: list_ex_iff)
  then have "sandbox_at env (gs_store g) i = None" by (metis not_None_eq sandbox_at_row)
  then show ?thesis using sb fresh by (intro keeps_put [OF assms(1,2) c(2)]) auto
qed

lemma keeps_other_put:
  assumes "sandboxes_ok env s" "t \<noteq> ''sandbox''" "db_put now t i n p s = Inr s'"
  shows "keeps env s s'"
proof -
  have "objects_ok s'" using db_put_ok [OF assms(3)] assms(1) by (simp add: sandboxes_ok_def)
  moreover have sub: "r \<in> set (st_objects s)" if "r \<in> set (st_objects s')" "ob_type r = ''sandbox''" for r
    using db_put_row [OF assms(3) that(1)] that(2) assms(2) by auto
  ultimately have ok: "sandboxes_ok env s'" using assms(1) by (auto simp: sandboxes_ok_def)
  have "db_get ''sandbox'' j s' = db_get ''sandbox'' j s" for j
  proof (cases "list_ex (\<lambda>r. ob_id r = i) (st_objects s)")
    case True
    then have "st_objects s' = map (\<lambda>r. if ob_id r = i \<and> ob_type r = t then r\<lparr>ob_payload := p, ob_updated_at_ms := now\<rparr> else r) (st_objects s)"
      using assms(3) by (auto simp: db_put_def)
    then show ?thesis unfolding db_get_def using assms(2) by (simp add: find_map_same)
  next
    case False
    then have "\<exists>r. ob_type r = t \<and> st_objects s' = st_objects s @ [r]" using assms(3) by (auto simp: db_put_def split: if_splits)
    then show ?thesis using assms(2) by (auto simp: db_get_def find_append split: option.split)
  qed
  then show ?thesis using ok by (auto simp: keeps_def sandbox_at_def)
qed

lemma lifecycle_step_keeps:
  assumes "codec_ok env" "sandboxes_ok env (gs_store g)" "lifecycle_step env g g'"
  shows "keeps env (gs_store g) (gs_store g')"
  using assms(3)
proof cases
  case (create i now_ms petname request r)
  then show ?thesis by (intro keeps_create [OF assms(1,2)])
next
  case (delete now_ms name r)
  then show ?thesis by (intro keeps_delete [OF assms(1,2)])
next
  case (watch now_ms event)
  show ?thesis
  proof (cases event)
    case (Applied o0)
    then show ?thesis using keeps_applied [OF assms(1,2)] watch by simp
  next
    case (Deleted o0)
    then show ?thesis using assms(2) watch
      by (auto simp: handle_deleted_def remove_buses_def intro: only_loses_keeps [OF only_loses_refl] only_loses_keeps [OF only_loses_delete] split: sum.split)
  next
    case (Restarted os)
    then show ?thesis using keeps_restarted [OF assms(1,2)] watch by simp
  qed
next
  case (reconcile now_ms)
  then show ?thesis using only_loses_keeps [OF only_loses_reconcile [OF assms(2)]] by (simp add: reconcile_orphaned_sandboxes_def)
next
  case (event show_count e)
  then have "gs_store g' = gs_store g" by (auto simp: publish_kube_event_def split: option.splits)
  then show ?thesis using only_loses_keeps [OF only_loses_refl [OF assms(2)]] by simp
next
  case (other_put t now_ms i n p s')
  then show ?thesis using keeps_other_put [OF assms(2)] by simp
next
  case (other_delete t i)
  then show ?thesis using only_loses_keeps [OF only_loses_delete [OF assms(2)]] by simp
qed



section \<open>Creation\<close>

lemma index_after_update: "sb_name sb \<noteq> [] \<Longrightarrow> event_sandbox (update_from_sandbox sb ix) ''Sandbox'' (sb_name sb) = Some (sb_id sb)"
  by (simp add: event_sandbox_def update_from_sandbox_def Let_def split: option.split)

text \<open>C36: a creation is all or nothing. When it reports an error, whichever of the checks, the database or the cluster refused, the store is as it
  was before. When it succeeds, the cluster accepted a resource whose label is the identifier of the new sandbox, the record is found
  under its name with exactly the reported contents, and the index leads to it.\<close>

theorem creation_all_or_nothing:
  assumes "codec_ok env" "\<not> list_ex (\<lambda>r. ob_id r = i) (st_objects (gs_store g))" "petname \<noteq> []"
    and "handle_create_sandbox env now i petname request g = Some (r, g')"
  shows "case r of Inl e \<Rightarrow> gs_store g' = gs_store g
    | Inr sb \<Rightarrow> sb_id sb = i \<and> sb_phase sb = phase_number Provisioning \<and> handle_get_sandbox env (sb_name sb) g' = Inr sb
        \<and> le_api_create env (cluster_object_of (le_num env) (le_cluster env) sb) = ApiOk ()
        \<and> sandbox_id_from_object (cluster_object_of (le_num env) (le_cluster env) sb) = Inr i
        \<and> event_sandbox (gs_index g') ''Sandbox'' (sb_name sb) = Some i"
proof (cases r)
  case (Inl e)
  then show ?thesis using create_store [OF assms(1,2,4)] by simp
next
  case (Inr sb)
  then have c: "prepare_sandbox env i petname request (gs_store g) = Some (Inr sb)" "put_message (le_sandbox env) now sb (gs_store g) = Inr (gs_store g')"
    "client_create env sb = Inr ()" using create_store [OF assms(1,2,4)] by simp_all
  have i: "sb_id sb = i" using prepared_sandbox [OF c(1)] by simp
  have name: "sb_name sb \<noteq> [] \<and> sb_phase sb = phase_number Provisioning"
    using prepared_sandbox [OF c(1)] assms(3) by simp
  have "g\<lparr>gs_index := update_from_sandbox sb (gs_index g), gs_store := gs_store g'\<rparr> = g'"
    using assms(4) c Inr by (auto simp: handle_create_sandbox_def Let_def)
  from arg_cong [OF this, of gs_index] have "gs_index g' = update_from_sandbox sb (gs_index g)" by simp
  then have "event_sandbox (gs_index g') ''Sandbox'' (sb_name sb) = Some i" using name i by (simp add: index_after_update)
  moreover have put: "db_put now ''sandbox'' i (sb_name sb) (mt_encode (le_sandbox env) sb) (gs_store g) = Inr (gs_store g')"
    using c(2) assms(1) i by (simp add: put_message_def codec_ok_def)
  obtain row where "db_get_by_name ''sandbox'' (sb_name sb) (gs_store g') = Some row" "ob_payload row = mt_encode (le_sandbox env) sb"
    using put_fresh_name [OF put assms(2)] by blast
  then have "handle_get_sandbox env (sb_name sb) g' = Inr sb"
    using assms(1) name by (simp add: handle_get_sandbox_def get_message_by_name_def decode_record_def codec_ok_def)
  moreover have "le_api_create env (cluster_object_of (le_num env) (le_cluster env) sb) = ApiOk ()"
    using c(3) by (auto simp: client_create_def split: api_outcome.splits)
  ultimately show ?thesis using Inr i name label_identifies [of "le_num env" "le_cluster env" sb] by simp
qed

section \<open>Phases\<close>

text \<open>A sandbox is ready exactly when it is not being deleted and its first Ready condition is true; it failed exactly when that condition is
  false for a reason that is not one of the two transient ones.\<close>

lemma derive_phase_spec:
  "derive_phase status deleting = Ready \<longleftrightarrow> \<not> deleting \<and> (\<exists>st c. status = Some st \<and> find (\<lambda>c. cn_type c = ''Ready'') (su_conditions st) = Some c
     \<and> eq_ignore_ascii_case (cn_status c) ''true'')"
  "derive_phase status deleting = PhaseError \<longleftrightarrow> \<not> deleting \<and> (\<exists>st c. status = Some st \<and> find (\<lambda>c. cn_type c = ''Ready'') (su_conditions st) = Some c
     \<and> \<not> eq_ignore_ascii_case (cn_status c) ''true'' \<and> eq_ignore_ascii_case (cn_status c) ''false'' \<and> is_terminal_failure_condition c)"
  "derive_phase status deleting = Deleting \<longleftrightarrow> deleting"
  by (auto simp: derive_phase_def split: option.splits if_splits)

section \<open>Log tails\<close>

datatype 'e bus_op = Publish string 'e | Remove string

fun bus_apply :: "nat \<Rightarrow> 'e bus_op \<Rightarrow> 'e log_bus \<Rightarrow> 'e log_bus" where
  "bus_apply cap (Publish i e) bus = bus_publish i e cap bus"
| "bus_apply cap (Remove i) bus = bus_remove i bus"

text \<open>The events of a sandbox since its entry was last removed.\<close>

fun recent :: "string \<Rightarrow> 'e bus_op list \<Rightarrow> 'e list \<Rightarrow> 'e list" where
  "recent i [] h = h"
| "recent i (Publish j e # ops) h = recent i ops (if j = i then h @ [e] else h)"
| "recent i (Remove j # ops) h = recent i ops (if j = i then [] else h)"

definition last_n :: "nat \<Rightarrow> 'a list \<Rightarrow> 'a list" where "last_n n xs = drop (length xs - n) xs"

lemma last_n_snoc: "last_n n (last_n n xs @ [x]) = last_n n (xs @ [x])"
  by (cases "length xs \<le> n") (auto simp: last_n_def Suc_diff_le)

lemma last_n_last_n: "last_n m (last_n n xs) = drop (length xs - min m n) xs"
proof -
  have "length xs - (length xs - n + m) + (length xs - n) = length xs - min m n" by arith
  then show ?thesis by (simp add: last_n_def)
qed

lemma bus_run:
  assumes "(case bus i of Some d \<Rightarrow> d | None \<Rightarrow> []) = last_n cap h"
  shows "(case fold (bus_apply cap) ops bus i of Some d \<Rightarrow> d | None \<Rightarrow> []) = last_n cap (recent i ops h)"
  using assms
proof (induction ops arbitrary: bus h)
  case (Cons op ops)
  show ?case
  proof (cases op)
    case (Publish j e)
    have "(case bus_publish j e cap bus i of Some d \<Rightarrow> d | None \<Rightarrow> []) = last_n cap (if j = i then h @ [e] else h)"
      using Cons.prems last_n_snoc [of cap h e] by (auto simp: bus_publish_def Let_def last_n_def)
    then show ?thesis using Cons.IH Publish by simp
  next
    case (Remove j)
    have "(case bus_remove j bus i of Some d \<Rightarrow> d | None \<Rightarrow> []) = last_n cap (if j = i then [] else h)"
      using Cons.prems by (auto simp: bus_remove_def last_n_def)
    then show ?thesis using Cons.IH Remove by simp
  qed
qed simp

text \<open>Whatever is published and removed on a bus, the tail of a sandbox is the last of its events since its entry was last removed, oldest
  first, as many as asked for and at most the capacity.\<close>

theorem log_tail_is_recent:
  "bus_tail i mx (fold (bus_apply cap) ops Map.empty) = (let h = recent i ops [] in drop (length h - min mx cap) h)"
proof -
  have "(case fold (bus_apply cap) ops Map.empty i of Some d \<Rightarrow> d | None \<Rightarrow> []) = last_n cap (recent i ops [])"
    by (rule bus_run) (simp add: last_n_def)
  then have "bus_tail i mx (fold (bus_apply cap) ops Map.empty) = last_n mx (last_n cap (recent i ops []))"
    by (auto simp: bus_tail_def last_n_def rev_take split: option.splits)
  then show ?thesis by (simp add: last_n_last_n Let_def)
qed

section \<open>Where the records go wrong\<close>

lemma sandbox_at_put_existing:
  assumes "codec_ok env" "put_message (le_sandbox env) now sb s = Inr s'" "sandbox_at env s (sb_id sb) = Some old"
  shows "sandbox_at env s' (sb_id sb) = Some sb"
proof -
  let ?P = "\<lambda>r. ob_type r = ''sandbox'' \<and> ob_id r = sb_id sb"
  let ?f = "\<lambda>r. if ob_id r = sb_id sb \<and> ob_type r = ''sandbox'' then r\<lparr>ob_payload := mt_encode (le_sandbox env) sb, ob_updated_at_ms := now\<rparr> else r"
  obtain r where r: "find ?P (st_objects s) = Some r" "?P r" "r \<in> set (st_objects s)"
    using assms(3) find_Some_in by (fastforce simp: sandbox_at_def db_get_def bind_eq_Some_conv)
  then have "list_ex (\<lambda>r. ob_id r = sb_id sb) (st_objects s)" by (auto simp: list_ex_iff)
  then have "st_objects s' = map ?f (st_objects s)" using assms(1,2) by (auto simp: put_message_def db_put_def codec_ok_def)
  moreover have "find ?P (map ?f (st_objects s)) = map_option ?f (find ?P (st_objects s))"
    unfolding find_map_comp by (rule arg_cong [where f = "map_option ?f"], rule arg_cong [where f = "\<lambda>P. find P (st_objects s)"]) auto
  ultimately show ?thesis using r assms(1) by (simp add: sandbox_at_def db_get_def codec_ok_def)
qed

text \<open>The watcher reads a record, derives the new one and writes it back. When a policy is written into the spec in between, the write of
  the watcher brings the old spec back and the policy is gone.\<close>

theorem watcher_overwrites_spec:
  assumes "codec_ok env" "sandboxes_ok env (gs_store g)" "sandbox_at env (gs_store g) i = Some old"
    and "put_message (le_sandbox env) t1 (old\<lparr>sb_spec := Some new_spec\<rparr>) (gs_store g) = Inr s1"
    and "write_applied env t2 (applied_sandbox env o0 i (Some old)) (g\<lparr>gs_store := s1\<rparr>) = (Inr (), g')"
  shows "sandbox_at env (gs_store g') i = Some (applied_sandbox env o0 i (Some old)) \<and> sb_spec (applied_sandbox env o0 i (Some old)) = sb_spec old"
proof -
  let ?sb = "applied_sandbox env o0 i (Some old)"
  have i: "sb_id old = i" "sb_id ?sb = i" using sandbox_at_ids [OF assms(2,3)] by (simp_all add: applied_sandbox_def Let_def)
  have "sandbox_at env s1 i = Some (old\<lparr>sb_spec := Some new_spec\<rparr>)" using sandbox_at_put_existing [OF assms(1,4), of old] assms(3) i by simp
  moreover have "put_message (le_sandbox env) t2 ?sb s1 = Inr (gs_store g')"
    using assms(5) by (auto simp: write_applied_def Let_def split: sum.splits)
  ultimately have "sandbox_at env (gs_store g') i = Some ?sb" using sandbox_at_put_existing [OF assms(1), of t2 ?sb s1] i by simp
  then show ?thesis by (simp add: applied_sandbox_def Let_def)
qed

text \<open>A write that the database refuses still changes the index: the name then leads to an identifier without a record.\<close>

theorem failed_write_changes_index:
  assumes "put_message (le_sandbox env) now sb (gs_store g) = Inl e" "sb_name sb \<noteq> []"
  shows "fst (write_applied env now sb g) = Inl e \<and> gs_store (snd (write_applied env now sb g)) = gs_store g
    \<and> event_sandbox (gs_index (snd (write_applied env now sb g))) ''Sandbox'' (sb_name sb) = Some (sb_id sb)"
  using assms by (simp add: write_applied_def Let_def index_after_update)

text \<open>The completion line of a deletion brings back the log entry that was just removed.\<close>

theorem deletion_leaves_log_entry:
  assumes "handle_get_sandbox env name g = Inr sb" "handle_delete_sandbox env now name g = (Inr deleted, g')"
  shows "gs_logs g' (sb_id sb) \<noteq> None"
  using assms by (auto simp: handle_delete_sandbox_def Let_def bus_publish_def remove_buses_def split: sum.splits)

text \<open>The environment of a request reaches the supervisor, which takes its policy from local files when two of its variables are set. The
  gateway is then not asked, so not even a policy for all sandboxes applies.\<close>

theorem environment_replaces_policy:
  assumes "distinct (map fst (template_environment spec))" "distinct (map fst (spec_environment spec))"
    and "map_of (spec_environment spec) ''OPENSHELL_POLICY_RULES'' = Some rules" "map_of (spec_environment spec) ''OPENSHELL_POLICY_DATA'' = Some data"
  shows "\<exists>vars. build_env_list cfg (template_environment spec) (spec_environment spec) i n = env_items vars
    \<and> map_of vars ''OPENSHELL_POLICY_RULES'' = Some rules \<and> map_of vars ''OPENSHELL_POLICY_DATA'' = Some data"
    "files rules data = Inr (engine, config) \<Longrightarrow>
      \<exists>policy. load_policy gl from_str d files sandbox_id sandbox endpoint (Some rules) (Some data) g = Some (Inr (policy, engine), g)"
proof -
  obtain m where m: "build_env_list cfg (template_environment spec) (spec_environment spec) i n = env_items m"
    "map_of m = map_of (template_environment spec) ++ map_of (spec_environment spec) ++ map_of (required_env cfg i n)"
    using build_env_list_map [OF assms(1,2), of cfg i n] by blast
  moreover have "map_of (required_env cfg i n) ''OPENSHELL_POLICY_RULES'' = None" "map_of (required_env cfg i n) ''OPENSHELL_POLICY_DATA'' = None"
    by (simp_all add: required_env_def)
  ultimately show "\<exists>vars. build_env_list cfg (template_environment spec) (spec_environment spec) i n = env_items vars
    \<and> map_of vars ''OPENSHELL_POLICY_RULES'' = Some rules \<and> map_of vars ''OPENSHELL_POLICY_DATA'' = Some data"
    using assms(3,4) by (auto simp: map_add_def)
qed (simp add: load_policy_def)



section \<open>An example\<close>

definition example_env :: "(int, int proto_struct sandbox) lifecycle_env" where
  "example_env = \<lparr>le_sandbox = \<lparr>mt_object_type = ''sandbox'', mt_object_id = sb_id, mt_object_name = sb_name, mt_encode = id, mt_decode = Some\<rparr>,
     le_provider = \<lparr>mt_object_type = ''provider'', mt_object_id = pv_id, mt_object_name = pv_name, mt_encode = (\<lambda>_. undefined), mt_decode = (\<lambda>_. None)\<rparr>,
     le_session = session_type (\<lambda>_. undefined) (\<lambda>_. None), le_encoded_len = length, le_policy_len = (\<lambda>_. 0), le_num = JNum, le_cluster = example_cluster,
     le_sandbox_namespace = ''openshell'', le_nodes = Inr [], le_api_create = (\<lambda>_. ApiOk ()), le_api_delete = (\<lambda>_. ApiOk ()),
     le_api_get = (\<lambda>_. ApiOk ()), le_error_text = (\<lambda>_. [])\<rparr>"

definition example_request :: "int proto_struct create_sandbox_request" where
  "example_request = \<lparr>cq_name = ''dev'', cq_spec = Some (gpu_spec\<lparr>ss_gpu := False, ss_policy := Some wider_policy\<rparr>)\<rparr>"

definition example_gateway_state :: "int proto_struct sandbox gateway_state" where
  "example_gateway_state = \<lparr>gs_store = empty_store, gs_index = \<lparr>ix_name_to_id = Map.empty, ix_pod_to_id = Map.empty\<rparr>, gs_logs = Map.empty, gs_platform = Map.empty\<rparr>"

lemma example_codec: "codec_ok example_env" by (simp add: codec_ok_def example_env_def)

lemma example_creates: "\<exists>sb g'. handle_create_sandbox example_env 1 ''sb1'' ''pet'' example_request example_gateway_state = Some (Inr sb, g') \<and> sb_name sb = ''dev''"
proof -
  let ?spec = "gpu_spec\<lparr>ss_gpu := False, ss_policy := Some wider_policy\<rparr>"
  have "validate_sandbox_spec length (\<lambda>_. 0) ''dev'' ?spec = Inr ()"
    by (simp add: gpu_spec_def validate_sandbox_spec_def validate_string_map_def MAX_NAME_LEN_def MAX_PROVIDERS_def MAX_LOG_LEVEL_LEN_def
        MAX_ENVIRONMENT_ENTRIES_def MAX_MAP_KEY_LEN_def MAX_MAP_VALUE_LEN_def MAX_POLICY_SIZE_def fail_if_def)
  moreover have "ensure_sandbox_process_identity wider_policy = wider_policy"
    by (simp add: ensure_sandbox_process_identity_def wider_policy_def restrictive_default_policy_def)
  moreover have "validate_policy_safety wider_policy = Some (Inr ())"
    using wider_policy_safe by (simp add: validate_policy_safety_ok validate_sandbox_policy_safe)
  ultimately show ?thesis
    by (simp add: handle_create_sandbox_def prepare_sandbox_def example_request_def example_env_def secured_spec_def with_template_image_def Let_def
        gpu_spec_def get_message_by_name_def decode_record_def db_get_by_name_def example_gateway_state_def empty_store_def put_message_def db_put_def
        client_create_def)
qed

theorem creation_all_or_nothing_witness:
  "\<exists>sb g'. handle_create_sandbox example_env 1 ''sb1'' ''pet'' example_request example_gateway_state = Some (Inr sb, g')
     \<and> handle_get_sandbox example_env ''dev'' g' = Inr sb \<and> event_sandbox (gs_index g') ''Sandbox'' ''dev'' = Some ''sb1''"
proof -
  obtain sb g' where h: "handle_create_sandbox example_env 1 ''sb1'' ''pet'' example_request example_gateway_state = Some (Inr sb, g')" "sb_name sb = ''dev''"
    using example_creates by blast
  have "\<not> list_ex (\<lambda>r. ob_id r = ''sb1'') (st_objects (gs_store example_gateway_state))" by (simp add: example_gateway_state_def empty_store_def)
  from creation_all_or_nothing [OF example_codec this _ h(1)] show ?thesis using h by auto
qed


end
