(* ===== verification/Log_Pipeline.thy ===== *)
theory Log_Pipeline
  imports Sandbox_Lifecycle
begin

text \<open>
  The way of a log line: the tracing layer and the push task of a sandbox (\<open>crates/openshell-sandbox/src/log_push.rs\<close>), the tracing
  layer and the buffers of the gateway (\<open>tracing_bus.rs\<close>), and the handlers that take pushed lines in and serve them
  (\<open>grpc/policy.rs\<close>). The push task is a function of the events it waits for; its result tells which
  requests it handed to the stream.
\<close>

section \<open>Tracing layers\<close>

datatype trace_level = TraceError | TraceWarn | TraceInfo | TraceDebug | TraceTrace

definition trace_rank :: "trace_level \<Rightarrow> nat" where
  "trace_rank l = (case l of TraceError \<Rightarrow> 0 | TraceWarn \<Rightarrow> 1 | TraceInfo \<Rightarrow> 2 | TraceDebug \<Rightarrow> 3 | TraceTrace \<Rightarrow> 4)"

definition trace_text :: "trace_level \<Rightarrow> string" where
  "trace_text l = (case l of TraceError \<Rightarrow> ''ERROR'' | TraceWarn \<Rightarrow> ''WARN'' | TraceInfo \<Rightarrow> ''INFO'' | TraceDebug \<Rightarrow> ''DEBUG'' | TraceTrace \<Rightarrow> ''TRACE'')"

text \<open>An event with its formatted fields in order, and the shorthand of the structured event behind it, if there is one.\<close>

record trace_event =
  te_level :: trace_level
  te_target :: string
  te_name :: string
  te_fields :: "(string \<times> string) list"
  te_shorthand :: "string option"

definition OCSF_TARGET :: string where "OCSF_TARGET = ''ocsf''"

text \<open>The last value of a field, as the visitors keep it.\<close>

definition field_value :: "string \<Rightarrow> trace_event \<Rightarrow> string option" where
  "field_value key e = fold (\<lambda>(k, v) r. if k = key then Some v else r) (te_fields e) None"

definition message_of :: "trace_event \<Rightarrow> string" where
  "message_of e = (case field_value ''message'' e of Some m \<Rightarrow> m | None \<Rightarrow> te_name e)"

definition ms_or_zero :: "int option \<Rightarrow> int" where
  "ms_or_zero now = (case now of Some t \<Rightarrow> t | None \<Rightarrow> 0)"

text \<open>The layer of the sandbox; \<open>None\<close> when the event is not pushed.\<close>

definition push_layer_line :: "string \<Rightarrow> trace_level \<Rightarrow> int option \<Rightarrow> trace_event \<Rightarrow> log_line option" where
  "push_layer_line sandbox_id max_level now e =
     (if trace_rank (te_level e) > trace_rank max_level then None
      else let line = (\<lambda>level msg fields. \<lparr>lo_sandbox_id = sandbox_id, lo_timestamp_ms = ms_or_zero now, lo_level = level, lo_target = te_target e,
               lo_message = msg, lo_source = ''sandbox'', lo_fields = fields\<rparr>) in
        if te_target e = OCSF_TARGET then map_option (\<lambda>shorthand. line ''OCSF'' shorthand []) (te_shorthand e)
        else Some (line (trace_text (te_level e)) (message_of e)
          (fold (\<lambda>(k, v) m. al_insert k v m) (filter (\<lambda>(k, _). k \<noteq> ''message'') (te_fields e)) [])))"

text \<open>The layer of the gateway publishes an event that names a sandbox.\<close>

definition gateway_layer_line :: "int option \<Rightarrow> trace_event \<Rightarrow> log_line option" where
  "gateway_layer_line now e = (case field_value ''sandbox_id'' e of None \<Rightarrow> None
     | Some i \<Rightarrow> Some \<lparr>lo_sandbox_id = i, lo_timestamp_ms = ms_or_zero now, lo_level = trace_text (te_level e), lo_target = te_target e,
         lo_message = message_of e, lo_source = ''gateway'', lo_fields = []\<rparr>)"

definition publish_line :: "log_line \<Rightarrow> 'b gateway_state \<Rightarrow> 'b gateway_state" where
  "publish_line line g = g\<lparr>gs_logs := bus_publish (lo_sandbox_id line) line DEFAULT_TAIL (gs_logs g)\<rparr>"

definition gateway_event :: "int option \<Rightarrow> trace_event \<Rightarrow> 'b gateway_state \<Rightarrow> 'b gateway_state" where
  "gateway_event now e g = (case gateway_layer_line now e of None \<Rightarrow> g | Some line \<Rightarrow> publish_line line g)"

section \<open>The push task\<close>

datatype push_phase = Connecting | Streaming | Stopped

text \<open>The buffered lines, the requests handed to a stream so far, and the next backoff in seconds.\<close>

record push_state =
  pt_phase :: push_phase
  pt_batch :: "log_line list"
  pt_requests :: "log_line list list"
  pt_backoff :: nat

definition INITIAL_BACKOFF :: nat where "INITIAL_BACKOFF = 1"

definition MAX_BACKOFF :: nat where "MAX_BACKOFF = 30"

definition MAX_BUFFERED :: nat where "MAX_BUFFERED = 200"

definition push_init :: push_state where
  "push_init = \<lparr>pt_phase = Connecting, pt_batch = [], pt_requests = [], pt_backoff = INITIAL_BACKOFF\<rparr>"

text \<open>What the task waits for. A flag says whether the stream takes a request that is sent on the occasion; a failed
  connection comes with the lines received during the backoff.\<close>

datatype push_event = ConnectOk bool | ConnectFailed "log_line list" | LineReceived log_line bool | TimerTick bool | RpcDone | ChannelClosed bool

definition drain_during_backoff :: "log_line list \<Rightarrow> log_line list \<Rightarrow> log_line list" where
  "drain_during_backoff received batch = fold (\<lambda>l b. if length b < MAX_BUFFERED then b @ [l] else b) received batch"

text \<open>Sending takes the batch; a stream that is gone loses it and the task connects again.\<close>

definition send_batch :: "bool \<Rightarrow> push_state \<Rightarrow> push_state" where
  "send_batch taken s = (if pt_batch s = [] then s
     else if taken then s\<lparr>pt_requests := pt_requests s @ [pt_batch s], pt_batch := []\<rparr>
     else s\<lparr>pt_batch := [], pt_phase := Connecting, pt_backoff := INITIAL_BACKOFF\<rparr>)"

definition push_step :: "push_event \<Rightarrow> push_state \<Rightarrow> push_state" where
  "push_step ev s = (case (pt_phase s, ev) of
     (Connecting, ConnectOk taken) \<Rightarrow> send_batch taken (s\<lparr>pt_phase := Streaming, pt_backoff := INITIAL_BACKOFF\<rparr>)
   | (Connecting, ConnectFailed received) \<Rightarrow>
       s\<lparr>pt_batch := drain_during_backoff received (pt_batch s), pt_backoff := min (pt_backoff s * 2) MAX_BACKOFF\<rparr>
   | (Streaming, LineReceived line taken) \<Rightarrow>
       let s1 = s\<lparr>pt_batch := pt_batch s @ [line]\<rparr> in if length (pt_batch s1) \<ge> 50 then send_batch taken s1 else s1
   | (Streaming, TimerTick taken) \<Rightarrow> send_batch taken s
   | (Streaming, RpcDone) \<Rightarrow> s\<lparr>pt_phase := Connecting, pt_backoff := INITIAL_BACKOFF\<rparr>
   | (Streaming, ChannelClosed taken) \<Rightarrow> (send_batch taken s)\<lparr>pt_phase := Stopped\<rparr>
   | _ \<Rightarrow> s)"

section \<open>The handlers of the gateway\<close>

definition as_pushed :: "string \<Rightarrow> log_line \<Rightarrow> log_line" where
  "as_pushed sandbox_id line = line\<lparr>lo_source := ''sandbox'', lo_sandbox_id := sandbox_id\<rparr>"

definition ingest_batch :: "string \<Rightarrow> log_line list \<Rightarrow> 'b gateway_state \<Rightarrow> 'b gateway_state" where
  "ingest_batch sandbox_id logs g = fold (\<lambda>line. publish_line (as_pushed sandbox_id line)) (take 100 logs) g"

fun push_batches :: "('n, 'b) lifecycle_env \<Rightarrow> bool \<Rightarrow> (string, string \<times> log_line list) result list \<Rightarrow> 'b gateway_state \<Rightarrow>
   (status, unit) result \<times> 'b gateway_state" where
  "push_batches env validated [] g = (Inr (), g)"
| "push_batches env validated (Inl e # stream) g = (Inl (internal (''stream error: '' @ e)), g)"
| "push_batches env validated (Inr (sandbox_id, logs) # stream) g =
     (if sandbox_id = [] then push_batches env validated stream g
      else if validated then push_batches env True stream (ingest_batch sandbox_id logs g)
      else case get_message (le_sandbox env) sandbox_id (gs_store g) of
        Inl e \<Rightarrow> (Inl (internal (''fetch sandbox failed: '' @ e)), g)
      | Inr None \<Rightarrow> (Inl (not_found ''sandbox not found''), g)
      | Inr (Some _) \<Rightarrow> push_batches env True stream (ingest_batch sandbox_id logs g))"

definition handle_push_sandbox_logs :: "('n, 'b) lifecycle_env \<Rightarrow> (string, string \<times> log_line list) result list \<Rightarrow> 'b gateway_state \<Rightarrow>
   (status, unit) result \<times> 'b gateway_state" where
  "handle_push_sandbox_logs env stream g = push_batches env False stream g"

record log_filter =
  lf_since_ms :: int
  lf_sources :: "string list"
  lf_min_level :: string

definition live_match :: "(string \<Rightarrow> string) \<Rightarrow> log_filter \<Rightarrow> log_line \<Rightarrow> bool" where
  "live_match up f line \<longleftrightarrow> (lf_sources f = [] \<or> source_matches (lo_source line) (lf_sources f)) \<and> level_matches up (lo_level line) (lf_min_level f)"

definition log_match :: "(string \<Rightarrow> string) \<Rightarrow> log_filter \<Rightarrow> log_line \<Rightarrow> bool" where
  "log_match up f line \<longleftrightarrow> \<not> (lf_since_ms f > 0 \<and> lo_timestamp_ms line < lf_since_ms f) \<and> live_match up f line"

definition handle_get_sandbox_logs ::
  "(string \<Rightarrow> string) \<Rightarrow> string \<Rightarrow> u32 \<Rightarrow> log_filter \<Rightarrow> 'b gateway_state \<Rightarrow> (status, log_line list \<times> u32) result" where
  "handle_get_sandbox_logs up sandbox_id n f g =
     (if sandbox_id = [] then Inl (invalid_argument ''sandbox_id is required'')
      else let tail = bus_tail sandbox_id (unat (if n = 0 then 2000 else n)) (gs_logs g)
           in Inr (filter (log_match up f) tail, of_nat (length tail)))"

section \<open>The push task keeps order\<close>

fun received :: "push_event \<Rightarrow> log_line list" where
  "received (ConnectFailed ls) = ls"
| "received (LineReceived l taken) = [l]"
| "received ev = []"

definition held :: "push_state \<Rightarrow> log_line list" where
  "held s = concat (pt_requests s) @ pt_batch s"

lemma drain_subseq:
  "\<exists>news. drain_during_backoff ls b = b @ news \<and> subseq news ls \<and> length (b @ news) \<le> max (length b) MAX_BUFFERED"
proof (induction ls arbitrary: b)
  case (Cons l ls)
  let ?b = "if length b < MAX_BUFFERED then b @ [l] else b"
  obtain news where n: "drain_during_backoff ls ?b = ?b @ news" "subseq news ls" "length (?b @ news) \<le> max (length ?b) MAX_BUFFERED" using Cons by blast
  have d: "drain_during_backoff (l # ls) b = drain_during_backoff ls ?b" by (simp add: drain_during_backoff_def)
  show ?case
  proof (cases "length b < MAX_BUFFERED")
    case True
    then have "drain_during_backoff (l # ls) b = b @ (l # news) \<and> subseq (l # news) (l # ls)" using n d by simp
    moreover have "length (b @ l # news) \<le> max (length b) MAX_BUFFERED" using n(3) True by auto
    ultimately show ?thesis by blast
  next
    case False
    then have "drain_during_backoff (l # ls) b = b @ news \<and> subseq news (l # ls)" using n d by (auto simp: list_emb_Cons)
    then show ?thesis using n(3) False by auto
  qed
qed (simp add: drain_during_backoff_def)

text \<open>The bounds of the buffers: fewer than fifty lines while a stream is open.\<close>

definition push_ok :: "push_state \<Rightarrow> bool" where
  "push_ok s \<longleftrightarrow> length (pt_batch s) \<le> MAX_BUFFERED \<and> (pt_phase s \<noteq> Connecting \<longrightarrow> length (pt_batch s) < 50)
     \<and> list_all (\<lambda>r. r \<noteq> [] \<and> length r \<le> MAX_BUFFERED) (pt_requests s) \<and> INITIAL_BACKOFF \<le> pt_backoff s \<and> pt_backoff s \<le> MAX_BACKOFF"

lemma drain_length: "length b \<le> MAX_BUFFERED \<Longrightarrow> length (drain_during_backoff ls b) \<le> MAX_BUFFERED"
  using drain_subseq [of ls b] by auto

lemma buffer_sizes: "50 \<le> MAX_BUFFERED" "INITIAL_BACKOFF \<le> MAX_BACKOFF"
  by (simp_all add: MAX_BUFFERED_def INITIAL_BACKOFF_def MAX_BACKOFF_def)

lemma push_ok_step: "push_ok s \<Longrightarrow> push_ok (push_step ev s)"
  using drain_length [of "pt_batch s"] buffer_sizes
  by (cases "pt_phase s"; cases ev) (auto simp: push_ok_def push_step_def send_batch_def Let_def)

lemma held_step: "\<exists>kept. subseq kept (received ev) \<and> subseq (held (push_step ev s)) (held s @ kept)"
proof (cases "\<exists>ls. ev = ConnectFailed ls \<and> pt_phase s = Connecting")
  case True
  then obtain ls where ev: "ev = ConnectFailed ls" "pt_phase s = Connecting" by blast
  obtain news where "drain_during_backoff ls (pt_batch s) = pt_batch s @ news" "subseq news ls" using drain_subseq by blast
  then show ?thesis using ev by (auto simp: push_step_def held_def)
next
  case False
  have "subseq (held (push_step ev s)) (held s @ (if pt_phase s = Streaming then received ev else []))"
    using False by (cases "pt_phase s"; cases ev) (auto simp: push_step_def held_def send_batch_def Let_def intro: list_emb_prefix)
  moreover have "subseq (if pt_phase s = Streaming then received ev else []) (received ev)" by simp
  ultimately show ?thesis by blast
qed

text \<open>Whatever happens to the connection, what the push task has handed over and still holds are lines it received, each at most once
  and in order; its buffer never exceeds two hundred lines, fewer than fifty while a stream is open, and no request is empty or longer than
  the buffer.\<close>

theorem push_keeps_order:
  "push_ok (fold push_step evs push_init) \<and> subseq (held (fold push_step evs push_init)) (concat (map received evs))"
proof -
  have "push_ok s \<Longrightarrow> push_ok (fold push_step evs s)" for s by (induction evs arbitrary: s) (auto intro: push_ok_step)
  then have ok: "push_ok (fold push_step evs push_init)" by (simp add: push_ok_def push_init_def INITIAL_BACKOFF_def MAX_BACKOFF_def)
  have "subseq (held (fold push_step evs s)) (held s @ concat (map received evs))" for s
  proof (induction evs arbitrary: s)
    case (Cons ev evs)
    obtain kept where k: "subseq kept (received ev)" "subseq (held (push_step ev s)) (held s @ kept)" using held_step by blast
    have "subseq (held s @ kept) (held s @ received ev)" using k(1) by (intro list_emb_append_mono) simp_all
    then have "subseq (held (push_step ev s)) (held s @ received ev)" using k(2) by (rule subseq_order.trans [rotated])
    then have "subseq (held (push_step ev s) @ concat (map received evs)) ((held s @ received ev) @ concat (map received evs))"
      by (intro list_emb_append_mono) simp_all
    with Cons [of "push_step ev s"] have "subseq (held (fold push_step evs (push_step ev s))) ((held s @ received ev) @ concat (map received evs))"
      by (rule subseq_order.trans)
    then show ?case by simp
  qed simp
  from this [of push_init] have "subseq (held (fold push_step evs push_init)) (concat (map received evs))" by (simp add: held_def push_init_def)
  with ok show ?thesis by blast
qed

section \<open>From the sandbox to the buffer\<close>

text \<open>Events of a connection that holds.\<close>

fun undisturbed :: "push_event \<Rightarrow> bool" where
  "undisturbed (LineReceived l taken) = taken"
| "undisturbed (TimerTick taken) = taken"
| "undisturbed ev = False"

lemma undisturbed_run:
  assumes "list_all undisturbed evs" "pt_phase s = Streaming" "length (pt_batch s) < 50" "list_all (\<lambda>r. length r \<le> 50) (pt_requests s)"
  shows "held (fold push_step evs s) = held s @ concat (map received evs) \<and> list_all (\<lambda>r. length r \<le> 50) (pt_requests (fold push_step evs s))
    \<and> length (pt_batch (fold push_step evs s)) < 50"
  using assms
proof (induction evs arbitrary: s)
  case (Cons ev evs)
  have "pt_phase (push_step ev s) = Streaming \<and> length (pt_batch (push_step ev s)) < 50 \<and> list_all (\<lambda>r. length r \<le> 50) (pt_requests (push_step ev s))
    \<and> held (push_step ev s) = held s @ received ev"
    using Cons.prems by (cases ev) (auto simp: push_step_def send_batch_def Let_def held_def)
  then show ?case using Cons.IH [of "push_step ev s"] Cons.prems(1) by simp
qed simp

definition buffered :: "string \<Rightarrow> 'b gateway_state \<Rightarrow> log_line list" where
  "buffered i g = (case gs_logs g i of Some d \<Rightarrow> d | None \<Rightarrow> [])"

lemma buffered_publish:
  "buffered i (publish_line line g) = (if lo_sandbox_id line = i then last_n DEFAULT_TAIL (buffered i g @ [line]) else buffered i g)"
  "gs_store (publish_line line g) = gs_store g"
  by (auto simp: buffered_def publish_line_def bus_publish_def last_n_def Let_def)

lemma buffered_tail: "bus_tail i mx (gs_logs g) = last_n mx (buffered i g)"
  by (auto simp: bus_tail_def buffered_def last_n_def rev_take split: option.splits)

lemma last_n_append: "last_n n (last_n n xs @ ys) = last_n n (xs @ ys)"
  by (cases "length xs \<le> n") (auto simp: last_n_def Nat.add_diff_assoc2 add.commute)

lemma buffered_ingest:
  "last_n DEFAULT_TAIL (buffered i (ingest_batch i logs g)) = last_n DEFAULT_TAIL (buffered i g @ map (as_pushed i) (take 100 logs))"
proof -
  have "last_n DEFAULT_TAIL (buffered i (fold (\<lambda>line. publish_line (as_pushed i line)) ls g)) = last_n DEFAULT_TAIL (buffered i g @ map (as_pushed i) ls)" for ls
  proof (induction ls arbitrary: g)
    case (Cons l ls)
    have "lo_sandbox_id (as_pushed i l) = i" by (simp add: as_pushed_def)
    then show ?case using Cons [of "publish_line (as_pushed i l) g"] last_n_append [of DEFAULT_TAIL "buffered i g @ [as_pushed i l]"]
      by (simp add: buffered_publish)
  qed simp
  then show ?thesis by (simp add: ingest_batch_def)
qed

lemma ingest_store: "gs_store (ingest_batch i logs g) = gs_store g"
proof -
  have "gs_store (fold (\<lambda>line. publish_line (as_pushed i line)) ls g) = gs_store g" for ls
    by (induction ls arbitrary: g) (simp_all add: buffered_publish)
  then show ?thesis by (simp add: ingest_batch_def)
qed

lemma push_batches_run:
  assumes "i \<noteq> []" "list_all (\<lambda>r. length r \<le> 100) requests"
  shows "fst (push_batches env True (map (\<lambda>r. Inr (i, r)) requests) g) = Inr ()
    \<and> last_n DEFAULT_TAIL (buffered i (snd (push_batches env True (map (\<lambda>r. Inr (i, r)) requests) g)))
      = last_n DEFAULT_TAIL (buffered i g @ map (as_pushed i) (concat requests))"
  using assms(2)
proof (induction requests arbitrary: g)
  case (Cons r requests)
  have "last_n DEFAULT_TAIL (buffered i (ingest_batch i r g) @ ys) = last_n DEFAULT_TAIL (buffered i g @ map (as_pushed i) r @ ys)" for ys
    using last_n_append [of DEFAULT_TAIL "buffered i (ingest_batch i r g)" ys] last_n_append [of DEFAULT_TAIL "buffered i g @ map (as_pushed i) r" ys]
      buffered_ingest [of i r g] Cons.prems by simp
  then show ?case using Cons.IH [of "ingest_batch i r g"] Cons.prems assms(1) by simp
qed simp

lemma push_handler_run:
  assumes "i \<noteq> []" "get_message (le_sandbox env) i (gs_store g) = Inr (Some sb)" "list_all (\<lambda>r. length r \<le> 100) requests"
  shows "fst (handle_push_sandbox_logs env (map (\<lambda>r. Inr (i, r)) requests) g) = Inr ()
    \<and> last_n DEFAULT_TAIL (buffered i (snd (handle_push_sandbox_logs env (map (\<lambda>r. Inr (i, r)) requests) g)))
      = last_n DEFAULT_TAIL (buffered i g @ map (as_pushed i) (concat requests))"
proof (cases requests)
  case (Cons r rs)
  then show ?thesis using push_batches_run [OF assms(1,3), of env g] assms(1,2) by (simp add: handle_push_sandbox_logs_def)
qed (simp add: handle_push_sandbox_logs_def)

text \<open>Over a connection that holds, the log of the sandbox at the gateway is made of exactly the lines the push task received, in order,
  apart from the fewer than fifty it still holds: the buffer serves the last of them behind what it held before.\<close>

theorem pushed_lines_arrive:
  assumes "list_all undisturbed evs" "s = fold push_step (ConnectOk True # evs) push_init" "i \<noteq> []"
    and "get_message (le_sandbox env) i (gs_store g) = Inr (Some sb)" "mx \<le> DEFAULT_TAIL"
    and "handle_push_sandbox_logs env (map (\<lambda>r. Inr (i, r)) (pt_requests s)) g = (r, g')"
  shows "r = Inr () \<and> concat (pt_requests s) @ pt_batch s = concat (map received evs) \<and> length (pt_batch s) < 50
    \<and> bus_tail i mx (gs_logs g') = last_n mx (buffered i g @ map (as_pushed i) (concat (pt_requests s)))"
proof -
  let ?s0 = "push_init\<lparr>pt_phase := Streaming\<rparr>"
  have s: "s = fold push_step evs ?s0" using assms(2) by (simp add: push_step_def push_init_def send_batch_def)
  have run: "held s = concat (map received evs) \<and> list_all (\<lambda>r. length r \<le> 50) (pt_requests s) \<and> length (pt_batch s) < 50"
    using undisturbed_run [OF assms(1), of ?s0] s by (simp add: push_init_def held_def)
  then have "list_all (\<lambda>r. length r \<le> 100) (pt_requests s)" by (auto simp: list_all_iff)
  from push_handler_run [OF assms(3,4) this] have h: "r = Inr ()"
    "last_n DEFAULT_TAIL (buffered i g') = last_n DEFAULT_TAIL (buffered i g @ map (as_pushed i) (concat (pt_requests s)))"
    using assms(6) by simp_all
  have "last_n mx xs = last_n mx (last_n DEFAULT_TAIL xs)" for xs :: "log_line list"
    using assms(5) last_n_last_n [of mx DEFAULT_TAIL xs] by (simp add: last_n_def min_absorb1)
  then have "bus_tail i mx (gs_logs g') = last_n mx (buffered i g @ map (as_pushed i) (concat (pt_requests s)))"
    using h(2) by (metis buffered_tail)
  then show ?thesis using h(1) run by (simp add: held_def)
qed

section \<open>Lines that are lost\<close>

text \<open>Up to two hundred lines are kept while the task connects and go out as one request; the gateway takes a hundred lines of a request.\<close>

theorem reconnect_flush_truncated:
  assumes "length ls \<le> MAX_BUFFERED" "i \<noteq> []" "get_message (le_sandbox env) i (gs_store g) = Inr (Some sb)"
    and "s = fold push_step [ConnectFailed ls, ConnectOk True] push_init"
  shows "concat (pt_requests s) = ls \<and> pt_batch s = []
    \<and> last_n DEFAULT_TAIL (buffered i (snd (handle_push_sandbox_logs env (map (\<lambda>r. Inr (i, r)) (pt_requests s)) g)))
      = last_n DEFAULT_TAIL (buffered i g @ map (as_pushed i) (take 100 ls))"
proof -
  have "drain_during_backoff ls b = b @ ls" if "length (b @ ls) \<le> MAX_BUFFERED" for b
    using that by (induction ls arbitrary: b) (auto simp: drain_during_backoff_def)
  from this [of "[]"] have "s = push_init\<lparr>pt_phase := Streaming, pt_requests := (if ls = [] then [] else [ls])\<rparr>"
    using assms(1,4) by (auto simp: push_step_def push_init_def send_batch_def)
  then show ?thesis using assms(2,3) buffered_ingest [of i ls g] by (auto simp: push_init_def handle_push_sandbox_logs_def)
qed

text \<open>Only the first batch of a stream is checked: a later one may name any sandbox, existing or not, and is published under that name.\<close>

theorem later_batches_unchecked:
  assumes "i \<noteq> []" "j \<noteq> []" "get_message (le_sandbox env) i (gs_store g) = Inr (Some sb)"
  shows "handle_push_sandbox_logs env [Inr (i, []), Inr (j, logs)] g = (Inr (), ingest_batch j logs g)"
  using assms by (simp add: handle_push_sandbox_logs_def ingest_batch_def [of _ "[]"])

text \<open>A structured event of the sandbox has a level of its own, which passes no minimum level: a reader that asks for \<open>INFO\<close> misses it.\<close>

theorem structured_events_filtered:
  assumes "te_target e = OCSF_TARGET" "push_layer_line i max_level now e = Some line" "\<forall>s \<in> {''OCSF'', ''INFO''}. up s = s"
  shows "\<not> log_match up (f\<lparr>lf_min_level := ''INFO''\<rparr>) (as_pushed i line)"
  using assms by (auto simp: push_layer_line_def log_match_def live_match_def level_matches_def level_number_def as_pushed_def Let_def split: if_splits)

section \<open>An example\<close>

definition example_line :: "nat \<Rightarrow> log_line" where
  "example_line n = \<lparr>lo_sandbox_id = ''s1'', lo_timestamp_ms = int n, lo_level = ''INFO'', lo_target = ''t'', lo_message = ''m'', lo_source = ''sandbox'', lo_fields = []\<rparr>"

definition one_sandbox :: "int proto_struct sandbox gateway_state" where
  "one_sandbox = example_gateway_state\<lparr>gs_store := empty_store\<lparr>st_objects := [\<lparr>ob_type = ''sandbox'', ob_id = ''s1'', ob_name = ''dev'',
     ob_payload = \<lparr>sb_id = ''s1'', sb_name = ''dev'', sb_namespace = ''ns'', sb_spec = None, sb_status = None, sb_phase = 2, sb_created_at_ms = 0,
       sb_current_policy_version = 0\<rparr>, ob_created_at_ms = 0, ob_updated_at_ms = 0\<rparr>]\<rparr>\<rparr>"

lemma one_sandbox_found: "\<exists>sb. get_message (le_sandbox example_env) ''s1'' (gs_store one_sandbox) = Inr (Some sb)"
  by (simp add: get_message_def decode_record_def db_get_def one_sandbox_def example_env_def)

lemma last_n_all: "length xs \<le> n \<Longrightarrow> last_n n xs = xs"
  by (simp add: last_n_def)

theorem pushed_lines_arrive_witness:
  "bus_tail ''s1'' 10 (gs_logs (snd (handle_push_sandbox_logs example_env [Inr (''s1'', [example_line 1, example_line 2])] one_sandbox)))
    = [example_line 1, example_line 2]"
proof -
  let ?evs = "[LineReceived (example_line 1) True, LineReceived (example_line 2) True, TimerTick True]"
  let ?s = "fold push_step (ConnectOk True # ?evs) push_init"
  have req: "pt_requests ?s = [[example_line 1, example_line 2]]" by (simp add: push_step_def push_init_def send_batch_def)
  obtain sb where "get_message (le_sandbox example_env) ''s1'' (gs_store one_sandbox) = Inr (Some sb)" using one_sandbox_found by blast
  moreover obtain r g' where "handle_push_sandbox_logs example_env (map (\<lambda>r. Inr (''s1'', r)) (pt_requests ?s)) one_sandbox = (r, g')" by fastforce
  ultimately have "bus_tail ''s1'' 10 (gs_logs (snd (handle_push_sandbox_logs example_env (map (\<lambda>r. Inr (''s1'', r)) (pt_requests ?s)) one_sandbox)))
      = last_n 10 (buffered ''s1'' one_sandbox @ map (as_pushed ''s1'') (concat (pt_requests ?s)))"
    using pushed_lines_arrive [of ?evs ?s "''s1''" example_env one_sandbox sb 10 r g'] by (simp add: DEFAULT_TAIL_def)
  moreover have "buffered ''s1'' one_sandbox = []" by (simp add: buffered_def one_sandbox_def example_gateway_state_def)
  moreover have "as_pushed ''s1'' (example_line n) = example_line n" for n by (simp add: as_pushed_def example_line_def)
  ultimately show ?thesis using req by (simp add: last_n_all)
qed

end
