(* ===== verification/Watch_Stream.thy ===== *)
theory Watch_Stream
  imports Log_Pipeline
begin

text \<open>
  The watch handler (\<open>grpc/sandbox.rs\<close>) over the broadcast channels of the gateway (\<open>sandbox_watch.rs\<close>, \<open>tracing_bus.rs\<close>): the
  producer task of one client takes its steps between the publications, notifications, writes and removals of everybody else. A run is
  a sequence of these labels, in any order.
\<close>

section \<open>Broadcast channels\<close>

datatype recv_error = Closed | Lagged nat

text \<open>The broadcast channels of the asynchronous runtime, seen from one receiver: a new subscription, a value sent by anybody, an attempt to
  receive (\<open>None\<close> while there is nothing to receive) and the end of the sender.\<close>

record ('c, 'e) broadcast =
  bc_new :: 'c
  bc_send :: "'e \<Rightarrow> 'c \<Rightarrow> 'c"
  bc_recv :: "'c \<Rightarrow> ((recv_error, 'e) result \<times> 'c) option"
  bc_close :: "'c \<Rightarrow> 'c"

text \<open>Their documented behaviour: a receiver has unread values, which it receives in the order in which they were sent, or is out of step: it was too
  slow or the sender is gone. Only an error brings it back.\<close>

locale broadcast_laws =
  fixes ch :: "('c, 'e) broadcast" and view :: "'c \<Rightarrow> 'e list option"
  assumes view_new: "view (bc_new ch) = Some []"
    and view_send: "view c = Some q \<Longrightarrow> view (bc_send ch e c) = Some (q @ [e]) \<or> view (bc_send ch e c) = None"
    and view_send_out: "view c = None \<Longrightarrow> view (bc_send ch e c) = None"
    and view_close: "view (bc_close ch c) = None"
    and recv_first: "view c = Some (e # q) \<Longrightarrow> \<exists>c'. bc_recv ch c = Some (Inr e, c') \<and> view c' = Some q"
    and recv_nothing: "view c = Some [] \<Longrightarrow> bc_recv ch c = None"
    and recv_out: "view c = None \<Longrightarrow> bc_recv ch c = Some (Inr e, c') \<Longrightarrow> view c' = None"
begin

lemma recv_value:
  assumes "bc_recv ch c = Some (Inr e, c')"
  shows "view c' = None \<or> (\<exists>q. view c = Some (e # q) \<and> view c' = Some q)"
proof (cases "view c")
  case (Some q)
  show ?thesis
  proof (cases q)
    case Nil
    then show ?thesis using Some recv_nothing assms by simp
  next
    case (Cons x xs)
    then obtain c'' where "bc_recv ch c = Some (Inr x, c'')" "view c'' = Some xs" using recv_first Some by blast
    then show ?thesis using assms Some Cons by simp
  qed
next
  case None
  then show ?thesis using recv_out assms by simp
qed

lemma send_not_drained: "view (bc_send ch e c) \<noteq> Some []"
  using view_send [of c _ e] view_send_out [of c e] by (cases "view c") auto

end

definition broadcast_to_status :: "recv_error \<Rightarrow> status" where
  "broadcast_to_status failure = (case failure of
     Closed \<Rightarrow> Status Cancelled ''stream closed''
   | Lagged n \<Rightarrow> Status ResourceExhausted (''watch stream lagged; dropped '' @ show_nat n @ '' messages''))"

text \<open>What the producer is given: Unicode upper case and the three channels.\<close>

record ('u, 'l, 'p) watch_env =
  we_upper :: "string \<Rightarrow> string"
  we_status :: "('u, unit) broadcast"
  we_logs :: "('l, log_line) broadcast"
  we_events :: "('p, platform_event) broadcast"

section \<open>The producer\<close>

datatype 'n stream_event = SandboxSnapshot "'n proto_struct sandbox" | LogEvent log_line | PlatformEvent platform_event

record watch_request =
  wq_id :: string
  wq_follow_status :: bool
  wq_follow_logs :: bool
  wq_follow_events :: bool
  wq_log_tail_lines :: u32
  wq_stop_on_terminal :: bool
  wq_filter :: log_filter

datatype watch_pc = WCheck | WSubscribe | WSnapshot | WReplayLogs | WReplayEvents | WLoop | WDone

record ('n, 'b, 'u, 'l, 'p) watch_world =
  ww_gateway :: "'b gateway_state"
  ww_pc :: watch_pc
  ww_status :: "'u option"
  ww_logs :: "'l option"
  ww_events :: "'p option"
  ww_out :: "(status, 'n stream_event) result list"
  ww_gone :: bool

definition emit :: "(status, 'n stream_event) result \<Rightarrow> ('n, 'b, 'u, 'l, 'p) watch_world \<Rightarrow> ('n, 'b, 'u, 'l, 'p) watch_world" where
  "emit x w = (if ww_gone w then w else w\<lparr>ww_out := ww_out w @ [x]\<rparr>)"

definition finish :: "('n, 'b, 'u, 'l, 'p) watch_world \<Rightarrow> ('n, 'b, 'u, 'l, 'p) watch_world" where
  "finish w = w\<lparr>ww_pc := WDone\<rparr>"

text \<open>Sending events one by one; a client that is gone ends the task at the first of them.\<close>

definition emit_all :: "'n stream_event list \<Rightarrow> watch_pc \<Rightarrow> ('n, 'b, 'u, 'l, 'p) watch_world \<Rightarrow> ('n, 'b, 'u, 'l, 'p) watch_world" where
  "emit_all evs next w = (if evs \<noteq> [] \<and> ww_gone w then finish w else w\<lparr>ww_out := ww_out w @ map Inr evs, ww_pc := next\<rparr>)"

definition fetch_failed :: "string \<Rightarrow> status" where
  "fetch_failed e = internal (''fetch sandbox failed: '' @ e)"

definition watch_check :: "('n, 'b) lifecycle_env \<Rightarrow> watch_request \<Rightarrow> ('n, 'b, 'u, 'l, 'p) watch_world \<Rightarrow> ('n, 'b, 'u, 'l, 'p) watch_world" where
  "watch_check env req w = (case get_message (le_sandbox env) (wq_id req) (gs_store (ww_gateway w)) of
     Inl e \<Rightarrow> finish (emit (Inl (fetch_failed e)) w)
   | Inr None \<Rightarrow> finish (emit (Inl (not_found ''sandbox not found'')) w)
   | Inr (Some _) \<Rightarrow> w\<lparr>ww_pc := WSubscribe\<rparr>)"

definition watch_subscribe :: "('u, 'l, 'p) watch_env \<Rightarrow> watch_request \<Rightarrow> ('n, 'b, 'u, 'l, 'p) watch_world \<Rightarrow> ('n, 'b, 'u, 'l, 'p) watch_world" where
  "watch_subscribe we req w = w\<lparr>ww_status := (if wq_follow_status req then Some (bc_new (we_status we)) else None),
     ww_logs := (if wq_follow_logs req then Some (bc_new (we_logs we)) else None), ww_events := (if wq_follow_events req then Some (bc_new (we_events we)) else None), ww_pc := WSnapshot\<rparr>"

text \<open>A snapshot is indexed and sent; the phase that ends the stream is \<open>Ready\<close>.\<close>

definition indexed :: "'n proto_struct sandbox \<Rightarrow> ('n, 'b, 'u, 'l, 'p) watch_world \<Rightarrow> ('n, 'b, 'u, 'l, 'p) watch_world" where
  "indexed sandbox w = w\<lparr>ww_gateway := (ww_gateway w)\<lparr>gs_index := update_from_sandbox sandbox (gs_index (ww_gateway w))\<rparr>\<rparr>"

definition stops_at :: "watch_request \<Rightarrow> 'n proto_struct sandbox \<Rightarrow> bool" where
  "stops_at req sandbox \<longleftrightarrow> wq_stop_on_terminal req \<and> sb_phase sandbox = phase_number Ready"

definition watch_snapshot :: "('n, 'b) lifecycle_env \<Rightarrow> watch_request \<Rightarrow> ('n, 'b, 'u, 'l, 'p) watch_world \<Rightarrow> ('n, 'b, 'u, 'l, 'p) watch_world" where
  "watch_snapshot env req w = (case get_message (le_sandbox env) (wq_id req) (gs_store (ww_gateway w)) of
     Inl e \<Rightarrow> finish (emit (Inl (fetch_failed e)) w)
   | Inr None \<Rightarrow> finish (emit (Inl (not_found ''sandbox not found'')) w)
   | Inr (Some sandbox) \<Rightarrow>
       let w1 = emit (Inr (SandboxSnapshot sandbox)) (indexed sandbox w)
       in if stops_at req sandbox then finish w1 else w1\<lparr>ww_pc := WReplayLogs\<rparr>)"

definition log_tail_of :: "watch_request \<Rightarrow> nat" where
  "log_tail_of req = (if wq_log_tail_lines req = 0 then 200 else unat (wq_log_tail_lines req))"

definition watch_replay_logs :: "('u, 'l, 'p) watch_env \<Rightarrow> watch_request \<Rightarrow> ('n, 'b, 'u, 'l, 'p) watch_world \<Rightarrow> ('n, 'b, 'u, 'l, 'p) watch_world" where
  "watch_replay_logs we req w =
     emit_all (if wq_follow_logs req
       then map LogEvent (filter (log_match (we_upper we) (wq_filter req)) (bus_tail (wq_id req) (log_tail_of req) (gs_logs (ww_gateway w)))) else []) WReplayEvents w"

definition watch_replay_events :: "watch_request \<Rightarrow> ('n, 'b, 'u, 'l, 'p) watch_world \<Rightarrow> ('n, 'b, 'u, 'l, 'p) watch_world" where
  "watch_replay_events req w =
     emit_all (if wq_follow_events req then map PlatformEvent (bus_tail (wq_id req) 50 (gs_platform (ww_gateway w))) else []) WLoop w"

text \<open>The three branches of the loop.\<close>

definition on_status :: "('n, 'b) lifecycle_env \<Rightarrow> ('u, 'l, 'p) watch_env \<Rightarrow> watch_request \<Rightarrow> ('n, 'b, 'u, 'l, 'p) watch_world \<Rightarrow> ('n, 'b, 'u, 'l, 'p) watch_world" where
  "on_status env we req w = (case Option.bind (ww_status w) (bc_recv (we_status we)) of
     None \<Rightarrow> w
   | Some (Inl failure, rx) \<Rightarrow> finish (emit (Inl (broadcast_to_status failure)) w)
   | Some (Inr _, rx) \<Rightarrow> (let w1 = w\<lparr>ww_status := Some rx\<rparr> in
       case get_message (le_sandbox env) (wq_id req) (gs_store (ww_gateway w)) of
         Inl e \<Rightarrow> finish (emit (Inl (fetch_failed e)) w1)
       | Inr None \<Rightarrow> finish w1
       | Inr (Some sandbox) \<Rightarrow>
           let w2 = emit_all [SandboxSnapshot sandbox] WLoop (indexed sandbox w1)
           in if stops_at req sandbox then finish w2 else w2))"

definition on_log :: "('u, 'l, 'p) watch_env \<Rightarrow> watch_request \<Rightarrow> ('n, 'b, 'u, 'l, 'p) watch_world \<Rightarrow> ('n, 'b, 'u, 'l, 'p) watch_world" where
  "on_log we req w = (case Option.bind (ww_logs w) (bc_recv (we_logs we)) of
     None \<Rightarrow> w
   | Some (Inl failure, rx) \<Rightarrow> finish (emit (Inl (broadcast_to_status failure)) w)
   | Some (Inr line, rx) \<Rightarrow> (let w1 = w\<lparr>ww_logs := Some rx\<rparr> in
       if live_match (we_upper we) (wq_filter req) line then emit_all [LogEvent line] WLoop w1 else w1))"

definition on_event :: "('u, 'l, 'p) watch_env \<Rightarrow> ('n, 'b, 'u, 'l, 'p) watch_world \<Rightarrow> ('n, 'b, 'u, 'l, 'p) watch_world" where
  "on_event we w = (case Option.bind (ww_events w) (bc_recv (we_events we)) of
     None \<Rightarrow> w
   | Some (Inl failure, rx) \<Rightarrow> finish (emit (Inl (broadcast_to_status failure)) w)
   | Some (Inr evt, rx) \<Rightarrow> emit_all [PlatformEvent evt] WLoop (w\<lparr>ww_events := Some rx\<rparr>))"

datatype watch_branch = StatusReady | LogReady | EventReady

definition watch_turn :: "('n, 'b) lifecycle_env \<Rightarrow> ('u, 'l, 'p) watch_env \<Rightarrow> watch_request \<Rightarrow> watch_branch \<Rightarrow> ('n, 'b, 'u, 'l, 'p) watch_world \<Rightarrow> ('n, 'b, 'u, 'l, 'p) watch_world" where
  "watch_turn env we req branch w = (case ww_pc w of
     WCheck \<Rightarrow> watch_check env req w
   | WSubscribe \<Rightarrow> watch_subscribe we req w
   | WSnapshot \<Rightarrow> watch_snapshot env req w
   | WReplayLogs \<Rightarrow> watch_replay_logs we req w
   | WReplayEvents \<Rightarrow> watch_replay_events req w
   | WLoop \<Rightarrow> (case branch of StatusReady \<Rightarrow> on_status env we req w | LogReady \<Rightarrow> on_log we req w | EventReady \<Rightarrow> on_event we w)
   | WDone \<Rightarrow> w)"

section \<open>The others\<close>

datatype 'b watch_label = Turn watch_branch | LogPublished log_line | EventPublished string platform_event | Notified string
  | BusesRemoved string | StoreChanged "'b store" | ClientLeft

definition watch_act ::
  "('n, 'b) lifecycle_env \<Rightarrow> ('u, 'l, 'p) watch_env \<Rightarrow> watch_request \<Rightarrow> 'b watch_label \<Rightarrow> ('n, 'b, 'u, 'l, 'p) watch_world \<Rightarrow> ('n, 'b, 'u, 'l, 'p) watch_world" where
  "watch_act env we req label w = (let g = ww_gateway w in case label of
     Turn branch \<Rightarrow> watch_turn env we req branch w
   | LogPublished line \<Rightarrow> w\<lparr>ww_gateway := publish_line line g,
       ww_logs := (if lo_sandbox_id line = wq_id req then map_option (bc_send (we_logs we) line) (ww_logs w) else ww_logs w)\<rparr>
   | EventPublished i evt \<Rightarrow> w\<lparr>ww_gateway := g\<lparr>gs_platform := bus_publish i evt 50 (gs_platform g)\<rparr>,
       ww_events := (if i = wq_id req then map_option (bc_send (we_events we) evt) (ww_events w) else ww_events w)\<rparr>
   | Notified i \<Rightarrow> (if i = wq_id req then w\<lparr>ww_status := map_option (bc_send (we_status we) ()) (ww_status w)\<rparr> else w)
   | BusesRemoved i \<Rightarrow> (let w1 = w\<lparr>ww_gateway := remove_buses i g\<rparr> in
       if i = wq_id req
       then w1\<lparr>ww_status := map_option (bc_close (we_status we)) (ww_status w), ww_logs := map_option (bc_close (we_logs we)) (ww_logs w),
               ww_events := map_option (bc_close (we_events we)) (ww_events w)\<rparr>
       else w1)
   | StoreChanged s \<Rightarrow> w\<lparr>ww_gateway := g\<lparr>gs_store := s\<rparr>\<rparr>
   | ClientLeft \<Rightarrow> w\<lparr>ww_gone := True\<rparr>)"

definition watch_start :: "'b gateway_state \<Rightarrow> ('n, 'b, 'u, 'l, 'p) watch_world" where
  "watch_start g = \<lparr>ww_gateway = g, ww_pc = WCheck, ww_status = None, ww_logs = None, ww_events = None, ww_out = [], ww_gone = False\<rparr>"

text \<open>The handler: a request without an identifier is refused, any other starts the producer.\<close>

definition handle_watch_sandbox ::
  "('n, 'b) lifecycle_env \<Rightarrow> ('u, 'l, 'p) watch_env \<Rightarrow> watch_request \<Rightarrow> 'b watch_label list \<Rightarrow> 'b gateway_state \<Rightarrow> (status, ('n, 'b, 'u, 'l, 'p) watch_world) result" where
  "handle_watch_sandbox env we req labels g =
     (if wq_id req = [] then Inl (invalid_argument ''id is required'') else Inr (fold (watch_act env we req) labels (watch_start g)))"

section \<open>Which log lines the client receives\<close>

definition log_lines :: "(status, 'n stream_event) result list \<Rightarrow> log_line list" where
  "log_lines out = List.map_filter (\<lambda>x. case x of Inr (LogEvent line) \<Rightarrow> Some line | _ \<Rightarrow> None) out"

fun published_by :: "string \<Rightarrow> 'b watch_label \<Rightarrow> log_line list" where
  "published_by i (LogPublished line) = (if lo_sandbox_id line = i then [line] else [])"
| "published_by i label = []"

definition published :: "string \<Rightarrow> 'b watch_label list \<Rightarrow> log_line list" where
  "published i labels = concat (map (published_by i) labels)"

text \<open>The lines replayed when the buffer is read after the first \<open>b\<close> of the published lines.\<close>

definition replayed :: "(string \<Rightarrow> string) \<Rightarrow> watch_request \<Rightarrow> log_line list \<Rightarrow> log_line list \<Rightarrow> nat \<Rightarrow> log_line list" where
  "replayed up req before pub b = filter (log_match up (wq_filter req)) (last_n (log_tail_of req) (last_n DEFAULT_TAIL (before @ take b pub)))"

text \<open>What is known of the receiver of log lines and of the lines sent: before and after the replay. Nothing is known of a receiver that is out of step.\<close>

definition awaiting :: "('l \<Rightarrow> log_line list option) \<Rightarrow> log_line list \<Rightarrow> 'l option \<Rightarrow> log_line list \<Rightarrow> bool" where
  "awaiting view pub rx0 sent \<longleftrightarrow> sent = [] \<and> (\<exists>rx a. rx0 = Some rx \<and> a \<le> length pub \<and> (\<forall>q. view rx = Some q \<longrightarrow> q = drop a pub))"

definition following ::
  "(string \<Rightarrow> string) \<Rightarrow> ('l \<Rightarrow> log_line list option) \<Rightarrow> watch_request \<Rightarrow> log_line list \<Rightarrow> log_line list \<Rightarrow> 'l option \<Rightarrow> log_line list \<Rightarrow> bool" where
  "following up view req before pub rx0 sent \<longleftrightarrow> (\<exists>rx a b. rx0 = Some rx \<and> a \<le> b \<and> b \<le> length pub \<and>
     (\<forall>q. view rx = Some q \<longrightarrow> sent @ filter (live_match up (wq_filter req)) q
        = replayed up req before pub b @ filter (live_match up (wq_filter req)) (drop a pub)))"

definition log_phase ::
  "(string \<Rightarrow> string) \<Rightarrow> ('l \<Rightarrow> log_line list option) \<Rightarrow> watch_request \<Rightarrow> log_line list \<Rightarrow> log_line list \<Rightarrow> watch_pc \<Rightarrow> 'l option \<Rightarrow> log_line list \<Rightarrow> bool" where
  "log_phase up view req before pub pc rx0 sent \<longleftrightarrow> (case pc of
     WCheck \<Rightarrow> rx0 = None \<and> sent = [] | WSubscribe \<Rightarrow> rx0 = None \<and> sent = []
   | WSnapshot \<Rightarrow> awaiting view pub rx0 sent | WReplayLogs \<Rightarrow> awaiting view pub rx0 sent
   | WReplayEvents \<Rightarrow> following up view req before pub rx0 sent | WLoop \<Rightarrow> following up view req before pub rx0 sent
   | WDone \<Rightarrow> True)"

definition log_inv :: "(string \<Rightarrow> string) \<Rightarrow> ('l \<Rightarrow> log_line list option) \<Rightarrow> watch_request \<Rightarrow> log_line list \<Rightarrow> log_line list \<Rightarrow> ('n, 'b, 'u, 'l, 'p) watch_world \<Rightarrow> bool" where
  "log_inv up view req before pub w \<longleftrightarrow> buffered (wq_id req) (ww_gateway w) = last_n DEFAULT_TAIL (before @ pub)
     \<and> log_phase up view req before pub (ww_pc w) (ww_logs w) (log_lines (ww_out w))"

lemma log_lines_simps [simp]:
  "log_lines [] = []" "log_lines (xs @ ys) = log_lines xs @ log_lines ys" "log_lines [Inl e] = []" "log_lines [Inr (SandboxSnapshot sb)] = []"
  "log_lines [Inr (LogEvent line)] = [line]" "log_lines [Inr (PlatformEvent evt)] = []" "log_lines (map (Inr \<circ> LogEvent) ls) = ls"
  "log_lines (map (Inr \<circ> PlatformEvent) es) = []"
  by (simp_all add: log_lines_def List.map_filter_def comp_def)

lemma emit_simps [simp]:
  "ww_gateway (emit x w) = ww_gateway w" "ww_pc (emit x w) = ww_pc w" "ww_status (emit x w) = ww_status w" "ww_logs (emit x w) = ww_logs w"
  "ww_events (emit x w) = ww_events w" "ww_gone (emit x w) = ww_gone w"
  "ww_gateway (finish w) = ww_gateway w" "ww_pc (finish w) = WDone" "ww_status (finish w) = ww_status w" "ww_logs (finish w) = ww_logs w"
  "ww_events (finish w) = ww_events w" "ww_gone (finish w) = ww_gone w" "ww_out (finish w) = ww_out w"
  "ww_gateway (emit_all evs pc w) = ww_gateway w" "ww_logs (emit_all evs pc w) = ww_logs w" "ww_status (emit_all evs pc w) = ww_status w"
  "ww_events (emit_all evs pc w) = ww_events w" "ww_gone (emit_all evs pc w) = ww_gone w"
  "ww_pc (indexed sb w) = ww_pc w" "ww_logs (indexed sb w) = ww_logs w" "ww_status (indexed sb w) = ww_status w" "ww_out (indexed sb w) = ww_out w"
  "ww_gone (indexed sb w) = ww_gone w" "gs_store (ww_gateway (indexed sb w)) = gs_store (ww_gateway w)"
  "buffered i (ww_gateway (indexed sb w)) = buffered i (ww_gateway w)"
  by (simp_all add: emit_def finish_def emit_all_def indexed_def buffered_def)

lemma emit_all_pc: "ww_pc (emit_all evs pc w) = (if evs \<noteq> [] \<and> ww_gone w then WDone else pc)"
  "ww_out (emit_all evs pc w) = (if evs \<noteq> [] \<and> ww_gone w then ww_out w else ww_out w @ map Inr evs)"
  by (simp_all add: emit_all_def finish_def)

lemma log_phase_Done [simp]: "log_phase up view req before pub WDone rx sent"
  by (simp add: log_phase_def)

lemma log_inv_check: "log_inv (we_upper we) view req before pub w \<Longrightarrow> ww_pc w = WCheck \<Longrightarrow> log_inv (we_upper we) view req before pub (watch_check env req w)"
  by (auto simp: log_inv_def watch_check_def log_phase_def buffered_def split: sum.split option.split)

lemma log_inv_subscribe:
  "broadcast_laws (we_logs we) view \<Longrightarrow> log_inv (we_upper we) view req before pub w \<Longrightarrow> ww_pc w = WSubscribe \<Longrightarrow> wq_follow_logs req \<Longrightarrow> log_inv (we_upper we) view req before pub (watch_subscribe we req w)"
  by (auto simp: log_inv_def watch_subscribe_def log_phase_def awaiting_def broadcast_laws.view_new intro!: exI [of _ "length pub"])

lemma log_inv_snapshot: "log_inv (we_upper we) view req before pub w \<Longrightarrow> ww_pc w = WSnapshot \<Longrightarrow> log_inv (we_upper we) view req before pub (watch_snapshot env req w)"
  by (auto simp: log_inv_def watch_snapshot_def log_phase_def emit_def indexed_def buffered_def Let_def split: sum.split option.split)

lemma awaiting_follows:
  "awaiting view pub rx0 sent \<Longrightarrow> following (we_upper we) view req before pub rx0 (sent @ replayed (we_upper we) req before pub (length pub))"
  unfolding awaiting_def following_def by (metis append_Nil order_refl)

lemma log_inv_replay_logs:
  assumes "log_inv (we_upper we) view req before pub w" "ww_pc w = WReplayLogs" "wq_follow_logs req"
  shows "log_inv (we_upper we) view req before pub (watch_replay_logs we req w)"
proof -
  have tail: "filter (log_match (we_upper we) (wq_filter req)) (bus_tail (wq_id req) (log_tail_of req) (gs_logs (ww_gateway w))) = replayed (we_upper we) req before pub (length pub)"
    using assms(1) by (simp add: replayed_def buffered_tail log_inv_def)
  show ?thesis using assms awaiting_follows [of view pub "ww_logs w" "log_lines (ww_out w)" we req before]
    by (auto simp: log_inv_def watch_replay_logs_def tail emit_all_pc log_phase_def)
qed

lemma log_inv_replay_events:
  "log_inv (we_upper we) view req before pub w \<Longrightarrow> ww_pc w = WReplayEvents \<Longrightarrow> log_inv (we_upper we) view req before pub (watch_replay_events req w)"
  by (simp add: log_inv_def watch_replay_events_def emit_all_pc log_phase_def)

lemma log_inv_on_status: "log_inv (we_upper we) view req before pub w \<Longrightarrow> ww_pc w = WLoop \<Longrightarrow> log_inv (we_upper we) view req before pub (on_status env we req w)"
  by (auto simp: log_inv_def on_status_def log_phase_def emit_all_pc emit_def indexed_def buffered_def Let_def split: sum.split option.split)

lemma log_inv_on_event: "log_inv (we_upper we) view req before pub w \<Longrightarrow> ww_pc w = WLoop \<Longrightarrow> log_inv (we_upper we) view req before pub (on_event we w)"
  by (auto simp: log_inv_def on_event_def log_phase_def emit_all_pc emit_def split: sum.split option.split)

lemma following_recv:
  assumes "broadcast_laws ch view" "following up view req before pub (Some rx) sent" "bc_recv ch rx = Some (Inr line, rx')"
  shows "following up view req before pub (Some rx') (sent @ filter (live_match up (wq_filter req)) [line])"
proof -
  obtain a b where f: "a \<le> b" "b \<le> length pub" "\<And>q. view rx = Some q \<Longrightarrow> sent @ filter (live_match up (wq_filter req)) q
      = replayed up req before pub b @ filter (live_match up (wq_filter req)) (drop a pub)" using assms(2) by (auto simp: following_def)
  have "(sent @ filter (live_match up (wq_filter req)) [line]) @ filter (live_match up (wq_filter req)) q
      = replayed up req before pub b @ filter (live_match up (wq_filter req)) (drop a pub)" if "view rx' = Some q" for q
  proof -
    have "view rx = Some (line # q)" using broadcast_laws.recv_value [OF assms(1,3)] that by auto
    from f(3) [OF this] show ?thesis by (simp split: if_splits)
  qed
  then show ?thesis unfolding following_def using f(1,2) by blast
qed

lemma log_inv_on_log:
  assumes "broadcast_laws (we_logs we) view" "log_inv (we_upper we) view req before pub w" "ww_pc w = WLoop"
  shows "log_inv (we_upper we) view req before pub (on_log we req w)"
proof (cases "Option.bind (ww_logs w) (bc_recv (we_logs we))")
  case (Some p)
  then obtain rx x rx' where r: "ww_logs w = Some rx" "bc_recv (we_logs we) rx = Some (x, rx')" "p = (x, rx')" by (cases "ww_logs w"; cases p) auto
  show ?thesis
  proof (cases x)
    case (Inr line)
    then have "following (we_upper we) view req before pub (Some rx') (log_lines (ww_out w) @ filter (live_match (we_upper we) (wq_filter req)) [line])"
      using assms(2,3) r following_recv [OF assms(1), of "we_upper we" req before pub rx] by (simp add: log_inv_def log_phase_def)
    then show ?thesis using assms r Inr Some by (auto simp: log_inv_def log_phase_def on_log_def emit_all_pc Let_def)
  qed (use assms r Some in \<open>simp add: log_inv_def on_log_def\<close>)
qed (use assms in \<open>simp add: on_log_def\<close>)

lemma log_inv_turn:
  assumes "broadcast_laws (we_logs we) view" "log_inv (we_upper we) view req before pub w" "wq_follow_logs req"
  shows "log_inv (we_upper we) view req before pub (watch_turn env we req branch w)"
  using assms by (cases "ww_pc w"; cases branch)
    (simp_all add: watch_turn_def log_inv_check log_inv_subscribe log_inv_snapshot log_inv_replay_logs log_inv_replay_events
      log_inv_on_status log_inv_on_log log_inv_on_event)

lemma view_after_send:
  assumes "broadcast_laws ch view" "view (bc_send ch e c) = Some q"
  obtains q' where "view c = Some q'" "q = q' @ [e]"
  using assms(2) broadcast_laws.view_send [OF assms(1), of c _ e] broadcast_laws.view_send_out [OF assms(1), of c e] by (cases "view c") auto

lemma awaiting_publish:
  assumes "broadcast_laws ch view" "awaiting view pub rx0 sent"
  shows "awaiting view (pub @ [line]) (map_option (bc_send ch line) rx0) sent"
proof -
  obtain rx a where f: "sent = []" "rx0 = Some rx" "a \<le> length pub" "\<And>q. view rx = Some q \<Longrightarrow> q = drop a pub" using assms(2) by (auto simp: awaiting_def)
  then show ?thesis unfolding awaiting_def
    by (intro conjI exI [of _ "bc_send ch line rx"] exI [of _ a]) (auto elim!: view_after_send [OF assms(1)])
qed

lemma following_publish:
  assumes "broadcast_laws ch view" "following up view req before pub rx0 sent"
  shows "following up view req before (pub @ [line]) (map_option (bc_send ch line) rx0) sent"
proof -
  obtain rx a b where f: "rx0 = Some rx" "a \<le> b" "b \<le> length pub" "\<And>q. view rx = Some q \<Longrightarrow> sent @ filter (live_match up (wq_filter req)) q
      = replayed up req before pub b @ filter (live_match up (wq_filter req)) (drop a pub)" using assms(2) by (auto simp: following_def)
  have same: "replayed up req before (pub @ [line]) b = replayed up req before pub b" using f(3) by (simp add: replayed_def)
  have "sent @ filter (live_match up (wq_filter req)) q
      = replayed up req before (pub @ [line]) b @ filter (live_match up (wq_filter req)) (drop a (pub @ [line]))"
    if v: "view (bc_send ch line rx) = Some q" for q
  proof -
    obtain q' where q': "view rx = Some q'" "q = q' @ [line]" using view_after_send [OF assms(1) v] by blast
    have "sent @ filter (live_match up (wq_filter req)) q = (sent @ filter (live_match up (wq_filter req)) q') @ filter (live_match up (wq_filter req)) [line]"
      using q'(2) by simp
    also have "\<dots> = replayed up req before pub b @ filter (live_match up (wq_filter req)) (drop a pub @ [line])" using f(4) [OF q'(1)] by simp
    finally show ?thesis using f(2,3) same by simp
  qed
  moreover have "map_option (bc_send ch line) rx0 = Some (bc_send ch line rx)" "b \<le> length (pub @ [line])" using f(1,3) by simp_all
  ultimately show ?thesis unfolding following_def using f(2) by blast
qed

lemma log_inv_publish:
  assumes "broadcast_laws (we_logs we) view" "log_inv (we_upper we) view req before pub w"
  shows "log_inv (we_upper we) view req before (pub @ published_by (wq_id req) (LogPublished line)) (watch_act env we req (LogPublished line) w)"
  using assms(2) awaiting_publish [OF assms(1), of pub "ww_logs w" "log_lines (ww_out w)" line]
    following_publish [OF assms(1), of "we_upper we" req before pub "ww_logs w" "log_lines (ww_out w)" line] last_n_snoc [of DEFAULT_TAIL "before @ pub" line]
  by (cases "ww_pc w") (auto simp: log_inv_def watch_act_def log_phase_def buffered_publish)

lemma log_inv_act:
  assumes "broadcast_laws (we_logs we) view" "log_inv (we_upper we) view req before pub w" "wq_follow_logs req" "label \<noteq> BusesRemoved (wq_id req)"
  shows "log_inv (we_upper we) view req before (pub @ published_by (wq_id req) label) (watch_act env we req label w)"
proof (cases label)
  case (Turn branch)
  then show ?thesis using log_inv_turn assms by (simp add: watch_act_def)
next
  case (LogPublished line)
  then show ?thesis using log_inv_publish assms by blast
qed (use assms in \<open>auto simp: log_inv_def watch_act_def buffered_def remove_buses_def bus_remove_def Let_def\<close>)

lemma log_inv_run:
  assumes "broadcast_laws (we_logs we) view" "log_inv (we_upper we) view req before pub w" "wq_follow_logs req" "BusesRemoved (wq_id req) \<notin> set labels"
  shows "log_inv (we_upper we) view req before (pub @ published (wq_id req) labels) (fold (watch_act env we req) labels w)"
  using assms(2-4)
proof (induction labels arbitrary: pub w)
  case (Cons label labels)
  have "log_inv (we_upper we) view req before (pub @ published_by (wq_id req) label) (watch_act env we req label w)" using Cons.prems by (intro log_inv_act [OF assms(1)]) auto
  from Cons.IH [OF this] Cons.prems show ?case by (simp add: published_def)
qed (simp add: published_def)


section \<open>The snapshots are current\<close>

definition snapshots :: "(status, 'n stream_event) result list \<Rightarrow> 'n proto_struct sandbox list" where
  "snapshots out = List.map_filter (\<lambda>x. case x of Inr (SandboxSnapshot sb) \<Rightarrow> Some sb | _ \<Rightarrow> None) out"

text \<open>Whether the store was written without a notification since.\<close>

fun stale_after :: "string \<Rightarrow> 'b watch_label \<Rightarrow> bool \<Rightarrow> bool" where
  "stale_after i (StoreChanged s) b = True"
| "stale_after i (Notified j) b = (b \<and> j \<noteq> i)"
| "stale_after i label b = b"

lemma snapshots_simps [simp]:
  "snapshots [] = []" "snapshots (xs @ ys) = snapshots xs @ snapshots ys" "snapshots [Inl e] = []" "snapshots [Inr (SandboxSnapshot sb)] = [sb]"
  "snapshots [Inr (LogEvent line)] = []" "snapshots [Inr (PlatformEvent evt)] = []" "snapshots (map (Inr \<circ> LogEvent) ls) = []"
  "snapshots (map (Inr \<circ> PlatformEvent) es) = []"
  by (simp_all add: snapshots_def List.map_filter_def comp_def)

definition shows_current :: "('n, 'b) lifecycle_env \<Rightarrow> watch_request \<Rightarrow> 'b store \<Rightarrow> 'n proto_struct sandbox list \<Rightarrow> bool" where
  "shows_current env req s sbs \<longleftrightarrow> sbs \<noteq> [] \<and> get_message (le_sandbox env) (wq_id req) s = Inr (Some (last sbs))"

definition will_reread :: "('u \<Rightarrow> unit list option) \<Rightarrow> 'u option \<Rightarrow> bool" where
  "will_reread view rx0 \<longleftrightarrow> (\<exists>rx. rx0 = Some rx \<and> view rx \<noteq> Some [])"

definition status_inv :: "('n, 'b) lifecycle_env \<Rightarrow> ('u \<Rightarrow> unit list option) \<Rightarrow> watch_request \<Rightarrow> bool \<Rightarrow> ('n, 'b, 'u, 'l, 'p) watch_world \<Rightarrow> bool" where
  "status_inv env view req stale w \<longleftrightarrow> ww_pc w \<in> {WCheck, WSubscribe, WDone} \<or> ww_status w \<noteq> None \<and>
     (ww_pc w = WSnapshot \<or> ww_gone w \<or> stale \<or> will_reread view (ww_status w)
      \<or> shows_current env req (gs_store (ww_gateway w)) (snapshots (ww_out w)))"

lemma status_inv_turn:
  assumes "status_inv env view req stale w" "wq_follow_status req"
  shows "status_inv env view req stale (watch_turn env we req branch w)"
proof -
  have start: "status_inv env view req stale (watch_check env req w)" if "ww_pc w = WCheck"
    using that by (auto simp: status_inv_def watch_check_def split: sum.split option.split)
  have sub: "status_inv env view req stale (watch_subscribe we req w)" using assms(2) by (simp add: status_inv_def watch_subscribe_def)
  have snap: "status_inv env view req stale (watch_snapshot env req w)" if "ww_pc w = WSnapshot"
    using that assms(1) by (auto simp: status_inv_def watch_snapshot_def Let_def shows_current_def emit_def indexed_def split: sum.split option.split)
  have logs: "status_inv env view req stale (watch_replay_logs we req w)" if "ww_pc w = WReplayLogs"
    using that assms(1) by (auto simp: status_inv_def watch_replay_logs_def emit_all_pc)
  have evs: "status_inv env view req stale (watch_replay_events req w)" if "ww_pc w = WReplayEvents"
    using that assms(1) by (auto simp: status_inv_def watch_replay_events_def emit_all_pc)
  have st: "status_inv env view req stale (on_status env we req w)" if "ww_pc w = WLoop"
    using that assms(1) by (auto simp: status_inv_def on_status_def Let_def emit_all_pc shows_current_def split: sum.split option.split)
  have lg: "status_inv env view req stale (on_log we req w)" if "ww_pc w = WLoop"
    using that assms(1) by (auto simp: status_inv_def on_log_def Let_def emit_all_pc split: sum.split option.split)
  have ev: "status_inv env view req stale (on_event we w)" if "ww_pc w = WLoop"
    using that assms(1) by (auto simp: status_inv_def on_event_def emit_all_pc split: sum.split option.split)
  show ?thesis using start sub snap logs evs st lg ev assms(1) by (auto simp: watch_turn_def split: watch_pc.split watch_branch.split)
qed

lemma send_rereads: "broadcast_laws ch view \<Longrightarrow> rx0 \<noteq> None \<Longrightarrow> will_reread view (map_option (bc_send ch ()) rx0)"
  by (auto simp: will_reread_def broadcast_laws.send_not_drained)

lemma close_rereads: "broadcast_laws ch view \<Longrightarrow> rx0 \<noteq> None \<Longrightarrow> will_reread view (map_option (bc_close ch) rx0)"
  by (auto simp: will_reread_def broadcast_laws.view_close)

lemma status_inv_act:
  assumes "broadcast_laws (we_status we) view" "status_inv env view req stale w" "wq_follow_status req"
  shows "status_inv env view req (stale_after (wq_id req) label stale) (watch_act env we req label w)"
proof (cases label)
  case (Turn branch)
  then show ?thesis using status_inv_turn assms by (simp add: watch_act_def)
next
  case (Notified j)
  then show ?thesis using assms send_rereads [OF assms(1), of "ww_status w"] by (auto simp: status_inv_def watch_act_def)
next
  case (BusesRemoved j)
  then show ?thesis using assms close_rereads [OF assms(1), of "ww_status w"] by (auto simp: status_inv_def watch_act_def remove_buses_def Let_def)
qed (use assms in \<open>auto simp: status_inv_def watch_act_def publish_line_def Let_def\<close>)


section \<open>How a stream ends\<close>

definition goes_on :: "watch_request \<Rightarrow> (status, 'n stream_event) result \<Rightarrow> bool" where
  "goes_on req x \<longleftrightarrow> (case x of Inl _ \<Rightarrow> False | Inr (SandboxSnapshot sb) \<Rightarrow> \<not> stops_at req sb | _ \<Rightarrow> True)"

definition end_inv :: "watch_request \<Rightarrow> ('n, 'b, 'u, 'l, 'p) watch_world \<Rightarrow> bool" where
  "end_inv req w \<longleftrightarrow> list_all (goes_on req) (if ww_pc w = WDone then butlast (ww_out w) else ww_out w)"

lemma goes_on_simps [simp]:
  "goes_on req (Inr (LogEvent line))" "goes_on req (Inr (PlatformEvent evt))" "goes_on req (Inr (SandboxSnapshot sb)) = (\<not> stops_at req sb)"
  "\<not> goes_on req (Inl e)"
  by (simp_all add: goes_on_def)

lemma all_butlast: "list_all P xs \<Longrightarrow> list_all P (butlast xs)"
  by (auto simp: list_all_iff dest: in_set_butlastD)

lemma end_inv_finish: "list_all (goes_on req) (ww_out w) \<Longrightarrow> end_inv req (finish (emit x w))" "list_all (goes_on req) (ww_out w) \<Longrightarrow> end_inv req (finish w)"
  by (auto simp: end_inv_def emit_def all_butlast)

lemma end_inv_emit_all:
  "list_all (goes_on req) (ww_out w) \<Longrightarrow> list_all (goes_on req) (map Inr evs) \<Longrightarrow> end_inv req (emit_all evs pc w)"
  by (auto simp: end_inv_def emit_all_pc all_butlast)

lemma end_inv_turn:
  assumes "end_inv req w"
  shows "end_inv req (watch_turn env we req branch w)"
proof (cases "ww_pc w = WDone")
  case False
  then have out: "list_all (goes_on req) (ww_out w)" using assms by (simp add: end_inv_def)
  have start: "end_inv req (watch_check env req w)"
    using out by (auto simp: watch_check_def end_inv_finish split: sum.split option.split) (simp add: end_inv_def)
  have sub: "end_inv req (watch_subscribe we req w)" using out by (simp add: watch_subscribe_def end_inv_def)
  have snap: "end_inv req (watch_snapshot env req w)"
    using out by (auto simp: watch_snapshot_def end_inv_finish Let_def split: sum.split option.split) (auto simp: end_inv_def emit_def indexed_def)
  have logs: "end_inv req (watch_replay_logs we req w)" "end_inv req (watch_replay_events req w)"
    using out by (auto simp: watch_replay_logs_def watch_replay_events_def list_all_iff intro!: end_inv_emit_all)
  have st: "end_inv req (on_status env we req w)"
    using out by (auto simp: on_status_def end_inv_finish Let_def intro!: end_inv_emit_all split: sum.split option.split)
      (auto simp: end_inv_def emit_all_pc all_butlast)
  have lg: "end_inv req (on_log we req w)"
    using out False by (auto simp: on_log_def end_inv_finish Let_def intro!: end_inv_emit_all split: sum.split option.split) (auto simp: end_inv_def)
  have ev: "end_inv req (on_event we w)"
    using out False by (auto simp: on_event_def end_inv_finish intro!: end_inv_emit_all split: sum.split option.split) (auto simp: end_inv_def)
  show ?thesis using start sub snap logs st lg ev assms by (auto simp: watch_turn_def split: watch_pc.split watch_branch.split)
qed (use assms in \<open>simp add: watch_turn_def\<close>)

text \<open>An error, and a snapshot in the phase \<open>Ready\<close> when the client asked to stop there, is the last thing a watch stream carries.\<close>

theorem watch_stream_end:
  "case handle_watch_sandbox env we req labels g of Inl e \<Rightarrow> wq_id req = [] | Inr w \<Rightarrow> list_all (goes_on req) (butlast (ww_out w))"
proof -
  have "end_inv req (watch_act env we req label w)" if "end_inv req w" for label and w :: "('a, 'b, 'c, 'd, 'e) watch_world"
  proof (cases label)
    case (Turn branch)
    then show ?thesis using end_inv_turn [OF that] by (simp add: watch_act_def)
  qed (use that in \<open>auto simp: watch_act_def end_inv_def Let_def split: if_splits\<close>)
  then have "end_inv req (fold (watch_act env we req) labels w)" if "end_inv req w" for w :: "('a, 'b, 'c, 'd, 'e) watch_world"
    using that by (induction labels arbitrary: w) auto
  from this [of "watch_start g"] show ?thesis
    by (auto simp: handle_watch_sandbox_def end_inv_def watch_start_def all_butlast split: if_splits)
qed

section \<open>Where the stream differs from its description\<close>

text \<open>A request to stop at a terminal phase does not stop when the sandbox failed.\<close>

theorem error_phase_not_terminal: "\<not> stops_at req (sandbox\<lparr>sb_phase := phase_number PhaseError\<rparr>)"
  by (simp add: stops_at_def phase_number_def)

text \<open>The time filter of the request is applied to the replay only.\<close>

theorem since_not_applied_live:
  assumes "ww_pc w = WLoop" "ww_logs w = Some rx" "bc_recv (we_logs we) rx = Some (Inr line, rx')" "\<not> ww_gone w" "live_match (we_upper we) (wq_filter req) line"
    and "0 < lf_since_ms (wq_filter req)" "lo_timestamp_ms line < lf_since_ms (wq_filter req)"
  shows "\<not> log_match (we_upper we) (wq_filter req) line \<and> ww_out (watch_turn env we req LogReady w) = ww_out w @ [Inr (LogEvent line)]"
  using assms by (simp add: log_match_def watch_turn_def on_log_def emit_all_def)

section \<open>A channel\<close>

text \<open>A bounded queue that drops the oldest value when it is full and reports the loss, with the capacities of the gateway.\<close>

record 'e rx =
  rx_queue :: "'e list"
  rx_missed :: nat
  rx_closed :: bool

definition rx_send :: "nat \<Rightarrow> 'e \<Rightarrow> 'e rx \<Rightarrow> 'e rx" where
  "rx_send capacity e rx = (if rx_closed rx then rx
     else let q = rx_queue rx @ [e] in
       if length q > capacity then rx\<lparr>rx_queue := tl q, rx_missed := rx_missed rx + 1\<rparr> else rx\<lparr>rx_queue := q\<rparr>)"

definition rx_recv :: "'e rx \<Rightarrow> ((recv_error, 'e) result \<times> 'e rx) option" where
  "rx_recv rx = (if rx_missed rx > 0 then Some (Inl (Lagged (rx_missed rx)), rx\<lparr>rx_missed := 0\<rparr>)
     else case rx_queue rx of
       e # q \<Rightarrow> Some (Inr e, rx\<lparr>rx_queue := q\<rparr>)
     | [] \<Rightarrow> if rx_closed rx then Some (Inl Closed, rx) else None)"

definition rx_view :: "'e rx \<Rightarrow> 'e list option" where
  "rx_view rx = (if rx_missed rx > 0 \<or> rx_closed rx then None else Some (rx_queue rx))"

definition rx_new :: "'e rx" where "rx_new = \<lparr>rx_queue = [], rx_missed = 0, rx_closed = False\<rparr>"

definition queue_channel :: "nat \<Rightarrow> ('e rx, 'e) broadcast" where
  "queue_channel capacity = \<lparr>bc_new = rx_new, bc_send = rx_send capacity, bc_recv = rx_recv, bc_close = (\<lambda>rx. rx\<lparr>rx_closed := True\<rparr>)\<rparr>"

definition STATUS_CAPACITY :: nat where "STATUS_CAPACITY = 128"

definition EVENT_CAPACITY :: nat where "EVENT_CAPACITY = 1024"

lemma queue_channel_laws: "broadcast_laws (queue_channel capacity) rx_view"
proof
  fix c :: "'a rx" and e q
  show "rx_view c = Some (e # q) \<Longrightarrow> \<exists>c'. bc_recv (queue_channel capacity) c = Some (Inr e, c') \<and> rx_view c' = Some q"
    by (intro exI [of _ "c\<lparr>rx_queue := q\<rparr>"]) (auto simp: queue_channel_def rx_view_def rx_recv_def split: if_splits)
qed (auto simp: queue_channel_def rx_view_def rx_send_def rx_recv_def rx_new_def Let_def split: if_splits list.splits)

interpretation status_channel: broadcast_laws "queue_channel STATUS_CAPACITY" rx_view
  by (rule queue_channel_laws)

interpretation event_channel: broadcast_laws "queue_channel EVENT_CAPACITY" rx_view
  by (rule queue_channel_laws)

definition gateway_channels :: "(unit rx, log_line rx, platform_event rx) watch_env" where
  "gateway_channels = \<lparr>we_upper = id, we_status = queue_channel STATUS_CAPACITY, we_logs = queue_channel EVENT_CAPACITY, we_events = queue_channel EVENT_CAPACITY\<rparr>"

section \<open>An example\<close>

definition watch_all :: watch_request where
  "watch_all = \<lparr>wq_id = ''s1'', wq_follow_status = True, wq_follow_logs = True, wq_follow_events = False, wq_log_tail_lines = 0,
     wq_stop_on_terminal = False, wq_filter = \<lparr>lf_since_ms = 0, lf_sources = [], lf_min_level = []\<rparr>\<rparr>"

text \<open>A line published between subscription and replay, and one that is followed live.\<close>

definition example_labels :: "int proto_struct sandbox watch_label list" where
  "example_labels = [Turn LogReady, Turn LogReady, LogPublished (example_line 1), Turn LogReady, Turn LogReady, Turn LogReady,
     LogPublished (example_line 2), Turn LogReady, Turn LogReady, Notified ''s1'', Turn StatusReady]"

definition example_world :: "(int, int proto_struct sandbox, unit rx, log_line rx, platform_event rx) watch_world" where
  "example_world = fold (watch_act example_env gateway_channels watch_all) example_labels (watch_start one_sandbox)"

lemma example_watch: "handle_watch_sandbox example_env gateway_channels watch_all example_labels one_sandbox = Inr example_world"
  by (simp add: handle_watch_sandbox_def watch_all_def example_world_def)

lemma example_record: "get_message (le_sandbox example_env) ''s1'' (gs_store one_sandbox) = Inr (Some (ob_payload (hd (st_objects (gs_store one_sandbox)))))"
  by (simp add: get_message_def decode_record_def db_get_def one_sandbox_def example_env_def)

lemma one_sandbox_logs: "gs_logs one_sandbox = Map.empty"
  by (simp add: one_sandbox_def example_gateway_state_def)

lemma example_turns:
  "ww_pc example_world = WLoop" "ww_logs example_world = Some rx_new" "ww_status example_world = Some rx_new" "\<not> ww_gone example_world"
  "log_lines (ww_out example_world) = [example_line 1, example_line 1, example_line 2]"
  unfolding example_world_def example_labels_def fold_simps comp_def
  by (simp_all add: watch_act_def watch_turn_def watch_start_def watch_check_def watch_subscribe_def watch_snapshot_def watch_replay_logs_def watch_replay_events_def
      on_status_def on_log_def emit_all_def emit_def indexed_def publish_line_def bus_publish_def bus_tail_def rx_send_def rx_recv_def rx_new_def
      example_record watch_all_def example_line_def log_match_def live_match_def level_matches_def stops_at_def gateway_channels_def queue_channel_def log_tail_of_def Let_def
      EVENT_CAPACITY_def STATUS_CAPACITY_def DEFAULT_TAIL_def one_sandbox_logs log_lines_def List.map_filter_def)

lemma example_published: "published ''s1'' example_labels = [example_line 1, example_line 2]"
  by (simp add: published_def example_labels_def example_line_def)

lemma gateway_channel_laws: "broadcast_laws (we_logs gateway_channels) rx_view" "broadcast_laws (we_status gateway_channels) rx_view" "we_upper gateway_channels = id"
  by (simp_all add: gateway_channels_def queue_channel_laws)

lemma rx_new_view: "rx_view rx_new = Some []"
  by (simp add: rx_view_def rx_new_def)



end
