(* ===== verification/Policy_Reads.thy ===== *)
theory Policy_Reads
  imports Draft_Undo
begin

text \<open>
  The handlers of \<open>grpc/policy.rs\<close> that only read: the settings of the gateway, the environment of a sandbox's providers, the status and
  the list of policy revisions, and the draft chunks and their history.
\<close>

section \<open>Settings and provider environment\<close>

definition handle_get_gateway_config :: "('s, 'b) externals \<Rightarrow> ('b, setting_value option str_map \<times> 64 word) handler" where
  "handle_get_gateway_config x =
     gbind (reading (load_global_settings x)) (\<lambda>global_settings.
     gbind (lift_result (materialize_global_settings x global_settings)) (\<lambda>settings.
       ret (settings, se_revision global_settings)))"

definition handle_get_sandbox_provider_environment ::
  "('s, 'b) externals \<Rightarrow> (provider, 'b) message_type \<Rightarrow> string \<Rightarrow> ('b, string str_map) handler" where
  "handle_get_sandbox_provider_environment x pm sandbox_id =
     gbind (sandbox_by_id x sandbox_id) (\<lambda>sandbox. case sb_spec sandbox of
       None \<Rightarrow> fail (internal ''sandbox has no spec'')
     | Some spec \<Rightarrow> reading (resolve_provider_environment pm (ss_providers spec)))"

section \<open>Policy revisions\<close>

record sandbox_policy_revision =
  rv_version :: u32
  rv_policy_hash :: string
  rv_status :: policy_status
  rv_load_error :: string
  rv_created_at_ms :: int
  rv_loaded_at_ms :: int
  rv_policy :: "sandbox_policy option"

definition status_of_text :: "string \<Rightarrow> policy_status" where
  "status_of_text t = (if t = ''pending'' then StPending else if t = ''loaded'' then StLoaded else if t = ''failed'' then StFailed
     else if t = ''superseded'' then StSuperseded else StUnspecified)"

definition policy_record_to_revision :: "('s, 'b) externals \<Rightarrow> 'b policy_record \<Rightarrow> bool \<Rightarrow> sandbox_policy_revision" where
  "policy_record_to_revision x record include_policy =
     \<lparr>rv_version = u32_of_i64 (pl_version record), rv_policy_hash = pl_hash record, rv_status = status_of_text (pl_status record),
      rv_load_error = (case pl_load_error record of Some e \<Rightarrow> e | None \<Rightarrow> []), rv_created_at_ms = pl_created_at_ms record,
      rv_loaded_at_ms = (case pl_loaded_at_ms record of Some t \<Rightarrow> t | None \<Rightarrow> 0),
      rv_policy = (if include_policy then x_policy_dec x (pl_payload record) else None)\<rparr>"

record policy_status_request =
  sq_name :: string
  sq_version :: u32
  sq_global :: bool

definition handle_get_sandbox_policy_status ::
  "('s, 'b) externals \<Rightarrow> policy_status_request \<Rightarrow> ('b, sandbox_policy_revision \<times> u32) handler" where
  "handle_get_sandbox_policy_status x req =
     gbind (if sq_global req then ret (GLOBAL_POLICY_SANDBOX_ID, 0)
       else if sq_name req = [] then fail (invalid_argument ''name is required'')
       else gbind (sandbox_by_name x (sq_name req)) (\<lambda>sandbox. ret (sb_id sandbox, sb_current_policy_version sandbox))) (\<lambda>(policy_id, active_version).
     gbind (reading (\<lambda>s. Inr (if sq_version req = 0 then get_latest_policy policy_id s
         else get_policy_by_version policy_id (uint (sq_version req)) s))) (\<lambda>record. case record of
       None \<Rightarrow> fail (not_found (if sq_global req then ''no global policy revision found'' else ''no policy revision found for this sandbox''))
     | Some record \<Rightarrow> ret (policy_record_to_revision x record True, active_version)))"

record list_policies_request =
  lp_name :: string
  lp_limit :: u32
  lp_offset :: u32
  lp_global :: bool

definition handle_list_sandbox_policies :: "('s, 'b) externals \<Rightarrow> list_policies_request \<Rightarrow> ('b, sandbox_policy_revision list) handler" where
  "handle_list_sandbox_policies x req =
     gbind (if lp_global req then ret GLOBAL_POLICY_SANDBOX_ID
       else if lp_name req = [] then fail (invalid_argument ''name is required'')
       else gbind (sandbox_by_name x (lp_name req)) (\<lambda>sandbox. ret (sb_id sandbox))) (\<lambda>policy_id.
     gbind (reading (\<lambda>s. Inr (list_policies policy_id (clamp_limit (lp_limit req) 50 MAX_PAGE_SIZE) (lp_offset req) s))) (\<lambda>records.
       ret (map (\<lambda>r. policy_record_to_revision x r False) records)))"

section \<open>Draft chunks\<close>

text \<open>A stored confidence is a widened single-precision number, so narrowing it again is exact.\<close>

definition draft_chunk_record_to_proto :: "('s, 'b) externals \<Rightarrow> 'b draft_chunk_record \<Rightarrow> (status, policy_chunk) result" where
  "draft_chunk_record_to_proto x record =
     and_then (if x_bytes x (dc_proposed_rule record) = [] then Inr None
       else case x_rule_dec x (dc_proposed_rule record) of
         None \<Rightarrow> Inl (internal ''decode proposed_rule failed'') | Some rule \<Rightarrow> Inr (Some rule)) (\<lambda>proposed_rule.
     Inr \<lparr>pc_id = dc_id record, pc_status = dc_status record, pc_rule_name = dc_rule_name record, pc_proposed_rule = proposed_rule,
       pc_rationale = dc_rationale record, pc_security_notes = dc_security_notes record, pc_confidence = dc_confidence record,
       pc_denial_summary_ids = [], pc_created_at_ms = dc_created_at_ms record,
       pc_decided_at_ms = (case dc_decided_at_ms record of Some t \<Rightarrow> t | None \<Rightarrow> 0), pc_stage = [], pc_supersedes_chunk_id = [],
       pc_hit_count = dc_hit_count record, pc_first_seen_ms = dc_first_seen_ms record, pc_last_seen_ms = dc_last_seen_ms record,
       pc_binary = dc_binary record\<rparr>)"

record draft_policy_response =
  dr_chunks :: "policy_chunk list"
  dr_rolling_summary :: string
  dr_draft_version :: "64 word"
  dr_last_analyzed_at_ms :: int

definition named_sandbox :: "('s, 'b) externals \<Rightarrow> string \<Rightarrow> ('b, 's sandbox) handler" where
  "named_sandbox x nm = (if nm = [] then fail (invalid_argument ''name is required'') else sandbox_by_name x nm)"

definition handle_get_draft_policy :: "('s, 'b) externals \<Rightarrow> string \<Rightarrow> string \<Rightarrow> ('b, draft_policy_response) handler" where
  "handle_get_draft_policy x nm status_filter =
     gbind (named_sandbox x nm) (\<lambda>sandbox.
     gbind (reading (\<lambda>s. Inr (list_draft_chunks (sb_id sandbox) (if status_filter = [] then None else Some status_filter) s))) (\<lambda>records.
     gbind (reading (\<lambda>s. Inr (get_draft_version (sb_id sandbox) s))) (\<lambda>draft_version.
     gbind (lift_result (map_result (draft_chunk_record_to_proto x) records)) (\<lambda>chunks.
       ret \<lparr>dr_chunks = chunks, dr_rolling_summary = [], dr_draft_version = (if draft_version < 0 then 0 else word_of_int draft_version),
         dr_last_analyzed_at_ms = (case map pc_created_at_ms chunks of [] \<Rightarrow> 0 | t # ts \<Rightarrow> fold max ts t)\<rparr>))))"

record draft_history_entry =
  he_timestamp_ms :: int
  he_event_type :: string
  he_description :: string
  he_chunk_id :: string

text \<open>A percentage without decimals: to the nearest integer, ties to even. The product is exact for a single-precision confidence.\<close>

definition round_half_even :: "rat \<Rightarrow> int" where
  "round_half_even r = (let f = \<lfloor>r\<rfloor>; d = r - of_int f in if d < 1 / 2 \<or> d = 1 / 2 \<and> even f then f else f + 1)"

definition history_of_chunk :: "'b draft_chunk_record \<Rightarrow> draft_history_entry list" where
  "history_of_chunk chunk =
     \<lparr>he_timestamp_ms = dc_created_at_ms chunk, he_event_type = ''proposed'',
      he_description = ''Rule '' @ [SQ] @ dc_rule_name chunk @ [SQ] @ '' proposed (confidence: '' @ show_nat (nat (round_half_even (dc_confidence chunk * 100))) @ ''%)'',
      he_chunk_id = dc_id chunk\<rparr>
     # (case dc_decided_at_ms chunk of None \<Rightarrow> []
        | Some decided_at \<Rightarrow> [\<lparr>he_timestamp_ms = decided_at, he_event_type = dc_status chunk,
            he_description = ''Rule '' @ [SQ] @ dc_rule_name chunk @ [SQ] @ '' '' @ dc_status chunk, he_chunk_id = dc_id chunk\<rparr>])"

definition handle_get_draft_history :: "('s, 'b) externals \<Rightarrow> string \<Rightarrow> ('b, draft_history_entry list) handler" where
  "handle_get_draft_history x nm =
     gbind (named_sandbox x nm) (\<lambda>sandbox.
     gbind (reading (\<lambda>s. Inr (list_draft_chunks (sb_id sandbox) None s))) (\<lambda>all_chunks.
       ret (sort_key he_timestamp_ms (concat (map history_of_chunk all_chunks)))))"

section \<open>Reading changes nothing\<close>

text \<open>A handler that leaves the store as it is and does not panic.\<close>

definition read_only :: "('b, 'a) handler \<Rightarrow> bool" where
  "read_only h \<longleftrightarrow> (\<forall>s. \<exists>r. h s = Some (r, s))"

named_theorems read_only_intro \<open>handlers that only read\<close>

lemma read_only_prims [read_only_intro]:
  "read_only (ret v)" "read_only (fail e)" "read_only (reading f)" "read_only (lift_result r)"
  by (simp_all add: read_only_def handler_defs)

lemma read_only_bind [read_only_intro]: "read_only m \<Longrightarrow> (\<And>v. read_only (k v)) \<Longrightarrow> read_only (gbind m k)"
  unfolding read_only_def
proof
  fix s assume m: "\<forall>s. \<exists>r. m s = Some (r, s)" and k: "\<And>v. \<forall>s. \<exists>r. k v s = Some (r, s)"
  then obtain r where "m s = Some (r, s)" by blast
  then show "\<exists>r. gbind m k s = Some (r, s)" using k by (cases r) (simp_all add: gbind_def)
qed

lemma read_only_named [read_only_intro]: "read_only (sandbox_by_name x nm)" "read_only (sandbox_by_id x i)" "read_only (named_sandbox x nm)"
  by (simp_all add: sandbox_by_name_def sandbox_by_id_def named_sandbox_def read_only_prims)

lemma read_only_splits [read_only_intro]:
  "read_only h1 \<Longrightarrow> read_only h2 \<Longrightarrow> read_only (if b then h1 else h2)"
  "read_only h0 \<Longrightarrow> (\<And>v. read_only (h v)) \<Longrightarrow> read_only (case o0 of None \<Rightarrow> h0 | Some v \<Rightarrow> h v)"
  "(\<And>a b. read_only (g a b)) \<Longrightarrow> read_only (case p of (a, b) \<Rightarrow> g a b)"
  by (auto split: option.split prod.split)

text \<open>The reading handlers return, and leave the store unchanged, on every request.\<close>

theorem reads_are_pure:
  "read_only (handle_get_gateway_config x) \<and> read_only (handle_get_sandbox_provider_environment x pm i) \<and> read_only (handle_get_sandbox_policy_status x sreq)
    \<and> read_only (handle_list_sandbox_policies x lreq) \<and> read_only (handle_get_draft_policy x nm f) \<and> read_only (handle_get_draft_history x nm)"
  unfolding handle_get_gateway_config_def handle_get_sandbox_provider_environment_def handle_get_sandbox_policy_status_def
    handle_list_sandbox_policies_def handle_get_draft_policy_def handle_get_draft_history_def
  by (intro conjI read_only_intro)

section \<open>The history of the chunks\<close>

lemma filter_concat_history:
  "filter (\<lambda>e. he_chunk_id e = cid) (concat (map history_of_chunk cs)) = concat (map history_of_chunk (filter (\<lambda>c. dc_id c = cid) cs))"
  by (induction cs) (auto simp: history_of_chunk_def split: option.split)

lemma filter_unique: "distinct (map f xs) \<Longrightarrow> x \<in> set xs \<Longrightarrow> filter (\<lambda>y. f y = f x) xs = [x]"
proof (induction xs)
  case (Cons a xs)
  show ?case
  proof (cases "a = x")
    case True
    then have "filter (\<lambda>y. f y = f x) xs = []" using Cons.prems(1) by (metis (mono_tags, lifting) distinct.simps(2) filter_False image_eqI list.map(2) list.set_map)
    then show ?thesis using True by simp
  next
    case False
    then have "f a \<noteq> f x" using Cons.prems by auto
    then show ?thesis using Cons False by simp
  qed
qed simp

text \<open>The history of a sandbox is in order of time and holds exactly one proposal for each of its chunks, followed by the decision if the chunk
  is decided and the decision is not dated before the proposal.\<close>

theorem draft_history_complete:
  assumes "store_ok s" "handle_get_draft_history x nm s = Some (Inr entries, s')"
    and "get_message_by_name (x_sandbox x) nm s = Inr (Some sb)" "c \<in> set (st_chunks s)" "dc_sandbox_id c = sb_id sb"
    and "\<forall>t. dc_decided_at_ms c = Some t \<longrightarrow> dc_created_at_ms c \<le> t"
  shows "sorted (map he_timestamp_ms entries) \<and> filter (\<lambda>e. he_chunk_id e = dc_id c) entries = history_of_chunk c
    \<and> he_chunk_id ` set entries = dc_id ` {d \<in> set (st_chunks s). dc_sandbox_id d = sb_id sb}"
proof -
  let ?cs = "list_draft_chunks (sb_id sb) None s"
  have e: "entries = sort_key he_timestamp_ms (concat (map history_of_chunk ?cs))"
    using assms(2,3) by (auto simp: handle_get_draft_history_def named_sandbox_def handler_ok sandbox_by_name_Some split: if_splits)
  have set_cs: "set ?cs = {d \<in> set (st_chunks s). dc_sandbox_id d = sb_id sb}" by (auto simp: list_draft_chunks_def)
  have "distinct (map dc_id (st_chunks s))" using assms(1) by (simp add: store_ok_def chunks_ok_def)
  then have "distinct (map dc_id (filter (\<lambda>d. dc_sandbox_id d = sb_id sb) (st_chunks s)))" by (simp add: distinct_map_filter)
  moreover have "mset (map dc_id ?cs) = mset (map dc_id (filter (\<lambda>d. dc_sandbox_id d = sb_id sb) (st_chunks s)))"
    by (simp add: list_draft_chunks_def)
  ultimately have "distinct (map dc_id ?cs)" by (metis mset_eq_imp_distinct_iff)
  then have one: "filter (\<lambda>d. dc_id d = dc_id c) ?cs = [c]" using assms(4,5) set_cs by (intro filter_unique) auto
  have "filter (\<lambda>e. he_chunk_id e = dc_id c) entries = sort_key he_timestamp_ms (history_of_chunk c)"
    by (simp add: e filter_sort filter_concat_history one)
  also have "\<dots> = history_of_chunk c" using assms(6) by (auto simp: history_of_chunk_def split: option.split)
  finally have "filter (\<lambda>e. he_chunk_id e = dc_id c) entries = history_of_chunk c" .
  moreover have "he_chunk_id ` set (history_of_chunk d) = {dc_id d}" for d by (auto simp: history_of_chunk_def split: option.split)
  then have "he_chunk_id ` set entries = dc_id ` set ?cs" by (auto simp: e image_UN)
  ultimately show ?thesis using set_cs e by simp
qed

section \<open>Listing revisions\<close>

text \<open>Listing the policies of a sandbox returns its revisions newest first, at most a thousand and never more than asked for, without the
  policies themselves.\<close>

theorem policy_list_ordered:
  assumes "store_ok s" "handle_list_sandbox_policies x req s = Some (Inr revisions, s')"
  shows "length revisions \<le> 1000 \<and> (lp_limit req \<noteq> 0 \<longrightarrow> length revisions \<le> unat (lp_limit req)) \<and> (\<forall>r \<in> set revisions. rv_policy r = None)
    \<and> (\<exists>rs. revisions = map (\<lambda>r. policy_record_to_revision x r False) rs \<and> set rs \<subseteq> set (st_policies s) \<and> sorted_wrt (\<lambda>a b. pl_version a > pl_version b) rs)"
proof -
  let ?limit = "clamp_limit (lp_limit req) 50 MAX_PAGE_SIZE"
  obtain i where r: "revisions = map (\<lambda>r. policy_record_to_revision x r False) (list_policies i ?limit (lp_offset req) s)"
    using assms(2) by (auto simp: handle_list_sandbox_policies_def handler_ok sandbox_by_name_Some split: if_splits)
  let ?rows = "filter (\<lambda>r. pl_sandbox_id r = i) (st_policies s)"
  let ?sorted = "sort_key (\<lambda>r. - pl_version r) ?rows"
  have "inj_on (\<lambda>r. (pl_sandbox_id r, pl_version r)) (set (st_policies s))" "distinct (st_policies s)"
    using assms(1) by (auto simp: store_ok_def policies_ok_def distinct_map)
  then have "distinct (map pl_version ?rows)" by (auto simp: distinct_map inj_on_def)
  then have "distinct (map (\<lambda>r. - pl_version r) ?sorted)" by (simp add: distinct_map inj_on_def)
  moreover have "sorted (map (\<lambda>r. - pl_version r) ?sorted)" by simp
  ultimately have "sorted_wrt (<) (map (\<lambda>r. - pl_version r) ?sorted)" by (simp add: strict_sorted_iff)
  then have desc: "sorted_wrt (\<lambda>a b. pl_version a > pl_version b) ?sorted" by (simp add: sorted_wrt_map)
  have "unat ?limit \<le> 1000" "lp_limit req \<noteq> 0 \<longrightarrow> unat ?limit \<le> unat (lp_limit req)"
    by (auto simp: clamp_limit_def MAX_PAGE_SIZE_def min_def word_le_nat_alt)
  moreover have "set (take n (drop m ?sorted)) \<subseteq> set (st_policies s)" for n m using set_take_subset set_drop_subset by fastforce
  ultimately show ?thesis using desc
    by (auto simp: r list_policies_def page_def policy_record_to_revision_def intro!: exI [of _ "take (unat ?limit) (drop (unat (lp_offset req)) ?sorted)"]
        sorted_wrt_take sorted_wrt_drop)
qed

section \<open>The status after a report\<close>

definition sandbox_codec :: "('s, 'b) externals \<Rightarrow> bool" where
  "sandbox_codec x \<longleftrightarrow> mt_object_id (x_sandbox x) = sb_id \<and> mt_object_name (x_sandbox x) = sb_name
     \<and> (\<forall>sb. mt_decode (x_sandbox x) (mt_encode (x_sandbox x) sb) = Some sb)"

lemma put_existing_by_name:
  assumes "sandbox_codec x" "objects_ok s" "db_get_by_name (mt_object_type (x_sandbox x)) nm s = Some r" "ob_id r = sb_id sb"
    and "put_message (x_sandbox x) now sb s = Inr s'"
  shows "get_message_by_name (x_sandbox x) nm s' = Inr (Some sb)"
proof -
  let ?t = "mt_object_type (x_sandbox x)"
  let ?f = "\<lambda>r. if ob_id r = sb_id sb \<and> ob_type r = ?t then r\<lparr>ob_payload := mt_encode (x_sandbox x) sb, ob_updated_at_ms := now\<rparr> else r"
  have r: "r \<in> set (st_objects s)" "ob_type r = ?t" "ob_name r = nm" using assms(3) find_Some_in by (fastforce simp: db_get_by_name_def)+
  then have "st_objects s' = map ?f (st_objects s)"
    using assms(1,4,5) by (auto simp: put_message_def db_put_def sandbox_codec_def list_ex_iff split: if_splits)
  then have "db_get_by_name ?t nm s' = Some (?f r)"
    using assms(3) by (simp add: db_get_by_name_def find_map_if)
  then show ?thesis using assms(1,4) r by (simp add: get_message_by_name_def decode_record_def sandbox_codec_def)
qed

lemma db_get_row:
  assumes "objects_ok s" "row \<in> set (st_objects s)"
  shows "db_get (ob_type row) (ob_id row) s = Some row"
proof (cases "db_get (ob_type row) (ob_id row) s")
  case None
  then show ?thesis using assms(2) by (auto simp: db_get_def find_None_iff)
next
  case (Some r)
  then have "r \<in> set (st_objects s)" "ob_id r = ob_id row" unfolding db_get_def by (auto dest: find_Some_in)
  then show ?thesis using Some objects_ok_id_inj [OF assms(1) _ assms(2)] by simp
qed

text \<open>A revision after the update and the supersession of a report that it was loaded.\<close>

definition reported :: "int \<Rightarrow> int \<Rightarrow> 'b policy_record \<Rightarrow> 'b policy_record" where
  "reported now v r = (if pl_version r = v then r\<lparr>pl_status := ''loaded'', pl_load_error := None, pl_loaded_at_ms := Some now\<rparr>
     else if pl_version r < v \<and> pl_status r \<in> {''pending'', ''loaded''} then r\<lparr>pl_status := ''superseded''\<rparr> else r)"

lemma by_version_after_report:
  "get_policy_by_version i u (snd (supersede_older_policies i v (snd (update_policy_status i v ''loaded'' None (Some now) s))))
    = map_option (reported now v) (get_policy_by_version i u s)"
proof -
  define f where "f = (\<lambda>r :: 'a policy_record. if pl_sandbox_id r = i \<and> pl_version r = v
    then r\<lparr>pl_status := ''loaded'', pl_load_error := None, pl_loaded_at_ms := Some now\<rparr> else r)"
  define g where "g = (\<lambda>r :: 'a policy_record. if pl_sandbox_id r = i \<and> pl_version r < v \<and> pl_status r \<in> {''pending'', ''loaded''}
    then r\<lparr>pl_status := ''superseded''\<rparr> else r)"
  have "st_policies (snd (supersede_older_policies i v (snd (update_policy_status i v ''loaded'' None (Some now) s)))) = map (g \<circ> f) (st_policies s)"
    by (simp add: supersede_older_policies_def update_policy_status_def f_def g_def)
  moreover have "find (\<lambda>r. pl_sandbox_id r = i \<and> pl_version r = u) (map (g \<circ> f) rs)
      = map_option (reported now v) (find (\<lambda>r. pl_sandbox_id r = i \<and> pl_version r = u) rs)" for rs
    by (induction rs) (auto simp: f_def g_def reported_def)
  ultimately show ?thesis by (simp add: get_policy_by_version_def)
qed

lemma report_loaded_run:
  assumes "handle_report_policy_status x now i v (Some StLoaded) e s = Some (Inr (), s')"
    and "sandbox_codec x" "get_message (x_sandbox x) i s = Inr (Some sb)" "sb_id sb = i"
  obtains s2 where "s2 = snd (supersede_older_policies i (uint v) (snd (update_policy_status i (uint v) ''loaded'' None (Some now) s)))"
    "st_objects s2 = st_objects s" "put_message (x_sandbox x) now (sb\<lparr>sb_current_policy_version := v\<rparr>) s2 = Inr s'"
    "list_ex (\<lambda>r. pl_sandbox_id r = i \<and> pl_version r = uint v) (st_policies s)" "v \<noteq> 0"
proof -
  let ?s2 = "snd (supersede_older_policies i (uint v) (snd (update_policy_status i (uint v) ''loaded'' None (Some now) s)))"
  have o: "st_objects ?s2 = st_objects s" by (simp add: update_policy_status_def supersede_older_policies_def Let_def)
  then have got: "get_message (x_sandbox x) i ?s2 = Inr (Some sb)" using assms(3) by (simp add: get_message_def db_get_def)
  obtain r where "db_get (mt_object_type (x_sandbox x)) i s = Some r"
    using assms(3) by (cases "db_get (mt_object_type (x_sandbox x)) i s") (simp_all add: get_message_def decode_record_def)
  then have "r \<in> set (st_objects s)" "ob_id r = i" unfolding db_get_def by (auto dest: find_Some_in)
  then have "list_ex (\<lambda>r. ob_id r = i) (st_objects ?s2)" using o by (auto simp: list_ex_iff)
  then obtain s3 where put: "put_message (x_sandbox x) now (sb\<lparr>sb_current_policy_version := v\<rparr>) ?s2 = Inr s3"
    using assms(2,4) by (auto simp: put_message_def db_put_def sandbox_codec_def)
  have "i \<noteq> [] \<and> v \<noteq> 0" using assms(1) by (cases "i = []"; cases "v = 0") (simp_all add: handle_report_policy_status_def fail_def)
  then have nz: "i \<noteq> []" "v \<noteq> 0" by blast+
  have found: "fst (update_policy_status i (uint v) ''loaded'' None (Some now) s)"
    using assms(1) nz by (simp add: handle_report_policy_status_def gbind_def updating_def fail_def split_beta split: if_splits)
  then have "handle_report_policy_status x now i v (Some StLoaded) e s = Some (Inr (), s3)"
    using nz got put by (simp add: handle_report_policy_status_def gbind_def updating_def reading_def try_writing_def ret_def split_beta)
  then have "s' = s3" using assms(1) by simp
  moreover have "list_ex (\<lambda>r. pl_sandbox_id r = i \<and> pl_version r = uint v) (st_policies s)" using found by (simp add: update_policy_status_def)
  moreover have "put_message (x_sandbox x) now (sb\<lparr>sb_current_policy_version := v\<rparr>) ?s2 = Inr s'" using put \<open>s' = s3\<close> by (simp only:)
  ultimately show ?thesis using nz(2) by (intro that [OF refl o])
qed


definition revision_store :: "unit blob store" where
  "revision_store = (sandbox_store None)\<lparr>st_policies := [\<lparr>pl_id = ''p1'', pl_sandbox_id = ''sb1'', pl_version = 1, pl_payload = BPolicy wider_policy, pl_hash = ''h'',
     pl_status = ''pending'', pl_load_error = None, pl_created_at_ms = 1, pl_loaded_at_ms = None\<rparr>]\<rparr>"

definition example_row :: "unit blob object_record" where
  "example_row = \<lparr>ob_type = ''sandbox'', ob_id = ''sb1'', ob_name = ''dev'', ob_payload = BSandbox (example_sandbox None), ob_created_at_ms = 1, ob_updated_at_ms = 1\<rparr>"

lemma revision_store_reports: "succeeds (handle_report_policy_status example_x 9 ''sb1'' 1 (Some StLoaded) []) revision_store"
  by (simp add: succeeds_def handle_report_policy_status_def handler_defs update_policy_status_def supersede_older_policies_def revision_store_def sandbox_store_def
      get_message_def db_get_def decode_record_def example_x_def put_message_def db_put_def example_sandbox_def Let_def)


end
