(* ===== verification/Spec2Isabelle.thy ===== *)
theory Spec2Isabelle
  imports Secrets_Props Policy_Props Draft_Undo Inference_Props Procfs Ssh_Handshake Opa_Proxy
    Proposal_Props Bypass_Monitor Inference_Routes Exec_Stream Watch_Stream Policy_Reads
begin

text \<open>
  \<^bold>\<open>OpenShell: a verification of the sandbox proxy and of the gateway's policy handling.\<close>

  OpenShell runs agents in sandboxes. Inside a sandbox a proxy (\<open>crates/openshell-sandbox\<close>) is the only way to the
  network: it identifies the binary behind a connection, asks the policy engine, guards the addresses it connects to,
  inspects HTTP requests, injects credentials in place of placeholders, and reports what it denied. A gateway
  (\<open>crates/openshell-server\<close>) stores providers, policies and settings, serves each sandbox its effective
  configuration, and turns reported denials into draft rules that an operator approves.

  \<^bold>\<open>Text and bytes.\<close> Strings and byte buffers are lists of characters, one per byte.
  \<^item> \<open>Orca_Prelude\<close>: results, association lists with the contract of a keyed store, append-only logs.
  \<^item> \<open>Rust_Std\<close>, \<open>Rust_Text\<close>, \<open>Utf8\<close>: what the sources use of the standard library, with the wrap-around and the
    errors of number parsing, Unicode white space, strict and lossy UTF-8.

  \<^bold>\<open>Credentials\<close> (\<open>secrets.rs\<close>): \<open>Secrets\<close> has every function of the file, from building the resolver to rewriting a
  header block; \<open>Secrets_Props\<close> shows that rewriting fails closed, cannot inject header lines, keeps the structure of
  paths, that redaction does not depend on secrets, and that percent coding is invertible.

  \<^bold>\<open>HTTP.\<close> \<open>Inference_Http\<close> and \<open>Inference_Props\<close> (\<open>l7/inference.rs\<close>): the incremental parser and the response
  formatter, with the chunked round trip and the stability of a completed parse. \<open>Rest_Http\<close> and \<open>Rest_Relay\<close>
  (\<open>l7/rest.rs\<close>, \<open>l7/provider.rs\<close>): request and response framing and the copy loops; a connection is the list of
  segments that reads return and the bytes written so far. \<open>L7_Relay\<close> (\<open>l7/relay.rs\<close>, \<open>l7/mod.rs\<close>): the inspected
  relay, whose loop ends because every request consumes input, and its enforcement theorem.

  \<^bold>\<open>Proxy\<close> (\<open>proxy.rs\<close>). \<open>Proxy_Net\<close>: address classes, equal to CIDR membership, and resolution guards, an interface
  (\<open>address_guard\<close>) that both resolvers implement. \<open>Proxy_Http\<close>: targets, URIs and forward requests.
  \<open>Inference_Proxy\<close>: interception of \<open>inference.local\<close>. \<open>Identity\<close> (\<open>identity.rs\<close>): the trust-on-first-use cache, as
  one operation that refines a write-once store and as interleaved critical sections. \<open>Denials\<close>
  (\<open>denial_aggregator.rs\<close>): the incremental table refines the summary of the history, and no denial is lost.
  \<open>Proxy_Connect\<close>: the two connection handlers over all of these. \<open>Procfs\<close> (\<open>procfs.rs\<close>): from a port to a process.

  \<^bold>\<open>Policy engine.\<close> \<open>Rego_Policy\<close>: every rule of \<open>data/sandbox-policy.rego\<close> over JSON documents. \<open>Opa_Data\<close>: the data
  document of a policy message (\<open>opa.rs\<close>), validation and preset expansion (\<open>l7/mod.rs\<close>). \<open>Opa_Engine\<close> (\<open>opa.rs\<close>):
  loading, reloading and every query, and the engine as the oracle of the proxy. \<open>Opa_Props\<close>: which messages load, and
  that the engine decides connections and requests as the message says. \<open>Opa_Proxy\<close>: the policy message governs the
  connections and inspected requests of the proxy, and which endpoint configures a connection.

  \<^bold>\<open>Policies\<close> (\<open>crates/openshell-policy\<close>): \<open>Policy_Model\<close> and \<open>Policy_Props\<close>, the schema, both conversions, and the
  safety validation with its exact characterisation.

  \<^bold>\<open>Gateway\<close> (\<open>crates/openshell-server/src\<close>). \<open>Validation\<close> (\<open>grpc/validation.rs\<close>); \<open>Persistence\<close> and
  \<open>Persistence_Props\<close>: the three tables with the statements of the SQLite backend and the invariants of every run;
  \<open>Provider_Store\<close> (\<open>grpc/provider.rs\<close>); \<open>Exec_Command\<close> (the exec part of \<open>grpc/sandbox.rs\<close>); \<open>Settings\<close> and
  \<open>Gateway_Monad\<close>, \<open>Config_Update\<close>, \<open>Config_Props\<close> (configuration handlers of \<open>grpc/policy.rs\<close>); \<open>Draft_Policy\<close>,
  \<open>Draft_Props\<close>, \<open>Gateway_Machine\<close> and \<open>Draft_Undo\<close> (the draft workflow: merging, optimistic retries, approval,
  undo, and the life cycle of a chunk over every run); \<open>Ssh_Sessions\<close> (the session handlers of \<open>grpc/sandbox.rs\<close>
  and \<open>ssh_tunnel.rs\<close>: who may connect, revocation over every later run, exact connection counters, the reaper);
  \<open>Ssh_Handshake\<close> (the signed preface between \<open>ssh_tunnel.rs\<close> and the sandbox's \<open>ssh.rs\<close>: it is understood, only issued
  prefaces are accepted, and what replay protection gives over every run).

  \<^bold>\<open>From denials to proposals.\<close> \<open>Proposals\<close> (\<open>mechanistic_mapper.rs\<close>): grouping, rule names, confidence in single
  precision, generalised paths and the chunks that a flush submits; \<open>Proposal_Props\<close>: one proposal for each denied
  connection, and approving it makes the loaded engine grant the connection. \<open>Bypass_Monitor\<close> (\<open>bypass_monitor.rs\<close>):
  kernel log lines become denials.

  \<^bold>\<open>Inference.\<close> \<open>Router\<close> (\<open>crates/openshell-router\<close>, \<open>core/inference.rs\<close>): profiles, route files, the requests to
  backends and their validation; every request goes to a selected route with its own key only. \<open>Inference_Routes\<close>
  (server \<open>inference.rs\<close> and the route caches of the sandbox's \<open>lib.rs\<close>): a confirmed configuration is served, and
  the caches follow the gateway over every sequence of refreshes.

  \<^bold>\<open>Sandboxes.\<close> \<open>Policy_Loading\<close> (sandbox \<open>lib.rs\<close>, \<open>policy.rs\<close>, \<open>grpc_client.rs\<close>): baseline paths, discovery, the
  start, and the poll loop, which runs the last served policy that loads. \<open>Sandbox_Pod\<close> (server \<open>sandbox/mod.rs\<close>): the
  Kubernetes resource of a sandbox; it always runs the supervisor with the gateway's variables. \<open>Sandbox_Lifecycle\<close>
  (\<open>grpc/sandbox.rs\<close>, \<open>sandbox/mod.rs\<close>, \<open>sandbox_index.rs\<close>, \<open>tracing_bus.rs\<close>): creation, deletion, the watcher and the
  reconciler as steps on store, index and log buffers, with the invariant of every run.
  \<open>Exec_Stream\<close>: the SSH session of an exec request with its retries, and the stream the client receives. \<open>Log_Pipeline\<close>
  (\<open>log_push.rs\<close>, \<open>tracing_bus.rs\<close>): log lines from a sandbox to the buffers of the gateway. \<open>Watch_Stream\<close>: the watch handler over broadcast
  channels (an interface), interleaved with all other activity. \<open>Policy_Reads\<close>: the reading handlers of \<open>grpc/policy.rs\<close>.

  \<^bold>\<open>Bounds.\<close> Loops are structural or have a measure; the walk over child processes may not end and is a partial
  function into an option, proved to return over every finite acyclic process tree. Chunked parsing carries the
  count limit of the source (4096). The retry loop of a merge has the source's limit of five attempts, and its theorem
  holds for every interference between them. Counters of denials are 32-bit words, ports 16-bit words, addresses
  32- and 128-bit words; lengths are natural numbers with the checks of the source against \<open>usize\<close> written out.

  \<^bold>\<open>Parameters.\<close> Code outside the repository enters as arguments: Base64, JSON and YAML text, protobuf encoding,
  hashing, the Rego built-ins for case and glob matching, name resolution and CIDR parsing, sockets, TLS, SSH, broadcast channels, the file system and \<open>/proc\<close>, time and identifiers, and
  the iteration order of hash maps.

  \<^bold>\<open>Not modelled.\<close> The command line client, the terminal interface, cluster bootstrap and the event schema (no core
  state); starting processes, Landlock, seccomp, network namespaces, SSH and WebSocket transport, listening sockets
  and migrations (I/O); the PostgreSQL twin of the SQLite statements (the same statements); log events.
\<close>

end
